(* ===== verification/Prelude.thy ===== *)
theory Prelude
  imports Complex_Main "HOL-Library.Word" "HOL-Library.AList"
begin

text \<open>
  Shared vocabulary of the development: Go's 64-bit and 32-bit integers with the wrap-around
  written out, Go maps as association lists, the sentinel errors of the packages, time, and the
  lemmas and simp collections that the component theories use.

  Go's \<open>int\<close> and \<open>int64\<close> are 64 bits wide on every platform the gateway is built for. A value is
  an Isabelle \<open>int\<close>; every addition, subtraction, multiplication and division of the source that
  is not already guarded goes through \<open>i64\<close>, the two's complement wrap-around.
\<close>

section \<open>Integers\<close>

definition max_int64 :: int where "max_int64 = 9223372036854775807"
definition min_int64 :: int where "min_int64 = - 9223372036854775808"
definition max_int32 :: int where "max_int32 = 2147483647"
definition min_int32 :: int where "min_int32 = - 2147483648"

definition in_i64 :: "int \<Rightarrow> bool" where
  "in_i64 x \<longleftrightarrow> min_int64 \<le> x \<and> x \<le> max_int64"

definition in_i32 :: "int \<Rightarrow> bool" where
  "in_i32 x \<longleftrightarrow> min_int32 \<le> x \<and> x \<le> max_int32"

definition i64 :: "int \<Rightarrow> int" where
  "i64 x = (x + 9223372036854775808) mod 18446744073709551616 - 9223372036854775808"

definition i32 :: "int \<Rightarrow> int" where
  "i32 x = (x + 2147483648) mod 4294967296 - 2147483648"

text \<open>Go's integer division truncates towards zero.\<close>

definition go_div :: "int \<Rightarrow> int \<Rightarrow> int" where
  "go_div a b = i64 (sgn a * sgn b * (\<bar>a\<bar> div \<bar>b\<bar>))"

named_theorems go_int "the constants and range predicates of Go integers"

lemmas go_int_defs [go_int] =
  max_int64_def min_int64_def max_int32_def min_int32_def in_i64_def in_i32_def

lemma i64_id [simp]: "in_i64 x \<Longrightarrow> i64 x = x"
  by (simp add: i64_def go_int)

lemma i64_in [simp]: "in_i64 (i64 x)"
proof -
  have "0 \<le> (x + 9223372036854775808) mod 18446744073709551616"
    and "(x + 9223372036854775808) mod 18446744073709551616 < 18446744073709551616"
    by simp_all
  then show ?thesis by (simp add: i64_def go_int)
qed

lemma i32_id [simp]: "in_i32 x \<Longrightarrow> i32 x = x"
  by (simp add: i32_def go_int)

lemma in_i32_in_i64: "in_i32 x \<Longrightarrow> in_i64 x"
  by (simp add: go_int)

lemma go_div_pos:
  assumes "0 \<le> a" "a \<le> max_int64" "0 < b"
  shows "go_div a b = a div b"
proof -
  have "a div b \<le> a"
    using assms by (metis abs_of_nonneg div_by_1 int_one_le_iff_zero_less zdiv_mono2 zero_less_one)
  moreover have "0 \<le> a div b"
    using assms by (simp add: pos_imp_zdiv_nonneg_iff)
  ultimately have "in_i64 (a div b)"
    using assms by (simp add: go_int)
  then show ?thesis
    using assms by (cases "a = 0") (auto simp: go_div_def)
qed

lemma go_div_lt_iff:
  assumes "0 < b" "0 \<le> m" "m \<le> max_int64"
  shows "go_div m b < a \<longleftrightarrow> m < a * b"
proof -
  have "m div b < a \<longleftrightarrow> m < a * b"
  proof
    assume "m div b < a"
    then have "b * (m div b + 1) \<le> b * a"
      using assms(1) by (intro mult_left_mono) auto
    moreover have "m < b * (m div b + 1)"
      using pos_mod_bound [OF assms(1), of m] mult_div_mod_eq [of b m]
      unfolding distrib_left by linarith
    ultimately show "m < a * b" by (simp add: mult.commute)
  next
    assume "m < a * b"
    moreover have "b * (m div b) \<le> m"
      using pos_mod_sign [OF assms(1), of m] mult_div_mod_eq [of b m] by linarith
    ultimately have "b * (m div b) < b * a" by (simp add: mult.commute)
    then show "m div b < a" using assms(1) by simp
  qed
  then show ?thesis using go_div_pos [of m b] assms by simp
qed

text \<open>Rounding up, as the price formula \<open>(total + n - 1) / n\<close> does.\<close>

definition ceil_div :: "int \<Rightarrow> int \<Rightarrow> int" where
  "ceil_div a b = (a + b - 1) div b"

lemma ceil_div_mono: "a \<le> a' \<Longrightarrow> 0 < b \<Longrightarrow> ceil_div a b \<le> ceil_div a' b"
  by (simp add: ceil_div_def zdiv_mono1)

lemma ceil_div_nonneg: "0 \<le> a \<Longrightarrow> 0 < b \<Longrightarrow> 0 \<le> ceil_div a b"
  by (simp add: ceil_div_def pos_imp_zdiv_nonneg_iff)

lemma ceil_div_covers:
  assumes "0 < b"
  shows "a \<le> b * ceil_div a b" and "b * ceil_div a b < a + b"
proof -
  have e: "b * ceil_div a b = (a + b - 1) - (a + b - 1) mod b"
    by (simp add: ceil_div_def minus_mod_eq_mult_div)
  have "(a + b - 1) mod b < b" "0 \<le> (a + b - 1) mod b"
    using assms by simp_all
  then show "a \<le> b * ceil_div a b" "b * ceil_div a b < a + b"
    unfolding e by linarith+
qed

section \<open>Time\<close>

text \<open>
  A \<open>time.Time\<close> is a number of nanoseconds since Go's zero time; \<open>IsZero\<close> is equality with 0.
  A \<open>time.Duration\<close> is a number of nanoseconds.
\<close>

type_synonym gotime = int
type_synonym duration = int

definition is_zero_time :: "gotime \<Rightarrow> bool" where
  "is_zero_time t \<longleftrightarrow> t = 0"

definition second :: duration where "second = 1000000000"
definition minute :: duration where "minute = 60 * second"
definition hour :: duration where "hour = 60 * minute"

named_theorems go_time "the durations"

lemmas go_time_defs [go_time] = second_def minute_def hour_def is_zero_time_def

section \<open>Errors\<close>

text \<open>
  The sentinel errors of the packages. \<open>fmt.Errorf\<close> with the verb \<open>%w\<close> wraps an error with a text
  and \<open>errors.Is\<close> sees through it; no branch of the program depends on the text, so a wrapped
  sentinel is the sentinel. \<open>ErrJoined\<close> is \<open>errors.Join\<close>.
\<close>

datatype goerr =
    ErrInvalidTokenLimit | ErrCostOverflow | ErrUnknownModelPolicy
  | ErrReservationConflict | ErrInvalidTransition | ErrReservationExceeded
  | ErrAmbiguousReservations
  | ErrStoreKeyNotFound | ErrUserExists | ErrUserNotFound | ErrKeyExists | ErrBalanceOverflow
  | ErrNoRows | ErrPg string
  | ErrNoChannel | ErrUpstreamNotDialed
  | ErrSessionNotFound | ErrTooManyActiveSessions | ErrRedis
  | ErrAccountNotFound | ErrAccountConflict | ErrInvalidRole
  | ErrPasswordTooShort | ErrPasswordTooLong
  | ErrAdminNotFound | ErrConflict | ErrInvalidInput | ErrLimitReached
  | ErrChannelKeyEncryptionRequired | ErrInvalidChannelKeyEnvelope | ErrPlaintextChannelKeys
  | ErrEOF | ErrSSERecordTooLarge | ErrUpstreamResponseTooLarge | ErrUnexpected | ErrMaxBytes
  | ErrContext | ErrPanic | ErrOther string
  | ErrJoined "goerr list"

fun errors_is :: "goerr \<Rightarrow> goerr \<Rightarrow> bool" where
  "errors_is (ErrJoined es) t \<longleftrightarrow> ErrJoined es = t \<or> (\<exists>e \<in> set es. errors_is e t)"
| "errors_is e t \<longleftrightarrow> e = t"

type_synonym 'a result = "goerr + 'a"

fun is_ok :: "'a result \<Rightarrow> bool" where
  "is_ok (Inl _) = False"
| "is_ok (Inr _) = True"

lemma is_ok_iff: "is_ok r \<longleftrightarrow> (\<exists>x. r = Inr x)"
  by (cases r) auto

section \<open>Go maps\<close>

text \<open>
  A Go map is an association list. \<open>m[k]\<close> is \<open>map_of m k\<close>, \<open>m[k] = v\<close> is \<open>mput k v m\<close>, \<open>delete(m, k)\<close>
  is \<open>mdel k m\<close>. The operations keep the keys distinct, which is the invariant \<open>mwf\<close>. The order of
  the list stands for the (unspecified) iteration order of the Go map.
\<close>

type_synonym ('k, 'v) gomap = "('k \<times> 'v) list"

abbreviation mput :: "'k \<Rightarrow> 'v \<Rightarrow> ('k, 'v) gomap \<Rightarrow> ('k, 'v) gomap" where
  "mput \<equiv> AList.update"

abbreviation mdel :: "'k \<Rightarrow> ('k, 'v) gomap \<Rightarrow> ('k, 'v) gomap" where
  "mdel \<equiv> AList.delete"

definition mwf :: "('k, 'v) gomap \<Rightarrow> bool" where
  "mwf m \<longleftrightarrow> distinct (map fst m)"

definition mhas :: "('k, 'v) gomap \<Rightarrow> 'k \<Rightarrow> bool" where
  "mhas m k \<longleftrightarrow> map_of m k \<noteq> None"

lemma mget_mput [simp]: "map_of (mput k v m) = (map_of m)(k \<mapsto> v)"
  by (rule update_conv')

lemma mget_mdel [simp]: "map_of (mdel k m) = (map_of m)(k := None)"
  by (rule delete_conv')

text \<open>Reading an absent key of a map of numbers gives 0.\<close>

definition mget0 :: "('k, int) gomap \<Rightarrow> 'k \<Rightarrow> int" where
  "mget0 m k = (case map_of m k of None \<Rightarrow> 0 | Some x \<Rightarrow> x)"

lemma mget0_mput [simp]: "mget0 (mput k v m) k' = (if k' = k then v else mget0 m k')"
  by (simp add: mget0_def)

lemma mwf_Nil [simp, intro]: "mwf []"
  by (simp add: mwf_def)

lemma mwf_mput [simp, intro]: "mwf m \<Longrightarrow> mwf (mput k v m)"
  by (simp add: mwf_def distinct_update)

lemma mwf_mdel [simp, intro]: "mwf m \<Longrightarrow> mwf (mdel k m)"
  by (simp add: mwf_def distinct_delete)

lemma mwf_Cons [simp]: "mwf ((k, v) # m) \<longleftrightarrow> k \<notin> fst ` set m \<and> mwf m"
  by (auto simp: mwf_def)

lemma mget_set: "mwf m \<Longrightarrow> map_of m k = Some v \<longleftrightarrow> (k, v) \<in> set m"
  by (simp add: mwf_def)

lemma mput_fresh: "map_of m k = None \<Longrightarrow> mput k v m = m @ [(k, v)]"
  by (induction m) (auto split: if_splits)

lemma mput_mput [simp]: "mput k w (mput k v m) = mput k w m"
  by (induction m) auto

lemma mput_same: "map_of m k = Some v \<Longrightarrow> mput k v m = m"
  by (induction m) (auto split: if_splits)

lemma mput_map:
  "mput k (f v) (map (\<lambda>(k, x). (k, f x)) m) = map (\<lambda>(k, x). (k, f x)) (mput k v m)"
  by (induction m) auto

lemma map_of_map_snd: "map_of (map (\<lambda>(k, x). (k, f x)) m) = map_option f \<circ> map_of m"
  by (induction m) auto

lemma mwf_map_snd [simp]: "mwf (map (\<lambda>(k, x). (k, f x)) m) = mwf m"
  by (simp add: mwf_def comp_def case_prod_beta)

text \<open>The sum of a measure over the values of a map.\<close>

definition msum :: "('v \<Rightarrow> int) \<Rightarrow> ('k, 'v) gomap \<Rightarrow> int" where
  "msum f m = sum_list (map (\<lambda>(k, v). f v) m)"

lemma msum_Nil [simp]: "msum f [] = 0"
  by (simp add: msum_def)

lemma msum_Cons [simp]: "msum f ((k, v) # m) = f v + msum f m"
  by (simp add: msum_def)

lemma msum_fresh: "map_of m k = None \<Longrightarrow> msum f (mput k v m) = msum f m + f v"
  by (induction m) (auto split: if_splits)

lemma msum_upd: "map_of m k = Some w \<Longrightarrow> msum f (mput k v m) = msum f m - f w + f v"
  by (induction m) (auto split: if_splits)

lemma msum_map: "msum f (map (\<lambda>(k, x). (k, g x)) m) = msum (f \<circ> g) m"
  by (induction m) auto

lemma msum_nonneg: "(\<And>k v. (k, v) \<in> set m \<Longrightarrow> 0 \<le> f v) \<Longrightarrow> 0 \<le> msum f m"
  by (induction m) force+

lemma msum_cong: "(\<And>k v. (k, v) \<in> set m \<Longrightarrow> f v = g v) \<Longrightarrow> msum f m = msum g m"
  by (induction m) force+

lemma msum_neg_add: "sum_list (map (\<lambda>(k, v). - (f v + g v)) m) = - (msum f m + msum g m)"
  by (induction m) auto

lemma msum_ge:
  assumes "\<And>k v. (k, v) \<in> set m \<Longrightarrow> 0 \<le> f v" "map_of m k = Some v"
  shows "f v \<le> msum f m"
  using assms
proof (induction m)
  case (Cons p m)
  obtain k' v' where p: "p = (k', v')" by fastforce
  have "0 \<le> msum f m" and "0 \<le> f v'"
    using Cons.prems(1) p by (auto intro: msum_nonneg)
  then show ?case
    using Cons p by (cases "k' = k") (force intro: add_increasing)+
qed simp

text \<open>Grouping a sum by a key.\<close>

lemma sum_list_single:
  "distinct ks \<Longrightarrow> sum_list (map (\<lambda>k. if k = a then (c :: int) else 0) ks) = (if a \<in> set ks then c else 0)"
  by (induction ks) auto

lemma sum_list_group:
  fixes f :: "'a \<Rightarrow> int"
  assumes "distinct ks" "g ` set xs \<subseteq> set ks"
  shows "sum_list (map f xs) = sum_list (map (\<lambda>k. sum_list (map f (filter (\<lambda>x. g x = k) xs))) ks)"
  using assms(2)
proof (induction xs)
  case (Cons x xs)
  have "sum_list (map (\<lambda>k. sum_list (map f (filter (\<lambda>y. g y = k) (x # xs)))) ks) =
      sum_list (map (\<lambda>k. (if k = g x then f x else 0) + sum_list (map f (filter (\<lambda>y. g y = k) xs))) ks)"
    by (intro arg_cong [where f = sum_list] map_cong) auto
  also have "\<dots> = f x + sum_list (map (\<lambda>k. sum_list (map f (filter (\<lambda>y. g y = k) xs))) ks)"
    using Cons.prems assms(1) by (simp add: sum_list_addf sum_list_single)
  finally show ?case using Cons by simp
qed simp

end
