(* ===== verification/Pricing.thy ===== *)
theory Pricing
  imports Prelude
begin

text \<open>
  The price table of \<open>internal/billing/pricing.go\<close>: the policies, their normalisation, the
  checked integer arithmetic of a cost, and the three costs the billing facade asks for: the
  reservation of a request, the exact cost of a reported usage and the conservative cost of a
  usage of which only the total is known.
\<close>

section \<open>Data\<close>

definition DefaultMaxBillableInputTokens :: int where "DefaultMaxBillableInputTokens = 128000"
definition DefaultMaxOutputTokens :: int where "DefaultMaxOutputTokens = 4096"
definition tokensPerMillion :: int where "tokensPerMillion = 1000000"

record model_price =
  InputPer1M :: int
  OutputPer1M :: int
  CacheCreationInputPer1M :: int
  CacheReadInputPer1M :: int

text \<open>\<open>ModelPolicy\<close> embeds \<open>ModelPrice\<close>: an extension of the record.\<close>

record model_policy = model_price +
  MaxBillableInputTokens :: int
  MaxOutputTokens :: int

record pricing =
  pr_models :: "(string, model_policy) gomap"
  pr_fallback :: model_policy
  pr_strict :: bool
  pr_invalid :: "(string, unit) gomap"

record weighted_tokens =
  wt_tokens :: int
  wt_price :: int

definition wt :: "int \<Rightarrow> int \<Rightarrow> weighted_tokens" where
  "wt n p = \<lparr>wt_tokens = n, wt_price = p\<rparr>"

section \<open>Construction\<close>

definition normalizePolicy :: "model_policy \<Rightarrow> model_policy \<Rightarrow> model_policy" where
  "normalizePolicy p0 fallback =
     (let p1 = (if CacheCreationInputPer1M p0 \<le> 0
                then p0\<lparr>CacheCreationInputPer1M := InputPer1M p0\<rparr> else p0);
          p2 = (if CacheReadInputPer1M p1 \<le> 0
                then p1\<lparr>CacheReadInputPer1M := InputPer1M p1\<rparr> else p1);
          p3 = (if MaxBillableInputTokens p2 \<le> 0
                then p2\<lparr>MaxBillableInputTokens := MaxBillableInputTokens fallback\<rparr> else p2);
          p4 = (if MaxBillableInputTokens p3 \<le> 0
                then p3\<lparr>MaxBillableInputTokens := DefaultMaxBillableInputTokens\<rparr> else p3);
          p5 = (if MaxOutputTokens p4 \<le> 0
                then p4\<lparr>MaxOutputTokens := MaxOutputTokens fallback\<rparr> else p4)
      in if MaxOutputTokens p5 \<le> 0
         then p5\<lparr>MaxOutputTokens := DefaultMaxOutputTokens\<rparr> else p5)"

definition zeroPolicy :: model_policy where
  "zeroPolicy = \<lparr>InputPer1M = 0, OutputPer1M = 0, CacheCreationInputPer1M = 0,
     CacheReadInputPer1M = 0, MaxBillableInputTokens = 0, MaxOutputTokens = 0\<rparr>"

definition NewPricingWithPolicies ::
    "(string, model_policy) gomap \<Rightarrow> model_policy \<Rightarrow> pricing" where
  "NewPricingWithPolicies models fallback =
     \<lparr>pr_models = map (\<lambda>(name, policy). (name, normalizePolicy policy fallback)) models,
      pr_fallback = normalizePolicy fallback
        (zeroPolicy\<lparr>MaxBillableInputTokens := DefaultMaxBillableInputTokens,
                    MaxOutputTokens := DefaultMaxOutputTokens\<rparr>),
      pr_strict = False,
      pr_invalid = []\<rparr>"

definition NewPricing :: "(string, model_price) gomap \<Rightarrow> int \<Rightarrow> int \<Rightarrow> pricing" where
  "NewPricing models defInput defOutput =
     NewPricingWithPolicies
       (map (\<lambda>(model, price). (model, model_price.extend price
          (model_policy.fields DefaultMaxBillableInputTokens DefaultMaxOutputTokens))) models)
       (zeroPolicy\<lparr>InputPer1M := defInput, OutputPer1M := defOutput,
                   MaxBillableInputTokens := DefaultMaxBillableInputTokens,
                   MaxOutputTokens := DefaultMaxOutputTokens\<rparr>)"

definition incompletePolicy :: "model_policy \<Rightarrow> bool" where
  "incompletePolicy p \<longleftrightarrow>
     InputPer1M p \<le> 0 \<or> OutputPer1M p \<le> 0 \<or>
     CacheCreationInputPer1M p \<le> 0 \<or> CacheReadInputPer1M p \<le> 0 \<or>
     MaxBillableInputTokens p \<le> 0 \<or> MaxOutputTokens p \<le> 0"

definition NewStrictPricingWithPolicies ::
    "(string, model_policy) gomap \<Rightarrow> model_policy \<Rightarrow> pricing" where
  "NewStrictPricingWithPolicies models fallback =
     (NewPricingWithPolicies models fallback)
       \<lparr>pr_strict := True,
        pr_invalid := map (\<lambda>(name, _). (name, ())) (filter (\<lambda>(_, p). incompletePolicy p) models)\<rparr>"

section \<open>Lookup and the output limit\<close>

definition policy :: "pricing \<Rightarrow> string \<Rightarrow> model_policy" where
  "policy p model = (case map_of (pr_models p) model of Some q \<Rightarrow> q | None \<Rightarrow> pr_fallback p)"

definition checkedPolicy :: "pricing \<Rightarrow> string \<Rightarrow> model_policy result" where
  "checkedPolicy p model =
     (let invalid_check = (\<lambda>q. if mhas (pr_invalid p) model then Inl ErrInvalidTokenLimit else Inr q)
      in case map_of (pr_models p) model of
           Some q \<Rightarrow> invalid_check q
         | None \<Rightarrow> if pr_strict p then Inl ErrUnknownModelPolicy else invalid_check (pr_fallback p))"

definition NormalizeMaxOutput :: "pricing \<Rightarrow> string \<Rightarrow> int option \<Rightarrow> int result" where
  "NormalizeMaxOutput p model requested =
     (case checkedPolicy p model of
        Inl e \<Rightarrow> Inl e
      | Inr q \<Rightarrow>
          let limit = MaxOutputTokens q in
          if limit \<le> 0 then Inl ErrInvalidTokenLimit
          else case requested of
                 None \<Rightarrow> Inr limit
               | Some r \<Rightarrow> if r \<le> 0 \<or> r > limit then Inl ErrInvalidTokenLimit else Inr r)"

section \<open>Checked arithmetic\<close>

definition checkedMul :: "int \<Rightarrow> int \<Rightarrow> int result" where
  "checkedMul a b =
     (if a = 0 \<or> b = 0 then Inr 0
      else if a > go_div max_int64 b then Inl ErrCostOverflow
      else Inr (i64 (a * b)))"

fun costPartsLoop :: "int \<Rightarrow> weighted_tokens list \<Rightarrow> int result" where
  "costPartsLoop acc [] = Inr acc"
| "costPartsLoop acc (part # parts) =
     (if wt_tokens part < 0 \<or> wt_price part < 0 then Inl ErrCostOverflow
      else case checkedMul (wt_tokens part) (wt_price part) of
             Inl _ \<Rightarrow> Inl ErrCostOverflow
           | Inr value \<Rightarrow>
               if acc > i64 (max_int64 - value) then Inl ErrCostOverflow
               else costPartsLoop (i64 (acc + value)) parts)"

definition checkedCostParts :: "weighted_tokens list \<Rightarrow> int result" where
  "checkedCostParts parts =
     (case costPartsLoop 0 parts of
        Inl e \<Rightarrow> Inl e
      | Inr acc \<Rightarrow>
          if acc = 0 then Inr 0
          else if acc > i64 (max_int64 - i64 (tokensPerMillion - 1)) then Inl ErrCostOverflow
          else Inr (go_div (i64 (i64 (acc + tokensPerMillion) - 1)) tokensPerMillion))"

definition checkedCost :: "('a) model_price_scheme \<Rightarrow> int \<Rightarrow> int \<Rightarrow> int result" where
  "checkedCost price inputTokens outputTokens =
     checkedCostParts [wt inputTokens (InputPer1M price), wt outputTokens (OutputPer1M price)]"

section \<open>Costs\<close>

definition ReservationCost :: "pricing \<Rightarrow> string \<Rightarrow> int \<Rightarrow> (int \<times> int) result" where
  "ReservationCost p model maxOutput =
     (case checkedPolicy p model of
        Inl e \<Rightarrow> Inl e
      | Inr q \<Rightarrow>
          if maxOutput \<le> 0 \<or> maxOutput > MaxOutputTokens q \<or> MaxBillableInputTokens q \<le> 0
          then Inl ErrInvalidTokenLimit
          else if InputPer1M q \<le> 0 \<or> OutputPer1M q \<le> 0 \<or>
                  CacheCreationInputPer1M q \<le> 0 \<or> CacheReadInputPer1M q \<le> 0
          then Inl ErrInvalidTokenLimit
          else
            let maxInputPrice =
                  max (max (InputPer1M q) (CacheCreationInputPer1M q)) (CacheReadInputPer1M q)
            in case checkedCost
                      \<lparr>InputPer1M = maxInputPrice, OutputPer1M = OutputPer1M q,
                       CacheCreationInputPer1M = 0, CacheReadInputPer1M = 0\<rparr>
                      (MaxBillableInputTokens q) maxOutput of
                 Inl e \<Rightarrow> Inl e
               | Inr cost \<Rightarrow> Inr (cost, MaxBillableInputTokens q))"

definition CostChecked :: "pricing \<Rightarrow> string \<Rightarrow> int \<Rightarrow> int \<Rightarrow> int result" where
  "CostChecked p model inputTokens outputTokens =
     (case checkedPolicy p model of
        Inl e \<Rightarrow> Inl e
      | Inr q \<Rightarrow> checkedCost q inputTokens outputTokens)"

definition CostUsageChecked :: "pricing \<Rightarrow> string \<Rightarrow> int \<Rightarrow> int \<Rightarrow> int \<Rightarrow> int \<Rightarrow> int result" where
  "CostUsageChecked p model inputTokens outputTokens cacheCreationTokens cacheReadTokens =
     (case checkedPolicy p model of
        Inl e \<Rightarrow> Inl e
      | Inr q \<Rightarrow>
          checkedCostParts
            [wt inputTokens (InputPer1M q),
             wt outputTokens (OutputPer1M q),
             wt cacheCreationTokens (CacheCreationInputPer1M q),
             wt cacheReadTokens (CacheReadInputPer1M q)])"

definition ConservativeTotalCost :: "pricing \<Rightarrow> string \<Rightarrow> int \<Rightarrow> int result" where
  "ConservativeTotalCost p model totalTokens =
     (case checkedPolicy p model of
        Inl e \<Rightarrow> Inl e
      | Inr q \<Rightarrow>
          if InputPer1M q \<le> 0 \<or> OutputPer1M q \<le> 0 \<or>
             CacheCreationInputPer1M q \<le> 0 \<or> CacheReadInputPer1M q \<le> 0
          then Inl ErrInvalidTokenLimit
          else
            let maxPrice = max (max (max (InputPer1M q) (OutputPer1M q))
                             (CacheCreationInputPer1M q)) (CacheReadInputPer1M q)
            in checkedCost
                 \<lparr>InputPer1M = maxPrice, OutputPer1M = 0,
                  CacheCreationInputPer1M = 0, CacheReadInputPer1M = 0\<rparr>
                 totalTokens 0)"

definition Cost :: "pricing \<Rightarrow> string \<Rightarrow> int \<Rightarrow> int \<Rightarrow> int" where
  "Cost p model inputTokens outputTokens =
     (case CostChecked p model inputTokens outputTokens of Inl _ \<Rightarrow> max_int64 | Inr c \<Rightarrow> c)"

section \<open>The arithmetic is exact\<close>

lemma i64_i64_diff: "i64 (i64 a - b) = i64 (a - b)"
  by (simp add: i64_def mod_simps algebra_simps)

lemma checkedMul_spec:
  assumes "0 \<le> a" "0 \<le> b"
  shows "checkedMul a b = (if a * b \<le> max_int64 then Inr (a * b) else Inl ErrCostOverflow)"
proof (cases "a = 0 \<or> b = 0")
  case True
  then show ?thesis by (auto simp: checkedMul_def go_int)
next
  case False
  with assms have "0 < b" "0 \<le> a * b" by auto
  moreover have "go_div max_int64 b < a \<longleftrightarrow> max_int64 < a * b"
    using \<open>0 < b\<close> by (intro go_div_lt_iff) (simp_all add: go_int)
  ultimately show ?thesis
    using False by (auto simp: checkedMul_def in_i64_def min_int64_def)
qed

text \<open>The mathematical meaning of a list of weighted token counts.\<close>

definition weight :: "weighted_tokens list \<Rightarrow> int" where
  "weight ps = sum_list (map (\<lambda>p. wt_tokens p * wt_price p) ps)"

definition nonneg_parts :: "weighted_tokens list \<Rightarrow> bool" where
  "nonneg_parts ps \<longleftrightarrow> list_all (\<lambda>p. 0 \<le> wt_tokens p \<and> 0 \<le> wt_price p) ps"

lemma weight_simps [simp]:
  "weight [] = 0"
  "weight (p # ps) = wt_tokens p * wt_price p + weight ps"
  by (simp_all add: weight_def)

lemma nonneg_parts_simps [simp]:
  "nonneg_parts []"
  "nonneg_parts (p # ps) \<longleftrightarrow> 0 \<le> wt_tokens p \<and> 0 \<le> wt_price p \<and> nonneg_parts ps"
  by (simp_all add: nonneg_parts_def)

lemma wt_simps [simp]: "wt_tokens (wt n p) = n" "wt_price (wt n p) = p"
  by (simp_all add: wt_def)

lemma weight_nonneg: "nonneg_parts ps \<Longrightarrow> 0 \<le> weight ps"
  by (induction ps) auto

lemma costPartsLoop_spec:
  assumes "0 \<le> acc" "acc \<le> max_int64"
  shows "costPartsLoop acc ps =
           (if nonneg_parts ps \<and> acc + weight ps \<le> max_int64 then Inr (acc + weight ps)
            else Inl ErrCostOverflow)"
  using assms
proof (induction ps arbitrary: acc)
  case Nil
  then show ?case by simp
next
  case (Cons p ps)
  show ?case
  proof (cases "0 \<le> wt_tokens p \<and> 0 \<le> wt_price p")
    case False
    then show ?thesis by auto
  next
    case True
    let ?v = "wt_tokens p * wt_price p"
    have v: "0 \<le> ?v" using True by simp
    have rest: "nonneg_parts ps \<Longrightarrow> 0 \<le> weight ps" by (rule weight_nonneg)
    show ?thesis
    proof (cases "acc + ?v \<le> max_int64")
      case True
      then have "i64 (max_int64 - ?v) = max_int64 - ?v" and "i64 (acc + ?v) = acc + ?v"
        using v Cons.prems by (simp_all add: in_i64_def min_int64_def max_int64_def)
      then show ?thesis
        using True v Cons.prems Cons.IH [of "acc + ?v"] \<open>0 \<le> wt_tokens p \<and> 0 \<le> wt_price p\<close>
        by (auto simp: checkedMul_spec)
    next
      case False
      have "?v \<le> max_int64 \<Longrightarrow> i64 (max_int64 - ?v) = max_int64 - ?v"
        using v by (simp add: in_i64_def min_int64_def max_int64_def)
      then show ?thesis
        using False rest \<open>0 \<le> wt_tokens p \<and> 0 \<le> wt_price p\<close> Cons.prems
        by (auto simp: checkedMul_spec)
    qed
  qed
qed

lemma checkedCostParts_spec:
  "checkedCostParts ps =
     (if nonneg_parts ps \<and> (weight ps = 0 \<or> weight ps \<le> max_int64 - 999999)
      then Inr (ceil_div (weight ps) 1000000) else Inl ErrCostOverflow)"
proof (cases "nonneg_parts ps \<and> weight ps \<le> max_int64")
  case False
  then show ?thesis
    using costPartsLoop_spec [of 0 ps]
    by (auto simp: checkedCostParts_def max_int64_def)
next
  case True
  then have "0 \<le> weight ps" by (simp add: weight_nonneg)
  moreover have "i64 (max_int64 - i64 (tokensPerMillion - 1)) = max_int64 - 999999"
    by (simp add: tokensPerMillion_def go_int)
  moreover have "go_div (i64 (i64 (weight ps + tokensPerMillion) - 1)) tokensPerMillion
                   = ceil_div (weight ps) 1000000" if "weight ps \<le> max_int64 - 999999"
  proof -
    have "i64 (weight ps + 1000000 - 1) = weight ps + 1000000 - 1"
      using that \<open>0 \<le> weight ps\<close> by (intro i64_id) (simp add: go_int)
    then show ?thesis
      using that \<open>0 \<le> weight ps\<close> go_div_pos [of "weight ps + 1000000 - 1" 1000000]
      by (simp add: i64_i64_diff tokensPerMillion_def ceil_div_def max_int64_def)
  qed
  ultimately show ?thesis
    using True costPartsLoop_spec [of 0 ps]
    by (auto simp: checkedCostParts_def max_int64_def ceil_div_def)
qed

lemma checkedCostParts_ok:
  "checkedCostParts ps = Inr c \<longleftrightarrow>
     nonneg_parts ps \<and> (weight ps = 0 \<or> weight ps \<le> max_int64 - 999999) \<and>
     c = ceil_div (weight ps) 1000000"
  by (auto simp: checkedCostParts_spec)

lemma checkedCostParts_mono:
  assumes "checkedCostParts qs = Inr c" "nonneg_parts ps" "weight ps \<le> weight qs"
  shows "\<exists>c'. checkedCostParts ps = Inr c' \<and> c' \<le> c"
proof -
  have "0 \<le> weight ps" using assms(2) by (rule weight_nonneg)
  then show ?thesis
    using assms by (auto simp: checkedCostParts_ok intro: ceil_div_mono)
qed

lemma checkedCostParts_nonneg: "checkedCostParts ps = Inr c \<Longrightarrow> 0 \<le> c"
  by (auto simp: checkedCostParts_ok intro: ceil_div_nonneg weight_nonneg)

section \<open>Policies\<close>

lemma checkedPolicy_ok:
  "checkedPolicy p model = Inr q \<longleftrightarrow>
     \<not> mhas (pr_invalid p) model \<and>
     (case map_of (pr_models p) model of
        Some q' \<Rightarrow> q = q'
      | None \<Rightarrow> \<not> pr_strict p \<and> q = pr_fallback p)"
  by (auto simp: checkedPolicy_def Let_def split: option.splits if_splits)

lemma normalizePolicy_limits:
  "0 < MaxBillableInputTokens (normalizePolicy p fb)"
  "0 < MaxOutputTokens (normalizePolicy p fb)"
  by (auto simp: normalizePolicy_def Let_def DefaultMaxBillableInputTokens_def
      DefaultMaxOutputTokens_def)

lemma normalizePolicy_complete: "\<not> incompletePolicy p \<Longrightarrow> normalizePolicy p fb = p"
  by (simp add: normalizePolicy_def incompletePolicy_def Let_def)

lemma strict_models:
  "map_of (pr_models (NewStrictPricingWithPolicies models fb)) m =
     map_option (\<lambda>p. normalizePolicy p fb) (map_of models m)"
  by (simp add: NewStrictPricingWithPolicies_def NewPricingWithPolicies_def map_of_map_snd)

lemma map_of_filter_incomplete:
  assumes "mwf models"
  shows "mhas (map (\<lambda>(name, _). (name, ())) (filter (\<lambda>(_, p). incompletePolicy p) models)) m
           \<longleftrightarrow> (\<exists>p. map_of models m = Some p \<and> incompletePolicy p)"
  using assms
proof (induction models)
  case Nil
  then show ?case by (simp add: mhas_def)
next
  case (Cons a models)
  obtain k p where a: "a = (k, p)" by (cases a)
  show ?case
  proof (cases "k = m")
    case True
    then have "map_of models m = None"
      using Cons.prems a by (auto simp: map_of_eq_None_iff)
    then show ?thesis using True Cons a by (auto simp: mhas_def)
  next
    case False
    then show ?thesis using Cons a by (auto simp: mhas_def)
  qed
qed

lemma strict_checkedPolicy:
  assumes "mwf models"
    and "checkedPolicy (NewStrictPricingWithPolicies models fb) m = Inr q"
  shows "map_of models m = Some q \<and> \<not> incompletePolicy q"
proof -
  obtain p where p: "map_of models m = Some p" and q: "q = normalizePolicy p fb"
    using assms(2) by (auto simp: checkedPolicy_ok strict_models split: option.splits)
       (simp add: NewStrictPricingWithPolicies_def)
  have "\<not> incompletePolicy p"
    using assms p
    by (auto simp: checkedPolicy_ok NewStrictPricingWithPolicies_def map_of_filter_incomplete)
  then show ?thesis using p q by (simp add: normalizePolicy_complete)
qed

section \<open>Upper bounds\<close>

lemma ReservationCost_covers:
  assumes "ReservationCost p model maxOutput = Inr (amount, maxInput)"
    and "0 \<le> i" "0 \<le> out" "0 \<le> cc" "0 \<le> cr"
    and "i + cc + cr \<le> maxInput" "out \<le> maxOutput"
  shows "\<exists>c. CostUsageChecked p model i out cc cr = Inr c \<and> c \<le> amount"
proof -
  obtain q where q: "checkedPolicy p model = Inr q"
    using assms(1) by (auto simp: ReservationCost_def split: sum.splits)
  let ?m = "max (max (InputPer1M q) (CacheCreationInputPer1M q)) (CacheReadInputPer1M q)"
  let ?qs = "[wt (MaxBillableInputTokens q) ?m, wt maxOutput (OutputPer1M q)]"
  let ?ps = "[wt i (InputPer1M q), wt out (OutputPer1M q),
              wt cc (CacheCreationInputPer1M q), wt cr (CacheReadInputPer1M q)]"
  have cost: "checkedCostParts ?qs = Inr amount" and maxIn: "maxInput = MaxBillableInputTokens q"
    and pos: "0 < InputPer1M q" "0 < OutputPer1M q" "0 < CacheCreationInputPer1M q"
      "0 < CacheReadInputPer1M q"
    using assms(1) q by (auto simp: ReservationCost_def checkedCost_def Let_def
        split: if_splits sum.splits)
  have "i * InputPer1M q + cc * CacheCreationInputPer1M q + cr * CacheReadInputPer1M q
          \<le> (i + cc + cr) * ?m"
    using assms(2-5) unfolding distrib_right
    by (intro add_mono mult_left_mono) simp_all
  also have "\<dots> \<le> MaxBillableInputTokens q * ?m"
    using assms(6) maxIn pos by (intro mult_right_mono) auto
  finally have input: "i * InputPer1M q + cc * CacheCreationInputPer1M q
      + cr * CacheReadInputPer1M q \<le> MaxBillableInputTokens q * ?m" .
  have "out * OutputPer1M q \<le> maxOutput * OutputPer1M q"
    using assms(7) pos by (intro mult_right_mono) auto
  then have "weight ?ps \<le> weight ?qs"
    using input unfolding weight_simps wt_simps by linarith
  moreover have "nonneg_parts ?ps" using assms pos by simp
  ultimately show ?thesis
    using checkedCostParts_mono [OF cost] q by (simp add: CostUsageChecked_def)
qed

lemma ConservativeTotalCost_bound:
  assumes "ConservativeTotalCost p model (i + out + cc + cr) = Inr c"
    and "0 \<le> i" "0 \<le> out" "0 \<le> cc" "0 \<le> cr"
  shows "\<exists>c'. CostUsageChecked p model i out cc cr = Inr c' \<and> c' \<le> c"
proof -
  obtain q where q: "checkedPolicy p model = Inr q"
    using assms(1) by (auto simp: ConservativeTotalCost_def split: sum.splits)
  let ?m = "max (max (max (InputPer1M q) (OutputPer1M q)) (CacheCreationInputPer1M q))
              (CacheReadInputPer1M q)"
  let ?qs = "[wt (i + out + cc + cr) ?m, wt 0 0]"
  let ?ps = "[wt i (InputPer1M q), wt out (OutputPer1M q),
              wt cc (CacheCreationInputPer1M q), wt cr (CacheReadInputPer1M q)]"
  have cost: "checkedCostParts ?qs = Inr c"
    and pos: "0 < InputPer1M q" "0 < OutputPer1M q" "0 < CacheCreationInputPer1M q"
      "0 < CacheReadInputPer1M q"
    using assms(1) q by (auto simp: ConservativeTotalCost_def checkedCost_def Let_def
        split: if_splits)
  have "weight ?ps \<le> weight ?qs"
    using assms(2-5) unfolding weight_simps wt_simps distrib_right
    by (simp add: add.assoc add_mono mult_left_mono)
  moreover have "nonneg_parts ?ps" using assms pos by simp
  ultimately show ?thesis
    using checkedCostParts_mono [OF cost] q by (simp add: CostUsageChecked_def)
qed

section \<open>Properties\<close>

text \<open>C21. A cost is exact: the checked sum of token counts times prices returns a cost exactly when
  no count or price is negative and the sum leaves room for rounding up in 64 bits, and that cost
  is the least number of units whose value in millionths is not below the sum. Every other input
  is the overflow error, never a wrapped number.\<close>

theorem checkedCostParts_exact:
  "checkedCostParts ps = Inr c \<longleftrightarrow>
     nonneg_parts ps \<and> (weight ps = 0 \<or> weight ps \<le> max_int64 - 999999) \<and>
     1000000 * (c - 1) < weight ps \<and> weight ps \<le> 1000000 * c"
proof -
  have "c = ceil_div (weight ps) 1000000 \<longleftrightarrow>
          1000000 * (c - 1) < weight ps \<and> weight ps \<le> 1000000 * c"
    using ceil_div_covers [of 1000000 "weight ps", simplified] by (auto simp: algebra_simps)
  then show ?thesis by (simp add: checkedCostParts_ok)
qed

text \<open>C22. The amount reserved for a request covers every usage within the reserved bounds: if the
  three kinds of input tokens together stay within the policy's input bound and the output within
  the enforced output limit, then pricing that usage succeeds (it cannot overflow) and its cost
  is at most the reserved amount.\<close>

theorem ReservationCost_covers_usage:
  assumes "ReservationCost p model maxOutput = Inr (amount, maxInput)"
    and "0 \<le> i" "0 \<le> out" "0 \<le> cc" "0 \<le> cr"
    and "i + cc + cr \<le> maxInput" "out \<le> maxOutput"
  shows "\<exists>c. CostUsageChecked p model i out cc cr = Inr c \<and> c \<le> amount"
  using assms by (rule ReservationCost_covers)

text \<open>When only the total is reported, the conservative cost is an upper bound: however the
  total splits into ordinary input, output, cache creation and cache read tokens, pricing the
  split succeeds and costs no more.\<close>

theorem ConservativeTotalCost_dominates:
  assumes "ConservativeTotalCost p model (i + out + cc + cr) = Inr c"
    and "0 \<le> i" "0 \<le> out" "0 \<le> cc" "0 \<le> cr"
  shows "\<exists>c'. CostUsageChecked p model i out cc cr = Inr c' \<and> c' \<le> c"
  using assms by (rule ConservativeTotalCost_bound)

text \<open>Strict pricing fails closed: a model that the strict table prices is one that was configured
  explicitly, with the very policy configured, all four prices and both limits positive. So an
  output limit accepted for it is within the policy and can be reserved unless the cost overflows.\<close>

theorem strict_pricing_fails_closed:
  assumes "mwf models"
    and "NormalizeMaxOutput (NewStrictPricingWithPolicies models fb) m req = Inr n"
  shows "\<exists>q. map_of models m = Some q \<and> \<not> incompletePolicy q \<and>
             0 < n \<and> n \<le> MaxOutputTokens q \<and> n = (case req of None \<Rightarrow> MaxOutputTokens q | Some r \<Rightarrow> r) \<and>
             ReservationCost (NewStrictPricingWithPolicies models fb) m n \<noteq> Inl ErrInvalidTokenLimit"
proof -
  obtain q where q: "checkedPolicy (NewStrictPricingWithPolicies models fb) m = Inr q"
    using assms(2) by (auto simp: NormalizeMaxOutput_def split: sum.splits)
  then have "map_of models m = Some q" "\<not> incompletePolicy q"
    using strict_checkedPolicy [OF assms(1)] by auto
  moreover have "0 < n" "n \<le> MaxOutputTokens q"
    "n = (case req of None \<Rightarrow> MaxOutputTokens q | Some r \<Rightarrow> r)"
    using assms(2) q by (auto simp: NormalizeMaxOutput_def Let_def split: if_splits option.splits)
  moreover from this have
    "ReservationCost (NewStrictPricingWithPolicies models fb) m n \<noteq> Inl ErrInvalidTokenLimit"
    using q \<open>\<not> incompletePolicy q\<close>
    by (auto simp: ReservationCost_def incompletePolicy_def checkedCost_def Let_def
        checkedCostParts_spec split: sum.splits)
  ultimately show ?thesis by blast
qed

section \<open>Witnesses\<close>

definition examplePolicy :: model_policy where
  "examplePolicy = \<lparr>InputPer1M = 2000000, OutputPer1M = 6000000, CacheCreationInputPer1M = 2500000,
     CacheReadInputPer1M = 200000, MaxBillableInputTokens = 1000, MaxOutputTokens = 100\<rparr>"

definition examplePricing :: pricing where
  "examplePricing = NewStrictPricingWithPolicies [(''gpt'', examplePolicy)] zeroPolicy"

lemma examplePricing_policy: "checkedPolicy examplePricing ''gpt'' = Inr examplePolicy"
  by (simp add: checkedPolicy_ok examplePricing_def NewStrictPricingWithPolicies_def
      NewPricingWithPolicies_def normalizePolicy_def examplePolicy_def incompletePolicy_def mhas_def)

lemmas example_pricing = examplePricing_policy examplePolicy_def
  checkedCostParts_spec max_int64_def ceil_div_def checkedCost_def

theorem ReservationCost_covers_usage_witness:
  "\<exists>c. CostUsageChecked examplePricing ''gpt'' 10 20 30 40 = Inr c \<and> c \<le> 3100"
proof -
  have "ReservationCost examplePricing ''gpt'' 100 = Inr (3100, 1000)"
    by (simp add: ReservationCost_def example_pricing)
  then show ?thesis
    by (rule ReservationCost_covers_usage) simp_all
qed

theorem ConservativeTotalCost_dominates_witness:
  "\<exists>c. CostUsageChecked examplePricing ''gpt'' 10 20 30 40 = Inr c \<and> c \<le> 600"
proof -
  have "ConservativeTotalCost examplePricing ''gpt'' (10 + 20 + 30 + 40) = Inr 600"
    by (simp add: ConservativeTotalCost_def example_pricing)
  then show ?thesis
    by (rule ConservativeTotalCost_dominates) simp_all
qed

theorem strict_pricing_fails_closed_witness:
  "\<exists>q. map_of [(''gpt'', examplePolicy)] ''gpt'' = Some q \<and> \<not> incompletePolicy q \<and>
       ReservationCost examplePricing ''gpt'' 50 \<noteq> Inl ErrInvalidTokenLimit"
proof -
  have "NormalizeMaxOutput examplePricing ''gpt'' (Some 50) = Inr 50"
    by (simp add: NormalizeMaxOutput_def example_pricing)
  then show ?thesis
    using strict_pricing_fails_closed [of "[(''gpt'', examplePolicy)]" zeroPolicy "''gpt''" "Some 50" 50]
    by (auto simp: examplePricing_def)
qed

end
