(* ===== verification/Store.thy ===== *)
theory Store
  imports Prelude "HOL-Library.List_Lexorder" "HOL-Library.Product_Lexorder" "HOL-Library.Char_ord"
begin

text \<open>
  The data store of \<open>internal/store\<close>: identities, users and balances of \<open>MemoryStore\<close>, with the
  operations that authentication, the memory ledger and the management interface call.

  The Go maps \<open>keys\<close> (by API key) and \<open>keyByID\<close> (by key id) hold pointers to the same \<open>Identity\<close>, so
  that disabling a key by its id is seen by authentication. The model keeps that sharing: both maps
  hold addresses of a heap of identities. Every method runs under the store's mutex and is one
  step; \<open>time.Now()\<close> is an argument.
\<close>

section \<open>Types\<close>

record identity =
  id_KeyID :: string
  id_UserID :: string
  id_RateLimitPerMin :: int
  id_AllowedModels :: "string list"
  id_Enabled :: bool
  id_CreatedAt :: gotime

definition Allows :: "identity \<Rightarrow> string \<Rightarrow> bool" where
  "Allows i model =
     (if length (id_AllowedModels i) = 0 then True
      else list_ex (\<lambda>m. m = model) (id_AllowedModels i))"

record mem_user =
  mu_enabled :: bool
  mu_createdAt :: gotime
  mu_updatedAt :: gotime

type_synonym addr = nat

record mem_store =
  ms_heap :: "(addr, identity) gomap"
  ms_next :: addr
  ms_keys :: "(string, addr) gomap"
  ms_keyByID :: "(string, addr) gomap"
  ms_balances :: "(string, int) gomap"
  ms_users :: "(string, mem_user) gomap"

record key_seed =
  ks_APIKey :: string
  ks_KeyID :: string
  ks_UserID :: string
  ks_RateLimitPerMin :: int
  ks_AllowedModels :: "string list"
  ks_Enabled :: bool
  ks_InitialBalance :: int

record mem_user_view =
  uv_ExternalID :: string
  uv_Balance :: int
  uv_Enabled :: bool
  uv_CreatedAt :: gotime
  uv_UpdatedAt :: gotime

record mem_key_view =
  kv_KeyID :: string
  kv_UserID :: string
  kv_RateLimitPerMin :: int
  kv_AllowedModels :: "string list"
  kv_Enabled :: bool
  kv_CreatedAt :: gotime

section \<open>Operations\<close>

definition emptyStore :: mem_store where
  "emptyStore = \<lparr>ms_heap = [], ms_next = 0, ms_keys = [], ms_keyByID = [],
     ms_balances = [], ms_users = []\<rparr>"

text \<open>Allocate an identity and return its address.\<close>

definition newIdentity :: "identity \<Rightarrow> mem_store \<Rightarrow> mem_store \<times> addr" where
  "newIdentity i s =
     (s\<lparr>ms_heap := mput (ms_next s) i (ms_heap s), ms_next := ms_next s + 1\<rparr>, ms_next s)"

definition seedOne :: "mem_store \<Rightarrow> key_seed \<Rightarrow> gotime \<Rightarrow> mem_store result" where
  "seedOne s seed now =
     (if mhas (ms_keys s) (ks_APIKey seed) then Inl ErrPanic
      else if ks_KeyID seed \<noteq> [] \<and> mhas (ms_keyByID s) (ks_KeyID seed) then Inl ErrPanic
      else
        let (s1, a) = newIdentity \<lparr>id_KeyID = ks_KeyID seed, id_UserID = ks_UserID seed,
              id_RateLimitPerMin = ks_RateLimitPerMin seed, id_AllowedModels = ks_AllowedModels seed,
              id_Enabled = ks_Enabled seed, id_CreatedAt = now\<rparr> s;
            s2 = s1\<lparr>ms_keys := mput (ks_APIKey seed) a (ms_keys s1)\<rparr>;
            s3 = (if ks_KeyID seed \<noteq> [] then s2\<lparr>ms_keyByID := mput (ks_KeyID seed) a (ms_keyByID s2)\<rparr>
                  else s2)
        in Inr (if mhas (ms_users s3) (ks_UserID seed) then s3
                else s3\<lparr>ms_balances := mput (ks_UserID seed) (ks_InitialBalance seed) (ms_balances s3),
                        ms_users := mput (ks_UserID seed)
                          \<lparr>mu_enabled = True, mu_createdAt = now, mu_updatedAt = now\<rparr> (ms_users s3)\<rparr>))"

fun seedLoop :: "mem_store \<Rightarrow> (key_seed \<times> gotime) list \<Rightarrow> mem_store result" where
  "seedLoop s [] = Inr s"
| "seedLoop s ((seed, now) # rest) =
     (case seedOne s seed now of Inl e \<Rightarrow> Inl e | Inr s' \<Rightarrow> seedLoop s' rest)"

text \<open>\<open>NewMemoryStore\<close> of the seeds, each with the time at which the loop reaches it.\<close>

definition NewMemoryStore :: "(key_seed \<times> gotime) list \<Rightarrow> mem_store result" where
  "NewMemoryStore seeds = seedLoop emptyStore seeds"

definition ResolveKey :: "mem_store \<Rightarrow> string \<Rightarrow> identity result" where
  "ResolveKey s apiKey =
     (case map_of (ms_keys s) apiKey of
        None \<Rightarrow> Inl ErrStoreKeyNotFound
      | Some a \<Rightarrow>
          (case map_of (ms_heap s) a of
             None \<Rightarrow> Inl ErrPanic
           | Some i \<Rightarrow>
               if \<not> id_Enabled i then Inl ErrStoreKeyNotFound
               else (case map_of (ms_users s) (id_UserID i) of
                       Some u \<Rightarrow> if \<not> mu_enabled u then Inl ErrStoreKeyNotFound else Inr i
                     | None \<Rightarrow> Inr i)))"

definition Balance :: "mem_store \<Rightarrow> string \<Rightarrow> int" where
  "Balance s userID = mget0 (ms_balances s) userID"

definition checkedBalanceAdd :: "int \<Rightarrow> int \<Rightarrow> int result" where
  "checkedBalanceAdd balance delta =
     (if (delta > 0 \<and> balance > i64 (max_int64 - delta)) \<or>
         (delta < 0 \<and> balance < i64 (min_int64 - delta))
      then Inl ErrBalanceOverflow
      else Inr (i64 (balance + delta)))"

definition AddBalance :: "gotime \<Rightarrow> mem_store \<Rightarrow> string \<Rightarrow> int \<Rightarrow> mem_store \<times> int \<times> goerr option" where
  "AddBalance now s userID delta =
     (case checkedBalanceAdd (mget0 (ms_balances s) userID) delta of
        Inl e \<Rightarrow> (s, mget0 (ms_balances s) userID, Some e)
      | Inr bal \<Rightarrow>
          (let s1 = s\<lparr>ms_balances := mput userID bal (ms_balances s)\<rparr>
           in ((case map_of (ms_users s1) userID of
                  None \<Rightarrow> s1
                | Some u \<Rightarrow> s1\<lparr>ms_users := mput userID (u\<lparr>mu_updatedAt := now\<rparr>) (ms_users s1)\<rparr>),
               bal, None)))"

definition BillingReserve :: "mem_store \<Rightarrow> string \<Rightarrow> int \<Rightarrow> mem_store \<times> (bool \<times> int) result" where
  "BillingReserve s userID amount =
     (if amount < 0 then (s, Inl ErrBalanceOverflow)
      else
        (case map_of (ms_users s) userID of
           None \<Rightarrow> (s, Inl ErrUserNotFound)
         | Some u \<Rightarrow>
             if \<not> mu_enabled u then (s, Inl ErrUserNotFound)
             else
               (let bal = mget0 (ms_balances s) userID
                in if bal < amount then (s, Inr (False, bal))
                   else (let bal' = i64 (bal - amount)
                         in (s\<lparr>ms_balances := mput userID bal' (ms_balances s)\<rparr>, Inr (True, bal'))))))"

definition BillingAdjust :: "mem_store \<Rightarrow> string \<Rightarrow> int \<Rightarrow> mem_store \<times> int result" where
  "BillingAdjust s userID delta =
     (if \<not> mhas (ms_users s) userID then (s, Inl ErrUserNotFound)
      else (case checkedBalanceAdd (mget0 (ms_balances s) userID) delta of
              Inl e \<Rightarrow> (s, Inl e)
            | Inr bal \<Rightarrow> (s\<lparr>ms_balances := mput userID bal (ms_balances s)\<rparr>, Inr bal)))"

definition userView :: "mem_store \<Rightarrow> string \<Rightarrow> mem_user \<Rightarrow> mem_user_view" where
  "userView s externalID u =
     \<lparr>uv_ExternalID = externalID, uv_Balance = mget0 (ms_balances s) externalID,
      uv_Enabled = mu_enabled u, uv_CreatedAt = mu_createdAt u, uv_UpdatedAt = mu_updatedAt u\<rparr>"

definition AdminCreateUser ::
  "gotime \<Rightarrow> mem_store \<Rightarrow> string \<Rightarrow> int \<Rightarrow> bool \<Rightarrow> mem_store \<times> mem_user_view result" where
  "AdminCreateUser now s externalID balance enabled =
     (if mhas (ms_users s) externalID then (s, Inl ErrUserExists)
      else (s\<lparr>ms_users := mput externalID
                \<lparr>mu_enabled = enabled, mu_createdAt = now, mu_updatedAt = now\<rparr> (ms_users s),
              ms_balances := mput externalID balance (ms_balances s)\<rparr>,
            Inr \<lparr>uv_ExternalID = externalID, uv_Balance = balance, uv_Enabled = enabled,
                 uv_CreatedAt = now, uv_UpdatedAt = now\<rparr>))"

definition paginate :: "mem_user_view list \<Rightarrow> int \<Rightarrow> int \<Rightarrow> mem_user_view list" where
  "paginate views limit offset =
     (let offset = (if offset < 0 then 0 else offset)
      in if offset \<ge> int (length views) then []
         else let views = drop (nat offset) views
              in if limit > 0 \<and> limit < int (length views) then take (nat limit) views else views)"

text \<open>The comparison that \<open>AdminListUsers\<close> sorts by: newest first, ties by external id. The ids are
  distinct, so the comparison is total and the sorted list does not depend on the order in which
  the map is iterated or on the stability of \<open>sort.Slice\<close>.\<close>

definition userOrder :: "mem_user_view \<Rightarrow> int \<times> string" where
  "userOrder v = (- uv_CreatedAt v, uv_ExternalID v)"

definition AdminListUsers :: "mem_store \<Rightarrow> int \<Rightarrow> int \<Rightarrow> mem_user_view list" where
  "AdminListUsers s limit offset =
     paginate (sort_key userOrder (map (\<lambda>(i, u). userView s i u) (ms_users s))) limit offset"

definition AdminGetUser :: "mem_store \<Rightarrow> string \<Rightarrow> mem_user_view result" where
  "AdminGetUser s externalID =
     (case map_of (ms_users s) externalID of
        None \<Rightarrow> Inl ErrUserNotFound
      | Some u \<Rightarrow> Inr (userView s externalID u))"

definition AdminSetUserEnabled ::
  "gotime \<Rightarrow> mem_store \<Rightarrow> string \<Rightarrow> bool \<Rightarrow> mem_store \<times> mem_user_view result" where
  "AdminSetUserEnabled now s externalID enabled =
     (case map_of (ms_users s) externalID of
        None \<Rightarrow> (s, Inl ErrUserNotFound)
      | Some u \<Rightarrow>
          (let u' = u\<lparr>mu_enabled := enabled, mu_updatedAt := now\<rparr>;
               s' = s\<lparr>ms_users := mput externalID u' (ms_users s)\<rparr>
           in (s', Inr (userView s' externalID u'))))"

definition AdminAddBalance ::
  "gotime \<Rightarrow> mem_store \<Rightarrow> string \<Rightarrow> int \<Rightarrow> mem_store \<times> int result" where
  "AdminAddBalance now s externalID delta =
     (case map_of (ms_users s) externalID of
        None \<Rightarrow> (s, Inl ErrUserNotFound)
      | Some u \<Rightarrow>
          (case checkedBalanceAdd (mget0 (ms_balances s) externalID) delta of
             Inl e \<Rightarrow> (s, Inl e)
           | Inr bal \<Rightarrow>
               (s\<lparr>ms_balances := mput externalID bal (ms_balances s),
                  ms_users := mput externalID (u\<lparr>mu_updatedAt := now\<rparr>) (ms_users s)\<rparr>, Inr bal)))"

definition keyView :: "identity \<Rightarrow> mem_key_view" where
  "keyView i = \<lparr>kv_KeyID = id_KeyID i, kv_UserID = id_UserID i,
     kv_RateLimitPerMin = id_RateLimitPerMin i, kv_AllowedModels = id_AllowedModels i,
     kv_Enabled = id_Enabled i, kv_CreatedAt = id_CreatedAt i\<rparr>"

definition adminCreateKeyLocked ::
  "gotime \<Rightarrow> mem_store \<Rightarrow> string \<Rightarrow> string \<Rightarrow> string \<Rightarrow> int \<Rightarrow> string list \<Rightarrow> bool
     \<Rightarrow> mem_store \<times> mem_key_view result" where
  "adminCreateKeyLocked now s apiKey keyID userID rateLimit allowedModels enabled =
     (if \<not> mhas (ms_users s) userID then (s, Inl ErrUserNotFound)
      else if mhas (ms_keyByID s) keyID then (s, Inl ErrKeyExists)
      else if mhas (ms_keys s) apiKey then (s, Inl ErrKeyExists)
      else
        let i = \<lparr>id_KeyID = keyID, id_UserID = userID, id_RateLimitPerMin = rateLimit,
                 id_AllowedModels = allowedModels, id_Enabled = enabled, id_CreatedAt = now\<rparr>;
            (s1, a) = newIdentity i s
        in (s1\<lparr>ms_keys := mput apiKey a (ms_keys s1), ms_keyByID := mput keyID a (ms_keyByID s1)\<rparr>,
            Inr (keyView i)))"

definition AdminCreateKey ::
  "gotime \<Rightarrow> mem_store \<Rightarrow> string \<Rightarrow> string \<Rightarrow> string \<Rightarrow> int \<Rightarrow> string list \<Rightarrow> bool
     \<Rightarrow> mem_store \<times> mem_key_view result" where
  "AdminCreateKey = adminCreateKeyLocked"

definition keyCount :: "mem_store \<Rightarrow> string \<Rightarrow> int" where
  "keyCount s userID =
     int (length (filter (\<lambda>(k, a). case map_of (ms_heap s) a of
                            None \<Rightarrow> False | Some i \<Rightarrow> id_UserID i = userID) (ms_keyByID s)))"

text \<open>The result \<open>(view, ok, err)\<close>: \<open>Inr None\<close> is the limit reached.\<close>

definition AdminCreateKeyLimited ::
  "gotime \<Rightarrow> mem_store \<Rightarrow> string \<Rightarrow> string \<Rightarrow> string \<Rightarrow> int \<Rightarrow> string list \<Rightarrow> bool \<Rightarrow> int
     \<Rightarrow> mem_store \<times> mem_key_view option result" where
  "AdminCreateKeyLimited now s apiKey keyID userID rateLimit allowedModels enabled maxKeys =
     (if maxKeys > 0 \<and> keyCount s userID \<ge> maxKeys then (s, Inr None)
      else (case adminCreateKeyLocked now s apiKey keyID userID rateLimit allowedModels enabled of
              (s', Inl e) \<Rightarrow> (s', Inl e)
            | (s', Inr view) \<Rightarrow> (s', Inr (Some view))))"

definition AdminListKeysByUser :: "mem_store \<Rightarrow> string \<Rightarrow> mem_key_view list" where
  "AdminListKeysByUser s userID =
     sort_key kv_KeyID (map keyView (filter (\<lambda>i. id_UserID i = userID)
       (List.map_filter (\<lambda>(k, a). map_of (ms_heap s) a) (ms_keyByID s))))"

definition AdminSetKeyEnabled :: "mem_store \<Rightarrow> string \<Rightarrow> bool \<Rightarrow> mem_store \<times> mem_key_view result" where
  "AdminSetKeyEnabled s keyID enabled =
     (case map_of (ms_keyByID s) keyID of
        None \<Rightarrow> (s, Inl ErrStoreKeyNotFound)
      | Some a \<Rightarrow>
          (case map_of (ms_heap s) a of
             None \<Rightarrow> (s, Inl ErrPanic)
           | Some i \<Rightarrow>
               (let i' = i\<lparr>id_Enabled := enabled\<rparr>
                in (s\<lparr>ms_heap := mput a i' (ms_heap s)\<rparr>, Inr (keyView i')))))"

text \<open>The loop over \<open>keys\<close> that removes the first entry pointing to the identity.\<close>

definition deleteKeyOf :: "addr \<Rightarrow> (string, addr) gomap \<Rightarrow> (string, addr) gomap" where
  "deleteKeyOf a keys = (case find (\<lambda>(k, v). v = a) keys of None \<Rightarrow> keys | Some (k, v) \<Rightarrow> mdel k keys)"

definition AdminDeleteKey :: "mem_store \<Rightarrow> string \<Rightarrow> mem_store \<times> unit result" where
  "AdminDeleteKey s keyID =
     (case map_of (ms_keyByID s) keyID of
        None \<Rightarrow> (s, Inl ErrStoreKeyNotFound)
      | Some a \<Rightarrow> (s\<lparr>ms_keyByID := mdel keyID (ms_keyByID s),
                     ms_keys := deleteKeyOf a (ms_keys s)\<rparr>, Inr ()))"

section \<open>The invariant\<close>

text \<open>Addresses in the heap are below the next free one; both key maps point into the heap; two API
  keys never share an identity; the map by key id agrees with the ids stored in the identities, and
  every identity that has an id is found by it as long as its API key exists; owners exist; balances
  are 64-bit numbers.\<close>

definition store_maps :: "mem_store \<Rightarrow> bool" where
  "store_maps s \<longleftrightarrow> mwf (ms_heap s) \<and> mwf (ms_keys s) \<and> mwf (ms_keyByID s) \<and>
     mwf (ms_balances s) \<and> mwf (ms_users s)"

definition store_alloc :: "mem_store \<Rightarrow> bool" where
  "store_alloc s \<longleftrightarrow> (\<forall>a. map_of (ms_heap s) a \<noteq> None \<longrightarrow> a < ms_next s)"

definition store_keys :: "mem_store \<Rightarrow> bool" where
  "store_keys s \<longleftrightarrow>
     (\<forall>k a. map_of (ms_keys s) k = Some a \<longrightarrow>
        (\<exists>i. map_of (ms_heap s) a = Some i \<and>
             (id_KeyID i \<noteq> [] \<longrightarrow> map_of (ms_keyByID s) (id_KeyID i) = Some a))) \<and>
     (\<forall>k k' a. map_of (ms_keys s) k = Some a \<and> map_of (ms_keys s) k' = Some a \<longrightarrow> k = k')"

definition store_ids :: "mem_store \<Rightarrow> bool" where
  "store_ids s \<longleftrightarrow>
     (\<forall>k a. map_of (ms_keyByID s) k = Some a \<longrightarrow>
        (\<exists>i. map_of (ms_heap s) a = Some i \<and> id_KeyID i = k) \<and>
        (\<exists>ak. map_of (ms_keys s) ak = Some a))"

definition store_users :: "mem_store \<Rightarrow> bool" where
  "store_users s \<longleftrightarrow>
     (\<forall>a i. map_of (ms_heap s) a = Some i \<longrightarrow> mhas (ms_users s) (id_UserID i)) \<and>
     (\<forall>u b. map_of (ms_balances s) u = Some b \<longrightarrow> in_i64 b)"

definition store_inv :: "mem_store \<Rightarrow> bool" where
  "store_inv s \<longleftrightarrow> store_maps s \<and> store_alloc s \<and> store_keys s \<and> store_ids s \<and> store_users s"

named_theorems store_simps "the parts of the store invariant"

lemmas store_inv_defs [store_simps] =
  store_inv_def store_maps_def store_alloc_def store_keys_def store_ids_def store_users_def

lemma emptyStore_inv: "store_inv emptyStore"
  by (simp add: store_simps emptyStore_def)

lemma in_i64_mget0: "store_users s \<Longrightarrow> in_i64 (mget0 (ms_balances s) u)"
  by (auto simp: store_users_def mget0_def go_int split: option.splits)

lemma checkedBalanceAdd_ok:
  assumes "in_i64 b" "in_i64 d"
  shows "checkedBalanceAdd b d = (if in_i64 (b + d) then Inr (b + d) else Inl ErrBalanceOverflow)"
proof -
  have 1: "d > 0 \<Longrightarrow> i64 (max_int64 - d) = max_int64 - d"
    using assms by (intro i64_id) (simp add: go_int)
  have 2: "d < 0 \<Longrightarrow> i64 (min_int64 - d) = min_int64 - d"
    using assms by (intro i64_id) (simp add: go_int)
  have "(d > 0 \<and> b > i64 (max_int64 - d)) \<or> (d < 0 \<and> b < i64 (min_int64 - d)) \<longleftrightarrow> \<not> in_i64 (b + d)"
    using assms 1 2 by (cases d "0::int" rule: linorder_cases) (auto simp: go_int)
  then show ?thesis unfolding checkedBalanceAdd_def by auto
qed

lemma checkedBalanceAdd_in: "checkedBalanceAdd b d = Inr x \<Longrightarrow> in_i64 x"
  by (auto simp: checkedBalanceAdd_def split: if_splits)

lemma store_balance_inv:
  assumes "store_inv s" "in_i64 b"
  shows "store_inv (s\<lparr>ms_balances := mput u b (ms_balances s)\<rparr>)"
  using assms by (auto simp: store_simps)

lemma store_user_inv:
  assumes "store_inv s"
  shows "store_inv (s\<lparr>ms_users := mput u x (ms_users s)\<rparr>)"
  using assms by (auto simp: store_simps mhas_def)

text \<open>Adding an identity under a fresh API key and, if it has one, a fresh key id.\<close>

lemma store_new_key_inv:
  assumes inv: "store_inv s" and user: "mhas (ms_users s) (id_UserID i)"
    and k: "\<not> mhas (ms_keys s) k" and kid: "\<not> mhas (ms_keyByID s) (id_KeyID i)"
  shows "store_inv (s\<lparr>ms_heap := mput (ms_next s) i (ms_heap s), ms_next := ms_next s + 1,
           ms_keys := mput k (ms_next s) (ms_keys s),
           ms_keyByID := mput (id_KeyID i) (ms_next s) (ms_keyByID s)\<rparr>)"
    (is "store_inv ?t")
proof -
  have fresh: "map_of (ms_heap s) (ms_next s) = None"
    using inv by (auto simp: store_simps)
  have keys: "store_keys s" and ids: "store_ids s"
    using inv by (simp_all add: store_inv_def)
  have nokey: "map_of (ms_keys s) x \<noteq> Some (ms_next s)"
      "map_of (ms_keyByID s) x \<noteq> Some (ms_next s)" for x
    using keys ids fresh unfolding store_keys_def store_ids_def by fastforce+
  have "store_maps ?t" "store_alloc ?t" "store_users ?t"
    using inv user by (auto simp: store_simps mhas_def)
  moreover have "store_keys ?t"
    using keys k kid nokey fresh unfolding store_keys_def mhas_def by (auto split: if_splits) (metis option.distinct(1))
  moreover have "store_ids ?t"
    using ids k kid nokey fresh unfolding store_ids_def mhas_def by (auto split: if_splits) (metis option.distinct(1))
  ultimately show ?thesis by (simp add: store_inv_def)
qed

lemma store_new_anon_inv:
  assumes inv: "store_inv s" and user: "mhas (ms_users s) (id_UserID i)"
    and k: "\<not> mhas (ms_keys s) k" and kid: "id_KeyID i = []"
  shows "store_inv (s\<lparr>ms_heap := mput (ms_next s) i (ms_heap s), ms_next := ms_next s + 1,
           ms_keys := mput k (ms_next s) (ms_keys s)\<rparr>)"
    (is "store_inv ?t")
proof -
  have fresh: "map_of (ms_heap s) (ms_next s) = None"
    using inv by (auto simp: store_simps)
  have keys: "store_keys s" and ids: "store_ids s"
    using inv by (simp_all add: store_inv_def)
  have nokey: "map_of (ms_keys s) x \<noteq> Some (ms_next s)"
      "map_of (ms_keyByID s) x \<noteq> Some (ms_next s)" for x
    using keys ids fresh unfolding store_keys_def store_ids_def by fastforce+
  have "store_maps ?t" "store_alloc ?t" "store_users ?t"
    using inv user by (auto simp: store_simps mhas_def)
  moreover have "store_keys ?t"
    using keys k kid nokey fresh unfolding store_keys_def mhas_def by (auto split: if_splits) 
  moreover have "store_ids ?t"
    using ids k kid nokey fresh unfolding store_ids_def mhas_def by (auto split: if_splits) (metis option.distinct(1))
  ultimately show ?thesis by (simp add: store_inv_def)
qed

lemma deleteKeyOf_unique:
  assumes "mwf keys" "map_of keys k = Some a"
    and "\<And>k'. map_of keys k' = Some a \<Longrightarrow> k' = k"
  shows "deleteKeyOf a keys = mdel k keys"
proof -
  have "find (\<lambda>(k, v). v = a) keys \<noteq> None"
    using assms(1,2) by (auto simp: find_None_iff mget_set)
  then obtain p where p: "find (\<lambda>(k, v). v = a) keys = Some p" by auto
  then have "p \<in> set keys" "snd p = a"
    by (auto simp: find_Some_iff case_prod_beta)
  then have "fst p = k"
    using assms(1,3) by (metis mget_set prod.collapse)
  then show ?thesis using p by (auto simp: deleteKeyOf_def split: prod.splits)
qed

lemma newIdentity_simp [simp]:
  "newIdentity i s = (s\<lparr>ms_heap := mput (ms_next s) i (ms_heap s), ms_next := ms_next s + 1\<rparr>, ms_next s)"
  by (simp add: newIdentity_def)

lemma adminCreateKeyLocked_inv:
  assumes "store_inv s"
  shows "store_inv (fst (adminCreateKeyLocked now s ak kid u rl am en))"
  using assms store_new_key_inv [OF assms, of "\<lparr>id_KeyID = kid, id_UserID = u, id_RateLimitPerMin = rl,
      id_AllowedModels = am, id_Enabled = en, id_CreatedAt = now\<rparr>" ak]
  by (simp add: adminCreateKeyLocked_def Let_def)

lemma AdminCreateKeyLimited_inv:
  "store_inv s \<Longrightarrow> store_inv (fst (AdminCreateKeyLimited now s ak kid u rl am en mx))"
  using adminCreateKeyLocked_inv [of s now ak kid u rl am en]
  by (auto simp: AdminCreateKeyLimited_def split: prod.splits sum.splits)

lemma AddBalance_inv:
  assumes "store_inv s"
  shows "store_inv (fst (AddBalance now s u d))"
proof (cases "checkedBalanceAdd (mget0 (ms_balances s) u) d")
  case (Inr b)
  have "store_inv (s\<lparr>ms_balances := mput u b (ms_balances s)\<rparr>)"
    using store_balance_inv [OF assms] checkedBalanceAdd_in [OF Inr] by simp
  from store_user_inv [OF this] this show ?thesis
    by (auto simp: AddBalance_def Inr Let_def split: option.splits)
qed (simp add: AddBalance_def assms)

lemma BillingReserve_inv:
  "store_inv s \<Longrightarrow> store_inv (fst (BillingReserve s u d))"
  using store_balance_inv [of s] by (auto simp: BillingReserve_def Let_def split: option.splits)

lemma BillingAdjust_inv:
  "store_inv s \<Longrightarrow> store_inv (fst (BillingAdjust s u d))"
  using store_balance_inv [of s] checkedBalanceAdd_in
  by (auto simp: BillingAdjust_def split: sum.splits)

lemma AdminCreateUser_inv:
  assumes "store_inv s" "in_i64 b"
  shows "store_inv (fst (AdminCreateUser now s u b en))"
proof -
  have "store_inv (s\<lparr>ms_users := mput u \<lparr>mu_enabled = en, mu_createdAt = now, mu_updatedAt = now\<rparr> (ms_users s)\<rparr>)"
    by (rule store_user_inv [OF assms(1)])
  from store_balance_inv [OF this assms(2), of u] show ?thesis
    using assms(1) by (simp add: AdminCreateUser_def)
qed

lemma AdminSetUserEnabled_inv:
  "store_inv s \<Longrightarrow> store_inv (fst (AdminSetUserEnabled now s u en))"
  using store_user_inv [of s u] by (auto simp: AdminSetUserEnabled_def Let_def split: option.splits)

lemma AdminAddBalance_inv:
  assumes "store_inv s"
  shows "store_inv (fst (AdminAddBalance now s u d))"
proof (cases "checkedBalanceAdd (mget0 (ms_balances s) u) d")
  case (Inr b)
  have "store_inv (s\<lparr>ms_balances := mput u b (ms_balances s)\<rparr>)"
    using store_balance_inv [OF assms] checkedBalanceAdd_in [OF Inr] by simp
  from store_user_inv [OF this, of u] show ?thesis
    using assms by (auto simp: AdminAddBalance_def Inr split: option.splits)
qed (simp add: AdminAddBalance_def assms split: option.splits)

lemma AdminSetKeyEnabled_inv:
  assumes "store_inv s"
  shows "store_inv (fst (AdminSetKeyEnabled s kid en))"
proof (cases "map_of (ms_keyByID s) kid")
  case (Some a)
  then obtain i where i: "map_of (ms_heap s) a = Some i"
    using assms by (force simp: store_inv_def store_ids_def)
  let ?t = "s\<lparr>ms_heap := mput a (i\<lparr>id_Enabled := en\<rparr>) (ms_heap s)\<rparr>"
  have "store_maps ?t" "store_alloc ?t" "store_users ?t"
    using assms i by (auto simp: store_simps)
  moreover have "store_keys ?t" "store_ids ?t"
    using assms i unfolding store_inv_def store_keys_def store_ids_def by (auto split: if_splits; metis option.inject)+
  ultimately have "store_inv ?t" by (simp add: store_inv_def)
  then show ?thesis by (simp add: AdminSetKeyEnabled_def Some i Let_def)
qed (simp add: AdminSetKeyEnabled_def assms)

text \<open>Deleting a key removes exactly the API key that points to its identity.\<close>

lemma AdminDeleteKey_ok:
  assumes "store_inv s" "map_of (ms_keyByID s) kid = Some a"
  shows "\<exists>ak. map_of (ms_keys s) ak = Some a \<and>
           AdminDeleteKey s kid = (s\<lparr>ms_keyByID := mdel kid (ms_keyByID s), ms_keys := mdel ak (ms_keys s)\<rparr>, Inr ())"
proof -
  obtain ak where ak: "map_of (ms_keys s) ak = Some a"
    using assms by (force simp: store_inv_def store_ids_def)
  have "deleteKeyOf a (ms_keys s) = mdel ak (ms_keys s)"
    using assms(1) ak by (intro deleteKeyOf_unique) (auto simp: store_inv_def store_maps_def store_keys_def)
  then show ?thesis using ak assms(2) by (auto simp: AdminDeleteKey_def)
qed

lemma AdminDeleteKey_inv:
  assumes "store_inv s"
  shows "store_inv (fst (AdminDeleteKey s kid))"
proof (cases "map_of (ms_keyByID s) kid")
  case (Some a)
  then obtain ak where ak: "map_of (ms_keys s) ak = Some a" and
    eq: "AdminDeleteKey s kid = (s\<lparr>ms_keyByID := mdel kid (ms_keyByID s), ms_keys := mdel ak (ms_keys s)\<rparr>, Inr ())"
    using AdminDeleteKey_ok [OF assms] by blast
  let ?t = "s\<lparr>ms_keyByID := mdel kid (ms_keyByID s), ms_keys := mdel ak (ms_keys s)\<rparr>"
  have keys: "store_keys s" and ids: "store_ids s"
    using assms by (simp_all add: store_inv_def)
  have "store_maps ?t" "store_alloc ?t" "store_users ?t"
    using assms by (auto simp: store_simps)
  moreover have "store_keys ?t"
    using keys ids ak Some unfolding store_keys_def store_ids_def by (auto split: if_splits) metis
  moreover have "store_ids ?t"
    using keys ids ak Some unfolding store_keys_def store_ids_def by (auto split: if_splits) (metis option.inject)
  ultimately show ?thesis unfolding eq by (simp add: store_inv_def)
qed (simp add: AdminDeleteKey_def assms)

lemma seedOne_inv:
  assumes inv: "store_inv s" and b: "in_i64 (ks_InitialBalance seed)" and ok: "seedOne s seed now = Inr s'"
  shows "store_inv s'"
proof -
  let ?i = "\<lparr>id_KeyID = ks_KeyID seed, id_UserID = ks_UserID seed,
              id_RateLimitPerMin = ks_RateLimitPerMin seed, id_AllowedModels = ks_AllowedModels seed,
              id_Enabled = ks_Enabled seed, id_CreatedAt = now\<rparr>"
  let ?u = "\<lparr>mu_enabled = True, mu_createdAt = now, mu_updatedAt = now\<rparr>"
  let ?s = "if mhas (ms_users s) (ks_UserID seed) then s
            else s\<lparr>ms_balances := mput (ks_UserID seed) (ks_InitialBalance seed) (ms_balances s),
                   ms_users := mput (ks_UserID seed) ?u (ms_users s)\<rparr>"
  have s0: "store_inv ?s"
    using inv store_user_inv [OF store_balance_inv [OF inv b, of "ks_UserID seed"], of "ks_UserID seed" ?u]
    by simp
  have user: "mhas (ms_users ?s) (id_UserID ?i)"
    by (simp add: mhas_def)
  have k: "\<not> mhas (ms_keys ?s) (ks_APIKey seed)"
    and kid: "ks_KeyID seed \<noteq> [] \<longrightarrow> \<not> mhas (ms_keyByID ?s) (id_KeyID ?i)"
    using ok by (auto simp: seedOne_def split: if_splits)
  show ?thesis
  proof (cases "ks_KeyID seed = []")
    case True
    have "s' = ?s\<lparr>ms_heap := mput (ms_next ?s) ?i (ms_heap ?s), ms_next := ms_next ?s + 1,
           ms_keys := mput (ks_APIKey seed) (ms_next ?s) (ms_keys ?s)\<rparr>"
      using ok True by (auto simp: seedOne_def Let_def split: if_splits)
    then show ?thesis
      using store_new_anon_inv [OF s0 user k] True by simp
  next
    case False
    have "s' = ?s\<lparr>ms_heap := mput (ms_next ?s) ?i (ms_heap ?s), ms_next := ms_next ?s + 1,
           ms_keys := mput (ks_APIKey seed) (ms_next ?s) (ms_keys ?s),
           ms_keyByID := mput (id_KeyID ?i) (ms_next ?s) (ms_keyByID ?s)\<rparr>"
      using ok False by (auto simp: seedOne_def Let_def split: if_splits)
    then show ?thesis
      using store_new_key_inv [OF s0 user k] kid False by simp
  qed
qed

lemma seedLoop_inv:
  "store_inv s \<Longrightarrow> (\<And>x. x \<in> set seeds \<Longrightarrow> in_i64 (ks_InitialBalance (fst x))) \<Longrightarrow>
   seedLoop s seeds = Inr s' \<Longrightarrow> store_inv s'"
proof (induction s seeds rule: seedLoop.induct)
  case (2 s seed now rest)
  then show ?case by (force split: sum.splits dest: seedOne_inv)
qed simp

section \<open>Reachable stores\<close>

text \<open>A store is built from seeds whose balances are Go \<open>int64\<close> values and then changed by the
  operations in any order.\<close>

inductive store_reach :: "mem_store \<Rightarrow> bool" where
  new: "NewMemoryStore seeds = Inr s \<Longrightarrow> list_all (\<lambda>x. in_i64 (ks_InitialBalance (fst x))) seeds \<Longrightarrow>
        store_reach s"
| addBalance: "store_reach s \<Longrightarrow> store_reach (fst (AddBalance now s u d))"
| reserve: "store_reach s \<Longrightarrow> store_reach (fst (BillingReserve s u d))"
| adjust: "store_reach s \<Longrightarrow> store_reach (fst (BillingAdjust s u d))"
| createUser: "store_reach s \<Longrightarrow> in_i64 b \<Longrightarrow> store_reach (fst (AdminCreateUser now s u b en))"
| setUser: "store_reach s \<Longrightarrow> store_reach (fst (AdminSetUserEnabled now s u en))"
| adminAdd: "store_reach s \<Longrightarrow> store_reach (fst (AdminAddBalance now s u d))"
| createKey: "store_reach s \<Longrightarrow> store_reach (fst (AdminCreateKey now s ak kid u rl am en))"
| createLimited: "store_reach s \<Longrightarrow> store_reach (fst (AdminCreateKeyLimited now s ak kid u rl am en mx))"
| setKey: "store_reach s \<Longrightarrow> store_reach (fst (AdminSetKeyEnabled s kid en))"
| deleteKey: "store_reach s \<Longrightarrow> store_reach (fst (AdminDeleteKey s kid))"

lemma reach_inv: "store_reach s \<Longrightarrow> store_inv s"
  by (induction rule: store_reach.induct)
     (auto simp: NewMemoryStore_def list_all_iff AdminCreateKey_def
       intro: seedLoop_inv [OF emptyStore_inv] AddBalance_inv BillingReserve_inv BillingAdjust_inv
         AdminCreateUser_inv AdminSetUserEnabled_inv AdminAddBalance_inv adminCreateKeyLocked_inv
         AdminCreateKeyLimited_inv AdminSetKeyEnabled_inv AdminDeleteKey_inv)

section \<open>Authentication after management operations\<close>

text \<open>What a lookup returns once the identities satisfying \<open>P\<close> are cut off.\<close>

definition cut_off :: "(identity \<Rightarrow> bool) \<Rightarrow> identity result \<Rightarrow> identity result" where
  "cut_off P r = (case r of Inl e \<Rightarrow> Inl e
                  | Inr i \<Rightarrow> if P i then Inl ErrStoreKeyNotFound else Inr i)"

lemma ResolveKey_no_panic:
  assumes "store_inv s" shows "ResolveKey s ak \<noteq> Inl ErrPanic"
  using assms by (force simp: ResolveKey_def store_inv_def store_keys_def split: option.splits if_splits)

text \<open>The identity of an API key carries the deleted id exactly if the key is the deleted one.\<close>

lemma key_id_unique:
  assumes "store_inv s" "kid \<noteq> []" "map_of (ms_keyByID s) kid = Some a"
    and "map_of (ms_keys s) ak = Some b" "map_of (ms_heap s) b = Some i"
  shows "id_KeyID i = kid \<longleftrightarrow> b = a"
  using assms by (force simp: store_inv_def store_keys_def store_ids_def)

lemma disable_key_resolve:
  assumes "store_inv s" "kid \<noteq> []" "map_of (ms_keyByID s) kid = Some a"
  shows "ResolveKey (fst (AdminSetKeyEnabled s kid False)) ak
           = cut_off (\<lambda>i. id_KeyID i = kid) (ResolveKey s ak)"
proof -
  obtain i where i: "map_of (ms_heap s) a = Some i"
    using assms by (force simp: store_inv_def store_ids_def)
  show ?thesis
  proof (cases "map_of (ms_keys s) ak")
    case (Some b)
    then obtain j where j: "map_of (ms_heap s) b = Some j"
      using assms by (force simp: store_inv_def store_keys_def)
    show ?thesis
      using key_id_unique [OF assms Some j] i j Some assms(3)
      by (auto simp: ResolveKey_def AdminSetKeyEnabled_def cut_off_def Let_def split: option.splits)
  qed (simp add: ResolveKey_def AdminSetKeyEnabled_def cut_off_def Let_def assms i)
qed

lemma delete_key_resolve:
  assumes "store_inv s" "kid \<noteq> []" "map_of (ms_keyByID s) kid = Some a"
  shows "ResolveKey (fst (AdminDeleteKey s kid)) ak
           = cut_off (\<lambda>i. id_KeyID i = kid) (ResolveKey s ak)"
proof -
  obtain dk where dk: "map_of (ms_keys s) dk = Some a" and
    eq: "AdminDeleteKey s kid = (s\<lparr>ms_keyByID := mdel kid (ms_keyByID s), ms_keys := mdel dk (ms_keys s)\<rparr>, Inr ())"
    using AdminDeleteKey_ok [OF assms(1,3)] by blast
  show ?thesis
  proof (cases "map_of (ms_keys s) ak")
    case (Some b)
    then obtain j where j: "map_of (ms_heap s) b = Some j"
      using assms by (force simp: store_inv_def store_keys_def)
    have "b = a \<longleftrightarrow> ak = dk"
      using assms(1) dk Some by (auto simp: store_inv_def store_keys_def)
    then show ?thesis
      using key_id_unique [OF assms Some j] j Some dk
      by (auto simp: ResolveKey_def eq cut_off_def split: option.splits)
  qed (auto simp: ResolveKey_def eq cut_off_def)
qed

lemma disable_user_resolve:
  assumes "store_inv s" "mhas (ms_users s) u"
  shows "ResolveKey (fst (AdminSetUserEnabled now s u False)) ak
           = cut_off (\<lambda>i. id_UserID i = u) (ResolveKey s ak)"
  using assms
  by (auto simp: ResolveKey_def AdminSetUserEnabled_def cut_off_def mhas_def Let_def split: option.splits)

text \<open>Creating a key adds one to its user's count and is seen by the next lookup.\<close>

lemma keyCount_create:
  assumes "store_inv s" "adminCreateKeyLocked now s ak kid u rl am en = (s', Inr v)"
  shows "keyCount s' u = keyCount s u + 1"
proof -
  have ids: "map_of (ms_keyByID s) kid = None"
    and s': "ms_keyByID s' = ms_keyByID s @ [(kid, ms_next s)]"
    and heap: "map_of (ms_heap s') = (map_of (ms_heap s))(ms_next s \<mapsto> \<lparr>id_KeyID = kid, id_UserID = u,
                 id_RateLimitPerMin = rl, id_AllowedModels = am, id_Enabled = en, id_CreatedAt = now\<rparr>)"
    using assms(2) by (auto simp: adminCreateKeyLocked_def mhas_def mput_fresh Let_def split: if_splits)
  have "a \<noteq> ms_next s" if "(k, a) \<in> set (ms_keyByID s)" for k a
  proof -
    have "map_of (ms_keyByID s) k = Some a"
      using that assms(1) by (simp add: mget_set store_inv_def store_maps_def)
    then show ?thesis using assms(1) by (force simp: store_inv_def store_ids_def store_alloc_def)
  qed
  then have "filter (\<lambda>(k, a). case map_of (ms_heap s') a of None \<Rightarrow> False | Some i \<Rightarrow> id_UserID i = u) (ms_keyByID s)
      = filter (\<lambda>(k, a). case map_of (ms_heap s) a of None \<Rightarrow> False | Some i \<Rightarrow> id_UserID i = u) (ms_keyByID s)"
    by (intro filter_cong) (auto simp: heap)
  then show ?thesis by (simp add: keyCount_def s' heap)
qed

lemma create_resolve:
  assumes "store_inv s" "adminCreateKeyLocked now s ak kid u rl am en = (s', Inr v)"
  shows "ResolveKey s' k =
    (if k = ak then
       (if en \<and> (\<forall>x. map_of (ms_users s) u = Some x \<longrightarrow> mu_enabled x)
        then Inr \<lparr>id_KeyID = kid, id_UserID = u, id_RateLimitPerMin = rl, id_AllowedModels = am,
                  id_Enabled = en, id_CreatedAt = now\<rparr>
        else Inl ErrStoreKeyNotFound)
     else ResolveKey s k)"
proof -
  let ?i = "\<lparr>id_KeyID = kid, id_UserID = u, id_RateLimitPerMin = rl, id_AllowedModels = am,
              id_Enabled = en, id_CreatedAt = now\<rparr>"
  have b: "b \<noteq> ms_next s" if "map_of (ms_keys s) k = Some b" for b
    using that assms(1) by (force simp: store_inv_def store_keys_def store_alloc_def)
  have user: "mhas (ms_users s) u"
    and heap: "ms_heap s' = mput (ms_next s) ?i (ms_heap s)"
    and keys: "ms_keys s' = mput ak (ms_next s) (ms_keys s)" and users: "ms_users s' = ms_users s"
    using assms(2) by (auto simp: adminCreateKeyLocked_def Let_def split: if_splits)
  show ?thesis
  proof (cases "k = ak")
    case True
    then show ?thesis using user
      by (simp add: ResolveKey_def heap keys users mhas_def split: option.splits)
  next
    case False
    then show ?thesis using b
      by (simp add: ResolveKey_def heap keys users split: option.splits)
  qed
qed

section \<open>Balances and listings\<close>

lemma AdminAddBalance_ok:
  assumes "store_inv s" "in_i64 d" "mhas (ms_users s) u"
  shows "snd (AdminAddBalance now s u d) =
           (if in_i64 (Balance s u + d) then Inr (Balance s u + d) else Inl ErrBalanceOverflow)"
    and "Balance (fst (AdminAddBalance now s u d)) w =
           (if w = u \<and> in_i64 (Balance s u + d) then Balance s u + d else Balance s w)"
  using assms in_i64_mget0 [of s u]
  by (auto simp: AdminAddBalance_def mhas_def Balance_def checkedBalanceAdd_ok store_inv_def)

lemma paginate_take_drop:
  assumes "0 \<le> offset" "0 < limit"
  shows "paginate views limit offset = take (nat limit) (drop (nat offset) views)"
  using assms by (auto simp: paginate_def Let_def)

lemma paginate_all: "paginate views 0 0 = views"
  by (simp add: paginate_def)

lemma listUsers_ids:
  "set (map uv_ExternalID (AdminListUsers s 0 0)) = set (map fst (ms_users s))"
  by (force simp: AdminListUsers_def paginate_all userView_def)

lemma listUsers_distinct:
  assumes "store_inv s" shows "distinct (map uv_ExternalID (AdminListUsers s 0 0))"
proof -
  let ?vs = "map (\<lambda>(i, u). userView s i u) (ms_users s)"
  have ids: "map uv_ExternalID ?vs = map fst (ms_users s)"
    by (simp add: userView_def case_prod_beta)
  have "distinct (map uv_ExternalID ?vs)"
    unfolding ids using assms by (simp add: store_inv_def store_maps_def mwf_def)
  then have "distinct (map uv_ExternalID (sort_key userOrder ?vs))"
    unfolding distinct_map [of uv_ExternalID] by simp
  then show ?thesis by (simp add: AdminListUsers_def paginate_all)
qed

section \<open>Properties\<close>

text \<open>However seeds and operations are combined, the store's maps stay coherent: the two key
  indexes point to live identities, no two API keys share an identity, the index by id agrees with
  the ids, every identity's owner exists and every balance is a 64-bit number.\<close>

theorem store_reach_inv: "store_reach s \<Longrightarrow> store_inv s"
  by (rule reach_inv)

text \<open>Revocation is immediate and exact: disabling or deleting a key by its id, or disabling a
  user, makes precisely the API keys of that identity or user fail to resolve, although lookups go
  through a different index; every other API key resolves as before.\<close>

theorem revocation_exact:
  assumes "store_reach s" "kid \<noteq> []" "mhas (ms_keyByID s) kid" "mhas (ms_users s) u"
  shows "(\<exists>s' v. AdminSetKeyEnabled s kid False = (s', Inr v) \<and>
            (\<forall>ak. ResolveKey s' ak = cut_off (\<lambda>i. id_KeyID i = kid) (ResolveKey s ak))) \<and>
         (\<exists>s'. AdminDeleteKey s kid = (s', Inr ()) \<and>
            (\<forall>ak. ResolveKey s' ak = cut_off (\<lambda>i. id_KeyID i = kid) (ResolveKey s ak))) \<and>
         (\<exists>s' v. AdminSetUserEnabled now s u False = (s', Inr v) \<and>
            (\<forall>ak. ResolveKey s' ak = cut_off (\<lambda>i. id_UserID i = u) (ResolveKey s ak)))"
proof -
  have inv: "store_inv s" using assms(1) by (rule reach_inv)
  obtain a where a: "map_of (ms_keyByID s) kid = Some a"
    using assms(3) by (auto simp: mhas_def)
  then obtain i where i: "map_of (ms_heap s) a = Some i"
    using inv by (force simp: store_inv_def store_ids_def)
  obtain x where x: "map_of (ms_users s) u = Some x"
    using assms(4) by (auto simp: mhas_def)
  show ?thesis
    using disable_key_resolve [OF inv assms(2) a] delete_key_resolve [OF inv assms(2) a]
      disable_user_resolve [OF inv assms(4), of now] i a x
    by (simp add: AdminSetKeyEnabled_def AdminDeleteKey_def AdminSetUserEnabled_def Let_def)
qed

text \<open>The key limit holds and creation takes effect at once: a user below the limit never gets
  more keys than it allows, a refused request changes nothing, and a created key resolves to the
  new identity (if it and its user are enabled) without affecting any other API key.\<close>

theorem AdminCreateKeyLimited_bound:
  assumes "store_reach s" "0 < mx" "keyCount s u \<le> mx"
    and "AdminCreateKeyLimited now s ak kid u rl am en mx = (s', r)"
  shows "keyCount s' u \<le> mx \<and>
    (case r of
       Inr (Some v) \<Rightarrow> keyCount s' u = keyCount s u + 1 \<and>
         (\<forall>k. ResolveKey s' k =
           (if k = ak then
              (if en \<and> (\<forall>x. map_of (ms_users s) u = Some x \<longrightarrow> mu_enabled x)
               then Inr \<lparr>id_KeyID = kid, id_UserID = u, id_RateLimitPerMin = rl,
                         id_AllowedModels = am, id_Enabled = en, id_CreatedAt = now\<rparr>
               else Inl ErrStoreKeyNotFound)
            else ResolveKey s k))
     | Inr None \<Rightarrow> s' = s \<and> keyCount s u = mx
     | Inl e \<Rightarrow> s' = s \<and> e \<in> {ErrUserNotFound, ErrKeyExists})"
proof -
  have inv: "store_inv s" using assms(1) by (rule reach_inv)
  show ?thesis
  proof (cases "keyCount s u \<ge> mx")
    case True
    then show ?thesis using assms(2-4) by (auto simp: AdminCreateKeyLimited_def)
  next
    case False
    show ?thesis
    proof (cases "adminCreateKeyLocked now s ak kid u rl am en")
      case (Pair t q)
      show ?thesis
      proof (cases q)
        case (Inl e)
        then show ?thesis using assms(3,4) False Pair
          by (auto simp: AdminCreateKeyLimited_def adminCreateKeyLocked_def Let_def split: if_splits)
      next
        case (Inr v)
        have "keyCount t u = keyCount s u + 1"
          by (rule keyCount_create [OF inv Pair [unfolded Inr]])
        then show ?thesis
          using assms(4) False Pair Inr create_resolve [OF inv Pair [unfolded Inr]]
          by (auto simp: AdminCreateKeyLimited_def)
      qed
    qed
  qed
qed

text \<open>The user listing is a sorted enumeration without repetition, newest user first, and a page
  is the corresponding slice of it: consecutive pages neither skip nor repeat a user.\<close>

theorem AdminListUsers_pages:
  assumes "store_reach s" "0 \<le> offset" "0 < limit"
  shows "AdminListUsers s limit offset = take (nat limit) (drop (nat offset) (AdminListUsers s 0 0)) \<and>
         sorted (map userOrder (AdminListUsers s 0 0)) \<and>
         distinct (map uv_ExternalID (AdminListUsers s 0 0)) \<and>
         set (map uv_ExternalID (AdminListUsers s 0 0)) = set (map fst (ms_users s))"
  using assms listUsers_distinct [OF reach_inv [OF assms(1)]] listUsers_ids [of s]
  by (simp add: AdminListUsers_def paginate_take_drop paginate_all)

section \<open>Witnesses\<close>

definition exampleSeeds :: "(key_seed \<times> gotime) list" where
  "exampleSeeds =
     [(\<lparr>ks_APIKey = ''sk-1'', ks_KeyID = ''k1'', ks_UserID = ''ann'', ks_RateLimitPerMin = 60,
        ks_AllowedModels = [], ks_Enabled = True, ks_InitialBalance = 100\<rparr>, 5),
      (\<lparr>ks_APIKey = ''sk-2'', ks_KeyID = ''k2'', ks_UserID = ''bob'', ks_RateLimitPerMin = 60,
        ks_AllowedModels = [], ks_Enabled = True, ks_InitialBalance = 7\<rparr>, 6)]"

definition exampleStore :: mem_store where
  "exampleStore = (case NewMemoryStore exampleSeeds of Inl e \<Rightarrow> emptyStore | Inr s \<Rightarrow> s)"

lemma exampleStore_eq:
  "exampleStore =
     \<lparr>ms_heap = [(0, \<lparr>id_KeyID = ''k1'', id_UserID = ''ann'', id_RateLimitPerMin = 60,
                    id_AllowedModels = [], id_Enabled = True, id_CreatedAt = 5\<rparr>),
                 (1, \<lparr>id_KeyID = ''k2'', id_UserID = ''bob'', id_RateLimitPerMin = 60,
                    id_AllowedModels = [], id_Enabled = True, id_CreatedAt = 6\<rparr>)],
      ms_next = 2, ms_keys = [(''sk-1'', 0), (''sk-2'', 1)], ms_keyByID = [(''k1'', 0), (''k2'', 1)],
      ms_balances = [(''ann'', 100), (''bob'', 7)],
      ms_users = [(''ann'', \<lparr>mu_enabled = True, mu_createdAt = 5, mu_updatedAt = 5\<rparr>),
                  (''bob'', \<lparr>mu_enabled = True, mu_createdAt = 6, mu_updatedAt = 6\<rparr>)]\<rparr>"
  by (simp add: exampleStore_def NewMemoryStore_def exampleSeeds_def seedOne_def emptyStore_def
      mhas_def Let_def)

lemma exampleStore_reach: "store_reach exampleStore"
proof (rule store_reach.new [of exampleSeeds])
  show "NewMemoryStore exampleSeeds = Inr exampleStore"
    by (simp add: exampleStore_eq NewMemoryStore_def exampleSeeds_def seedOne_def emptyStore_def
        mhas_def Let_def)
qed (simp add: exampleSeeds_def go_int)

theorem store_reach_inv_witness: "store_inv (fst (AdminDeleteKey exampleStore ''k1''))"
  by (rule store_reach_inv [OF store_reach.deleteKey [OF exampleStore_reach]])

theorem revocation_exact_witness:
  "\<exists>s'. AdminDeleteKey exampleStore ''k1'' = (s', Inr ()) \<and>
        ResolveKey s' ''sk-1'' = Inl ErrStoreKeyNotFound \<and>
        ResolveKey s' ''sk-2'' = ResolveKey exampleStore ''sk-2''"
proof -
  have "ResolveKey exampleStore ''sk-1'' \<noteq> Inl ErrPanic" "ResolveKey exampleStore ''sk-2'' \<noteq> Inl ErrPanic"
    by (simp_all add: exampleStore_eq ResolveKey_def)
  then show ?thesis
    using revocation_exact [OF exampleStore_reach, of "''k1''" "''ann''" 9]
    by (auto simp: exampleStore_eq mhas_def ResolveKey_def cut_off_def)
qed

theorem AdminCreateKeyLimited_bound_witness:
  "keyCount (fst (AdminCreateKeyLimited 9 exampleStore ''sk-3'' ''k3'' ''ann'' 0 [] True 2)) ''ann'' \<le> 2"
  using AdminCreateKeyLimited_bound [OF exampleStore_reach, of 2 "''ann''" 9 "''sk-3''" "''k3''" 0 "[]" True,
      OF _ _ prod.collapse [symmetric]]
  by (simp add: exampleStore_eq keyCount_def)

theorem AdminListUsers_pages_witness:
  "AdminListUsers exampleStore 1 1 = take 1 (drop 1 (AdminListUsers exampleStore 0 0))"
  using AdminListUsers_pages [OF exampleStore_reach, of 1 1] by simp

end
