(* ===== verification/LedgerSpec.thy ===== *)
theory LedgerSpec
  imports Prelude
begin

text \<open>
  The ledger contract of \<open>internal/billing/ledger.go\<close>: its data types, an abstract ledger that holds
  only what money correctness depends on (balances, and for each reservation its owner, amount,
  status and cost), the abstract effect \<open>astep\<close> of each operation of the \<open>Ledger\<close> interface, and the
  locale \<open>ledger_contract\<close> that states what an implementation promises. The lemmas proved once in
  the locale (money is conserved, nothing is charged or refunded twice, a consumed reservation is
  never refunded, no balance is oversold) hold of every implementation that interprets it.
\<close>

section \<open>Types of ledger.go\<close>

datatype reservation_status =
    ReservationReserved | ReservationInFlight | ReservationConsumedUnsettled
  | ReservationSettled | ReservationRefunded

record reservation =
  r_ID :: string
  r_TraceID :: string
  r_UserID :: string
  r_KeyID :: string
  r_Model :: string
  r_Amount :: int
  r_MaxInputTokens :: int
  r_MaxOutputTokens :: int
  r_CreatedAt :: gotime

record consumption =
  c_ReservationID :: string
  c_Channel :: string
  c_InputTokens :: int
  c_OutputTokens :: int
  c_CacheCreationInputTokens :: int
  c_CacheReadInputTokens :: int
  c_ReportedTotalTokens :: int
  c_Cost :: int
  c_UsageComplete :: bool
  c_Estimated :: bool
  c_RecordedAt :: gotime

text \<open>The zero value of a Go \<open>Consumption\<close>.\<close>

definition zeroConsumption :: consumption where
  "zeroConsumption = \<lparr>c_ReservationID = [], c_Channel = [], c_InputTokens = 0, c_OutputTokens = 0,
     c_CacheCreationInputTokens = 0, c_CacheReadInputTokens = 0, c_ReportedTotalTokens = 0,
     c_Cost = 0, c_UsageComplete = False, c_Estimated = False, c_RecordedAt = 0\<rparr>"

text \<open>
  One call of the \<open>Ledger\<close> interface. \<open>Recover\<close> is not a constructor: each implementation of it is a
  loop over \<open>Finalize\<close> and \<open>Refund\<close>. The result of a call is an error or the boolean that \<open>Reserve\<close>
  returns; the operations that return only an error answer \<open>Inr True\<close> when it is nil.
\<close>

datatype ledger_op =
    LReserve reservation
  | LMarkInFlight string string
  | LReleaseAttempt string
  | LRecordConsumption consumption
  | LFinalize string
  | LRefund string

section \<open>The abstract ledger\<close>

record ares =
  ar_user :: string
  ar_amount :: int
  ar_status :: reservation_status
  ar_cost :: int

record aledger =
  al_bal :: "string \<Rightarrow> int"
  al_res :: "(string, ares) gomap"

definition acredit :: "string \<Rightarrow> int \<Rightarrow> aledger \<Rightarrow> aledger" where
  "acredit u d L = L\<lparr>al_bal := (al_bal L)(u := al_bal L u + d)\<rparr>"

text \<open>Move one reservation from a status to another, paying \<open>pay a\<close> back to its owner.\<close>

definition amove ::
  "string \<Rightarrow> reservation_status \<Rightarrow> (ares \<Rightarrow> bool) \<Rightarrow> (ares \<Rightarrow> ares) \<Rightarrow> (ares \<Rightarrow> int) \<Rightarrow> aledger \<Rightarrow> aledger option"
where
  "amove i st ok f pay L =
     (case map_of (al_res L) i of
        None \<Rightarrow> None
      | Some a \<Rightarrow>
          if ar_status a = st \<and> ok a
          then Some (acredit (ar_user a) (pay a) (L\<lparr>al_res := mput i (f a) (al_res L)\<rparr>))
          else None)"

definition anyres :: "ares \<Rightarrow> bool" where "anyres a = True"
definition nopay :: "ares \<Rightarrow> int" where "nopay a = 0"
definition set_status :: "reservation_status \<Rightarrow> ares \<Rightarrow> ares" where
  "set_status st a = a\<lparr>ar_status := st\<rparr>"

text \<open>The effect of an operation that does something. A replayed operation does nothing.\<close>

fun astep :: "ledger_op \<Rightarrow> aledger \<Rightarrow> aledger option" where
  "astep (LReserve r) L =
     (if map_of (al_res L) (r_ID r) = None \<and> 0 \<le> r_Amount r \<and> r_Amount r \<le> al_bal L (r_UserID r)
      then Some (acredit (r_UserID r) (- r_Amount r)
             (L\<lparr>al_res := mput (r_ID r)
                \<lparr>ar_user = r_UserID r, ar_amount = r_Amount r,
                 ar_status = ReservationReserved, ar_cost = 0\<rparr> (al_res L)\<rparr>))
      else None)"
| "astep (LMarkInFlight i ch) L =
     amove i ReservationReserved anyres (set_status ReservationInFlight) nopay L"
| "astep (LReleaseAttempt i) L =
     amove i ReservationInFlight anyres (set_status ReservationReserved) nopay L"
| "astep (LRecordConsumption c) L =
     amove (c_ReservationID c) ReservationInFlight anyres
       (\<lambda>a. a\<lparr>ar_status := ReservationConsumedUnsettled, ar_cost := c_Cost c\<rparr>) nopay L"
| "astep (LFinalize i) L =
     amove i ReservationConsumedUnsettled (\<lambda>a. 0 \<le> ar_cost a \<and> ar_cost a \<le> ar_amount a)
       (set_status ReservationSettled) (\<lambda>a. ar_amount a - ar_cost a) L"
| "astep (LRefund i) L =
     amove i ReservationReserved anyres (set_status ReservationRefunded) ar_amount L"

text \<open>What holds after an operation that reported success, whether it acted or was a replay.\<close>

fun apost :: "ledger_op \<Rightarrow> aledger \<Rightarrow> bool" where
  "apost (LReserve r) L =
     (\<exists>a. map_of (al_res L) (r_ID r) = Some a \<and> ar_status a = ReservationReserved \<and>
          ar_user a = r_UserID r \<and> ar_amount a = r_Amount r)"
| "apost (LMarkInFlight i ch) L =
     (\<exists>a. map_of (al_res L) i = Some a \<and> ar_status a = ReservationInFlight)"
| "apost (LReleaseAttempt i) L =
     (\<exists>a. map_of (al_res L) i = Some a \<and> ar_status a = ReservationReserved)"
| "apost (LRecordConsumption c) L =
     (\<exists>a. map_of (al_res L) (c_ReservationID c) = Some a \<and> ar_cost a = c_Cost c \<and>
          (ar_status a = ReservationConsumedUnsettled \<or> ar_status a = ReservationSettled))"
| "apost (LFinalize i) L =
     (\<exists>a. map_of (al_res L) i = Some a \<and> ar_status a = ReservationSettled)"
| "apost (LRefund i) L =
     (\<exists>a. map_of (al_res L) i = Some a \<and> ar_status a = ReservationRefunded)"

section \<open>Money\<close>

text \<open>What a reservation of user \<open>u\<close> still holds back, and what it has charged for good.\<close>

definition held :: "string \<Rightarrow> ares \<Rightarrow> int" where
  "held u a = (if ar_user a = u \<and> ar_status a \<noteq> ReservationSettled \<and> ar_status a \<noteq> ReservationRefunded
               then ar_amount a else 0)"

definition charged :: "string \<Rightarrow> ares \<Rightarrow> int" where
  "charged u a = (if ar_user a = u \<and> ar_status a = ReservationSettled then ar_cost a else 0)"

definition worth :: "string \<Rightarrow> aledger \<Rightarrow> int" where
  "worth u L = al_bal L u + msum (held u) (al_res L) + msum (charged u) (al_res L)"

definition awf :: "aledger \<Rightarrow> bool" where
  "awf L \<longleftrightarrow> mwf (al_res L) \<and>
     (\<forall>i a. map_of (al_res L) i = Some a \<longrightarrow> 0 \<le> ar_amount a \<and>
        (ar_status a = ReservationSettled \<longrightarrow> 0 \<le> ar_cost a \<and> ar_cost a \<le> ar_amount a))"

definition solvent :: "aledger \<Rightarrow> bool" where
  "solvent L \<longleftrightarrow> (\<forall>u. 0 \<le> al_bal L u)"

text \<open>Where a reservation of one status may be after any number of steps.\<close>

fun leads_to :: "reservation_status \<Rightarrow> reservation_status \<Rightarrow> bool" where
  "leads_to ReservationReserved t = True"
| "leads_to ReservationInFlight t = True"
| "leads_to ReservationConsumedUnsettled t =
     (t = ReservationConsumedUnsettled \<or> t = ReservationSettled)"
| "leads_to ReservationSettled t = (t = ReservationSettled)"
| "leads_to ReservationRefunded t = (t = ReservationRefunded)"

lemma leads_to_refl [simp]: "leads_to s s"
  by (cases s) auto

lemma leads_to_trans: "leads_to s t \<Longrightarrow> leads_to t w \<Longrightarrow> leads_to s w"
  by (cases s; cases t; cases w) auto

text \<open>A reservation evolves: it keeps its owner and amount, its status moves forward, and once it is
  consumed its cost is fixed.\<close>

definition evolves :: "ares \<Rightarrow> ares \<Rightarrow> bool" where
  "evolves a b \<longleftrightarrow> ar_user b = ar_user a \<and> ar_amount b = ar_amount a \<and>
     leads_to (ar_status a) (ar_status b) \<and>
     (ar_status a \<in> {ReservationConsumedUnsettled, ReservationSettled} \<longrightarrow> ar_cost b = ar_cost a)"

lemma evolves_refl [simp]: "evolves a a"
  by (simp add: evolves_def)

lemma evolves_trans: "evolves a b \<Longrightarrow> evolves b c \<Longrightarrow> evolves a c"
  by (cases "ar_status a"; cases "ar_status b") (auto simp: evolves_def intro: leads_to_trans)

section \<open>Steps of the abstract ledger\<close>

named_theorems ledger_step "unfolding of one abstract ledger step"

lemmas ledger_step_defs [ledger_step] =
  amove_def acredit_def anyres_def nopay_def set_status_def

lemma amove_worth:
  assumes "amove i st ok f pay L = Some L'"
    and "\<And>a u. ar_status a = st \<Longrightarrow> ok a \<Longrightarrow>
           (if ar_user a = u then pay a else 0) + held u (f a) + charged u (f a)
             = held u a + charged u a"
  shows "worth u L' = worth u L"
proof -
  obtain a where a: "map_of (al_res L) i = Some a" "ar_status a = st" "ok a"
    and L': "L' = acredit (ar_user a) (pay a) (L\<lparr>al_res := mput i (f a) (al_res L)\<rparr>)"
    using assms(1) by (auto simp: amove_def split: option.splits if_splits)
  show ?thesis
    using assms(2) [OF a(2,3), of u] a(1)
    by (auto simp: L' worth_def acredit_def msum_upd split: if_splits)
qed

lemma astep_worth:
  assumes "astep op L = Some L'"
  shows "worth u L' = worth u L"
proof (cases op)
  case (LReserve r)
  then show ?thesis using assms
    by (auto simp: worth_def acredit_def msum_fresh held_def charged_def split: if_splits)
next
  case (LMarkInFlight i ch)
  then show ?thesis using assms
    by (auto elim!: amove_worth simp: held_def charged_def set_status_def nopay_def)
next
  case (LReleaseAttempt i)
  then show ?thesis using assms
    by (auto elim!: amove_worth simp: held_def charged_def set_status_def nopay_def)
next
  case (LRecordConsumption c)
  then show ?thesis using assms
    by (auto elim!: amove_worth simp: held_def charged_def nopay_def)
next
  case (LFinalize i)
  then show ?thesis using assms
    by (auto elim!: amove_worth simp: held_def charged_def set_status_def)
next
  case (LRefund i)
  then show ?thesis using assms
    by (auto elim!: amove_worth simp: held_def charged_def set_status_def)
qed

lemma astep_awf:
  assumes "astep op L = Some L'" "awf L"
  shows "awf L'"
  using assms
  by (cases op) (auto simp: awf_def ledger_step split: option.splits if_splits)

lemma astep_solvent:
  assumes "astep op L = Some L'" "awf L" "solvent L"
  shows "solvent L'"
  using assms
  by (cases op) (auto simp: awf_def solvent_def ledger_step split: option.splits if_splits)

lemma astep_evolves:
  assumes "astep op L = Some L'" "map_of (al_res L) i = Some a"
  shows "\<exists>b. map_of (al_res L') i = Some b \<and> evolves a b"
  using assms
  by (cases op) (auto simp: evolves_def ledger_step split: option.splits if_splits)

lemma astep_apost:
  assumes "astep op L = Some L'"
  shows "apost op L'"
  using assms
  by (cases op) (auto simp: ledger_step split: option.splits if_splits)

section \<open>The contract\<close>

text \<open>
  An implementation executes an operation in an environment (the clock; for a database also the
  failures of statements and the outcome of the commit). It keeps its invariant; it leaves the
  abstract ledger alone or performs the abstract step, whatever it answers; and when it reports
  success the postcondition holds.
\<close>

locale ledger_contract =
  fixes exec :: "'e \<Rightarrow> ledger_op \<Rightarrow> 's \<Rightarrow> 's \<times> bool result"
    and abs :: "'s \<Rightarrow> aledger"
    and inv :: "'s \<Rightarrow> bool"
  assumes exec_inv: "inv s \<Longrightarrow> inv (fst (exec e op s))"
    and exec_step: "inv s \<Longrightarrow> abs (fst (exec e op s)) = abs s \<or>
                      astep op (abs s) = Some (abs (fst (exec e op s)))"
    and exec_post: "inv s \<Longrightarrow> snd (exec e op s) = Inr True \<Longrightarrow> apost op (abs (fst (exec e op s)))"
    and inv_awf: "inv s \<Longrightarrow> awf (abs s)"
begin

primrec run :: "('e \<times> ledger_op) list \<Rightarrow> 's \<Rightarrow> 's" where
  "run [] s = s"
| "run (x # xs) s = run xs (fst (exec (fst x) (snd x) s))"

lemma run_append: "run (xs @ ys) s = run ys (run xs s)"
  by (induction xs arbitrary: s) auto

lemma run_inv: "inv s \<Longrightarrow> inv (run xs s)"
  by (induction xs arbitrary: s) (auto simp: exec_inv)

lemma exec_worth: "inv s \<Longrightarrow> worth u (abs (fst (exec e op s))) = worth u (abs s)"
  using exec_step [of s e op] astep_worth [of op "abs s"] by auto

lemma run_worth: "inv s \<Longrightarrow> worth u (abs (run xs s)) = worth u (abs s)"
  by (induction xs arbitrary: s) (auto simp: exec_inv exec_worth)

lemma exec_solvent: "inv s \<Longrightarrow> solvent (abs s) \<Longrightarrow> solvent (abs (fst (exec e op s)))"
  using exec_step [of s e op] astep_solvent [of op "abs s"] inv_awf [of s] by auto

lemma run_solvent: "inv s \<Longrightarrow> solvent (abs s) \<Longrightarrow> solvent (abs (run xs s))"
  by (induction xs arbitrary: s) (auto simp: exec_inv exec_solvent)

lemma exec_evolves:
  assumes "inv s" "map_of (al_res (abs s)) i = Some a"
  shows "\<exists>b. map_of (al_res (abs (fst (exec e op s)))) i = Some b \<and> evolves a b"
  using exec_step [OF assms(1), of e op] astep_evolves [of op "abs s"] assms(2) by force

lemma run_evolves:
  assumes "inv s" "map_of (al_res (abs s)) i = Some a"
  shows "\<exists>b. map_of (al_res (abs (run xs s))) i = Some b \<and> evolves a b"
  using assms
proof (induction xs arbitrary: s a)
  case (Cons x xs)
  obtain b where "map_of (al_res (abs (fst (exec (fst x) (snd x) s)))) i = Some b" "evolves a b"
    using exec_evolves [OF Cons.prems] by blast
  then show ?case
    using Cons.IH [of "fst (exec (fst x) (snd x) s)" b] exec_inv [OF Cons.prems(1)]
    by (auto intro: evolves_trans)
qed simp

text \<open>A reservation reported consumed stays consumed at the same cost: no later operation refunds
  it, in whatever order and with whatever failures.\<close>

lemma consumed_stays:
  assumes "inv s" "snd (exec e (LRecordConsumption c) s) = Inr True"
  shows "\<exists>a. map_of (al_res (abs (run xs (fst (exec e (LRecordConsumption c) s))))) (c_ReservationID c)
               = Some a \<and> ar_cost a = c_Cost c \<and>
             (ar_status a = ReservationConsumedUnsettled \<or> ar_status a = ReservationSettled)"
proof -
  obtain a where "map_of (al_res (abs (fst (exec e (LRecordConsumption c) s)))) (c_ReservationID c)
      = Some a" "ar_cost a = c_Cost c"
    "ar_status a = ReservationConsumedUnsettled \<or> ar_status a = ReservationSettled"
    using exec_post [OF assms] by auto
  then show ?thesis
    using run_evolves [OF exec_inv [OF assms(1)], of e "LRecordConsumption c" "c_ReservationID c" a xs]
    by (auto simp: evolves_def)
qed

text \<open>A refunded reservation is never charged, and a settled one is charged its cost once.\<close>

lemma refunded_stays:
  assumes "inv s" "snd (exec e (LRefund i) s) = Inr True"
  shows "\<exists>a. map_of (al_res (abs (run xs (fst (exec e (LRefund i) s))))) i = Some a \<and>
             ar_status a = ReservationRefunded"
proof -
  obtain a where "map_of (al_res (abs (fst (exec e (LRefund i) s)))) i = Some a"
    "ar_status a = ReservationRefunded"
    using exec_post [OF assms] by auto
  then show ?thesis
    using run_evolves [OF exec_inv [OF assms(1)], of e "LRefund i" i a xs]
    by (auto simp: evolves_def)
qed

lemma settled_stays:
  assumes "inv s" "map_of (al_res (abs s)) i = Some a" "ar_status a = ReservationSettled"
  shows "\<exists>b. map_of (al_res (abs (run xs s))) i = Some b \<and> ar_status b = ReservationSettled \<and>
             ar_cost b = ar_cost a \<and> ar_amount b = ar_amount a \<and> ar_user b = ar_user a"
  using run_evolves [OF assms(1,2), of xs] assms(3) by (auto simp: evolves_def)

end

end
