(* ===== verification/MemLedger.thy ===== *)
theory MemLedger
  imports LedgerSpec Store
begin

text \<open>
  The development ledger of \<open>internal/billing/memory_ledger.go\<close>. It keeps one record per
  reservation and moves money in the \<open>MemoryStore\<close> it shares with the management interface. Every
  method runs under the ledger's mutex and is one step; \<open>time.Now()\<close> is the argument \<open>now\<close>. The
  interpretation \<open>mem\<close> shows that it satisfies the ledger contract.
\<close>

section \<open>State and operations\<close>

definition staleReservedAfter :: duration where "staleReservedAfter = 5 * minute"
definition staleInFlightAfter :: duration where "staleInFlightAfter = 24 * hour"

record mem_rec =
  lr_reservation :: reservation
  lr_status :: reservation_status
  lr_attemptChannel :: string
  lr_attemptedAt :: gotime
  lr_consumption :: consumption

record mem_ledger =
  ml_store :: mem_store
  ml_records :: "(string, mem_rec) gomap"

definition NewMemoryLedger :: "mem_store \<Rightarrow> mem_ledger" where
  "NewMemoryLedger s = \<lparr>ml_store = s, ml_records = []\<rparr>"

definition sameReservation :: "reservation \<Rightarrow> reservation \<Rightarrow> bool" where
  "sameReservation a b \<longleftrightarrow>
     r_ID a = r_ID b \<and> r_TraceID a = r_TraceID b \<and> r_UserID a = r_UserID b \<and>
     r_KeyID a = r_KeyID b \<and> r_Model a = r_Model b \<and> r_Amount a = r_Amount b \<and>
     r_MaxInputTokens a = r_MaxInputTokens b \<and> r_MaxOutputTokens a = r_MaxOutputTokens b"

definition sameConsumption :: "consumption \<Rightarrow> consumption \<Rightarrow> bool" where
  "sameConsumption a b \<longleftrightarrow>
     c_ReservationID a = c_ReservationID b \<and> c_Channel a = c_Channel b \<and>
     c_InputTokens a = c_InputTokens b \<and> c_OutputTokens a = c_OutputTokens b \<and>
     c_CacheCreationInputTokens a = c_CacheCreationInputTokens b \<and>
     c_CacheReadInputTokens a = c_CacheReadInputTokens b \<and>
     c_ReportedTotalTokens a = c_ReportedTotalTokens b \<and> c_Cost a = c_Cost b \<and>
     c_UsageComplete a = c_UsageComplete b \<and> c_Estimated a = c_Estimated b"

definition putRec :: "string \<Rightarrow> mem_rec \<Rightarrow> mem_ledger \<Rightarrow> mem_ledger" where
  "putRec i rec l = l\<lparr>ml_records := mput i rec (ml_records l)\<rparr>"

definition MemReserve :: "mem_ledger \<Rightarrow> reservation \<Rightarrow> mem_ledger \<times> bool result" where
  "MemReserve l r =
     (case map_of (ml_records l) (r_ID r) of
        Some old \<Rightarrow>
          if \<not> sameReservation (lr_reservation old) r then (l, Inl ErrReservationConflict)
          else if lr_status old \<noteq> ReservationReserved then (l, Inl ErrInvalidTransition)
          else (l, Inr True)
      | None \<Rightarrow>
          (case BillingReserve (ml_store l) (r_UserID r) (r_Amount r) of
             (s, Inl e) \<Rightarrow> (l\<lparr>ml_store := s\<rparr>, Inl e)
           | (s, Inr (ok, bal)) \<Rightarrow>
               if \<not> ok then (l\<lparr>ml_store := s\<rparr>, Inr False)
               else (putRec (r_ID r)
                       \<lparr>lr_reservation = r, lr_status = ReservationReserved, lr_attemptChannel = [],
                        lr_attemptedAt = 0, lr_consumption = zeroConsumption\<rparr>
                       (l\<lparr>ml_store := s\<rparr>), Inr True)))"

definition MemRecordConsumption :: "mem_ledger \<Rightarrow> consumption \<Rightarrow> mem_ledger \<times> goerr option" where
  "MemRecordConsumption l c =
     (case map_of (ml_records l) (c_ReservationID c) of
        None \<Rightarrow> (l, Some ErrInvalidTransition)
      | Some rec \<Rightarrow>
          (case lr_status rec of
             ReservationInFlight \<Rightarrow>
               if lr_attemptChannel rec \<noteq> [] \<and> lr_attemptChannel rec \<noteq> c_Channel c
               then (l, Some ErrReservationConflict)
               else (putRec (c_ReservationID c)
                       (rec\<lparr>lr_consumption := c, lr_status := ReservationConsumedUnsettled\<rparr>) l, None)
           | ReservationConsumedUnsettled \<Rightarrow>
               if \<not> sameConsumption (lr_consumption rec) c then (l, Some ErrReservationConflict)
               else (l, None)
           | ReservationSettled \<Rightarrow>
               if \<not> sameConsumption (lr_consumption rec) c then (l, Some ErrReservationConflict)
               else (l, None)
           | _ \<Rightarrow> (l, Some ErrInvalidTransition)))"

definition MemMarkInFlight :: "gotime \<Rightarrow> mem_ledger \<Rightarrow> string \<Rightarrow> string \<Rightarrow> mem_ledger \<times> goerr option" where
  "MemMarkInFlight now l reservationID channel =
     (case map_of (ml_records l) reservationID of
        None \<Rightarrow> (l, Some ErrInvalidTransition)
      | Some rec \<Rightarrow>
          if lr_status rec = ReservationInFlight
          then (if lr_attemptChannel rec \<noteq> channel then (l, Some ErrReservationConflict) else (l, None))
          else if lr_status rec \<noteq> ReservationReserved then (l, Some ErrInvalidTransition)
          else (putRec reservationID
                  (rec\<lparr>lr_status := ReservationInFlight, lr_attemptChannel := channel,
                       lr_attemptedAt := now\<rparr>) l, None))"

definition MemReleaseAttempt :: "mem_ledger \<Rightarrow> string \<Rightarrow> mem_ledger \<times> goerr option" where
  "MemReleaseAttempt l reservationID =
     (case map_of (ml_records l) reservationID of
        None \<Rightarrow> (l, Some ErrInvalidTransition)
      | Some rec \<Rightarrow>
          if lr_status rec = ReservationReserved then (l, None)
          else if lr_status rec \<noteq> ReservationInFlight then (l, Some ErrInvalidTransition)
          else (putRec reservationID (rec\<lparr>lr_status := ReservationReserved, lr_attemptedAt := 0\<rparr>) l, None))"

definition MemFinalize :: "mem_ledger \<Rightarrow> string \<Rightarrow> mem_ledger \<times> goerr option" where
  "MemFinalize l reservationID =
     (case map_of (ml_records l) reservationID of
        None \<Rightarrow> (l, Some ErrInvalidTransition)
      | Some rec \<Rightarrow>
          if lr_status rec = ReservationSettled then (l, None)
          else if lr_status rec \<noteq> ReservationConsumedUnsettled then (l, Some ErrInvalidTransition)
          else if c_Cost (lr_consumption rec) > r_Amount (lr_reservation rec)
          then (l, Some ErrReservationExceeded)
          else if c_Cost (lr_consumption rec) < 0 then (l, Some ErrReservationConflict)
          else (case BillingAdjust (ml_store l) (r_UserID (lr_reservation rec))
                       (i64 (r_Amount (lr_reservation rec) - c_Cost (lr_consumption rec))) of
                  (s, Inl e) \<Rightarrow> (l\<lparr>ml_store := s\<rparr>, Some e)
                | (s, Inr b) \<Rightarrow>
                    (putRec reservationID (rec\<lparr>lr_status := ReservationSettled\<rparr>)
                       (l\<lparr>ml_store := s\<rparr>), None)))"

definition MemRefund :: "mem_ledger \<Rightarrow> string \<Rightarrow> mem_ledger \<times> goerr option" where
  "MemRefund l reservationID =
     (case map_of (ml_records l) reservationID of
        None \<Rightarrow> (l, Some ErrInvalidTransition)
      | Some rec \<Rightarrow>
          if lr_status rec = ReservationRefunded then (l, None)
          else if lr_status rec \<noteq> ReservationReserved then (l, Some ErrInvalidTransition)
          else (case BillingAdjust (ml_store l) (r_UserID (lr_reservation rec))
                       (r_Amount (lr_reservation rec)) of
                  (s, Inl e) \<Rightarrow> (l\<lparr>ml_store := s\<rparr>, Some e)
                | (s, Inr b) \<Rightarrow>
                    (putRec reservationID (rec\<lparr>lr_status := ReservationRefunded\<rparr>)
                       (l\<lparr>ml_store := s\<rparr>), None)))"

text \<open>
  \<open>Recover\<close> scans the records (in the iteration order of the Go map, the argument \<open>order\<close>), releases
  the lock, then finalises what is consumed and refunds what is stale, stopping at the first error.
\<close>

definition isConsumed :: "mem_ledger \<Rightarrow> string \<Rightarrow> bool" where
  "isConsumed l i = (case map_of (ml_records l) i of
     None \<Rightarrow> False | Some rec \<Rightarrow> lr_status rec = ReservationConsumedUnsettled)"

definition isStaleReserved :: "gotime \<Rightarrow> mem_ledger \<Rightarrow> string \<Rightarrow> bool" where
  "isStaleReserved now l i = (case map_of (ml_records l) i of
     None \<Rightarrow> False
   | Some rec \<Rightarrow> lr_status rec = ReservationReserved \<and>
       \<not> is_zero_time (r_CreatedAt (lr_reservation rec)) \<and>
       r_CreatedAt (lr_reservation rec) < now - staleReservedAfter)"

definition isAmbiguous :: "gotime \<Rightarrow> mem_ledger \<Rightarrow> string \<Rightarrow> bool" where
  "isAmbiguous now l i = (case map_of (ml_records l) i of
     None \<Rightarrow> False
   | Some rec \<Rightarrow> lr_status rec = ReservationInFlight \<and>
       \<not> is_zero_time (lr_attemptedAt rec) \<and> lr_attemptedAt rec < now - staleInFlightAfter)"

fun eachUntilError :: "('s \<Rightarrow> 'a \<Rightarrow> 's \<times> goerr option) \<Rightarrow> 's \<Rightarrow> 'a list \<Rightarrow> 's \<times> goerr option" where
  "eachUntilError f s [] = (s, None)"
| "eachUntilError f s (i # is) =
     (case f s i of
        (s', Some e) \<Rightarrow> (s', Some e)
      | (s', None) \<Rightarrow> eachUntilError f s' is)"

definition MemRecover :: "gotime \<Rightarrow> string list \<Rightarrow> mem_ledger \<Rightarrow> mem_ledger \<times> goerr option" where
  "MemRecover now order l =
     (let ids = filter (isConsumed l) order;
          staleReserved = filter (isStaleReserved now l) order;
          ambiguous = list_ex (isAmbiguous now l) order
      in case eachUntilError MemFinalize l ids of
           (l1, Some e) \<Rightarrow> (l1, Some e)
         | (l1, None) \<Rightarrow>
             (case eachUntilError MemRefund l1 staleReserved of
                (l2, Some e) \<Rightarrow> (l2, Some e)
              | (l2, None) \<Rightarrow> (l2, if ambiguous then Some ErrAmbiguousReservations else None)))"

definition MemSnapshot :: "mem_ledger \<Rightarrow> string \<Rightarrow> (reservation \<times> reservation_status \<times> consumption) option" where
  "MemSnapshot l i = map_option (\<lambda>rec. (lr_reservation rec, lr_status rec, lr_consumption rec))
     (map_of (ml_records l) i)"

section \<open>Abstraction and invariant\<close>

definition errBool :: "'s \<times> goerr option \<Rightarrow> 's \<times> bool result" where
  "errBool p = (fst p, case snd p of None \<Rightarrow> Inr True | Some e \<Rightarrow> Inl e)"

lemma errBool_simps [simp]:
  "fst (errBool p) = fst p"
  "errBool (s, None) = (s, Inr True)" "errBool (s, Some e) = (s, Inl e)"
  "snd (errBool p) = Inr True \<longleftrightarrow> snd p = None"
  by (auto simp: errBool_def split: option.splits)

fun memExec :: "gotime \<Rightarrow> ledger_op \<Rightarrow> mem_ledger \<Rightarrow> mem_ledger \<times> bool result" where
  "memExec now (LReserve r) l = MemReserve l r"
| "memExec now (LMarkInFlight i ch) l = errBool (MemMarkInFlight now l i ch)"
| "memExec now (LReleaseAttempt i) l = errBool (MemReleaseAttempt l i)"
| "memExec now (LRecordConsumption c) l = errBool (MemRecordConsumption l c)"
| "memExec now (LFinalize i) l = errBool (MemFinalize l i)"
| "memExec now (LRefund i) l = errBool (MemRefund l i)"

definition mem_ares :: "mem_rec \<Rightarrow> ares" where
  "mem_ares rec = \<lparr>ar_user = r_UserID (lr_reservation rec), ar_amount = r_Amount (lr_reservation rec),
     ar_status = lr_status rec, ar_cost = c_Cost (lr_consumption rec)\<rparr>"

definition mem_abs :: "mem_ledger \<Rightarrow> aledger" where
  "mem_abs l = \<lparr>al_bal = mget0 (ms_balances (ml_store l)),
     al_res = map (\<lambda>(i, rec). (i, mem_ares rec)) (ml_records l)\<rparr>"

definition rec_ok :: "mem_store \<Rightarrow> string \<Rightarrow> mem_rec \<Rightarrow> bool" where
  "rec_ok s i rec \<longleftrightarrow> r_ID (lr_reservation rec) = i \<and>
     0 \<le> r_Amount (lr_reservation rec) \<and> r_Amount (lr_reservation rec) \<le> max_int64 \<and>
     mhas (ms_users s) (r_UserID (lr_reservation rec)) \<and>
     (lr_status rec = ReservationSettled \<longrightarrow>
        0 \<le> c_Cost (lr_consumption rec) \<and> c_Cost (lr_consumption rec) \<le> r_Amount (lr_reservation rec))"

definition mem_inv :: "mem_ledger \<Rightarrow> bool" where
  "mem_inv l \<longleftrightarrow> store_inv (ml_store l) \<and> mwf (ml_records l) \<and>
     (\<forall>i rec. map_of (ml_records l) i = Some rec \<longrightarrow> rec_ok (ml_store l) i rec)"

lemma mem_abs_simps [simp]:
  "al_bal (mem_abs l) u = mget0 (ms_balances (ml_store l)) u"
  "map_of (al_res (mem_abs l)) i = map_option mem_ares (map_of (ml_records l) i)"
  "mwf (al_res (mem_abs l)) = mwf (ml_records l)"
  by (simp_all add: mem_abs_def map_of_map_snd)

lemma NewMemoryLedger_inv: "store_inv s \<Longrightarrow> mem_inv (NewMemoryLedger s)"
  by (simp add: mem_inv_def NewMemoryLedger_def)

lemma BillingReserve_cases:
  assumes "store_inv s" "BillingReserve s u d = (s', q)"
  shows "(s' = s \<and> (\<forall>b. q \<noteq> Inr (True, b))) \<or>
         (0 \<le> d \<and> d \<le> mget0 (ms_balances s) u \<and> mhas (ms_users s) u \<and>
          s' = s\<lparr>ms_balances := mput u (mget0 (ms_balances s) u - d) (ms_balances s)\<rparr> \<and>
          q = Inr (True, mget0 (ms_balances s) u - d))"
proof -
  have b: "in_i64 (mget0 (ms_balances s) u)"
    using assms(1) by (simp add: store_inv_def in_i64_mget0)
  have "in_i64 (mget0 (ms_balances s) u - d)" if "0 \<le> d" "d \<le> mget0 (ms_balances s) u"
    using b that by (simp add: go_int)
  then show ?thesis using assms(2)
    by (auto simp: BillingReserve_def mhas_def Let_def split: if_splits option.splits)
qed

lemma BillingAdjust_cases:
  assumes "store_inv s" "0 \<le> d" "d \<le> max_int64" "BillingAdjust s u d = (s', q)"
  shows "(s' = s \<and> (\<exists>e. q = Inl e)) \<or>
         (s' = s\<lparr>ms_balances := mput u (mget0 (ms_balances s) u + d) (ms_balances s)\<rparr> \<and>
          q = Inr (mget0 (ms_balances s) u + d) \<and> mhas (ms_users s) u)"
proof -
  have b: "in_i64 (mget0 (ms_balances s) u)"
    using assms(1) by (simp add: store_inv_def in_i64_mget0)
  have "in_i64 d" using assms(2,3) by (simp add: go_int)
  then show ?thesis using assms(4) checkedBalanceAdd_ok [OF b]
    by (auto simp: BillingAdjust_def split: if_splits)
qed

lemma mem_abs_put:
  "al_res (mem_abs (putRec i rec l)) = mput i (mem_ares rec) (al_res (mem_abs l))"
  "al_bal (mem_abs (putRec i rec l)) = al_bal (mem_abs l)"
  by (simp_all add: mem_abs_def putRec_def mput_map)

lemma aledger_eqI: "al_bal L = al_bal M \<Longrightarrow> al_res L = al_res M \<Longrightarrow> L = (M :: aledger)"
  by simp

section \<open>The contract\<close>

definition mem_ok :: "ledger_op \<Rightarrow> mem_ledger \<Rightarrow> mem_ledger \<Rightarrow> bool \<Rightarrow> bool" where
  "mem_ok op l l' success \<longleftrightarrow> mem_inv l' \<and>
     (mem_abs l' = mem_abs l \<or> astep op (mem_abs l) = Some (mem_abs l')) \<and>
     (success \<longrightarrow> apost op (mem_abs l'))"

lemma mem_ok_same: "mem_inv l \<Longrightarrow> (success \<Longrightarrow> apost op (mem_abs l)) \<Longrightarrow> mem_ok op l l success"
  by (simp add: mem_ok_def)

lemma mem_ok_step:
  "mem_inv l' \<Longrightarrow> astep op (mem_abs l) = Some (mem_abs l') \<Longrightarrow> mem_ok op l l' success"
  by (simp add: mem_ok_def astep_apost)

lemma mem_inv_put:
  "mem_inv l \<Longrightarrow> rec_ok (ml_store l) i rec \<Longrightarrow> mem_inv (putRec i rec l)"
  by (auto simp: mem_inv_def putRec_def)

lemma mem_inv_store:
  "mem_inv l \<Longrightarrow> store_inv s \<Longrightarrow> ms_users s = ms_users (ml_store l) \<Longrightarrow> mem_inv (l\<lparr>ml_store := s\<rparr>)"
  by (simp add: mem_inv_def rec_ok_def)

lemma mem_inv_rec: "mem_inv l \<Longrightarrow> map_of (ml_records l) i = Some rec \<Longrightarrow> rec_ok (ml_store l) i rec"
  by (simp add: mem_inv_def)

lemma mem_same_store [simp]: "(l :: mem_ledger)\<lparr>ml_store := ml_store l\<rparr> = l"
  by simp

text \<open>A step that only changes one record.\<close>

lemma mem_status_step:
  assumes "mem_inv l" "map_of (ml_records l) i = Some rec" "rec_ok (ml_store l) i rec'"
    and "astep op (mem_abs l) = Some (mem_abs l\<lparr>al_res := mput i (mem_ares rec') (al_res (mem_abs l))\<rparr>)"
  shows "mem_ok op l (putRec i rec' l) success"
  using assms mem_inv_put [OF assms(1,3)]
  by (intro mem_ok_step) (auto simp: mem_abs_put intro: aledger_eqI)

text \<open>A step that changes one record and pays back to its owner.\<close>

lemma mem_pay_step:
  assumes "mem_inv l" "map_of (ml_records l) i = Some rec" "rec_ok (ml_store l) i rec'"
    and s: "s = (ml_store l)\<lparr>ms_balances := mput u (mget0 (ms_balances (ml_store l)) u + d) (ms_balances (ml_store l))\<rparr>"
    and "store_inv s"
    and "astep op (mem_abs l) = Some (acredit u d (mem_abs l\<lparr>al_res := mput i (mem_ares rec') (al_res (mem_abs l))\<rparr>))"
  shows "mem_ok op l (putRec i rec' (l\<lparr>ml_store := s\<rparr>)) success"
proof (rule mem_ok_step)
  have "mem_inv (l\<lparr>ml_store := s\<rparr>)"
    by (rule mem_inv_store [OF assms(1,5)]) (simp add: s)
  moreover have "rec_ok (ml_store (l\<lparr>ml_store := s\<rparr>)) i rec'"
    using assms(3) by (simp add: s rec_ok_def)
  ultimately show "mem_inv (putRec i rec' (l\<lparr>ml_store := s\<rparr>))"
    by (rule mem_inv_put)
  show "astep op (mem_abs l) = Some (mem_abs (putRec i rec' (l\<lparr>ml_store := s\<rparr>)))"
    unfolding assms(6)
    by (auto simp: s mem_abs_put acredit_def mem_abs_def putRec_def mput_map intro!: aledger_eqI)
qed

lemma MemReserve_ok:
  assumes inv: "mem_inv l"
  shows "mem_ok (LReserve r) l (fst (MemReserve l r)) (snd (MemReserve l r) = Inr True)"
proof (cases "map_of (ml_records l) (r_ID r)")
  case (Some old)
  then show ?thesis using inv
    by (auto simp: MemReserve_def sameReservation_def mem_ares_def intro!: mem_ok_same)
next
  case None
  obtain s q where b: "BillingReserve (ml_store l) (r_UserID r) (r_Amount r) = (s, q)"
    by fastforce
  have store: "store_inv (ml_store l)" using inv by (simp add: mem_inv_def)
  have s_inv: "store_inv s"
    using BillingReserve_inv [OF store, of "r_UserID r" "r_Amount r"] by (simp add: b)
  show ?thesis
  proof (cases "\<exists>x. q = Inr (True, x)")
    case False
    then have "s = ml_store l" using BillingReserve_cases [OF store b] by auto
    then show ?thesis using inv False None b
      by (auto simp: MemReserve_def split: sum.splits if_splits intro!: mem_ok_same)
  next
    case True
    let ?u = "r_UserID r" and ?bal = "ms_balances (ml_store l)"
    let ?rec = "\<lparr>lr_reservation = r, lr_status = ReservationReserved, lr_attemptChannel = [],
                  lr_attemptedAt = 0, lr_consumption = zeroConsumption\<rparr>"
    have ok: "0 \<le> r_Amount r" "r_Amount r \<le> mget0 ?bal ?u" "mhas (ms_users (ml_store l)) ?u"
      "s = (ml_store l)\<lparr>ms_balances := mput ?u (mget0 ?bal ?u - r_Amount r) ?bal\<rparr>"
      using BillingReserve_cases [OF store b] True by auto
    have "in_i64 (mget0 ?bal ?u)" using store by (simp add: store_inv_def in_i64_mget0)
    then have "rec_ok s (r_ID r) ?rec" using ok by (simp add: rec_ok_def go_int)
    moreover have "mem_inv (l\<lparr>ml_store := s\<rparr>)"
      using mem_inv_store [OF inv s_inv] ok by simp
    ultimately have inv': "mem_inv (putRec (r_ID r) ?rec (l\<lparr>ml_store := s\<rparr>))"
      by (simp add: mem_inv_put)
    have rec: "mem_ares ?rec = \<lparr>ar_user = ?u, ar_amount = r_Amount r,
        ar_status = ReservationReserved, ar_cost = 0\<rparr>"
      by (simp add: mem_ares_def zeroConsumption_def)
    have "astep (LReserve r) (mem_abs l) = Some (mem_abs (putRec (r_ID r) ?rec (l\<lparr>ml_store := s\<rparr>)))"
      using None ok
      by (auto simp: acredit_def mem_abs_def putRec_def map_of_map_snd rec
          simp flip: mput_map intro!: aledger_eqI)
    then show ?thesis using inv' True None b
      by (auto simp: MemReserve_def intro!: mem_ok_step)
  qed
qed

lemma MemRecordConsumption_ok:
  assumes inv: "mem_inv l"
  shows "mem_ok (LRecordConsumption c) l (fst (MemRecordConsumption l c))
           (snd (MemRecordConsumption l c) = None)"
proof (cases "map_of (ml_records l) (c_ReservationID c)")
  case (Some rec)
  have ok: "rec_ok (ml_store l) (c_ReservationID c) rec" by (rule mem_inv_rec [OF inv Some])
  show ?thesis
  proof (cases "lr_status rec")
    case ReservationInFlight
    let ?rec = "rec\<lparr>lr_consumption := c, lr_status := ReservationConsumedUnsettled\<rparr>"
    have "mem_ok (LRecordConsumption c) l (putRec (c_ReservationID c) ?rec l) b" for b
      using ok Some ReservationInFlight
      by (intro mem_status_step [OF inv Some])
         (auto simp: rec_ok_def ledger_step mem_ares_def intro!: aledger_eqI)
    then show ?thesis using inv Some ReservationInFlight
      by (auto simp: MemRecordConsumption_def intro!: mem_ok_same)
  qed (use inv Some in \<open>auto simp: MemRecordConsumption_def sameConsumption_def mem_ares_def
         intro!: mem_ok_same\<close>)
qed (use inv in \<open>auto simp: MemRecordConsumption_def intro!: mem_ok_same\<close>)

lemma MemMarkInFlight_ok:
  assumes inv: "mem_inv l"
  shows "mem_ok (LMarkInFlight i ch) l (fst (MemMarkInFlight now l i ch))
           (snd (MemMarkInFlight now l i ch) = None)"
proof (cases "map_of (ml_records l) i")
  case (Some rec)
  have ok: "rec_ok (ml_store l) i rec" by (rule mem_inv_rec [OF inv Some])
  let ?rec = "rec\<lparr>lr_status := ReservationInFlight, lr_attemptChannel := ch, lr_attemptedAt := now\<rparr>"
  have "mem_ok (LMarkInFlight i ch) l (putRec i ?rec l) b" if "lr_status rec = ReservationReserved" for b
    using ok Some that
    by (intro mem_status_step [OF inv Some])
       (auto simp: rec_ok_def ledger_step mem_ares_def intro!: aledger_eqI)
  then show ?thesis using inv Some
    by (auto simp: MemMarkInFlight_def mem_ares_def intro!: mem_ok_same)
qed (use inv in \<open>auto simp: MemMarkInFlight_def intro!: mem_ok_same\<close>)

lemma MemReleaseAttempt_ok:
  assumes inv: "mem_inv l"
  shows "mem_ok (LReleaseAttempt i) l (fst (MemReleaseAttempt l i))
           (snd (MemReleaseAttempt l i) = None)"
proof (cases "map_of (ml_records l) i")
  case (Some rec)
  have ok: "rec_ok (ml_store l) i rec" by (rule mem_inv_rec [OF inv Some])
  let ?rec = "rec\<lparr>lr_status := ReservationReserved, lr_attemptedAt := 0\<rparr>"
  have "mem_ok (LReleaseAttempt i) l (putRec i ?rec l) b" if "lr_status rec = ReservationInFlight" for b
    using ok Some that
    by (intro mem_status_step [OF inv Some])
       (auto simp: rec_ok_def ledger_step mem_ares_def intro!: aledger_eqI)
  then show ?thesis using inv Some
    by (auto simp: MemReleaseAttempt_def mem_ares_def intro!: mem_ok_same)
qed (use inv in \<open>auto simp: MemReleaseAttempt_def intro!: mem_ok_same\<close>)

text \<open>Finalising and refunding share their shape: pay \<open>d\<close> back and set a terminal status.\<close>

lemma mem_terminal_step:
  assumes inv: "mem_inv l" and rec: "map_of (ml_records l) i = Some rec"
    and d: "0 \<le> d" "d \<le> max_int64"
    and adj: "BillingAdjust (ml_store l) (r_UserID (lr_reservation rec)) d = (s, q)"
    and ok: "rec_ok (ml_store l) i (rec\<lparr>lr_status := st\<rparr>)"
    and step: "astep op (mem_abs l) = Some (acredit (r_UserID (lr_reservation rec)) d
        (mem_abs l\<lparr>al_res := mput i (mem_ares (rec\<lparr>lr_status := st\<rparr>)) (al_res (mem_abs l))\<rparr>))"
  shows "case q of Inl e \<Rightarrow> mem_ok op l (l\<lparr>ml_store := s\<rparr>) False
         | Inr b \<Rightarrow> mem_ok op l (putRec i (rec\<lparr>lr_status := st\<rparr>) (l\<lparr>ml_store := s\<rparr>)) True"
proof -
  have store: "store_inv (ml_store l)" using inv by (simp add: mem_inv_def)
  have s_inv: "store_inv s"
    using BillingAdjust_inv [OF store, of "r_UserID (lr_reservation rec)" d] by (simp add: adj)
  from BillingAdjust_cases [OF store d adj] show ?thesis
    using mem_ok_same [OF inv, of False op] mem_pay_step [OF inv rec ok _ s_inv step, of True]
    by auto
qed

lemma MemFinalize_ok:
  assumes inv: "mem_inv l"
  shows "mem_ok (LFinalize i) l (fst (MemFinalize l i)) (snd (MemFinalize l i) = None)"
proof (cases "map_of (ml_records l) i")
  case (Some rec)
  let ?a = "r_Amount (lr_reservation rec)" and ?c = "c_Cost (lr_consumption rec)"
  have ok: "rec_ok (ml_store l) i rec" by (rule mem_inv_rec [OF inv Some])
  show ?thesis
  proof (cases "lr_status rec = ReservationConsumedUnsettled \<and> 0 \<le> ?c \<and> ?c \<le> ?a")
    case True
    then have d: "0 \<le> ?a - ?c" "?a - ?c \<le> max_int64" and i64: "i64 (?a - ?c) = ?a - ?c"
      using ok by (auto simp: rec_ok_def go_int intro!: i64_id)
    obtain s q where adj: "BillingAdjust (ml_store l) (r_UserID (lr_reservation rec)) (?a - ?c) = (s, q)"
      by fastforce
    have "astep (LFinalize i) (mem_abs l) = Some (acredit (r_UserID (lr_reservation rec)) (?a - ?c)
        (mem_abs l\<lparr>al_res := mput i (mem_ares (rec\<lparr>lr_status := ReservationSettled\<rparr>)) (al_res (mem_abs l))\<rparr>))"
      using Some True by (auto simp: ledger_step mem_ares_def intro!: aledger_eqI)
    moreover have "rec_ok (ml_store l) i (rec\<lparr>lr_status := ReservationSettled\<rparr>)"
      using ok True by (simp add: rec_ok_def)
    ultimately show ?thesis
      using mem_terminal_step [OF inv Some d adj] adj Some True i64
      by (auto simp: MemFinalize_def split: sum.splits)
  qed (use inv Some in \<open>auto simp: MemFinalize_def mem_ares_def intro!: mem_ok_same\<close>)
qed (use inv in \<open>auto simp: MemFinalize_def intro!: mem_ok_same\<close>)

lemma MemRefund_ok:
  assumes inv: "mem_inv l"
  shows "mem_ok (LRefund i) l (fst (MemRefund l i)) (snd (MemRefund l i) = None)"
proof (cases "map_of (ml_records l) i")
  case (Some rec)
  let ?a = "r_Amount (lr_reservation rec)"
  have ok: "rec_ok (ml_store l) i rec" by (rule mem_inv_rec [OF inv Some])
  show ?thesis
  proof (cases "lr_status rec = ReservationReserved")
    case True
    have d: "0 \<le> ?a" "?a \<le> max_int64" using ok by (auto simp: rec_ok_def)
    obtain s q where adj: "BillingAdjust (ml_store l) (r_UserID (lr_reservation rec)) ?a = (s, q)"
      by fastforce
    have "astep (LRefund i) (mem_abs l) = Some (acredit (r_UserID (lr_reservation rec)) ?a
        (mem_abs l\<lparr>al_res := mput i (mem_ares (rec\<lparr>lr_status := ReservationRefunded\<rparr>)) (al_res (mem_abs l))\<rparr>))"
      using Some True by (auto simp: ledger_step mem_ares_def intro!: aledger_eqI)
    moreover have "rec_ok (ml_store l) i (rec\<lparr>lr_status := ReservationRefunded\<rparr>)"
      using ok True by (simp add: rec_ok_def)
    ultimately show ?thesis
      using mem_terminal_step [OF inv Some d adj] adj Some True
      by (auto simp: MemRefund_def split: sum.splits)
  qed (use inv Some in \<open>auto simp: MemRefund_def mem_ares_def intro!: mem_ok_same\<close>)
qed (use inv in \<open>auto simp: MemRefund_def intro!: mem_ok_same\<close>)

lemma memExec_ok:
  "mem_inv l \<Longrightarrow> mem_ok op l (fst (memExec now op l)) (snd (memExec now op l) = Inr True)"
  by (cases op) (simp_all add: MemReserve_ok MemRecordConsumption_ok MemMarkInFlight_ok
      MemReleaseAttempt_ok MemFinalize_ok MemRefund_ok)

lemma mem_inv_awf: "mem_inv l \<Longrightarrow> awf (mem_abs l)"
  by (auto simp: awf_def mem_inv_def rec_ok_def mem_ares_def)

interpretation mem: ledger_contract memExec mem_abs mem_inv
proof unfold_locales
qed (use memExec_ok mem_inv_awf in \<open>auto simp: mem_ok_def\<close>)

section \<open>Reachable ledgers and runs\<close>

primrec memRun :: "(gotime \<times> ledger_op) list \<Rightarrow> mem_ledger \<Rightarrow> mem_ledger" where
  "memRun [] l = l"
| "memRun (x # xs) l = memRun xs (fst (memExec (fst x) (snd x) l))"

lemma memRun_run: "memRun xs l = mem.run xs l"
  by (induction xs arbitrary: l) auto

text \<open>A ledger is created over a store; afterwards its operations and those of the management
  interface on the shared store happen in any order.\<close>

inductive mem_reach :: "mem_ledger \<Rightarrow> bool" where
  new: "store_reach s \<Longrightarrow> mem_reach (NewMemoryLedger s)"
| exec: "mem_reach l \<Longrightarrow> mem_reach (fst (memExec now op l))"
| topUp: "mem_reach l \<Longrightarrow> mem_reach (l\<lparr>ml_store := fst (AdminAddBalance now (ml_store l) u d)\<rparr>)"
| addUser: "mem_reach l \<Longrightarrow> in_i64 b \<Longrightarrow>
     mem_reach (l\<lparr>ml_store := fst (AdminCreateUser now (ml_store l) u b en)\<rparr>)"
| setUser: "mem_reach l \<Longrightarrow> mem_reach (l\<lparr>ml_store := fst (AdminSetUserEnabled now (ml_store l) u en)\<rparr>)"

lemma mem_inv_more_users:
  assumes "mem_inv l" "store_inv s" "\<And>u. mhas (ms_users (ml_store l)) u \<Longrightarrow> mhas (ms_users s) u"
  shows "mem_inv (l\<lparr>ml_store := s\<rparr>)"
  using assms by (auto simp: mem_inv_def rec_ok_def)

lemma mem_reach_inv: "mem_reach l \<Longrightarrow> mem_inv l"
proof (induction rule: mem_reach.induct)
  case (new s)
  then show ?case by (simp add: NewMemoryLedger_inv reach_inv)
next
  case (exec l now op)
  then show ?case using mem.exec_inv by blast
next
  case (topUp l now u d)
  then show ?case
    by (intro mem_inv_more_users AdminAddBalance_inv)
       (auto simp: AdminAddBalance_def mhas_def mem_inv_def split: option.splits sum.splits)
next
  case (addUser l b now u en)
  then show ?case
    by (intro mem_inv_more_users AdminCreateUser_inv)
       (auto simp: AdminCreateUser_def mhas_def mem_inv_def)
next
  case (setUser l now u en)
  then show ?case
    by (intro mem_inv_more_users AdminSetUserEnabled_inv)
       (auto simp: AdminSetUserEnabled_def mhas_def mem_inv_def Let_def split: option.splits)
qed

section \<open>Recovery\<close>

text \<open>A loop that runs an operation on each id until one fails is a run of the ledger; if it ends
  without error, each id was handled.\<close>

lemma eachUntilError_run:
  assumes "\<And>l i. f l i = (fst (memExec now (g i) l), snd (f l i))"
  shows "\<exists>xs. fst (eachUntilError f l is) = memRun xs l"
proof (induction "is" arbitrary: l)
  case Nil
  show ?case by (rule exI [of _ "[]"]) simp
next
  case (Cons i js)
  have step: "fst (f l i) = fst (memExec now (g i) l)" by (metis assms fst_conv)
  show ?case
  proof (cases "snd (f l i)")
    case None
    then obtain l' where f: "f l i = (l', None)" by (metis prod.collapse)
    obtain xs where "fst (eachUntilError f l' js) = memRun xs l'" using Cons.IH by blast
    then have "fst (eachUntilError f l (i # js)) = memRun ((now, g i) # xs) l"
      using f step by simp
    then show ?thesis by blast
  next
    case (Some e)
    then obtain l' where f: "f l i = (l', Some e)" by (metis prod.collapse)
    have "fst (eachUntilError f l (i # js)) = memRun [(now, g i)] l" using f step by simp
    then show ?thesis by blast
  qed
qed

lemma eachUntilError_done:
  assumes "\<And>l i. f l i = (fst (memExec now (g i) l), snd (f l i))"
    and "\<And>l l' i. I l \<Longrightarrow> f l i = (l', None) \<Longrightarrow> I l' \<and> P i l'"
    and "\<And>l l' i j. I l \<Longrightarrow> P i l \<Longrightarrow> f l j = (l', None) \<Longrightarrow> P i l'"
    and "I l" "eachUntilError f l is = (l', None)"
  shows "I l' \<and> (\<forall>i. i \<in> set is \<or> P i l \<longrightarrow> P i l')"
  using assms(4,5)
proof (induction "is" arbitrary: l)
  case (Cons i js)
  obtain m where m: "f l i = (m, None)" "eachUntilError f m js = (l', None)"
    using Cons.prems(2) by (auto split: prod.splits option.splits)
  then have "I m" "P i m" using assms(2) Cons.prems(1) by blast+
  moreover have "P j m" if "P j l" for j using assms(3) Cons.prems(1) that m(1) by blast
  ultimately show ?case using Cons.IH [OF _ m(2)] by auto
qed simp

definition statusIs :: "reservation_status \<Rightarrow> string \<Rightarrow> mem_ledger \<Rightarrow> bool" where
  "statusIs st i l \<longleftrightarrow> (\<exists>rec. map_of (ml_records l) i = Some rec \<and> lr_status rec = st)"

lemma statusIs_abs:
  "statusIs st i l \<longleftrightarrow> (\<exists>a. map_of (al_res (mem_abs l)) i = Some a \<and> ar_status a = st)"
  by (auto simp: statusIs_def mem_ares_def)

lemma statusIs_stays:
  assumes "mem_inv l" "statusIs st i l" "st = ReservationSettled \<or> st = ReservationRefunded"
  shows "statusIs st i (fst (memExec now op l))"
proof -
  obtain a where "map_of (al_res (mem_abs l)) i = Some a" "ar_status a = st"
    using assms(2) unfolding statusIs_abs by blast
  then show ?thesis
    using mem.exec_evolves [OF assms(1), of i a now op] assms(3)
    unfolding statusIs_abs evolves_def by auto
qed

lemma MemFinalize_exec: "MemFinalize l i = (fst (memExec now (LFinalize i) l), snd (MemFinalize l i))"
  by simp

lemma MemRefund_exec: "MemRefund l i = (fst (memExec now (LRefund i) l), snd (MemRefund l i))"
  by simp

lemma MemFinalize_settles:
  "mem_inv l \<Longrightarrow> MemFinalize l i = (l', None) \<Longrightarrow> mem_inv l' \<and> statusIs ReservationSettled i l'"
  using MemFinalize_ok [of l i] by (auto simp: mem_ok_def statusIs_abs)

lemma MemRefund_refunds:
  "mem_inv l \<Longrightarrow> MemRefund l i = (l', None) \<Longrightarrow> mem_inv l' \<and> statusIs ReservationRefunded i l'"
  using MemRefund_ok [of l i] by (auto simp: mem_ok_def statusIs_abs)

lemma finalizeLoop_done:
  assumes "mem_inv l" "eachUntilError MemFinalize l is = (l', None)"
  shows "mem_inv l'" and "\<And>i. i \<in> set is \<or> statusIs ReservationSettled i l \<Longrightarrow> statusIs ReservationSettled i l'"
proof -
  have "mem_inv l' \<and> (\<forall>i. i \<in> set is \<or> statusIs ReservationSettled i l \<longrightarrow> statusIs ReservationSettled i l')"
    using MemFinalize_exec [of _ _ 0] MemFinalize_settles _ assms
  proof (rule eachUntilError_done)
    show "statusIs ReservationSettled i l'"
      if "mem_inv l" "statusIs ReservationSettled i l" "MemFinalize l j = (l', None)" for l l' i j
      using statusIs_stays [OF that(1,2), of 0 "LFinalize j"] that(3) by simp
  qed
  then show "mem_inv l'" and "\<And>i. i \<in> set is \<or> statusIs ReservationSettled i l \<Longrightarrow> statusIs ReservationSettled i l'"
    by blast+
qed

lemma refundLoop_done:
  assumes "mem_inv l" "eachUntilError MemRefund l is = (l', None)"
  shows "mem_inv l'" and "\<And>i. i \<in> set is \<or> statusIs ReservationRefunded i l \<Longrightarrow> statusIs ReservationRefunded i l'"
proof -
  have "mem_inv l' \<and> (\<forall>i. i \<in> set is \<or> statusIs ReservationRefunded i l \<longrightarrow> statusIs ReservationRefunded i l')"
    using MemRefund_exec [of _ _ 0] MemRefund_refunds _ assms
  proof (rule eachUntilError_done)
    show "statusIs ReservationRefunded i l'"
      if "mem_inv l" "statusIs ReservationRefunded i l" "MemRefund l j = (l', None)" for l l' i j
      using statusIs_stays [OF that(1,2), of 0 "LRefund j"] that(3) by simp
  qed
  then show "mem_inv l'" and "\<And>i. i \<in> set is \<or> statusIs ReservationRefunded i l \<Longrightarrow> statusIs ReservationRefunded i l'"
    by blast+
qed

lemma MemFinalize_error: "snd (MemFinalize l i) \<noteq> Some ErrAmbiguousReservations"
  by (auto simp: MemFinalize_def BillingAdjust_def checkedBalanceAdd_def
      split: option.splits sum.splits prod.splits if_splits)

lemma MemRefund_error: "snd (MemRefund l i) \<noteq> Some ErrAmbiguousReservations"
  by (auto simp: MemRefund_def BillingAdjust_def checkedBalanceAdd_def
      split: option.splits sum.splits prod.splits if_splits)

lemma eachUntilError_error:
  assumes "\<And>l i. snd (f l i) \<noteq> Some e" shows "snd (eachUntilError f l is) \<noteq> Some e"
proof (induction "is" arbitrary: l)
  case (Cons i js)
  have "snd (f l i) \<noteq> Some e" by (rule assms)
  then show ?case using Cons by (auto split: prod.splits option.splits)
qed simp

lemma finalizeLoop_run: "\<exists>xs. fst (eachUntilError MemFinalize l is) = memRun xs l"
  by (rule eachUntilError_run [OF MemFinalize_exec])

lemma refundLoop_run: "\<exists>xs. fst (eachUntilError MemRefund l is) = memRun xs l"
  by (rule eachUntilError_run [OF MemRefund_exec])

lemma memRun_append: "memRun (xs @ ys) l = memRun ys (memRun xs l)"
  by (induction xs arbitrary: l) auto

lemma memRun_inv: "mem_inv l \<Longrightarrow> mem_inv (memRun xs l)"
  by (simp add: memRun_run mem.run_inv)

lemma statusIs_run:
  "mem_inv l \<Longrightarrow> statusIs st i l \<Longrightarrow> st = ReservationSettled \<or> st = ReservationRefunded \<Longrightarrow>
   statusIs st i (memRun xs l)"
  by (induction xs arbitrary: l) (auto intro: statusIs_stays mem.exec_inv)

lemma astep_finalize_reserved:
  assumes "astep (LFinalize i) L = Some L'" "map_of (al_res L) j = Some a"
    "ar_status a = ReservationReserved"
  shows "map_of (al_res L') j = Some a"
  using assms by (auto simp: ledger_step split: option.splits if_splits)

lemma astep_finalize_pays:
  assumes "astep (LFinalize i) L = Some L'" "map_of (al_res L) i = Some a"
  shows "al_bal L' u = al_bal L u + (if u = ar_user a then ar_amount a - ar_cost a else 0) \<and>
         ar_cost a \<le> ar_amount a"
  using assms by (auto simp: ledger_step split: if_splits)

lemma astep_refund_reserved:
  assumes "astep (LRefund i) L = Some L'" "map_of (al_res L) j = Some a"
    "ar_status a = ReservationReserved \<or> ar_status a = ReservationRefunded"
  shows "\<exists>b. map_of (al_res L') j = Some b \<and>
           (ar_status b = ReservationReserved \<or> ar_status b = ReservationRefunded)"
  using assms by (auto simp: ledger_step split: option.splits if_splits)

lemma MemFinalize_reserved:
  assumes "mem_inv l" "statusIs ReservationReserved j l"
  shows "statusIs ReservationReserved j (fst (MemFinalize l i))"
  using MemFinalize_ok [OF assms(1), of i] assms(2) astep_finalize_reserved
  unfolding mem_ok_def statusIs_abs by metis

lemma finalizeLoop_reserved:
  "mem_inv l \<Longrightarrow> statusIs ReservationReserved j l \<Longrightarrow>
   statusIs ReservationReserved j (fst (eachUntilError MemFinalize l is))"
proof (induction "is" arbitrary: l)
  case (Cons i js)
  have "statusIs ReservationReserved j (fst (MemFinalize l i))" "mem_inv (fst (MemFinalize l i))"
    using MemFinalize_reserved [OF Cons.prems] MemFinalize_ok [OF Cons.prems(1), of i]
    by (simp_all add: mem_ok_def)
  then show ?case using Cons.IH by (auto split: prod.splits option.splits)
qed simp

subsection \<open>Recovery does not fail\<close>

text \<open>The balances leave room for everything that is held back.\<close>

definition roomy :: "mem_ledger \<Rightarrow> bool" where
  "roomy l \<longleftrightarrow> mem_inv l \<and> solvent (mem_abs l) \<and> (\<forall>u. worth u (mem_abs l) \<le> max_int64)"

lemma roomy_exec: "roomy l \<Longrightarrow> roomy (fst (memExec now op l))"
  by (simp add: roomy_def mem.exec_inv mem.exec_solvent mem.exec_worth)

lemma roomy_credit:
  assumes "roomy l" "map_of (ml_records l) i = Some rec"
    and "lr_status rec \<noteq> ReservationSettled" "lr_status rec \<noteq> ReservationRefunded"
    and "0 \<le> d" "d \<le> r_Amount (lr_reservation rec)"
  shows "\<exists>s b. BillingAdjust (ml_store l) (r_UserID (lr_reservation rec)) d = (s, Inr b)"
proof -
  let ?u = "r_UserID (lr_reservation rec)" and ?L = "mem_abs l"
  have inv: "mem_inv l" using assms(1) by (simp add: roomy_def)
  have mem: "map_of (ml_records l) k = Some r" if "(k, r) \<in> set (ml_records l)" for k r
    using that inv by (simp add: mget_set mem_inv_def)
  have nonneg: "0 \<le> held ?u a" "0 \<le> charged ?u a" if "(k, a) \<in> set (al_res ?L)" for k a
    using that mem_inv_rec [OF inv] mem
    by (fastforce simp: mem_abs_def mem_ares_def held_def charged_def rec_ok_def)+
  have "held ?u (mem_ares rec) \<le> msum (held ?u) (al_res ?L)"
    using nonneg assms(2) by (intro msum_ge [where k = i]) auto
  moreover have "0 \<le> msum (charged ?u) (al_res ?L)" using nonneg by (intro msum_nonneg)
  moreover have "worth ?u ?L \<le> max_int64" "0 \<le> al_bal ?L ?u"
    using assms(1) by (auto simp: roomy_def solvent_def)
  moreover have "held ?u (mem_ares rec) = r_Amount (lr_reservation rec)"
    using assms(3,4) by (simp add: held_def mem_ares_def)
  ultimately have "in_i64 (mget0 (ms_balances (ml_store l)) ?u + d)" "in_i64 d"
    "in_i64 (mget0 (ms_balances (ml_store l)) ?u)"
    using assms(5,6) by (auto simp: worth_def go_int)
  then show ?thesis
    using mem_inv_rec [OF inv assms(2)] checkedBalanceAdd_ok
    by (auto simp: BillingAdjust_def rec_ok_def)
qed

definition costsWithin :: "mem_ledger \<Rightarrow> bool" where
  "costsWithin l \<longleftrightarrow> (\<forall>i rec. map_of (ml_records l) i = Some rec \<and>
     lr_status rec = ReservationConsumedUnsettled \<longrightarrow>
     0 \<le> c_Cost (lr_consumption rec) \<and> c_Cost (lr_consumption rec) \<le> r_Amount (lr_reservation rec))"

definition finalizable :: "string \<Rightarrow> mem_ledger \<Rightarrow> bool" where
  "finalizable i l \<longleftrightarrow> statusIs ReservationSettled i l \<or>
     (\<exists>rec. map_of (ml_records l) i = Some rec \<and> lr_status rec = ReservationConsumedUnsettled \<and>
        0 \<le> c_Cost (lr_consumption rec) \<and> c_Cost (lr_consumption rec) \<le> r_Amount (lr_reservation rec))"

lemma finalizable_abs:
  "finalizable i l \<longleftrightarrow> (\<exists>a. map_of (al_res (mem_abs l)) i = Some a \<and>
     (ar_status a = ReservationSettled \<or>
      ar_status a = ReservationConsumedUnsettled \<and> 0 \<le> ar_cost a \<and> ar_cost a \<le> ar_amount a))"
  by (auto simp: finalizable_def statusIs_def mem_ares_def)

lemma finalizable_exec:
  assumes "mem_inv l" "finalizable i l" shows "finalizable i (fst (memExec now op l))"
proof -
  obtain a where a: "map_of (al_res (mem_abs l)) i = Some a"
    "ar_status a = ReservationSettled \<or>
      ar_status a = ReservationConsumedUnsettled \<and> 0 \<le> ar_cost a \<and> ar_cost a \<le> ar_amount a"
    using assms(2) unfolding finalizable_abs by blast
  obtain b where "map_of (al_res (mem_abs (fst (memExec now op l)))) i = Some b" "evolves a b"
    using mem.exec_evolves [OF assms(1) a(1)] by blast
  then show ?thesis unfolding finalizable_abs using a(2)
    by (intro exI [of _ b]) (auto simp: evolves_def)
qed

lemma MemFinalize_succeeds:
  assumes "roomy l" "finalizable i l"
  shows "snd (MemFinalize l i) = None"
proof (cases "statusIs ReservationSettled i l")
  case True
  then show ?thesis by (auto simp: statusIs_def MemFinalize_def)
next
  case False
  then obtain rec where rec: "map_of (ml_records l) i = Some rec"
    "lr_status rec = ReservationConsumedUnsettled" "0 \<le> c_Cost (lr_consumption rec)"
    "c_Cost (lr_consumption rec) \<le> r_Amount (lr_reservation rec)"
    using assms(2) by (auto simp: finalizable_def)
  moreover have "rec_ok (ml_store l) i rec"
    using assms(1) rec(1) by (auto simp: roomy_def intro: mem_inv_rec)
  then have "i64 (r_Amount (lr_reservation rec) - c_Cost (lr_consumption rec))
      = r_Amount (lr_reservation rec) - c_Cost (lr_consumption rec)"
    using rec(3,4) by (intro i64_id) (simp add: go_int rec_ok_def)
  moreover obtain s b where "BillingAdjust (ml_store l) (r_UserID (lr_reservation rec))
      (r_Amount (lr_reservation rec) - c_Cost (lr_consumption rec)) = (s, Inr b)"
    using roomy_credit [OF assms(1) rec(1)] rec by fastforce
  ultimately show ?thesis by (simp add: MemFinalize_def)
qed

lemma MemRefund_succeeds:
  assumes "roomy l" "statusIs ReservationReserved i l \<or> statusIs ReservationRefunded i l"
  shows "snd (MemRefund l i) = None"
proof (cases "statusIs ReservationRefunded i l")
  case True
  then show ?thesis by (auto simp: statusIs_def MemRefund_def)
next
  case False
  then obtain rec where rec: "map_of (ml_records l) i = Some rec" "lr_status rec = ReservationReserved"
    using assms(2) by (auto simp: statusIs_def)
  moreover have "rec_ok (ml_store l) i rec"
    using assms(1) rec(1) by (auto simp: roomy_def intro: mem_inv_rec)
  moreover obtain s b where "BillingAdjust (ml_store l) (r_UserID (lr_reservation rec))
      (r_Amount (lr_reservation rec)) = (s, Inr b)"
    using roomy_credit [OF assms(1) rec(1)] rec calculation by (fastforce simp: rec_ok_def)
  ultimately show ?thesis by (simp add: MemRefund_def)
qed

lemma finalizeLoop_succeeds:
  "roomy l \<Longrightarrow> (\<And>i. i \<in> set is \<Longrightarrow> finalizable i l) \<Longrightarrow>
   snd (eachUntilError MemFinalize l is) = None \<and> roomy (fst (eachUntilError MemFinalize l is))"
proof (induction "is" arbitrary: l)
  case (Cons i js)
  obtain m where m: "MemFinalize l i = (m, None)"
    using MemFinalize_succeeds [of l i] Cons.prems by (metis list.set_intros(1) prod.collapse)
  have m': "m = fst (memExec 0 (LFinalize i) l)" by (simp add: m)
  have inv: "mem_inv l" using Cons.prems(1) by (simp add: roomy_def)
  have "roomy m" unfolding m' by (rule roomy_exec [OF Cons.prems(1)])
  moreover have "finalizable j m" if "j \<in> set js" for j
    unfolding m' using that Cons.prems(2) by (intro finalizable_exec [OF inv]) simp
  ultimately show ?case using Cons.IH m by simp
qed simp

lemma MemRefund_reserved:
  assumes "mem_inv l" "statusIs ReservationReserved j l \<or> statusIs ReservationRefunded j l"
  shows "statusIs ReservationReserved j (fst (MemRefund l i)) \<or> statusIs ReservationRefunded j (fst (MemRefund l i))"
  using MemRefund_ok [OF assms(1), of i] assms(2) astep_refund_reserved
  unfolding mem_ok_def statusIs_abs by metis

lemma refundLoop_succeeds:
  "roomy l \<Longrightarrow> (\<And>i. i \<in> set is \<Longrightarrow> statusIs ReservationReserved i l \<or> statusIs ReservationRefunded i l) \<Longrightarrow>
   snd (eachUntilError MemRefund l is) = None"
proof (induction "is" arbitrary: l)
  case (Cons i js)
  obtain m where m: "MemRefund l i = (m, None)"
    using MemRefund_succeeds [of l i] Cons.prems by (metis list.set_intros(1) prod.collapse)
  have "m = fst (memExec 0 (LRefund i) l)" by (simp add: m)
  then have "roomy m" using Cons.prems roomy_exec by blast
  moreover have "statusIs ReservationReserved j m \<or> statusIs ReservationRefunded j m" if "j \<in> set js" for j
    using MemRefund_reserved [of l j i] Cons.prems that m by (simp add: roomy_def)
  ultimately show ?case using Cons.IH m by simp
qed simp

section \<open>Properties\<close>

text \<open>C13. Money is conserved in the memory ledger: over any sequence of ledger operations, whatever
  they answer, each user's balance plus what their open reservations hold plus what their settled
  reservations were charged stays the same, and no balance that was non-negative is oversold.\<close>

theorem mem_conservation:
  assumes "mem_reach l"
  shows "worth u (mem_abs (memRun xs l)) = worth u (mem_abs l) \<and>
         (solvent (mem_abs l) \<longrightarrow> solvent (mem_abs (memRun xs l)))"
  using mem.run_worth [OF mem_reach_inv [OF assms]] mem.run_solvent [OF mem_reach_inv [OF assms]]
  by (simp add: memRun_run)

text \<open>A consumption that was recorded is final: whatever operations follow, the reservation stays
  consumed or settled at the recorded cost, so it is never refunded and never charged differently.\<close>

theorem mem_consumed_final:
  assumes "mem_reach l" "MemRecordConsumption l c = (l', None)"
  shows "\<exists>rec. map_of (ml_records (memRun xs l')) (c_ReservationID c) = Some rec \<and>
           c_Cost (lr_consumption rec) = c_Cost c \<and>
           (lr_status rec = ReservationConsumedUnsettled \<or> lr_status rec = ReservationSettled)"
  using mem.consumed_stays [OF mem_reach_inv [OF assms(1)], of 0 c xs] assms(2)
  by (auto simp: memRun_run mem_ares_def)

text \<open>A settlement pays exactly the difference between the reserved amount and the cost back to the
  owner and to nobody else, and it does so once: after any further operations a replay of the
  settlement succeeds without changing anything, and a refund is rejected.\<close>

theorem MemFinalize_exactly_once:
  assumes "mem_reach l" "map_of (ml_records l) i = Some rec"
    and "lr_status rec = ReservationConsumedUnsettled" "MemFinalize l i = (l', None)"
  shows "(\<forall>u. Balance (ml_store l') u = Balance (ml_store l) u +
            (if u = r_UserID (lr_reservation rec)
             then r_Amount (lr_reservation rec) - c_Cost (lr_consumption rec) else 0)) \<and>
         0 \<le> r_Amount (lr_reservation rec) - c_Cost (lr_consumption rec) \<and>
         MemFinalize (memRun xs l') i = (memRun xs l', None) \<and>
         MemRefund (memRun xs l') i = (memRun xs l', Some ErrInvalidTransition)"
proof -
  have inv: "mem_inv l" by (rule mem_reach_inv [OF assms(1)])
  have ok: "mem_ok (LFinalize i) l l' True" using MemFinalize_ok [OF inv, of i] assms(4) by simp
  have "statusIs ReservationSettled i l'" "mem_inv l'"
    using MemFinalize_settles [OF inv assms(4)] by auto
  then have settled: "statusIs ReservationSettled i (memRun xs l')" by (intro statusIs_run) auto
  have "mem_abs l' \<noteq> mem_abs l"
  proof
    assume "mem_abs l' = mem_abs l"
    then have "map_option mem_ares (map_of (ml_records l') i) = map_option mem_ares (map_of (ml_records l) i)"
      by (metis mem_abs_simps(2))
    then show False using assms(2,3) \<open>statusIs ReservationSettled i l'\<close>
      by (auto simp: statusIs_def mem_ares_def)
  qed
  then have "astep (LFinalize i) (mem_abs l) = Some (mem_abs l')"
    using ok by (simp add: mem_ok_def)
  then show ?thesis using settled astep_finalize_pays [of i "mem_abs l" "mem_abs l'" "mem_ares rec"] assms(2)
    by (auto simp: mem_ares_def Balance_def MemFinalize_def MemRefund_def statusIs_def)
qed

text \<open>Recovery finishes the job: if the balances leave room in 64 bits and the recorded costs are
  within their reservations, \<open>Recover\<close> settles every consumed reservation and refunds every stale
  reserved one, whatever the order of the map, keeps every user's money, and reports exactly the
  presence of an attempt whose outcome is still unknown.\<close>

theorem MemRecover_total:
  assumes "mem_reach l" "solvent (mem_abs l)" "\<And>u. worth u (mem_abs l) \<le> max_int64"
    and "costsWithin l"
  shows "\<exists>l'. MemRecover now order l =
            (l', if list_ex (isAmbiguous now l) order then Some ErrAmbiguousReservations else None) \<and>
          (\<forall>i \<in> set order. isConsumed l i \<longrightarrow> statusIs ReservationSettled i l') \<and>
          (\<forall>i \<in> set order. isStaleReserved now l i \<longrightarrow> statusIs ReservationRefunded i l') \<and>
          (\<forall>u. worth u (mem_abs l') = worth u (mem_abs l))"
proof -
  have inv: "mem_inv l" by (rule mem_reach_inv [OF assms(1)])
  have roomy: "roomy l" using inv assms(2,3) by (simp add: roomy_def)
  let ?ids = "filter (isConsumed l) order" and ?stale = "filter (isStaleReserved now l) order"
  have "finalizable i l" if "i \<in> set ?ids" for i
    using that assms(4) by (auto simp: costsWithin_def isConsumed_def finalizable_def split: option.splits)
  from finalizeLoop_succeeds [OF roomy this] obtain l1 where
    l1: "eachUntilError MemFinalize l ?ids = (l1, None)" "roomy l1"
    by (metis prod.collapse)
  have reserved: "statusIs ReservationReserved i l1" if "i \<in> set ?stale" for i
    using finalizeLoop_reserved [OF inv, of i ?ids] that l1(1)
    by (auto simp: isStaleReserved_def statusIs_def split: option.splits)
  then obtain l2 where l2: "eachUntilError MemRefund l1 ?stale = (l2, None)"
    using refundLoop_succeeds [OF l1(2), of ?stale] by (metis prod.collapse)
  obtain xs ys where runs: "l1 = memRun xs l" "l2 = memRun ys l1"
    using finalizeLoop_run [of l ?ids] refundLoop_run [of l1 ?stale] l1(1) l2 by auto
  have inv1: "mem_inv l1" using l1(2) by (simp add: roomy_def)
  have "statusIs ReservationSettled i l2" if "i \<in> set ?ids" for i
    using finalizeLoop_done(2) [OF inv l1(1)] that statusIs_run [OF inv1] runs(2) by blast
  moreover have "statusIs ReservationRefunded i l2" if "i \<in> set ?stale" for i
    using refundLoop_done(2) [OF inv1 l2] that by blast
  moreover have "worth u (mem_abs l2) = worth u (mem_abs l)" for u
    using mem.run_worth [OF inv] mem.run_worth [OF inv1] by (simp add: runs memRun_run)
  ultimately show ?thesis by (auto simp: MemRecover_def Let_def l1(1) l2)
qed

section \<open>Witnesses\<close>

definition exampleReservation :: reservation where
  "exampleReservation = \<lparr>r_ID = ''res_1'', r_TraceID = ''t'', r_UserID = ''ann'', r_KeyID = ''k1'',
     r_Model = ''gpt'', r_Amount = 40, r_MaxInputTokens = 10, r_MaxOutputTokens = 10, r_CreatedAt = 1\<rparr>"

definition exampleConsumption :: consumption where
  "exampleConsumption = zeroConsumption\<lparr>c_ReservationID := ''res_1'', c_Channel := ''ch'', c_Cost := 25\<rparr>"

definition exampleFlight :: mem_ledger where
  "exampleFlight = memRun [(2, LReserve exampleReservation), (3, LMarkInFlight ''res_1'' ''ch'')]
     (NewMemoryLedger exampleStore)"

definition exampleConsumed :: mem_ledger where
  "exampleConsumed = fst (MemRecordConsumption exampleFlight exampleConsumption)"

lemma exampleFlight_eq:
  "exampleFlight = \<lparr>ml_store = exampleStore\<lparr>ms_balances := [(''ann'', 60), (''bob'', 7)]\<rparr>,
     ml_records = [(''res_1'', \<lparr>lr_reservation = exampleReservation, lr_status = ReservationInFlight,
        lr_attemptChannel = ''ch'', lr_attemptedAt = 3, lr_consumption = zeroConsumption\<rparr>)]\<rparr>"
  by (simp add: exampleFlight_def NewMemoryLedger_def MemReserve_def MemMarkInFlight_def putRec_def
      BillingReserve_def exampleStore_eq exampleReservation_def mget0_def i64_def errBool_def Let_def)

lemma exampleConsumed_eq:
  "exampleConsumed = \<lparr>ml_store = exampleStore\<lparr>ms_balances := [(''ann'', 60), (''bob'', 7)]\<rparr>,
     ml_records = [(''res_1'', \<lparr>lr_reservation = exampleReservation, lr_status = ReservationConsumedUnsettled,
        lr_attemptChannel = ''ch'', lr_attemptedAt = 3, lr_consumption = exampleConsumption\<rparr>)]\<rparr>"
  by (simp add: exampleConsumed_def exampleFlight_eq MemRecordConsumption_def putRec_def
      exampleConsumption_def)

lemma exampleFlight_reach: "mem_reach exampleFlight"
proof -
  have "mem_reach (NewMemoryLedger exampleStore)"
    by (rule mem_reach.new [OF exampleStore_reach])
  from mem_reach.exec [OF mem_reach.exec [OF this]] show ?thesis
    by (simp add: exampleFlight_def del: memExec.simps)
qed

lemma exampleConsumed_reach: "mem_reach exampleConsumed"
  using mem_reach.exec [OF exampleFlight_reach, of 0 "LRecordConsumption exampleConsumption"]
  by (simp add: exampleConsumed_def)

theorem mem_conservation_witness:
  "worth ''ann'' (mem_abs (memRun [(9, LFinalize ''res_1'')] exampleConsumed)) = 100"
  using mem_conservation [OF exampleConsumed_reach, of "''ann''" "[(9, LFinalize ''res_1'')]"]
  by (simp add: exampleConsumed_eq worth_def mem_abs_def held_def charged_def mem_ares_def
      exampleReservation_def mget0_def del: memRun.simps)

theorem mem_consumed_final_witness:
  "\<exists>rec. map_of (ml_records (memRun [(9, LRefund ''res_1'')] exampleConsumed)) ''res_1'' = Some rec \<and>
         c_Cost (lr_consumption rec) = 25"
proof -
  have "MemRecordConsumption exampleFlight exampleConsumption = (exampleConsumed, None)"
    by (simp add: exampleConsumed_def exampleFlight_eq MemRecordConsumption_def exampleConsumption_def)
  from mem_consumed_final [OF exampleFlight_reach this, of "[(9, LRefund ''res_1'')]"] show ?thesis
    by (auto simp: exampleConsumption_def)
qed

theorem MemFinalize_exactly_once_witness:
  "Balance (ml_store (fst (MemFinalize exampleConsumed ''res_1''))) ''ann'' = 75"
proof -
  have "snd (MemFinalize exampleConsumed ''res_1'') = None"
    by (simp add: MemFinalize_def exampleConsumed_eq exampleConsumption_def exampleReservation_def
        BillingAdjust_def mhas_def exampleStore_eq mget0_def checkedBalanceAdd_def i64_def go_int)
  then have "MemFinalize exampleConsumed ''res_1'' = (fst (MemFinalize exampleConsumed ''res_1''), None)"
    by (metis prod.collapse)
  from MemFinalize_exactly_once [OF exampleConsumed_reach _ _ this] show ?thesis
    by (simp add: exampleConsumed_eq Balance_def mget0_def exampleConsumption_def exampleReservation_def)
qed

theorem MemRecover_total_witness:
  "\<exists>l'. MemRecover 9 [''res_1''] exampleConsumed = (l', None) \<and> statusIs ReservationSettled ''res_1'' l'"
proof -
  have solv: "solvent (mem_abs exampleConsumed)"
    by (simp add: solvent_def exampleConsumed_eq mget0_def)
  have room: "worth u (mem_abs exampleConsumed) \<le> max_int64" for u
    by (simp add: exampleConsumed_eq worth_def mem_abs_def held_def charged_def mem_ares_def
      exampleReservation_def mget0_def go_int)
  have cost: "costsWithin exampleConsumed"
    by (auto simp: costsWithin_def exampleConsumed_eq exampleConsumption_def exampleReservation_def
        split: if_splits)
  have "\<not> list_ex (isAmbiguous 9 exampleConsumed) [''res_1'']" "isConsumed exampleConsumed ''res_1''"
    by (simp_all add: isAmbiguous_def isConsumed_def exampleConsumed_eq)
  then show ?thesis
    using MemRecover_total [OF exampleConsumed_reach solv room cost, where now = 9 and order = "[''res_1'']"]
    by auto
qed

end
