(* ===== verification/PgLedger.thy ===== *)
theory PgLedger
  imports MemLedger
begin

text \<open>
  The production ledger of \<open>internal/billing/postgres_ledger.go\<close> with the statements it issues, from
  \<open>internal/db/billing.sql.go\<close>, over the tables and constraints of \<open>internal/db/schema.sql\<close>.

  The database is a record of tables. A statement is a function from the database to an error or a
  result and the new database; it applies the table's constraints. A transaction runs on the
  database and either ends without commit, which rolls every change back, or asks for a commit. The
  environment of one call says which statements fail (connection, cancelled context), what the
  commit does (it may be lost, or be applied although an error is reported), and the two clocks. The
  row locks that the statements take make the transactions serial, which is how they are modelled.
\<close>

section \<open>Tables\<close>

record pg_user =
  pu_Balance :: int
  pu_BalanceVersion :: int
  pu_Enabled :: bool
  pu_UpdatedAt :: gotime

record pg_res =
  br_ReservationID :: string
  br_TraceID :: string
  br_UserID :: string
  br_KeyID :: string
  br_Model :: string
  br_Amount :: int
  br_MaxInputTokens :: int
  br_MaxOutputTokens :: int
  br_Status :: reservation_status
  br_Channel :: string
  br_InputTokens :: int
  br_OutputTokens :: int
  br_CacheCreationInputTokens :: int
  br_CacheReadInputTokens :: int
  br_ReportedTotalTokens :: int
  br_Cost :: int
  br_UsageComplete :: bool
  br_Estimated :: bool
  br_CreatedAt :: gotime
  br_ConsumedAt :: "gotime option"
  br_SettledAt :: "gotime option"
  br_RefundedAt :: "gotime option"
  br_UpdatedAt :: gotime

record pg_entry =
  le_OperationID :: string
  le_ReservationID :: string
  le_UserID :: string
  le_Kind :: string
  le_Amount :: int
  le_BalanceAfter :: int
  le_BalanceVersion :: int
  le_CreatedAt :: gotime

record pg_usage =
  ul_RequestID :: string
  ul_UserID :: string
  ul_KeyID :: string
  ul_Model :: string
  ul_Channel :: string
  ul_InputTokens :: int
  ul_OutputTokens :: int
  ul_CacheCreationInputTokens :: int
  ul_CacheReadInputTokens :: int
  ul_ReportedTotalTokens :: int
  ul_Cost :: int
  ul_UsageComplete :: bool
  ul_Estimated :: bool
  ul_CreatedAt :: gotime

record pg_db =
  db_users :: "(string, pg_user) gomap"
  db_reservations :: "(string, pg_res) gomap"
  db_ledger :: "pg_entry list"
  db_usage :: "pg_usage list"

section \<open>Transactions\<close>

datatype pg_stmt =
    SBegin | SInsertReservation | SGetReservation | SDebit | SAdjust | SInsertLedger | SInsertUsage
  | SMarkInFlight | SRelease | SRecord | SMarkSettled | SMarkRefunded
  | SListConsumed | SListStaleReserved | SListStaleInFlight

datatype commit_outcome = CommitOk | CommitLost | CommitUnknown

record pg_env =
  e_fail :: "pg_stmt \<Rightarrow> bool"
  e_commit :: commit_outcome
  e_now :: gotime
  e_dbnow :: gotime

text \<open>How a transaction function ends: \<open>return\<close> before the commit, or \<open>tx.Commit\<close> with the value that
  is returned if it succeeds.\<close>

datatype 'a tx_end = TxReturn "'a result" | TxCommit 'a pg_db

type_synonym 'a query = "pg_db \<Rightarrow> goerr + ('a \<times> pg_db)"

definition txDo :: "goerr + ('a \<times> pg_db) \<Rightarrow> ('a \<Rightarrow> pg_db \<Rightarrow> 'b tx_end) \<Rightarrow> 'b tx_end" where
  "txDo q k = (case q of Inl err \<Rightarrow> TxReturn (Inl err) | Inr (x, d) \<Rightarrow> k x d)"

definition runTx :: "pg_env \<Rightarrow> (pg_db \<Rightarrow> 'a tx_end) \<Rightarrow> pg_db \<Rightarrow> pg_db \<times> 'a result" where
  "runTx e body d =
     (if e_fail e SBegin then (d, Inl (ErrPg ''begin''))
      else (case body d of
              TxReturn r \<Rightarrow> (d, r)
            | TxCommit x d' \<Rightarrow>
                (case e_commit e of
                   CommitOk \<Rightarrow> (d', Inr x)
                 | CommitLost \<Rightarrow> (d, Inl (ErrPg ''commit''))
                 | CommitUnknown \<Rightarrow> (d', Inl (ErrPg ''commit'')))))"

definition stmt :: "pg_env \<Rightarrow> pg_stmt \<Rightarrow> 'a query \<Rightarrow> 'a query" where
  "stmt e st q d = (if e_fail e st then Inl (ErrPg ''statement'') else q d)"

section \<open>Statements\<close>

text \<open>A query that returns a row answers \<open>None\<close> for \<open>pgx.ErrNoRows\<close>; an update answers the number of rows.\<close>

record insert_reservation_params =
  ir_ReservationID :: string
  ir_TraceID :: string
  ir_UserID :: string
  ir_KeyID :: string
  ir_Model :: string
  ir_Amount :: int
  ir_MaxInputTokens :: int
  ir_MaxOutputTokens :: int
  ir_CreatedAt :: gotime

definition newRow :: "insert_reservation_params \<Rightarrow> pg_res" where
  "newRow p = \<lparr>br_ReservationID = ir_ReservationID p, br_TraceID = ir_TraceID p, br_UserID = ir_UserID p,
     br_KeyID = ir_KeyID p, br_Model = ir_Model p, br_Amount = ir_Amount p,
     br_MaxInputTokens = ir_MaxInputTokens p, br_MaxOutputTokens = ir_MaxOutputTokens p,
     br_Status = ReservationReserved, br_Channel = [], br_InputTokens = 0, br_OutputTokens = 0,
     br_CacheCreationInputTokens = 0, br_CacheReadInputTokens = 0, br_ReportedTotalTokens = 0, br_Cost = 0,
     br_UsageComplete = False, br_Estimated = False, br_CreatedAt = ir_CreatedAt p, br_ConsumedAt = None,
     br_SettledAt = None, br_RefundedAt = None, br_UpdatedAt = ir_CreatedAt p\<rparr>"

definition InsertBillingReservation :: "pg_env \<Rightarrow> insert_reservation_params \<Rightarrow> pg_res option query" where
  "InsertBillingReservation e p = stmt e SInsertReservation (\<lambda>d.
     if \<not> (0 < ir_Amount p \<and> 0 \<le> ir_MaxInputTokens p \<and> 0 < ir_MaxOutputTokens p)
     then Inl (ErrPg ''check_violation'')
     else if mhas (db_reservations d) (ir_ReservationID p) then Inr (None, d)
     else if \<not> mhas (db_users d) (ir_UserID p) then Inl (ErrPg ''foreign_key_violation'')
     else Inr (Some (newRow p),
               d\<lparr>db_reservations := mput (ir_ReservationID p) (newRow p) (db_reservations d)\<rparr>))"

definition GetBillingReservationForUpdate :: "pg_env \<Rightarrow> string \<Rightarrow> pg_res option query" where
  "GetBillingReservationForUpdate e reservationID = stmt e SGetReservation (\<lambda>d.
     Inr (map_of (db_reservations d) reservationID, d))"

definition DebitBalanceForReservation :: "pg_env \<Rightarrow> string \<Rightarrow> int \<Rightarrow> (int \<times> int) option query" where
  "DebitBalanceForReservation e externalID amount = stmt e SDebit (\<lambda>d.
     case map_of (db_users d) externalID of
       None \<Rightarrow> Inr (None, d)
     | Some u \<Rightarrow>
         if pu_Enabled u \<and> amount > 0 \<and> pu_Balance u \<ge> amount
         then (if \<not> in_i64 (pu_Balance u - amount) \<or> \<not> in_i64 (pu_BalanceVersion u + 1)
               then Inl (ErrPg ''numeric_value_out_of_range'')
               else Inr (Some (pu_Balance u - amount, pu_BalanceVersion u + 1),
                  d\<lparr>db_users := mput externalID (u\<lparr>pu_Balance := pu_Balance u - amount,
                      pu_BalanceVersion := pu_BalanceVersion u + 1, pu_UpdatedAt := e_dbnow e\<rparr>)
                    (db_users d)\<rparr>))
         else Inr (None, d))"

definition AdjustBalanceForBilling :: "pg_env \<Rightarrow> string \<Rightarrow> int \<Rightarrow> (int \<times> int) option query" where
  "AdjustBalanceForBilling e externalID delta = stmt e SAdjust (\<lambda>d.
     case map_of (db_users d) externalID of
       None \<Rightarrow> Inr (None, d)
     | Some u \<Rightarrow>
         (if \<not> in_i64 (pu_Balance u + delta) \<or> \<not> in_i64 (pu_BalanceVersion u + 1)
          then Inl (ErrPg ''numeric_value_out_of_range'')
          else Inr (Some (pu_Balance u + delta, pu_BalanceVersion u + 1),
             d\<lparr>db_users := mput externalID (u\<lparr>pu_Balance := pu_Balance u + delta,
                 pu_BalanceVersion := pu_BalanceVersion u + 1, pu_UpdatedAt := e_dbnow e\<rparr>)
               (db_users d)\<rparr>)))"

text \<open>\<open>UPDATE billing_reservations SET ... WHERE reservation_id = i AND status = st\<close>, with the check
  constraint on the cost.\<close>

definition updateRow :: "string \<Rightarrow> reservation_status \<Rightarrow> (pg_res \<Rightarrow> pg_res) \<Rightarrow> int query" where
  "updateRow i st f d =
     (case map_of (db_reservations d) i of
        None \<Rightarrow> Inr (0, d)
      | Some r \<Rightarrow>
          if br_Status r \<noteq> st then Inr (0, d)
          else if \<not> (0 \<le> br_Cost (f r) \<and> br_Cost (f r) \<le> br_Amount (f r)) then Inl (ErrPg ''check_violation'')
          else Inr (1, d\<lparr>db_reservations := mput i (f r) (db_reservations d)\<rparr>))"

record record_consumption_params =
  rc_ReservationID :: string
  rc_Channel :: string
  rc_InputTokens :: int
  rc_OutputTokens :: int
  rc_CacheCreationInputTokens :: int
  rc_CacheReadInputTokens :: int
  rc_ReportedTotalTokens :: int
  rc_Cost :: int
  rc_UsageComplete :: bool
  rc_Estimated :: bool
  rc_RecordedAt :: gotime

definition consumedRow :: "record_consumption_params \<Rightarrow> pg_res \<Rightarrow> pg_res" where
  "consumedRow p r = r\<lparr>br_Status := ReservationConsumedUnsettled, br_Channel := rc_Channel p,
     br_InputTokens := rc_InputTokens p, br_OutputTokens := rc_OutputTokens p,
     br_CacheCreationInputTokens := rc_CacheCreationInputTokens p,
     br_CacheReadInputTokens := rc_CacheReadInputTokens p,
     br_ReportedTotalTokens := rc_ReportedTotalTokens p, br_Cost := rc_Cost p,
     br_UsageComplete := rc_UsageComplete p, br_Estimated := rc_Estimated p,
     br_ConsumedAt := Some (rc_RecordedAt p), br_UpdatedAt := rc_RecordedAt p\<rparr>"

definition RecordBillingConsumption :: "pg_env \<Rightarrow> record_consumption_params \<Rightarrow> int query" where
  "RecordBillingConsumption e p = stmt e SRecord
     (updateRow (rc_ReservationID p) ReservationInFlight (consumedRow p))"

definition MarkBillingReservationInFlight :: "pg_env \<Rightarrow> string \<Rightarrow> string \<Rightarrow> gotime \<Rightarrow> int query" where
  "MarkBillingReservationInFlight e i channel t = stmt e SMarkInFlight
     (updateRow i ReservationReserved
        (\<lambda>r. r\<lparr>br_Status := ReservationInFlight, br_Channel := channel, br_UpdatedAt := t\<rparr>))"

definition ReleaseBillingAttempt :: "pg_env \<Rightarrow> string \<Rightarrow> gotime \<Rightarrow> int query" where
  "ReleaseBillingAttempt e i t = stmt e SRelease
     (updateRow i ReservationInFlight (\<lambda>r. r\<lparr>br_Status := ReservationReserved, br_UpdatedAt := t\<rparr>))"

definition MarkBillingReservationSettled :: "pg_env \<Rightarrow> string \<Rightarrow> gotime \<Rightarrow> int query" where
  "MarkBillingReservationSettled e i t = stmt e SMarkSettled
     (updateRow i ReservationConsumedUnsettled
        (\<lambda>r. r\<lparr>br_Status := ReservationSettled, br_SettledAt := Some t, br_UpdatedAt := t\<rparr>))"

definition MarkBillingReservationRefunded :: "pg_env \<Rightarrow> string \<Rightarrow> gotime \<Rightarrow> int query" where
  "MarkBillingReservationRefunded e i t = stmt e SMarkRefunded
     (updateRow i ReservationReserved
        (\<lambda>r. r\<lparr>br_Status := ReservationRefunded, br_RefundedAt := Some t, br_UpdatedAt := t\<rparr>))"

text \<open>The only-append ledger: \<open>operation_id\<close> and \<open>(reservation_id, kind)\<close> are unique, reservation and
  user must exist, and the kind is one of three.\<close>

definition ledgerKindReserve :: string where "ledgerKindReserve = ''reserve''"
definition ledgerKindSettle :: string where "ledgerKindSettle = ''settle''"
definition ledgerKindRefund :: string where "ledgerKindRefund = ''refund''"

definition entryClash :: "pg_entry \<Rightarrow> pg_entry \<Rightarrow> bool" where
  "entryClash a b \<longleftrightarrow> le_OperationID a = le_OperationID b \<or>
     (le_ReservationID a = le_ReservationID b \<and> le_Kind a = le_Kind b)"

definition InsertBillingLedgerEntry :: "pg_env \<Rightarrow> pg_entry \<Rightarrow> unit query" where
  "InsertBillingLedgerEntry e x = stmt e SInsertLedger (\<lambda>d.
     if le_Kind x \<notin> {ledgerKindReserve, ledgerKindSettle, ledgerKindRefund}
     then Inl (ErrPg ''check_violation'')
     else if list_ex (entryClash x) (db_ledger d) then Inl (ErrPg ''unique_violation'')
     else if \<not> mhas (db_reservations d) (le_ReservationID x) \<or> \<not> mhas (db_users d) (le_UserID x)
     then Inl (ErrPg ''foreign_key_violation'')
     else Inr ((), d\<lparr>db_ledger := db_ledger d @ [x]\<rparr>))"

definition InsertFinalizedUsageLog :: "pg_env \<Rightarrow> pg_usage \<Rightarrow> unit query" where
  "InsertFinalizedUsageLog e x = stmt e SInsertUsage (\<lambda>d.
     if list_ex (\<lambda>y. ul_RequestID y = ul_RequestID x) (db_usage d) then Inl (ErrPg ''unique_violation'')
     else Inr ((), d\<lparr>db_usage := db_usage d @ [x]\<rparr>))"

text \<open>The recovery queries: rows in a status, older than a cutoff, in the order of the SQL (nulls
  last, ties by id).\<close>

definition nullsLast :: "gotime option \<Rightarrow> int \<times> gotime" where
  "nullsLast t = (case t of None \<Rightarrow> (1, 0) | Some x \<Rightarrow> (0, x))"

definition ListConsumedUnsettledReservations :: "pg_env \<Rightarrow> string list query" where
  "ListConsumedUnsettledReservations e = stmt e SListConsumed (\<lambda>d.
     Inr (map br_ReservationID (sort_key (\<lambda>r. (nullsLast (br_ConsumedAt r), br_ReservationID r))
       (filter (\<lambda>r. br_Status r = ReservationConsumedUnsettled) (map snd (db_reservations d)))), d))"

definition ListStaleReservedReservations :: "pg_env \<Rightarrow> gotime \<Rightarrow> string list query" where
  "ListStaleReservedReservations e cutoff = stmt e SListStaleReserved (\<lambda>d.
     Inr (map br_ReservationID (sort_key (\<lambda>r. (br_UpdatedAt r, br_ReservationID r))
       (filter (\<lambda>r. br_Status r = ReservationReserved \<and> br_UpdatedAt r < cutoff)
         (map snd (db_reservations d)))), d))"

definition ListStaleInFlightReservations :: "pg_env \<Rightarrow> gotime \<Rightarrow> string list query" where
  "ListStaleInFlightReservations e cutoff = stmt e SListStaleInFlight (\<lambda>d.
     Inr (map br_ReservationID (sort_key (\<lambda>r. (br_UpdatedAt r, br_ReservationID r))
       (filter (\<lambda>r. br_Status r = ReservationInFlight \<and> br_UpdatedAt r < cutoff)
         (map snd (db_reservations d)))), d))"

section \<open>The ledger\<close>

definition normalizedTime :: "pg_env \<Rightarrow> gotime \<Rightarrow> gotime" where
  "normalizedTime e t = (if is_zero_time t then e_now e else t)"

definition reservationTokenLimits :: "reservation \<Rightarrow> (int \<times> int) result" where
  "reservationTokenLimits r =
     (if r_MaxInputTokens r < 0 \<or> r_MaxInputTokens r > max_int32 \<or>
         r_MaxOutputTokens r \<le> 0 \<or> r_MaxOutputTokens r > max_int32
      then Inl ErrReservationConflict
      else Inr (i32 (r_MaxInputTokens r), i32 (r_MaxOutputTokens r)))"

definition consumptionParams :: "pg_env \<Rightarrow> consumption \<Rightarrow> record_consumption_params result" where
  "consumptionParams e c =
     (if c_ReservationID c = [] \<or> c_Cost c < 0 then Inl ErrReservationConflict
      else if list_ex (\<lambda>v. v < min_int32 \<or> v > max_int32)
             [c_InputTokens c, c_OutputTokens c, c_CacheCreationInputTokens c,
              c_CacheReadInputTokens c, c_ReportedTotalTokens c]
      then Inl ErrReservationConflict
      else Inr \<lparr>rc_ReservationID = c_ReservationID c, rc_Channel = c_Channel c,
             rc_InputTokens = i32 (c_InputTokens c), rc_OutputTokens = i32 (c_OutputTokens c),
             rc_CacheCreationInputTokens = i32 (c_CacheCreationInputTokens c),
             rc_CacheReadInputTokens = i32 (c_CacheReadInputTokens c),
             rc_ReportedTotalTokens = i32 (c_ReportedTotalTokens c), rc_Cost = c_Cost c,
             rc_UsageComplete = c_UsageComplete c, rc_Estimated = c_Estimated c,
             rc_RecordedAt = normalizedTime e (c_RecordedAt c)\<rparr>)"

definition samePostgresReservation :: "pg_res \<Rightarrow> reservation \<Rightarrow> bool" where
  "samePostgresReservation old r \<longleftrightarrow>
     br_ReservationID old = r_ID r \<and> br_TraceID old = r_TraceID r \<and> br_UserID old = r_UserID r \<and>
     br_KeyID old = r_KeyID r \<and> br_Model old = r_Model r \<and> br_Amount old = r_Amount r \<and>
     br_MaxInputTokens old = r_MaxInputTokens r \<and> br_MaxOutputTokens old = r_MaxOutputTokens r"

definition samePostgresConsumption :: "pg_res \<Rightarrow> consumption \<Rightarrow> bool" where
  "samePostgresConsumption old c \<longleftrightarrow>
     br_ReservationID old = c_ReservationID c \<and> br_Channel old = c_Channel c \<and>
     br_InputTokens old = c_InputTokens c \<and> br_OutputTokens old = c_OutputTokens c \<and>
     br_CacheCreationInputTokens old = c_CacheCreationInputTokens c \<and>
     br_CacheReadInputTokens old = c_CacheReadInputTokens c \<and>
     br_ReportedTotalTokens old = c_ReportedTotalTokens c \<and> br_Cost old = c_Cost c \<and>
     br_UsageComplete old = c_UsageComplete c \<and> br_Estimated old = c_Estimated c"

definition operationID :: "string \<Rightarrow> string \<Rightarrow> string" where
  "operationID reservationID kind = reservationID @ '':'' @ kind"

definition ledgerEntry :: "pg_res \<Rightarrow> string \<Rightarrow> int \<Rightarrow> int \<times> int \<Rightarrow> gotime \<Rightarrow> pg_entry" where
  "ledgerEntry r kind amount balance now =
     \<lparr>le_OperationID = operationID (br_ReservationID r) kind, le_ReservationID = br_ReservationID r,
      le_UserID = br_UserID r, le_Kind = kind, le_Amount = amount, le_BalanceAfter = fst balance,
      le_BalanceVersion = snd balance, le_CreatedAt = now\<rparr>"

definition reserveBody :: "pg_env \<Rightarrow> reservation \<Rightarrow> int \<Rightarrow> int \<Rightarrow> pg_db \<Rightarrow> bool tx_end" where
  "reserveBody e r maxInput maxOutput d0 =
     (let createdAt = normalizedTime e (r_CreatedAt r) in
      txDo (InsertBillingReservation e
              \<lparr>ir_ReservationID = r_ID r, ir_TraceID = r_TraceID r, ir_UserID = r_UserID r,
               ir_KeyID = r_KeyID r, ir_Model = r_Model r, ir_Amount = r_Amount r,
               ir_MaxInputTokens = maxInput, ir_MaxOutputTokens = maxOutput,
               ir_CreatedAt = createdAt\<rparr> d0) (\<lambda>row d1.
      case row of
        None \<Rightarrow>
          txDo (GetBillingReservationForUpdate e (r_ID r) d1) (\<lambda>got d2.
          case got of
            None \<Rightarrow> TxReturn (Inl ErrNoRows)
          | Some old \<Rightarrow>
              if \<not> samePostgresReservation old r then TxReturn (Inl ErrReservationConflict)
              else if br_Status old \<noteq> ReservationReserved then TxReturn (Inl ErrInvalidTransition)
              else TxCommit True d2)
      | Some new \<Rightarrow>
          txDo (DebitBalanceForReservation e (r_UserID r) (r_Amount r) d1) (\<lambda>debit d2.
          case debit of
            None \<Rightarrow> TxReturn (Inr False)
          | Some balance \<Rightarrow>
              txDo (InsertBillingLedgerEntry e
                \<lparr>le_OperationID = operationID (r_ID r) ledgerKindReserve, le_ReservationID = r_ID r,
                 le_UserID = r_UserID r, le_Kind = ledgerKindReserve, le_Amount = - r_Amount r,
                 le_BalanceAfter = fst balance, le_BalanceVersion = snd balance,
                 le_CreatedAt = createdAt\<rparr> d2) (\<lambda>_ d3.
              TxCommit True d3))))"

definition PgReserve :: "pg_env \<Rightarrow> reservation \<Rightarrow> pg_db \<Rightarrow> pg_db \<times> bool result" where
  "PgReserve e r d =
     (case reservationTokenLimits r of
        Inl err \<Rightarrow> (d, Inl err)
      | Inr (maxInput, maxOutput) \<Rightarrow>
          if r_ID r = [] \<or> r_UserID r = [] \<or> r_Amount r \<le> 0 then (d, Inl ErrReservationConflict)
          else runTx e (reserveBody e r maxInput maxOutput) d)"

definition PgMarkInFlight :: "pg_env \<Rightarrow> string \<Rightarrow> string \<Rightarrow> pg_db \<Rightarrow> pg_db \<times> unit result" where
  "PgMarkInFlight e reservationID channel = runTx e (\<lambda>d.
     txDo (GetBillingReservationForUpdate e reservationID d) (\<lambda>row d.
     case row of
       None \<Rightarrow> TxReturn (Inl ErrNoRows)
     | Some r \<Rightarrow>
         if br_Status r = ReservationInFlight
         then (if br_Channel r \<noteq> channel then TxReturn (Inl ErrReservationConflict) else TxCommit () d)
         else if br_Status r \<noteq> ReservationReserved then TxReturn (Inl ErrInvalidTransition)
         else txDo (MarkBillingReservationInFlight e reservationID channel (e_now e) d) (\<lambda>n d.
              if n \<noteq> 1 then TxReturn (Inl ErrInvalidTransition) else TxCommit () d)))"

definition PgReleaseAttempt :: "pg_env \<Rightarrow> string \<Rightarrow> pg_db \<Rightarrow> pg_db \<times> unit result" where
  "PgReleaseAttempt e reservationID = runTx e (\<lambda>d.
     txDo (GetBillingReservationForUpdate e reservationID d) (\<lambda>row d.
     case row of
       None \<Rightarrow> TxReturn (Inl ErrNoRows)
     | Some r \<Rightarrow>
         if br_Status r = ReservationReserved then TxCommit () d
         else if br_Status r \<noteq> ReservationInFlight then TxReturn (Inl ErrInvalidTransition)
         else txDo (ReleaseBillingAttempt e reservationID (e_now e) d) (\<lambda>n d.
              if n \<noteq> 1 then TxReturn (Inl ErrInvalidTransition) else TxCommit () d)))"

definition PgRecordConsumption :: "pg_env \<Rightarrow> consumption \<Rightarrow> pg_db \<Rightarrow> pg_db \<times> unit result" where
  "PgRecordConsumption e c d0 =
     (case consumptionParams e c of
        Inl err \<Rightarrow> (d0, Inl err)
      | Inr params \<Rightarrow> runTx e (\<lambda>d.
          txDo (GetBillingReservationForUpdate e (c_ReservationID c) d) (\<lambda>row d.
          case row of
            None \<Rightarrow> TxReturn (Inl ErrInvalidTransition)
          | Some r \<Rightarrow>
              (case br_Status r of
                 ReservationInFlight \<Rightarrow>
                   if br_Channel r \<noteq> c_Channel c then TxReturn (Inl ErrReservationConflict)
                   else txDo (RecordBillingConsumption e params d) (\<lambda>n d.
                        if n \<noteq> 1 then TxReturn (Inl ErrInvalidTransition) else TxCommit () d)
               | ReservationConsumedUnsettled \<Rightarrow>
                   if \<not> samePostgresConsumption r c then TxReturn (Inl ErrReservationConflict)
                   else TxCommit () d
               | ReservationSettled \<Rightarrow>
                   if \<not> samePostgresConsumption r c then TxReturn (Inl ErrReservationConflict)
                   else TxCommit () d
               | _ \<Rightarrow> TxReturn (Inl ErrInvalidTransition)))) d0)"

definition usageRow :: "pg_res \<Rightarrow> gotime \<Rightarrow> pg_usage" where
  "usageRow r usageAt =
     \<lparr>ul_RequestID = br_ReservationID r, ul_UserID = br_UserID r, ul_KeyID = br_KeyID r,
      ul_Model = br_Model r, ul_Channel = br_Channel r, ul_InputTokens = br_InputTokens r,
      ul_OutputTokens = br_OutputTokens r,
      ul_CacheCreationInputTokens = br_CacheCreationInputTokens r,
      ul_CacheReadInputTokens = br_CacheReadInputTokens r,
      ul_ReportedTotalTokens = br_ReportedTotalTokens r, ul_Cost = br_Cost r,
      ul_UsageComplete = br_UsageComplete r, ul_Estimated = br_Estimated r, ul_CreatedAt = usageAt\<rparr>"

definition finalizeBody :: "pg_env \<Rightarrow> string \<Rightarrow> pg_db \<Rightarrow> unit tx_end" where
  "finalizeBody e reservationID d0 =
     txDo (GetBillingReservationForUpdate e reservationID d0) (\<lambda>row d1.
     case row of
       None \<Rightarrow> TxReturn (Inl ErrInvalidTransition)
     | Some r \<Rightarrow>
         if br_Status r = ReservationSettled then TxCommit () d1
         else if br_Status r \<noteq> ReservationConsumedUnsettled then TxReturn (Inl ErrInvalidTransition)
         else if br_Cost r < 0 then TxReturn (Inl ErrReservationConflict)
         else if br_Cost r > br_Amount r then TxReturn (Inl ErrReservationExceeded)
         else
           let delta = i64 (br_Amount r - br_Cost r) in
           txDo (AdjustBalanceForBilling e (br_UserID r) delta d1) (\<lambda>adj d2.
           case adj of
             None \<Rightarrow> TxReturn (Inl ErrNoRows)
           | Some balance \<Rightarrow>
               txDo (InsertBillingLedgerEntry e
                      (ledgerEntry r ledgerKindSettle delta balance (e_now e)) d2) (\<lambda>_ d3.
               txDo (InsertFinalizedUsageLog e
                      (usageRow r (case br_ConsumedAt r of None \<Rightarrow> e_now e | Some t \<Rightarrow> t)) d3) (\<lambda>_ d4.
               txDo (MarkBillingReservationSettled e (br_ReservationID r) (e_now e) d4) (\<lambda>n d5.
               if n \<noteq> 1 then TxReturn (Inl ErrInvalidTransition) else TxCommit () d5)))))"

definition PgFinalize :: "pg_env \<Rightarrow> string \<Rightarrow> pg_db \<Rightarrow> pg_db \<times> unit result" where
  "PgFinalize e reservationID = runTx e (finalizeBody e reservationID)"

definition refundBody :: "pg_env \<Rightarrow> string \<Rightarrow> pg_db \<Rightarrow> unit tx_end" where
  "refundBody e reservationID d0 =
     txDo (GetBillingReservationForUpdate e reservationID d0) (\<lambda>row d1.
     case row of
       None \<Rightarrow> TxReturn (Inl ErrInvalidTransition)
     | Some r \<Rightarrow>
         if br_Status r = ReservationRefunded then TxCommit () d1
         else if br_Status r \<noteq> ReservationReserved then TxReturn (Inl ErrInvalidTransition)
         else
           txDo (AdjustBalanceForBilling e (br_UserID r) (br_Amount r) d1) (\<lambda>adj d2.
           case adj of
             None \<Rightarrow> TxReturn (Inl ErrNoRows)
           | Some balance \<Rightarrow>
               txDo (InsertBillingLedgerEntry e
                      (ledgerEntry r ledgerKindRefund (br_Amount r) balance (e_now e)) d2) (\<lambda>_ d3.
               txDo (MarkBillingReservationRefunded e (br_ReservationID r) (e_now e) d3) (\<lambda>n d4.
               if n \<noteq> 1 then TxReturn (Inl ErrInvalidTransition) else TxCommit () d4))))"

definition PgRefund :: "pg_env \<Rightarrow> string \<Rightarrow> pg_db \<Rightarrow> pg_db \<times> unit result" where
  "PgRefund e reservationID = runTx e (refundBody e reservationID)"

text \<open>\<open>Recover\<close>: one transaction lists the work; then every reservation is finalised or refunded in a
  transaction of its own, and the errors are joined.\<close>

definition joinErr :: "goerr option \<Rightarrow> goerr \<Rightarrow> goerr option" where
  "joinErr joined e = Some (case joined of None \<Rightarrow> ErrJoined [e] | Some j \<Rightarrow> ErrJoined [j, e])"

fun eachJoined ::
  "(string \<Rightarrow> pg_db \<Rightarrow> pg_db \<times> unit result) \<Rightarrow> goerr option \<Rightarrow> string list \<Rightarrow> pg_db \<Rightarrow> pg_db \<times> goerr option"
where
  "eachJoined f joined [] d = (d, joined)"
| "eachJoined f joined (i # is) d =
     (case f i d of
        (d', Inl err) \<Rightarrow> eachJoined f (joinErr joined err) is d'
      | (d', Inr _) \<Rightarrow> eachJoined f joined is d')"

definition recoverList :: "pg_env \<Rightarrow> pg_db \<Rightarrow> (string list \<times> string list \<times> string list) tx_end" where
  "recoverList e d =
     txDo (ListConsumedUnsettledReservations e d) (\<lambda>ids d.
     txDo (ListStaleReservedReservations e (e_now e - staleReservedAfter) d) (\<lambda>staleReserved d.
     txDo (ListStaleInFlightReservations e (e_now e - staleInFlightAfter) d) (\<lambda>staleInFlight d.
     TxCommit (ids, staleReserved, staleInFlight) d)))"

definition PgRecover ::
  "pg_env \<Rightarrow> (string \<Rightarrow> pg_env) \<Rightarrow> (string \<Rightarrow> pg_env) \<Rightarrow> pg_db \<Rightarrow> pg_db \<times> goerr option" where
  "PgRecover e ef er d =
     (case runTx e (recoverList e) d of
        (d0, Inl err) \<Rightarrow> (d0, Some err)
      | (d0, Inr (ids, staleReserved, staleInFlight)) \<Rightarrow>
          (case eachJoined (\<lambda>i. PgFinalize (ef i) i) None ids d0 of
             (d1, joined1) \<Rightarrow>
               (case eachJoined (\<lambda>i. PgRefund (er i) i) joined1 staleReserved d1 of
                  (d2, joined2) \<Rightarrow>
                    (d2, if joined2 \<noteq> None then joined2
                         else if length staleInFlight > 0 then Some ErrAmbiguousReservations
                         else None))))"

section \<open>Abstraction and invariant\<close>

definition unitBool :: "'s \<times> unit result \<Rightarrow> 's \<times> bool result" where
  "unitBool p = (fst p, case snd p of Inl e \<Rightarrow> Inl e | Inr _ \<Rightarrow> Inr True)"

lemma unitBool_simps [simp]:
  "fst (unitBool p) = fst p" "snd (unitBool p) = Inr True \<longleftrightarrow> snd p = Inr ()"
  by (auto simp: unitBool_def split: sum.splits)

fun pgExec :: "pg_env \<Rightarrow> ledger_op \<Rightarrow> pg_db \<Rightarrow> pg_db \<times> bool result" where
  "pgExec e (LReserve r) d = PgReserve e r d"
| "pgExec e (LMarkInFlight i ch) d = unitBool (PgMarkInFlight e i ch d)"
| "pgExec e (LReleaseAttempt i) d = unitBool (PgReleaseAttempt e i d)"
| "pgExec e (LRecordConsumption c) d = unitBool (PgRecordConsumption e c d)"
| "pgExec e (LFinalize i) d = unitBool (PgFinalize e i d)"
| "pgExec e (LRefund i) d = unitBool (PgRefund e i d)"

definition pg_balance :: "pg_db \<Rightarrow> string \<Rightarrow> int" where
  "pg_balance d u = (case map_of (db_users d) u of None \<Rightarrow> 0 | Some x \<Rightarrow> pu_Balance x)"

definition pg_ares :: "pg_res \<Rightarrow> ares" where
  "pg_ares r = \<lparr>ar_user = br_UserID r, ar_amount = br_Amount r, ar_status = br_Status r, ar_cost = br_Cost r\<rparr>"

definition pg_abs :: "pg_db \<Rightarrow> aledger" where
  "pg_abs d = \<lparr>al_bal = pg_balance d, al_res = map (\<lambda>(i, r). (i, pg_ares r)) (db_reservations d)\<rparr>"

lemma pg_abs_simps [simp]:
  "al_bal (pg_abs d) u = pg_balance d u"
  "map_of (al_res (pg_abs d)) i = map_option pg_ares (map_of (db_reservations d) i)"
  "mwf (al_res (pg_abs d)) = mwf (db_reservations d)"
  by (simp_all add: pg_abs_def map_of_map_snd)

text \<open>The money trail of a reservation: the kinds and amounts of its ledger entries, and what they
  must be in each status; and its rows in the usage log.\<close>

definition trail :: "pg_db \<Rightarrow> string \<Rightarrow> (string \<times> int) list" where
  "trail d i = map (\<lambda>x. (le_Kind x, le_Amount x)) (filter (\<lambda>x. le_ReservationID x = i) (db_ledger d))"

definition expectedTrail :: "pg_res \<Rightarrow> (string \<times> int) list" where
  "expectedTrail r = (ledgerKindReserve, - br_Amount r) #
     (case br_Status r of
        ReservationSettled \<Rightarrow> [(ledgerKindSettle, br_Amount r - br_Cost r)]
      | ReservationRefunded \<Rightarrow> [(ledgerKindRefund, br_Amount r)]
      | _ \<Rightarrow> [])"

definition usageOf :: "pg_db \<Rightarrow> string \<Rightarrow> pg_usage list" where
  "usageOf d i = filter (\<lambda>y. ul_RequestID y = i) (db_usage d)"

definition usage_ok :: "pg_db \<Rightarrow> string \<Rightarrow> pg_res \<Rightarrow> bool" where
  "usage_ok d i r \<longleftrightarrow> (if br_Status r = ReservationSettled then \<exists>t. usageOf d i = [usageRow r t]
                       else usageOf d i = [])"

definition row_ok :: "pg_db \<Rightarrow> string \<Rightarrow> pg_res \<Rightarrow> bool" where
  "row_ok d i r \<longleftrightarrow> br_ReservationID r = i \<and> 0 < br_Amount r \<and> br_Amount r \<le> max_int64 \<and>
     mhas (db_users d) (br_UserID r) \<and> 0 \<le> br_Cost r \<and> br_Cost r \<le> br_Amount r"

definition entry_ok :: "pg_db \<Rightarrow> pg_entry \<Rightarrow> bool" where
  "entry_ok d x \<longleftrightarrow>
     (\<exists>r. map_of (db_reservations d) (le_ReservationID x) = Some r \<and> le_UserID x = br_UserID r) \<and>
     le_OperationID x = operationID (le_ReservationID x) (le_Kind x) \<and>
     le_Kind x \<in> {ledgerKindReserve, ledgerKindSettle, ledgerKindRefund}"

definition users_ok :: "pg_db \<Rightarrow> bool" where
  "users_ok d \<longleftrightarrow> mwf (db_users d) \<and> (\<forall>u x. map_of (db_users d) u = Some x \<longrightarrow> in_i64 (pu_Balance x))"

definition pg_inv :: "pg_db \<Rightarrow> bool" where
  "pg_inv d \<longleftrightarrow> users_ok d \<and> mwf (db_reservations d) \<and>
     (\<forall>i r. map_of (db_reservations d) i = Some r \<longrightarrow>
        row_ok d i r \<and> trail d i = expectedTrail r \<and> usage_ok d i r) \<and>
     (\<forall>x \<in> set (db_ledger d). entry_ok d x) \<and>
     (\<forall>y \<in> set (db_usage d). mhas (db_reservations d) (ul_RequestID y))"

lemma pg_inv_row:
  assumes "pg_inv d" "map_of (db_reservations d) i = Some r"
  shows "row_ok d i r" "trail d i = expectedTrail r" "usage_ok d i r"
  using assms by (auto simp: pg_inv_def)

lemma pg_inv_no_row:
  assumes "pg_inv d" "map_of (db_reservations d) i = None"
  shows "trail d i = []" "usageOf d i = []"
  using assms by (force simp: pg_inv_def trail_def usageOf_def entry_ok_def mhas_def filter_empty_conv)+

text \<open>Operation ids determine reservation and kind.\<close>

lemma operationID_inj:
  assumes "operationID i k = operationID j k'"
    and "k \<in> {ledgerKindReserve, ledgerKindSettle, ledgerKindRefund}"
    and "k' \<in> {ledgerKindReserve, ledgerKindSettle, ledgerKindRefund}"
  shows "i = j \<and> k = k'"
proof -
  have len: "length k = length k' \<Longrightarrow> ?thesis"
    using assms(1) by (simp add: operationID_def)
  have "rev (operationID i k) = rev (operationID j k')" using assms(1) by simp
  then have "k = k'"
    using assms(2,3)
    by (auto simp: operationID_def ledgerKindReserve_def ledgerKindSettle_def ledgerKindRefund_def)
  then show ?thesis using len by simp
qed

lemma entryClash_kind:
  assumes "entry_ok d y" "le_OperationID x = operationID (le_ReservationID x) (le_Kind x)"
    and "le_Kind x \<in> {ledgerKindReserve, ledgerKindSettle, ledgerKindRefund}"
  shows "entryClash x y \<longleftrightarrow> le_ReservationID x = le_ReservationID y \<and> le_Kind x = le_Kind y"
proof -
  have "le_OperationID y = operationID (le_ReservationID y) (le_Kind y)"
    "le_Kind y \<in> {ledgerKindReserve, ledgerKindSettle, ledgerKindRefund}"
    using assms(1) by (simp_all add: entry_ok_def)
  then have "le_OperationID x = le_OperationID y \<longrightarrow>
      le_ReservationID x = le_ReservationID y \<and> le_Kind x = le_Kind y"
    using operationID_inj assms(2,3) by metis
  then show ?thesis by (auto simp: entryClash_def)
qed

lemma no_clash_iff:
  assumes "pg_inv d" "le_OperationID x = operationID (le_ReservationID x) (le_Kind x)"
    and "le_Kind x \<in> {ledgerKindReserve, ledgerKindSettle, ledgerKindRefund}"
  shows "list_ex (entryClash x) (db_ledger d) \<longleftrightarrow> le_Kind x \<in> fst ` set (trail d (le_ReservationID x))"
proof -
  have "entryClash x y \<longleftrightarrow> le_ReservationID x = le_ReservationID y \<and> le_Kind x = le_Kind y"
    if "y \<in> set (db_ledger d)" for y
    using assms that by (intro entryClash_kind [of d]) (auto simp: pg_inv_def)
  then show ?thesis by (force simp: list_ex_iff trail_def)
qed

section \<open>What a committed transaction did\<close>

lemma runTx_changed:
  "fst (runTx e body d) = d \<or> (\<exists>x. body d = TxCommit x (fst (runTx e body d)))"
  by (auto simp: runTx_def split: tx_end.splits commit_outcome.splits)

lemma runTx_ok:
  "snd (runTx e body d) = Inr x \<Longrightarrow>
     body d = TxCommit x (fst (runTx e body d)) \<or> (body d = TxReturn (Inr x) \<and> fst (runTx e body d) = d)"
  by (auto simp: runTx_def split: tx_end.splits commit_outcome.splits if_splits)

lemma txDo_commit:
  "txDo q k = TxCommit x d' \<longleftrightarrow> (\<exists>y d. q = Inr (y, d) \<and> k y d = TxCommit x d')"
  by (auto simp: txDo_def split: sum.splits)

lemma txDo_return_ok:
  "txDo q k = TxReturn (Inr x) \<longleftrightarrow> (\<exists>y d. q = Inr (y, d) \<and> k y d = TxReturn (Inr x))"
  by (auto simp: txDo_def split: sum.splits)

lemma stmt_ok [simp]: "stmt e st q d = Inr p \<longleftrightarrow> \<not> e_fail e st \<and> q d = Inr p"
  by (auto simp: stmt_def)

lemma updateRow_ok:
  "updateRow i st f d = Inr (n, d') \<longleftrightarrow>
     (case map_of (db_reservations d) i of
        None \<Rightarrow> n = 0 \<and> d' = d
      | Some r \<Rightarrow> if br_Status r \<noteq> st then n = 0 \<and> d' = d
          else 0 \<le> br_Cost (f r) \<and> br_Cost (f r) \<le> br_Amount (f r) \<and> n = 1 \<and>
               d' = d\<lparr>db_reservations := mput i (f r) (db_reservations d)\<rparr>)"
  by (auto simp: updateRow_def split: option.splits)

named_theorems pg_query "unfolding of queries that succeeded"

lemmas pg_query_defs [pg_query] =
  GetBillingReservationForUpdate_def RecordBillingConsumption_def MarkBillingReservationInFlight_def
  ReleaseBillingAttempt_def MarkBillingReservationSettled_def MarkBillingReservationRefunded_def
  txDo_commit txDo_return_ok updateRow_ok

lemma AdjustBalance_ok:
  "AdjustBalanceForBilling e u delta d = Inr (q, d') \<longleftrightarrow> \<not> e_fail e SAdjust \<and>
     (case map_of (db_users d) u of
        None \<Rightarrow> q = None \<and> d' = d
      | Some x \<Rightarrow> in_i64 (pu_Balance x + delta) \<and> in_i64 (pu_BalanceVersion x + 1) \<and>
          q = Some (pu_Balance x + delta, pu_BalanceVersion x + 1) \<and>
          d' = d\<lparr>db_users := mput u (x\<lparr>pu_Balance := pu_Balance x + delta,
                 pu_BalanceVersion := pu_BalanceVersion x + 1, pu_UpdatedAt := e_dbnow e\<rparr>) (db_users d)\<rparr>)"
  by (cases "map_of (db_users d) u") (auto simp: AdjustBalanceForBilling_def)

lemma DebitBalance_ok:
  "DebitBalanceForReservation e u a d = Inr (q, d') \<longleftrightarrow> \<not> e_fail e SDebit \<and>
     (case map_of (db_users d) u of
        None \<Rightarrow> q = None \<and> d' = d
      | Some x \<Rightarrow>
          if pu_Enabled x \<and> a > 0 \<and> pu_Balance x \<ge> a
          then in_i64 (pu_Balance x - a) \<and> in_i64 (pu_BalanceVersion x + 1) \<and>
               q = Some (pu_Balance x - a, pu_BalanceVersion x + 1) \<and>
               d' = d\<lparr>db_users := mput u (x\<lparr>pu_Balance := pu_Balance x - a,
                 pu_BalanceVersion := pu_BalanceVersion x + 1, pu_UpdatedAt := e_dbnow e\<rparr>) (db_users d)\<rparr>
          else q = None \<and> d' = d)"
  by (cases "map_of (db_users d) u") (auto simp: DebitBalanceForReservation_def)

lemma InsertLedger_ok:
  "InsertBillingLedgerEntry e x d = Inr (q, d') \<longleftrightarrow> \<not> e_fail e SInsertLedger \<and>
     le_Kind x \<in> {ledgerKindReserve, ledgerKindSettle, ledgerKindRefund} \<and>
     \<not> list_ex (entryClash x) (db_ledger d) \<and> mhas (db_reservations d) (le_ReservationID x) \<and>
     mhas (db_users d) (le_UserID x) \<and> d' = d\<lparr>db_ledger := db_ledger d @ [x]\<rparr>"
  by (auto simp: InsertBillingLedgerEntry_def)

lemma InsertUsage_ok:
  "InsertFinalizedUsageLog e x d = Inr (q, d') \<longleftrightarrow> \<not> e_fail e SInsertUsage \<and>
     \<not> list_ex (\<lambda>y. ul_RequestID y = ul_RequestID x) (db_usage d) \<and>
     d' = d\<lparr>db_usage := db_usage d @ [x]\<rparr>"
  by (auto simp: InsertFinalizedUsageLog_def)

text \<open>Committed bodies, one by one.\<close>

definition settledRow :: "pg_env \<Rightarrow> pg_res \<Rightarrow> pg_res" where
  "settledRow e r = r\<lparr>br_Status := ReservationSettled, br_SettledAt := Some (e_now e), br_UpdatedAt := e_now e\<rparr>"

definition refundedRow :: "pg_env \<Rightarrow> pg_res \<Rightarrow> pg_res" where
  "refundedRow e r = r\<lparr>br_Status := ReservationRefunded, br_RefundedAt := Some (e_now e), br_UpdatedAt := e_now e\<rparr>"

definition paidUser :: "pg_env \<Rightarrow> int \<Rightarrow> pg_user \<Rightarrow> pg_user" where
  "paidUser e delta x = x\<lparr>pu_Balance := pu_Balance x + delta,
     pu_BalanceVersion := pu_BalanceVersion x + 1, pu_UpdatedAt := e_dbnow e\<rparr>"

text \<open>The database after paying \<open>delta\<close> to the owner of row \<open>r\<close> and ending it.\<close>

definition payDb :: "pg_env \<Rightarrow> pg_res \<Rightarrow> pg_user \<Rightarrow> string \<Rightarrow> int \<Rightarrow> pg_usage list \<Rightarrow> pg_res \<Rightarrow> pg_db \<Rightarrow> pg_db" where
  "payDb e r x kind delta ys r' d =
     \<lparr>db_users = mput (br_UserID r) (paidUser e delta x) (db_users d),
      db_reservations = mput (br_ReservationID r) r' (db_reservations d),
      db_ledger = db_ledger d @ [ledgerEntry r kind delta
        (pu_Balance x + delta, pu_BalanceVersion x + 1) (e_now e)],
      db_usage = db_usage d @ ys\<rparr>"

definition consumedTime :: "pg_env \<Rightarrow> pg_res \<Rightarrow> gotime" where
  "consumedTime e r = (case br_ConsumedAt r of None \<Rightarrow> e_now e | Some t \<Rightarrow> t)"

lemma finalizeBody_commit:
  assumes "finalizeBody e i d = TxCommit u d'" "pg_inv d"
  shows "\<exists>r. map_of (db_reservations d) i = Some r \<and>
     ((br_Status r = ReservationSettled \<and> d' = d) \<or>
      (br_Status r = ReservationConsumedUnsettled \<and>
       (\<exists>x. map_of (db_users d) (br_UserID r) = Some x \<and>
            in_i64 (pu_Balance x + (br_Amount r - br_Cost r)) \<and>
            d' = payDb e r x ledgerKindSettle (br_Amount r - br_Cost r)
                   [usageRow r (consumedTime e r)] (settledRow e r) d)))"
proof -
  obtain r where r: "map_of (db_reservations d) i = Some r"
    using assms by (auto simp: finalizeBody_def pg_query split: option.splits)
  have row: "row_ok d i r" using pg_inv_row [OF assms(2) r] by simp
  show ?thesis
  proof (cases "br_Status r = ReservationSettled")
    case True
    then show ?thesis using assms r by (auto simp: finalizeBody_def pg_query)
  next
    case False
    have st: "br_Status r = ReservationConsumedUnsettled" and "0 \<le> br_Cost r" "br_Cost r \<le> br_Amount r"
      using assms r False by (auto simp: finalizeBody_def pg_query split: if_splits)
    then have i64: "i64 (br_Amount r - br_Cost r) = br_Amount r - br_Cost r"
      using row by (intro i64_id) (simp add: row_ok_def go_int)
    obtain x where x: "map_of (db_users d) (br_UserID r) = Some x"
      using row by (auto simp: row_ok_def mhas_def)
    have "in_i64 (pu_Balance x + (br_Amount r - br_Cost r)) \<and>
        d' = payDb e r x ledgerKindSettle (br_Amount r - br_Cost r)
               [usageRow r (consumedTime e r)] (settledRow e r) d"
      using assms(1) r x st False row
      by (auto simp: finalizeBody_def pg_query AdjustBalance_ok InsertLedger_ok InsertUsage_ok i64
          payDb_def settledRow_def paidUser_def consumedTime_def row_ok_def Let_def split: if_splits)
    then show ?thesis using r st x by blast
  qed
qed

lemma refundBody_commit:
  assumes "refundBody e i d = TxCommit u d'" "pg_inv d"
  shows "\<exists>r. map_of (db_reservations d) i = Some r \<and>
     ((br_Status r = ReservationRefunded \<and> d' = d) \<or>
      (br_Status r = ReservationReserved \<and>
       (\<exists>x. map_of (db_users d) (br_UserID r) = Some x \<and>
            in_i64 (pu_Balance x + br_Amount r) \<and>
            d' = payDb e r x ledgerKindRefund (br_Amount r) [] (refundedRow e r) d)))"
proof -
  obtain r where r: "map_of (db_reservations d) i = Some r"
    using assms by (auto simp: refundBody_def pg_query split: option.splits)
  have row: "row_ok d i r" using pg_inv_row [OF assms(2) r] by simp
  show ?thesis
  proof (cases "br_Status r = ReservationRefunded")
    case True
    then show ?thesis using assms r by (auto simp: refundBody_def pg_query)
  next
    case False
    have st: "br_Status r = ReservationReserved"
      using assms r False by (auto simp: refundBody_def pg_query split: if_splits)
    obtain x where x: "map_of (db_users d) (br_UserID r) = Some x"
      using row by (auto simp: row_ok_def mhas_def)
    have "in_i64 (pu_Balance x + br_Amount r) \<and>
        d' = payDb e r x ledgerKindRefund (br_Amount r) [] (refundedRow e r) d"
      using assms(1) r x st False row
      by (auto simp: refundBody_def pg_query AdjustBalance_ok InsertLedger_ok
          payDb_def refundedRow_def paidUser_def row_ok_def split: if_splits)
    then show ?thesis using r st x by blast
  qed
qed

subsection \<open>The invariant is kept\<close>

lemma trail_append:
  "trail (d\<lparr>db_ledger := db_ledger d @ [x]\<rparr>) i =
     (if le_ReservationID x = i then trail d i @ [(le_Kind x, le_Amount x)] else trail d i)"
  by (simp add: trail_def)

lemma pg_inv_status:
  assumes inv: "pg_inv d" and r: "map_of (db_reservations d) i = Some r"
    and row: "row_ok d i r'" and user: "br_UserID r' = br_UserID r"
    and trail: "expectedTrail r' = expectedTrail r"
    and st: "br_Status r \<noteq> ReservationSettled" "br_Status r' \<noteq> ReservationSettled"
  shows "pg_inv (d\<lparr>db_reservations := mput i r' (db_reservations d)\<rparr>)"
    (is "pg_inv ?d")
proof -
  have "trail ?d j = trail d j" "usageOf ?d j = usageOf d j" "row_ok ?d j q = row_ok d j q" for j q
    by (simp_all add: trail_def usageOf_def row_ok_def)
  moreover have "entry_ok ?d x" if "x \<in> set (db_ledger d)" for x
    using inv that user r by (auto simp: pg_inv_def entry_ok_def)
  ultimately show ?thesis
    using inv r row trail st by (auto simp: pg_inv_def usage_ok_def users_ok_def mhas_def)
qed

lemma payDb_inv:
  assumes inv: "pg_inv d" and r: "map_of (db_reservations d) i = Some r"
    and x: "map_of (db_users d) (br_UserID r) = Some x" and room: "in_i64 (pu_Balance x + delta)"
    and row: "row_ok d i r'" and user: "br_UserID r' = br_UserID r"
    and kind: "kind \<in> {ledgerKindSettle, ledgerKindRefund}"
    and trail: "expectedTrail r' = expectedTrail r @ [(kind, delta)]"
    and st: "br_Status r \<noteq> ReservationSettled"
    and usage: "if br_Status r' = ReservationSettled then \<exists>t. ys = [usageRow r' t] else ys = []"
  shows "pg_inv (payDb e r x kind delta ys r' d)"
    (is "pg_inv ?d")
proof -
  have i: "br_ReservationID r = i" "br_ReservationID r' = i"
    using pg_inv_row(1) [OF inv r] row by (auto simp: row_ok_def)
  have "users_ok ?d"
    using inv room by (auto simp: pg_inv_def users_ok_def payDb_def paidUser_def)
  moreover have "mwf (db_reservations ?d)" using inv by (simp add: pg_inv_def payDb_def)
  moreover have "row_ok ?d j q \<and> trail ?d j = expectedTrail q \<and> usage_ok ?d j q"
    if q: "map_of (db_reservations ?d) j = Some q" for j q
  proof (cases "j = i")
    case True
    then have [simp]: "q = r'" using q i by (simp add: payDb_def)
    have "trail ?d i = trail d i @ [(kind, delta)]"
      by (simp add: trail_def payDb_def ledgerEntry_def i)
    moreover have "usageOf ?d i = (if br_Status r' = ReservationSettled then ys else [])"
      using usage pg_inv_row(3) [OF inv r] st
      by (auto simp: usageOf_def payDb_def usage_ok_def usageRow_def i split: if_splits)
    ultimately show ?thesis
      using True row pg_inv_row(2) [OF inv r] trail usage
      by (auto simp: row_ok_def payDb_def mhas_def usage_ok_def)
  next
    case False
    then have "map_of (db_reservations d) j = Some q" using q i by (simp add: payDb_def)
    note old = pg_inv_row [OF inv this]
    have "trail ?d j = trail d j" using False i by (simp add: trail_def payDb_def ledgerEntry_def)
    moreover have "usageOf ?d j = usageOf d j"
      using False i usage by (auto simp: usageOf_def payDb_def usageRow_def split: if_splits)
    ultimately show ?thesis using old by (auto simp: row_ok_def payDb_def mhas_def usage_ok_def)
  qed
  moreover have "entry_ok ?d y" if "y \<in> set (db_ledger ?d)" for y
    using that inv r i user kind
    by (auto simp: payDb_def pg_inv_def entry_ok_def ledgerEntry_def)
  moreover have "mhas (db_reservations ?d) (ul_RequestID y)" if "y \<in> set (db_usage ?d)" for y
    using that inv i usage
    by (auto simp: payDb_def pg_inv_def mhas_def usageRow_def split: if_splits)
  ultimately show ?thesis by (auto simp: pg_inv_def)
qed

lemma payDb_abs:
  assumes "pg_inv d" "map_of (db_reservations d) i = Some r" "map_of (db_users d) (br_UserID r) = Some x"
  shows "pg_abs (payDb e r x kind delta ys r' d) =
     acredit (br_UserID r) delta (pg_abs d\<lparr>al_res := mput i (pg_ares r') (al_res (pg_abs d))\<rparr>)"
proof (rule aledger_eqI)
  have "br_ReservationID r = i" using pg_inv_row(1) [OF assms(1,2)] by (simp add: row_ok_def)
  then show "al_res (pg_abs (payDb e r x kind delta ys r' d)) =
      al_res (acredit (br_UserID r) delta (pg_abs d\<lparr>al_res := mput i (pg_ares r') (al_res (pg_abs d))\<rparr>))"
    by (simp add: pg_abs_def payDb_def acredit_def flip: mput_map)
  show "al_bal (pg_abs (payDb e r x kind delta ys r' d)) =
      al_bal (acredit (br_UserID r) delta (pg_abs d\<lparr>al_res := mput i (pg_ares r') (al_res (pg_abs d))\<rparr>))"
    using assms(3) by (auto simp: fun_eq_iff pg_abs_def pg_balance_def payDb_def paidUser_def acredit_def)
qed

section \<open>The contract\<close>

definition pg_ok :: "ledger_op \<Rightarrow> pg_db \<Rightarrow> pg_db \<Rightarrow> bool \<Rightarrow> bool" where
  "pg_ok op d d' success \<longleftrightarrow> pg_inv d' \<and>
     (pg_abs d' = pg_abs d \<or> astep op (pg_abs d) = Some (pg_abs d')) \<and>
     (success \<longrightarrow> apost op (pg_abs d'))"

lemma pg_ok_same: "pg_inv d \<Longrightarrow> (success \<Longrightarrow> apost op (pg_abs d)) \<Longrightarrow> pg_ok op d d success"
  by (simp add: pg_ok_def)

lemma pg_ok_step:
  "pg_inv d' \<Longrightarrow> astep op (pg_abs d) = Some (pg_abs d') \<Longrightarrow> pg_ok op d d' success"
  by (simp add: pg_ok_def astep_apost)

text \<open>It suffices to look at what the body commits: a call that reports success committed, and one
  that reports failure left the database alone or committed unnoticed.\<close>

lemma runTx_pg_ok:
  assumes "pg_inv d"
    and commit: "\<And>d'. body d = TxCommit x d' \<Longrightarrow> pg_ok op d d' True"
    and no_return: "\<And>y. body d = TxReturn (Inr y) \<Longrightarrow> y \<noteq> x"
    and only: "\<And>y d'. body d = TxCommit y d' \<Longrightarrow> y = x"
  shows "pg_ok op d (fst (runTx e body d)) (snd (runTx e body d) = Inr x)"
proof (cases "snd (runTx e body d) = Inr x")
  case True
  then have "body d = TxCommit x (fst (runTx e body d))"
    using runTx_ok [OF True] no_return by auto
  then show ?thesis using commit True by simp
next
  case False
  consider "fst (runTx e body d) = d" | y where "body d = TxCommit y (fst (runTx e body d))"
    using runTx_changed by blast
  then show ?thesis
  proof cases
    case 1
    then show ?thesis using False assms(1) by (simp add: pg_ok_same)
  next
    case 2
    then show ?thesis using commit only False by (auto simp: pg_ok_def)
  qed
qed

text \<open>For the operations that answer only an error there is no other value.\<close>

lemma runTx_pg_ok_unit:
  assumes "pg_inv d" and "\<And>d'. body d = TxCommit () d' \<Longrightarrow> pg_ok op d d' True"
    and "\<And>y. body d \<noteq> TxReturn (Inr y)"
  shows "pg_ok op d (fst (runTx e body d)) (snd (runTx e body d) = Inr ())"
  using assms by (intro runTx_pg_ok) auto

lemma pg_status_step:
  assumes inv: "pg_inv d" and r: "map_of (db_reservations d) i = Some r"
    and row: "row_ok d i r'" and user: "br_UserID r' = br_UserID r"
    and trail: "expectedTrail r' = expectedTrail r"
    and st: "br_Status r \<noteq> ReservationSettled" "br_Status r' \<noteq> ReservationSettled"
    and step: "astep op (pg_abs d) = Some (pg_abs d\<lparr>al_res := mput i (pg_ares r') (al_res (pg_abs d))\<rparr>)"
  shows "pg_ok op d (d\<lparr>db_reservations := mput i r' (db_reservations d)\<rparr>) success"
proof (rule pg_ok_step)
  show "pg_inv (d\<lparr>db_reservations := mput i r' (db_reservations d)\<rparr>)"
    by (rule pg_inv_status [OF inv r row user trail st])
  show "astep op (pg_abs d) = Some (pg_abs (d\<lparr>db_reservations := mput i r' (db_reservations d)\<rparr>))"
    unfolding step by (simp add: pg_abs_def pg_balance_def fun_eq_iff flip: mput_map)
qed

lemma PgMarkInFlight_ok:
  assumes inv: "pg_inv d"
  shows "pg_ok (LMarkInFlight i ch) d (fst (PgMarkInFlight e i ch d)) (snd (PgMarkInFlight e i ch d) = Inr ())"
  unfolding PgMarkInFlight_def
proof (rule runTx_pg_ok_unit [OF inv], goal_cases)
  case (1 d')
  then obtain r where r: "map_of (db_reservations d) i = Some r"
    by (auto simp: pg_query split: option.splits)
  have row: "row_ok d i r" using pg_inv_row [OF inv r] by simp
  let ?r = "r\<lparr>br_Status := ReservationInFlight, br_Channel := ch, br_UpdatedAt := e_now e\<rparr>"
  have "pg_ok (LMarkInFlight i ch) d (d\<lparr>db_reservations := mput i ?r (db_reservations d)\<rparr>) True"
    if "br_Status r = ReservationReserved"
    using row r that
    by (intro pg_status_step [OF inv r])
       (auto simp: row_ok_def expectedTrail_def ledger_step pg_ares_def intro!: aledger_eqI)
  moreover have "br_Status r = ReservationInFlight \<and> d' = d \<or>
      br_Status r = ReservationReserved \<and> d' = d\<lparr>db_reservations := mput i ?r (db_reservations d)\<rparr>"
    using 1 r by (auto simp: pg_query split: if_splits)
  ultimately show ?case using inv r by (auto simp: pg_ares_def intro!: pg_ok_same)
qed (auto simp: pg_query split: option.splits if_splits)

lemma PgReleaseAttempt_ok:
  assumes inv: "pg_inv d"
  shows "pg_ok (LReleaseAttempt i) d (fst (PgReleaseAttempt e i d)) (snd (PgReleaseAttempt e i d) = Inr ())"
  unfolding PgReleaseAttempt_def
proof (rule runTx_pg_ok_unit [OF inv], goal_cases)
  case (1 d')
  then obtain r where r: "map_of (db_reservations d) i = Some r"
    by (auto simp: pg_query split: option.splits)
  have row: "row_ok d i r" using pg_inv_row [OF inv r] by simp
  let ?r = "r\<lparr>br_Status := ReservationReserved, br_UpdatedAt := e_now e\<rparr>"
  have "pg_ok (LReleaseAttempt i) d (d\<lparr>db_reservations := mput i ?r (db_reservations d)\<rparr>) True"
    if "br_Status r = ReservationInFlight"
    using row r that
    by (intro pg_status_step [OF inv r])
       (auto simp: row_ok_def expectedTrail_def ledger_step pg_ares_def intro!: aledger_eqI)
  moreover have "br_Status r = ReservationReserved \<and> d' = d \<or>
      br_Status r = ReservationInFlight \<and> d' = d\<lparr>db_reservations := mput i ?r (db_reservations d)\<rparr>"
    using 1 r by (auto simp: pg_query split: if_splits)
  ultimately show ?case using inv r by (auto simp: pg_ares_def intro!: pg_ok_same)
qed (auto simp: pg_query split: option.splits if_splits)

lemma PgRecordConsumption_ok:
  assumes inv: "pg_inv d"
  shows "pg_ok (LRecordConsumption c) d (fst (PgRecordConsumption e c d))
           (snd (PgRecordConsumption e c d) = Inr ())"
proof (cases "consumptionParams e c")
  case (Inl err)
  then show ?thesis using inv by (simp add: PgRecordConsumption_def pg_ok_same)
next
  case (Inr p)
  have p: "rc_ReservationID p = c_ReservationID c" "rc_Cost p = c_Cost c"
    using Inr by (auto simp: consumptionParams_def split: if_splits)
  show ?thesis unfolding PgRecordConsumption_def Inr sum.case
  proof (rule runTx_pg_ok_unit [OF inv], goal_cases)
    case (1 d')
    then obtain r where r: "map_of (db_reservations d) (c_ReservationID c) = Some r"
      by (auto simp: pg_query split: option.splits)
    have row: "row_ok d (c_ReservationID c) r" using pg_inv_row [OF inv r] by simp
    have "pg_ok (LRecordConsumption c) d
        (d\<lparr>db_reservations := mput (c_ReservationID c) (consumedRow p r) (db_reservations d)\<rparr>) True"
      if "br_Status r = ReservationInFlight" "0 \<le> c_Cost c" "c_Cost c \<le> br_Amount r"
      using row r that p
      by (intro pg_status_step [OF inv r])
         (auto simp: row_ok_def expectedTrail_def ledger_step pg_ares_def consumedRow_def intro!: aledger_eqI)
    moreover have "(br_Status r = ReservationInFlight \<and> 0 \<le> c_Cost c \<and> c_Cost c \<le> br_Amount r \<and>
          d' = d\<lparr>db_reservations := mput (c_ReservationID c) (consumedRow p r) (db_reservations d)\<rparr>) \<or>
        ((br_Status r = ReservationConsumedUnsettled \<or> br_Status r = ReservationSettled) \<and>
          samePostgresConsumption r c \<and> d' = d)"
      using 1 r p
      by (auto simp: pg_query consumedRow_def split: if_splits reservation_status.splits)
    ultimately show ?case using inv r
      by (auto simp: pg_ares_def samePostgresConsumption_def intro!: pg_ok_same)
  qed (auto simp: pg_query split: option.splits if_splits reservation_status.splits)
qed

lemma PgFinalize_ok:
  assumes inv: "pg_inv d"
  shows "pg_ok (LFinalize i) d (fst (PgFinalize e i d)) (snd (PgFinalize e i d) = Inr ())"
  unfolding PgFinalize_def
proof (rule runTx_pg_ok_unit [OF inv], goal_cases)
  case (1 d')
  from finalizeBody_commit [OF this inv] obtain r where r: "map_of (db_reservations d) i = Some r"
    and cases: "(br_Status r = ReservationSettled \<and> d' = d) \<or>
      (br_Status r = ReservationConsumedUnsettled \<and>
       (\<exists>x. map_of (db_users d) (br_UserID r) = Some x \<and>
            in_i64 (pu_Balance x + (br_Amount r - br_Cost r)) \<and>
            d' = payDb e r x ledgerKindSettle (br_Amount r - br_Cost r)
                   [usageRow r (consumedTime e r)] (settledRow e r) d))"
    by blast
  have row: "row_ok d i r" using pg_inv_row [OF inv r] by simp
  have "pg_ok (LFinalize i) d (payDb e r x ledgerKindSettle (br_Amount r - br_Cost r)
                   [usageRow r (consumedTime e r)] (settledRow e r) d) True"
    if "br_Status r = ReservationConsumedUnsettled" "map_of (db_users d) (br_UserID r) = Some x"
      "in_i64 (pu_Balance x + (br_Amount r - br_Cost r))" for x
  proof (rule pg_ok_step)
    show "pg_inv (payDb e r x ledgerKindSettle (br_Amount r - br_Cost r)
                   [usageRow r (consumedTime e r)] (settledRow e r) d)"
      using row that
      by (intro payDb_inv [OF inv r that(2,3)])
         (auto simp: row_ok_def settledRow_def expectedTrail_def usageRow_def)
    show "astep (LFinalize i) (pg_abs d) = Some (pg_abs (payDb e r x ledgerKindSettle
        (br_Amount r - br_Cost r) [usageRow r (consumedTime e r)] (settledRow e r) d))"
      using row r that(1)
      by (auto simp: payDb_abs [OF inv r that(2)] ledger_step pg_ares_def settledRow_def row_ok_def
          intro!: aledger_eqI)
  qed
  then show ?case using cases inv r by (auto simp: pg_ares_def intro!: pg_ok_same)
qed (auto simp: finalizeBody_def pg_query Let_def split: option.splits if_splits)

lemma PgRefund_ok:
  assumes inv: "pg_inv d"
  shows "pg_ok (LRefund i) d (fst (PgRefund e i d)) (snd (PgRefund e i d) = Inr ())"
  unfolding PgRefund_def
proof (rule runTx_pg_ok_unit [OF inv], goal_cases)
  case (1 d')
  from refundBody_commit [OF this inv] obtain r where r: "map_of (db_reservations d) i = Some r"
    and cases: "(br_Status r = ReservationRefunded \<and> d' = d) \<or>
      (br_Status r = ReservationReserved \<and>
       (\<exists>x. map_of (db_users d) (br_UserID r) = Some x \<and>
            in_i64 (pu_Balance x + br_Amount r) \<and>
            d' = payDb e r x ledgerKindRefund (br_Amount r) [] (refundedRow e r) d))"
    by blast
  have row: "row_ok d i r" using pg_inv_row [OF inv r] by simp
  have "pg_ok (LRefund i) d (payDb e r x ledgerKindRefund (br_Amount r) [] (refundedRow e r) d) True"
    if "br_Status r = ReservationReserved" "map_of (db_users d) (br_UserID r) = Some x"
      "in_i64 (pu_Balance x + br_Amount r)" for x
  proof (rule pg_ok_step)
    show "pg_inv (payDb e r x ledgerKindRefund (br_Amount r) [] (refundedRow e r) d)"
      using row that
      by (intro payDb_inv [OF inv r that(2,3)])
         (auto simp: row_ok_def refundedRow_def expectedTrail_def)
    show "astep (LRefund i) (pg_abs d) = Some (pg_abs (payDb e r x ledgerKindRefund
        (br_Amount r) [] (refundedRow e r) d))"
      using row r that(1)
      by (auto simp: payDb_abs [OF inv r that(2)] ledger_step pg_ares_def refundedRow_def row_ok_def
          intro!: aledger_eqI)
  qed
  then show ?case using cases inv r by (auto simp: pg_ares_def intro!: pg_ok_same)
qed (auto simp: refundBody_def pg_query split: option.splits if_splits)

subsection \<open>Reserving\<close>

definition reservedRow :: "pg_env \<Rightarrow> reservation \<Rightarrow> int \<Rightarrow> int \<Rightarrow> pg_res" where
  "reservedRow e r maxInput maxOutput = newRow
     \<lparr>ir_ReservationID = r_ID r, ir_TraceID = r_TraceID r, ir_UserID = r_UserID r,
      ir_KeyID = r_KeyID r, ir_Model = r_Model r, ir_Amount = r_Amount r,
      ir_MaxInputTokens = maxInput, ir_MaxOutputTokens = maxOutput,
      ir_CreatedAt = normalizedTime e (r_CreatedAt r)\<rparr>"

definition reservedDb :: "pg_env \<Rightarrow> reservation \<Rightarrow> pg_user \<Rightarrow> pg_res \<Rightarrow> pg_db \<Rightarrow> pg_db" where
  "reservedDb e r x row d =
     \<lparr>db_users = mput (r_UserID r) (paidUser e (- r_Amount r) x) (db_users d),
      db_reservations = mput (r_ID r) row (db_reservations d),
      db_ledger = db_ledger d @ [\<lparr>le_OperationID = operationID (r_ID r) ledgerKindReserve,
        le_ReservationID = r_ID r, le_UserID = r_UserID r, le_Kind = ledgerKindReserve,
        le_Amount = - r_Amount r, le_BalanceAfter = pu_Balance x - r_Amount r,
        le_BalanceVersion = pu_BalanceVersion x + 1,
        le_CreatedAt = normalizedTime e (r_CreatedAt r)\<rparr>],
      db_usage = db_usage d\<rparr>"

lemma InsertReservation_ok:
  "InsertBillingReservation e p d = Inr (q, d') \<longleftrightarrow> \<not> e_fail e SInsertReservation \<and>
     0 < ir_Amount p \<and> 0 \<le> ir_MaxInputTokens p \<and> 0 < ir_MaxOutputTokens p \<and>
     (if mhas (db_reservations d) (ir_ReservationID p) then q = None \<and> d' = d
      else mhas (db_users d) (ir_UserID p) \<and> q = Some (newRow p) \<and>
        d' = d\<lparr>db_reservations := mput (ir_ReservationID p) (newRow p) (db_reservations d)\<rparr>)"
  by (auto simp: InsertBillingReservation_def)

lemma reserveBody_commit:
  assumes "reserveBody e r maxIn maxOut d = TxCommit b d'"
  shows "b \<and> 0 < r_Amount r \<and>
     ((\<exists>old. map_of (db_reservations d) (r_ID r) = Some old \<and> samePostgresReservation old r \<and>
          br_Status old = ReservationReserved \<and> d' = d) \<or>
      (map_of (db_reservations d) (r_ID r) = None \<and>
       (\<exists>x. map_of (db_users d) (r_UserID r) = Some x \<and> pu_Enabled x \<and> r_Amount r \<le> pu_Balance x \<and>
            in_i64 (pu_Balance x - r_Amount r) \<and>
            d' = reservedDb e r x (reservedRow e r maxIn maxOut) d)))"
proof (cases "map_of (db_reservations d) (r_ID r)")
  case (Some old)
  then show ?thesis using assms
    by (auto simp: reserveBody_def pg_query InsertReservation_ok mhas_def Let_def split: if_splits)
next
  case None
  then obtain x where x: "map_of (db_users d) (r_UserID r) = Some x"
    using assms by (auto simp: reserveBody_def pg_query InsertReservation_ok mhas_def Let_def split: if_splits)
  then show ?thesis using assms None
    by (auto simp: reserveBody_def pg_query InsertReservation_ok DebitBalance_ok InsertLedger_ok
        mhas_def Let_def reservedDb_def reservedRow_def paidUser_def split: if_splits option.splits)
qed

lemma reservedDb_inv:
  assumes inv: "pg_inv d" and none: "map_of (db_reservations d) (r_ID r) = None"
    and x: "map_of (db_users d) (r_UserID r) = Some x"
    and amt: "0 < r_Amount r" "in_i64 (pu_Balance x - r_Amount r)" "r_Amount r \<le> pu_Balance x"
  shows "pg_inv (reservedDb e r x (reservedRow e r mi mo) d)"
    (is "pg_inv ?d")
proof -
  have bal: "in_i64 (pu_Balance x)" using inv x by (auto simp: pg_inv_def users_ok_def)
  have "users_ok ?d"
    using inv amt by (auto simp: pg_inv_def users_ok_def reservedDb_def paidUser_def)
  moreover have "mwf (db_reservations ?d)" using inv by (simp add: pg_inv_def reservedDb_def)
  moreover have "row_ok ?d j q \<and> trail ?d j = expectedTrail q \<and> usage_ok ?d j q"
    if q: "map_of (db_reservations ?d) j = Some q" for j q
  proof (cases "j = r_ID r")
    case True
    then have "q = reservedRow e r mi mo" using q by (simp add: reservedDb_def)
    moreover have "trail ?d j = [(ledgerKindReserve, - r_Amount r)]" "usageOf ?d j = []"
      using pg_inv_no_row [OF inv none] True by (simp_all add: trail_def usageOf_def reservedDb_def)
    ultimately show ?thesis using amt bal True
      by (simp add: row_ok_def reservedDb_def reservedRow_def newRow_def mhas_def expectedTrail_def
          usage_ok_def go_int)
  next
    case False
    then have "map_of (db_reservations d) j = Some q" using q by (simp add: reservedDb_def)
    note old = pg_inv_row [OF inv this]
    have "trail ?d j = trail d j" "usageOf ?d j = usageOf d j"
      using False by (simp_all add: trail_def usageOf_def reservedDb_def)
    then show ?thesis using old by (auto simp: row_ok_def reservedDb_def mhas_def usage_ok_def)
  qed
  moreover have "entry_ok ?d y" if "y \<in> set (db_ledger ?d)" for y
    using that inv none
    by (auto simp: reservedDb_def pg_inv_def entry_ok_def reservedRow_def newRow_def)
  moreover have "mhas (db_reservations ?d) (ul_RequestID y)" if "y \<in> set (db_usage ?d)" for y
    using that inv by (auto simp: reservedDb_def pg_inv_def mhas_def)
  ultimately show ?thesis by (auto simp: pg_inv_def)
qed

lemma PgReserve_ok:
  assumes inv: "pg_inv d"
  shows "pg_ok (LReserve r) d (fst (PgReserve e r d)) (snd (PgReserve e r d) = Inr True)"
proof (cases "\<exists>mi mo. PgReserve e r d = runTx e (reserveBody e r mi mo) d")
  case False
  then show ?thesis using inv
    by (auto simp: PgReserve_def pg_ok_same split: sum.splits prod.splits if_splits)
next
  case True
  then obtain mi mo where run: "PgReserve e r d = runTx e (reserveBody e r mi mo) d" by blast
  show ?thesis unfolding run
  proof (rule runTx_pg_ok [OF inv], goal_cases)
    case (1 d')
    note commit = reserveBody_commit [OF 1]
    have "pg_ok (LReserve r) d (reservedDb e r x (reservedRow e r mi mo) d) True"
      if none: "map_of (db_reservations d) (r_ID r) = None"
        and x: "map_of (db_users d) (r_UserID r) = Some x" and le: "r_Amount r \<le> pu_Balance x"
        and room: "in_i64 (pu_Balance x - r_Amount r)" for x
    proof (rule pg_ok_step)
      show "pg_inv (reservedDb e r x (reservedRow e r mi mo) d)"
        using commit that by (intro reservedDb_inv [OF inv none x]) auto
      have row: "pg_ares (reservedRow e r mi mo) = \<lparr>ar_user = r_UserID r, ar_amount = r_Amount r,
          ar_status = ReservationReserved, ar_cost = 0\<rparr>"
        by (simp add: pg_ares_def reservedRow_def newRow_def)
      have "pg_balance (reservedDb e r x (reservedRow e r mi mo) d) =
          (pg_balance d)(r_UserID r := pg_balance d (r_UserID r) - r_Amount r)"
        using x by (auto simp: fun_eq_iff pg_balance_def reservedDb_def paidUser_def)
      then show "astep (LReserve r) (pg_abs d) = Some (pg_abs (reservedDb e r x (reservedRow e r mi mo) d))"
        using commit none x le
        by (auto simp: acredit_def pg_abs_def map_of_map_snd pg_balance_def reservedDb_def row
            simp flip: mput_map intro!: aledger_eqI)
    qed
    then show ?case using commit inv
      by (auto simp: samePostgresReservation_def pg_ares_def intro!: pg_ok_same)
  qed (auto simp: reserveBody_def pg_query Let_def dest: reserveBody_commit split: option.splits if_splits)
qed

lemma pgExec_ok:
  "pg_inv d \<Longrightarrow> pg_ok op d (fst (pgExec e op d)) (snd (pgExec e op d) = Inr True)"
  by (cases op) (simp_all add: PgReserve_ok PgRecordConsumption_ok PgMarkInFlight_ok
      PgReleaseAttempt_ok PgFinalize_ok PgRefund_ok)

lemma pg_inv_awf: "pg_inv d \<Longrightarrow> awf (pg_abs d)"
  by (force simp: awf_def pg_inv_def row_ok_def pg_ares_def)

interpretation pg: ledger_contract pgExec pg_abs pg_inv
proof unfold_locales
qed (use pgExec_ok pg_inv_awf in \<open>auto simp: pg_ok_def\<close>)

section \<open>Reachable databases and runs\<close>

primrec pgRun :: "(pg_env \<times> ledger_op) list \<Rightarrow> pg_db \<Rightarrow> pg_db" where
  "pgRun [] d = d"
| "pgRun (x # xs) d = pgRun xs (fst (pgExec (fst x) (snd x) d))"

lemma pgRun_run: "pgRun xs d = pg.run xs d"
  by (induction xs arbitrary: d) auto

lemma pgRun_inv: "pg_inv d \<Longrightarrow> pg_inv (pgRun xs d)"
  by (simp add: pgRun_run pg.run_inv)

text \<open>The database starts with users and empty billing tables; afterwards ledger operations, with any
  failures, and changes of the users table by the management interface happen in any order. Users
  are never deleted (reservations reference them).\<close>

inductive pg_reach :: "pg_db \<Rightarrow> bool" where
  new: "mwf us \<Longrightarrow> list_all (\<lambda>p. in_i64 (pu_Balance (snd p))) us \<Longrightarrow>
     pg_reach \<lparr>db_users = us, db_reservations = [], db_ledger = [], db_usage = []\<rparr>"
| exec: "pg_reach d \<Longrightarrow> pg_reach (fst (pgExec e op d))"
| users: "pg_reach d \<Longrightarrow> in_i64 (pu_Balance x) \<Longrightarrow> pg_reach (d\<lparr>db_users := mput u x (db_users d)\<rparr>)"

lemma pg_inv_users:
  assumes "pg_inv d" "in_i64 (pu_Balance x)"
  shows "pg_inv (d\<lparr>db_users := mput u x (db_users d)\<rparr>)"
proof -
  let ?d = "d\<lparr>db_users := mput u x (db_users d)\<rparr>"
  have "trail ?d i = trail d i" "usageOf ?d i = usageOf d i" "entry_ok ?d y = entry_ok d y"
    "row_ok d i r \<Longrightarrow> row_ok ?d i r" for i y r
    by (auto simp: trail_def usageOf_def entry_ok_def row_ok_def mhas_def)
  then show ?thesis using assms by (auto simp: pg_inv_def users_ok_def usage_ok_def)
qed

lemma pg_reach_inv: "pg_reach d \<Longrightarrow> pg_inv d"
proof (induction rule: pg_reach.induct)
  case (new us)
  then show ?case by (force simp: pg_inv_def users_ok_def list_all_iff dest: map_of_SomeD)
next
  case (exec d e op)
  then show ?case using pg.exec_inv by blast
next
  case (users d x u)
  then show ?case by (simp add: pg_inv_users)
qed

section \<open>Healthy attempts\<close>

text \<open>An attempt in which no statement fails and the commit succeeds.\<close>

definition healthy :: "pg_env \<Rightarrow> bool" where
  "healthy e \<longleftrightarrow> (\<forall>s. \<not> e_fail e s) \<and> e_commit e = CommitOk"

text \<open>The owner of the row can be paid \<open>delta\<close> within 64 bits.\<close>

definition payable :: "pg_db \<Rightarrow> string \<Rightarrow> int \<Rightarrow> bool" where
  "payable d u delta \<longleftrightarrow> (\<exists>x. map_of (db_users d) u = Some x \<and>
     in_i64 (pu_Balance x + delta) \<and> in_i64 (pu_BalanceVersion x + 1))"

lemma pg_row_facts:
  assumes "pg_inv d" "map_of (db_reservations d) i = Some r"
  shows "br_ReservationID r = i" "0 < br_Amount r" "br_Amount r \<le> max_int64"
    "0 \<le> br_Cost r" "br_Cost r \<le> br_Amount r" "mhas (db_users d) (br_UserID r)"
  using pg_inv_row(1) [OF assms] by (auto simp: row_ok_def)

lemma PgFinalize_healthy:
  assumes inv: "pg_inv d" and r: "map_of (db_reservations d) i = Some r" and e: "healthy e"
    and st: "br_Status r = ReservationConsumedUnsettled"
    and pay: "payable d (br_UserID r) (br_Amount r - br_Cost r)"
  shows "\<exists>x. map_of (db_users d) (br_UserID r) = Some x \<and>
     PgFinalize e i d = (payDb e r x ledgerKindSettle (br_Amount r - br_Cost r)
        [usageRow r (consumedTime e r)] (settledRow e r) d, Inr ())"
proof -
  note row = pg_row_facts [OF inv r]
  have i64: "i64 (br_Amount r - br_Cost r) = br_Amount r - br_Cost r"
    using row by (intro i64_id) (simp add: go_int)
  obtain x where x: "map_of (db_users d) (br_UserID r) = Some x"
    "in_i64 (pu_Balance x + (br_Amount r - br_Cost r))" "in_i64 (pu_BalanceVersion x + 1)"
    using pay by (auto simp: payable_def)
  have ok: "\<not> e_fail e s" for s using e by (simp add: healthy_def)
  have clash: "\<not> list_ex (entryClash (ledgerEntry r ledgerKindSettle (br_Amount r - br_Cost r)
      (pu_Balance x + (br_Amount r - br_Cost r), pu_BalanceVersion x + 1) (e_now e))) (db_ledger d)"
    using pg_inv_row(2) [OF inv r] st row
    by (subst no_clash_iff [OF inv])
       (auto simp: ledgerEntry_def expectedTrail_def ledgerKindReserve_def ledgerKindSettle_def)
  have nouse: "\<not> list_ex (\<lambda>y. ul_RequestID y = br_ReservationID r) (db_usage d)"
    using pg_inv_row(3) [OF inv r] st row
    by (auto simp: usage_ok_def usageOf_def list_ex_iff filter_empty_conv)
  have le: "\<not> br_Cost r < 0" "\<not> br_Amount r < br_Cost r" using row by auto
  have "finalizeBody e i d = TxCommit () (payDb e r x ledgerKindSettle (br_Amount r - br_Cost r)
        [usageRow r (consumedTime e r)] (settledRow e r) d)"
    using r x st row clash nouse le
    by (simp add: finalizeBody_def txDo_def stmt_def GetBillingReservationForUpdate_def
        AdjustBalanceForBilling_def InsertBillingLedgerEntry_def InsertFinalizedUsageLog_def
        MarkBillingReservationSettled_def updateRow_def ok i64 payDb_def settledRow_def paidUser_def
        consumedTime_def ledgerEntry_def usageRow_def mhas_def Let_def)
  then show ?thesis using x e by (auto simp: PgFinalize_def runTx_def healthy_def)
qed

lemma PgRefund_healthy:
  assumes inv: "pg_inv d" and r: "map_of (db_reservations d) i = Some r" and e: "healthy e"
    and st: "br_Status r = ReservationReserved" and pay: "payable d (br_UserID r) (br_Amount r)"
  shows "\<exists>x. map_of (db_users d) (br_UserID r) = Some x \<and>
     PgRefund e i d = (payDb e r x ledgerKindRefund (br_Amount r) [] (refundedRow e r) d, Inr ())"
proof -
  note row = pg_row_facts [OF inv r]
  obtain x where x: "map_of (db_users d) (br_UserID r) = Some x"
    "in_i64 (pu_Balance x + br_Amount r)" "in_i64 (pu_BalanceVersion x + 1)"
    using pay by (auto simp: payable_def)
  have ok: "\<not> e_fail e s" for s using e by (simp add: healthy_def)
  have clash: "\<not> list_ex (entryClash (ledgerEntry r ledgerKindRefund (br_Amount r)
      (pu_Balance x + br_Amount r, pu_BalanceVersion x + 1) (e_now e))) (db_ledger d)"
    using pg_inv_row(2) [OF inv r] st row
    by (subst no_clash_iff [OF inv])
       (auto simp: ledgerEntry_def expectedTrail_def ledgerKindReserve_def ledgerKindRefund_def)
  have "refundBody e i d = TxCommit () (payDb e r x ledgerKindRefund (br_Amount r) [] (refundedRow e r) d)"
    using r x st row clash
    by (simp add: refundBody_def txDo_def stmt_def GetBillingReservationForUpdate_def
        AdjustBalanceForBilling_def InsertBillingLedgerEntry_def
        MarkBillingReservationRefunded_def updateRow_def ok payDb_def refundedRow_def paidUser_def
        ledgerEntry_def mhas_def)
  then show ?thesis using x e by (auto simp: PgRefund_def runTx_def healthy_def)
qed

lemma PgFinalize_replay:
  assumes "map_of (db_reservations d) i = Some r" "br_Status r = ReservationSettled" "healthy e"
  shows "PgFinalize e i d = (d, Inr ())"
  using assms by (simp add: PgFinalize_def runTx_def healthy_def finalizeBody_def txDo_def stmt_def
      GetBillingReservationForUpdate_def)

text \<open>Any number of failing attempts to finalise leave the database as it was or settle the row once.\<close>

lemma PgFinalize_changed:
  assumes "pg_inv d"
  shows "fst (PgFinalize e i d) = d \<or>
     (\<exists>r x. map_of (db_reservations d) i = Some r \<and> br_Status r = ReservationConsumedUnsettled \<and>
        map_of (db_users d) (br_UserID r) = Some x \<and>
        fst (PgFinalize e i d) = payDb e r x ledgerKindSettle (br_Amount r - br_Cost r)
          [usageRow r (consumedTime e r)] (settledRow e r) d)"
  using runTx_changed [of e "finalizeBody e i" d] finalizeBody_commit [OF _ assms, of e i]
  by (auto simp: PgFinalize_def)

definition finalizeAttempts :: "pg_env list \<Rightarrow> string \<Rightarrow> pg_db \<Rightarrow> pg_db" where
  "finalizeAttempts es i d = foldl (\<lambda>d e. fst (PgFinalize e i d)) d es"

lemma finalizeAttempts_settled:
  assumes "map_of (db_reservations d) i = Some r" "br_Status r = ReservationSettled"
  shows "finalizeAttempts es i d = d"
proof (induction es)
  case (Cons e es)
  have "fst (PgFinalize e i d) = d"
    using assms by (auto simp: PgFinalize_def runTx_def finalizeBody_def txDo_def stmt_def
        GetBillingReservationForUpdate_def split: commit_outcome.splits)
  then show ?case using Cons by (simp add: finalizeAttempts_def)
qed (simp add: finalizeAttempts_def)

lemma finalizeAttempts_once:
  assumes inv: "pg_inv d" and r: "map_of (db_reservations d) i = Some r"
    and st: "br_Status r = ReservationConsumedUnsettled"
  shows "finalizeAttempts es i d = d \<or>
     (\<exists>e x. map_of (db_users d) (br_UserID r) = Some x \<and>
        finalizeAttempts es i d = payDb e r x ledgerKindSettle (br_Amount r - br_Cost r)
          [usageRow r (consumedTime e r)] (settledRow e r) d)"
proof (induction es)
  case (Cons e es)
  note row = pg_row_facts [OF inv r]
  from PgFinalize_changed [OF inv, of e i] show ?case
  proof
    assume "fst (PgFinalize e i d) = d"
    then show ?thesis using Cons by (simp add: finalizeAttempts_def)
  next
    assume "\<exists>r x. map_of (db_reservations d) i = Some r \<and> br_Status r = ReservationConsumedUnsettled \<and>
        map_of (db_users d) (br_UserID r) = Some x \<and>
        fst (PgFinalize e i d) = payDb e r x ledgerKindSettle (br_Amount r - br_Cost r)
          [usageRow r (consumedTime e r)] (settledRow e r) d"
    then obtain x where x: "map_of (db_users d) (br_UserID r) = Some x"
      and d1: "fst (PgFinalize e i d) = payDb e r x ledgerKindSettle (br_Amount r - br_Cost r)
          [usageRow r (consumedTime e r)] (settledRow e r) d" (is "_ = ?d1")
      using r by auto
    have "map_of (db_reservations ?d1) i = Some (settledRow e r)"
      using row by (simp add: payDb_def)
    moreover have "br_Status (settledRow e r) = ReservationSettled" by (simp add: settledRow_def)
    ultimately have "finalizeAttempts es i ?d1 = ?d1" by (rule finalizeAttempts_settled)
    then show ?thesis using x d1 by (auto simp: finalizeAttempts_def)
  qed
qed (simp add: finalizeAttempts_def)

section \<open>Reconciliation\<close>

definition ledgerSum :: "string \<Rightarrow> pg_db \<Rightarrow> int" where
  "ledgerSum u d = sum_list (map le_Amount (filter (\<lambda>x. le_UserID x = u) (db_ledger d)))"

lemma trail_sum:
  "sum_list (map le_Amount (filter (\<lambda>x. le_ReservationID x = i) (db_ledger d))) = sum_list (map snd (trail d i))"
  by (simp add: trail_def comp_def)

lemma expectedTrail_sum:
  "br_UserID r = u \<Longrightarrow>
   sum_list (map snd (expectedTrail r)) = - (held u (pg_ares r) + charged u (pg_ares r))"
  by (cases "br_Status r") (auto simp: expectedTrail_def held_def charged_def pg_ares_def)

lemma ledgerSum_held_charged:
  assumes "pg_inv d"
  shows "ledgerSum u d = - (msum (held u) (al_res (pg_abs d)) + msum (charged u) (al_res (pg_abs d)))"
proof -
  let ?xs = "filter (\<lambda>x. le_UserID x = u) (db_ledger d)" and ?ks = "map fst (db_reservations d)"
  have distinct: "distinct ?ks" using assms by (simp add: pg_inv_def mwf_def)
  have keys: "le_ReservationID ` set ?xs \<subseteq> set ?ks"
  proof
    fix i assume "i \<in> le_ReservationID ` set ?xs"
    then obtain x r where "map_of (db_reservations d) i = Some r"
      using assms by (force simp: pg_inv_def entry_ok_def)
    then show "i \<in> set ?ks" by (force dest: map_of_SomeD)
  qed
  have group: "sum_list (map le_Amount (filter (\<lambda>x. le_ReservationID x = i) ?xs))
      = - (held u (pg_ares r) + charged u (pg_ares r))"
    if "(i, r) \<in> set (db_reservations d)" for i r
  proof -
    have r: "map_of (db_reservations d) i = Some r" using that assms by (simp add: mget_set pg_inv_def)
    have user: "le_UserID x = br_UserID r" if "x \<in> set (db_ledger d)" "le_ReservationID x = i" for x
      using that assms r by (auto simp: pg_inv_def entry_ok_def)
    have "filter (\<lambda>x. le_ReservationID x = i) ?xs =
        (if br_UserID r = u then filter (\<lambda>x. le_ReservationID x = i) (db_ledger d) else [])"
      using user by (auto simp: filter_empty_conv intro!: filter_cong)
    then show ?thesis
      using pg_inv_row(2) [OF assms r] expectedTrail_sum [of r u]
      by (auto simp: trail_sum held_def charged_def pg_ares_def)
  qed
  have "ledgerSum u d = sum_list (map (\<lambda>(i, r). sum_list (map le_Amount
      (filter (\<lambda>x. le_ReservationID x = i) ?xs))) (db_reservations d))"
    using sum_list_group [OF distinct keys, of le_Amount]
    by (simp add: ledgerSum_def comp_def split_def)
  also have "\<dots> = sum_list (map (\<lambda>(i, r). - (held u (pg_ares r) + charged u (pg_ares r))) (db_reservations d))"
    using group by (intro arg_cong [where f = sum_list] map_cong) auto
  also have "\<dots> = - (msum (held u) (al_res (pg_abs d)) + msum (charged u) (al_res (pg_abs d)))"
    by (simp only: msum_neg_add [of "\<lambda>r. held u (pg_ares r)"]) (simp add: pg_abs_def msum_map comp_def)
  finally show ?thesis .
qed

section \<open>Recovery\<close>

definition pgStatusIs :: "reservation_status \<Rightarrow> string \<Rightarrow> pg_db \<Rightarrow> bool" where
  "pgStatusIs st i d \<longleftrightarrow> (\<exists>r. map_of (db_reservations d) i = Some r \<and> br_Status r = st)"

lemma pgStatusIs_abs:
  "pgStatusIs st i d \<longleftrightarrow> (\<exists>a. map_of (al_res (pg_abs d)) i = Some a \<and> ar_status a = st)"
  by (auto simp: pgStatusIs_def pg_ares_def)

lemma pgStatusIs_stays:
  assumes "pg_inv d" "pgStatusIs st i d" "st = ReservationSettled \<or> st = ReservationRefunded"
  shows "pgStatusIs st i (fst (pgExec e op d))"
proof -
  obtain a where "map_of (al_res (pg_abs d)) i = Some a" "ar_status a = st"
    using assms(2) unfolding pgStatusIs_abs by blast
  then show ?thesis
    using pg.exec_evolves [OF assms(1), of i a e op] assms(3)
    unfolding pgStatusIs_abs evolves_def by auto
qed

lemma pgStatusIs_run:
  "pg_inv d \<Longrightarrow> pgStatusIs st i d \<Longrightarrow> st = ReservationSettled \<or> st = ReservationRefunded \<Longrightarrow>
   pgStatusIs st i (pgRun xs d)"
  by (induction xs arbitrary: d) (auto intro: pgStatusIs_stays pg.exec_inv)

lemma pgRun_append: "pgRun (xs @ ys) d = pgRun ys (pgRun xs d)"
  by (induction xs arbitrary: d) auto

lemma eachJoined_some: "snd (eachJoined f (Some j) is d) \<noteq> None"
  by (induction f "Some j" "is" d arbitrary: j rule: eachJoined.induct)
     (auto simp: joinErr_def split: prod.splits sum.splits)

lemma eachJoined_joined:
  "snd (eachJoined f j is d) = Some err \<Longrightarrow> j = Some err \<or> (\<exists>es. err = ErrJoined es)"
proof (induction f j "is" d rule: eachJoined.induct)
  case (2 f joined i js d)
  then show ?case by (fastforce simp: joinErr_def split: prod.splits sum.splits option.splits)
qed simp

text \<open>A loop of ledger operations is a run; without an error each id was handled.\<close>

lemma eachJoined_run:
  assumes "\<And>i d. f i d = (fst (pgExec (g i) (h i) d), snd (f i d))"
  shows "\<exists>xs. fst (eachJoined f j is d) = pgRun xs d"
proof (induction "is" arbitrary: j d)
  case Nil
  show ?case by (rule exI [of _ "[]"]) simp
next
  case (Cons i js)
  let ?d = "fst (pgExec (g i) (h i) d)"
  have step: "fst (f i d) = ?d" by (metis assms fst_conv)
  obtain j' where "eachJoined f j (i # js) d = eachJoined f j' js ?d"
    using step by (cases "f i d"; cases "snd (f i d)") auto
  moreover obtain xs where "fst (eachJoined f j' js ?d) = pgRun xs ?d" using Cons.IH by blast
  ultimately have "fst (eachJoined f j (i # js) d) = pgRun ((g i, h i) # xs) d" by simp
  then show ?case by blast
qed

lemma eachJoined_done:
  assumes f: "\<And>i d. f i d = (fst (pgExec (g i) (h i) d), snd (f i d))"
    and ok: "\<And>i d. pg_inv d \<Longrightarrow> snd (f i d) = Inr () \<Longrightarrow> pgStatusIs st i (fst (f i d))"
    and st: "st = ReservationSettled \<or> st = ReservationRefunded"
    and "pg_inv d" "snd (eachJoined f j is d) = None"
  shows "j = None \<and> (\<forall>i \<in> set is. pgStatusIs st i (fst (eachJoined f j is d)))"
  using assms(4,5)
proof (induction "is" arbitrary: j d)
  case (Cons i js)
  let ?d = "fst (f i d)"
  have d: "?d = fst (pgExec (g i) (h i) d)" by (metis f fst_conv)
  have inv: "pg_inv ?d" unfolding d by (rule pg.exec_inv [OF Cons.prems(1)])
  show ?case
  proof (cases "snd (f i d)")
    case (Inl err)
    then have "snd (eachJoined f (joinErr j err) js ?d) = None"
      using Cons.prems(2) by (cases "f i d") simp
    then show ?thesis using eachJoined_some by (simp add: joinErr_def)
  next
    case (Inr u)
    then have eq: "eachJoined f j (i # js) d = eachJoined f j js ?d" by (cases "f i d") simp
    then have rest: "j = None" "\<forall>k \<in> set js. pgStatusIs st k (fst (eachJoined f j js ?d))"
      using Cons.IH [OF inv] Cons.prems(2) by simp_all
    obtain xs where "fst (eachJoined f j js ?d) = pgRun xs ?d"
      using eachJoined_run [of f g h, OF f] by blast
    then have "pgStatusIs st i (fst (eachJoined f j js ?d))"
      using ok [OF Cons.prems(1)] Inr pgStatusIs_run [OF inv _ st] by simp
    then show ?thesis using rest eq by simp
  qed
qed simp

lemma PgFinalize_settles:
  "pg_inv d \<Longrightarrow> snd (PgFinalize e i d) = Inr () \<Longrightarrow> pgStatusIs ReservationSettled i (fst (PgFinalize e i d))"
  using PgFinalize_ok [of d i e] by (auto simp: pg_ok_def pgStatusIs_abs)

lemma PgRefund_refunds:
  "pg_inv d \<Longrightarrow> snd (PgRefund e i d) = Inr () \<Longrightarrow> pgStatusIs ReservationRefunded i (fst (PgRefund e i d))"
  using PgRefund_ok [of d i e] by (auto simp: pg_ok_def pgStatusIs_abs)

lemma finalizeEach_run: "\<exists>xs. fst (eachJoined (\<lambda>i. PgFinalize (ef i) i) j is d) = pgRun xs d"
  by (rule eachJoined_run [where g = ef and h = LFinalize]) simp

lemma refundEach_run: "\<exists>xs. fst (eachJoined (\<lambda>i. PgRefund (er i) i) j is d) = pgRun xs d"
  by (rule eachJoined_run [where g = er and h = LRefund]) simp

lemma finalizeEach_done:
  assumes "pg_inv d" "snd (eachJoined (\<lambda>i. PgFinalize (ef i) i) j is d) = None"
  shows "j = None \<and> (\<forall>i \<in> set is. pgStatusIs ReservationSettled i (fst (eachJoined (\<lambda>i. PgFinalize (ef i) i) j is d)))"
  by (rule eachJoined_done [where g = ef and h = LFinalize, OF _ _ _ assms])
     (simp_all add: PgFinalize_settles)

lemma refundEach_done:
  assumes "pg_inv d" "snd (eachJoined (\<lambda>i. PgRefund (er i) i) j is d) = None"
  shows "j = None \<and> (\<forall>i \<in> set is. pgStatusIs ReservationRefunded i (fst (eachJoined (\<lambda>i. PgRefund (er i) i) j is d)))"
  by (rule eachJoined_done [where g = er and h = LRefund, OF _ _ _ assms])
     (simp_all add: PgRefund_refunds)

text \<open>What the listing transaction returns.\<close>

definition inStatus :: "reservation_status \<Rightarrow> (gotime \<Rightarrow> bool) \<Rightarrow> string \<Rightarrow> pg_db \<Rightarrow> bool" where
  "inStatus st old i d \<longleftrightarrow> (\<exists>r. map_of (db_reservations d) i = Some r \<and> br_Status r = st \<and> old (br_UpdatedAt r))"

lemma listed:
  assumes "pg_inv d"
  shows "(\<exists>j r. (j, r) \<in> set (db_reservations d) \<and> br_Status r = st \<and> old (br_UpdatedAt r) \<and>
            i = br_ReservationID r) \<longleftrightarrow> inStatus st old i d"
proof -
  have "br_ReservationID r = i \<longleftrightarrow> j = i" if "(j, r) \<in> set (db_reservations d)" for j r
    using that assms pg_row_facts(1) [OF assms, of j r] by (simp add: mget_set pg_inv_def)
  moreover have "map_of (db_reservations d) i = Some r \<longleftrightarrow> (i, r) \<in> set (db_reservations d)" for r
    using assms by (simp add: mget_set pg_inv_def)
  ultimately show ?thesis by (force simp: inStatus_def)
qed

lemma in_sorted_ids:
  "i \<in> set (map br_ReservationID (sort_key k (filter P (map snd m)))) \<longleftrightarrow>
     (\<exists>j r. (j, r) \<in> set m \<and> P r \<and> i = br_ReservationID r)"
  by force

lemma recoverList_ok:
  assumes "pg_inv d" "runTx e (recoverList e) d = (d0, Inr (ids, stale, flight))"
  shows "d0 = d" "i \<in> set ids \<longleftrightarrow> inStatus ReservationConsumedUnsettled (\<lambda>_. True) i d"
    "i \<in> set stale \<longleftrightarrow> inStatus ReservationReserved (\<lambda>t. t < e_now e - staleReservedAfter) i d"
    "i \<in> set flight \<longleftrightarrow> inStatus ReservationInFlight (\<lambda>t. t < e_now e - staleInFlightAfter) i d"
proof -
  have "recoverList e d = TxCommit (ids, stale, flight) d0"
    using runTx_ok [of e "recoverList e" d "(ids, stale, flight)"] assms(2)
    by (auto simp: recoverList_def txDo_return_ok)
  then have eqs: "d0 = d"
    "ids = map br_ReservationID (sort_key (\<lambda>r. (nullsLast (br_ConsumedAt r), br_ReservationID r))
       (filter (\<lambda>r. br_Status r = ReservationConsumedUnsettled) (map snd (db_reservations d))))"
    "stale = map br_ReservationID (sort_key (\<lambda>r. (br_UpdatedAt r, br_ReservationID r))
       (filter (\<lambda>r. br_Status r = ReservationReserved \<and> br_UpdatedAt r < e_now e - staleReservedAfter)
         (map snd (db_reservations d))))"
    "flight = map br_ReservationID (sort_key (\<lambda>r. (br_UpdatedAt r, br_ReservationID r))
       (filter (\<lambda>r. br_Status r = ReservationInFlight \<and> br_UpdatedAt r < e_now e - staleInFlightAfter)
         (map snd (db_reservations d))))"
    by (auto simp: recoverList_def txDo_commit ListConsumedUnsettledReservations_def
        ListStaleReservedReservations_def ListStaleInFlightReservations_def)
  then show "d0 = d" by simp
  show "i \<in> set ids \<longleftrightarrow> inStatus ReservationConsumedUnsettled (\<lambda>_. True) i d"
    unfolding eqs in_sorted_ids listed [OF assms(1), symmetric] by simp
  show "i \<in> set stale \<longleftrightarrow> inStatus ReservationReserved (\<lambda>t. t < e_now e - staleReservedAfter) i d"
    unfolding eqs in_sorted_ids listed [OF assms(1), symmetric] by simp
  show "i \<in> set flight \<longleftrightarrow> inStatus ReservationInFlight (\<lambda>t. t < e_now e - staleInFlightAfter) i d"
    unfolding eqs in_sorted_ids listed [OF assms(1), symmetric] by simp
qed

lemma recoverList_error:
  "runTx e (recoverList e) d = (d0, Inl err) \<Longrightarrow> d0 = d \<or> pg_abs d0 = pg_abs d"
  "runTx e (recoverList e) d = (d0, Inl err) \<Longrightarrow> err \<noteq> ErrAmbiguousReservations"
  by (auto simp: runTx_def recoverList_def txDo_def stmt_def ListConsumedUnsettledReservations_def
      ListStaleReservedReservations_def ListStaleInFlightReservations_def
      split: if_splits commit_outcome.splits)

section \<open>Properties\<close>

text \<open>C6. The production ledger refines the abstract one under failure: whatever statements fail and
  whether a reported commit failure took effect or not, a call leaves the ledger as it was or
  performs exactly the operation's abstract step, and when it reports success the operation's
  postcondition holds. So over any sequence of calls each user's balance plus what their open
  reservations hold plus what their settled ones cost is unchanged, and nothing is oversold.\<close>

theorem pg_refines:
  assumes "pg_reach d"
  shows "(pg_abs (fst (pgExec e op d)) = pg_abs d \<or>
            astep op (pg_abs d) = Some (pg_abs (fst (pgExec e op d)))) \<and>
         (snd (pgExec e op d) = Inr True \<longrightarrow> apost op (pg_abs (fst (pgExec e op d)))) \<and>
         worth u (pg_abs (pgRun xs d)) = worth u (pg_abs d) \<and>
         (solvent (pg_abs d) \<longrightarrow> solvent (pg_abs (pgRun xs d)))"
  using pg_reach_inv [OF assms] pg.exec_step pg.exec_post pg.run_worth pg.run_solvent
  by (simp add: pgRun_run)

text \<open>C9. A consumption that was recorded in the database is final: whatever calls and failures follow,
  the reservation stays consumed or settled at the recorded cost, and once it is settled no call
  changes its status, cost or amount again.\<close>

theorem pg_consumed_final:
  assumes "pg_reach d" "snd (PgRecordConsumption e c d) = Inr ()"
  shows "\<exists>r. map_of (db_reservations (pgRun xs (fst (PgRecordConsumption e c d)))) (c_ReservationID c) = Some r \<and>
           br_Cost r = c_Cost c \<and>
           (br_Status r = ReservationConsumedUnsettled \<or> br_Status r = ReservationSettled) \<and>
           (br_Status r = ReservationSettled \<longrightarrow>
             (\<forall>ys. \<exists>r'. map_of (db_reservations (pgRun (xs @ ys) (fst (PgRecordConsumption e c d)))) (c_ReservationID c)
                 = Some r' \<and> br_Status r' = ReservationSettled \<and> br_Cost r' = br_Cost r \<and> br_Amount r' = br_Amount r))"
proof -
  let ?d = "fst (pgExec e (LRecordConsumption c) d)"
  have inv: "pg_inv d" by (rule pg_reach_inv [OF assms(1)])
  have inv': "pg_inv (pg.run xs ?d)" by (rule pg.run_inv [OF pg.exec_inv [OF inv]])
  obtain a where a: "map_of (al_res (pg_abs (pg.run xs ?d))) (c_ReservationID c) = Some a" "ar_cost a = c_Cost c"
    "ar_status a = ReservationConsumedUnsettled \<or> ar_status a = ReservationSettled"
    using pg.consumed_stays [OF inv, of e c xs] assms(2) by auto
  then obtain r where r: "map_of (db_reservations (pg.run xs ?d)) (c_ReservationID c) = Some r" "a = pg_ares r"
    by auto
  have "\<exists>r'. map_of (db_reservations (pg.run (xs @ ys) ?d)) (c_ReservationID c) = Some r' \<and>
      br_Status r' = ReservationSettled \<and> br_Cost r' = br_Cost r \<and> br_Amount r' = br_Amount r"
    if "br_Status r = ReservationSettled" for ys
    using pg.settled_stays [OF inv' a(1), of ys] r that
    by (auto simp: pg_ares_def pg.run_append)
  then show ?thesis using r a by (auto simp: pg_ares_def pgRun_run)
qed

text \<open>C7. Settlement is exactly once under failure: after any number of failed or unknown attempts to
  finalise a consumed reservation, one attempt in which nothing fails succeeds, provided the owner's
  balance has room. Then the owner has been paid the amount minus the cost once and nobody else
  anything, the ledger holds one settle entry, the usage log one row, and replays change nothing.\<close>

theorem PgFinalize_exactly_once:
  assumes "pg_reach d" "map_of (db_reservations d) i = Some r"
    and "br_Status r = ReservationConsumedUnsettled"
    and "payable d (br_UserID r) (br_Amount r - br_Cost r)" "healthy e"
    and "PgFinalize e i (finalizeAttempts es i d) = (d', res)"
  shows "res = Inr () \<and>
         (\<forall>u. pg_balance d' u = pg_balance d u + (if u = br_UserID r then br_Amount r - br_Cost r else 0)) \<and>
         trail d' i = [(ledgerKindReserve, - br_Amount r), (ledgerKindSettle, br_Amount r - br_Cost r)] \<and>
         (\<exists>t. usageOf d' i = [usageRow r t]) \<and>
         finalizeAttempts es' i d' = d'"
proof -
  have inv: "pg_inv d" by (rule pg_reach_inv [OF assms(1)])
  note row = pg_row_facts [OF inv assms(2)]
  have "\<exists>e x. map_of (db_users d) (br_UserID r) = Some x \<and> res = Inr () \<and>
      d' = payDb e r x ledgerKindSettle (br_Amount r - br_Cost r) [usageRow r (consumedTime e r)] (settledRow e r) d"
    using finalizeAttempts_once [OF inv assms(2,3), of es]
  proof
    assume "finalizeAttempts es i d = d"
    then show ?thesis
      using PgFinalize_healthy [OF inv assms(2,5,3,4)] assms(6) by auto
  next
    assume "\<exists>e x. map_of (db_users d) (br_UserID r) = Some x \<and>
        finalizeAttempts es i d = payDb e r x ledgerKindSettle (br_Amount r - br_Cost r)
          [usageRow r (consumedTime e r)] (settledRow e r) d"
    then obtain e' x where x: "map_of (db_users d) (br_UserID r) = Some x"
      and d1: "finalizeAttempts es i d = payDb e' r x ledgerKindSettle (br_Amount r - br_Cost r)
          [usageRow r (consumedTime e' r)] (settledRow e' r) d" by blast
    have "PgFinalize e i (finalizeAttempts es i d) = (finalizeAttempts es i d, Inr ())"
      using row by (intro PgFinalize_replay [of _ _ "settledRow e' r"])
         (simp_all add: d1 payDb_def settledRow_def assms(5))
    then have "res = Inr ()" "d' = payDb e' r x ledgerKindSettle (br_Amount r - br_Cost r)
          [usageRow r (consumedTime e' r)] (settledRow e' r) d"
      using assms(6) d1 by simp_all
    then show ?thesis using x by blast
  qed
  then obtain e0 x where x: "map_of (db_users d) (br_UserID r) = Some x" and res: "res = Inr ()"
    and d': "d' = payDb e0 r x ledgerKindSettle (br_Amount r - br_Cost r)
        [usageRow r (consumedTime e0 r)] (settledRow e0 r) d" by blast
  have settled: "map_of (db_reservations d') i = Some (settledRow e0 r)" "br_Status (settledRow e0 r) = ReservationSettled"
    using row by (simp_all add: d' payDb_def settledRow_def)
  have "trail d i = [(ledgerKindReserve, - br_Amount r)]" "usageOf d i = []"
    using pg_inv_row [OF inv assms(2)] assms(3) by (simp_all add: expectedTrail_def usage_ok_def)
  then have "trail d' i = [(ledgerKindReserve, - br_Amount r), (ledgerKindSettle, br_Amount r - br_Cost r)]"
    "usageOf d' i = [usageRow r (consumedTime e0 r)]"
    using row by (simp_all add: d' payDb_def trail_def usageOf_def ledgerEntry_def usageRow_def)
  moreover have "pg_balance d' u = pg_balance d u + (if u = br_UserID r then br_Amount r - br_Cost r else 0)" for u
    using x by (simp add: d' payDb_def pg_balance_def paidUser_def)
  ultimately show ?thesis using res finalizeAttempts_settled [OF settled] by auto
qed

text \<open>C8. The books reconcile at every moment: the only-append ledger's entries of a user add up to
  minus what their open reservations hold and their settled ones cost; each reservation has exactly
  the entries that its status calls for; and the usage log has one row, with the settled cost, for a
  settled reservation and none for any other.\<close>

theorem pg_books_reconcile:
  assumes "pg_reach d"
  shows "ledgerSum u d = - (msum (held u) (al_res (pg_abs d)) + msum (charged u) (al_res (pg_abs d))) \<and>
         (\<forall>i r. map_of (db_reservations d) i = Some r \<longrightarrow> trail d i = expectedTrail r \<and>
            map ul_Cost (usageOf d i) = (if br_Status r = ReservationSettled then [br_Cost r] else []))"
proof -
  have inv: "pg_inv d" by (rule pg_reach_inv [OF assms])
  have "map ul_Cost (usageOf d i) = (if br_Status r = ReservationSettled then [br_Cost r] else [])"
    if "map_of (db_reservations d) i = Some r" for i r
    using pg_inv_row(3) [OF inv that] by (auto simp: usage_ok_def usageRow_def split: if_splits)
  then show ?thesis using ledgerSum_held_charged [OF inv] pg_inv_row(2) [OF inv] by simp
qed

text \<open>Recovery is honest: it never changes what a user is worth, and if it reports no error, or
  only the presence of attempts with unknown outcome, then every reservation that was consumed is
  settled and every stale reserved one is refunded; the report names unknown attempts exactly when
  an in-flight reservation is older than a day.\<close>

theorem PgRecover_honest:
  assumes "pg_reach d" "PgRecover e ef er d = (d', q)"
  shows "worth u (pg_abs d') = worth u (pg_abs d) \<and>
     (q = None \<or> q = Some ErrAmbiguousReservations \<longrightarrow>
       (\<forall>i. inStatus ReservationConsumedUnsettled (\<lambda>_. True) i d \<longrightarrow> pgStatusIs ReservationSettled i d') \<and>
       (\<forall>i. inStatus ReservationReserved (\<lambda>t. t < e_now e - staleReservedAfter) i d \<longrightarrow>
            pgStatusIs ReservationRefunded i d') \<and>
       (q = None \<longleftrightarrow> (\<forall>i. \<not> inStatus ReservationInFlight (\<lambda>t. t < e_now e - staleInFlightAfter) i d)))"
proof -
  have inv: "pg_inv d" by (rule pg_reach_inv [OF assms(1)])
  show ?thesis
  proof (cases "runTx e (recoverList e) d")
    case (Pair d0 res)
    show ?thesis
    proof (cases res)
      case (Inl err)
      then show ?thesis
        using assms(2) Pair recoverList_error [of e d d0 err] by (auto simp: PgRecover_def)
    next
      case (Inr lists)
      obtain ids stale flight where l: "lists = (ids, stale, flight)" by (cases lists)
      note run = recoverList_ok [OF inv Pair [unfolded Inr l]]
      let ?f = "\<lambda>i. PgFinalize (ef i) i" and ?g = "\<lambda>i. PgRefund (er i) i"
      obtain d1 j1 where e1: "eachJoined ?f None ids d = (d1, j1)" by fastforce
      obtain d2 j2 where e2: "eachJoined ?g j1 stale d1 = (d2, j2)" by fastforce
      obtain xs ys where xs: "d1 = pgRun xs d" and ys: "d2 = pgRun ys d1"
        using finalizeEach_run [of ef None ids d] refundEach_run [of er j1 stale d1] e1 e2 by auto
      have inv1: "pg_inv d1" by (simp add: xs pgRun_inv inv)
      have res: "d' = d2" "q = (if j2 \<noteq> None then j2 else if length flight > 0 then Some ErrAmbiguousReservations else None)"
        using assms(2) run(1) by (auto simp: PgRecover_def Pair Inr l e1 e2)
      have joined: "j2 \<noteq> Some ErrAmbiguousReservations"
        using eachJoined_joined [of ?f None ids d] eachJoined_joined [of ?g j1 stale d1] e1 e2
        by (cases j2; cases j1) auto
      have finished: "j1 = None" "\<forall>i \<in> set stale. pgStatusIs ReservationRefunded i d2"
        "\<forall>i \<in> set ids. pgStatusIs ReservationSettled i d1" if "j2 = None"
      proof -
        show "j1 = None" "\<forall>i \<in> set stale. pgStatusIs ReservationRefunded i d2"
          using refundEach_done [OF inv1, of er j1 stale] e2 that by simp_all
        then show "\<forall>i \<in> set ids. pgStatusIs ReservationSettled i d1"
          using finalizeEach_done [OF inv, of ef None ids] e1 by simp
      qed
      have "pgStatusIs ReservationSettled i d2" if "j2 = None" "i \<in> set ids" for i
        using finished(3) [OF that(1)] that(2) pgStatusIs_run [OF inv1] ys by blast
      moreover have "worth u (pg_abs d2) = worth u (pg_abs d)"
        using pg.run_worth [OF inv, of u xs] pg.run_worth [OF inv1, of u ys] by (simp add: xs ys pgRun_run)
      moreover have "flight = [] \<longleftrightarrow> (\<forall>i. i \<notin> set flight)" by auto
      ultimately show ?thesis
        using res joined finished(2) by (auto simp: run(2-4) split: if_splits)
    qed
  qed
qed

section \<open>Witnesses\<close>

definition goodEnv :: pg_env where
  "goodEnv = \<lparr>e_fail = (\<lambda>_. False), e_commit = CommitOk, e_now = 50, e_dbnow = 51\<rparr>"

definition lossyEnv :: pg_env where
  "lossyEnv = \<lparr>e_fail = (\<lambda>_. False), e_commit = CommitUnknown, e_now = 52, e_dbnow = 53\<rparr>"

definition exampleUser :: pg_user where
  "exampleUser = \<lparr>pu_Balance = 100, pu_BalanceVersion = 0, pu_Enabled = True, pu_UpdatedAt = 1\<rparr>"

definition exampleDb0 :: pg_db where
  "exampleDb0 = \<lparr>db_users = [(''ann'', exampleUser)], db_reservations = [], db_ledger = [], db_usage = []\<rparr>"

definition exampleDbFlight :: pg_db where
  "exampleDbFlight = pgRun [(goodEnv, LReserve exampleReservation),
     (goodEnv, LMarkInFlight ''res_1'' ''ch'')] exampleDb0"

definition exampleDb :: pg_db where
  "exampleDb = fst (PgRecordConsumption goodEnv exampleConsumption exampleDbFlight)"

lemma exampleDb0_reach: "pg_reach exampleDb0"
  unfolding exampleDb0_def by (rule pg_reach.new) (simp_all add: exampleUser_def go_int)

lemma exampleDbFlight_reach: "pg_reach exampleDbFlight"
  using pg_reach.exec [OF pg_reach.exec [OF exampleDb0_reach]]
  by (simp add: exampleDbFlight_def del: pgExec.simps)

lemma exampleDb_reach: "pg_reach exampleDb"
  using pg_reach.exec [OF exampleDbFlight_reach, of goodEnv "LRecordConsumption exampleConsumption"]
  by (simp add: exampleDb_def)

named_theorems example_db "evaluation of the example database"

lemmas example_db_defs [example_db] =
  exampleDb0_def exampleUser_def goodEnv_def exampleReservation_def exampleConsumption_def
  zeroConsumption_def runTx_def txDo_def stmt_def newRow_def mhas_def go_int operationID_def
  normalizedTime_def is_zero_time_def i32_def

lemma exampleDbFlight_eq:
  "db_reservations exampleDbFlight = [(''res_1'',
     \<lparr>br_ReservationID = ''res_1'', br_TraceID = ''t'', br_UserID = ''ann'', br_KeyID = ''k1'',
      br_Model = ''gpt'', br_Amount = 40, br_MaxInputTokens = 10, br_MaxOutputTokens = 10,
      br_Status = ReservationInFlight, br_Channel = ''ch'', br_InputTokens = 0, br_OutputTokens = 0,
      br_CacheCreationInputTokens = 0, br_CacheReadInputTokens = 0, br_ReportedTotalTokens = 0,
      br_Cost = 0, br_UsageComplete = False, br_Estimated = False, br_CreatedAt = 1,
      br_ConsumedAt = None, br_SettledAt = None, br_RefundedAt = None, br_UpdatedAt = 50\<rparr>)]"
  "db_users exampleDbFlight = [(''ann'', \<lparr>pu_Balance = 60, pu_BalanceVersion = 1, pu_Enabled = True, pu_UpdatedAt = 51\<rparr>)]"
  by (simp_all add: exampleDbFlight_def PgReserve_def reservationTokenLimits_def reserveBody_def
      InsertBillingReservation_def DebitBalanceForReservation_def InsertBillingLedgerEntry_def
      PgMarkInFlight_def GetBillingReservationForUpdate_def MarkBillingReservationInFlight_def
      updateRow_def unitBool_def example_db)

lemma exampleDb_eq:
  "snd (PgRecordConsumption goodEnv exampleConsumption exampleDbFlight) = Inr ()"
  "\<exists>r. map_of (db_reservations exampleDb) ''res_1'' = Some r \<and> br_Status r = ReservationConsumedUnsettled \<and>
      br_Amount r = 40 \<and> br_Cost r = 25 \<and> br_UserID r = ''ann''"
  "db_users exampleDb = [(''ann'', \<lparr>pu_Balance = 60, pu_BalanceVersion = 1, pu_Enabled = True, pu_UpdatedAt = 51\<rparr>)]"
  by (simp_all add: exampleDb_def PgRecordConsumption_def consumptionParams_def
      GetBillingReservationForUpdate_def RecordBillingConsumption_def updateRow_def consumedRow_def
      exampleDbFlight_eq example_db)

lemma goodEnv_healthy: "healthy goodEnv"
  by (simp add: healthy_def goodEnv_def)

theorem pg_refines_witness:
  "worth ''ann'' (pg_abs (pgRun [(lossyEnv, LFinalize ''res_1'')] exampleDb)) = worth ''ann'' (pg_abs exampleDb)"
  using pg_refines [OF exampleDb_reach] by blast

theorem pg_consumed_final_witness:
  "\<exists>r. map_of (db_reservations (pgRun [(goodEnv, LRefund ''res_1'')] exampleDb)) ''res_1'' = Some r \<and> br_Cost r = 25"
  using pg_consumed_final [OF exampleDbFlight_reach exampleDb_eq(1), of "[(goodEnv, LRefund ''res_1'')]"]
  by (auto simp: exampleDb_def exampleConsumption_def)

theorem PgFinalize_exactly_once_witness:
  "pg_balance (fst (PgFinalize goodEnv ''res_1'' (finalizeAttempts [lossyEnv, lossyEnv] ''res_1'' exampleDb))) ''ann'' = 75"
proof -
  obtain r where r: "map_of (db_reservations exampleDb) ''res_1'' = Some r"
    "br_Status r = ReservationConsumedUnsettled" "br_Amount r = 40" "br_Cost r = 25" "br_UserID r = ''ann''"
    using exampleDb_eq(2) by blast
  have "payable exampleDb (br_UserID r) (br_Amount r - br_Cost r)"
    by (simp add: payable_def exampleDb_eq r go_int)
  from PgFinalize_exactly_once [OF exampleDb_reach r(1,2) this goodEnv_healthy prod.collapse [symmetric]]
  show ?thesis by (simp add: r exampleDb_eq pg_balance_def)
qed

theorem pg_books_reconcile_witness:
  "ledgerSum ''ann'' (fst (PgFinalize goodEnv ''res_1'' exampleDb)) =
     - (msum (held ''ann'') (al_res (pg_abs (fst (PgFinalize goodEnv ''res_1'' exampleDb)))) +
        msum (charged ''ann'') (al_res (pg_abs (fst (PgFinalize goodEnv ''res_1'' exampleDb)))))"
  using pg_books_reconcile [OF pg_reach.exec [OF exampleDb_reach, of goodEnv "LFinalize ''res_1''"]]
  by simp

theorem PgRecover_honest_witness:
  "worth ''ann'' (pg_abs (fst (PgRecover goodEnv (\<lambda>_. lossyEnv) (\<lambda>_. goodEnv) exampleDb))) = worth ''ann'' (pg_abs exampleDb)"
  using PgRecover_honest [OF exampleDb_reach prod.collapse [symmetric]] by blast

end
