(* ===== verification/Canonical.thy ===== *)
theory Canonical
  imports Prelude
begin

text \<open>
  The canonical data model of \<open>internal/canonical\<close>: the request and response that every wire format is
  mapped to, the stream events, the error and the token usage, which billing, the stream accounting
  and the adapters share. A count that the upstream did not report is 0 with its \<open>Known\<close> flag off.
\<close>

section \<open>Values of any type\<close>

text \<open>A Go \<open>any\<close> that came from JSON; a number keeps its text. A \<open>float64\<close> is the rational it denotes
  (JSON has no other).\<close>

datatype json = JNull | JBool bool | JNum string | JStr string | JArr "json list" | JObj "(string \<times> json) list"

type_synonym float64 = rat

section \<open>Requests\<close>

type_synonym role = string

definition RoleSystem :: role where "RoleSystem = ''system''"
definition RoleDeveloper :: role where "RoleDeveloper = ''developer''"
definition RoleUser :: role where "RoleUser = ''user''"
definition RoleAssistant :: role where "RoleAssistant = ''assistant''"

type_synonym block_type = string

definition BlockText :: block_type where "BlockText = ''text''"
definition BlockImage :: block_type where "BlockImage = ''image''"
definition BlockThinking :: block_type where "BlockThinking = ''thinking''"
definition BlockToolUse :: block_type where "BlockToolUse = ''tool_use''"
definition BlockToolResult :: block_type where "BlockToolResult = ''tool_result''"

record image_source =
  im_Type :: string
  im_URL :: string
  im_MediaType :: string
  im_Data :: string

text \<open>The content block; a nil map or raw message is \<open>None\<close>.\<close>

datatype content_block = ContentBlock
  (cb_Type: block_type)
  (cb_Text: string)
  (cb_Image: "image_source option")
  (cb_Thinking: string)
  (cb_ThinkingSignature: string)
  (cb_ToolUseID: string)
  (cb_ToolName: string)
  (cb_ToolInput: "(string, json) gomap option")
  (cb_ToolInputJSON: "string option")
  (cb_ToolResultID: string)
  (cb_ToolResult: "content_block list")
  (cb_ToolResultError: bool)
  (cb_CacheControl: bool)

record message =
  ms_Role :: role
  ms_Content :: "content_block list"

record tool =
  tl_Name :: string
  tl_Description :: string
  tl_InputSchema :: "(string, json) gomap option"

datatype tool_choice_type = ToolChoiceAuto | ToolChoiceAny | ToolChoiceNone | ToolChoiceTool

record tool_choice =
  tc_Type :: tool_choice_type
  tc_Name :: string

record request =
  rq_Model :: string
  rq_System :: "content_block list"
  rq_Messages :: "message list"
  rq_Tools :: "tool list"
  rq_ToolChoice :: "tool_choice option"
  rq_MaxTokens :: "int option"
  rq_Temperature :: "float64 option"
  rq_TopP :: "float64 option"
  rq_Stop :: "string list"
  rq_Stream :: bool
  rq_Metadata :: "(string, json) gomap option"

section \<open>Usage\<close>

record usage =
  u_InputTokens :: int
  u_OutputTokens :: int
  u_InputTokensKnown :: bool
  u_OutputTokensKnown :: bool
  u_ReportedTotalTokens :: int
  u_TotalTokensKnown :: bool
  u_CacheCreationInputTokens :: int
  u_CacheReadInputTokens :: int

definition zeroUsage :: usage where
  "zeroUsage = \<lparr>u_InputTokens = 0, u_OutputTokens = 0, u_InputTokensKnown = False,
     u_OutputTokensKnown = False, u_ReportedTotalTokens = 0, u_TotalTokensKnown = False,
     u_CacheCreationInputTokens = 0, u_CacheReadInputTokens = 0\<rparr>"

definition TotalTokens :: "usage \<Rightarrow> int" where
  "TotalTokens u = i64 (i64 (i64 (u_InputTokens u + u_CacheCreationInputTokens u)
     + u_CacheReadInputTokens u) + u_OutputTokens u)"

definition Complete :: "usage \<Rightarrow> bool" where
  "Complete u \<longleftrightarrow> u_InputTokensKnown u \<and> u_OutputTokensKnown u"


section \<open>Responses and errors\<close>

type_synonym stop_reason = string

definition StopEndTurn :: stop_reason where "StopEndTurn = ''end_turn''"
definition StopMaxTokens :: stop_reason where "StopMaxTokens = ''max_tokens''"
definition StopToolUse :: stop_reason where "StopToolUse = ''tool_use''"
definition StopStop :: stop_reason where "StopStop = ''stop''"
definition StopError :: stop_reason where "StopError = ''error''"

record response =
  rs_ID :: string
  rs_Model :: string
  rs_Role :: role
  rs_Content :: "content_block list"
  rs_StopReason :: stop_reason
  rs_Usage :: usage

record error_response =
  er_Type :: string
  er_Message :: string
  er_Param :: "json option"
  er_Code :: "json option"
  er_RequestID :: string

section \<open>Stream events\<close>

datatype event_type =
    EventMessageStart | EventBlockStart | EventBlockDelta | EventBlockStop
  | EventMessageDelta | EventMessageStop | EventPing | EventError

record delta =
  dl_Text :: string
  dl_Thinking :: string
  dl_ThinkingSignature :: string
  dl_ToolUseID :: string
  dl_ToolName :: string
  dl_PartialInputJSON :: string

record event =
  ev_Type :: event_type
  ev_BlockIndex :: int
  ev_BlockType :: block_type
  ev_Delta :: "delta option"
  ev_StopReason :: stop_reason
  ev_Usage :: "usage option"
  ev_UsageFinal :: bool
  ev_ID :: string
  ev_Model :: string
  ev_Err :: string

definition zeroEvent :: "event_type \<Rightarrow> event" where
  "zeroEvent t = \<lparr>ev_Type = t, ev_BlockIndex = 0, ev_BlockType = [], ev_Delta = None, ev_StopReason = [],
     ev_Usage = None, ev_UsageFinal = False, ev_ID = [], ev_Model = [], ev_Err = []\<rparr>"

end
