(* ===== verification/Billing.thy ===== *)
theory Billing
  imports Canonical Pricing PgLedger
begin

text \<open>
  The billing facade of \<open>internal/billing/billing.go\<close>: it prices a request, reserves the amount,
  decides what a reported usage costs and drives a ledger. The ledger is the \<open>Ledger\<close> interface, the
  argument \<open>exec\<close>; both implementations interpret the contract, and the facade's lemmas are proved
  once in its context. The calls of one \<open>Settle\<close> run in the environments \<open>be_calls 0, 1, 2\<close> (the
  attempts to record) and \<open>be_calls 3\<close> (the settlement); \<open>be_cancelled n\<close> says that the context ends
  while it waits after attempt \<open>n\<close>.
\<close>

section \<open>Token sums\<close>

fun tokenSumLoop :: "int \<Rightarrow> int list \<Rightarrow> int option" where
  "tokenSumLoop acc [] = Some acc"
| "tokenSumLoop acc (value # values) =
     (if value < 0 \<or> acc > i64 (max_int64 - value) then None
      else tokenSumLoop (i64 (acc + value)) values)"

definition checkedUsageTokenSum :: "int list \<Rightarrow> int option" where
  "checkedUsageTokenSum values = tokenSumLoop 0 values"

definition safeTokenValue :: "int \<Rightarrow> int" where
  "safeTokenValue value = (if value < 0 then 0 else value)"

section \<open>The cost of a usage\<close>

record settlement =
  st_cost :: int
  st_input :: int
  st_output :: int
  st_complete :: bool
  st_estimated :: bool

text \<open>The last part of \<open>settlementCost\<close>, with the counts that are known by then.\<close>

definition settleKnown ::
  "pricing \<Rightarrow> reservation \<Rightarrow> usage \<Rightarrow> int \<Rightarrow> int \<Rightarrow> bool \<Rightarrow> bool \<Rightarrow> settlement" where
  "settleKnown p r u input output inputKnown outputKnown =
     (let whole = \<lparr>st_cost = r_Amount r, st_input = input, st_output = output,
                   st_complete = False, st_estimated = True\<rparr> in
      if \<not> inputKnown \<or> \<not> outputKnown \<or> input < 0 \<or> output < 0 then whole
      else (case CostUsageChecked p (r_Model r) input output
                   (u_CacheCreationInputTokens u) (u_CacheReadInputTokens u) of
              Inl _ \<Rightarrow> whole
            | Inr cost \<Rightarrow> \<lparr>st_cost = cost, st_input = input, st_output = output,
                           st_complete = True, st_estimated = False\<rparr>))"

definition settlementCost :: "pricing \<Rightarrow> reservation \<Rightarrow> usage \<Rightarrow> settlement" where
  "settlementCost p r u =
     (let input = u_InputTokens u; output = u_OutputTokens u;
          inputKnown = u_InputTokensKnown u; outputKnown = u_OutputTokensKnown u;
          whole = \<lparr>st_cost = r_Amount r, st_input = input, st_output = output,
                   st_complete = False, st_estimated = True\<rparr> in
      case checkedUsageTokenSum [u_CacheCreationInputTokens u, u_CacheReadInputTokens u] of
        None \<Rightarrow> whole
      | Some cacheTotal \<Rightarrow>
          if \<not> u_TotalTokensKnown u then settleKnown p r u input output inputKnown outputKnown
          else let total = u_ReportedTotalTokens u in
            if total \<ge> 0 \<and> total < cacheTotal then whole
            else if total < 0 then whole
            else if inputKnown \<and> outputKnown then
              (case checkedUsageTokenSum [input, cacheTotal, output] of
                 None \<Rightarrow> whole
               | Some calculated \<Rightarrow>
                   if calculated \<noteq> total then whole
                   else settleKnown p r u input output inputKnown outputKnown)
            else if inputKnown then
              (case checkedUsageTokenSum [input, cacheTotal] of
                 None \<Rightarrow> whole
               | Some known \<Rightarrow>
                   if total < known then whole
                   else settleKnown p r u input (i64 (total - known)) inputKnown True)
            else if outputKnown then
              (case checkedUsageTokenSum [output, cacheTotal] of
                 None \<Rightarrow> whole
               | Some known \<Rightarrow>
                   if total < known then whole
                   else settleKnown p r u (i64 (total - known)) output True outputKnown)
            else
              (case ConservativeTotalCost p (r_Model r) total of
                 Inl _ \<Rightarrow> \<lparr>st_cost = r_Amount r, st_input = 0, st_output = 0,
                          st_complete = False, st_estimated = True\<rparr>
               | Inr cost \<Rightarrow> \<lparr>st_cost = cost, st_input = 0, st_output = 0,
                          st_complete = False, st_estimated = True\<rparr>))"

section \<open>The facade\<close>

type_synonym ('e, 's) ledger_exec = "'e \<Rightarrow> ledger_op \<Rightarrow> 's \<Rightarrow> 's \<times> bool result"

record billing =
  b_pricing :: pricing
  b_defaultReserve :: int

record reserve_request =
  rr_TraceID :: string
  rr_UserID :: string
  rr_KeyID :: string
  rr_Model :: string
  rr_MaxOutputTokens :: int

record 'e billing_env =
  be_calls :: "nat \<Rightarrow> 'e"
  be_cancelled :: "nat \<Rightarrow> bool"
  be_now :: gotime

definition BillingNew :: "pricing \<Rightarrow> int \<Rightarrow> billing" where
  "BillingNew pricing defaultReserve = \<lparr>b_pricing = pricing, b_defaultReserve = defaultReserve\<rparr>"

definition BillingNormalizeMaxOutput :: "billing \<Rightarrow> string \<Rightarrow> int option \<Rightarrow> int result" where
  "BillingNormalizeMaxOutput b model requested = NormalizeMaxOutput (b_pricing b) model requested"

definition ValidateModel :: "billing \<Rightarrow> string \<Rightarrow> goerr option" where
  "ValidateModel b model =
     (case NormalizeMaxOutput (b_pricing b) model None of
        Inl e \<Rightarrow> Some e
      | Inr maxOutput \<Rightarrow>
          (case ReservationCost (b_pricing b) model maxOutput of Inl e \<Rightarrow> Some e | Inr _ \<Rightarrow> None))"

text \<open>The identifier: \<open>res_\<close> and 16 random bytes in hexadecimal; the bytes are the argument.\<close>

definition hexDigit :: "int \<Rightarrow> char" where
  "hexDigit n = ''0123456789abcdef'' ! nat n"

fun hexEncode :: "8 word list \<Rightarrow> string" where
  "hexEncode [] = []"
| "hexEncode (b # bs) = hexDigit (uint b div 16) # hexDigit (uint b mod 16) # hexEncode bs"

definition newReservationID :: "8 word list result \<Rightarrow> string result" where
  "newReservationID rand =
     (case rand of Inl e \<Rightarrow> Inl e | Inr buf \<Rightarrow> Inr (''res_'' @ hexEncode buf))"

definition zeroReservation :: reservation where
  "zeroReservation = \<lparr>r_ID = [], r_TraceID = [], r_UserID = [], r_KeyID = [], r_Model = [],
     r_Amount = 0, r_MaxInputTokens = 0, r_MaxOutputTokens = 0, r_CreatedAt = 0\<rparr>"

definition FacadeReserve ::
  "billing \<Rightarrow> ('e, 's) ledger_exec \<Rightarrow> 'e \<Rightarrow> 8 word list result \<Rightarrow> gotime \<Rightarrow> reserve_request \<Rightarrow> 's
     \<Rightarrow> 's \<times> reservation \<times> bool result" where
  "FacadeReserve b exec e rand now req s =
     (case ReservationCost (b_pricing b) (rr_Model req) (rr_MaxOutputTokens req) of
        Inl err \<Rightarrow> (s, zeroReservation, Inl err)
      | Inr (amount0, maxInput) \<Rightarrow>
          (let amount = (if b_defaultReserve b > amount0 then b_defaultReserve b else amount0) in
           if amount \<le> 0 then (s, zeroReservation, Inl ErrInvalidTokenLimit)
           else (case newReservationID rand of
                   Inl err \<Rightarrow> (s, zeroReservation, Inl err)
                 | Inr i \<Rightarrow>
                     (let r = \<lparr>r_ID = i, r_TraceID = rr_TraceID req, r_UserID = rr_UserID req,
                               r_KeyID = rr_KeyID req, r_Model = rr_Model req, r_Amount = amount,
                               r_MaxInputTokens = maxInput,
                               r_MaxOutputTokens = rr_MaxOutputTokens req, r_CreatedAt = now\<rparr>;
                          (s', res) = exec e (LReserve r) s
                      in (s', r, res)))))"

definition finalRecordError :: "goerr \<Rightarrow> bool" where
  "finalRecordError err \<longleftrightarrow> errors_is err ErrReservationConflict \<or> errors_is err ErrInvalidTransition \<or>
     errors_is err ErrReservationExceeded"

text \<open>The three attempts; the loop leaves after the last one without waiting.\<close>

fun recordLoop ::
  "('e, 's) ledger_exec \<Rightarrow> 'e billing_env \<Rightarrow> consumption \<Rightarrow> nat list \<Rightarrow> goerr option \<Rightarrow> 's \<Rightarrow> 's \<times> goerr option"
where
  "recordLoop exec env c [] lastErr s = (s, lastErr)"
| "recordLoop exec env c (attempt # attempts) lastErr s =
     (case exec (be_calls env attempt) (LRecordConsumption c) s of
        (s', Inr _) \<Rightarrow> (s', None)
      | (s', Inl err) \<Rightarrow>
          if finalRecordError err then (s', Some err)
          else if attempt = 2 then (s', Some err)
          else if be_cancelled env attempt then (s', Some (ErrJoined [err, ErrContext]))
          else recordLoop exec env c attempts (Some err) s')"

definition recordConsumptionWithRetry ::
  "('e, 's) ledger_exec \<Rightarrow> 'e billing_env \<Rightarrow> consumption \<Rightarrow> 's \<Rightarrow> 's \<times> goerr option" where
  "recordConsumptionWithRetry exec env c s = recordLoop exec env c [0, 1, 2] None s"

definition settleConsumption :: "settlement \<Rightarrow> reservation \<Rightarrow> string \<Rightarrow> usage \<Rightarrow> gotime \<Rightarrow> consumption" where
  "settleConsumption st r channel u now =
     \<lparr>c_ReservationID = r_ID r, c_Channel = channel,
      c_InputTokens = safeTokenValue (st_input st), c_OutputTokens = safeTokenValue (st_output st),
      c_CacheCreationInputTokens = safeTokenValue (u_CacheCreationInputTokens u),
      c_CacheReadInputTokens = safeTokenValue (u_CacheReadInputTokens u),
      c_ReportedTotalTokens = safeTokenValue (u_ReportedTotalTokens u),
      c_Cost = st_cost st, c_UsageComplete = st_complete st, c_Estimated = st_estimated st,
      c_RecordedAt = now\<rparr>"

definition Settle ::
  "billing \<Rightarrow> ('e, 's) ledger_exec \<Rightarrow> 'e billing_env \<Rightarrow> reservation \<Rightarrow> string \<Rightarrow> usage \<Rightarrow> 's \<Rightarrow> 's \<times> goerr option"
where
  "Settle b exec env r channel u s =
     (let st = settlementCost (b_pricing b) r u in
      if st_cost st > r_Amount r then (s, Some ErrReservationExceeded)
      else (case recordConsumptionWithRetry exec env (settleConsumption st r channel u (be_now env)) s of
              (s', Some err) \<Rightarrow> (s', Some err)
            | (s', None) \<Rightarrow>
                (case exec (be_calls env 3) (LFinalize (r_ID r)) s' of
                   (s'', Inl err) \<Rightarrow> (s'', Some err)
                 | (s'', Inr _) \<Rightarrow> (s'', None))))"

definition BillingMarkInFlight :: "('e, 's) ledger_exec \<Rightarrow> 'e \<Rightarrow> reservation \<Rightarrow> string \<Rightarrow> 's \<Rightarrow> 's \<times> bool result" where
  "BillingMarkInFlight exec e r channel s = exec e (LMarkInFlight (r_ID r) channel) s"

definition BillingReleaseAttempt :: "('e, 's) ledger_exec \<Rightarrow> 'e \<Rightarrow> reservation \<Rightarrow> 's \<Rightarrow> 's \<times> bool result" where
  "BillingReleaseAttempt exec e r s = exec e (LReleaseAttempt (r_ID r)) s"

definition BillingRefund :: "('e, 's) ledger_exec \<Rightarrow> 'e \<Rightarrow> reservation \<Rightarrow> 's \<Rightarrow> 's \<times> bool result" where
  "BillingRefund exec e r s = exec e (LRefund (r_ID r)) s"

section \<open>Pricing lemmas\<close>

lemma tokenSumLoop_ok:
  assumes "0 \<le> acc" "acc \<le> max_int64" "\<And>v. v \<in> set vs \<Longrightarrow> v \<le> max_int64"
  shows "tokenSumLoop acc vs = Some t \<longleftrightarrow>
     (\<forall>v \<in> set vs. 0 \<le> v) \<and> t = acc + sum_list vs \<and> t \<le> max_int64"
  using assms
proof (induction vs arbitrary: acc)
  case (Cons v vs)
  have vmax: "v \<le> max_int64" using Cons.prems(3) by simp
  show ?case
  proof (cases "0 \<le> v \<and> acc + v \<le> max_int64")
    case True
    have e1: "i64 (max_int64 - v) = max_int64 - v"
      using True Cons.prems by (intro i64_id) (simp add: go_int)
    have e2: "i64 (acc + v) = acc + v"
      using True Cons.prems by (intro i64_id) (simp add: go_int)
    show ?thesis using Cons.IH [of "acc + v"] Cons.prems True by (auto simp: e1 e2)
  next
    case False
    have "v < 0 \<or> acc > i64 (max_int64 - v)"
    proof (cases "v < 0")
      case F: False
      then have "i64 (max_int64 - v) = max_int64 - v"
        using vmax by (intro i64_id) (simp add: go_int)
      then show ?thesis using False F by simp
    qed simp
    moreover have "\<not> (acc + (v + sum_list vs) \<le> max_int64 \<and> 0 \<le> v \<and> (\<forall>x\<in>set vs. 0 \<le> x))"
    proof
      assume all: "acc + (v + sum_list vs) \<le> max_int64 \<and> 0 \<le> v \<and> (\<forall>x\<in>set vs. 0 \<le> x)"
      then have "0 \<le> sum_list vs" by (intro sum_list_nonneg) auto
      then show False using False all by linarith
    qed
    ultimately show ?thesis by auto
  qed
qed auto

lemma checkedUsageTokenSum_ok:
  assumes "list_all (\<lambda>v. v \<le> max_int64) vs"
  shows "checkedUsageTokenSum vs = Some t \<longleftrightarrow> (\<forall>v \<in> set vs. 0 \<le> v) \<and> t = sum_list vs \<and> t \<le> max_int64"
  using tokenSumLoop_ok [of 0 vs t] assms by (simp add: checkedUsageTokenSum_def go_int list_all_iff)

text \<open>The counts are Go integers.\<close>

definition usage_go :: "usage \<Rightarrow> bool" where
  "usage_go u \<longleftrightarrow> in_i64 (u_InputTokens u) \<and> in_i64 (u_OutputTokens u) \<and> in_i64 (u_ReportedTotalTokens u) \<and>
     in_i64 (u_CacheCreationInputTokens u) \<and> in_i64 (u_CacheReadInputTokens u)"

text \<open>What the upstream reported agrees with the tokens really used: \<open>i\<close> ordinary input, \<open>out\<close> output,
  \<open>cc\<close> and \<open>cr\<close> cache tokens.\<close>

definition reports :: "usage \<Rightarrow> int \<Rightarrow> int \<Rightarrow> int \<Rightarrow> int \<Rightarrow> bool" where
  "reports u i out cc cr \<longleftrightarrow> 0 \<le> i \<and> 0 \<le> out \<and> 0 \<le> cc \<and> 0 \<le> cr \<and>
     u_CacheCreationInputTokens u = cc \<and> u_CacheReadInputTokens u = cr \<and>
     (u_InputTokensKnown u \<longrightarrow> u_InputTokens u = i) \<and> (u_OutputTokensKnown u \<longrightarrow> u_OutputTokens u = out) \<and>
     (u_TotalTokensKnown u \<longrightarrow> u_ReportedTotalTokens u = i + out + cc + cr)"

lemma settleKnown_cases:
  "settleKnown p r u input output ik ok =
     \<lparr>st_cost = r_Amount r, st_input = input, st_output = output, st_complete = False, st_estimated = True\<rparr> \<or>
   (ik \<and> ok \<and> 0 \<le> input \<and> 0 \<le> output \<and> (\<exists>c. CostUsageChecked p (r_Model r) input output
        (u_CacheCreationInputTokens u) (u_CacheReadInputTokens u) = Inr c \<and>
      settleKnown p r u input output ik ok =
        \<lparr>st_cost = c, st_input = input, st_output = output, st_complete = True, st_estimated = False\<rparr>))"
  by (auto simp: settleKnown_def Let_def split: sum.splits)

text \<open>Three outcomes: the whole reservation, the exact price of known counts, or the upper bound of a
  total that came alone.\<close>

lemma settlementCost_cases:
  assumes "usage_go u"
  shows "(st_cost (settlementCost p r u) = r_Amount r \<and> \<not> st_complete (settlementCost p r u) \<and>
            st_estimated (settlementCost p r u)) \<or>
     (\<exists>i out c. CostUsageChecked p (r_Model r) i out (u_CacheCreationInputTokens u) (u_CacheReadInputTokens u) = Inr c \<and>
        settlementCost p r u = \<lparr>st_cost = c, st_input = i, st_output = out, st_complete = True, st_estimated = False\<rparr> \<and>
        0 \<le> i \<and> 0 \<le> out \<and>
        (u_InputTokensKnown u \<or> u_OutputTokensKnown u) \<and>
        (u_InputTokensKnown u \<longrightarrow> i = u_InputTokens u) \<and> (u_OutputTokensKnown u \<longrightarrow> out = u_OutputTokens u) \<and>
        (u_TotalTokensKnown u \<longrightarrow> u_ReportedTotalTokens u =
            i + out + u_CacheCreationInputTokens u + u_CacheReadInputTokens u) \<and>
        (\<not> u_TotalTokensKnown u \<longrightarrow> u_InputTokensKnown u \<and> u_OutputTokensKnown u)) \<or>
     (u_TotalTokensKnown u \<and> \<not> u_InputTokensKnown u \<and> \<not> u_OutputTokensKnown u \<and>
      (\<exists>c. ConservativeTotalCost p (r_Model r) (u_ReportedTotalTokens u) = Inr c \<and>
        settlementCost p r u = \<lparr>st_cost = c, st_input = 0, st_output = 0, st_complete = False, st_estimated = True\<rparr>))"
proof -
  let ?cc = "u_CacheCreationInputTokens u" and ?cr = "u_CacheReadInputTokens u"
  let ?i = "u_InputTokens u" and ?o = "u_OutputTokens u" and ?t = "u_ReportedTotalTokens u"
  have le: "?cc \<le> max_int64" "?cr \<le> max_int64" "?i \<le> max_int64" "?o \<le> max_int64" "?t \<le> max_int64"
    using assms by (auto simp: usage_go_def go_int)
  show ?thesis
  proof (cases "checkedUsageTokenSum [?cc, ?cr]")
    case None
    then show ?thesis by (simp add: settlementCost_def Let_def)
  next
    case (Some ct)
    have ct: "0 \<le> ?cc" "0 \<le> ?cr" "ct = ?cc + ?cr" "ct \<le> max_int64"
      using Some checkedUsageTokenSum_ok [of "[?cc, ?cr]" ct] le by auto
    have sub: "i64 (?t - known) = ?t - known" if "0 \<le> known" "known \<le> ?t" for known
      using that le by (intro i64_id) (simp add: go_int)
    show ?thesis
    proof (cases "u_TotalTokensKnown u \<and> 0 \<le> ?t \<and> ct \<le> ?t")
      case False
      then show ?thesis
        using Some settleKnown_cases [of p r u ?i ?o "u_InputTokensKnown u" "u_OutputTokensKnown u"]
        by (auto simp: settlementCost_def Let_def)
    next
      case T: True
      consider (both) "u_InputTokensKnown u" "u_OutputTokensKnown u"
        | (inp) "u_InputTokensKnown u" "\<not> u_OutputTokensKnown u"
        | (outp) "\<not> u_InputTokensKnown u" "u_OutputTokensKnown u"
        | (none) "\<not> u_InputTokensKnown u" "\<not> u_OutputTokensKnown u" by blast
      then show ?thesis
      proof cases
        case both
        show ?thesis
        proof (cases "checkedUsageTokenSum [?i, ct, ?o]")
          case None
          then show ?thesis using Some T both by (simp add: settlementCost_def Let_def)
        next
          case (Some k)
          have k: "0 \<le> ?i" "0 \<le> ?o" "k = ?i + ct + ?o"
            using Some checkedUsageTokenSum_ok [of "[?i, ct, ?o]" k] le ct by auto
          show ?thesis
            using \<open>checkedUsageTokenSum [?cc, ?cr] = Some ct\<close> Some T both ct k
              settleKnown_cases [of p r u ?i ?o True True]
            by (auto simp: settlementCost_def Let_def)
        qed
      next
        case inp
        show ?thesis
        proof (cases "checkedUsageTokenSum [?i, ct]")
          case None
          then show ?thesis using Some T inp by (simp add: settlementCost_def Let_def)
        next
          case (Some k)
          have k: "0 \<le> ?i" "k = ?i + ct"
            using Some checkedUsageTokenSum_ok [of "[?i, ct]" k] le ct by auto
          show ?thesis
            using \<open>checkedUsageTokenSum [?cc, ?cr] = Some ct\<close> Some T inp ct k sub [of k]
              settleKnown_cases [of p r u ?i "?t - k" True True]
            by (auto simp: settlementCost_def Let_def)
        qed
      next
        case outp
        show ?thesis
        proof (cases "checkedUsageTokenSum [?o, ct]")
          case None
          then show ?thesis using Some T outp by (simp add: settlementCost_def Let_def)
        next
          case (Some k)
          have k: "0 \<le> ?o" "k = ?o + ct"
            using Some checkedUsageTokenSum_ok [of "[?o, ct]" k] le ct by auto
          show ?thesis
            using \<open>checkedUsageTokenSum [?cc, ?cr] = Some ct\<close> Some T outp ct k sub [of k]
              settleKnown_cases [of p r u "?t - k" ?o True True]
            by (auto simp: settlementCost_def Let_def)
        qed
      next
        case none
        then show ?thesis using Some T
          by (cases "ConservativeTotalCost p (r_Model r) ?t") (auto simp: settlementCost_def Let_def)
      qed
    qed
  qed
qed

section \<open>Settling over a ledger that keeps the contract\<close>

lemma settleConsumption_simps [simp]:
  "c_ReservationID (settleConsumption st r channel u now) = r_ID r"
  "c_Cost (settleConsumption st r channel u now) = st_cost st"
  by (simp_all add: settleConsumption_def)

text \<open>A reservation that an attempt has been sent for: it can no longer be refunded.\<close>

definition sent :: "string \<Rightarrow> aledger \<Rightarrow> bool" where
  "sent i L \<longleftrightarrow> (\<exists>a. map_of (al_res L) i = Some a \<and>
     (ar_status a = ReservationInFlight \<or> ar_status a = ReservationConsumedUnsettled \<or>
      ar_status a = ReservationSettled))"

lemma astep_sent:
  assumes "astep op L = Some L'" "sent i L"
    and "(\<exists>c. op = LRecordConsumption c) \<or> (\<exists>j. op = LFinalize j) \<or> (\<exists>j. op = LRefund j)"
  shows "sent i L'"
  using assms by (auto simp: sent_def ledger_step split: option.splits if_splits)

text \<open>The facade also relies on the error-only operations having no other answer than nil.\<close>

locale settling_ledger = ledger_contract exec abs inv
  for exec :: "'e \<Rightarrow> ledger_op \<Rightarrow> 's \<Rightarrow> 's \<times> bool result" and abs inv +
  assumes answers_nil: "(\<forall>r. op \<noteq> LReserve r) \<Longrightarrow> exec e op s = (s', Inr x) \<Longrightarrow> x"
begin

lemma exec_sent:
  assumes "inv s" "sent i (abs s)"
    and "(\<exists>c. op = LRecordConsumption c) \<or> (\<exists>j. op = LFinalize j) \<or> (\<exists>j. op = LRefund j)"
  shows "sent i (abs (fst (exec e op s)))"
  using exec_step [OF assms(1), of e op] astep_sent [OF _ assms(2,3)] assms(2) by auto

lemma refund_rejected:
  assumes "inv s" "sent i (abs s)"
  shows "snd (exec e (LRefund i) s) \<noteq> Inr True"
proof
  assume "snd (exec e (LRefund i) s) = Inr True"
  then have "apost (LRefund i) (abs (fst (exec e (LRefund i) s)))" by (rule exec_post [OF assms(1)])
  moreover have "sent i (abs (fst (exec e (LRefund i) s)))" using assms by (intro exec_sent) auto
  ultimately show False by (auto simp: sent_def)
qed

text \<open>The recording loop keeps the invariant and the worth of every user, and a nil result means
  that the consumption is recorded.\<close>

lemma recordLoop_keeps:
  "inv s \<Longrightarrow> inv (fst (recordLoop exec env c attempts lastErr s)) \<and>
     worth u (abs (fst (recordLoop exec env c attempts lastErr s))) = worth u (abs s) \<and>
     (sent i (abs s) \<longrightarrow> sent i (abs (fst (recordLoop exec env c attempts lastErr s))))"
proof (induction attempts arbitrary: s lastErr)
  case (Cons n ns)
  obtain s' res where r: "exec (be_calls env n) (LRecordConsumption c) s = (s', res)" by fastforce
  have "inv s'" "worth u (abs s') = worth u (abs s)" "sent i (abs s) \<longrightarrow> sent i (abs s')"
    using exec_inv [OF Cons.prems] exec_worth [OF Cons.prems] exec_sent [OF Cons.prems] r
    by (metis fst_conv)+
  then show ?case using Cons.IH [of s'] by (auto simp: r split: sum.splits)
qed simp

lemma recordLoop_recorded:
  "inv s \<Longrightarrow> lastErr \<noteq> None \<or> attempts \<noteq> [] \<Longrightarrow>
     snd (recordLoop exec env c attempts lastErr s) = None \<Longrightarrow>
     apost (LRecordConsumption c) (abs (fst (recordLoop exec env c attempts lastErr s)))"
proof (induction attempts arbitrary: s lastErr)
  case (Cons n ns)
  obtain s' res where r: "exec (be_calls env n) (LRecordConsumption c) s = (s', res)" by fastforce
  have inv': "inv s'" using exec_inv [OF Cons.prems(1)] r by (metis fst_conv)
  show ?case
  proof (cases res)
    case (Inr x)
    then have "x" using answers_nil [of "LRecordConsumption c"] r by auto
    then show ?thesis
      using exec_post [OF Cons.prems(1), of "be_calls env n" "LRecordConsumption c"] r Inr by simp
  next
    case (Inl err)
    then show ?thesis
      using Cons.IH [OF inv', of "Some err"] Cons.prems r by (auto split: if_splits)
  qed
qed simp

lemma Settle_keeps:
  assumes "inv s"
  shows "inv (fst (Settle b exec env r ch u s))"
    and "worth w (abs (fst (Settle b exec env r ch u s))) = worth w (abs s)"
    and "sent i (abs s) \<Longrightarrow> sent i (abs (fst (Settle b exec env r ch u s)))"
proof -
  let ?c = "settleConsumption (settlementCost (b_pricing b) r u) r ch u (be_now env)"
  obtain s1 q where rec: "recordConsumptionWithRetry exec env ?c s = (s1, q)" by fastforce
  have k: "inv s1" "worth w (abs s1) = worth w (abs s)" "sent i (abs s) \<Longrightarrow> sent i (abs s1)"
    using recordLoop_keeps [OF assms, of env ?c "[0, 1, 2]" None] rec
    by (simp_all add: recordConsumptionWithRetry_def)
  obtain s2 res where fin: "exec (be_calls env 3) (LFinalize (r_ID r)) s1 = (s2, res)" by fastforce
  have "inv s2" "worth w (abs s2) = worth w (abs s1)" "sent i (abs s1) \<Longrightarrow> sent i (abs s2)"
    using exec_inv [OF k(1)] exec_worth [OF k(1)] exec_sent [OF k(1)] fin by (metis fst_conv)+
  then show "inv (fst (Settle b exec env r ch u s))"
    and "worth w (abs (fst (Settle b exec env r ch u s))) = worth w (abs s)"
    and "sent i (abs s) \<Longrightarrow> sent i (abs (fst (Settle b exec env r ch u s)))"
    using k assms by (auto simp: Settle_def Let_def rec fin split: option.splits sum.splits)
qed

lemma Settle_settled:
  assumes "inv s" "snd (Settle b exec env r ch u s) = None"
  shows "\<exists>a. map_of (al_res (abs (fst (Settle b exec env r ch u s)))) (r_ID r) = Some a \<and>
           ar_status a = ReservationSettled \<and> ar_cost a = st_cost (settlementCost (b_pricing b) r u)"
proof -
  let ?st = "settlementCost (b_pricing b) r u"
  let ?c = "settleConsumption ?st r ch u (be_now env)"
  obtain s1 q where rec: "recordConsumptionWithRetry exec env ?c s = (s1, q)" by fastforce
  have q: "q = None" and le: "\<not> st_cost ?st > r_Amount r"
    using assms(2) by (auto simp: Settle_def Let_def rec split: option.splits if_splits)
  have inv1: "inv s1"
    using recordLoop_keeps [OF assms(1), of env ?c "[0, 1, 2]" None] rec
    by (simp add: recordConsumptionWithRetry_def)
  have "apost (LRecordConsumption ?c) (abs s1)"
    using recordLoop_recorded [OF assms(1), of None "[0, 1, 2]" env ?c] rec q
    by (simp add: recordConsumptionWithRetry_def)
  then obtain a where a: "map_of (al_res (abs s1)) (r_ID r) = Some a" "ar_cost a = st_cost ?st"
    "ar_status a = ReservationConsumedUnsettled \<or> ar_status a = ReservationSettled" by auto
  obtain s2 res where fin: "exec (be_calls env 3) (LFinalize (r_ID r)) s1 = (s2, res)" by fastforce
  have s2: "fst (Settle b exec env r ch u s) = s2" and "\<exists>x. res = Inr x"
    using assms(2) le by (auto simp: Settle_def Let_def rec q fin split: sum.splits)
  then have "res = Inr True"
    using answers_nil [of "LFinalize (r_ID r)"] fin by auto
  then obtain b' where "map_of (al_res (abs s2)) (r_ID r) = Some b'" "ar_status b' = ReservationSettled"
    using exec_post [OF inv1, of "be_calls env 3" "LFinalize (r_ID r)"] fin by auto
  moreover obtain b'' where "map_of (al_res (abs s2)) (r_ID r) = Some b''" "evolves a b''"
    using exec_evolves [OF inv1 a(1), of "be_calls env 3" "LFinalize (r_ID r)"] fin by auto
  ultimately show ?thesis using a s2 by (auto simp: evolves_def)
qed

end

lemma memExec_nil: "(\<forall>r. op \<noteq> LReserve r) \<Longrightarrow> memExec e op l = (l', Inr x) \<Longrightarrow> x"
  by (cases op) (auto simp: errBool_def split: option.splits)

lemma pgExec_nil: "(\<forall>r. op \<noteq> LReserve r) \<Longrightarrow> pgExec e op d = (d', Inr x) \<Longrightarrow> x"
  by (cases op) (auto simp: unitBool_def split: sum.splits)

interpretation memb: settling_ledger memExec mem_abs mem_inv
  by unfold_locales (rule memExec_nil)

interpretation pgb: settling_ledger pgExec pg_abs pg_inv
  by unfold_locales (rule pgExec_nil)

section \<open>Properties\<close>

lemma FacadeReserve_covers:
  assumes "FacadeReserve b exec e rand now req s = (s', r, Inr x)"
  shows "\<exists>amount. ReservationCost (b_pricing b) (r_Model r) (r_MaxOutputTokens r) = Inr (amount, r_MaxInputTokens r) \<and>
           amount \<le> r_Amount r \<and> 0 < r_Amount r"
  using assms
  by (auto simp: FacadeReserve_def Let_def split: sum.splits prod.splits if_splits)


text \<open>Settling against the production ledger: a nil result means the reservation is settled at
  exactly the settlement cost; whatever the result, every user's worth is unchanged, and once an
  attempt was in flight a refund is rejected afterwards, so an upstream that may have been paid is
  never given back by a failed settlement.\<close>

theorem Settle_outcome:
  assumes "pg_reach d" "Settle b pgExec env r ch u d = (d', q)"
  shows "(q = None \<longrightarrow> (\<exists>row. map_of (db_reservations d') (r_ID r) = Some row \<and>
              br_Status row = ReservationSettled \<and> br_Cost row = st_cost (settlementCost (b_pricing b) r u))) \<and>
         worth w (pg_abs d') = worth w (pg_abs d) \<and>
         (pgStatusIs ReservationInFlight (r_ID r) d \<longrightarrow> snd (PgRefund e (r_ID r) d') \<noteq> Inr ())"
proof -
  have inv: "pg_inv d" by (rule pg_reach_inv [OF assms(1)])
  have d': "d' = fst (Settle b pgExec env r ch u d)" using assms(2) by simp
  have inv': "pg_inv d'" unfolding d' by (rule pgb.Settle_keeps(1) [OF inv])
  have "snd (PgRefund e (r_ID r) d') \<noteq> Inr ()" if "pgStatusIs ReservationInFlight (r_ID r) d"
  proof -
    have "sent (r_ID r) (pg_abs d)" using that by (auto simp: pgStatusIs_abs sent_def)
    then have "sent (r_ID r) (pg_abs d')" unfolding d' by (rule pgb.Settle_keeps(3) [OF inv])
    from pgb.refund_rejected [OF inv' this, of e] show ?thesis by simp
  qed
  moreover have "\<exists>row. map_of (db_reservations d') (r_ID r) = Some row \<and>
      br_Status row = ReservationSettled \<and> br_Cost row = st_cost (settlementCost (b_pricing b) r u)"
    if "q = None"
  proof -
    have "snd (Settle b pgExec env r ch u d) = None" using assms(2) that by simp
    from pgb.Settle_settled [OF inv this] obtain a where
      "map_of (al_res (pg_abs d')) (r_ID r) = Some a" "ar_status a = ReservationSettled"
      "ar_cost a = st_cost (settlementCost (b_pricing b) r u)" unfolding d' by blast
    then show ?thesis by (auto simp: pg_ares_def)
  qed
  moreover have "worth w (pg_abs d') = worth w (pg_abs d)"
    unfolding d' by (rule pgb.Settle_keeps(2) [OF inv])
  ultimately show ?thesis by blast
qed

text \<open>The hexadecimal digits determine the bytes.\<close>

lemma hexDigit_inj:
  assumes "0 \<le> a" "a < 16" "0 \<le> b" "b < 16" "hexDigit a = hexDigit b"
  shows "a = b"
proof -
  have "distinct ''0123456789abcdef''" by simp
  moreover have "nat a < length ''0123456789abcdef''" "nat b < length ''0123456789abcdef''"
    using assms by simp_all
  ultimately have "nat a = nat b"
    using assms(5) nth_eq_iff_index_eq unfolding hexDigit_def by blast
  then show ?thesis using assms by simp
qed

lemma byte_hex_inj:
  fixes a b :: "8 word"
  assumes "hexDigit (uint a div 16) = hexDigit (uint b div 16)" "hexDigit (uint a mod 16) = hexDigit (uint b mod 16)"
  shows "a = b"
proof -
  have r: "0 \<le> uint x div 16" "uint x div 16 < 16" "0 \<le> uint x mod 16" "uint x mod 16 < 16" for x :: "8 word"
    using uint_lt2p [of x] by (auto simp: pos_imp_zdiv_nonneg_iff)
  have "uint a div 16 = uint b div 16" "uint a mod 16 = uint b mod 16"
    using hexDigit_inj [OF r(1,2) r(1,2) assms(1)] hexDigit_inj [OF r(3,4) r(3,4) assms(2)] by auto
  then have "uint a = uint b" by (metis div_mult_mod_eq)
  then show ?thesis by (metis word_of_int_uint)
qed

lemma hexEncode_inj: "length bs = length cs \<Longrightarrow> hexEncode bs = hexEncode cs \<Longrightarrow> bs = cs"
  by (induction bs cs rule: list_induct2) (auto intro: byte_hex_inj)

lemma hexEncode_length: "length (hexEncode bs) = 2 * length bs"
  by (induction bs rule: hexEncode.induct) auto

text \<open>Reservation identifiers are collision-free images of the random bytes: 16 bytes give 36
  characters, different bytes give different identifiers, and none is empty.\<close>

theorem newReservationID_injective:
  assumes "length bs = 16" "length cs = 16"
  shows "\<exists>i j. newReservationID (Inr bs) = Inr i \<and> newReservationID (Inr cs) = Inr j \<and>
           length i = 36 \<and> (i = j \<longleftrightarrow> bs = cs)"
  using assms hexEncode_inj [of bs cs] by (auto simp: newReservationID_def hexEncode_length)

section \<open>Witnesses\<close>

definition exampleBilling :: billing where
  "exampleBilling = BillingNew examplePricing 0"

definition exampleRequest :: reserve_request where
  "exampleRequest = \<lparr>rr_TraceID = ''t'', rr_UserID = ''ann'', rr_KeyID = ''k1'', rr_Model = ''gpt'',
     rr_MaxOutputTokens = 100\<rparr>"

definition exampleUsage :: usage where
  "exampleUsage = zeroUsage\<lparr>u_ReportedTotalTokens := 30, u_TotalTokensKnown := True\<rparr>"

definition exampleBillingEnv :: "pg_env billing_env" where
  "exampleBillingEnv = \<lparr>be_calls = (\<lambda>n. if n = 0 then lossyEnv else goodEnv), be_cancelled = (\<lambda>_. False), be_now = 60\<rparr>"


theorem Settle_outcome_witness:
  "snd (PgRefund goodEnv ''res_1'' (fst (Settle exampleBilling pgExec exampleBillingEnv exampleReservation ''ch''
      exampleUsage exampleDbFlight))) \<noteq> Inr ()"
proof -
  have "pgStatusIs ReservationInFlight (r_ID exampleReservation) exampleDbFlight"
    by (simp add: pgStatusIs_def exampleDbFlight_eq exampleReservation_def)
  then show ?thesis
    using Settle_outcome [OF exampleDbFlight_reach prod.collapse [symmetric], of exampleBilling exampleBillingEnv
        exampleReservation "''ch''" exampleUsage "''ann''" goodEnv]
    by (auto simp: exampleReservation_def)
qed

theorem newReservationID_injective_witness:
  "newReservationID (Inr (replicate 16 0)) \<noteq> newReservationID (Inr (replicate 16 1))"
proof -
  have "replicate 16 (0 :: 8 word) \<noteq> replicate 16 1" by (simp add: replicate_eq_replicate)
  then show ?thesis
    using newReservationID_injective [of "replicate 16 0" "replicate 16 1"] by auto
qed

end
