(* ===== verification/Breaker.thy ===== *)
theory Breaker
  imports Prelude
begin

text \<open>
  The circuit breaker of \<open>internal/routing/breaker.go\<close>. Methods run under the breaker's mutex and are
  single steps; the clock is the argument \<open>now\<close>. A permit remembers the generation in which it was
  granted; \<open>sync.Once\<close> is its \<open>bp_done\<close> flag. The second part is a step relation of one breaker with
  all the permits it ever granted, whose holders may report in any order, late, twice or never. The
  generation is a 64-bit counter: the invariants hold for the first \<open>2^64\<close> steps.
\<close>

section \<open>Definitions\<close>

datatype breaker_state = StateClosed | StateOpen | StateHalfOpen

record breaker_config =
  FailureThreshold :: int
  CooldownPeriod :: duration
  HalfOpenMaxProbes :: int

definition BreakerStateString :: "breaker_state \<Rightarrow> string" where
  "BreakerStateString s =
     (case s of StateClosed \<Rightarrow> ''closed'' | StateOpen \<Rightarrow> ''open'' | StateHalfOpen \<Rightarrow> ''half-open'')"

definition DefaultBreakerConfig :: breaker_config where
  "DefaultBreakerConfig = \<lparr>FailureThreshold = 5, CooldownPeriod = 30 * second, HalfOpenMaxProbes = 1\<rparr>"

record breaker =
  bk_cfg :: breaker_config
  bk_state :: breaker_state
  bk_consecutiveFail :: int
  bk_openedAt :: gotime
  bk_halfOpenProbes :: int
  bk_generation :: "64 word"

record breaker_permit =
  bp_generation :: "64 word"
  bp_done :: bool

datatype breaker_result = breakerSuccess | breakerFailure | breakerNeutral

definition NewBreaker :: "breaker_config \<Rightarrow> breaker" where
  "NewBreaker cfg =
     (let cfg1 = (if FailureThreshold cfg \<le> 0 then cfg\<lparr>FailureThreshold := 5\<rparr> else cfg);
          cfg2 = (if CooldownPeriod cfg1 \<le> 0 then cfg1\<lparr>CooldownPeriod := 30 * second\<rparr> else cfg1);
          cfg3 = (if HalfOpenMaxProbes cfg2 \<le> 0 then cfg2\<lparr>HalfOpenMaxProbes := 1\<rparr> else cfg2)
      in \<lparr>bk_cfg = cfg3, bk_state = StateClosed, bk_consecutiveFail = 0, bk_openedAt = 0,
          bk_halfOpenProbes = 0, bk_generation = 0\<rparr>)"

definition newPermit :: "breaker \<Rightarrow> breaker_permit" where
  "newPermit b = \<lparr>bp_generation = bk_generation b, bp_done = False\<rparr>"

definition cooled :: "gotime \<Rightarrow> breaker \<Rightarrow> bool" where
  "cooled now b \<longleftrightarrow> now - bk_openedAt b \<ge> CooldownPeriod (bk_cfg b)"

definition Allow :: "gotime \<Rightarrow> breaker \<Rightarrow> breaker \<times> breaker_permit option" where
  "Allow now b =
     (case bk_state b of
        StateClosed \<Rightarrow> (b, Some (newPermit b))
      | StateOpen \<Rightarrow>
          if cooled now b
          then (let b' = b\<lparr>bk_state := StateHalfOpen, bk_generation := bk_generation b + 1,
                           bk_halfOpenProbes := 1\<rparr>
                in (b', Some (newPermit b')))
          else (b, None)
      | StateHalfOpen \<Rightarrow>
          if bk_halfOpenProbes b < HalfOpenMaxProbes (bk_cfg b)
          then (let b' = b\<lparr>bk_halfOpenProbes := i64 (bk_halfOpenProbes b + 1)\<rparr>
                in (b', Some (newPermit b')))
          else (b, None))"

definition trip :: "gotime \<Rightarrow> breaker \<Rightarrow> breaker" where
  "trip now b = b\<lparr>bk_state := StateOpen, bk_openedAt := now, bk_halfOpenProbes := 0,
                  bk_generation := bk_generation b + 1\<rparr>"

definition breakerRecord :: "gotime \<Rightarrow> 64 word \<Rightarrow> breaker_result \<Rightarrow> breaker \<Rightarrow> breaker" where
  "breakerRecord now generation res b =
     (if generation \<noteq> bk_generation b then b
      else case res of
        breakerSuccess \<Rightarrow>
          (case bk_state b of
             StateClosed \<Rightarrow> b\<lparr>bk_consecutiveFail := 0\<rparr>
           | StateHalfOpen \<Rightarrow> b\<lparr>bk_consecutiveFail := 0, bk_state := StateClosed,
                               bk_halfOpenProbes := 0, bk_generation := bk_generation b + 1\<rparr>
           | StateOpen \<Rightarrow> b)
      | breakerFailure \<Rightarrow>
          (case bk_state b of
             StateHalfOpen \<Rightarrow> trip now b
           | StateClosed \<Rightarrow>
               (let b' = b\<lparr>bk_consecutiveFail := i64 (bk_consecutiveFail b + 1)\<rparr>
                in if bk_consecutiveFail b' \<ge> FailureThreshold (bk_cfg b') then trip now b' else b')
           | StateOpen \<Rightarrow> b)
      | breakerNeutral \<Rightarrow>
          (if bk_state b = StateHalfOpen \<and> bk_halfOpenProbes b > 0
           then b\<lparr>bk_halfOpenProbes := bk_halfOpenProbes b - 1\<rparr> else b))"

text \<open>\<open>RecordSuccess\<close>, \<open>RecordFailure\<close> and \<open>RecordNeutral\<close> are \<open>resolve\<close> at the three results.\<close>

definition resolve :: "gotime \<Rightarrow> breaker_result \<Rightarrow> breaker_permit \<Rightarrow> breaker \<Rightarrow> breaker \<times> breaker_permit" where
  "resolve now res p b =
     (if bp_done p then (b, p)
      else (breakerRecord now (bp_generation p) res b, p\<lparr>bp_done := True\<rparr>))"

definition Ready :: "gotime \<Rightarrow> breaker \<Rightarrow> bool" where
  "Ready now b =
     (case bk_state b of
        StateClosed \<Rightarrow> True
      | StateOpen \<Rightarrow> cooled now b
      | StateHalfOpen \<Rightarrow> bk_halfOpenProbes b < HalfOpenMaxProbes (bk_cfg b))"

definition StateCode :: "breaker \<Rightarrow> int" where
  "StateCode b = (case bk_state b of StateClosed \<Rightarrow> 0 | StateHalfOpen \<Rightarrow> 1 | StateOpen \<Rightarrow> 2)"

section \<open>A breaker and its permits\<close>

record breaker_sys =
  bs_breaker :: breaker
  bs_permits :: "breaker_permit list"

inductive breaker_step :: "breaker_sys \<Rightarrow> breaker_sys \<Rightarrow> bool" where
  granted: "Allow now (bs_breaker s) = (b, Some p) \<Longrightarrow>
     breaker_step s (s\<lparr>bs_breaker := b, bs_permits := bs_permits s @ [p]\<rparr>)"
| denied: "Allow now (bs_breaker s) = (b, None) \<Longrightarrow> breaker_step s (s\<lparr>bs_breaker := b\<rparr>)"
| resolved: "i < length (bs_permits s) \<Longrightarrow> resolve now res (bs_permits s ! i) (bs_breaker s) = (b, p) \<Longrightarrow>
     breaker_step s (s\<lparr>bs_breaker := b, bs_permits := (bs_permits s)[i := p]\<rparr>)"

inductive_cases breaker_stepE: "breaker_step s t"

inductive breaker_reach :: "breaker_config \<Rightarrow> nat \<Rightarrow> breaker_sys \<Rightarrow> bool" for cfg where
  init: "breaker_reach cfg 0 \<lparr>bs_breaker = NewBreaker cfg, bs_permits = []\<rparr>"
| step: "breaker_reach cfg n s \<Longrightarrow> breaker_step s t \<Longrightarrow> breaker_reach cfg (Suc n) t"

text \<open>The permits of the current generation whose holders have not reported.\<close>

definition live :: "breaker_sys \<Rightarrow> breaker_permit \<Rightarrow> bool" where
  "live s p \<longleftrightarrow> bp_generation p = bk_generation (bs_breaker s) \<and> \<not> bp_done p"

definition outstanding :: "breaker_sys \<Rightarrow> nat" where
  "outstanding s = length (filter (live s) (bs_permits s))"

definition breaker_inv :: "nat \<Rightarrow> breaker_sys \<Rightarrow> bool" where
  "breaker_inv n s \<longleftrightarrow>
     (let b = bs_breaker s; cfg = bk_cfg b in
      0 < FailureThreshold cfg \<and> FailureThreshold cfg \<le> max_int64 \<and> 0 < CooldownPeriod cfg \<and>
      0 < HalfOpenMaxProbes cfg \<and> HalfOpenMaxProbes cfg \<le> max_int64 \<and>
      (\<forall>p \<in> set (bs_permits s). unat (bp_generation p) \<le> unat (bk_generation b)) \<and>
      unat (bk_generation b) \<le> n \<and>
      (case bk_state b of
         StateClosed \<Rightarrow> 0 \<le> bk_consecutiveFail b \<and> bk_consecutiveFail b < FailureThreshold cfg \<and>
           bk_halfOpenProbes b = 0
       | StateOpen \<Rightarrow> outstanding s = 0 \<and> bk_halfOpenProbes b = 0
       | StateHalfOpen \<Rightarrow> bk_halfOpenProbes b = int (outstanding s) \<and>
           bk_halfOpenProbes b \<le> HalfOpenMaxProbes cfg))"

definition cfg_go :: "breaker_config \<Rightarrow> bool" where
  "cfg_go cfg \<longleftrightarrow> in_i64 (FailureThreshold cfg) \<and> in_i64 (HalfOpenMaxProbes cfg)"

lemma NewBreaker_inv: "cfg_go cfg \<Longrightarrow> breaker_inv n \<lparr>bs_breaker = NewBreaker cfg, bs_permits = []\<rparr>"
  by (auto simp: breaker_inv_def NewBreaker_def Let_def cfg_go_def go_int go_time)

text \<open>Counting live permits: granting one, resolving one, and moving to a new generation.\<close>

lemma outstanding_grant:
  "outstanding (s\<lparr>bs_breaker := b, bs_permits := bs_permits s @ [newPermit b]\<rparr>)
     = length (filter (\<lambda>p. bp_generation p = bk_generation b \<and> \<not> bp_done p) (bs_permits s)) + 1"
  by (simp add: outstanding_def live_def [abs_def] newPermit_def)

lemma length_filter_update:
  assumes "i < length xs" "P (xs ! i)" "\<not> P y"
  shows "length (filter P (xs[i := y])) + 1 = length (filter P xs)"
  using assms
proof (induction xs arbitrary: i)
  case (Cons x xs)
  then show ?case by (cases i) auto
qed simp

lemma length_filter_update_same:
  assumes "i < length xs" "P (xs ! i) = P y"
  shows "length (filter P (xs[i := y])) = length (filter P xs)"
  using assms
proof (induction xs arbitrary: i)
  case (Cons x xs)
  then show ?case by (cases i) auto
qed simp

lemma filter_new_generation:
  assumes "\<And>p. p \<in> set ps \<Longrightarrow> unat (bp_generation p) \<le> unat g" "unat g < unat (g + 1 :: 64 word)"
  shows "filter (\<lambda>p. bp_generation p = g + 1 \<and> \<not> bp_done p) ps = []"
  using assms by (fastforce simp: filter_empty_conv)

lemma unat_succ:
  fixes g :: "64 word"
  assumes "unat g \<le> n" "n + 1 < 2 ^ 64"
  shows "unat (g + 1) = unat g + 1"
  using assms by (simp add: unat_word_ariths)

lemma breaker_step_inv:
  assumes "breaker_inv n s" "breaker_step s t" "n + 1 < 2 ^ 64"
  shows "breaker_inv (Suc n) t"
  using assms(2)
proof (cases rule: breaker_step.cases)
  case (granted now b p)
  let ?b = "bs_breaker s"
  have succ: "unat (bk_generation ?b + 1) = unat (bk_generation ?b) + 1"
    using assms(1,3) by (intro unat_succ [of _ n]) (auto simp: breaker_inv_def Let_def)
  show ?thesis
  proof (cases "bk_state ?b")
    case StateClosed
    then have "b = ?b" "p = newPermit b" using granted by (auto simp: Allow_def)
    then show ?thesis using assms(1) StateClosed
      by (auto simp: breaker_inv_def Let_def granted(1) newPermit_def)
  next
    case StateOpen
    then have b: "b = ?b\<lparr>bk_state := StateHalfOpen, bk_generation := bk_generation ?b + 1, bk_halfOpenProbes := 1\<rparr>"
      "p = newPermit b" using granted by (auto simp: Allow_def Let_def split: if_splits)
    have old: "unat (bp_generation q) \<le> unat (bk_generation ?b)" if "q \<in> set (bs_permits s)" for q
      using assms(1) that by (auto simp: breaker_inv_def Let_def)
    have "filter (\<lambda>p. bp_generation p = bk_generation ?b + 1 \<and> \<not> bp_done p) (bs_permits s) = []"
      using old by (rule filter_new_generation) (simp_all add: succ)
    then have "outstanding t = 1"
      unfolding granted(1) b(2) outstanding_grant by (simp add: b)
    moreover have "\<forall>q \<in> set (bs_permits s). unat (bp_generation q) \<le> unat (bk_generation ?b) + 1"
      using old by force
    ultimately show ?thesis using assms(1) StateOpen succ
      by (auto simp: breaker_inv_def Let_def granted(1) b newPermit_def)
  next
    case StateHalfOpen
    then have lt: "bk_halfOpenProbes ?b < HalfOpenMaxProbes (bk_cfg ?b)"
      and b: "b = ?b\<lparr>bk_halfOpenProbes := i64 (bk_halfOpenProbes ?b + 1)\<rparr>" "p = newPermit b"
      using granted by (auto simp: Allow_def Let_def split: if_splits)
    have "i64 (bk_halfOpenProbes ?b + 1) = bk_halfOpenProbes ?b + 1"
      using assms(1) lt StateHalfOpen by (intro i64_id) (auto simp: breaker_inv_def Let_def go_int)
    moreover have "outstanding t = outstanding s + 1"
      unfolding granted(1) b(2) outstanding_grant by (simp add: b outstanding_def live_def [abs_def])
    ultimately show ?thesis using assms(1) StateHalfOpen lt
      by (auto simp: breaker_inv_def Let_def granted(1) b newPermit_def)
  qed
next
  case (denied now b)
  then have "b = bs_breaker s" by (auto simp: Allow_def Let_def split: breaker_state.splits if_splits)
  then show ?thesis using assms(1) denied by (auto simp: breaker_inv_def Let_def split: breaker_state.splits)
next
  case (resolved i now res b p)
  let ?b = "bs_breaker s" and ?q = "bs_permits s ! i"
  have succ: "unat (bk_generation ?b + 1) = unat (bk_generation ?b) + 1"
    using assms(1,3) by (intro unat_succ [of _ n]) (auto simp: breaker_inv_def Let_def)
  have old: "unat (bp_generation x) \<le> unat (bk_generation ?b)" if "x \<in> set (bs_permits s)" for x
    using assms(1) that by (auto simp: breaker_inv_def Let_def)
  show ?thesis
  proof (cases "bp_done ?q")
    case True
    then have "b = ?b" "(bs_permits s)[i := p] = bs_permits s"
      using resolved(3) by (auto simp: resolve_def)
    then have "t = s" using resolved(1) by simp
    then show ?thesis using assms(1) by (auto simp: breaker_inv_def Let_def split: breaker_state.splits)
  next
    case False
    have p: "p = ?q\<lparr>bp_done := True\<rparr>" and b: "b = breakerRecord now (bp_generation ?q) res ?b"
      using resolved False by (simp_all add: resolve_def)
    have gens: "unat (bp_generation x) \<le> unat (bk_generation ?b)" if "x \<in> set ((bs_permits s)[i := p])" for x
    proof -
      have "x = p \<or> x \<in> set (bs_permits s)" using that set_update_subset_insert [of "bs_permits s" i p] by auto
      then show ?thesis using old resolved(2) by (auto simp: p)
    qed
    have none: "outstanding \<lparr>bs_breaker = b', bs_permits = (bs_permits s)[i := p]\<rparr> = 0"
      if "bk_generation b' = bk_generation ?b + 1" for b'
    proof -
      have "filter (\<lambda>p. bp_generation p = bk_generation ?b + 1 \<and> \<not> bp_done p) ((bs_permits s)[i := p]) = []"
        using gens by (rule filter_new_generation) (simp_all add: succ)
      then show ?thesis by (simp add: outstanding_def live_def [abs_def] that)
    qed
    have t: "t = \<lparr>bs_breaker = b, bs_permits = (bs_permits s)[i := p]\<rparr>" using resolved(1) by simp
    show ?thesis
    proof (cases "bp_generation ?q = bk_generation ?b")
      case G: False
      then have "b = ?b" by (simp add: b breakerRecord_def)
      moreover have "outstanding t = outstanding s"
        using length_filter_update_same [OF resolved(2), of "live s" p] G \<open>b = ?b\<close>
        by (simp add: outstanding_def t live_def [abs_def] p)
      ultimately show ?thesis using assms(1) gens
        by (auto simp: breaker_inv_def Let_def t split: breaker_state.splits)
    next
      case G: True
      have live: "live s ?q" using G False by (simp add: live_def)
      then have pos: "0 < outstanding s"
        using resolved(2) by (auto simp: outstanding_def filter_empty_conv intro!: nth_mem)
      have one: "length (filter (live s) ((bs_permits s)[i := p])) + 1 = outstanding s"
        unfolding outstanding_def
        by (rule length_filter_update [where P = "live s", OF resolved(2) live]) (simp add: live_def p)
      note inv = assms(1) [unfolded breaker_inv_def Let_def]
      show ?thesis
      proof (cases "bk_state ?b")
        case StateOpen
        then show ?thesis using inv pos by simp
      next
        case StateClosed
        have "i64 (bk_consecutiveFail ?b + 1) = bk_consecutiveFail ?b + 1"
          using inv StateClosed by (intro i64_id) (auto simp: go_int)
        then show ?thesis
          using inv StateClosed G gens succ none [of "trip now (?b\<lparr>bk_consecutiveFail := bk_consecutiveFail ?b + 1\<rparr>)"]
          by (cases res) (force simp: breaker_inv_def Let_def t b breakerRecord_def trip_def)+
      next
        case StateHalfOpen
        show ?thesis
        proof (cases res)
          case breakerNeutral
          then have b': "b = ?b\<lparr>bk_halfOpenProbes := bk_halfOpenProbes ?b - 1\<rparr>"
            using inv StateHalfOpen G pos by (simp add: b breakerRecord_def)
          have "outstanding t + 1 = outstanding s"
            using one by (simp add: outstanding_def t live_def [abs_def] b')
          then show ?thesis using inv StateHalfOpen gens by (auto simp: breaker_inv_def Let_def t b')
        next
          case breakerSuccess
          then show ?thesis using inv StateHalfOpen G gens succ
            by (force simp: breaker_inv_def Let_def t b breakerRecord_def)
        next
          case breakerFailure
          then show ?thesis using inv StateHalfOpen G gens succ none [of "trip now ?b"]
            by (force simp: breaker_inv_def Let_def t b breakerRecord_def trip_def)
        qed
      qed
    qed
  qed
qed

lemma breaker_reach_inv: "breaker_reach cfg n s \<Longrightarrow> cfg_go cfg \<Longrightarrow> n < 2 ^ 64 \<Longrightarrow> breaker_inv n s"
  by (induction rule: breaker_reach.induct) (auto intro: NewBreaker_inv breaker_step_inv)

section \<open>Paths\<close>

inductive breaker_path :: "breaker_sys \<Rightarrow> nat \<Rightarrow> breaker_sys \<Rightarrow> bool" where
  refl: "breaker_path s 0 s"
| step: "breaker_path s m t \<Longrightarrow> breaker_step t w \<Longrightarrow> breaker_path s (Suc m) w"

lemma breaker_path_reach: "breaker_path s m t \<Longrightarrow> breaker_reach cfg n s \<Longrightarrow> breaker_reach cfg (n + m) t"
  by (induction rule: breaker_path.induct) (auto intro: breaker_reach.step)

text \<open>A step keeps the generation of every permit and never lowers the breaker's.\<close>

lemma breaker_step_mono:
  assumes "breaker_inv n s" "n + 1 < 2 ^ 64" "breaker_step s t" "i < length (bs_permits s)"
  shows "i < length (bs_permits t) \<and> bp_generation (bs_permits t ! i) = bp_generation (bs_permits s ! i) \<and>
         unat (bk_generation (bs_breaker s)) \<le> unat (bk_generation (bs_breaker t))"
proof -
  have succ: "unat (bk_generation (bs_breaker s) + 1) = unat (bk_generation (bs_breaker s)) + 1"
    using assms(1,2) by (intro unat_succ [of _ n]) (auto simp: breaker_inv_def Let_def)
  show ?thesis using assms(3)
  proof (cases rule: breaker_step.cases)
    case (granted now b p)
    then show ?thesis using assms(4) succ
      by (auto simp: nth_append Allow_def Let_def split: breaker_state.splits if_splits)
  next
    case (denied now b)
    then show ?thesis using assms(4)
      by (auto simp: Allow_def Let_def split: breaker_state.splits if_splits)
  next
    case (resolved j now res b p)
    have "unat (bk_generation (bs_breaker s)) \<le> unat (bk_generation b)"
      using resolved(3) succ
      by (auto simp: resolve_def breakerRecord_def trip_def Let_def
          split: if_splits breaker_result.splits breaker_state.splits)
    moreover have "bp_generation p = bp_generation (bs_permits s ! j)"
      using resolved(3) by (auto simp: resolve_def split: if_splits)
    ultimately show ?thesis using resolved(1,2) assms(4) by (cases "i = j") auto
  qed
qed

lemma breaker_path_mono:
  assumes "breaker_path s m t" "breaker_reach cfg n s" "cfg_go cfg" "n + m < 2 ^ 64" "i < length (bs_permits s)"
  shows "i < length (bs_permits t) \<and> bp_generation (bs_permits t ! i) = bp_generation (bs_permits s ! i) \<and>
         unat (bk_generation (bs_breaker s)) \<le> unat (bk_generation (bs_breaker t))"
  using assms
proof (induction rule: breaker_path.induct)
  case (step s m t w)
  then have ih: "i < length (bs_permits t)" "bp_generation (bs_permits t ! i) = bp_generation (bs_permits s ! i)"
    "unat (bk_generation (bs_breaker s)) \<le> unat (bk_generation (bs_breaker t))" by auto
  have "breaker_inv (n + m) t"
    using breaker_reach_inv [OF breaker_path_reach [OF step.hyps(1) step.prems(1)]] step.prems by simp
  from breaker_step_mono [OF this _ step.hyps(2) ih(1)] step.prems ih show ?case by simp
qed simp

section \<open>Properties\<close>

text \<open>C24. The half-open breaker holds its limit and leaks no slot: for the first \<open>2^64\<close> steps, however
  the holders of permits report (late, twice, in any order), the unreported permits of the current
  generation never exceed the configured number, and a request is refused exactly when they fill it.\<close>

theorem breaker_probe_limit:
  assumes "breaker_reach cfg n s" "cfg_go cfg" "n < 2 ^ 64" "bk_state (bs_breaker s) = StateHalfOpen"
  shows "int (outstanding s) \<le> HalfOpenMaxProbes (bk_cfg (bs_breaker s)) \<and>
         (snd (Allow now (bs_breaker s)) = None \<longleftrightarrow>
            int (outstanding s) = HalfOpenMaxProbes (bk_cfg (bs_breaker s)))"
proof -
  have "breaker_inv n s" by (rule breaker_reach_inv [OF assms(1-3)])
  then show ?thesis using assms(4) by (auto simp: breaker_inv_def Let_def Allow_def)
qed

text \<open>A late result is inert: once the breaker has moved to another generation (it opened, went
  half-open or closed), reporting a permit granted before does not change it, in any state reached
  within \<open>2^64\<close> steps; nor does reporting a permit twice.\<close>

theorem breaker_stale_result_inert:
  assumes "breaker_reach cfg n s" "cfg_go cfg" "breaker_path s m t" "n + m < 2 ^ 64"
    and "i < length (bs_permits s)"
    and "bk_generation (bs_breaker t) \<noteq> bk_generation (bs_breaker s) \<or> bp_done (bs_permits t ! i)"
  shows "fst (resolve now res (bs_permits t ! i) (bs_breaker t)) = bs_breaker t"
proof -
  have m: "bp_generation (bs_permits t ! i) = bp_generation (bs_permits s ! i)"
    "unat (bk_generation (bs_breaker s)) \<le> unat (bk_generation (bs_breaker t))"
    using breaker_path_mono [OF assms(3,1,2,4,5)] by auto
  have "breaker_inv n s" using breaker_reach_inv [OF assms(1,2)] assms(4) by simp
  then have "unat (bp_generation (bs_permits s ! i)) \<le> unat (bk_generation (bs_breaker s))"
    using assms(5) by (auto simp: breaker_inv_def Let_def)
  then have "bk_generation (bs_breaker t) \<noteq> bk_generation (bs_breaker s) \<Longrightarrow>
      bp_generation (bs_permits t ! i) \<noteq> bk_generation (bs_breaker t)"
    using m by (metis le_antisym word_unat_eq_iff)
  then show ?thesis using assms(6) by (auto simp: resolve_def breakerRecord_def)
qed

text \<open>C25. The breaker is never stuck: when every permit has been reported, requests are admitted from
  some moment on (at once when closed or half-open, after the cooldown when open), and the
  side-effect-free \<open>Ready\<close> predicts \<open>Allow\<close> exactly.\<close>

theorem breaker_never_stuck:
  assumes "breaker_reach cfg n s" "cfg_go cfg" "n < 2 ^ 64" "\<forall>p \<in> set (bs_permits s). bp_done p"
  shows "(\<exists>t0. \<forall>now. t0 \<le> now \<longrightarrow> snd (Allow now (bs_breaker s)) \<noteq> None) \<and>
         (\<forall>now. Ready now (bs_breaker s) \<longleftrightarrow> snd (Allow now (bs_breaker s)) \<noteq> None)"
proof -
  let ?b = "bs_breaker s"
  have inv: "breaker_inv n s" by (rule breaker_reach_inv [OF assms(1-3)])
  have "outstanding s = 0" using assms(4) by (auto simp: outstanding_def live_def filter_empty_conv)
  then have "\<forall>now. bk_openedAt ?b + CooldownPeriod (bk_cfg ?b) \<le> now \<longrightarrow> snd (Allow now ?b) \<noteq> None"
    using inv by (auto simp: breaker_inv_def Let_def Allow_def cooled_def split: breaker_state.splits)
  moreover have "Ready now ?b \<longleftrightarrow> snd (Allow now ?b) \<noteq> None" for now
    by (auto simp: Ready_def Allow_def Let_def split: breaker_state.splits)
  ultimately show ?thesis by blast
qed

text \<open>The failures since the last success; a neutral result counts as neither.\<close>

definition streak :: "int \<Rightarrow> breaker_result list \<Rightarrow> int" where
  "streak k rs = foldl (\<lambda>n r. case r of breakerSuccess \<Rightarrow> 0 | breakerFailure \<Rightarrow> n + 1 | breakerNeutral \<Rightarrow> n) k rs"

definition recordAll :: "gotime \<Rightarrow> breaker_result list \<Rightarrow> breaker \<Rightarrow> breaker" where
  "recordAll now rs b = foldl (\<lambda>b r. breakerRecord now (bk_generation b) r b) b rs"

lemma streak_snoc: "streak k (rs @ [r]) =
    (case r of breakerSuccess \<Rightarrow> 0 | breakerFailure \<Rightarrow> streak k rs + 1 | breakerNeutral \<Rightarrow> streak k rs)"
  by (cases r) (simp_all add: streak_def)

lemma recordAll_snoc: "recordAll now (rs @ [r]) b =
    breakerRecord now (bk_generation (recordAll now rs b)) r (recordAll now rs b)"
  by (simp add: recordAll_def)

lemma recordAll_closed:
  assumes "bk_state b = StateClosed" "0 \<le> bk_consecutiveFail b"
    and "FailureThreshold (bk_cfg b) \<le> max_int64"
    and "\<forall>k \<le> length rs. streak (bk_consecutiveFail b) (take k rs) < FailureThreshold (bk_cfg b)"
  shows "bk_state (recordAll now rs b) = StateClosed \<and> bk_cfg (recordAll now rs b) = bk_cfg b \<and>
         bk_consecutiveFail (recordAll now rs b) = streak (bk_consecutiveFail b) rs \<and>
         0 \<le> streak (bk_consecutiveFail b) rs"
  using assms(4)
proof (induction rs rule: rev_induct)
  case Nil
  then show ?case using assms by (simp add: recordAll_def streak_def)
next
  case (snoc r rs)
  let ?k = "bk_consecutiveFail b" and ?th = "FailureThreshold (bk_cfg b)"
  have "\<forall>k \<le> length rs. streak ?k (take k rs) < ?th"
    using snoc.prems by (auto dest: spec [of _ "_ :: nat"] split: if_splits)
       (metis (no_types, lifting) butlast_snoc le_SucI take_butlast length_append_singleton less_Suc_eq_le take_append append_Nil2 diff_is_0_eq' take0)
  note ih = snoc.IH [OF this]
  have lt: "streak ?k (rs @ [r]) < ?th" using spec [OF snoc.prems, of "length rs + 1"] by simp
  have "i64 (streak ?k rs + 1) = streak ?k rs + 1" if "r = breakerFailure"
    using lt ih assms(3) that by (intro i64_id) (auto simp: streak_snoc go_int)
  then show ?case using ih lt
    by (cases r) (auto simp: recordAll_snoc streak_snoc breakerRecord_def Let_def)
qed

text \<open>The breaker opens at exactly the configured number of consecutive failures: reporting results
  of the current generation to a closed breaker leaves it closed as long as fewer failures than the
  threshold follow each other without a success between them (neutral results do not count and do
  not interrupt), and the failure that reaches the threshold opens it at that moment; it then admits
  nothing before the cooldown is over and a probe afterwards.\<close>

theorem breaker_opens_at_threshold:
  assumes "bk_state b = StateClosed" "0 \<le> bk_consecutiveFail b" "FailureThreshold (bk_cfg b) \<le> max_int64"
    and "\<forall>k \<le> length rs. streak (bk_consecutiveFail b) (take k rs) < FailureThreshold (bk_cfg b)"
  shows "bk_state (recordAll now rs b) = StateClosed \<and>
         (streak (bk_consecutiveFail b) (rs @ [breakerFailure]) \<ge> FailureThreshold (bk_cfg b) \<longrightarrow>
           bk_state (recordAll now (rs @ [breakerFailure]) b) = StateOpen \<and>
           (\<forall>t. snd (Allow t (recordAll now (rs @ [breakerFailure]) b)) = None \<longleftrightarrow>
                t < now + CooldownPeriod (bk_cfg b)))"
proof -
  note c = recordAll_closed [OF assms, of now]
  have "streak (bk_consecutiveFail b) rs < FailureThreshold (bk_cfg b)"
    using spec [OF assms(4), of "length rs"] by simp
  then have "i64 (streak (bk_consecutiveFail b) rs + 1) = streak (bk_consecutiveFail b) rs + 1"
    using c assms(3) by (intro i64_id) (auto simp: go_int)
  then show ?thesis using c
    by (auto simp: recordAll_snoc streak_snoc breakerRecord_def trip_def Allow_def cooled_def Let_def
        split: if_splits)
qed

section \<open>Witnesses\<close>

definition exampleBreakerCfg :: breaker_config where
  "exampleBreakerCfg = \<lparr>FailureThreshold = 1, CooldownPeriod = 10, HalfOpenMaxProbes = 1\<rparr>"

lemma exampleBreakerCfg_simps [simp]:
  "FailureThreshold exampleBreakerCfg = 1" "CooldownPeriod exampleBreakerCfg = 10"
  "HalfOpenMaxProbes exampleBreakerCfg = 1"
  by (simp_all add: exampleBreakerCfg_def)

text \<open>A request fails and opens the breaker; after the cooldown a probe is admitted.\<close>

definition exampleHalfOpen :: breaker_sys where
  "exampleHalfOpen =
     \<lparr>bs_breaker = \<lparr>bk_cfg = exampleBreakerCfg, bk_state = StateHalfOpen, bk_consecutiveFail = 1,
        bk_openedAt = 5, bk_halfOpenProbes = 1, bk_generation = 2\<rparr>,
      bs_permits = [\<lparr>bp_generation = 0, bp_done = True\<rparr>, \<lparr>bp_generation = 2, bp_done = False\<rparr>]\<rparr>"

definition exampleFirst :: breaker_sys where
  "exampleFirst = \<lparr>bs_breaker = NewBreaker exampleBreakerCfg, bs_permits = [\<lparr>bp_generation = 0, bp_done = False\<rparr>]\<rparr>"

lemma NewBreaker_example:
  "NewBreaker exampleBreakerCfg = \<lparr>bk_cfg = exampleBreakerCfg, bk_state = StateClosed,
     bk_consecutiveFail = 0, bk_openedAt = 0, bk_halfOpenProbes = 0, bk_generation = 0\<rparr>"
  by (simp add: NewBreaker_def)

lemma exampleFirst_reach: "breaker_reach exampleBreakerCfg 1 exampleFirst"
proof -
  have "breaker_step \<lparr>bs_breaker = NewBreaker exampleBreakerCfg, bs_permits = []\<rparr>
      (\<lparr>bs_breaker = NewBreaker exampleBreakerCfg, bs_permits = []\<rparr>\<lparr>bs_breaker := NewBreaker exampleBreakerCfg,
        bs_permits := bs_permits \<lparr>bs_breaker = NewBreaker exampleBreakerCfg, bs_permits = []\<rparr> @
          [\<lparr>bp_generation = 0, bp_done = False\<rparr>]\<rparr>)"
    by (rule breaker_step.granted [of 0]) (simp add: Allow_def newPermit_def NewBreaker_example)
  from breaker_reach.step [OF breaker_reach.init this] show ?thesis by (simp add: exampleFirst_def)
qed

lemma examplePath: "breaker_path exampleFirst 2 exampleHalfOpen"
proof -
  let ?open = "\<lparr>bk_cfg = exampleBreakerCfg, bk_state = StateOpen, bk_consecutiveFail = 1,
        bk_openedAt = 5, bk_halfOpenProbes = 0, bk_generation = 1\<rparr>"
  have "breaker_step exampleFirst (exampleFirst\<lparr>bs_breaker := ?open,
      bs_permits := (bs_permits exampleFirst)[0 := \<lparr>bp_generation = 0, bp_done = True\<rparr>]\<rparr>)"
    by (rule breaker_step.resolved [of _ _ 5 breakerFailure])
       (simp_all add: exampleFirst_def resolve_def breakerRecord_def trip_def NewBreaker_example
         i64_def Let_def)
  then have 1: "breaker_step exampleFirst \<lparr>bs_breaker = ?open, bs_permits = [\<lparr>bp_generation = 0, bp_done = True\<rparr>]\<rparr>"
    by (simp add: exampleFirst_def)
  have "breaker_step \<lparr>bs_breaker = ?open, bs_permits = [\<lparr>bp_generation = 0, bp_done = True\<rparr>]\<rparr>
      (\<lparr>bs_breaker = ?open, bs_permits = [\<lparr>bp_generation = 0, bp_done = True\<rparr>]\<rparr>
        \<lparr>bs_breaker := bs_breaker exampleHalfOpen,
         bs_permits := bs_permits \<lparr>bs_breaker = ?open, bs_permits = [\<lparr>bp_generation = 0, bp_done = True\<rparr>]\<rparr> @
           [\<lparr>bp_generation = 2, bp_done = False\<rparr>]\<rparr>)"
    by (rule breaker_step.granted [of 20])
       (simp add: Allow_def newPermit_def cooled_def exampleHalfOpen_def)
  then have 2: "breaker_step \<lparr>bs_breaker = ?open, bs_permits = [\<lparr>bp_generation = 0, bp_done = True\<rparr>]\<rparr> exampleHalfOpen"
    by (simp add: exampleHalfOpen_def)
  from breaker_path.step [OF breaker_path.step [OF breaker_path.refl 1] 2] show ?thesis
    by (simp add: numeral_2_eq_2)
qed

lemma exampleHalfOpen_reach: "breaker_reach exampleBreakerCfg 3 exampleHalfOpen"
  using breaker_path_reach [OF examplePath exampleFirst_reach] by (simp add: eval_nat_numeral)

lemma exampleCfg_go: "cfg_go exampleBreakerCfg"
  by (simp add: cfg_go_def go_int)

theorem breaker_probe_limit_witness: "snd (Allow 99 (bs_breaker exampleHalfOpen)) = None"
  using breaker_probe_limit [OF exampleHalfOpen_reach exampleCfg_go, of 99]
  by (simp add: exampleHalfOpen_def outstanding_def live_def)

theorem breaker_stale_result_inert_witness:
  "fst (resolve 30 breakerSuccess (bs_permits exampleHalfOpen ! 0) (bs_breaker exampleHalfOpen)) = bs_breaker exampleHalfOpen"
  by (rule breaker_stale_result_inert [OF exampleFirst_reach exampleCfg_go examplePath])
     (simp_all add: exampleFirst_def exampleHalfOpen_def)

theorem breaker_never_stuck_witness:
  "\<exists>t0. \<forall>now. t0 \<le> now \<longrightarrow> snd (Allow now (NewBreaker exampleBreakerCfg)) \<noteq> None"
  using breaker_never_stuck [OF breaker_reach.init exampleCfg_go] by simp

theorem breaker_opens_at_threshold_witness:
  "bk_state (recordAll 7 ([] @ [breakerFailure]) (NewBreaker exampleBreakerCfg)) = StateOpen"
  using breaker_opens_at_threshold [of "NewBreaker exampleBreakerCfg" "[]" 7]
  by (simp add: NewBreaker_example streak_def go_int)

end
