(* ===== verification/Routing.thy ===== *)
theory Routing
  imports Breaker Store "HOL-Library.Multiset"
begin

text \<open>
  The routing engine of \<open>internal/routing\<close>: channels, the weighted order of candidates and the router
  with its hot-swapped snapshot and one breaker per channel id. Channels are immutable and are
  modelled as values; breakers are shared objects (a candidate, the router's map and a running
  attempt refer to the same one), so the router's map holds addresses of a heap of breakers.

  \<open>math/rand\<close> is the argument \<open>intn\<close>: from a generator state and a bound it gives the number drawn
  and the next state; \<open>rng_ok\<close> is its documented range.
\<close>

section \<open>Channels\<close>

type_synonym format = string

definition FormatOpenAI :: format where "FormatOpenAI = ''openai''"
definition FormatAnthropic :: format where "FormatAnthropic = ''anthropic''"

record channel =
  ch_ID :: string
  ch_Name :: string
  ch_Format :: format
  ch_BaseURL :: string
  ch_APIKey :: string
  ch_Models :: "(string, string) gomap"
  ch_Priority :: int
  ch_Weight :: int
  ch_Enabled :: bool

definition Supports :: "channel \<Rightarrow> string \<Rightarrow> bool" where
  "Supports c model = (if \<not> ch_Enabled c then False else mhas (ch_Models c) model)"

definition UpstreamModel :: "channel \<Rightarrow> string \<Rightarrow> string" where
  "UpstreamModel c model =
     (case map_of (ch_Models c) model of
        Some v \<Rightarrow> if v \<noteq> [] then v else model
      | None \<Rightarrow> model)"

section \<open>Weighted order\<close>

type_synonym 'g rng = "'g \<Rightarrow> int \<Rightarrow> int \<times> 'g"

definition rng_ok :: "'g rng \<Rightarrow> bool" where
  "rng_ok intn \<longleftrightarrow> (\<forall>g n. 0 < n \<longrightarrow> 0 \<le> fst (intn g n) \<and> fst (intn g n) < n)"

definition effWeight :: "channel \<Rightarrow> int" where
  "effWeight c = (if ch_Weight c \<le> 0 then 1 else ch_Weight c)"

fun totalWeight :: "int \<Rightarrow> channel list \<Rightarrow> int" where
  "totalWeight tot [] = tot"
| "totalWeight tot (c # cs) = totalWeight (i64 (tot + effWeight c)) cs"

text \<open>The index whose weight interval contains \<open>r\<close>; \<open>idx\<close> stays 0 if none does.\<close>

fun pickIndex :: "int \<Rightarrow> int \<Rightarrow> nat \<Rightarrow> channel list \<Rightarrow> nat" where
  "pickIndex r acc i [] = 0"
| "pickIndex r acc i (c # cs) =
     (let acc' = i64 (acc + effWeight c)
      in if r < acc' then i else pickIndex r acc' (i + 1) cs)"

definition swapRemove :: "nat \<Rightarrow> 'a list \<Rightarrow> 'a list" where
  "swapRemove idx pool = butlast (pool[idx := last pool])"

text \<open>\<open>rng.Intn\<close> panics when its argument is not positive.\<close>

function shuffleLoop :: "'g rng \<Rightarrow> 'g \<Rightarrow> channel list \<Rightarrow> (channel list \<times> 'g) result" where
  "shuffleLoop intn g pool =
     (if pool = [] then Inr ([], g)
      else
        (let tot = totalWeight 0 pool in
         if tot \<le> 0 then Inl ErrPanic
         else
           (let (r, g') = intn g tot;
                idx = pickIndex r 0 0 pool
            in case shuffleLoop intn g' (swapRemove idx pool) of
                 Inl e \<Rightarrow> Inl e
               | Inr (out, g'') \<Rightarrow> Inr (pool ! idx # out, g''))))"
  by pat_completeness auto
termination by (relation "measure (\<lambda>(intn, g, pool). length pool)") (auto simp: swapRemove_def)

declare shuffleLoop.simps [simp del]

definition weightedShuffle :: "'g rng \<Rightarrow> 'g \<Rightarrow> channel list \<Rightarrow> (channel list \<times> 'g) result" where
  "weightedShuffle intn g channels =
     (if length channels \<le> 1 then Inr (channels, g) else shuffleLoop intn g channels)"

fun groupByPriority ::
  "(int, channel list) gomap \<Rightarrow> int list \<Rightarrow> channel list \<Rightarrow> (int, channel list) gomap \<times> int list" where
  "groupByPriority by ps [] = (by, ps)"
| "groupByPriority by ps (c # cs) =
     (let ps' = (if \<not> mhas by (ch_Priority c) then ps @ [ch_Priority c] else ps);
          group = (case map_of by (ch_Priority c) of None \<Rightarrow> [] | Some g \<Rightarrow> g)
      in groupByPriority (mput (ch_Priority c) (group @ [c]) by) ps' cs)"

fun shuffleGroups ::
  "'g rng \<Rightarrow> 'g \<Rightarrow> (int, channel list) gomap \<Rightarrow> int list \<Rightarrow> (channel list \<times> 'g) result" where
  "shuffleGroups intn g by [] = Inr ([], g)"
| "shuffleGroups intn g by (p # ps) =
     (case weightedShuffle intn g (case map_of by p of None \<Rightarrow> [] | Some cs \<Rightarrow> cs) of
        Inl e \<Rightarrow> Inl e
      | Inr (out, g') \<Rightarrow>
          (case shuffleGroups intn g' by ps of
             Inl e \<Rightarrow> Inl e
           | Inr (rest, g'') \<Rightarrow> Inr (out @ rest, g'')))"

definition orderCandidates :: "'g rng \<Rightarrow> 'g \<Rightarrow> channel list \<Rightarrow> (channel list \<times> 'g) result" where
  "orderCandidates intn g channels =
     (if length channels = 0 then Inr ([], g)
      else (let (by, priorities) = groupByPriority [] [] channels
            in shuffleGroups intn g by (rev (sort priorities))))"

section \<open>Router\<close>

record snapshot =
  sn_channels :: "channel list"
  sn_byModel :: "(string, channel list) gomap"

record router =
  ro_snap :: "snapshot option"
  ro_cfg :: breaker_config
  ro_breakers :: "(string, addr) gomap"
  ro_heap :: "(addr, breaker) gomap"
  ro_next :: addr

definition allocBreaker :: "router \<Rightarrow> router \<times> addr" where
  "allocBreaker r =
     (r\<lparr>ro_heap := mput (ro_next r) (NewBreaker (ro_cfg r)) (ro_heap r), ro_next := ro_next r + 1\<rparr>, ro_next r)"

definition appendModel :: "channel \<Rightarrow> string \<Rightarrow> (string, channel list) gomap \<Rightarrow> (string, channel list) gomap" where
  "appendModel c model idx =
     mput model ((case map_of idx model of None \<Rightarrow> [] | Some cs \<Rightarrow> cs) @ [c]) idx"

fun indexModels :: "(string, channel list) gomap \<Rightarrow> channel list \<Rightarrow> (string, channel list) gomap" where
  "indexModels idx [] = idx"
| "indexModels idx (c # cs) =
     (if \<not> ch_Enabled c then indexModels idx cs
      else indexModels (fold (appendModel c) (map fst (ch_Models c)) idx) cs)"

fun syncBreakers :: "router \<Rightarrow> (string, addr) gomap \<Rightarrow> channel list \<Rightarrow> router \<times> (string, addr) gomap" where
  "syncBreakers r next [] = (r, next)"
| "syncBreakers r next (c # cs) =
     (case map_of (ro_breakers r) (ch_ID c) of
        Some b \<Rightarrow> syncBreakers r (mput (ch_ID c) b next) cs
      | None \<Rightarrow> (let (r', b) = allocBreaker r in syncBreakers r' (mput (ch_ID c) b next) cs))"

text \<open>\<open>UpdateChannels\<close> stores the snapshot first and exchanges the breakers under the mutex afterwards;
  a \<open>Select\<close> may run between the two parts.\<close>

definition storeSnapshot :: "channel list \<Rightarrow> router \<Rightarrow> router" where
  "storeSnapshot channels r =
     r\<lparr>ro_snap := Some \<lparr>sn_channels = channels, sn_byModel = indexModels [] channels\<rparr>\<rparr>"

definition exchangeBreakers :: "channel list \<Rightarrow> router \<Rightarrow> router" where
  "exchangeBreakers channels r =
     (let (r', next) = syncBreakers r [] channels in r'\<lparr>ro_breakers := next\<rparr>)"

definition UpdateChannels :: "channel list \<Rightarrow> router \<Rightarrow> router" where
  "UpdateChannels channels r = exchangeBreakers channels (storeSnapshot channels r)"

definition NewRouter :: "channel list \<Rightarrow> breaker_config \<Rightarrow> router" where
  "NewRouter channels cfg = UpdateChannels channels
     \<lparr>ro_snap = None, ro_cfg = cfg, ro_breakers = [], ro_heap = [], ro_next = 0\<rparr>"

record candidate =
  cd_Channel :: channel
  cd_Breaker :: addr

definition Channels :: "router \<Rightarrow> channel list" where
  "Channels r = (case ro_snap r of None \<Rightarrow> [] | Some snap \<Rightarrow> sn_channels snap)"

fun readyCandidates :: "gotime \<Rightarrow> router \<Rightarrow> channel list \<Rightarrow> router \<times> candidate list" where
  "readyCandidates now r [] = (r, [])"
| "readyCandidates now r (c # cs) =
     (let (r1, a) = (case map_of (ro_breakers r) (ch_ID c) of
                       Some a \<Rightarrow> (r, a)
                     | None \<Rightarrow> (let (r', a) = allocBreaker r
                               in (r'\<lparr>ro_breakers := mput (ch_ID c) a (ro_breakers r')\<rparr>, a)));
          (r2, rest) = readyCandidates now r1 cs;
          ready = (case map_of (ro_heap r1) a of None \<Rightarrow> False | Some b \<Rightarrow> Ready now b)
      in (r2, if ready then \<lparr>cd_Channel = c, cd_Breaker = a\<rparr> # rest else rest))"

definition Select :: "'g rng \<Rightarrow> 'g \<Rightarrow> gotime \<Rightarrow> string \<Rightarrow> router \<Rightarrow> router \<times> candidate list result" where
  "Select intn g now model r =
     (case ro_snap r of
        None \<Rightarrow> (r, Inl ErrNoChannel)
      | Some snap \<Rightarrow>
          (let matched = (case map_of (sn_byModel snap) model of None \<Rightarrow> [] | Some cs \<Rightarrow> cs) in
           if length matched = 0 then (r, Inl ErrNoChannel)
           else (case orderCandidates intn g matched of
                   Inl e \<Rightarrow> (r, Inl e)
                 | Inr (ordered, g') \<Rightarrow>
                     (let (r', candidates) = readyCandidates now r ordered
                      in if length candidates = 0 then (r', Inl ErrNoChannel)
                         else (r', Inr candidates)))))"

section \<open>The weighted order\<close>

definition weights :: "channel list \<Rightarrow> int" where
  "weights cs = sum_list (map effWeight cs)"

lemma effWeight_pos [simp]: "0 < effWeight c"
  by (simp add: effWeight_def)

lemma effWeight_nonneg [simp]: "0 \<le> effWeight c"
  by (simp add: less_imp_le)

lemma weights_simps [simp]: "weights [] = 0" "weights (c # cs) = effWeight c + weights cs"
  by (simp_all add: weights_def)

lemma weights_nonneg [simp]: "0 \<le> weights cs"
  by (induction cs) (auto intro: add_nonneg_nonneg)

lemma weights_pos: "cs \<noteq> [] \<Longrightarrow> 0 < weights cs"
  by (cases cs) (auto intro: add_pos_nonneg)

lemma weights_mset: "mset xs = mset ys \<Longrightarrow> weights xs = weights ys"
  unfolding weights_def by (metis mset_map sum_mset_sum_list)

lemma totalWeight_ok:
  "0 \<le> tot \<Longrightarrow> tot + weights cs \<le> max_int64 \<Longrightarrow> totalWeight tot cs = tot + weights cs"
proof (induction cs arbitrary: tot)
  case (Cons c cs)
  have "i64 (tot + effWeight c) = tot + effWeight c"
    using Cons.prems weights_nonneg [of cs] effWeight_pos [of c]
    by (intro i64_id) (auto simp: go_int simp del: weights_nonneg effWeight_pos)
  then show ?case
    using Cons.IH [of "tot + effWeight c"] Cons.prems effWeight_pos [of c] by (simp del: effWeight_pos)
qed simp

text \<open>The index picked is the one whose interval of prefix sums contains the draw.\<close>

lemma pickIndex_ok:
  assumes "0 \<le> acc" "acc + weights cs \<le> max_int64" "acc \<le> r" "r < acc + weights cs"
  shows "\<exists>j < length cs. pickIndex r acc i cs = i + j \<and>
           acc + weights (take j cs) \<le> r \<and> r < acc + weights (take (Suc j) cs)"
  using assms
proof (induction cs arbitrary: acc i)
  case (Cons c cs)
  have i64: "i64 (acc + effWeight c) = acc + effWeight c"
    using Cons.prems weights_nonneg [of cs] effWeight_pos [of c]
    by (intro i64_id) (auto simp: go_int simp del: weights_nonneg effWeight_pos)
  show ?case
  proof (cases "r < acc + effWeight c")
    case True
    then show ?thesis using Cons.prems by (intro exI [of _ 0]) (simp add: i64 Let_def)
  next
    case False
    have "0 \<le> acc + effWeight c" using Cons.prems(1) effWeight_pos [of c] by linarith
    then obtain j where "j < length cs" "pickIndex r (acc + effWeight c) (i + 1) cs = i + 1 + j"
      "acc + effWeight c + weights (take j cs) \<le> r" "r < acc + effWeight c + weights (take (Suc j) cs)"
      using Cons.IH [of "acc + effWeight c" "i + 1"] Cons.prems False by (auto simp: add.assoc)
    then show ?thesis using False by (intro exI [of _ "Suc j"]) (simp add: i64 Let_def add.assoc)
  qed
qed simp

lemma weights_take_mono: "j \<le> k \<Longrightarrow> weights (take j cs) \<le> weights (take k cs)"
proof (induction cs arbitrary: j k)
  case (Cons c cs)
  then show ?case by (cases j; cases k) (auto intro: add_nonneg_nonneg)
qed simp

lemma pickIndex_iff:
  assumes "weights cs \<le> max_int64" "0 \<le> r" "r < weights cs" "k < length cs"
  shows "pickIndex r 0 0 cs = k \<longleftrightarrow> weights (take k cs) \<le> r \<and> r < weights (take (Suc k) cs)"
proof -
  obtain j where j: "j < length cs" "pickIndex r 0 0 cs = j"
    "weights (take j cs) \<le> r" "r < weights (take (Suc j) cs)"
    using pickIndex_ok [of 0 cs r 0] assms by auto
  have "weights (take k cs) \<le> r \<and> r < weights (take (Suc k) cs) \<Longrightarrow> k = j"
    using j weights_take_mono [of "Suc j" k cs] weights_take_mono [of "Suc k" j cs]
    by (cases j k rule: linorder_cases) auto
  then show ?thesis using j by auto
qed

lemma swapRemove_mset:
  assumes "idx < length pool"
  shows "add_mset (pool ! idx) (mset (swapRemove idx pool)) = mset pool"
proof -
  obtain xs x where pool: "pool = xs @ [x]" using assms by (cases pool rule: rev_exhaust) auto
  show ?thesis
  proof (cases "idx = length xs")
    case True
    then show ?thesis by (simp add: swapRemove_def pool)
  next
    case False
    then have idx: "idx < length xs" using assms pool by simp
    then have "mset (xs[idx := x]) = add_mset x (mset xs - {#xs ! idx#})" by (rule mset_update)
    then show ?thesis using idx
      by (simp add: swapRemove_def pool nth_append list_update_append butlast_append)
  qed
qed

lemma swapRemove_length: "idx < length pool \<Longrightarrow> length (swapRemove idx pool) < length pool"
  by (simp add: swapRemove_def)

lemma shuffleLoop_ok:
  assumes "rng_ok intn"
  shows "weights pool \<le> max_int64 \<Longrightarrow> \<exists>out g'. shuffleLoop intn g pool = Inr (out, g') \<and> mset out = mset pool"
proof (induction pool arbitrary: g rule: length_induct)
  case (1 pool)
  show ?case
  proof (cases "pool = []")
    case True
    then show ?thesis by (simp add: shuffleLoop.simps)
  next
    case False
    have tot: "totalWeight 0 pool = weights pool" using "1.prems" by (simp add: totalWeight_ok)
    have pos: "0 < weights pool" using False by (rule weights_pos)
    obtain r g' where rng: "intn g (weights pool) = (r, g')" by fastforce
    then have r: "0 \<le> r" "r < weights pool" using assms pos by (auto simp: rng_ok_def dest!: spec [of _ g] spec [of _ "weights pool"])
    let ?idx = "pickIndex r 0 0 pool"
    have idx: "?idx < length pool" using pickIndex_ok [of 0 pool r 0] "1.prems" r by auto
    note m = swapRemove_mset [OF idx]
    have "weights (pool ! ?idx # swapRemove ?idx pool) = weights pool" by (rule weights_mset) (simp add: m)
    then have "weights (swapRemove ?idx pool) \<le> max_int64"
      using "1.prems" effWeight_pos [of "pool ! ?idx"] by (simp del: effWeight_pos)
    then obtain out g'' where "shuffleLoop intn g' (swapRemove ?idx pool) = Inr (out, g'')"
      "mset out = mset (swapRemove ?idx pool)"
      using "1.IH" swapRemove_length [OF idx] by blast
    then show ?thesis using False tot pos rng m by (subst shuffleLoop.simps) (simp add: Let_def)
  qed
qed

lemma weightedShuffle_ok:
  assumes "rng_ok intn" "weights cs \<le> max_int64"
  shows "\<exists>out g'. weightedShuffle intn g cs = Inr (out, g') \<and> mset out = mset cs"
  using shuffleLoop_ok [OF assms] by (auto simp: weightedShuffle_def)

text \<open>Grouping by priority.\<close>

definition ofPriority :: "int \<Rightarrow> channel list \<Rightarrow> channel list" where
  "ofPriority p cs = filter (\<lambda>c. ch_Priority c = p) cs"

lemma groupByPriority_ok:
  assumes "groupByPriority by ps cs = (by', ps')" "distinct ps" "set ps = {p. mhas by p}"
  shows "distinct ps' \<and> set ps' = set ps \<union> ch_Priority ` set cs \<and>
     (\<forall>p. map_of by' p = (if mhas by p \<or> p \<in> ch_Priority ` set cs
        then Some ((case map_of by p of None \<Rightarrow> [] | Some g \<Rightarrow> g) @ ofPriority p cs) else None))"
  using assms
proof (induction cs arbitrary: "by" ps)
  case Nil
  then show ?case by (auto simp: mhas_def ofPriority_def split: option.splits)
next
  case (Cons c cs)
  let ?p = "ch_Priority c"
  let ?by = "mput ?p ((case map_of by ?p of None \<Rightarrow> [] | Some g \<Rightarrow> g) @ [c]) by"
  let ?ps = "if \<not> mhas by ?p then ps @ [?p] else ps"
  have "groupByPriority ?by ?ps cs = (by', ps')" using Cons.prems(1) by (simp add: Let_def)
  moreover have "distinct ?ps" "set ?ps = {p. mhas ?by p}"
    using Cons.prems(2,3) by (auto simp: mhas_def)
  ultimately have ih: "distinct ps'" "set ps' = set ?ps \<union> ch_Priority ` set cs"
    "\<forall>p. map_of by' p = (if mhas ?by p \<or> p \<in> ch_Priority ` set cs
        then Some ((case map_of ?by p of None \<Rightarrow> [] | Some g \<Rightarrow> g) @ ofPriority p cs) else None)"
    using Cons.IH by blast+
  have "set ps' = set ps \<union> ch_Priority ` set (c # cs)"
    using ih(2) Cons.prems(3) by auto
  moreover have "map_of by' p = (if mhas by p \<or> p \<in> ch_Priority ` set (c # cs)
        then Some ((case map_of by p of None \<Rightarrow> [] | Some g \<Rightarrow> g) @ ofPriority p (c # cs)) else None)" for p
    using spec [OF ih(3), of p] by (auto simp: mhas_def ofPriority_def)
  ultimately show ?case using ih(1) by blast
qed

lemma shuffleGroups_ok:
  assumes "rng_ok intn" "\<And>p. p \<in> set ps \<Longrightarrow> map_of by p = Some (ofPriority p cs)" "weights cs \<le> max_int64"
    and "sorted_wrt (>) ps"
  shows "\<exists>out g'. shuffleGroups intn g by ps = Inr (out, g') \<and>
     mset out = mset (filter (\<lambda>c. ch_Priority c \<in> set ps) cs) \<and> sorted_wrt (\<ge>) (map ch_Priority out)"
  using assms(2,4)
proof (induction ps arbitrary: g)
  case (Cons p ps)
  have "weights (ofPriority p cs) \<le> weights cs"
    by (induction cs) (auto simp: ofPriority_def intro: add_increasing)
  then obtain out g1 where o1: "weightedShuffle intn g (ofPriority p cs) = Inr (out, g1)"
    "mset out = mset (ofPriority p cs)"
    using weightedShuffle_ok [OF assms(1) order_trans [OF _ assms(3)], of "ofPriority p cs" g] by blast
  obtain rest g2 where o2: "shuffleGroups intn g1 by ps = Inr (rest, g2)"
    "mset rest = mset (filter (\<lambda>c. ch_Priority c \<in> set ps) cs)" "sorted_wrt (\<ge>) (map ch_Priority rest)"
    using Cons.IH [of g1] Cons.prems by auto
  have "p \<notin> set ps" using Cons.prems(2) by auto
  then have "mset (out @ rest) = mset (filter (\<lambda>c. ch_Priority c \<in> set (p # ps)) cs)"
    unfolding mset_append o1(2) o2(2) by (induction cs) (auto simp: ofPriority_def)
  moreover have "sorted_wrt (\<ge>) (map ch_Priority (out @ rest))"
  proof -
    have a: "ch_Priority c = p" if "c \<in> set out" for c
      using that mset_eq_setD [OF o1(2)] by (simp add: ofPriority_def)
    have b: "ch_Priority c < p" if "c \<in> set rest" for c
      using that mset_eq_setD [OF o2(2)] Cons.prems(2) by simp
    have "map ch_Priority out = replicate (length out) p"
      using a by (induction out) auto
    then have "sorted_wrt (\<ge>) (map ch_Priority out)" by (simp add: sorted_wrt_iff_nth_less)
    moreover have "\<forall>x \<in> set out. \<forall>y \<in> set rest. ch_Priority y \<le> ch_Priority x"
      using a b by (metis less_imp_le)
    ultimately show ?thesis using o2(3) by (simp add: sorted_wrt_append)
  qed
  moreover have "map_of by p = Some (ofPriority p cs)" using Cons.prems(1) by simp
  ultimately show ?case using o1(1) o2(1) by simp
qed simp

lemma orderCandidates_ok:
  assumes "rng_ok intn" "weights cs \<le> max_int64"
  shows "\<exists>out g'. orderCandidates intn g cs = Inr (out, g') \<and> mset out = mset cs \<and>
           sorted_wrt (\<ge>) (map ch_Priority out)"
proof (cases "cs = []")
  case False
  obtain by' ps where grp: "groupByPriority [] [] cs = (by', ps)" by fastforce
  note g = groupByPriority_ok [OF grp, simplified mhas_def, simplified]
  have "sorted_wrt (<) (sort ps)" using g by (simp add: strict_sorted_iff)
  then have "sorted_wrt (>) (rev (sort ps))" by (simp add: sorted_wrt_rev)
  moreover have "map_of by' p = Some (ofPriority p cs)" if "p \<in> set (rev (sort ps))" for p
    using g that by simp
  ultimately obtain out g' where out: "shuffleGroups intn g by' (rev (sort ps)) = Inr (out, g')"
     "mset out = mset (filter (\<lambda>c. ch_Priority c \<in> set (rev (sort ps))) cs)" "sorted_wrt (\<ge>) (map ch_Priority out)"
    using shuffleGroups_ok [OF assms(1) _ assms(2)] by blast
  have "filter (\<lambda>c. ch_Priority c \<in> set (rev (sort ps))) cs = cs" using g by simp
  then have "mset out = mset cs" using out(2) by (simp only:)
  then show ?thesis using False grp out(1,3) by (simp add: orderCandidates_def)
qed (simp add: orderCandidates_def)

section \<open>Snapshots and breakers\<close>

text \<open>The model index lists, for each model, the channels that support it in the order given.\<close>

definition indexed :: "(string, channel list) gomap \<Rightarrow> string \<Rightarrow> channel list" where
  "indexed idx m = (case map_of idx m of None \<Rightarrow> [] | Some cs \<Rightarrow> cs)"

lemma indexed_append:
  "distinct ms \<Longrightarrow> indexed (fold (appendModel c) ms idx) m = indexed idx m @ (if m \<in> set ms then [c] else [])"
proof (induction ms arbitrary: idx)
  case (Cons x ms)
  have "indexed (appendModel c x idx) m = indexed idx m @ (if m = x then [c] else [])"
    by (simp add: indexed_def appendModel_def)
  then show ?case using Cons by auto
qed simp

lemma indexModels_ok:
  "\<forall>c \<in> set cs. mwf (ch_Models c) \<Longrightarrow> indexed (indexModels idx cs) m = indexed idx m @ filter (\<lambda>c. Supports c m) cs"
proof (induction cs arbitrary: idx)
  case (Cons c cs)
  have "m \<in> set (map fst (ch_Models c)) \<longleftrightarrow> mhas (ch_Models c) m"
    by (simp add: mhas_def map_of_eq_None_iff)
  then show ?case using Cons indexed_append [of "map fst (ch_Models c)" c]
    by (simp add: Supports_def mwf_def)
qed simp

definition router_inv :: "router \<Rightarrow> bool" where
  "router_inv r \<longleftrightarrow> (\<forall>a. mhas (ro_heap r) a \<longrightarrow> a < ro_next r) \<and>
     (\<forall>i a. map_of (ro_breakers r) i = Some a \<longrightarrow> mhas (ro_heap r) a)"

definition breakerOf :: "router \<Rightarrow> string \<Rightarrow> breaker option" where
  "breakerOf r i = (case map_of (ro_breakers r) i of None \<Rightarrow> None | Some a \<Rightarrow> map_of (ro_heap r) a)"

text \<open>What synchronising the breakers does to the heap and the new map.\<close>

definition synced ::
  "router \<Rightarrow> router \<Rightarrow> (string, addr) gomap \<Rightarrow> (string, addr) gomap \<Rightarrow> string set \<Rightarrow> bool" where
  "synced r r' next next' ids \<longleftrightarrow>
     ro_breakers r' = ro_breakers r \<and> ro_snap r' = ro_snap r \<and> ro_cfg r' = ro_cfg r \<and>
     (\<forall>a. mhas (ro_heap r) a \<longrightarrow> map_of (ro_heap r') a = map_of (ro_heap r) a) \<and>
     (\<forall>a. mhas (ro_heap r') a \<longrightarrow> a < ro_next r') \<and>
     (\<forall>i a. map_of next' i = Some a \<longrightarrow> mhas (ro_heap r') a) \<and>
     (\<forall>i a. i \<in> ids \<and> map_of (ro_breakers r) i = Some a \<longrightarrow> map_of next' i = Some a) \<and>
     (\<forall>i. i \<in> ids \<and> map_of (ro_breakers r) i = None \<longrightarrow>
        (\<exists>a. map_of next' i = Some a \<and> map_of (ro_heap r') a = Some (NewBreaker (ro_cfg r)))) \<and>
     (\<forall>i. i \<notin> ids \<longrightarrow> map_of next' i = map_of next i)"

lemma syncedD:
  assumes "synced r r' next next' ids"
  shows "ro_snap r' = ro_snap r" "ro_cfg r' = ro_cfg r"
    "\<And>a. mhas (ro_heap r) a \<Longrightarrow> map_of (ro_heap r') a = map_of (ro_heap r) a"
    "\<And>a. mhas (ro_heap r') a \<Longrightarrow> a < ro_next r'"
    "\<And>i a. map_of next' i = Some a \<Longrightarrow> mhas (ro_heap r') a"
    "\<And>i a. i \<in> ids \<Longrightarrow> map_of (ro_breakers r) i = Some a \<Longrightarrow> map_of next' i = Some a"
    "\<And>i. i \<in> ids \<Longrightarrow> map_of (ro_breakers r) i = None \<Longrightarrow>
        (\<exists>a. map_of next' i = Some a \<and> map_of (ro_heap r') a = Some (NewBreaker (ro_cfg r)))"
    "\<And>i. i \<notin> ids \<Longrightarrow> map_of next' i = map_of next i"
  using assms unfolding synced_def by blast+

text \<open>Keeping a breaker, or allocating one, before the rest.\<close>

lemma synced_keep:
  assumes "synced r r' (mput i b next) next' ids" "map_of (ro_breakers r) i = Some b"
  shows "synced r r' next next' (insert i ids)"
  using assms by (cases "i \<in> ids") (auto simp: synced_def)

lemma synced_alloc:
  assumes "synced (fst (allocBreaker r)) r' (mput i (ro_next r) next) next' ids"
    and "map_of (ro_breakers r) i = None" "\<not> mhas (ro_heap r) (ro_next r)"
  shows "synced r r' next next' (insert i ids)"
proof -
  let ?r = "fst (allocBreaker r)"
  have simps: "ro_breakers ?r = ro_breakers r" "ro_snap ?r = ro_snap r" "ro_cfg ?r = ro_cfg r"
    "map_of (ro_heap ?r) = (map_of (ro_heap r))(ro_next r \<mapsto> NewBreaker (ro_cfg r))"
    by (simp_all add: allocBreaker_def)
  have heap: "map_of (ro_heap r') a = map_of (ro_heap ?r) a" if "mhas (ro_heap ?r) a" for a
    using assms(1) that by (simp add: synced_def)
  have new: "map_of (ro_heap r') (ro_next r) = Some (NewBreaker (ro_cfg r))"
    using heap [of "ro_next r"] by (simp add: mhas_def simps)
  have old: "map_of (ro_heap r') a = map_of (ro_heap r) a" if "mhas (ro_heap r) a" for a
    using heap [of a] that assms(3) by (auto simp: mhas_def simps)
  have "map_of next' j = map_of next j" if "j \<notin> insert i ids" for j
    using assms(1) that by (simp add: synced_def)
  moreover have "\<exists>a. map_of next' j = Some a \<and> map_of (ro_heap r') a = Some (NewBreaker (ro_cfg r))"
    if "j \<in> insert i ids" "map_of (ro_breakers r) j = None" for j
    using assms(1) that new by (cases "j \<in> ids") (auto simp: synced_def simps)
  moreover have "map_of next' j = Some a" if "j \<in> insert i ids" "map_of (ro_breakers r) j = Some a" for j a
    using assms(1,2) that by (auto simp: synced_def simps)
  ultimately show ?thesis using assms(1) old unfolding synced_def simps by blast
qed

lemma syncBreakers_ok:
  assumes "syncBreakers r next cs = (r', next')"
    and "\<forall>a. mhas (ro_heap r) a \<longrightarrow> a < ro_next r" "\<forall>i a. map_of next i = Some a \<longrightarrow> mhas (ro_heap r) a"
    and "\<forall>i a. map_of (ro_breakers r) i = Some a \<longrightarrow> mhas (ro_heap r) a"
  shows "synced r r' next next' (ch_ID ` set cs)"
  using assms
proof (induction cs arbitrary: r "next")
  case Nil
  then show ?case by (auto simp: synced_def)
next
  case (Cons c cs)
  show ?case
  proof (cases "map_of (ro_breakers r) (ch_ID c)")
    case (Some b)
    then have run: "syncBreakers r (mput (ch_ID c) b next) cs = (r', next')" using Cons.prems(1) by simp
    have "\<forall>i a. map_of (mput (ch_ID c) b next) i = Some a \<longrightarrow> mhas (ro_heap r) a"
      using Cons.prems(3,4) Some by auto
    from synced_keep [OF Cons.IH [OF run Cons.prems(2) this Cons.prems(4)] Some] show ?thesis by simp
  next
    case None
    let ?r = "fst (allocBreaker r)"
    have run: "syncBreakers ?r (mput (ch_ID c) (ro_next r) next) cs = (r', next')"
      using Cons.prems(1) None by (simp add: allocBreaker_def)
    have p1: "\<forall>a. mhas (ro_heap ?r) a \<longrightarrow> a < ro_next ?r"
      using Cons.prems(2) by (auto simp: mhas_def less_Suc_eq allocBreaker_def)
    have p2: "\<forall>i a. map_of (mput (ch_ID c) (ro_next r) next) i = Some a \<longrightarrow> mhas (ro_heap ?r) a"
      using Cons.prems(3) by (auto simp: mhas_def allocBreaker_def)
    have p3: "\<forall>i a. map_of (ro_breakers ?r) i = Some a \<longrightarrow> mhas (ro_heap ?r) a"
      using Cons.prems(4) by (auto simp: mhas_def allocBreaker_def)
    have "\<not> mhas (ro_heap r) (ro_next r)" using Cons.prems(2) by auto
    from synced_alloc [OF Cons.IH [OF run p1 p2 p3] None this] show ?thesis by simp
  qed
qed

lemma exchangeBreakers_synced:
  assumes "router_inv r"
  shows "\<exists>r' next'. exchangeBreakers cs r = r'\<lparr>ro_breakers := next'\<rparr> \<and> synced r r' [] next' (ch_ID ` set cs)"
proof -
  obtain r' next' where s: "syncBreakers r [] cs = (r', next')" by fastforce
  have "synced r r' [] next' (ch_ID ` set cs)"
    using assms by (intro syncBreakers_ok [OF s]) (auto simp: router_inv_def)
  then show ?thesis by (auto simp: exchangeBreakers_def s)
qed

lemma exchangeBreakers_ok:
  assumes "router_inv r"
  shows "router_inv (exchangeBreakers cs r)" "ro_snap (exchangeBreakers cs r) = ro_snap r"
    "ro_cfg (exchangeBreakers cs r) = ro_cfg r"
    "map_of (ro_breakers (exchangeBreakers cs r)) i \<noteq> None \<longleftrightarrow> i \<in> ch_ID ` set cs"
    "i \<in> ch_ID ` set cs \<Longrightarrow> map_of (ro_breakers r) i = Some a \<Longrightarrow>
        map_of (ro_breakers (exchangeBreakers cs r)) i = Some a"
    "mhas (ro_heap r) a \<Longrightarrow> map_of (ro_heap (exchangeBreakers cs r)) a = map_of (ro_heap r) a"
    "i \<in> ch_ID ` set cs \<Longrightarrow> map_of (ro_breakers r) i = None \<Longrightarrow>
        breakerOf (exchangeBreakers cs r) i = Some (NewBreaker (ro_cfg r))"
proof -
  obtain r' next' where e: "exchangeBreakers cs r = r'\<lparr>ro_breakers := next'\<rparr>"
    and s: "synced r r' [] next' (ch_ID ` set cs)"
    using exchangeBreakers_synced [OF assms] by blast
  show "router_inv (exchangeBreakers cs r)" "ro_snap (exchangeBreakers cs r) = ro_snap r"
    "ro_cfg (exchangeBreakers cs r) = ro_cfg r"
    using syncedD(1,2,4,5) [OF s] by (simp_all add: e router_inv_def)
  show "map_of (ro_breakers (exchangeBreakers cs r)) i \<noteq> None \<longleftrightarrow> i \<in> ch_ID ` set cs"
  proof (cases "i \<in> ch_ID ` set cs")
    case True
    then have "map_of next' i \<noteq> None"
      using syncedD(6) [OF s True] syncedD(7) [OF s True] by (cases "map_of (ro_breakers r) i") auto
    then show ?thesis using True by (simp add: e)
  next
    case False
    then show ?thesis using syncedD(8) [OF s False] by (simp add: e)
  qed
  show "i \<in> ch_ID ` set cs \<Longrightarrow> map_of (ro_breakers r) i = Some a \<Longrightarrow>
        map_of (ro_breakers (exchangeBreakers cs r)) i = Some a"
    using syncedD(6) [OF s] by (simp add: e)
  show "mhas (ro_heap r) a \<Longrightarrow> map_of (ro_heap (exchangeBreakers cs r)) a = map_of (ro_heap r) a"
    using syncedD(3) [OF s] by (simp add: e)
  show "breakerOf (exchangeBreakers cs r) i = Some (NewBreaker (ro_cfg r))"
    if "i \<in> ch_ID ` set cs" "map_of (ro_breakers r) i = None"
  proof -
    have "\<exists>x. map_of next' i = Some x \<and> map_of (ro_heap r') x = Some (NewBreaker (ro_cfg r))"
      by (rule syncedD(7) [OF s that])
    then show ?thesis by (auto simp: breakerOf_def e)
  qed
qed

text \<open>Filtering by readiness: a channel without breaker (a snapshot newer than the breakers) gets a fresh
  one, and nothing else changes.\<close>

definition currentBreaker :: "router \<Rightarrow> string \<Rightarrow> breaker" where
  "currentBreaker r i = (case breakerOf r i of None \<Rightarrow> NewBreaker (ro_cfg r) | Some b \<Rightarrow> b)"

definition extends :: "router \<Rightarrow> router \<Rightarrow> bool" where
  "extends r r' \<longleftrightarrow> router_inv r' \<and> ro_snap r' = ro_snap r \<and> ro_cfg r' = ro_cfg r \<and>
     (\<forall>i a. map_of (ro_breakers r) i = Some a \<longrightarrow> map_of (ro_breakers r') i = Some a) \<and>
     (\<forall>a. mhas (ro_heap r) a \<longrightarrow> map_of (ro_heap r') a = map_of (ro_heap r) a) \<and>
     (\<forall>i. currentBreaker r' i = currentBreaker r i)"

lemma extends_refl: "router_inv r \<Longrightarrow> extends r r"
  by (simp add: extends_def)

lemma extends_trans: "extends r s \<Longrightarrow> extends s t \<Longrightarrow> extends r t"
  unfolding extends_def mhas_def by (metis (no_types, lifting))

definition ensureBreaker :: "router \<Rightarrow> string \<Rightarrow> router \<times> addr" where
  "ensureBreaker r i =
     (case map_of (ro_breakers r) i of
        Some a \<Rightarrow> (r, a)
      | None \<Rightarrow> (let (r', a) = allocBreaker r in (r'\<lparr>ro_breakers := mput i a (ro_breakers r')\<rparr>, a)))"

lemma ensureBreaker_ok:
  assumes "router_inv r" "ensureBreaker r i = (r', a)"
  shows "extends r r'" "map_of (ro_breakers r') i = Some a" "map_of (ro_heap r') a = Some (currentBreaker r i)"
proof -
  show "map_of (ro_breakers r') i = Some a"
    using assms(2) by (auto simp: ensureBreaker_def allocBreaker_def split: option.splits)
  show "map_of (ro_heap r') a = Some (currentBreaker r i)"
    using assms by (auto simp: ensureBreaker_def allocBreaker_def currentBreaker_def breakerOf_def
        router_inv_def mhas_def split: option.splits)
  show "extends r r'"
  proof (cases "map_of (ro_breakers r) i")
    case (Some x)
    then show ?thesis using assms by (simp add: ensureBreaker_def extends_refl)
  next
    case None
    have fresh: "\<not> mhas (ro_heap r) (ro_next r)" using assms(1) by (auto simp: router_inv_def)
    then have nobody: "map_of (ro_breakers r) j \<noteq> Some (ro_next r)" for j
      using assms(1) by (auto simp: router_inv_def)
    have r': "r' = r\<lparr>ro_heap := mput (ro_next r) (NewBreaker (ro_cfg r)) (ro_heap r), ro_next := ro_next r + 1,
        ro_breakers := mput i (ro_next r) (ro_breakers r)\<rparr>"
      using assms(2) None by (auto simp: ensureBreaker_def allocBreaker_def)
    have inv: "router_inv r'"
      using assms(1) unfolding r' router_inv_def by (auto simp: mhas_def less_Suc_eq)
    have "currentBreaker r' j = currentBreaker r j" for j
      using None nobody by (auto simp: r' currentBreaker_def breakerOf_def split: option.splits)
    then show ?thesis using inv None fresh by (auto simp: extends_def r')
  qed
qed

lemma readyCandidates_Cons:
  "readyCandidates now r (c # cs) =
     (let (r1, a) = ensureBreaker r (ch_ID c); (r2, rest) = readyCandidates now r1 cs;
          ready = (case map_of (ro_heap r1) a of None \<Rightarrow> False | Some b \<Rightarrow> Ready now b)
      in (r2, if ready then \<lparr>cd_Channel = c, cd_Breaker = a\<rparr> # rest else rest))"
  by (simp add: ensureBreaker_def)

definition candidate_ok :: "router \<Rightarrow> candidate \<Rightarrow> bool" where
  "candidate_ok r x \<longleftrightarrow> map_of (ro_breakers r) (ch_ID (cd_Channel x)) = Some (cd_Breaker x)"

lemma readyCandidates_ok:
  assumes "router_inv r" "readyCandidates now r cs = (r', xs)"
  shows "extends r r' \<and>
     map cd_Channel xs = filter (\<lambda>c. Ready now (currentBreaker r (ch_ID c))) cs \<and> (\<forall>x \<in> set xs. candidate_ok r' x)"
  using assms
proof (induction cs arbitrary: r xs)
  case Nil
  then show ?case by (simp add: extends_refl)
next
  case (Cons c cs)
  obtain r1 a where e: "ensureBreaker r (ch_ID c) = (r1, a)" by fastforce
  obtain rest where rest: "readyCandidates now r1 cs = (r', rest)"
    "xs = (if Ready now (currentBreaker r (ch_ID c)) then \<lparr>cd_Channel = c, cd_Breaker = a\<rparr> # rest else rest)"
    using Cons.prems(2) ensureBreaker_ok(3) [OF Cons.prems(1) e]
    by (simp add: readyCandidates_Cons e Let_def split: prod.splits del: readyCandidates.simps)
  note en = ensureBreaker_ok [OF Cons.prems(1) e]
  have "router_inv r1" using en(1) by (simp add: extends_def)
  note ih = Cons.IH [OF this rest(1)]
  have cur: "currentBreaker r1 i = currentBreaker r i" for i using en(1) by (simp add: extends_def)
  have "extends r r'" using extends_trans [OF en(1)] ih by blast
  moreover have "map_of (ro_breakers r') (ch_ID c) = Some a"
    using ih en(2) unfolding extends_def by blast
  ultimately show ?case using ih by (auto simp: rest(2) cur candidate_ok_def)
qed

section \<open>Reachable routers\<close>

text \<open>The two parts of a hot reload, selections and the attempts' use of their breakers, in any
  interleaving.\<close>

inductive router_reach :: "'g rng \<Rightarrow> breaker_config \<Rightarrow> router \<Rightarrow> bool" for intn cfg where
  start: "\<forall>c \<in> set cs. mwf (ch_Models c) \<Longrightarrow> router_reach intn cfg (NewRouter cs cfg)"
| reload: "router_reach intn cfg r \<Longrightarrow> \<forall>c \<in> set cs. mwf (ch_Models c) \<Longrightarrow> router_reach intn cfg (storeSnapshot cs r)"
| exchange: "router_reach intn cfg r \<Longrightarrow> router_reach intn cfg (exchangeBreakers cs r)"
| selected: "router_reach intn cfg r \<Longrightarrow> router_reach intn cfg (fst (Select intn g now model r))"
| allowed: "router_reach intn cfg r \<Longrightarrow> map_of (ro_heap r) a = Some b \<Longrightarrow>
    router_reach intn cfg (r\<lparr>ro_heap := mput a (fst (Allow now b)) (ro_heap r)\<rparr>)"
| reported: "router_reach intn cfg r \<Longrightarrow> map_of (ro_heap r) a = Some b \<Longrightarrow>
    router_reach intn cfg (r\<lparr>ro_heap := mput a (fst (resolve now res p b)) (ro_heap r)\<rparr>)"

definition snap_ok :: "snapshot option \<Rightarrow> bool" where
  "snap_ok so \<longleftrightarrow> (case so of None \<Rightarrow> True
     | Some s \<Rightarrow> sn_byModel s = indexModels [] (sn_channels s) \<and> (\<forall>c \<in> set (sn_channels s). mwf (ch_Models c)))"

lemma Select_ok:
  assumes "router_inv r" "snap_ok (ro_snap r)" "ro_snap r = Some snap" "rng_ok intn"
    and "weights (filter (\<lambda>c. Supports c model) (sn_channels snap)) \<le> max_int64"
    and "Select intn g now model r = (r', res)"
  shows "extends r r' \<and>
     (let eligible = filter (\<lambda>c. Supports c model \<and> Ready now (currentBreaker r (ch_ID c))) (sn_channels snap)
      in if eligible = [] then res = Inl ErrNoChannel
         else (\<exists>xs. res = Inr xs \<and> mset (map cd_Channel xs) = mset eligible \<and>
                sorted_wrt (\<ge>) (map (ch_Priority \<circ> cd_Channel) xs) \<and> (\<forall>x \<in> set xs. candidate_ok r' x)))"
proof -
  let ?matched = "filter (\<lambda>c. Supports c model) (sn_channels snap)"
  let ?ready = "\<lambda>c. Ready now (currentBreaker r (ch_ID c))"
  have "indexed (sn_byModel snap) model = ?matched"
    using assms(2,3) indexModels_ok [of "sn_channels snap" "[]" model] by (simp add: snap_ok_def indexed_def)
  then have m: "(case map_of (sn_byModel snap) model of None \<Rightarrow> [] | Some cs \<Rightarrow> cs) = ?matched"
    by (simp only: indexed_def)
  define E where "E = filter (\<lambda>c. Supports c model \<and> ?ready c) (sn_channels snap)"
  have el: "E = filter ?ready ?matched"
    by (simp add: E_def conj_commute)
  show ?thesis
  proof (cases "?matched = []")
    case True
    then have "r' = r \<and> res = Inl ErrNoChannel" using assms(3,6) by (simp add: Select_def m)
    moreover have "E = []" unfolding el True by simp
    ultimately show ?thesis using assms(1) unfolding E_def [symmetric] by (simp add: extends_refl)
  next
    case False
    obtain out g' where out: "orderCandidates intn g ?matched = Inr (out, g')" "mset out = mset ?matched"
      "sorted_wrt (\<ge>) (map ch_Priority out)"
      using orderCandidates_ok [OF assms(4,5)] by blast
    obtain r2 xs where rc: "readyCandidates now r out = (r2, xs)" by fastforce
    note ok = readyCandidates_ok [OF assms(1) rc]
    have ms: "mset (map cd_Channel xs) = mset E"
      unfolding el using ok out(2) by (metis mset_filter)
    then have len: "xs = [] \<longleftrightarrow> E = []"
      by (metis map_is_Nil_conv mset_zero_iff_right)
    have res: "(r', res) = (r2, if xs = [] then Inl ErrNoChannel else Inr xs)"
      using assms(3,6) False by (simp add: Select_def m out(1) rc del: filter_filter split: if_splits)
    have "sorted_wrt (\<lambda>x y. ch_Priority x \<ge> ch_Priority y) (filter ?ready out)"
      using out(3) by (simp add: sorted_wrt_map sorted_wrt_filter)
    then have sorted: "sorted_wrt (\<ge>) (map (ch_Priority \<circ> cd_Channel) xs)"
    proof -
      have "map cd_Channel xs = filter ?ready out" using ok by blast
      then have "map (ch_Priority \<circ> cd_Channel) xs = map ch_Priority (filter ?ready out)"
        by (metis map_map)
      then show ?thesis using \<open>sorted_wrt _ (filter ?ready out)\<close> by (simp only: sorted_wrt_map)
    qed
    have ext: "extends r r'" and cand: "\<forall>x \<in> set xs. candidate_ok r2 x" using ok res by simp_all
    show ?thesis
    proof (cases "xs = []")
      case True
      then show ?thesis using ext len res unfolding E_def [symmetric] by simp
    next
      case False
      then have "E \<noteq> []" "r' = r2" "res = Inr xs" using len res by simp_all
      then show ?thesis using ext ms sorted cand unfolding E_def [symmetric] Let_def by metis
    qed
  qed
qed

lemma router_inv_Select: "router_inv r \<Longrightarrow> router_inv (fst (Select intn g now model r)) \<and>
   ro_snap (fst (Select intn g now model r)) = ro_snap r \<and> ro_cfg (fst (Select intn g now model r)) = ro_cfg r"
proof -
  assume inv: "router_inv r"
  have "fst (Select intn g now model r) = r \<or> (\<exists>cs. fst (Select intn g now model r) = fst (readyCandidates now r cs))"
    by (auto simp: Select_def Let_def split: option.splits sum.splits prod.splits) (metis fst_conv)+
  then show ?thesis
  proof
    assume "\<exists>cs. fst (Select intn g now model r) = fst (readyCandidates now r cs)"
    then obtain cs where s: "fst (Select intn g now model r) = fst (readyCandidates now r cs)" by blast
    have "extends r (fst (readyCandidates now r cs))"
      using readyCandidates_ok [OF inv, of now cs] by (metis prod.collapse)
    then show ?thesis unfolding s extends_def by blast
  qed (simp add: inv)
qed

lemma router_inv_heap:
  "router_inv r \<Longrightarrow> map_of (ro_heap r) a = Some b \<Longrightarrow> router_inv (r\<lparr>ro_heap := mput a b' (ro_heap r)\<rparr>)"
  by (auto simp: router_inv_def mhas_def)

lemma router_reach_inv: "router_reach intn cfg r \<Longrightarrow> router_inv r \<and> snap_ok (ro_snap r) \<and> ro_cfg r = cfg"
proof (induction rule: router_reach.induct)
  case (start cs)
  let ?r = "storeSnapshot cs \<lparr>ro_snap = None, ro_cfg = cfg, ro_breakers = [], ro_heap = [], ro_next = 0\<rparr>"
  have inv: "router_inv ?r" by (simp add: router_inv_def storeSnapshot_def mhas_def)
  show ?case using exchangeBreakers_ok(1-3) [OF inv, of cs] start
    by (simp add: NewRouter_def UpdateChannels_def) (simp add: storeSnapshot_def snap_ok_def)
next
  case (reload r cs)
  then show ?case by (simp add: storeSnapshot_def snap_ok_def router_inv_def)
next
  case (exchange r cs)
  then show ?case using exchangeBreakers_ok(1-3) [of r cs] by simp
next
  case (selected r g now model)
  then show ?case using router_inv_Select [of r intn g now model] by simp
next
  case (allowed r a b now)
  then show ?case using router_inv_heap [of r a b] by simp
next
  case (reported r a b now res p)
  then show ?case using router_inv_heap [of r a b] by simp
qed

section \<open>Properties\<close>

text \<open>The weighted draw is exactly proportional: among the \<open>weights pool\<close> values the generator can
  return, the channel at index \<open>i\<close> is chosen for as many of them as its effective weight.\<close>

theorem pickIndex_proportional:
  assumes "weights pool \<le> max_int64" "i < length pool"
  shows "int (card {r. 0 \<le> r \<and> r < totalWeight 0 pool \<and> pickIndex r 0 0 pool = i}) = effWeight (pool ! i)"
proof -
  have tot: "totalWeight 0 pool = weights pool" using assms(1) by (simp add: totalWeight_ok)
  have w: "weights (take (Suc i) pool) = weights (take i pool) + effWeight (pool ! i)"
    using assms(2) by (simp add: take_Suc_conv_app_nth weights_def)
  have "weights (take (Suc i) pool) \<le> weights (take (length pool) pool)"
    using assms(2) by (intro weights_take_mono) simp
  then have top: "weights (take (Suc i) pool) \<le> weights pool" by simp
  have "0 \<le> r \<and> r < weights pool \<and> pickIndex r 0 0 pool = i \<longleftrightarrow>
      weights (take i pool) \<le> r \<and> r < weights (take (Suc i) pool)" for r
  proof (cases "0 \<le> r \<and> r < weights pool")
    case True
    then show ?thesis using pickIndex_iff [OF assms(1) _ _ assms(2), of r] by simp
  next
    case False
    then show ?thesis using weights_nonneg [of "take i pool"] top by (auto simp del: weights_nonneg)
  qed
  then have "{r. 0 \<le> r \<and> r < weights pool \<and> pickIndex r 0 0 pool = i} =
      {r. weights (take i pool) \<le> r \<and> r < weights (take (Suc i) pool)}"
    by (intro Collect_cong)
  also have "\<dots> = {weights (take i pool) ..< weights (take i pool) + effWeight (pool ! i)}"
    unfolding w by auto
  finally have "{r. 0 \<le> r \<and> r < weights pool \<and> pickIndex r 0 0 pool = i} =
      {weights (take i pool) ..< weights (take i pool) + effWeight (pool ! i)}" .
  then show ?thesis by (simp add: tot)
qed

text \<open>Ordering the candidates never panics and loses none: with any generator within its documented
  range, every channel comes exactly once, higher priorities first, whatever the weights (their sum
  within \<open>int64\<close>; a weight of 0 or less counts as 1).\<close>

theorem orderCandidates_total:
  assumes "rng_ok intn" "weights cs \<le> max_int64"
  shows "\<exists>out g'. orderCandidates intn g cs = Inr (out, g') \<and> mset out = mset cs \<and>
           sorted_wrt (\<ge>) (map ch_Priority out)"
  by (rule orderCandidates_ok [OF assms])

text \<open>A hot reload keeps the breaker (the same object, in its current state) of every channel id that
  remains, gives a fresh closed breaker to every new id and forgets the breakers of the ids that left,
  in every reachable router.\<close>

theorem UpdateChannels_breakers:
  assumes "router_reach intn cfg r" "r' = UpdateChannels cs r"
  shows "Channels r' = cs \<and>
    (\<forall>i. (map_of (ro_breakers r') i \<noteq> None \<longleftrightarrow> i \<in> ch_ID ` set cs) \<and>
       (i \<in> ch_ID ` set cs \<longrightarrow>
          (case map_of (ro_breakers r) i of
             Some a \<Rightarrow> map_of (ro_breakers r') i = Some a \<and> map_of (ro_heap r') a = map_of (ro_heap r) a
           | None \<Rightarrow> breakerOf r' i = Some (NewBreaker cfg))))"
proof (intro conjI allI impI)
  let ?s = "storeSnapshot cs r"
  have r': "r' = exchangeBreakers cs ?s" by (simp add: assms(2) UpdateChannels_def)
  have cfg: "ro_cfg ?s = cfg" "ro_breakers ?s = ro_breakers r" "ro_heap ?s = ro_heap r"
    using router_reach_inv [OF assms(1)] by (simp_all add: storeSnapshot_def)
  have inv: "router_inv ?s" using router_reach_inv [OF assms(1)] by (simp add: router_inv_def storeSnapshot_def)
  note x = exchangeBreakers_ok [OF inv]
  show "Channels r' = cs" by (simp add: Channels_def r' x(2)) (simp add: storeSnapshot_def)
  fix i
  show "map_of (ro_breakers r') i \<noteq> None \<longleftrightarrow> i \<in> ch_ID ` set cs" unfolding r' by (rule x(4))
  assume i: "i \<in> ch_ID ` set cs"
  show "case map_of (ro_breakers r) i of
             Some a \<Rightarrow> map_of (ro_breakers r') i = Some a \<and> map_of (ro_heap r') a = map_of (ro_heap r) a
           | None \<Rightarrow> breakerOf r' i = Some (NewBreaker cfg)"
  proof (cases "map_of (ro_breakers r) i")
    case None
    then show ?thesis using x(7) [of i cs] i by (simp add: r' cfg)
  next
    case (Some a)
    then show ?thesis using x(5) [of i cs a] x(6) [of a cs] inv i by (simp add: r' cfg router_inv_def)
  qed
qed

text \<open>C26. In every reachable router, even between the two halves of a hot reload, \<open>Select\<close> returns exactly
  the enabled channels of the snapshot that support the model and whose breaker is ready, each with the
  breaker of its id, higher priorities first; it returns \<open>ErrNoChannel\<close> if and only if there is none. It
  changes no breaker.\<close>

theorem Select_exact:
  assumes "router_reach intn cfg r" "ro_snap r = Some snap" "rng_ok intn"
    and "weights (filter (\<lambda>c. Supports c model) (sn_channels snap)) \<le> max_int64"
    and "Select intn g now model r = (r', res)"
  shows "(\<forall>a. mhas (ro_heap r) a \<longrightarrow> map_of (ro_heap r') a = map_of (ro_heap r) a) \<and>
     (let eligible = filter (\<lambda>c. Supports c model \<and> Ready now (currentBreaker r (ch_ID c))) (sn_channels snap)
      in if eligible = [] then res = Inl ErrNoChannel
         else (\<exists>xs. res = Inr xs \<and> mset (map cd_Channel xs) = mset eligible \<and>
                sorted_wrt (\<ge>) (map (ch_Priority \<circ> cd_Channel) xs) \<and> (\<forall>x \<in> set xs. candidate_ok r' x)))"
  using Select_ok [OF _ _ assms(2-5)] router_reach_inv [OF assms(1)] unfolding extends_def by blast

section \<open>Witnesses\<close>

definition exampleChannel :: "string \<Rightarrow> int \<Rightarrow> int \<Rightarrow> channel" where
  "exampleChannel i p w = \<lparr>ch_ID = i, ch_Name = i, ch_Format = FormatOpenAI, ch_BaseURL = ''u'', ch_APIKey = ''k'',
     ch_Models = [(''m'', '''')], ch_Priority = p, ch_Weight = w, ch_Enabled = True\<rparr>"

definition exampleRouter :: router where
  "exampleRouter = NewRouter [exampleChannel ''a'' 1 2, exampleChannel ''b'' 5 0] exampleBreakerCfg"

definition zeroRng :: "nat rng" where
  "zeroRng g n = (0, g)"

lemma exampleRouter_reach: "router_reach zeroRng exampleBreakerCfg exampleRouter"
  unfolding exampleRouter_def by (rule router_reach.start) (simp add: exampleChannel_def mwf_def)

lemma zeroRng_ok: "rng_ok zeroRng"
  by (simp add: rng_ok_def zeroRng_def)

theorem pickIndex_proportional_witness:
  "int (card {r. 0 \<le> r \<and> r < totalWeight 0 [exampleChannel ''a'' 1 2, exampleChannel ''b'' 5 0] \<and>
     pickIndex r 0 0 [exampleChannel ''a'' 1 2, exampleChannel ''b'' 5 0] = 0}) = 2"
  using pickIndex_proportional [of "[exampleChannel ''a'' 1 2, exampleChannel ''b'' 5 0]" 0]
  by (simp add: effWeight_def exampleChannel_def go_int del: totalWeight.simps pickIndex.simps)

theorem orderCandidates_total_witness:
  "\<exists>out g'. orderCandidates zeroRng 0 [exampleChannel ''a'' 1 2, exampleChannel ''b'' 5 0] = Inr (out, g') \<and>
     mset out = mset [exampleChannel ''a'' 1 2, exampleChannel ''b'' 5 0] \<and> sorted_wrt (\<ge>) (map ch_Priority out)"
  by (rule orderCandidates_total [OF zeroRng_ok]) (simp add: effWeight_def exampleChannel_def go_int)

theorem UpdateChannels_breakers_witness:
  "Channels (UpdateChannels [exampleChannel ''a'' 1 2] exampleRouter) = [exampleChannel ''a'' 1 2] \<and>
   map_of (ro_breakers (UpdateChannels [exampleChannel ''a'' 1 2] exampleRouter)) ''b'' = None"
proof -
  note u = UpdateChannels_breakers [OF exampleRouter_reach HOL.refl, of "[exampleChannel ''a'' 1 2]"]
  have "map_of (ro_breakers (UpdateChannels [exampleChannel ''a'' 1 2] exampleRouter)) ''b'' \<noteq> None \<longleftrightarrow>
      ''b'' \<in> ch_ID ` set [exampleChannel ''a'' 1 2]"
    using u by blast
  then show ?thesis using conjunct1 [OF u] by (simp add: exampleChannel_def)
qed

lemma exampleRouter_snap:
  "ro_snap exampleRouter = Some \<lparr>sn_channels = [exampleChannel ''a'' 1 2, exampleChannel ''b'' 5 0],
     sn_byModel = indexModels [] [exampleChannel ''a'' 1 2, exampleChannel ''b'' 5 0]\<rparr>"
  by (simp add: exampleRouter_def NewRouter_def UpdateChannels_def storeSnapshot_def exchangeBreakers_def allocBreaker_def
      exampleChannel_def)

theorem Select_exact_witness:
  "snd (Select zeroRng 0 7 ''absent'' exampleRouter) = Inl ErrNoChannel"
proof -
  obtain r' res where run: "Select zeroRng 0 7 ''absent'' exampleRouter = (r', res)" by fastforce
  have "res = Inl ErrNoChannel"
    using Select_exact [OF exampleRouter_reach exampleRouter_snap zeroRng_ok _ run]
    by (simp add: exampleChannel_def Supports_def mhas_def go_int)
  then show ?thesis by (simp add: run)
qed

end
