(* ===== verification/GoStrings.thy ===== *)
theory GoStrings
  imports Prelude
begin

text \<open>
  The functions of Go's \<open>strings\<close> and \<open>bytes\<close> packages that the program uses, on byte strings: a Go
  string or byte slice is a list of \<open>char\<close>, one per byte. \<open>TrimSpace\<close> removes the UTF-8 encodings of
  Unicode white space; \<open>EqualFold\<close> is modelled for a lower-case ASCII second argument, which is the
  only use of the program, with the two non-ASCII characters that fold to ASCII letters (the long s
  and the Kelvin sign).
\<close>

section \<open>Bytes\<close>

definition byte :: "nat \<Rightarrow> char" where
  "byte n = char_of n"

definition LF :: char where "LF = byte 10"
definition CR :: char where "CR = byte 13"

lemma LF_code: "LF = CHR 0x0A"
  by (simp add: LF_def byte_def char_of_def bit_0)

lemma CR_code: "CR = CHR 0x0D"
  by (simp add: CR_def byte_def char_of_def bit_0)

lemma LF_CR [simp]: "LF \<noteq> CR" "CR \<noteq> LF"
  by (simp_all add: LF_def CR_def byte_def)

definition BOM :: string where
  "BOM = [byte 239, byte 187, byte 191]"

section \<open>Prefixes and cuts\<close>

fun HasPrefix :: "string \<Rightarrow> string \<Rightarrow> bool" where
  "HasPrefix s [] \<longleftrightarrow> True"
| "HasPrefix [] (p # ps) \<longleftrightarrow> False"
| "HasPrefix (c # cs) (p # ps) \<longleftrightarrow> c = p \<and> HasPrefix cs ps"

definition HasSuffix :: "string \<Rightarrow> string \<Rightarrow> bool" where
  "HasSuffix s p = HasPrefix (rev s) (rev p)"

definition TrimPrefix :: "string \<Rightarrow> string \<Rightarrow> string" where
  "TrimPrefix s p = (if HasPrefix s p then drop (length p) s else s)"

lemma HasPrefix_iff: "HasPrefix s p \<longleftrightarrow> take (length p) s = p"
  by (induction s p rule: HasPrefix.induct) auto

lemma HasPrefix_append: "HasPrefix s p \<longleftrightarrow> (\<exists>t. s = p @ t)"
  by (induction s p rule: HasPrefix.induct) auto

text \<open>\<open>Cut\<close> around the first occurrence of a byte.\<close>

fun CutByte :: "char \<Rightarrow> string \<Rightarrow> string \<times> string \<times> bool" where
  "CutByte sep [] = ([], [], False)"
| "CutByte sep (c # cs) =
     (if c = sep then ([], cs, True)
      else (let (front, after, found) = CutByte sep cs in (c # front, after, found)))"

text \<open>\<open>Split\<close> at every occurrence of a byte, and \<open>Join\<close>.\<close>

fun SplitByte :: "char \<Rightarrow> string \<Rightarrow> string list" where
  "SplitByte sep [] = [[]]"
| "SplitByte sep (c # cs) =
     (if c = sep then [] # SplitByte sep cs
      else (case SplitByte sep cs of [] \<Rightarrow> [[c]] | p # ps \<Rightarrow> (c # p) # ps))"

fun JoinBytes :: "string \<Rightarrow> string list \<Rightarrow> string" where
  "JoinBytes sep [] = []"
| "JoinBytes sep [p] = p"
| "JoinBytes sep (p # q # ps) = p @ sep @ JoinBytes sep (q # ps)"

lemma SplitByte_nonempty [simp]: "SplitByte sep s \<noteq> []"
  by (induction s) (auto split: list.splits)

lemma SplitByte_append: "sep \<notin> set p \<Longrightarrow> SplitByte sep (p @ sep # s) = p # SplitByte sep s"
  by (induction p) auto

lemma SplitByte_none: "sep \<notin> set p \<Longrightarrow> SplitByte sep p = [p]"
  by (induction p) auto

lemma Split_Join:
  "ps \<noteq> [] \<Longrightarrow> (\<forall>p \<in> set ps. sep \<notin> set p) \<Longrightarrow> SplitByte sep (JoinBytes [sep] ps) = ps"
  by (induction "[sep]" ps rule: JoinBytes.induct) (auto simp: SplitByte_append SplitByte_none)

section \<open>White space\<close>

text \<open>The UTF-8 encodings of the code points with the Unicode property White Space.\<close>

definition whiteSpaces :: "string list" where
  "whiteSpaces =
     map (\<lambda>n. [byte n]) [9, 10, 11, 12, 13, 32]
     @ [[byte 194, byte 133], [byte 194, byte 160], [byte 225, byte 154, byte 128]]
     @ map (\<lambda>n. [byte 226, byte 128, byte n]) [128, 129, 130, 131, 132, 133, 134, 135, 136, 137, 138, 168, 169, 175]
     @ [[byte 226, byte 129, byte 159], [byte 227, byte 128, byte 128]]"

lemma whiteSpaces_ne: "w \<in> set whiteSpaces \<Longrightarrow> w \<noteq> []"
  by (auto simp: whiteSpaces_def)

function TrimLeftSpace :: "string \<Rightarrow> string" where
  "TrimLeftSpace s =
     (case filter (\<lambda>w. HasPrefix s w) whiteSpaces of
        [] \<Rightarrow> s
      | w # _ \<Rightarrow> TrimLeftSpace (drop (length w) s))"
  by pat_completeness auto
termination
proof (relation "measure length")
  fix s w ws
  assume "filter (\<lambda>w. HasPrefix s w) whiteSpaces = w # ws"
  then have "w \<in> set whiteSpaces" "HasPrefix s w"
    by (metis filter_eq_ConsD in_set_conv_decomp)+
  then show "(drop (length w) s, s) \<in> measure length"
    using whiteSpaces_ne [of w] by (cases s; cases w) (auto simp: HasPrefix_iff)
qed simp

declare TrimLeftSpace.simps [simp del]

function TrimRightSpace :: "string \<Rightarrow> string" where
  "TrimRightSpace s =
     (case filter (\<lambda>w. HasSuffix s w) whiteSpaces of
        [] \<Rightarrow> s
      | w # _ \<Rightarrow> TrimRightSpace (take (length s - length w) s))"
  by pat_completeness auto
termination
proof (relation "measure length")
  fix s w ws
  assume "filter (\<lambda>w. HasSuffix s w) whiteSpaces = w # ws"
  then have "w \<in> set whiteSpaces" "HasSuffix s w"
    by (metis filter_eq_ConsD in_set_conv_decomp)+
  then show "(take (length s - length w) s, s) \<in> measure length"
    using whiteSpaces_ne [of w] by (cases s; cases w) (auto simp: HasSuffix_def HasPrefix_iff)
qed simp

declare TrimRightSpace.simps [simp del]

definition TrimSpace :: "string \<Rightarrow> string" where
  "TrimSpace s = TrimRightSpace (TrimLeftSpace s)"

section \<open>Case folding\<close>

definition lowerByte :: "char \<Rightarrow> char" where
  "lowerByte c = (let n = of_char c :: nat in if 65 \<le> n \<and> n \<le> 90 then byte (n + 32) else c)"

text \<open>The spellings of one lower-case ASCII byte under simple folding: itself, its upper case, the long
  s and the Kelvin sign.\<close>

definition foldsTo :: "char \<Rightarrow> string \<Rightarrow> string option" where
  "foldsTo c s =
     (case s of
        [] \<Rightarrow> None
      | b # bs \<Rightarrow>
          if lowerByte b = c then Some bs
          else if c = CHR ''s'' \<and> HasPrefix s [byte 197, byte 191] then Some (drop 2 s)
          else if c = CHR ''k'' \<and> HasPrefix s [byte 226, byte 132, byte 170] then Some (drop 3 s)
          else None)"

fun EqualFoldLower :: "string \<Rightarrow> string \<Rightarrow> bool" where
  "EqualFoldLower s [] \<longleftrightarrow> s = []"
| "EqualFoldLower s (c # cs) \<longleftrightarrow> (case foldsTo c s of None \<Rightarrow> False | Some rest \<Rightarrow> EqualFoldLower rest cs)"

fun ToLower :: "string \<Rightarrow> string" where
  "ToLower [] = []"
| "ToLower (c # cs) = lowerByte c # ToLower cs"

definition TrimSuffix :: "string \<Rightarrow> string \<Rightarrow> string" where
  "TrimSuffix s p = (if HasSuffix s p then take (length s - length p) s else s)"

text \<open>\<open>LastIndexByte\<close> as a cut at the last occurrence.\<close>

definition CutLastByte :: "char \<Rightarrow> string \<Rightarrow> (string \<times> string) option" where
  "CutLastByte sep s =
     (case CutByte sep (rev s) of
        (after, front, True) \<Rightarrow> Some (rev front, rev after)
      | _ \<Rightarrow> None)"

fun ContainsSub :: "string \<Rightarrow> string \<Rightarrow> bool" where
  "ContainsSub [] sub \<longleftrightarrow> sub = []"
| "ContainsSub (c # cs) sub \<longleftrightarrow> HasPrefix (c # cs) sub \<or> ContainsSub cs sub"

section \<open>Decimal numbers\<close>

definition digitChar :: "nat \<Rightarrow> char" where
  "digitChar n = byte (48 + n)"

fun natText :: "nat \<Rightarrow> string" where
  "natText n = (if n < 10 then [digitChar n] else natText (n div 10) @ [digitChar (n mod 10)])"

declare natText.simps [simp del]

definition intText :: "int \<Rightarrow> string" where
  "intText i = (if i < 0 then CHR ''-'' # natText (nat (- i)) else natText (nat i))"

definition digitVal :: "char \<Rightarrow> nat option" where
  "digitVal c = (let n = of_char c in if 48 \<le> n \<and> n \<le> 57 then Some (n - 48) else None)"

fun digitsVal :: "nat \<Rightarrow> string \<Rightarrow> nat option" where
  "digitsVal acc [] = Some acc"
| "digitsVal acc (c # cs) = (case digitVal c of None \<Rightarrow> None | Some d \<Rightarrow> digitsVal (acc * 10 + d) cs)"

text \<open>\<open>strconv.Atoi\<close> and \<open>ParseInt\<close> in base 10 with 64 bits.\<close>

definition Atoi :: "string \<Rightarrow> int option" where
  "Atoi s =
     (let (neg, ds) = (case s of
                         [] \<Rightarrow> (False, [])
                       | c # cs \<Rightarrow> if c = CHR ''-'' then (True, cs) else if c = CHR ''+'' then (False, cs) else (False, s))
      in if ds = [] then None
         else (case digitsVal 0 ds of
                 None \<Rightarrow> None
               | Some n \<Rightarrow> let v = (if neg then - int n else int n) in if in_i64 v then Some v else None))"

lemma digitVal_digitChar [simp]: "n < 10 \<Longrightarrow> digitVal (digitChar n) = Some n"
  by (simp add: digitVal_def digitChar_def byte_def)

lemma digitsVal_append:
  "digitsVal acc (xs @ ys) = (case digitsVal acc xs of None \<Rightarrow> None | Some n \<Rightarrow> digitsVal n ys)"
  by (induction xs arbitrary: acc) (auto split: option.splits)

lemma digitsVal_natText: "digitsVal 0 (natText n) = Some n"
proof (induction n rule: natText.induct)
  case (1 n)
  show ?case
  proof (cases "n < 10")
    case True
    then show ?thesis by (subst natText.simps) simp
  next
    case False
    then show ?thesis using "1.IH" by (subst natText.simps) (simp add: digitsVal_append)
  qed
qed

lemma natText_nonempty [simp]: "natText n \<noteq> []"
  by (subst natText.simps) simp

lemma natText_digits: "c \<in> set (natText n) \<Longrightarrow> \<exists>d < 10. c = digitChar d"
proof (induction n rule: natText.induct)
  case (1 n)
  have "c \<in> set (if n < 10 then [digitChar n] else natText (n div 10) @ [digitChar (n mod 10)])"
    using "1.prems" by (subst (asm) natText.simps)
  then consider "n < 10" "c = digitChar n" | "\<not> n < 10" "c \<in> set (natText (n div 10))" | "c = digitChar (n mod 10)"
    by (auto split: if_splits)
  then show ?case
  proof cases
    case 3
    then show ?thesis by (intro exI [of _ "n mod 10"]) simp
  qed (use "1.IH" in auto)
qed

lemma digitChar_sign: "d < 10 \<Longrightarrow> digitChar d \<noteq> CHR ''-'' \<and> digitChar d \<noteq> CHR ''+''"
  by (auto simp: digitChar_def byte_def dest!: arg_cong [where f = "of_char :: char \<Rightarrow> nat"])

text \<open>Printing and parsing a 64-bit integer is the identity.\<close>

lemma Atoi_intText:
  assumes "in_i64 i"
  shows "Atoi (intText i) = Some i"
proof (cases "i < 0")
  case True
  then show ?thesis using assms by (simp add: Atoi_def intText_def digitsVal_natText Let_def)
next
  case False
  obtain c cs where t: "natText (nat i) = c # cs" by (cases "natText (nat i)") auto
  then obtain d where "d < 10" "c = digitChar d" using natText_digits [of c "nat i"] by auto
  then have "c \<noteq> CHR ''-''" "c \<noteq> CHR ''+''" using digitChar_sign by auto
  then show ?thesis using assms False digitsVal_natText [of "nat i"]
    by (simp add: Atoi_def intText_def t Let_def)
qed

end
