(* ===== verification/GoJson.thy ===== *)
theory GoJson
  imports GoStrings "HOL-Library.List_Lexorder" "HOL-Library.Char_ord"
begin

text \<open>
  What the program uses of Go's \<open>encoding/json\<close> on raw messages: the validating scanner (a pushdown
  automaton, as in the library), the decoding of an object into a map of raw member values, the
  quoting and unquoting of strings with their UTF-8 repair, and the encoding of such a map (keys
  sorted, raw values compacted with the characters special in HTML escaped). Bytes are \<open>char\<close>s.
\<close>

section \<open>UTF-8\<close>

definition byteVal :: "char \<Rightarrow> nat" where
  "byteVal c = of_char c"

definition isCont :: "char \<Rightarrow> bool" where
  "isCont c \<longleftrightarrow> 128 \<le> byteVal c \<and> byteVal c \<le> 191"

text \<open>The length of the valid encoding at the head of a byte string, 0 when there is none.\<close>

definition runeLen :: "string \<Rightarrow> nat" where
  "runeLen s =
     (case s of
        [] \<Rightarrow> 0
      | a # as \<Rightarrow>
          let x = byteVal a in
          if x < 128 then 1
          else if x < 194 \<or> x > 244 then 0
          else if x < 224 then (case as of b # _ \<Rightarrow> if isCont b then 2 else 0 | _ \<Rightarrow> 0)
          else if x < 240 then
            (case as of
               b # c # _ \<Rightarrow>
                 if isCont b \<and> isCont c \<and> (x = 224 \<longrightarrow> 160 \<le> byteVal b) \<and> (x = 237 \<longrightarrow> byteVal b \<le> 159)
                 then 3 else 0
             | _ \<Rightarrow> 0)
          else
            (case as of
               b # c # d # _ \<Rightarrow>
                 if isCont b \<and> isCont c \<and> isCont d \<and> (x = 240 \<longrightarrow> 144 \<le> byteVal b) \<and> (x = 244 \<longrightarrow> byteVal b \<le> 143)
                 then 4 else 0
             | _ \<Rightarrow> 0))"

definition replacementChar :: string where
  "replacementChar = [byte 239, byte 191, byte 189]"

definition encodeRune :: "nat \<Rightarrow> string" where
  "encodeRune n =
     (if n < 128 then [byte n]
      else if n < 2048 then [byte (192 + n div 64), byte (128 + n mod 64)]
      else if 55296 \<le> n \<and> n \<le> 57343 then replacementChar
      else if n < 65536 then [byte (224 + n div 4096), byte (128 + n div 64 mod 64), byte (128 + n mod 64)]
      else if n < 1114112
        then [byte (240 + n div 262144), byte (128 + n div 4096 mod 64), byte (128 + n div 64 mod 64), byte (128 + n mod 64)]
      else replacementChar)"

section \<open>The scanner\<close>

datatype parse_state = ParseObjectKey | ParseObjectValue | ParseArrayValue

datatype scan_state =
    BeginValue | BeginValueOrEmpty | BeginStringOrEmpty | BeginString | EndValue
  | InString | InStringEsc | InStringEscU nat
  | NumNeg | NumInt | NumZero | NumDot | NumFrac | NumE | NumESign | NumExp
  | InLiteral string | EndTop

definition isSpaceJSON :: "char \<Rightarrow> bool" where
  "isSpaceJSON c \<longleftrightarrow> c = CHR '' '' \<or> c = byte 9 \<or> c = CR \<or> c = LF"

definition isDigitByte :: "char \<Rightarrow> bool" where
  "isDigitByte c \<longleftrightarrow> 48 \<le> byteVal c \<and> byteVal c \<le> 57"

definition hexVal :: "char \<Rightarrow> nat option" where
  "hexVal c =
     (let n = byteVal c in
      if 48 \<le> n \<and> n \<le> 57 then Some (n - 48)
      else if 97 \<le> n \<and> n \<le> 102 then Some (n - 87)
      else if 65 \<le> n \<and> n \<le> 70 then Some (n - 55)
      else None)"

type_synonym scanner = "scan_state \<times> parse_state list"

definition maxNestingDepth :: nat where
  "maxNestingDepth = 10000"

definition stateEndTop :: "char \<Rightarrow> parse_state list \<Rightarrow> scanner option" where
  "stateEndTop c st = (if isSpaceJSON c then Some (EndTop, st) else None)"

text \<open>After a complete value.\<close>

definition popState :: "parse_state list \<Rightarrow> scanner" where
  "popState st = (if tl st = [] then (EndTop, []) else (EndValue, tl st))"

definition stateEndValue :: "char \<Rightarrow> parse_state list \<Rightarrow> scanner option" where
  "stateEndValue c st =
     (case st of
        [] \<Rightarrow> stateEndTop c []
      | p # ps \<Rightarrow>
          if isSpaceJSON c then Some (EndValue, st)
          else (case p of
                  ParseObjectKey \<Rightarrow> if c = CHR '':'' then Some (BeginValue, ParseObjectValue # ps) else None
                | ParseObjectValue \<Rightarrow>
                    if c = CHR '','' then Some (BeginString, ParseObjectKey # ps)
                    else if c = CHR ''}'' then Some (popState st)
                    else None
                | ParseArrayValue \<Rightarrow>
                    if c = CHR '','' then Some (BeginValue, st)
                    else if c = CHR '']'' then Some (popState st)
                    else None))"

definition pushState :: "scan_state \<Rightarrow> parse_state \<Rightarrow> parse_state list \<Rightarrow> scanner option" where
  "pushState s p st = (if length st + 1 > maxNestingDepth then None else Some (s, p # st))"

definition stateBeginValue :: "char \<Rightarrow> parse_state list \<Rightarrow> scanner option" where
  "stateBeginValue c st =
     (if isSpaceJSON c then Some (BeginValue, st)
      else if c = CHR ''{'' then pushState BeginStringOrEmpty ParseObjectKey st
      else if c = CHR ''['' then pushState BeginValueOrEmpty ParseArrayValue st
      else if c = CHR 0x22 then Some (InString, st)
      else if c = CHR ''-'' then Some (NumNeg, st)
      else if c = CHR ''0'' then Some (NumZero, st)
      else if c = CHR ''t'' then Some (InLiteral ''rue'', st)
      else if c = CHR ''f'' then Some (InLiteral ''alse'', st)
      else if c = CHR ''n'' then Some (InLiteral ''ull'', st)
      else if isDigitByte c then Some (NumInt, st)
      else None)"

definition stateBeginString :: "char \<Rightarrow> parse_state list \<Rightarrow> scanner option" where
  "stateBeginString c st =
     (if isSpaceJSON c then Some (BeginString, st)
      else if c = CHR 0x22 then Some (InString, st)
      else None)"

definition stateAfterInt :: "char \<Rightarrow> parse_state list \<Rightarrow> scanner option" where
  "stateAfterInt c st =
     (if c = CHR ''.'' then Some (NumDot, st)
      else if c = CHR ''e'' \<or> c = CHR ''E'' then Some (NumE, st)
      else stateEndValue c st)"

fun scanStep :: "char \<Rightarrow> scanner \<Rightarrow> scanner option" where
  "scanStep c (BeginValue, st) = stateBeginValue c st"
| "scanStep c (BeginValueOrEmpty, st) =
     (if isSpaceJSON c then Some (BeginValueOrEmpty, st)
      else if c = CHR '']'' then stateEndValue c st else stateBeginValue c st)"
| "scanStep c (BeginStringOrEmpty, st) =
     (if isSpaceJSON c then Some (BeginStringOrEmpty, st)
      else if c = CHR ''}'' then stateEndValue c (ParseObjectValue # tl st) else stateBeginString c st)"
| "scanStep c (BeginString, st) = stateBeginString c st"
| "scanStep c (EndValue, st) = stateEndValue c st"
| "scanStep c (InString, st) =
     (if c = CHR 0x22 then Some (EndValue, st)
      else if c = CHR 0x5C then Some (InStringEsc, st)
      else if byteVal c < 32 then None else Some (InString, st))"
| "scanStep c (InStringEsc, st) =
     (if c \<in> {CHR ''b'', CHR ''f'', CHR ''n'', CHR ''r'', CHR ''t'', CHR 0x5C, CHR ''/'', CHR 0x22}
      then Some (InString, st)
      else if c = CHR ''u'' then Some (InStringEscU 4, st) else None)"
| "scanStep c (InStringEscU n, st) =
     (if hexVal c = None then None else if n \<le> 1 then Some (InString, st) else Some (InStringEscU (n - 1), st))"
| "scanStep c (NumNeg, st) =
     (if c = CHR ''0'' then Some (NumZero, st) else if isDigitByte c then Some (NumInt, st) else None)"
| "scanStep c (NumInt, st) = (if isDigitByte c then Some (NumInt, st) else stateAfterInt c st)"
| "scanStep c (NumZero, st) = stateAfterInt c st"
| "scanStep c (NumDot, st) = (if isDigitByte c then Some (NumFrac, st) else None)"
| "scanStep c (NumFrac, st) =
     (if isDigitByte c then Some (NumFrac, st)
      else if c = CHR ''e'' \<or> c = CHR ''E'' then Some (NumE, st) else stateEndValue c st)"
| "scanStep c (NumE, st) =
     (if c = CHR ''+'' \<or> c = CHR ''-'' then Some (NumESign, st)
      else if isDigitByte c then Some (NumExp, st) else None)"
| "scanStep c (NumESign, st) = (if isDigitByte c then Some (NumExp, st) else None)"
| "scanStep c (NumExp, st) = (if isDigitByte c then Some (NumExp, st) else stateEndValue c st)"
| "scanStep c (InLiteral cs, st) =
     (case cs of
        [] \<Rightarrow> None
      | x # xs \<Rightarrow> if c \<noteq> x then None
                  else if xs = [] then Some (EndValue, st) else Some (InLiteral xs, st))"
| "scanStep c (EndTop, st) = stateEndTop c st"

fun scanAll :: "string \<Rightarrow> scanner \<Rightarrow> scanner option" where
  "scanAll [] s = Some s"
| "scanAll (c # cs) s = (case scanStep c s of None \<Rightarrow> None | Some s' \<Rightarrow> scanAll cs s')"

text \<open>At the end of the input the scanner is fed a space; the value must then be complete.\<close>

definition validJSON :: "string \<Rightarrow> bool" where
  "validJSON s = (case scanAll (s @ '' '') (BeginValue, []) of Some (EndTop, _) \<Rightarrow> True | _ \<Rightarrow> False)"

section \<open>Strings\<close>

fun hex4 :: "string \<Rightarrow> nat option" where
  "hex4 (a # b # c # d # _) =
     (case (hexVal a, hexVal b, hexVal c, hexVal d) of
        (Some w, Some x, Some y, Some z) \<Rightarrow> Some (w * 4096 + x * 256 + y * 16 + z)
      | _ \<Rightarrow> None)"
| "hex4 _ = None"

definition simpleEscape :: "char \<Rightarrow> char" where
  "simpleEscape c =
     (if c = CHR ''b'' then byte 8 else if c = CHR ''f'' then byte 12 else if c = CHR ''n'' then LF
      else if c = CHR ''r'' then CR else if c = CHR ''t'' then byte 9 else c)"

text \<open>A \<open>u\<close> escape: the rune it denotes and how many bytes after the backslash it takes. A surrogate
  must be followed by the escape of its other half, or it becomes the replacement character.\<close>

definition unescapeU :: "string \<Rightarrow> string \<times> nat" where
  "unescapeU s =
     (case hex4 s of
        None \<Rightarrow> (replacementChar, 5)
      | Some r \<Rightarrow>
          if 55296 \<le> r \<and> r \<le> 57343 then
            (case drop 4 s of
               b # u # t \<Rightarrow>
                 if b = CHR 0x5C \<and> u = CHR ''u'' then
                   (case hex4 t of
                      Some r2 \<Rightarrow>
                        if r \<le> 56319 \<and> 56320 \<le> r2 \<and> r2 \<le> 57343
                        then (encodeRune ((r - 55296) * 1024 + (r2 - 56320) + 65536), 11)
                        else (replacementChar, 5)
                    | None \<Rightarrow> (replacementChar, 5))
                 else (replacementChar, 5)
             | _ \<Rightarrow> (replacementChar, 5))
          else (encodeRune r, 5))"

text \<open>The contents of a quoted string (without its quotes); the fuel is its length.\<close>

fun unquoteFuel :: "nat \<Rightarrow> string \<Rightarrow> string" where
  "unquoteFuel 0 s = []"
| "unquoteFuel (Suc n) s =
     (case s of
        [] \<Rightarrow> []
      | c # cs \<Rightarrow>
          if c = CHR 0x5C then
            (case cs of
               [] \<Rightarrow> []
             | d # ds \<Rightarrow>
                 if d = CHR ''u'' then (let (out, k) = unescapeU ds in out @ unquoteFuel n (drop k cs))
                 else simpleEscape d # unquoteFuel n ds)
          else let k = runeLen s in
               if k = 0 then replacementChar @ unquoteFuel n cs
               else take k s @ unquoteFuel n (drop k s))"

definition unquoteString :: "string \<Rightarrow> string" where
  "unquoteString s = unquoteFuel (length s) s"

definition hexLower :: "nat \<Rightarrow> char" where
  "hexLower n = ''0123456789abcdef'' ! n"

definition unicodeEscape :: "nat \<Rightarrow> string" where
  "unicodeEscape n =
     [CHR 0x5C, CHR ''u'', hexLower (n div 4096 mod 16), hexLower (n div 256 mod 16), hexLower (n div 16 mod 16), hexLower (n mod 16)]"

definition isHTMLByte :: "char \<Rightarrow> bool" where
  "isHTMLByte c \<longleftrightarrow> c = CHR ''<'' \<or> c = CHR ''>'' \<or> c = CHR ''&''"

definition quoteByte :: "char \<Rightarrow> string" where
  "quoteByte c =
     (if c = CHR 0x22 \<or> c = CHR 0x5C then [CHR 0x5C, c]
      else if c = byte 8 then [CHR 0x5C, CHR ''b'']
      else if c = byte 12 then [CHR 0x5C, CHR ''f'']
      else if c = LF then [CHR 0x5C, CHR ''n'']
      else if c = CR then [CHR 0x5C, CHR ''r'']
      else if c = byte 9 then [CHR 0x5C, CHR ''t'']
      else if byteVal c < 32 \<or> isHTMLByte c then unicodeEscape (byteVal c)
      else [c])"

definition isLineSep :: "string \<Rightarrow> bool" where
  "isLineSep s \<longleftrightarrow> take 3 s = [byte 226, byte 128, byte 168] \<or> take 3 s = [byte 226, byte 128, byte 169]"

fun quoteFuel :: "nat \<Rightarrow> string \<Rightarrow> string" where
  "quoteFuel 0 s = []"
| "quoteFuel (Suc n) s =
     (case s of
        [] \<Rightarrow> []
      | c # cs \<Rightarrow>
          let k = runeLen s in
          if k = 0 then [CHR 0x5C] @ ''ufffd'' @ quoteFuel n cs
          else if k = 1 then quoteByte c @ quoteFuel n cs
          else if isLineSep s then unicodeEscape (byteVal (s ! 2) - 168 + 8232) @ quoteFuel n (drop 3 s)
          else take k s @ quoteFuel n (drop k s))"

definition quoteString :: "string \<Rightarrow> string" where
  "quoteString s = [CHR 0x22] @ quoteFuel (length s) s @ [CHR 0x22]"

section \<open>Objects as maps of raw messages\<close>

text \<open>Splitting at a separator outside of strings and brackets. The state is the nesting depth and
  whether a string is open and a backslash pending.\<close>

record split_state =
  ss_depth :: nat
  ss_str :: bool
  ss_esc :: bool

definition splitNext :: "char \<Rightarrow> split_state \<Rightarrow> split_state" where
  "splitNext c s =
     (if ss_str s then
        (if ss_esc s then s\<lparr>ss_esc := False\<rparr>
         else if c = CHR 0x5C then s\<lparr>ss_esc := True\<rparr>
         else if c = CHR 0x22 then s\<lparr>ss_str := False\<rparr> else s)
      else if c = CHR 0x22 then s\<lparr>ss_str := True\<rparr>
      else if c = CHR ''{'' \<or> c = CHR ''['' then s\<lparr>ss_depth := ss_depth s + 1\<rparr>
      else if c = CHR ''}'' \<or> c = CHR '']'' then s\<lparr>ss_depth := ss_depth s - 1\<rparr>
      else s)"

fun splitOuter :: "char \<Rightarrow> split_state \<Rightarrow> string \<Rightarrow> string list" where
  "splitOuter sep s [] = [[]]"
| "splitOuter sep s (c # cs) =
     (if c = sep \<and> \<not> ss_str s \<and> ss_depth s = 0 then [] # splitOuter sep s cs
      else (case splitOuter sep (splitNext c s) cs of [] \<Rightarrow> [[c]] | p # ps \<Rightarrow> (c # p) # ps))"

definition trimJSON :: "string \<Rightarrow> string" where
  "trimJSON s = rev (dropWhile isSpaceJSON (rev (dropWhile isSpaceJSON s)))"

definition startState :: split_state where
  "startState = \<lparr>ss_depth = 0, ss_str = False, ss_esc = False\<rparr>"

text \<open>One member of a valid object: the quoted key, a colon, the raw value.\<close>

definition parseMember :: "string \<Rightarrow> string \<times> string" where
  "parseMember m =
     (case splitOuter (CHR '':'') startState m of
        k # v # _ \<Rightarrow> (unquoteString (butlast (tl (trimJSON k))), trimJSON v)
      | _ \<Rightarrow> ([], []))"

fun putMembers :: "string list \<Rightarrow> (string, string) gomap \<Rightarrow> (string, string) gomap" where
  "putMembers [] m = m"
| "putMembers (x # xs) m = (let (k, v) = parseMember x in putMembers xs (mput k v m))"

text \<open>\<open>json.Unmarshal\<close> into a map of raw messages: an error, nil for null, or the members, a later
  duplicate replacing an earlier one.\<close>

definition unmarshalRawMap :: "string \<Rightarrow> (string, string) gomap option result" where
  "unmarshalRawMap raw =
     (let t = trimJSON raw in
      if \<not> validJSON raw then Inl (ErrOther ''json'')
      else if t = ''null'' then Inr None
      else if hd t \<noteq> CHR ''{'' then Inl (ErrOther ''json'')
      else let body = butlast (tl t) in
           Inr (Some (if trimJSON body = [] then [] else putMembers (splitOuter (CHR '','') startState body) [])))"

text \<open>Compaction of a raw message: white space outside strings goes, HTML characters are escaped.\<close>

fun compactLoop :: "bool \<Rightarrow> bool \<Rightarrow> nat \<Rightarrow> string \<Rightarrow> string" where
  "compactLoop str esc 0 s = []"
| "compactLoop str esc (Suc n) s =
     (case s of
        [] \<Rightarrow> []
      | c # cs \<Rightarrow>
          let str' = (if str then \<not> (c = CHR 0x22 \<and> \<not> esc) else c = CHR 0x22);
              esc' = (str \<and> \<not> esc \<and> c = CHR 0x5C) in
          if isHTMLByte c then unicodeEscape (byteVal c) @ compactLoop str' esc' n cs
          else if isLineSep s then unicodeEscape (byteVal (s ! 2) - 168 + 8232) @ compactLoop str' False n (drop 3 s)
          else if \<not> str \<and> isSpaceJSON c then compactLoop str' esc' n cs
          else c # compactLoop str' esc' n cs)"

definition compactJSON :: "string \<Rightarrow> string" where
  "compactJSON s = compactLoop False False (length s) s"

text \<open>\<open>json.Marshal\<close> of a map of raw messages.\<close>

definition marshalMember :: "(string, string) gomap \<Rightarrow> string \<Rightarrow> string" where
  "marshalMember m k = quoteString k @ '':'' @ compactJSON (case map_of m k of None \<Rightarrow> [] | Some v \<Rightarrow> v)"

definition marshalRawMap :: "(string, string) gomap \<Rightarrow> string result" where
  "marshalRawMap m =
     (if \<exists>(k, v) \<in> set m. \<not> validJSON v then Inl (ErrOther ''json'')
      else Inr (''{'' @ JoinBytes '','' (map (marshalMember m) (sort (map fst m))) @ ''}''))"

section \<open>Booleans\<close>

definition boolText :: "bool \<Rightarrow> string" where
  "boolText b = (if b then ''true'' else ''false'')"

end
