(* ===== verification/Sse.thy ===== *)
theory Sse
  imports GoStrings
begin

text \<open>
  Server-sent events: \<open>sseReader\<close> of \<open>internal/forwarder/upstream.go\<close>, which cuts the upstream's byte
  stream into records, \<open>writeSSERecord\<close> of \<open>stream.go\<close>, which writes a record back, and \<open>SSEData\<close> of
  \<open>internal/adapter/sse.go\<close>, which extracts the payload of a record.

  The reader's source is the list of bytes that will still arrive and the error that ends them
  (\<open>ErrEOF\<close> or a read failure, which the reader meets again on every later read).
\<close>

section \<open>Reading records\<close>

definition maxSSERecordBytes :: nat where
  "maxSSERecordBytes = 4194304"

record sse_reader =
  sr_input :: string
  sr_end :: goerr
  sr_firstLine :: bool

definition newSSEReader :: "string \<Rightarrow> goerr \<Rightarrow> sse_reader" where
  "newSSEReader bytes err = \<lparr>sr_input = bytes, sr_end = err, sr_firstLine = True\<rparr>"

text \<open>One line up to LF, CRLF or CR: the line, the error if any, and the bytes left.\<close>

fun readLineLoop :: "string \<Rightarrow> goerr \<Rightarrow> string \<Rightarrow> string \<times> goerr option \<times> string" where
  "readLineLoop line err [] = (line, Some err, [])"
| "readLineLoop line err (b # bs) =
     (if b = LF then (line, None, bs)
      else if b = CR then (line, None, case bs of [] \<Rightarrow> [] | c # cs \<Rightarrow> if c = LF then cs else bs)
      else if length line \<ge> maxSSERecordBytes then ([], Some ErrSSERecordTooLarge, bs)
      else readLineLoop (line @ [b]) err bs)"

definition readLine :: "sse_reader \<Rightarrow> string \<times> goerr option \<times> sse_reader" where
  "readLine s =
     (let (line, err, rest) = readLineLoop [] (sr_end s) (sr_input s)
      in (line, err, s\<lparr>sr_input := rest\<rparr>))"

lemma readLineLoop_length:
  "readLineLoop line err bs = (l, e, rest) \<Longrightarrow> length rest \<le> length bs \<and> (bs \<noteq> [] \<longrightarrow> length rest < length bs)"
  by (induction line err bs rule: readLineLoop.induct) (auto split: if_splits list.splits)

lemma readLineLoop_error:
  "readLineLoop line err bs = (l, e, rest) \<Longrightarrow> e = None \<or> e = Some err \<or> e = Some ErrSSERecordTooLarge"
  by (induction line err bs rule: readLineLoop.induct) (auto split: if_splits)

lemma readLine_length:
  "readLine s = (l, None, s') \<Longrightarrow> length (sr_input s') < length (sr_input s)"
  using readLineLoop_length [of "[]" "sr_end s" "sr_input s"]
  by (cases "sr_input s") (auto simp: readLine_def split: prod.splits)

definition trimFirst :: "sse_reader \<Rightarrow> string \<Rightarrow> string" where
  "trimFirst s line = (if sr_firstLine s then TrimPrefix line BOM else line)"

text \<open>The loop of \<open>Next\<close>; \<open>buf\<close> holds the lines of the record so far.\<close>

function nextLoop :: "string \<Rightarrow> sse_reader \<Rightarrow> string result \<times> sse_reader" where
  "nextLoop buf s =
     (case readLine s of
        (line0, err, s0) \<Rightarrow>
          (let line = trimFirst s line0; s' = s0\<lparr>sr_firstLine := False\<rparr> in
           case err of
             None \<Rightarrow>
               if line = [] then (if buf \<noteq> [] then (Inr buf, s') else nextLoop buf s')
               else (let extra = length line + (if buf \<noteq> [] then 1 else 0) in
                     if length buf + extra > maxSSERecordBytes then (Inl ErrSSERecordTooLarge, s')
                     else nextLoop ((if buf \<noteq> [] then buf @ [LF] else buf) @ line) s')
           | Some e \<Rightarrow>
               if line = [] then (if buf \<noteq> [] then (Inr buf, s') else (Inl e, s'))
               else (let extra = length line + (if buf \<noteq> [] then 1 else 0) in
                     if length buf + extra > maxSSERecordBytes then (Inl ErrSSERecordTooLarge, s')
                     else (Inr ((if buf \<noteq> [] then buf @ [LF] else buf) @ line), s'))))"
  by pat_completeness auto
termination
  by (relation "measure (\<lambda>(buf, s). length (sr_input s))") (auto dest: readLine_length [OF sym])

declare nextLoop.simps [simp del]

definition Next :: "sse_reader \<Rightarrow> string result \<times> sse_reader" where
  "Next s = nextLoop [] s"

section \<open>Writing and payload\<close>

definition writeSSERecord :: "string \<Rightarrow> string list" where
  "writeSSERecord rec = [rec, [LF, LF]]"

text \<open>\<open>ReplaceAll\<close> of CRLF by LF, then of CR by LF.\<close>

fun replaceCRLF :: "string \<Rightarrow> string" where
  "replaceCRLF [] = []"
| "replaceCRLF [c] = [c]"
| "replaceCRLF (c # d # cs) = (if c = CR \<and> d = LF then LF # replaceCRLF cs else c # replaceCRLF (d # cs))"

definition replaceCR :: "string \<Rightarrow> string" where
  "replaceCR s = map (\<lambda>c. if c = CR then LF else c) s"

definition dataOfLine :: "string \<Rightarrow> string option" where
  "dataOfLine line =
     (if line = [] \<or> hd line = CHR '':'' then None
      else (let (field, value, found) = CutByte (CHR '':'') line in
            if \<not> found \<or> field \<noteq> ''data'' then None
            else Some (case value of [] \<Rightarrow> [] | c # cs \<Rightarrow> if c = CHR '' '' then cs else value)))"

fun dataParts :: "string list \<Rightarrow> string list" where
  "dataParts [] = []"
| "dataParts (line # lines) =
     (case dataOfLine line of None \<Rightarrow> dataParts lines | Some p \<Rightarrow> p # dataParts lines)"

definition SSEData :: "string \<Rightarrow> string option" where
  "SSEData raw0 =
     (let raw = replaceCR (replaceCRLF (TrimPrefix raw0 BOM));
          parts = dataParts (SplitByte LF raw)
      in if parts \<noteq> [] then Some (JoinBytes [LF] parts)
         else (let trimmed = TrimSpace raw in
               if HasPrefix trimmed ''{'' \<or> trimmed = ''[DONE]'' then Some trimmed else None))"

section \<open>Framing\<close>

definition terminators :: "string list" where
  "terminators = [[LF], [CR, LF], [CR]]"

definition cleanLine :: "string \<Rightarrow> bool" where
  "cleanLine l \<longleftrightarrow> l \<noteq> [] \<and> LF \<notin> set l \<and> CR \<notin> set l"

definition frame :: "string \<Rightarrow> string list \<Rightarrow> string" where
  "frame t ls = concat (map (\<lambda>l. l @ t) ls) @ t"

definition notLF :: "string \<Rightarrow> bool" where
  "notLF s \<longleftrightarrow> (case s of [] \<Rightarrow> True | c # _ \<Rightarrow> c \<noteq> LF)"

lemma readLineLoop_clean:
  assumes "LF \<notin> set l" "CR \<notin> set l" "length acc + length l \<le> maxSSERecordBytes"
    and "t \<in> set terminators" "t = [CR] \<longrightarrow> notLF rest"
  shows "readLineLoop acc e (l @ t @ rest) = (acc @ l, None, rest)"
  using assms
proof (induction l arbitrary: acc)
  case Nil
  then show ?case by (auto simp: terminators_def notLF_def split: list.splits)
qed auto

lemma readLine_clean:
  assumes "LF \<notin> set l" "CR \<notin> set l" "length l \<le> maxSSERecordBytes" "t \<in> set terminators"
    and "t = [CR] \<longrightarrow> notLF rest"
  shows "readLine (s\<lparr>sr_input := l @ t @ rest\<rparr>) = (l, None, s\<lparr>sr_input := rest\<rparr>)"
  using readLineLoop_clean [of l "[]" t rest] assms by (simp add: readLine_def)

definition joined :: "string \<Rightarrow> string list \<Rightarrow> string" where
  "joined buf ls = JoinBytes [LF] (if buf = [] then ls else buf # ls)"

lemma joined_Cons: "l \<noteq> [] \<Longrightarrow> joined buf (l # ls) = joined ((if buf \<noteq> [] then buf @ [LF] else buf) @ l) ls"
  by (cases ls) (auto simp: joined_def)

lemma joined_length: "length buf \<le> length (joined buf ls)"
  by (cases ls) (auto simp: joined_def)

lemma frame_Cons: "frame t (l # ls) = l @ t @ frame t ls"
  by (simp add: frame_def)

lemma notLF_clean: "cleanLine l \<Longrightarrow> notLF (l @ s)"
  by (cases l) (auto simp: cleanLine_def notLF_def)

lemma notLF_frame: "\<forall>l \<in> set ls. cleanLine l \<Longrightarrow> t \<in> set terminators \<Longrightarrow> ls \<noteq> [] \<or> t = [CR] \<Longrightarrow> notLF (frame t ls @ s)"
  by (cases ls) (auto simp: frame_Cons notLF_clean, auto simp: frame_def notLF_def)

lemma readLine_lines:
  assumes "\<forall>l \<in> set ls. cleanLine l" "t \<in> set terminators" "notLF rest"
    and "cleanLine l" "length l \<le> maxSSERecordBytes"
  shows "readLine (s\<lparr>sr_input := l @ t @ frame t ls @ rest\<rparr>) = (l, None, s\<lparr>sr_input := frame t ls @ rest\<rparr>)"
  using assms notLF_frame [of ls t rest] by (intro readLine_clean) (auto simp: cleanLine_def)

lemma sse_reader_commute:
  "s\<lparr>sr_input := a, sr_firstLine := b\<rparr> = s\<lparr>sr_firstLine := b, sr_input := a\<rparr>"
  by (cases s) simp

text \<open>One framed record is read as one record.\<close>

lemma nextLoop_frame:
  assumes "\<forall>l \<in> set ls. cleanLine l" "t \<in> set terminators" "notLF rest"
    and "buf \<noteq> [] \<or> ls \<noteq> []" "length (joined buf ls) \<le> maxSSERecordBytes"
    and "sr_firstLine s \<longrightarrow> ls \<noteq> [] \<and> \<not> HasPrefix (hd ls) BOM"
  shows "nextLoop buf (s\<lparr>sr_input := frame t ls @ rest\<rparr>) =
    (Inr (joined buf ls), s\<lparr>sr_input := rest, sr_firstLine := False\<rparr>)"
  using assms
proof (induction ls arbitrary: buf s)
  case Nil
  then have "readLine (s\<lparr>sr_input := [] @ t @ rest\<rparr>) = ([], None, s\<lparr>sr_input := rest\<rparr>)"
    by (intro readLine_clean) auto
  then show ?case using Nil.prems(4,6)
    by (subst nextLoop.simps) (simp add: frame_def trimFirst_def joined_def)
next
  case (Cons l ls)
  let ?buf = "(if buf \<noteq> [] then buf @ [LF] else buf) @ l"
  have l: "cleanLine l" "l \<noteq> []" using Cons.prems(1) by (auto simp: cleanLine_def)
  have len: "length ?buf \<le> maxSSERecordBytes"
    using joined_length [of ?buf ls] Cons.prems(5) joined_Cons [OF l(2)] by (metis le_trans)
  have read: "readLine (s\<lparr>sr_input := l @ t @ frame t ls @ rest\<rparr>) = (l, None, s\<lparr>sr_input := frame t ls @ rest\<rparr>)"
    using Cons.prems(1-3) l(1) len by (intro readLine_lines) (auto split: if_splits)
  have trim: "trimFirst (s\<lparr>sr_input := q\<rparr>) l = l" for q
    using Cons.prems(6) by (simp add: trimFirst_def TrimPrefix_def)
  have "nextLoop buf (s\<lparr>sr_input := frame t (l # ls) @ rest\<rparr>) =
      nextLoop ?buf ((s\<lparr>sr_firstLine := False\<rparr>)\<lparr>sr_input := frame t ls @ rest\<rparr>)"
    using len l(2) by (subst nextLoop.simps) (auto simp: frame_Cons read trim Let_def sse_reader_commute split: if_splits)
  also have "\<dots> = (Inr (joined ?buf ls), s\<lparr>sr_input := rest, sr_firstLine := False\<rparr>)"
    using Cons.prems l(2) joined_Cons [OF l(2), of buf ls]
    by (subst Cons.IH) auto
  finally show ?case using joined_Cons [OF l(2), of buf ls] by simp
qed

primrec readN :: "nat \<Rightarrow> sse_reader \<Rightarrow> string result list" where
  "readN 0 s = []"
| "readN (Suc n) s = (case Next s of (r, s') \<Rightarrow> r # readN n s')"

definition goodRecord :: "string list \<Rightarrow> bool" where
  "goodRecord ls \<longleftrightarrow> ls \<noteq> [] \<and> (\<forall>l \<in> set ls. cleanLine l) \<and> length (JoinBytes [LF] ls) \<le> maxSSERecordBytes"

lemma notLF_frames:
  "\<forall>ls \<in> set recs. goodRecord ls \<Longrightarrow> t \<in> set terminators \<Longrightarrow> notLF (concat (map (frame t) recs))"
  by (cases recs) (auto simp: notLF_frame goodRecord_def, simp add: notLF_def)

lemma readN_frames:
  assumes "\<forall>ls \<in> set recs. goodRecord ls" "t \<in> set terminators"
    and "sr_firstLine s \<longrightarrow> recs \<noteq> [] \<longrightarrow> \<not> HasPrefix (hd (hd recs)) BOM"
  shows "readN (Suc (length recs)) (s\<lparr>sr_input := concat (map (frame t) recs)\<rparr>) =
    map (\<lambda>ls. Inr (JoinBytes [LF] ls)) recs @ [Inl (sr_end s)]"
  using assms
proof (induction recs arbitrary: s)
  case Nil
  then show ?case
    by (simp add: Next_def) (subst nextLoop.simps, simp add: readLine_def trimFirst_def TrimPrefix_def BOM_def)
next
  case (Cons ls recs)
  have g: "goodRecord ls" "notLF (concat (map (frame t) recs))"
    using Cons.prems notLF_frames [of recs t] by auto
  have "Next (s\<lparr>sr_input := concat (map (frame t) (ls # recs))\<rparr>) =
      (Inr (JoinBytes [LF] ls), s\<lparr>sr_input := concat (map (frame t) recs), sr_firstLine := False\<rparr>)"
    using g Cons.prems(2,3) unfolding Next_def list.map concat.simps
    by (subst nextLoop_frame) (auto simp: goodRecord_def joined_def)
  moreover have "readN (Suc (length recs)) (s\<lparr>sr_input := concat (map (frame t) recs), sr_firstLine := False\<rparr>) =
      map (\<lambda>ls. Inr (JoinBytes [LF] ls)) recs @ [Inl (sr_end s)]"
    unfolding sse_reader_commute using Cons.IH [of "s\<lparr>sr_firstLine := False\<rparr>"] Cons.prems(1,2) by simp
  ultimately show ?case by simp
qed

section \<open>Properties\<close>

text \<open>A record returned is never empty and never longer than the limit, and reading consumes input.\<close>

lemma nextLoop_bounds:
  assumes "nextLoop buf s = (Inr rec, s')" "length buf \<le> maxSSERecordBytes"
  shows "rec \<noteq> [] \<and> length rec \<le> maxSSERecordBytes \<and>
     (buf = [] \<longrightarrow> length (sr_input s') < length (sr_input s)) \<and> length (sr_input s') \<le> length (sr_input s) \<and>
     sr_end s' = sr_end s"
  using assms
proof (induction buf s rule: nextLoop.induct)
  case (1 buf s)
  obtain line0 err s0 where r: "readLine s = (line0, err, s0)" by (cases "readLine s") auto
  let ?line = "trimFirst s line0" and ?s = "s0\<lparr>sr_firstLine := False\<rparr>"
  let ?buf = "(if buf \<noteq> [] then buf @ [LF] else buf) @ ?line"
  have e: "sr_end s0 = sr_end s" using r by (auto simp: readLine_def split: prod.splits)
  have len: "length (sr_input s0) \<le> length (sr_input s)"
    using r readLineLoop_length [of "[]" "sr_end s" "sr_input s"] by (auto simp: readLine_def split: prod.splits)
  have strict: "length (sr_input s0) < length (sr_input s)" if "?line \<noteq> [] \<or> err = None"
  proof (cases "sr_input s = []")
    case True
    then have "line0 = [] \<and> err \<noteq> None" using r by (auto simp: readLine_def)
    then show ?thesis using that by (auto simp: trimFirst_def TrimPrefix_def)
  next
    case False
    then show ?thesis
      using r readLineLoop_length [of "[]" "sr_end s" "sr_input s"] by (auto simp: readLine_def split: prod.splits)
  qed
  note run = "1.prems"(1) [unfolded nextLoop.simps [of buf s] r prod.case Let_def]
  show ?case
  proof (cases err)
    case None
    show ?thesis
    proof (cases "?line = []")
      case True
      then show ?thesis
        using run "1.prems"(2) "1.IH"(1) [OF r [symmetric] HOL.refl HOL.refl HOL.refl None True] e len strict None
        by (auto split: if_splits)
    next
      case False
      then show ?thesis
        using run "1.prems"(2) "1.IH"(2) [OF r [symmetric] HOL.refl HOL.refl HOL.refl None False HOL.refl] e len strict None
        by (auto split: if_splits)
    qed
  next
    case (Some x)
    then show ?thesis
      using run "1.prems"(2) e len strict by (auto split: if_splits)
  qed
qed

text \<open>C27. Framing round trip: records of non-empty lines, framed with any one of the three line endings,
  are read back as exactly those records, in order, and then the end of the stream is reported.\<close>

theorem sse_framing:
  assumes "\<forall>ls \<in> set recs. goodRecord ls" "t \<in> set terminators"
    and "recs \<noteq> [] \<longrightarrow> \<not> HasPrefix (hd (hd recs)) BOM"
  shows "readN (Suc (length recs)) (newSSEReader (concat (map (frame t) recs)) e) =
    map (\<lambda>ls. Inr (JoinBytes [LF] ls)) recs @ [Inl e]"
  using readN_frames [OF assms(1,2), of "newSSEReader [] e"] assms(3) by (simp add: newSSEReader_def)

lemma nextLoop_error: "nextLoop buf s = (Inl err, s') \<Longrightarrow> err = sr_end s \<or> err = ErrSSERecordTooLarge"
proof (induction buf s rule: nextLoop.induct)
  case (1 buf s)
  obtain line0 e s0 where r: "readLine s = (line0, e, s0)" by (cases "readLine s") auto
  note run = "1.prems" [unfolded nextLoop.simps [of buf s] r prod.case Let_def]
  have s0: "sr_end s0 = sr_end s" and e: "e = None \<or> e = Some (sr_end s) \<or> e = Some ErrSSERecordTooLarge"
    using r readLineLoop_error [of "[]" "sr_end s" "sr_input s"] by (auto simp: readLine_def split: prod.splits)
  show ?case
  proof (cases e)
    case None
    then show ?thesis using run "1.IH" [OF r [symmetric] HOL.refl HOL.refl HOL.refl None] s0 by (auto split: if_splits)
  next
    case (Some x)
    then show ?thesis using run e by (auto split: if_splits)
  qed
qed

text \<open>C28. Reading ends: of any bytes, the reader returns at most as many records as there are bytes, each
  non-empty and within the limit, and then an error, which is the one that ended the input or the one
  for an oversized record.\<close>

theorem sse_terminates:
  "\<exists>recs err. length recs \<le> length bytes \<and> readN (Suc (length recs)) (newSSEReader bytes e) = map Inr recs @ [Inl err] \<and>
     list_all (\<lambda>r. r \<noteq> [] \<and> length r \<le> maxSSERecordBytes) recs \<and> (err = e \<or> err = ErrSSERecordTooLarge)"
proof -
  have "\<exists>recs err. length recs \<le> length (sr_input s) \<and> readN (Suc (length recs)) s = map Inr recs @ [Inl err] \<and>
     (\<forall>r \<in> set recs. r \<noteq> [] \<and> length r \<le> maxSSERecordBytes) \<and> (err = sr_end s \<or> err = ErrSSERecordTooLarge)" for s
  proof (induction "length (sr_input s)" arbitrary: s rule: less_induct)
    case less
    obtain x s' where nx: "Next s = (x, s')" by fastforce
    show ?case
    proof (cases x)
      case (Inl err)
      then have "readN (Suc (length [])) s = map Inr [] @ [Inl err]" using nx by simp
      moreover have "err = sr_end s \<or> err = ErrSSERecordTooLarge" using nx Inl nextLoop_error by (simp add: Next_def)
      ultimately show ?thesis by (intro exI [of _ "[]"] exI [of _ err]) simp
    next
      case (Inr rec)
      then have b: "rec \<noteq> []" "length rec \<le> maxSSERecordBytes" "length (sr_input s') < length (sr_input s)" "sr_end s' = sr_end s"
        using nextLoop_bounds [of "[]" s rec s'] nx by (simp_all add: Next_def)
      obtain recs err where ih: "length recs \<le> length (sr_input s')" "readN (Suc (length recs)) s' = map Inr recs @ [Inl err]"
        "\<forall>r \<in> set recs. r \<noteq> [] \<and> length r \<le> maxSSERecordBytes" "err = sr_end s' \<or> err = ErrSSERecordTooLarge"
        using less [OF b(3)] by blast
      have "readN (Suc (length (rec # recs))) s = map Inr (rec # recs) @ [Inl err]"
        using ih(2) nx Inr by (simp only: readN.simps list.size prod.case) simp
      then show ?thesis using ih b by (intro exI [of _ "rec # recs"] exI [of _ err]) simp
    qed
  qed
  from this [of "newSSEReader bytes e"] show ?thesis by (simp add: newSSEReader_def list_all_iff)
qed

text \<open>An over-long line is not reported when it follows a line of the same record: \<open>Next\<close> returns the
  lines before it as a complete record and the next call resumes in the middle of the long line.\<close>

lemma readLineLoop_long:
  "LF \<notin> set l \<Longrightarrow> CR \<notin> set l \<Longrightarrow> length acc + length l = maxSSERecordBytes \<Longrightarrow> b \<noteq> LF \<Longrightarrow> b \<noteq> CR \<Longrightarrow>
     readLineLoop acc e (l @ b # rest) = ([], Some ErrSSERecordTooLarge, rest)"
  by (induction l arbitrary: acc) auto

theorem sse_long_line_swallowed:
  assumes "cleanLine a" "length a \<le> maxSSERecordBytes" "\<not> HasPrefix a BOM"
    and "LF \<notin> set l" "CR \<notin> set l" "length l = maxSSERecordBytes" "b \<noteq> LF" "b \<noteq> CR"
    and "goodRecord [rest]"
  shows "readN 2 (newSSEReader (a @ [LF] @ l @ b # frame [LF] [rest]) e) = [Inr a, Inr rest]"
proof -
  let ?s = "newSSEReader [] e"
  have "readLine (?s\<lparr>sr_input := a @ [LF] @ l @ b # frame [LF] [rest]\<rparr>) =
      (a, None, ?s\<lparr>sr_input := l @ b # frame [LF] [rest]\<rparr>)"
    using assms(1,2) by (intro readLine_clean) (auto simp: cleanLine_def terminators_def)
  moreover have "readLine \<lparr>sr_input = l @ b # frame [LF] [rest], sr_end = e, sr_firstLine = f\<rparr> =
      ([], Some ErrSSERecordTooLarge, \<lparr>sr_input = frame [LF] [rest], sr_end = e, sr_firstLine = f\<rparr>)" for f
    using readLineLoop_long [of l "[]" b] assms(4-8) by (simp add: readLine_def)
  moreover have "a \<noteq> []" using assms(1) by (simp add: cleanLine_def)
  ultimately have "Next (?s\<lparr>sr_input := a @ [LF] @ l @ b # frame [LF] [rest]\<rparr>) =
      (Inr a, ?s\<lparr>sr_input := frame [LF] [rest], sr_firstLine := False\<rparr>)"
    using assms(2,3) unfolding Next_def
    by (subst nextLoop.simps) (simp add: trimFirst_def TrimPrefix_def Let_def, subst nextLoop.simps,
        simp add: trimFirst_def TrimPrefix_def Let_def sse_reader_commute newSSEReader_def)
  moreover have "Next (?s\<lparr>sr_input := frame [LF] [rest], sr_firstLine := False\<rparr>) = 
      (Inr rest, ?s\<lparr>sr_input := [], sr_firstLine := False\<rparr>)"
    using nextLoop_frame [of "[rest]" "[LF]" "[]" "[]" "?s\<lparr>sr_firstLine := False\<rparr>"] assms(9)
    by (simp add: Next_def goodRecord_def terminators_def joined_def notLF_def sse_reader_commute)
  ultimately show ?thesis by (simp add: newSSEReader_def numeral_2_eq_2)
qed

theorem sse_framing_witness:
  "readN 3 (newSSEReader (concat (map (frame [CR, LF]) [[''event: a'', ''data: 1''], [''data: 2'']])) ErrEOF) =
     [Inr (''event: a'' @ [LF] @ ''data: 1''), Inr ''data: 2'', Inl ErrEOF]"
  using sse_framing [of "[[''event: a'', ''data: 1''], [''data: 2'']]" "[CR, LF]" ErrEOF]
  by (simp add: goodRecord_def terminators_def cleanLine_def LF_code CR_code maxSSERecordBytes_def BOM_def byte_def char_of_def bit_0
      numeral_3_eq_3)

end
