(* ===== verification/StreamUsage.thy ===== *)
theory StreamUsage
  imports Billing
begin

text \<open>
  The usage accounting of a streamed response, \<open>internal/forwarder/stream.go\<close>: what one event adds,
  which events may follow the final usage, how the final usage overrides the running one, and when the
  result may be settled exactly. \<open>recordStep\<close> is the part of the loop of \<open>forwardStream\<close> that accounts
  for the events of one record; Forward runs it between reading and writing.
\<close>

section \<open>One event\<close>

text \<open>The larger of two counts, where an unknown one does not count.\<close>

definition maxKnown :: "bool \<Rightarrow> int \<Rightarrow> bool \<Rightarrow> int \<Rightarrow> int" where
  "maxKnown known x evKnown y = (if evKnown then (if \<not> known \<or> y > x then y else x) else x)"

definition cacheMax :: "int \<Rightarrow> int \<Rightarrow> int" where
  "cacheMax x y = (if y < 0 then -1 else if x \<ge> 0 \<and> y > x then y else x)"

definition accumulateUsage :: "usage \<Rightarrow> event \<Rightarrow> usage" where
  "accumulateUsage u ev =
     (case ev_Usage ev of
        None \<Rightarrow> u
      | Some v \<Rightarrow>
          u\<lparr>u_InputTokens := maxKnown (u_InputTokensKnown u) (u_InputTokens u) (u_InputTokensKnown v) (u_InputTokens v),
            u_InputTokensKnown := u_InputTokensKnown u \<or> u_InputTokensKnown v,
            u_OutputTokens := maxKnown (u_OutputTokensKnown u) (u_OutputTokens u) (u_OutputTokensKnown v) (u_OutputTokens v),
            u_OutputTokensKnown := u_OutputTokensKnown u \<or> u_OutputTokensKnown v,
            u_ReportedTotalTokens := maxKnown (u_TotalTokensKnown u) (u_ReportedTotalTokens u)
                (u_TotalTokensKnown v) (u_ReportedTotalTokens v),
            u_TotalTokensKnown := u_TotalTokensKnown u \<or> u_TotalTokensKnown v,
            u_CacheCreationInputTokens := cacheMax (u_CacheCreationInputTokens u) (u_CacheCreationInputTokens v),
            u_CacheReadInputTokens := cacheMax (u_CacheReadInputTokens u) (u_CacheReadInputTokens v)\<rparr>)"

definition allowedAfterFinalUsage :: "event \<Rightarrow> bool" where
  "allowedAfterFinalUsage ev =
     (case ev_Type ev of
        EventPing \<Rightarrow> True
      | EventMessageStop \<Rightarrow> True
      | EventMessageDelta \<Rightarrow> ev_UsageFinal ev \<and> ev_Usage ev \<noteq> None
      | _ \<Rightarrow> False)"

lemma allowedAfterFinalUsage_iff:
  "allowedAfterFinalUsage ev \<longleftrightarrow> ev_Type ev = EventPing \<or> ev_Type ev = EventMessageStop \<or>
     ev_Type ev = EventMessageDelta \<and> ev_UsageFinal ev \<and> ev_Usage ev \<noteq> None"
  by (cases "ev_Type ev") (simp_all add: allowedAfterFinalUsage_def)

definition usageWithFinalAuthority :: "usage \<Rightarrow> usage \<Rightarrow> usage" where
  "usageWithFinalAuthority aggregate final =
     (let a1 = (if u_InputTokensKnown final
                then aggregate\<lparr>u_InputTokens := u_InputTokens final, u_InputTokensKnown := True\<rparr> else aggregate);
          a2 = (if u_OutputTokensKnown final
                then a1\<lparr>u_OutputTokens := u_OutputTokens final, u_OutputTokensKnown := True\<rparr>
                else a1\<lparr>u_OutputTokens := 0, u_OutputTokensKnown := False\<rparr>)
      in if u_TotalTokensKnown final
         then a2\<lparr>u_ReportedTotalTokens := u_ReportedTotalTokens final, u_TotalTokensKnown := True\<rparr>
         else a2\<lparr>u_ReportedTotalTokens := 0, u_TotalTokensKnown := False\<rparr>)"

definition checkedStreamTokenSum :: "int list \<Rightarrow> int option" where
  "checkedStreamTokenSum values = tokenSumLoop 0 values"

definition readyKnown :: "int \<Rightarrow> int \<Rightarrow> int \<Rightarrow> bool \<Rightarrow> bool \<Rightarrow> bool" where
  "readyKnown cacheTotal input output inputKnown outputKnown =
     (if \<not> inputKnown \<or> \<not> outputKnown \<or> input < 0 \<or> output < 0 then False
      else checkedStreamTokenSum [input, cacheTotal, output] \<noteq> None)"

definition usageReadyForExactSettlement :: "usage \<Rightarrow> bool" where
  "usageReadyForExactSettlement u =
     (let input = u_InputTokens u; output = u_OutputTokens u;
          inputKnown = u_InputTokensKnown u; outputKnown = u_OutputTokensKnown u in
      case checkedStreamTokenSum [u_CacheCreationInputTokens u, u_CacheReadInputTokens u] of
        None \<Rightarrow> False
      | Some cacheTotal \<Rightarrow>
          if \<not> u_TotalTokensKnown u then readyKnown cacheTotal input output inputKnown outputKnown
          else let total = u_ReportedTotalTokens u in
            if total < 0 then False
            else if inputKnown \<and> outputKnown then
              (case checkedStreamTokenSum [input, cacheTotal, output] of
                 None \<Rightarrow> False
               | Some calculated \<Rightarrow>
                   if calculated \<noteq> total then False
                   else readyKnown cacheTotal input output inputKnown outputKnown)
            else if inputKnown then
              (case checkedStreamTokenSum [input, cacheTotal] of
                 None \<Rightarrow> False
               | Some known \<Rightarrow>
                   if total < known then False
                   else readyKnown cacheTotal input (i64 (total - known)) inputKnown True)
            else if outputKnown then
              (case checkedStreamTokenSum [output, cacheTotal] of
                 None \<Rightarrow> False
               | Some known \<Rightarrow>
                   if total < known then False
                   else readyKnown cacheTotal (i64 (total - known)) output True outputKnown)
            else False)"

section \<open>One record\<close>

record stream_acc =
  sa_usage :: usage
  sa_finalUsage :: usage
  sa_protocolCompleted :: bool
  sa_finalUsageSeen :: bool
  sa_finalUsageInvalidated :: bool

definition newStreamAcc :: stream_acc where
  "newStreamAcc = \<lparr>sa_usage = zeroUsage, sa_finalUsage = zeroUsage, sa_protocolCompleted = False,
     sa_finalUsageSeen = False, sa_finalUsageInvalidated = False\<rparr>"

definition eventStep :: "event \<Rightarrow> stream_acc \<times> goerr option \<Rightarrow> stream_acc \<times> goerr option" where
  "eventStep ev s =
     (let (acc, eventErr) = s;
          acc1 = (if sa_finalUsageSeen acc \<and> \<not> allowedAfterFinalUsage ev
                  then acc\<lparr>sa_finalUsageInvalidated := True\<rparr> else acc);
          acc2 = acc1\<lparr>sa_usage := accumulateUsage (sa_usage acc1) ev\<rparr>;
          acc3 = (if ev_UsageFinal ev
                  then acc2\<lparr>sa_finalUsageSeen := True,
                            sa_finalUsage := accumulateUsage (sa_finalUsage acc2) ev\<rparr>
                  else acc2)
      in case ev_Type ev of
           EventMessageStop \<Rightarrow> (acc3\<lparr>sa_protocolCompleted := True\<rparr>, eventErr)
         | EventError \<Rightarrow> (acc3, Some (ErrOther (ev_Err ev)))
         | _ \<Rightarrow> (acc3, eventErr))"

definition recordStep :: "event list \<Rightarrow> stream_acc \<Rightarrow> stream_acc \<times> goerr option" where
  "recordStep events acc =
     fold eventStep events
       (if sa_finalUsageSeen acc \<and> events = [] then acc\<lparr>sa_finalUsageInvalidated := True\<rparr> else acc, None)"

text \<open>The usage that is settled and whether it is exact.\<close>

definition streamUsage :: "stream_acc \<Rightarrow> usage" where
  "streamUsage acc = usageWithFinalAuthority (sa_usage acc) (sa_finalUsage acc)"

definition streamExact :: "stream_acc \<Rightarrow> bool" where
  "streamExact acc \<longleftrightarrow> \<not> (\<not> sa_finalUsageSeen acc \<or> sa_finalUsageInvalidated acc \<or>
     \<not> usageReadyForExactSettlement (streamUsage acc))"

definition inexactUsage :: "usage \<Rightarrow> usage" where
  "inexactUsage u = u\<lparr>u_InputTokensKnown := False, u_OutputTokensKnown := False, u_TotalTokensKnown := False\<rparr>"

section \<open>Running maxima\<close>

text \<open>The counts of one kind that a list of events reports, and their running maximum.\<close>

definition known_of :: "(usage \<Rightarrow> bool) \<Rightarrow> (usage \<Rightarrow> int) \<Rightarrow> event list \<Rightarrow> int set" where
  "known_of k f evs = {f v | v ev. ev \<in> set evs \<and> ev_Usage ev = Some v \<and> k v}"

lemma known_of_snoc:
  "known_of k f (evs @ [ev]) =
     known_of k f evs \<union> (case ev_Usage ev of None \<Rightarrow> {} | Some v \<Rightarrow> if k v then {f v} else {})"
  by (auto simp: known_of_def split: option.splits)

lemma known_of_Nil [simp]: "known_of k f [] = {}"
  by (simp add: known_of_def)

lemma finite_known_of [simp]: "finite (known_of k f evs)"
  by (induction evs rule: rev_induct) (auto simp: known_of_snoc split: option.splits)

definition usageOf :: "event list \<Rightarrow> usage" where
  "usageOf evs = foldl accumulateUsage zeroUsage evs"

definition tracks :: "bool \<Rightarrow> int \<Rightarrow> int set \<Rightarrow> bool" where
  "tracks known x S \<longleftrightarrow> (known \<longleftrightarrow> S \<noteq> {}) \<and> (known \<longrightarrow> x = Max S)"

lemma tracks_step:
  assumes "tracks known x S" "finite S"
  shows "tracks (known \<or> k) (maxKnown known x k y) (S \<union> (if k then {y} else {}))"
proof (cases "k \<and> S \<noteq> {}")
  case True
  then have "Max (insert y S) = (if y > Max S then y else Max S)" 
    using Max_insert [of S y] assms(2) True by (metis max_def not_le)
  moreover have "known \<and> x = Max S" using assms(1) True by (simp add: tracks_def)
  ultimately show ?thesis using True by (simp add: tracks_def maxKnown_def)
next
  case False
  then show ?thesis using assms by (auto simp: tracks_def maxKnown_def)
qed

lemma usageOf_tracks:
  "tracks (u_InputTokensKnown (usageOf evs)) (u_InputTokens (usageOf evs)) (known_of u_InputTokensKnown u_InputTokens evs) \<and>
   tracks (u_OutputTokensKnown (usageOf evs)) (u_OutputTokens (usageOf evs)) (known_of u_OutputTokensKnown u_OutputTokens evs) \<and>
   tracks (u_TotalTokensKnown (usageOf evs)) (u_ReportedTotalTokens (usageOf evs))
     (known_of u_TotalTokensKnown u_ReportedTotalTokens evs)"
proof (induction evs rule: rev_induct)
  case Nil
  then show ?case by (simp add: usageOf_def zeroUsage_def tracks_def)
next
  case (snoc ev evs)
  have step: "usageOf (evs @ [ev]) = accumulateUsage (usageOf evs) ev" by (simp add: usageOf_def)
  show ?case
  proof (cases "ev_Usage ev")
    case None
    then show ?thesis using snoc by (simp add: step accumulateUsage_def known_of_snoc)
  next
    case (Some v)
    then show ?thesis using snoc tracks_step [OF _ finite_known_of]
      by (simp add: step accumulateUsage_def known_of_snoc)
  qed
qed

text \<open>A whole stream without error events: the fold is the two running usages and the two flags.\<close>

definition streamRun :: "event list list \<Rightarrow> stream_acc" where
  "streamRun recs = fold (\<lambda>evs acc. fst (recordStep evs acc)) recs newStreamAcc"

lemma eventStep_usage:
  "sa_usage (fst (eventStep ev (acc, e))) = accumulateUsage (sa_usage acc) ev"
  "sa_finalUsage (fst (eventStep ev (acc, e))) =
     (if ev_UsageFinal ev then accumulateUsage (sa_finalUsage acc) ev else sa_finalUsage acc)"
  "sa_finalUsageSeen (fst (eventStep ev (acc, e))) \<longleftrightarrow> sa_finalUsageSeen acc \<or> ev_UsageFinal ev"
  "sa_finalUsageInvalidated (fst (eventStep ev (acc, e))) \<longleftrightarrow>
     sa_finalUsageInvalidated acc \<or> sa_finalUsageSeen acc \<and> \<not> allowedAfterFinalUsage ev"
  "sa_protocolCompleted (fst (eventStep ev (acc, e))) \<longleftrightarrow> sa_protocolCompleted acc \<or> ev_Type ev = EventMessageStop"
  by (auto simp: eventStep_def Let_def split: event_type.splits)

lemma eventStep_err:
  "snd (eventStep ev (acc, e)) = (if ev_Type ev = EventError then Some (ErrOther (ev_Err ev)) else e)"
  by (auto simp: eventStep_def Let_def split: event_type.splits)

lemma fold_eventStep_usage:
  "sa_usage (fst (fold eventStep evs s)) = foldl accumulateUsage (sa_usage (fst s)) evs"
proof (induction evs arbitrary: s)
  case (Cons ev evs)
  show ?case using Cons [of "eventStep ev s"] eventStep_usage(1) [of ev "fst s" "snd s"] by simp
qed simp

lemma fold_eventStep_final:
  "sa_finalUsage (fst (fold eventStep evs s)) =
     foldl accumulateUsage (sa_finalUsage (fst s)) (filter ev_UsageFinal evs)"
proof (induction evs arbitrary: s)
  case (Cons ev evs)
  show ?case using Cons [of "eventStep ev s"] eventStep_usage(2) [of ev "fst s" "snd s"] by simp
qed simp

lemma fold_eventStep_seen:
  "sa_finalUsageSeen (fst (fold eventStep evs s)) \<longleftrightarrow> sa_finalUsageSeen (fst s) \<or> (\<exists>ev \<in> set evs. ev_UsageFinal ev)"
proof (induction evs arbitrary: s)
  case (Cons ev evs)
  show ?case using Cons [of "eventStep ev s"] eventStep_usage(3) [of ev "fst s" "snd s"] by auto
qed simp

lemma fold_eventStep_completed:
  "sa_protocolCompleted (fst (fold eventStep evs s)) \<longleftrightarrow>
     sa_protocolCompleted (fst s) \<or> (\<exists>ev \<in> set evs. ev_Type ev = EventMessageStop)"
proof (induction evs arbitrary: s)
  case (Cons ev evs)
  show ?case using Cons [of "eventStep ev s"] eventStep_usage(5) [of ev "fst s" "snd s"] by auto
qed simp

text \<open>The final usage is invalidated by the first event after it that may not follow it.\<close>

fun tailAllowed :: "bool \<Rightarrow> event list \<Rightarrow> bool" where
  "tailAllowed seen [] \<longleftrightarrow> True"
| "tailAllowed seen (ev # evs) \<longleftrightarrow> (seen \<longrightarrow> allowedAfterFinalUsage ev) \<and> tailAllowed (seen \<or> ev_UsageFinal ev) evs"

lemma tailAllowed_seen: "tailAllowed True evs \<longleftrightarrow> (\<forall>ev \<in> set evs. allowedAfterFinalUsage ev)"
  by (induction evs) auto

lemma tailAllowedD:
  "tailAllowed seen (pre @ f # post) \<Longrightarrow> ev_UsageFinal f \<Longrightarrow> ev \<in> set post \<Longrightarrow> allowedAfterFinalUsage ev"
  by (induction pre arbitrary: seen) (auto simp: tailAllowed_seen)

lemma fold_eventStep_invalid:
  "sa_finalUsageInvalidated (fst (fold eventStep evs s)) \<longleftrightarrow>
     sa_finalUsageInvalidated (fst s) \<or> \<not> tailAllowed (sa_finalUsageSeen (fst s)) evs"
proof (induction evs arbitrary: s)
  case (Cons ev evs)
  show ?case using Cons [of "eventStep ev s"] eventStep_usage(3,4) [of ev "fst s" "snd s"]
    by auto
qed simp

lemma recordStep_err: "snd (recordStep evs acc) = None \<longleftrightarrow> (\<forall>ev \<in> set evs. ev_Type ev \<noteq> EventError)"
proof -
  have "snd (fold eventStep evs s) = None \<longleftrightarrow> snd s = None \<and> (\<forall>ev \<in> set evs. ev_Type ev \<noteq> EventError)" for s
  proof (induction evs arbitrary: s)
    case (Cons ev evs)
    then show ?case using eventStep_err [of ev "fst s" "snd s"] by (auto split: if_splits)
  qed simp
  then show ?thesis by (simp add: recordStep_def)
qed

text \<open>A whole stream.\<close>

definition addRecord :: "event list \<Rightarrow> stream_acc \<Rightarrow> stream_acc" where
  "addRecord evs acc = fst (recordStep evs acc)"

lemma streamRun_addRecord: "streamRun recs = fold addRecord recs newStreamAcc"
  by (simp add: streamRun_def addRecord_def [abs_def])

lemma addRecord_sel:
  "sa_usage (addRecord evs acc) = foldl accumulateUsage (sa_usage acc) evs"
  "sa_finalUsage (addRecord evs acc) = foldl accumulateUsage (sa_finalUsage acc) (filter ev_UsageFinal evs)"
  "sa_finalUsageSeen (addRecord evs acc) \<longleftrightarrow> sa_finalUsageSeen acc \<or> (\<exists>ev \<in> set evs. ev_UsageFinal ev)"
  "sa_protocolCompleted (addRecord evs acc) \<longleftrightarrow> sa_protocolCompleted acc \<or> (\<exists>ev \<in> set evs. ev_Type ev = EventMessageStop)"
  "sa_finalUsageInvalidated (addRecord evs acc) \<longleftrightarrow> sa_finalUsageInvalidated acc \<or>
     sa_finalUsageSeen acc \<and> evs = [] \<or> \<not> tailAllowed (sa_finalUsageSeen acc) evs"
  by (simp_all add: addRecord_def recordStep_def fold_eventStep_usage fold_eventStep_final fold_eventStep_seen
      fold_eventStep_completed fold_eventStep_invalid) auto

lemma tailAllowed_append:
  "tailAllowed seen (xs @ ys) \<longleftrightarrow> tailAllowed seen xs \<and> tailAllowed (seen \<or> (\<exists>ev \<in> set xs. ev_UsageFinal ev)) ys"
  by (induction xs arbitrary: seen) (auto simp: disj_assoc disj_commute)

lemma fold_addRecord:
  "sa_usage (fold addRecord recs acc) = foldl accumulateUsage (sa_usage acc) (concat recs)"
  "sa_finalUsage (fold addRecord recs acc) = foldl accumulateUsage (sa_finalUsage acc) (filter ev_UsageFinal (concat recs))"
  "sa_finalUsageSeen (fold addRecord recs acc) \<longleftrightarrow> sa_finalUsageSeen acc \<or> (\<exists>ev \<in> set (concat recs). ev_UsageFinal ev)"
  by (induction recs arbitrary: acc) (auto simp: addRecord_sel)

lemma fold_addRecord_valid:
  "\<not> sa_finalUsageInvalidated (fold addRecord recs acc) \<Longrightarrow>
     \<not> sa_finalUsageInvalidated acc \<and> tailAllowed (sa_finalUsageSeen acc) (concat recs)"
proof (induction recs arbitrary: acc)
  case (Cons evs recs)
  have "\<not> sa_finalUsageInvalidated (addRecord evs acc) \<and>
      tailAllowed (sa_finalUsageSeen (addRecord evs acc)) (concat recs)"
    using Cons by simp
  then show ?case by (simp add: addRecord_sel tailAllowed_append)
qed simp

lemma streamRun_sel:
  "sa_usage (streamRun recs) = usageOf (concat recs)"
  "sa_finalUsage (streamRun recs) = usageOf (filter ev_UsageFinal (concat recs))"
  "sa_finalUsageSeen (streamRun recs) \<longleftrightarrow> (\<exists>ev \<in> set (concat recs). ev_UsageFinal ev)"
  by (simp_all add: streamRun_addRecord fold_addRecord usageOf_def newStreamAcc_def)

section \<open>Agreement with Billing\<close>

lemma checkedStreamTokenSum_eq: "checkedStreamTokenSum vs = checkedUsageTokenSum vs"
  by (simp add: checkedStreamTokenSum_def checkedUsageTokenSum_def)

definition exactOutcome :: "pricing \<Rightarrow> reservation \<Rightarrow> usage \<Rightarrow> int \<Rightarrow> int \<Rightarrow> settlement \<Rightarrow> bool" where
  "exactOutcome p r u i out st \<longleftrightarrow>
     (case CostUsageChecked p (r_Model r) i out (u_CacheCreationInputTokens u) (u_CacheReadInputTokens u) of
        Inl _ \<Rightarrow> st_cost st = r_Amount r \<and> \<not> st_complete st
      | Inr c \<Rightarrow> st = \<lparr>st_cost = c, st_input = i, st_output = out, st_complete = True, st_estimated = False\<rparr>)"

lemma readyKnown_settles:
  "readyKnown ct i out ik ok \<Longrightarrow> 0 \<le> i \<and> 0 \<le> out \<and> ik \<and> ok \<and> exactOutcome p r u i out (settleKnown p r u i out ik ok)"
  by (auto simp: readyKnown_def settleKnown_def exactOutcome_def Let_def split: if_splits sum.splits)

lemma ready_exactOutcome:
  assumes "usage_go u" "usageReadyForExactSettlement u"
  shows "\<exists>i out. 0 \<le> i \<and> 0 \<le> out \<and> (u_InputTokensKnown u \<longrightarrow> i = u_InputTokens u) \<and>
     (u_OutputTokensKnown u \<longrightarrow> out = u_OutputTokens u) \<and>
     (u_TotalTokensKnown u \<longrightarrow>
        u_ReportedTotalTokens u = i + out + u_CacheCreationInputTokens u + u_CacheReadInputTokens u) \<and>
     exactOutcome p r u i out (settlementCost p r u)"
proof -
  let ?cc = "u_CacheCreationInputTokens u" and ?cr = "u_CacheReadInputTokens u"
  let ?i = "u_InputTokens u" and ?o = "u_OutputTokens u" and ?t = "u_ReportedTotalTokens u"
  have le: "?cc \<le> max_int64" "?cr \<le> max_int64" "?i \<le> max_int64" "?o \<le> max_int64" "?t \<le> max_int64"
    using assms(1) by (auto simp: usage_go_def go_int)
  note ready = assms(2) [unfolded usageReadyForExactSettlement_def checkedStreamTokenSum_eq Let_def]
  obtain ct where Ct: "checkedUsageTokenSum [?cc, ?cr] = Some ct"
    using ready by (auto split: option.splits)
  have ct: "0 \<le> ?cc" "0 \<le> ?cr" "ct = ?cc + ?cr" "ct \<le> max_int64"
    using Ct checkedUsageTokenSum_ok [of "[?cc, ?cr]" ct] le by auto
  have sub: "i64 (?t - known) = ?t - known" if "0 \<le> known" "known \<le> ?t" for known
    using that le by (intro i64_id) (simp add: go_int)
  show ?thesis
  proof (cases "u_TotalTokensKnown u")
    case False
    then have "readyKnown ct ?i ?o (u_InputTokensKnown u) (u_OutputTokensKnown u)" using ready Ct by simp
    from readyKnown_settles [OF this, of p r u] show ?thesis using False Ct by (auto simp: settlementCost_def Let_def)
  next
    case T: True
    have t0: "\<not> ?t < 0" using ready Ct T by (auto split: if_splits)
    consider (both) "u_InputTokensKnown u" "u_OutputTokensKnown u"
      | (inp) "u_InputTokensKnown u" "\<not> u_OutputTokensKnown u"
      | (outp) "\<not> u_InputTokensKnown u" "u_OutputTokensKnown u"
      using ready Ct T t0 by (auto split: if_splits)
    then show ?thesis
    proof cases
      case both
      then obtain k where K: "checkedUsageTokenSum [?i, ct, ?o] = Some k" "k = ?t" "readyKnown ct ?i ?o True True"
        using ready Ct T t0 by (auto split: if_splits option.splits)
      have "0 \<le> ?i" "0 \<le> ?o" "?t = ?i + ct + ?o"
        using K checkedUsageTokenSum_ok [of "[?i, ct, ?o]" k] le ct by auto
      then show ?thesis using readyKnown_settles [OF K(3), of p r u] T Ct t0 both K(1,2) ct
        by (auto simp: settlementCost_def Let_def)
    next
      case inp
      then obtain k where K: "checkedUsageTokenSum [?i, ct] = Some k" "\<not> ?t < k"
        "readyKnown ct ?i (i64 (?t - k)) True True"
        using ready Ct T t0 by (auto split: if_splits option.splits)
      have k: "0 \<le> ?i" "k = ?i + ct"
        using K checkedUsageTokenSum_ok [of "[?i, ct]" k] le ct by auto
      then show ?thesis using readyKnown_settles [OF K(3), of p r u] T Ct t0 inp K ct sub [of k]
        by (intro exI [of _ ?i] exI [of _ "?t - k"]) (simp add: settlementCost_def Let_def)
    next
      case outp
      then obtain k where K: "checkedUsageTokenSum [?o, ct] = Some k" "\<not> ?t < k"
        "readyKnown ct (i64 (?t - k)) ?o True True"
        using ready Ct T t0 by (auto split: if_splits option.splits)
      have k: "0 \<le> ?o" "k = ?o + ct"
        using K checkedUsageTokenSum_ok [of "[?o, ct]" k] le ct by auto
      then show ?thesis using readyKnown_settles [OF K(3), of p r u] T Ct t0 outp K ct sub [of k]
        by (intro exI [of _ "?t - k"] exI [of _ ?o]) (simp add: settlementCost_def Let_def)
    qed
  qed
qed

text \<open>Hiding the known flags makes Billing charge the whole reservation.\<close>

lemma inexact_whole: "st_cost (settlementCost p r (inexactUsage u)) = r_Amount r"
  by (simp add: settlementCost_def inexactUsage_def settleKnown_def Let_def split: option.splits)

section \<open>Properties\<close>



section \<open>Witnesses\<close>

definition finalDelta :: "int \<Rightarrow> event" where
  "finalDelta n = (zeroEvent EventMessageDelta)\<lparr>ev_UsageFinal := True,
     ev_Usage := Some (zeroUsage\<lparr>u_OutputTokens := n, u_OutputTokensKnown := True\<rparr>)\<rparr>"

definition startEvent :: event where
  "startEvent = (zeroEvent EventMessageStart)\<lparr>
     ev_Usage := Some (zeroUsage\<lparr>u_InputTokens := 10, u_InputTokensKnown := True,
       u_OutputTokens := 99, u_OutputTokensKnown := True\<rparr>)\<rparr>"

definition exampleRecords :: "event list list" where
  "exampleRecords = [[startEvent], [finalDelta 20], [zeroEvent EventMessageStop]]"



end
