(* ===== verification/RequestBody.thy ===== *)
theory RequestBody
  imports GoJson Routing
begin

text \<open>
  The rewriting of request bodies before they go upstream: \<open>request_normalize.go\<close> (the security
  relevant fields of a passed-through body) and \<open>output_limit.go\<close> (which of the two synonymous
  OpenAI fields carries the output bound) of \<open>internal/forwarder\<close>. The field names and the error texts
  are data; an error is \<open>ErrOther ''request''\<close>.
\<close>

section \<open>Normalisation\<close>

definition marshalInt :: "int \<Rightarrow> string" where
  "marshalInt v = intText v"

definition marshalBool :: "bool \<Rightarrow> string" where
  "marshalBool v = boolText v"

definition hasNonNullJSON :: "(string, string) gomap \<Rightarrow> string \<Rightarrow> bool" where
  "hasNonNullJSON body key = (case map_of body key of None \<Rightarrow> False | Some raw \<Rightarrow> raw \<noteq> ''null'')"

definition protectedFields :: "string list" where
  "protectedFields = [''model'', ''max_tokens'', ''max_completion_tokens'', ''n'', ''stream'', ''stream_options'']"

definition misspelt :: "string list \<Rightarrow> string \<Rightarrow> bool" where
  "misspelt protected key \<longleftrightarrow> (\<exists>p \<in> set protected. key \<noteq> p \<and> EqualFoldLower key p)"

definition forceOpenAIStreamUsage :: "(string, string) gomap \<Rightarrow> ((string, string) gomap \<times> bool) result" where
  "forceOpenAIStreamUsage body =
     (let options = (case map_of body ''stream_options'' of
                       None \<Rightarrow> []
                     | Some rawOptions \<Rightarrow>
                         (case unmarshalRawMap rawOptions of Inr (Some parsed) \<Rightarrow> parsed | _ \<Rightarrow> []))
      in if \<exists>k \<in> set (map fst options). misspelt [''include_usage''] k then Inl (ErrOther ''request'')
         else if map_of options ''include_usage'' = Some ''true'' then Inr (body, False)
         else (case marshalRawMap (mput ''include_usage'' ''true'' options) of
                 Inl e \<Rightarrow> Inl e
               | Inr encoded \<Rightarrow> Inr (mput ''stream_options'' encoded body, True)))"

text \<open>The fields that one format needs.\<close>

definition setOpenAIFields :: "(string, string) gomap \<Rightarrow> int \<Rightarrow> bool \<Rightarrow> (string, string) gomap result" where
  "setOpenAIFields body maxOutput stream =
     (let b1 = (if hasNonNullJSON body ''max_completion_tokens''
                then mdel ''max_tokens'' (mput ''max_completion_tokens'' (marshalInt maxOutput) body)
                else mdel ''max_completion_tokens'' (mput ''max_tokens'' (marshalInt maxOutput) body));
          b2 = mput ''stream'' (marshalBool stream) b1
      in if stream then (case forceOpenAIStreamUsage b2 of Inl e \<Rightarrow> Inl e | Inr (b3, _) \<Rightarrow> Inr b3) else Inr b2)"

definition setAnthropicFields :: "(string, string) gomap \<Rightarrow> int \<Rightarrow> bool \<Rightarrow> (string, string) gomap" where
  "setAnthropicFields body maxOutput stream =
     mput ''stream'' (marshalBool stream) (mput ''max_tokens'' (marshalInt maxOutput) body)"

definition normalizePassthroughRequest :: "string \<Rightarrow> string \<Rightarrow> int \<Rightarrow> bool \<Rightarrow> string result" where
  "normalizePassthroughRequest raw fmt maxOutput stream =
     (if fmt \<noteq> ''openai'' \<and> fmt \<noteq> ''anthropic'' then Inr raw
      else (case unmarshalRawMap raw of
              Inl e \<Rightarrow> Inl e
            | Inr None \<Rightarrow> Inl (ErrOther ''request'')
            | Inr (Some body) \<Rightarrow>
                if \<exists>k \<in> set (map fst body). misspelt protectedFields k then Inl (ErrOther ''request'')
                else (case (if fmt = ''openai'' then setOpenAIFields body maxOutput stream
                            else Inr (setAnthropicFields body maxOutput stream)) of
                        Inl e \<Rightarrow> Inl e
                      | Inr body' \<Rightarrow> marshalRawMap body')))"

definition rewriteNormalizedRequestModel :: "string \<Rightarrow> string \<Rightarrow> string result" where
  "rewriteNormalizedRequestModel raw model =
     (case unmarshalRawMap raw of
        Inr (Some body) \<Rightarrow> marshalRawMap (mput ''model'' (quoteString model) body)
      | _ \<Rightarrow> Inl (ErrOther ''request''))"

section \<open>The output bound\<close>

definition openAIMaxTokensField :: string where
  "openAIMaxTokensField = ''max_tokens''"

definition openAIMaxCompletionTokensField :: string where
  "openAIMaxCompletionTokensField = ''max_completion_tokens''"

record resolver =
  re_fields :: "(string, string) gomap"
  re_strict :: bool

definition isOpenAIOutputLimitField :: "string \<Rightarrow> bool" where
  "isOpenAIOutputLimitField field \<longleftrightarrow> field = openAIMaxTokensField \<or> field = openAIMaxCompletionTokensField"

fun copyFields :: "(string, string) gomap \<Rightarrow> (string, string) gomap \<Rightarrow> (string, string) gomap result" where
  "copyFields out [] = Inr out"
| "copyFields out ((k, v) # rest) =
     (let key = TrimSpace k; value = TrimSpace v in
      if key = [] \<or> \<not> isOpenAIOutputLimitField value then Inl (ErrOther ''policy'')
      else copyFields (mput key value out) rest)"

definition NewOpenAIOutputLimitResolver :: "(string, string) gomap \<Rightarrow> bool \<Rightarrow> resolver result" where
  "NewOpenAIOutputLimitResolver fs strict =
     (case copyFields [] fs of
        Inl e \<Rightarrow> Inl e
      | Inr copied \<Rightarrow> Inr \<lparr>re_fields = copied, re_strict = strict\<rparr>)"

text \<open>A nil resolver is \<open>None\<close>.\<close>

definition Resolve :: "resolver option \<Rightarrow> string \<Rightarrow> string \<Rightarrow> string \<Rightarrow> string result" where
  "Resolve ro channelID upstreamModel fallback =
     (let unlisted = (if isOpenAIOutputLimitField fallback then Inr fallback else Inr openAIMaxTokensField) in
      case ro of
        None \<Rightarrow> unlisted
      | Some r \<Rightarrow>
          (case map_of (re_fields r) (channelID @ ''/'' @ upstreamModel) of
             Some field \<Rightarrow> Inr field
           | None \<Rightarrow>
               (case map_of (re_fields r) upstreamModel of
                  Some field \<Rightarrow> Inr field
                | None \<Rightarrow> if re_strict r then Inl (ErrOther ''policy'') else unlisted)))"

fun resolveModels :: "resolver option \<Rightarrow> channel \<Rightarrow> string list \<Rightarrow> goerr option" where
  "resolveModels r ch [] = None"
| "resolveModels r ch (m # ms) =
     (case Resolve r (ch_ID ch) (UpstreamModel ch m) [] of
        Inl e \<Rightarrow> Some e
      | Inr _ \<Rightarrow> resolveModels r ch ms)"

definition ValidateChannel :: "resolver option \<Rightarrow> channel \<Rightarrow> goerr option" where
  "ValidateChannel r ch =
     (if \<not> ch_Enabled ch \<or> ch_Format ch \<noteq> FormatOpenAI then None
      else resolveModels r ch (map fst (ch_Models ch)))"

fun ValidateChannels :: "resolver option \<Rightarrow> channel list \<Rightarrow> goerr option" where
  "ValidateChannels r [] = None"
| "ValidateChannels r (ch # chs) =
     (case ValidateChannel r ch of Some e \<Rightarrow> Some e | None \<Rightarrow> ValidateChannels r chs)"

definition limitFields :: "(string, string) gomap \<Rightarrow> string \<Rightarrow> int \<Rightarrow> (string, string) gomap" where
  "limitFields body field maxOutput =
     mput field (marshalInt maxOutput)
       (mdel openAIMaxCompletionTokensField (mdel openAIMaxTokensField body))"

definition patchOpenAIOutputLimit :: "string \<Rightarrow> string \<Rightarrow> int \<Rightarrow> string result" where
  "patchOpenAIOutputLimit raw field maxOutput =
     (if \<not> isOpenAIOutputLimitField field \<or> maxOutput \<le> 0 then Inl (ErrOther ''policy'')
      else (case unmarshalRawMap raw of
              Inr (Some body) \<Rightarrow> marshalRawMap (limitFields body field maxOutput)
            | _ \<Rightarrow> Inl (ErrOther ''request'')))"

definition openAIOutputLimitFallback :: "string \<Rightarrow> string" where
  "openAIOutputLimitFallback raw =
     (case unmarshalRawMap raw of
        Inr (Some body) \<Rightarrow>
          if hasNonNullJSON body openAIMaxCompletionTokensField then openAIMaxCompletionTokensField
          else openAIMaxTokensField
      | _ \<Rightarrow> openAIMaxTokensField)"

definition enforceCandidateOutputLimit ::
  "resolver option \<Rightarrow> channel \<Rightarrow> string \<Rightarrow> int \<Rightarrow> string \<Rightarrow> string result" where
  "enforceCandidateOutputLimit limits ch clientModel maxTokens body =
     (if ch_Format ch \<noteq> FormatOpenAI then Inr body
      else (case Resolve limits (ch_ID ch) (UpstreamModel ch clientModel) (openAIOutputLimitFallback body) of
              Inl e \<Rightarrow> Inl e
            | Inr field \<Rightarrow> patchOpenAIOutputLimit body field maxTokens))"

end
