(* ===== verification/TargetPolicy.thy ===== *)
theory TargetPolicy
  imports GoStrings Routing
begin

text \<open>
  The upstream target policy of \<open>internal/forwarder/target_policy.go\<close>: the static checks of a base URL,
  the construction of the endpoint URL, and the address check when a connection is dialled, which
  keeps the gateway from being used to reach internal networks.

  An IP address is a 32-bit word or a 128-bit word with a zone. The text syntax of URLs and IP
  addresses is \<open>net/url\<close> and \<open>net/netip\<close>; the record \<open>netlib\<close> holds the functions used
  (\<open>url.Parse\<close>, \<open>URL.String\<close>, \<open>ParseAddr\<close>, \<open>Addr.String\<close>, \<open>ParsePrefix\<close>) as arguments.
\<close>

section \<open>Addresses\<close>

datatype ipaddr = IPv4 "32 word" | IPv6 "128 word" string

record prefix =
  pf_addr :: ipaddr
  pf_bits :: nat

unbundle bit_operations_syntax

definition Unmap :: "ipaddr \<Rightarrow> ipaddr" where
  "Unmap a =
     (case a of
        IPv4 _ \<Rightarrow> a
      | IPv6 w _ \<Rightarrow> if drop_bit 32 w = 0xffff then IPv4 (ucast w) else a)"

text \<open>\<open>Prefix.Contains\<close>: the same family, no zone, the same leading bits.\<close>

definition prefixContains :: "prefix \<Rightarrow> ipaddr \<Rightarrow> bool" where
  "prefixContains p a =
     (case (pf_addr p, a) of
        (IPv4 x, IPv4 y) \<Rightarrow> drop_bit (32 - pf_bits p) (x XOR y) = 0
      | (IPv6 x _, IPv6 y zone) \<Rightarrow> zone = [] \<and> drop_bit (128 - pf_bits p) (x XOR y) = 0
      | _ \<Rightarrow> False)"

definition Masked :: "prefix \<Rightarrow> prefix" where
  "Masked p =
     (case pf_addr p of
        IPv4 x \<Rightarrow> p\<lparr>pf_addr := IPv4 (push_bit (32 - pf_bits p) (drop_bit (32 - pf_bits p) x))\<rparr>
      | IPv6 x z \<Rightarrow> p\<lparr>pf_addr := IPv6 (push_bit (128 - pf_bits p) (drop_bit (128 - pf_bits p) x)) z\<rparr>)"

definition v4 :: "int \<Rightarrow> int \<Rightarrow> int \<Rightarrow> int \<Rightarrow> 32 word" where
  "v4 a b c d = word_of_int (a * 16777216 + b * 65536 + c * 256 + d)"

definition IsUnspecified :: "ipaddr \<Rightarrow> bool" where
  "IsUnspecified a \<longleftrightarrow> a = IPv4 0 \<or> a = IPv6 0 []"

definition IsLoopback :: "ipaddr \<Rightarrow> bool" where
  "IsLoopback a = (case a of IPv4 w \<Rightarrow> drop_bit 24 w = 127 | IPv6 w _ \<Rightarrow> w = 1)"

definition IsMulticast :: "ipaddr \<Rightarrow> bool" where
  "IsMulticast a = (case a of IPv4 w \<Rightarrow> drop_bit 28 w = 14 | IPv6 w _ \<Rightarrow> drop_bit 120 w = 255)"

definition IsLinkLocalUnicast :: "ipaddr \<Rightarrow> bool" where
  "IsLinkLocalUnicast a =
     (case a of IPv4 w \<Rightarrow> drop_bit 16 w = 0xa9fe | IPv6 w _ \<Rightarrow> drop_bit 118 w = 0x3fa)"

definition IsLinkLocalMulticast :: "ipaddr \<Rightarrow> bool" where
  "IsLinkLocalMulticast a =
     (case a of IPv4 w \<Rightarrow> drop_bit 8 w = 0xe00000 | IPv6 w _ \<Rightarrow> drop_bit 112 w AND 0xff0f = 0xff02)"

definition IsPrivate :: "ipaddr \<Rightarrow> bool" where
  "IsPrivate a =
     (case a of
        IPv4 w \<Rightarrow> drop_bit 24 w = 10 \<or> drop_bit 20 w = 0xac1 \<or> drop_bit 16 w = 0xc0a8
      | IPv6 w _ \<Rightarrow> drop_bit 121 w = 0x7e)"

definition IsGlobalUnicast :: "ipaddr \<Rightarrow> bool" where
  "IsGlobalUnicast a =
     (if a = IPv4 0 \<or> a = IPv4 0xffffffff then False
      else \<not> IsUnspecified a \<and> \<not> IsLoopback a \<and> \<not> IsMulticast a \<and> \<not> IsLinkLocalUnicast a)"

definition v4Prefix :: "int \<Rightarrow> int \<Rightarrow> int \<Rightarrow> int \<Rightarrow> nat \<Rightarrow> prefix" where
  "v4Prefix a b c d n = \<lparr>pf_addr = IPv4 (v4 a b c d), pf_bits = n\<rparr>"

definition reservedUpstreamPrefixes :: "prefix list" where
  "reservedUpstreamPrefixes =
     [v4Prefix 0 0 0 0 8, v4Prefix 100 64 0 0 10, v4Prefix 192 0 0 0 24, v4Prefix 192 0 2 0 24,
      v4Prefix 198 18 0 0 15, v4Prefix 198 51 100 0 24, v4Prefix 203 0 113 0 24, v4Prefix 240 0 0 0 4,
      \<lparr>pf_addr = IPv6 0x20010db8000000000000000000000000 [], pf_bits = 32\<rparr>]"

definition isPublicUpstreamIP :: "ipaddr \<Rightarrow> bool" where
  "isPublicUpstreamIP addr0 =
     (let addr = Unmap addr0 in
      if \<not> IsGlobalUnicast addr \<or> IsPrivate addr \<or> IsLoopback addr \<or> IsLinkLocalUnicast addr \<or>
         IsLinkLocalMulticast addr \<or> IsUnspecified addr \<or> IsMulticast addr then False
      else \<not> (\<exists>p \<in> set reservedUpstreamPrefixes. prefixContains p addr))"

section \<open>Policy\<close>

record url =
  url_Scheme :: string
  url_Opaque :: string
  url_User :: "string option"
  url_Host :: string
  url_Path :: string
  url_RawPath :: string
  url_EscapedPath :: string
  url_ForceQuery :: bool
  url_RawQuery :: string
  url_Fragment :: string

record netlib =
  nl_urlParse :: "string \<Rightarrow> url option"
  nl_urlString :: "url \<Rightarrow> string"
  nl_ParseAddr :: "string \<Rightarrow> ipaddr option"
  nl_AddrString :: "ipaddr \<Rightarrow> string"
  nl_ParsePrefix :: "string \<Rightarrow> prefix option"

record target_rule =
  tr_allowHTTP :: bool
  tr_cidrs :: "prefix list"

record target_rule_config =
  tc_Authority :: string
  tc_AllowHTTP :: bool
  tc_AllowedCIDRs :: "string list"

record target_policy =
  tp_strict :: bool
  tp_rules :: "(string, target_rule) gomap"

definition policyError :: goerr where
  "policyError = ErrOther ''target policy''"

text \<open>\<open>net.SplitHostPort\<close> and \<open>net.JoinHostPort\<close>.\<close>

definition SplitHostPort :: "string \<Rightarrow> (string \<times> string) option" where
  "SplitHostPort hp =
     (case CutLastByte (CHR '':'') hp of
        None \<Rightarrow> None
      | Some (pre, port) \<Rightarrow>
          if HasPrefix hp ''['' then
            (case CutByte (CHR '']'') hp of
               (inside, rest, True) \<Rightarrow>
                 let host = tl inside in
                 if HasPrefix rest '':'' \<and> tl rest = port \<and> CHR ''['' \<notin> set host \<and>
                    CHR ''['' \<notin> set rest \<and> CHR '']'' \<notin> set rest
                 then Some (host, port) else None
             | _ \<Rightarrow> None)
          else if CHR '':'' \<in> set pre \<or> CHR ''['' \<in> set hp \<or> CHR '']'' \<in> set hp then None
          else Some (pre, port))"

definition JoinHostPort :: "string \<Rightarrow> string \<Rightarrow> string" where
  "JoinHostPort host port =
     (if CHR '':'' \<in> set host then ''['' @ host @ '']:'' @ port else host @ '':'' @ port)"

definition normalizeHostPort :: "netlib \<Rightarrow> string \<Rightarrow> string \<Rightarrow> string result" where
  "normalizeHostPort nl host0 port =
     (let host = ToLower (TrimSuffix (TrimSpace host0) ''.'') in
      if host = [] \<or> CHR ''%'' \<in> set host then Inl policyError
      else (case Atoi port of
              None \<Rightarrow> Inl policyError
            | Some n \<Rightarrow>
                if n < 1 \<or> n > 65535 then Inl policyError
                else let host' = (case nl_ParseAddr nl host of
                                    Some addr \<Rightarrow> nl_AddrString nl (Unmap addr)
                                  | None \<Rightarrow> host)
                     in Inr (JoinHostPort host' (intText n))))"

definition normalizeAuthority :: "netlib \<Rightarrow> string \<Rightarrow> string result" where
  "normalizeAuthority nl authority =
     (case SplitHostPort (TrimSpace authority) of
        None \<Rightarrow> Inl policyError
      | Some (host, port) \<Rightarrow> normalizeHostPort nl host port)"

fun parseCIDRs :: "netlib \<Rightarrow> string list \<Rightarrow> prefix list result" where
  "parseCIDRs nl [] = Inr []"
| "parseCIDRs nl (raw # raws) =
     (case nl_ParsePrefix nl (TrimSpace raw) of
        None \<Rightarrow> Inl policyError
      | Some p \<Rightarrow> (case parseCIDRs nl raws of Inl e \<Rightarrow> Inl e | Inr ps \<Rightarrow> Inr (Masked p # ps)))"

fun addRules :: "netlib \<Rightarrow> (string, target_rule) gomap \<Rightarrow> target_rule_config list \<Rightarrow> (string, target_rule) gomap result"
where
  "addRules nl rules [] = Inr rules"
| "addRules nl rules (raw # raws) =
     (case normalizeAuthority nl (tc_Authority raw) of
        Inl e \<Rightarrow> Inl e
      | Inr authority \<Rightarrow>
          if mhas rules authority then Inl policyError
          else (case parseCIDRs nl (tc_AllowedCIDRs raw) of
                  Inl e \<Rightarrow> Inl e
                | Inr cidrs \<Rightarrow>
                    addRules nl (mput authority \<lparr>tr_allowHTTP = tc_AllowHTTP raw, tr_cidrs = cidrs\<rparr> rules) raws))"

definition NewUpstreamTargetPolicy :: "netlib \<Rightarrow> target_rule_config list \<Rightarrow> bool \<Rightarrow> target_policy result" where
  "NewUpstreamTargetPolicy nl cfg strict =
     (case addRules nl [] cfg of
        Inl e \<Rightarrow> Inl e
      | Inr rules \<Rightarrow> Inr \<lparr>tp_strict = strict, tp_rules = rules\<rparr>)"

definition newDevelopmentTargetPolicy :: target_policy where
  "newDevelopmentTargetPolicy = \<lparr>tp_strict = False, tp_rules = []\<rparr>"

text \<open>\<open>URL.Hostname\<close> and \<open>URL.Port\<close>.\<close>

definition splitURLHost :: "string \<Rightarrow> string \<times> string" where
  "splitURLHost hp =
     (let (host, port) = (case CutLastByte (CHR '':'') hp of
                            Some (pre, p) \<Rightarrow> if list_all (\<lambda>c. digitVal c \<noteq> None) p then (pre, p) else (hp, [])
                          | None \<Rightarrow> (hp, []))
      in (if HasPrefix host ''['' \<and> HasSuffix host '']'' then butlast (tl host) else host, port))"

text \<open>\<open>path.Clean\<close>: the components without empty ones and dots, parents resolved; the accumulated
  components are in reverse.\<close>

fun cleanParts :: "bool \<Rightarrow> string list \<Rightarrow> string list \<Rightarrow> string list" where
  "cleanParts rooted acc [] = rev acc"
| "cleanParts rooted acc (p # ps) =
     (if p = [] \<or> p = ''.'' then cleanParts rooted acc ps
      else if p = ''..'' then
        (case acc of
           a # rest \<Rightarrow> if a = ''..'' then cleanParts rooted (''..'' # acc) ps else cleanParts rooted rest ps
         | [] \<Rightarrow> if rooted then cleanParts rooted [] ps else cleanParts rooted [''..''] ps)
      else cleanParts rooted (p # acc) ps)"

definition pathClean :: "string \<Rightarrow> string" where
  "pathClean p =
     (if p = [] then ''.''
      else let rooted = HasPrefix p ''/'';
               parts = cleanParts rooted [] (SplitByte (CHR ''/'') p);
               out = (if rooted then ''/'' else []) @ JoinBytes ''/'' parts
           in if out = [] then ''.'' else out)"

definition parseBaseURL :: "netlib \<Rightarrow> target_policy \<Rightarrow> string \<Rightarrow> (url \<times> string) result" where
  "parseBaseURL nl p raw =
     (case nl_urlParse nl raw of
        None \<Rightarrow> Inl policyError
      | Some u \<Rightarrow>
          let (hostname, port0) = splitURLHost (url_Host u);
              checkPath = TrimSuffix (url_Path u) ''/'';
              port = (if port0 = [] then (if url_Scheme u = ''https'' then ''443'' else ''80'') else port0) in
          if url_Scheme u = [] \<or> url_Host u = [] \<or> url_Opaque u \<noteq> [] then Inl policyError
          else if url_Scheme u \<noteq> ''https'' \<and> url_Scheme u \<noteq> ''http'' then Inl policyError
          else if url_User u \<noteq> None \<or> url_RawQuery u \<noteq> [] \<or> url_ForceQuery u \<or> url_Fragment u \<noteq> [] then Inl policyError
          else if url_RawPath u \<noteq> [] \<or> CHR ''%'' \<in> set (url_EscapedPath u) \<or>
                  (checkPath \<noteq> [] \<and> pathClean checkPath \<noteq> checkPath) \<or> ContainsSub (url_Path u) ''//'' then Inl policyError
          else if CHR ''%'' \<in> set hostname then Inl policyError
          else (case normalizeHostPort nl hostname port of
                  Inl e \<Rightarrow> Inl e
                | Inr authority \<Rightarrow>
                    let allowHTTP = (case map_of (tp_rules p) authority of None \<Rightarrow> False | Some r \<Rightarrow> tr_allowHTTP r) in
                    if tp_strict p \<and> url_Scheme u \<noteq> ''https'' \<and> \<not> allowHTTP then Inl policyError
                    else Inr (u, authority)))"

definition PolicyValidateChannel :: "netlib \<Rightarrow> target_policy \<Rightarrow> channel \<Rightarrow> goerr option" where
  "PolicyValidateChannel nl p ch = (case parseBaseURL nl p (ch_BaseURL ch) of Inl e \<Rightarrow> Some e | Inr _ \<Rightarrow> None)"

fun PolicyValidateChannels :: "netlib \<Rightarrow> target_policy \<Rightarrow> channel list \<Rightarrow> goerr option" where
  "PolicyValidateChannels nl p [] = None"
| "PolicyValidateChannels nl p (ch # chs) =
     (if \<not> ch_Enabled ch then PolicyValidateChannels nl p chs
      else (case PolicyValidateChannel nl p ch of Some e \<Rightarrow> Some e | None \<Rightarrow> PolicyValidateChannels nl p chs))"

definition trimRightSlash :: "string \<Rightarrow> string" where
  "trimRightSlash s = rev (dropWhile (\<lambda>c. c = CHR ''/'') (rev s))"

definition BuildURL :: "netlib \<Rightarrow> target_policy \<Rightarrow> channel \<Rightarrow> string result" where
  "BuildURL nl p ch =
     (case parseBaseURL nl p (ch_BaseURL ch) of
        Inl e \<Rightarrow> Inl e
      | Inr (u, _) \<Rightarrow>
          let endpoint = (if ch_Format ch = FormatAnthropic then ''/v1/messages'' else ''/v1/chat/completions'')
          in Inr (nl_urlString nl (u\<lparr>url_Path := trimRightSlash (url_Path u) @ endpoint, url_RawPath := []\<rparr>)))"

section \<open>Dialling\<close>

definition ipAllowed :: "target_policy \<Rightarrow> string \<Rightarrow> ipaddr \<Rightarrow> bool" where
  "ipAllowed p authority addr =
     (if isPublicUpstreamIP addr then True
      else (case map_of (tp_rules p) authority of
              None \<Rightarrow> False
            | Some rule \<Rightarrow> \<exists>c \<in> set (tr_cidrs rule). prefixContains c addr))"

text \<open>
  The network under a dial: the answer of the resolver and, for each address that is dialled, whether
  the connection comes up. The result carries the addresses that were dialled, in order.
\<close>

record dial_env =
  de_lookup :: "string \<Rightarrow> ipaddr list result"
  de_connects :: "string \<Rightarrow> bool"

fun dialLoop ::
  "netlib \<Rightarrow> dial_env \<Rightarrow> target_policy \<Rightarrow> string \<Rightarrow> string \<Rightarrow> ipaddr list \<Rightarrow> ipaddr list \<times> ipaddr option" where
  "dialLoop nl env p authority port [] = ([], None)"
| "dialLoop nl env p authority port (a # as) =
     (let addr = Unmap a in
      if \<not> ipAllowed p authority addr then dialLoop nl env p authority port as
      else if de_connects env (JoinHostPort (nl_AddrString nl addr) port) then ([addr], Some addr)
      else (let (dialed, r) = dialLoop nl env p authority port as in (addr # dialed, r)))"

definition trimBrackets :: "string \<Rightarrow> string" where
  "trimBrackets s =
     (let b = (\<lambda>c. c = CHR ''['' \<or> c = CHR '']'') in rev (dropWhile b (rev (dropWhile b s))))"

definition DialStrict ::
  "netlib \<Rightarrow> dial_env \<Rightarrow> target_policy \<Rightarrow> string \<Rightarrow> ipaddr list \<times> ipaddr result" where
  "DialStrict nl env p address =
     (case SplitHostPort address of
        None \<Rightarrow> ([], Inl ErrUpstreamNotDialed)
      | Some (host, port) \<Rightarrow>
          (case normalizeHostPort nl host port of
             Inl _ \<Rightarrow> ([], Inl ErrUpstreamNotDialed)
           | Inr authority \<Rightarrow>
               (case (case nl_ParseAddr nl (trimBrackets host) of
                        Some addr \<Rightarrow> Inr [Unmap addr]
                      | None \<Rightarrow> de_lookup env host) of
                  Inl _ \<Rightarrow> ([], Inl ErrUpstreamNotDialed)
                | Inr addrs \<Rightarrow>
                    (case dialLoop nl env p authority port addrs of
                       (dialed, Some a) \<Rightarrow> (dialed, Inr a)
                     | (dialed, None) \<Rightarrow> (dialed, Inl ErrUpstreamNotDialed)))))"

section \<open>Lemmas\<close>

lemma dialLoop_ok:
  assumes "dialLoop nl env p authority port as = (dialed, r)"
  shows "(\<forall>a \<in> set dialed. ipAllowed p authority a) \<and>
     (case r of
        None \<Rightarrow> \<forall>a \<in> set dialed. \<not> de_connects env (JoinHostPort (nl_AddrString nl a) port)
      | Some a \<Rightarrow> a \<in> set dialed \<and> de_connects env (JoinHostPort (nl_AddrString nl a) port))"
  using assms
proof (induction as arbitrary: dialed r)
  case (Cons a as)
  obtain d' r' where rec: "dialLoop nl env p authority port as = (d', r')" by fastforce
  show ?case using Cons.prems Cons.IH [OF rec] by (auto simp: rec Let_def split: if_splits option.splits)
qed simp

lemma xor_eq_0_word: "(a :: 'a :: len word) XOR b = 0 \<longleftrightarrow> a = b"
proof
  assume "a XOR b = 0"
  then have "(a XOR b) XOR b = b" by simp
  then show "a = b" by (simp add: xor.assoc)
qed simp

lemma drop_bit_eq_uint:
  fixes w :: "32 word"
  assumes "0 \<le> k" "k < 4294967296"
  shows "drop_bit n w = word_of_int k \<longleftrightarrow> uint w div 2 ^ n = k"
proof -
  have "uint (word_of_int k :: 32 word) = k" using assms by (simp add: uint_word_of_int)
  then show ?thesis
    by (metis unsigned_drop_bit_eq drop_bit_eq_div uint_word_of_int_eq word_of_int_uint)
qed

text \<open>The first \<open>n\<close> bits of an IPv4 address as an interval.\<close>

definition inBlock :: "int \<Rightarrow> int \<Rightarrow> nat \<Rightarrow> bool" where
  "inBlock x base n \<longleftrightarrow> x div 2 ^ n = base div 2 ^ n"

lemma v4Prefix_contains:
  assumes "0 \<le> a" "a < 256" "0 \<le> b" "b < 256" "0 \<le> c" "c < 256" "0 \<le> d" "d < 256"
  shows "prefixContains (v4Prefix a b c d n) (IPv4 w) \<longleftrightarrow>
    inBlock (uint w) (a * 16777216 + b * 65536 + c * 256 + d) (32 - n)"
proof -
  let ?k = "a * 16777216 + b * 65536 + c * 256 + d"
  have k: "0 \<le> ?k" "?k < 4294967296" using assms by auto
  then have u: "uint (v4 a b c d) = ?k" by (simp only: v4_def uint_word_of_int) simp
  have q: "0 \<le> ?k div 2 ^ m" "?k div 2 ^ m < 4294967296" for m :: nat
    using k zdiv_mono2 [of ?k 1 "2 ^ m"] by (auto simp: pos_imp_zdiv_nonneg_iff)
  have "drop_bit m (v4 a b c d) = word_of_int (?k div 2 ^ m)" for m
    using drop_bit_eq_uint [OF q, of m "v4 a b c d" m] u by simp
  then show ?thesis
    using drop_bit_eq_uint [OF q, of "32 - n" w "32 - n"]
    by (auto simp: prefixContains_def v4Prefix_def xor_eq_0_word inBlock_def)
qed

text \<open>The blocks that the gateway never dials without an explicit rule: this network, private, carrier
  NAT, loopback, link local, protocol assignments, documentation, private, benchmarking, documentation,
  documentation, multicast and reserved.\<close>

definition internalBlocks :: "(int \<times> nat) list" where
  "internalBlocks =
     [(0, 24), (167772160, 24), (1681915904, 22), (2130706432, 24), (2851995648, 16), (2886729728, 20),
      (3221225472, 8), (3221225984, 8), (3232235520, 16), (3323068416, 17), (3325256704, 8), (3405803776, 8),
      (3758096384, 28), (4026531840, 28)]"

lemma reserved_v4:
  "(\<exists>p \<in> set reservedUpstreamPrefixes. prefixContains p (IPv4 w)) \<longleftrightarrow>
     inBlock (uint w) 0 24 \<or> inBlock (uint w) 1681915904 22 \<or> inBlock (uint w) 3221225472 8 \<or>
     inBlock (uint w) 3221225984 8 \<or> inBlock (uint w) 3323068416 17 \<or> inBlock (uint w) 3325256704 8 \<or>
     inBlock (uint w) 3405803776 8 \<or> inBlock (uint w) 4026531840 28"
  by (simp add: reservedUpstreamPrefixes_def v4Prefix_contains) (simp add: prefixContains_def)

lemma drop_bit_numeral_uint:
  fixes w :: "32 word"
  assumes "(numeral k :: int) < 4294967296"
  shows "drop_bit n w = numeral k \<longleftrightarrow> uint w div 2 ^ n = numeral k"
  using drop_bit_eq_uint [of "numeral k" n w] assms by simp

lemma internal_v4:
  "isPublicUpstreamIP (IPv4 w) \<longleftrightarrow> \<not> (\<exists>(base, n) \<in> set internalBlocks. inBlock (uint w) base n)"
proof -
  have lo: "0 \<le> uint w" and hi: "uint w < 4294967296" using uint_lt2p [of w] by simp_all
  have zero: "w = 0 \<longleftrightarrow> uint w = 0" by (simp add: uint_0_iff)
  have ones: "w = 0xffffffff \<longleftrightarrow> uint w = 4294967295"
    unfolding word_uint_eq_iff by simp
  have "uint w = 0 \<longrightarrow> uint w div 16777216 = 0" "uint w = 4294967295 \<longrightarrow> uint w div 268435456 = 15"
    "uint w div 256 = 14680064 \<longrightarrow> uint w div 268435456 = 14"
    using zdiv_zmult2_eq [of 1048576 "uint w" 256] by auto
  then show ?thesis
    unfolding isPublicUpstreamIP_def Let_def Unmap_def ipaddr.case reserved_v4
    by (simp add: IsGlobalUnicast_def IsPrivate_def IsLoopback_def IsLinkLocalUnicast_def IsLinkLocalMulticast_def
        IsUnspecified_def IsMulticast_def drop_bit_numeral_uint internalBlocks_def inBlock_def zero ones)
      blast
qed

section \<open>Properties\<close>

text \<open>C12. Under a strict policy every address that is dialled is public or lies in a block that the rule of
  the target's authority allows. When the dial reports \<open>ErrUpstreamNotDialed\<close>, which is its only
  error, no connection came up, so nothing can have been sent; otherwise the connection is to one of the
  dialled addresses.\<close>

theorem DialStrict_safe:
  assumes "DialStrict nl env p address = (dialed, r)"
  shows "(dialed \<noteq> [] \<longrightarrow> (\<exists>host port authority. SplitHostPort address = Some (host, port) \<and>
            normalizeHostPort nl host port = Inr authority \<and>
            (\<forall>a \<in> set dialed. isPublicUpstreamIP a \<or>
               (\<exists>rule. map_of (tp_rules p) authority = Some rule \<and> (\<exists>c \<in> set (tr_cidrs rule). prefixContains c a))) \<and>
            (r = Inl ErrUpstreamNotDialed \<longrightarrow>
               (\<forall>a \<in> set dialed. \<not> de_connects env (JoinHostPort (nl_AddrString nl a) port))))) \<and>
         (\<forall>e. r = Inl e \<longrightarrow> e = ErrUpstreamNotDialed) \<and> (\<forall>a. r = Inr a \<longrightarrow> a \<in> set dialed)"
proof (cases "SplitHostPort address")
  case None
  then show ?thesis using assms by (auto simp: DialStrict_def)
next
  case (Some hp)
  obtain host port where hp: "hp = (host, port)" by fastforce
  show ?thesis
  proof (cases "normalizeHostPort nl host port")
    case (Inl e)
    then show ?thesis using assms Some hp by (auto simp: DialStrict_def)
  next
    case (Inr authority)
    let ?addrs = "case nl_ParseAddr nl (trimBrackets host) of Some addr \<Rightarrow> Inr [Unmap addr] | None \<Rightarrow> de_lookup env host"
    show ?thesis
    proof (cases ?addrs)
      case (Inl e)
      then show ?thesis using assms Some hp Inr by (auto simp: DialStrict_def)
    next
      case addrs: (Inr as)
      obtain d q where loop: "dialLoop nl env p authority port as = (d, q)" by fastforce
      have "dialed = d" "r = (case q of Some a \<Rightarrow> Inr a | None \<Rightarrow> Inl ErrUpstreamNotDialed)"
        using assms Some hp Inr addrs loop by (auto simp: DialStrict_def split: option.splits)
      then show ?thesis using dialLoop_ok [OF loop] Some hp Inr
        by (auto simp: ipAllowed_def split: option.splits if_splits)
    qed
  qed
qed

text \<open>An IPv4 address, also when it is written as an IPv6 one, counts as public exactly when it lies in
  none of the private, loopback, link-local, carrier, documentation, benchmarking, multicast and
  reserved blocks.\<close>

theorem isPublicUpstreamIP_v4:
  assumes "Unmap a = IPv4 w"
  shows "isPublicUpstreamIP a \<longleftrightarrow> \<not> (\<exists>(base, n) \<in> set internalBlocks. inBlock (uint w) base n)"
proof -
  have "isPublicUpstreamIP a = isPublicUpstreamIP (IPv4 w)"
    using assms by (simp add: isPublicUpstreamIP_def) (simp add: Unmap_def)
  then show ?thesis by (simp only: internal_v4)
qed

section \<open>Witnesses\<close>

definition exampleNetlib :: netlib where
  "exampleNetlib = \<lparr>nl_urlParse = (\<lambda>_. None), nl_urlString = url_Path, nl_ParseAddr = (\<lambda>_. None),
     nl_AddrString = (\<lambda>_. ''ip''), nl_ParsePrefix = (\<lambda>_. Some (v4Prefix 10 0 0 0 8))\<rparr>"

definition exampleDialEnv :: dial_env where
  "exampleDialEnv = \<lparr>de_lookup = (\<lambda>_. Inr [IPv4 0x7f000001, IPv4 0x0a000005]), de_connects = (\<lambda>_. False)\<rparr>"

definition examplePolicy :: target_policy where
  "examplePolicy = \<lparr>tp_strict = True,
     tp_rules = [(''h:443'', \<lparr>tr_allowHTTP = False, tr_cidrs = [v4Prefix 10 0 0 0 8]\<rparr>)]\<rparr>"

lemma exampleDial:
  "DialStrict exampleNetlib exampleDialEnv examplePolicy ''h:443'' = ([IPv4 0x0a000005], Inl ErrUpstreamNotDialed)"
  by code_simp

theorem DialStrict_safe_witness:
  "isPublicUpstreamIP (IPv4 0x0a000005) \<or>
     (\<exists>rule authority. map_of (tp_rules examplePolicy) authority = Some rule \<and>
        (\<exists>c \<in> set (tr_cidrs rule). prefixContains c (IPv4 0x0a000005)))"
  using DialStrict_safe [OF exampleDial] by auto

theorem isPublicUpstreamIP_v4_witness: "\<not> isPublicUpstreamIP (IPv6 0xffff0a000005 [])"
proof -
  have u: "Unmap (IPv6 0xffff0a000005 []) = IPv4 0x0a000005" by code_simp
  have "\<exists>(base, n) \<in> set internalBlocks. inBlock (uint (0x0a000005 :: 32 word)) base n" by code_simp
  then show ?thesis using isPublicUpstreamIP_v4 [OF u] by blast
qed

end
