(* ===== verification/ErrorRelay.thy ===== *)
theory ErrorRelay
  imports GoJson Canonical
begin

text \<open>
  Error responses: \<open>WriteError\<close> and \<open>WriteProtocolError\<close> of \<open>internal/middleware/protocol.go\<close>, which
  encode an error for the client's protocol, and \<open>internal/forwarder/response_error.go\<close>, which turns an
  upstream error into a canonical one and selects the response headers that may be passed on.

  The provider adapters (interface \<open>adapter.Adapter\<close> and the optional \<open>adapter.ErrorCodec\<close> of
  \<open>internal/adapter/adapter.go\<close>) are a record of functions; \<open>'d\<close> and \<open>'n\<close> are the states of a stream
  decoder and a stream encoder. The registry's \<open>Get\<close> is a partial function. The Chinese message texts
  of the source are rendered in English.
\<close>

section \<open>Adapters\<close>

record error_codec =
  ec_ParseError :: "string \<Rightarrow> error_response option result"
  ec_BuildError :: "error_response \<Rightarrow> string result"

record ('d, 'n) adapter =
  ad_ParseRequest :: "string \<Rightarrow> request result"
  ad_BuildRequest :: "request \<Rightarrow> string result"
  ad_ParseResponse :: "string \<Rightarrow> response result"
  ad_BuildResponse :: "response \<Rightarrow> string result"
  ad_newDecoder :: 'd
  ad_Decode :: "string \<Rightarrow> 'd \<Rightarrow> event list result \<times> 'd"
  ad_newEncoder :: 'n
  ad_Encode :: "event \<Rightarrow> 'n \<Rightarrow> string result \<times> 'n"
  ad_ErrorCodec :: "error_codec option"

type_synonym ('d, 'n) registry = "string \<Rightarrow> ('d, 'n) adapter option"

section \<open>Headers\<close>

type_synonym header = "(string, string list) gomap"

definition isTokenByte :: "char \<Rightarrow> bool" where
  "isTokenByte c \<longleftrightarrow>
     (let n = byteVal c in (48 \<le> n \<and> n \<le> 57) \<or> (65 \<le> n \<and> n \<le> 90) \<or> (97 \<le> n \<and> n \<le> 122)) \<or>
     c \<in> set [CHR ''!'', CHR ''#'', CHR ''$'', CHR ''%'', CHR ''&'', CHR 0x27, CHR ''*'', CHR ''+'', CHR ''-'',
               CHR ''.'', CHR ''^'', CHR ''_'', CHR 0x60, CHR ''|'', CHR ''~'']"

definition upperByte :: "char \<Rightarrow> char" where
  "upperByte c = (let n = byteVal c in if 97 \<le> n \<and> n \<le> 122 then byte (n - 32) else c)"

fun canonicalLoop :: "bool \<Rightarrow> string \<Rightarrow> string" where
  "canonicalLoop upper [] = []"
| "canonicalLoop upper (c # cs) =
     (if upper then upperByte c else lowerByte c) # canonicalLoop (c = CHR ''-'') cs"

definition CanonicalHeaderKey :: "string \<Rightarrow> string" where
  "CanonicalHeaderKey s = (if list_all isTokenByte s then canonicalLoop True s else s)"

definition headerGet :: "header \<Rightarrow> string \<Rightarrow> string" where
  "headerGet h name =
     (case map_of h (CanonicalHeaderKey name) of Some (v # _) \<Rightarrow> v | _ \<Rightarrow> [])"

definition headerSet :: "string \<Rightarrow> string \<Rightarrow> header \<Rightarrow> header" where
  "headerSet name v h = mput (CanonicalHeaderKey name) [v] h"

definition headerAdd :: "string \<Rightarrow> string \<Rightarrow> header \<Rightarrow> header" where
  "headerAdd name v h =
     mput (CanonicalHeaderKey name)
       ((case map_of h (CanonicalHeaderKey name) of None \<Rightarrow> [] | Some vs \<Rightarrow> vs) @ [v]) h"

definition headerDel :: "string \<Rightarrow> header \<Rightarrow> header" where
  "headerDel name h = mdel (CanonicalHeaderKey name) h"

section \<open>What the client is sent\<close>

datatype client_write =
    CData int string
  | CJson int json
  | CSSEHeaders
  | CBytes string

definition ProtocolOpenAI :: string where "ProtocolOpenAI = ''openai''"
definition ProtocolAnthropic :: string where "ProtocolAnthropic = ''anthropic''"

definition errorJson :: "string \<Rightarrow> error_response \<Rightarrow> json" where
  "errorJson protocol e =
     (let body = JObj [(''type'', JStr (er_Type e)), (''message'', JStr (er_Message e))] in
      if protocol = ProtocolAnthropic then JObj [(''type'', JStr ''error''), (''error'', body)]
      else JObj [(''error'', body)])"

definition WriteProtocolError :: "('d, 'n) registry \<Rightarrow> int \<Rightarrow> string \<Rightarrow> error_response \<Rightarrow> client_write" where
  "WriteProtocolError adapters status protocol e =
     (case adapters protocol of
        Some a \<Rightarrow>
          (case ad_ErrorCodec a of
             Some codec \<Rightarrow>
               (case ec_BuildError codec e of
                  Inr body \<Rightarrow> CData status body
                | Inl _ \<Rightarrow> CJson status (errorJson protocol e))
           | None \<Rightarrow> CJson status (errorJson protocol e))
      | None \<Rightarrow> CJson status (errorJson protocol e))"

definition plainError :: "string \<Rightarrow> string \<Rightarrow> error_response" where
  "plainError t msg = \<lparr>er_Type = t, er_Message = msg, er_Param = None, er_Code = None, er_RequestID = []\<rparr>"

text \<open>The protocol of a request without a protocol context is the empty string.\<close>

definition WriteError :: "('d, 'n) registry \<Rightarrow> string \<Rightarrow> int \<Rightarrow> string \<Rightarrow> string \<Rightarrow> client_write" where
  "WriteError adapters protocol status errType message =
     WriteProtocolError adapters status protocol (plainError errType message)"

section \<open>Upstream errors\<close>

text \<open>\<open>ToValidUTF8\<close>: a run of invalid bytes becomes one replacement.\<close>

fun toValidLoop :: "nat \<Rightarrow> bool \<Rightarrow> string \<Rightarrow> string" where
  "toValidLoop 0 bad s = []"
| "toValidLoop (Suc n) bad s =
     (case s of
        [] \<Rightarrow> []
      | c # cs \<Rightarrow>
          let k = runeLen s in
          if k = 0 then (if bad then toValidLoop n True cs else replacementChar @ toValidLoop n True cs)
          else take k s @ toValidLoop n False (drop k s))"

definition ToValidUTF8 :: "string \<Rightarrow> string" where
  "ToValidUTF8 s = toValidLoop (length s) False s"

definition printable :: "char \<Rightarrow> bool" where
  "printable c \<longleftrightarrow> c = LF \<or> c = CR \<or> c = byte 9 \<or> byteVal c \<ge> 32"

definition safeUpstreamErrorText :: "string \<Rightarrow> string" where
  "safeUpstreamErrorText body0 =
     (let body = (if length body0 > 4096 then take 4096 body0 else body0)
      in filter printable (TrimSpace (ToValidUTF8 body)))"

definition safeHeaderValue :: "string \<Rightarrow> string" where
  "safeHeaderValue value =
     (if value = [] \<or> length value > 4096 then []
      else if list_all (\<lambda>c. c = byte 9 \<or> (byteVal c \<ge> 32 \<and> byteVal c \<noteq> 127)) value then value
      else [])"

fun firstNonEmpty :: "string list \<Rightarrow> string" where
  "firstNonEmpty [] = []"
| "firstNonEmpty (v # vs) = (if v \<noteq> [] then v else firstNonEmpty vs)"

definition upstreamRequestID :: "header \<Rightarrow> string" where
  "upstreamRequestID h =
     firstNonEmpty (map (\<lambda>name. safeHeaderValue (headerGet h name))
       [''Request-Id'', ''X-Request-Id'', ''Openai-Request-Id'', ''Anthropic-Request-Id''])"

definition safeUpstreamHeaderName :: "string \<Rightarrow> bool" where
  "safeUpstreamHeaderName lower \<longleftrightarrow>
     lower \<in> set [''retry-after'', ''ratelimit-limit'', ''ratelimit-remaining'', ''ratelimit-reset''] \<or>
     HasPrefix lower ''x-ratelimit-'' \<or> HasPrefix lower ''anthropic-ratelimit-''"

fun addValues :: "string \<Rightarrow> string list \<Rightarrow> header \<Rightarrow> header" where
  "addValues name [] h = h"
| "addValues name (v # vs) h =
     (let v' = safeHeaderValue v in addValues name vs (if v' \<noteq> [] then headerAdd name v' h else h))"

fun copyHeaders :: "header \<Rightarrow> header \<Rightarrow> header" where
  "copyHeaders [] dst = dst"
| "copyHeaders ((name, values) # rest) dst =
     (if \<not> safeUpstreamHeaderName (ToLower name) then copyHeaders rest dst
      else let canonicalName = CanonicalHeaderKey name
           in copyHeaders rest (addValues canonicalName values (headerDel canonicalName dst)))"

definition copySafeUpstreamHeaders :: "header \<Rightarrow> header \<Rightarrow> header" where
  "copySafeUpstreamHeaders src dst =
     (let requestID = upstreamRequestID src;
          dst' = (if requestID \<noteq> [] then headerSet ''X-Upstream-Request-Id'' requestID dst else dst)
      in copyHeaders src dst')"

definition parseCanonicalUpstreamError :: "('d, 'n) adapter \<Rightarrow> string \<Rightarrow> error_response" where
  "parseCanonicalUpstreamError a body =
     (let fallback = (let message = safeUpstreamErrorText body
                      in plainError ''upstream_error'' (if message = [] then ''upstream returned an error'' else message))
      in case ad_ErrorCodec a of
           None \<Rightarrow> fallback
         | Some codec \<Rightarrow>
             if length body > 0 then
               (case ec_ParseError codec body of Inr (Some parsed) \<Rightarrow> parsed | _ \<Rightarrow> fallback)
             else fallback)"

text \<open>The response written for an upstream error, and the headers of the client's response.\<close>

definition relayUpstreamError ::
  "('d, 'n) registry \<Rightarrow> int \<Rightarrow> string \<Rightarrow> header \<Rightarrow> ('d, 'n) adapter \<Rightarrow> string \<Rightarrow> header \<Rightarrow> header \<times> client_write"
where
  "relayUpstreamError adapters status body h upstreamAdapter clientFormat dst =
     (let e0 = parseCanonicalUpstreamError upstreamAdapter body;
          e = (if er_RequestID e0 = [] then e0\<lparr>er_RequestID := upstreamRequestID h\<rparr> else e0)
      in (copySafeUpstreamHeaders h dst, WriteProtocolError adapters status clientFormat e))"

section \<open>Only safe headers are copied\<close>

text \<open>A header of the client's response comes from the upstream only under a safe name with a safe value.\<close>

definition safeValue :: "string \<Rightarrow> bool" where
  "safeValue v \<longleftrightarrow> v \<noteq> [] \<and> length v \<le> 4096 \<and> (\<forall>c \<in> set v. c = byte 9 \<or> (byteVal c \<ge> 32 \<and> byteVal c \<noteq> 127))"

lemma safeHeaderValue_safe: "safeHeaderValue v \<noteq> [] \<Longrightarrow> safeValue (safeHeaderValue v)"
  by (auto simp: safeHeaderValue_def safeValue_def list_all_iff split: if_splits)

definition fromUpstream :: "header \<Rightarrow> string \<Rightarrow> string list option \<Rightarrow> bool" where
  "fromUpstream src n vs \<longleftrightarrow>
     (\<exists>name \<in> fst ` set src. safeUpstreamHeaderName (ToLower name) \<and> n = CanonicalHeaderKey (CanonicalHeaderKey name) \<and>
        (case vs of None \<Rightarrow> True | Some xs \<Rightarrow> \<forall>v \<in> set xs. safeValue v))"

definition valuesSafe :: "string list option \<Rightarrow> bool" where
  "valuesSafe vs \<longleftrightarrow> (case vs of None \<Rightarrow> True | Some xs \<Rightarrow> \<forall>v \<in> set xs. safeValue v)"

lemma addValues_ok:
  "(n \<noteq> CanonicalHeaderKey name \<longrightarrow> map_of (addValues name vs h) n = map_of h n) \<and>
   (valuesSafe (map_of h (CanonicalHeaderKey name)) \<longrightarrow> valuesSafe (map_of (addValues name vs h) (CanonicalHeaderKey name)))"
proof (induction vs arbitrary: h)
  case (Cons v vs)
  let ?h = "if safeHeaderValue v \<noteq> [] then headerAdd name (safeHeaderValue v) h else h"
  have "n \<noteq> CanonicalHeaderKey name \<longrightarrow> map_of ?h n = map_of h n" by (simp add: headerAdd_def)
  moreover have "valuesSafe (map_of h (CanonicalHeaderKey name)) \<longrightarrow> valuesSafe (map_of ?h (CanonicalHeaderKey name))"
    using safeHeaderValue_safe [of v] by (auto simp: headerAdd_def valuesSafe_def split: option.splits)
  ultimately show ?case using Cons.IH [of ?h] by (simp add: Let_def)
qed simp

lemma copyHeaders_ok:
  "map_of (copyHeaders src dst) n = map_of dst n \<or> fromUpstream src n (map_of (copyHeaders src dst) n)"
proof (induction src arbitrary: dst)
  case (Cons p src)
  obtain name vals where p: "p = (name, vals)" by fastforce
  let ?c = "CanonicalHeaderKey name"
  let ?d = "if safeUpstreamHeaderName (ToLower name) then addValues ?c vals (headerDel ?c dst) else dst"
  have run: "copyHeaders (p # src) dst = copyHeaders src ?d" by (simp add: p Let_def)
  show ?case
  proof (cases "fromUpstream src n (map_of (copyHeaders src ?d) n)")
    case True
    then show ?thesis unfolding run by (auto simp: fromUpstream_def)
  next
    case False
    then have same: "map_of (copyHeaders src ?d) n = map_of ?d n" using Cons.IH [of ?d] by blast
    show ?thesis
    proof (cases "safeUpstreamHeaderName (ToLower name) \<and> n = CanonicalHeaderKey ?c")
      case True
      have "map_of (headerDel ?c dst) n = None" using True by (simp add: headerDel_def)
      then have "valuesSafe (map_of ?d n)"
        using addValues_ok [of n ?c vals "headerDel ?c dst"] True by (simp add: valuesSafe_def)
      then show ?thesis unfolding run same using True by (auto simp: fromUpstream_def valuesSafe_def p)
    next
      case F: False
      then have "map_of ?d n = map_of dst n"
        using addValues_ok [of n ?c vals "headerDel ?c dst"] by (auto simp: headerDel_def)
      then show ?thesis unfolding run same by simp
    qed
  qed
qed simp

lemma firstNonEmpty_safe:
  "firstNonEmpty (map (\<lambda>x. safeHeaderValue (f x)) xs) \<noteq> [] \<Longrightarrow> safeValue (firstNonEmpty (map (\<lambda>x. safeHeaderValue (f x)) xs))"
  by (induction xs) (auto intro: safeHeaderValue_safe)

text \<open>Relaying an upstream response cannot inject a header: a header of the client's response keeps the
  value the gateway gave it, or is the upstream request id, or comes from an upstream header on the
  allow list (retry and rate-limit names); the values taken over are short and free of control
  characters.\<close>

theorem copySafeUpstreamHeaders_safe:
  assumes "map_of (copySafeUpstreamHeaders src dst) n = vs"
  shows "vs = map_of dst n \<or> fromUpstream src n vs \<or>
     (n = CanonicalHeaderKey ''X-Upstream-Request-Id'' \<and> (\<exists>v. vs = Some [v] \<and> safeValue v))"
proof -
  let ?rid = "upstreamRequestID src"
  let ?d = "if ?rid \<noteq> [] then headerSet ''X-Upstream-Request-Id'' ?rid dst else dst"
  have "?rid \<noteq> [] \<Longrightarrow> safeValue ?rid" unfolding upstreamRequestID_def by (rule firstNonEmpty_safe)
  then have "map_of ?d n = map_of dst n \<or>
      (n = CanonicalHeaderKey ''X-Upstream-Request-Id'' \<and> (\<exists>v. map_of ?d n = Some [v] \<and> safeValue v))"
    by (auto simp: headerSet_def)
  moreover have "vs = map_of ?d n \<or> fromUpstream src n vs"
    using copyHeaders_ok [of src ?d n] assms by (auto simp: copySafeUpstreamHeaders_def Let_def)
  ultimately show ?thesis by auto
qed

definition exampleHeader :: header where
  "exampleHeader = [(''Set-Cookie'', [''evil'']), (''Retry-After'', [''5''])]"

theorem copySafeUpstreamHeaders_safe_witness:
  "map_of (copySafeUpstreamHeaders exampleHeader []) ''Set-Cookie'' = None \<and>
   (fromUpstream exampleHeader ''Retry-After'' (Some [''5'']) \<or> (\<exists>v. Some [''5''] = Some [v] \<and> safeValue v))"
proof -
  have "map_of (copySafeUpstreamHeaders exampleHeader []) ''Retry-After'' = Some [''5'']"
    "map_of (copySafeUpstreamHeaders exampleHeader []) ''Set-Cookie'' = None"
    by code_simp+
  then show ?thesis using copySafeUpstreamHeaders_safe by fastforce
qed

end
