(* ===== verification/Forward.thy ===== *)
theory Forward
  imports StreamUsage RequestBody TargetPolicy ErrorRelay Sse
begin

text \<open>
  The forwarder of \<open>internal/forwarder\<close>: \<open>forward\<close> (parse, authorise, bound the output, select channels,
  reserve, try the candidates, settle or refund) with the non-streaming and the streaming attempt.

  The gateway's state is the router (with its breakers), the ledger, the header of the client's
  response and the list of external effects so far: calls to an upstream, writes to the client, and
  breaker permits granted and reported. Everything that is not decided by the code is in the
  environments: the clock, the context's cancellation at each check, the upstream's reply, the outcome
  of writes to the client and of each ledger call.
\<close>

section \<open>State\<close>

datatype http_reply = HttpErr goerr | HttpResp int header string goerr

datatype effect =
    Called string string http_reply
  | Wrote client_write
  | Granted addr
  | Reported addr breaker_result

record ('d, 'n) forwarder =
  fw_adapters :: "('d, 'n) registry"
  fw_billing :: billing
  fw_limits :: "resolver option"
  fw_policy :: target_policy
  fw_netlib :: netlib

record 's gateway =
  gw_router :: router
  gw_ledger :: 's
  gw_header :: header
  gw_effects :: "effect list"

record ('d, 'n) forward_ctx =
  fc_clientFormat :: string
  fc_clientAdapter :: "('d, 'n) adapter"
  fc_rawBody :: string
  fc_req :: request
  fc_clientModel :: string
  fc_res :: reservation
  fc_requestID :: string

record 'e attempt_env =
  ae_cancelled :: "nat \<Rightarrow> bool"
  ae_newRequest :: "goerr option"
  ae_mark :: 'e
  ae_release :: 'e
  ae_reply :: http_reply
  ae_settle :: "'e billing_env"
  ae_flusher :: bool
  ae_writeOk :: "nat \<Rightarrow> bool"
  ae_allowAt :: gotime
  ae_recordAt :: gotime

datatype outcome_kind = outcomeSuccess | outcomeClientError | outcomeChannelError | outcomeNeutral

record ('d, 'n) outcome =
  oc_kind :: outcome_kind
  oc_settled :: bool
  oc_consumed :: bool
  oc_committed :: bool
  oc_err :: "goerr option"
  oc_upstreamError :: "(string \<times> header \<times> ('d, 'n) adapter) option"

definition mkOutcome :: "outcome_kind \<Rightarrow> goerr option \<Rightarrow> ('d, 'n) outcome" where
  "mkOutcome k e = \<lparr>oc_kind = k, oc_settled = False, oc_consumed = False, oc_committed = False,
     oc_err = e, oc_upstreamError = None\<rparr>"

definition emit :: "effect \<Rightarrow> 's gateway \<Rightarrow> 's gateway" where
  "emit e gw = gw\<lparr>gw_effects := gw_effects gw @ [e]\<rparr>"

definition withLedger :: "'s \<Rightarrow> 's gateway \<Rightarrow> 's gateway" where
  "withLedger l gw = gw\<lparr>gw_ledger := l\<rparr>"

definition writeError ::
  "('d, 'n) forwarder \<Rightarrow> string \<Rightarrow> int \<Rightarrow> string \<Rightarrow> string \<Rightarrow> 's gateway \<Rightarrow> 's gateway" where
  "writeError f protocol status errType message gw =
     emit (Wrote (WriteError (fw_adapters f) protocol status errType message)) gw"

definition relay ::
  "('d, 'n) forwarder \<Rightarrow> ('d, 'n) forward_ctx \<Rightarrow> int \<Rightarrow> string \<Rightarrow> header \<Rightarrow> ('d, 'n) adapter \<Rightarrow> 's gateway \<Rightarrow> 's gateway"
where
  "relay f fc status body h a gw =
     (let (hdr, w) = relayUpstreamError (fw_adapters f) status body h a (fc_clientFormat fc) (gw_header gw)
      in emit (Wrote w) (gw\<lparr>gw_header := hdr\<rparr>))"

section \<open>Status codes\<close>

definition isChannelError :: "int \<Rightarrow> bool" where
  "isChannelError status \<longleftrightarrow> (status \<ge> 300 \<and> status < 400) \<or> status \<ge> 500 \<or> status = 429 \<or> status = 408 \<or>
     status = 401 \<or> status = 403"

definition definitelyUnconsumedStatus :: "int \<Rightarrow> bool" where
  "definitelyUnconsumedStatus status \<longleftrightarrow> status \<in> {400, 401, 402, 403, 404, 405, 413, 415, 422, 429}"

section \<open>Upstream call\<close>

definition maxUpstreamResponseBytes :: nat where
  "maxUpstreamResponseBytes = 33554432"

definition readAtMost :: "string \<Rightarrow> goerr \<Rightarrow> nat \<Rightarrow> string result" where
  "readAtMost bytes err limit =
     (if length bytes \<le> limit \<and> err \<noteq> ErrEOF then Inl err
      else let body = take (limit + 1) bytes in
           if length body > limit then Inl ErrUpstreamResponseTooLarge else Inr body)"

definition prepareRequest :: "('d, 'n) forwarder \<Rightarrow> 'e attempt_env \<Rightarrow> channel \<Rightarrow> goerr option" where
  "prepareRequest f env ch =
     (case BuildURL (fw_netlib f) (fw_policy f) ch of
        Inl e \<Rightarrow> Some e
      | Inr _ \<Rightarrow> ae_newRequest env)"

definition sendUpstream :: "bool \<Rightarrow> http_reply \<Rightarrow> (int \<times> header \<times> string \<times> goerr) result" where
  "sendUpstream stream reply =
     (case reply of
        HttpErr e \<Rightarrow> Inl e
      | HttpResp status h bytes err \<Rightarrow>
          if stream then Inr (status, h, bytes, err)
          else (case readAtMost bytes err maxUpstreamResponseBytes of
                  Inl e \<Rightarrow> Inl e
                | Inr body \<Rightarrow> Inr (status, h, body, ErrEOF)))"

definition canPassthrough :: "('d, 'n) forward_ctx \<Rightarrow> channel \<Rightarrow> bool" where
  "canPassthrough fc ch \<longleftrightarrow>
     fc_clientFormat fc = ch_Format ch \<and> UpstreamModel ch (fc_clientModel fc) = fc_clientModel fc"

definition buildUpstreamBody ::
  "('d, 'n) forwarder \<Rightarrow> ('d, 'n) forward_ctx \<Rightarrow> channel \<Rightarrow> ('d, 'n) adapter \<Rightarrow> bool \<Rightarrow> string result" where
  "buildUpstreamBody f fc ch a stream =
     (case (if canPassthrough fc ch then Inr (fc_rawBody fc)
            else if fc_clientFormat fc = ch_Format ch
              then rewriteNormalizedRequestModel (fc_rawBody fc) (UpstreamModel ch (fc_clientModel fc))
            else ad_BuildRequest a ((fc_req fc)\<lparr>rq_Model := UpstreamModel ch (fc_clientModel fc), rq_Stream := stream\<rparr>)) of
        Inl e \<Rightarrow> Inl e
      | Inr body \<Rightarrow>
          (case rq_MaxTokens (fc_req fc) of
             None \<Rightarrow> Inl ErrPanic
           | Some maxTokens \<Rightarrow> enforceCandidateOutputLimit (fw_limits f) ch (fc_clientModel fc) maxTokens body))"

text \<open>The part that both kinds of attempt share: everything up to the upstream's reply.\<close>

definition attemptSend ::
  "('d, 'n) forwarder \<Rightarrow> ('e, 's) ledger_exec \<Rightarrow> 'e attempt_env \<Rightarrow> ('d, 'n) forward_ctx \<Rightarrow> channel \<Rightarrow> bool \<Rightarrow> 's gateway
     \<Rightarrow> 's gateway \<times> (('d, 'n) outcome + (('d, 'n) adapter \<times> int \<times> header \<times> string \<times> goerr))" where
  "attemptSend f exec env fc ch stream gw =
     (if ae_cancelled env 0 then (gw, Inl (mkOutcome outcomeNeutral (Some ErrContext)))
      else (case fw_adapters f (ch_Format ch) of
        None \<Rightarrow> (gw, Inl (mkOutcome outcomeChannelError (Some ErrUnexpected)))
      | Some a \<Rightarrow>
      (case buildUpstreamBody f fc ch a stream of
        Inl e \<Rightarrow> (gw, Inl (mkOutcome outcomeChannelError (Some e)))
      | Inr body \<Rightarrow>
          if ae_cancelled env 1 then (gw, Inl (mkOutcome outcomeNeutral (Some ErrContext)))
          else (case prepareRequest f env ch of
            Some e \<Rightarrow> (gw, Inl (mkOutcome outcomeChannelError (Some e)))
          | None \<Rightarrow>
              if ae_cancelled env 2 then (gw, Inl (mkOutcome outcomeNeutral (Some ErrContext)))
              else (case BillingMarkInFlight exec (ae_mark env) (fc_res fc) (ch_ID ch) (gw_ledger gw) of
                (l1, Inl e) \<Rightarrow>
                  (case BillingReleaseAttempt exec (ae_release env) (fc_res fc) l1 of
                     (l2, Inr _) \<Rightarrow> (withLedger l2 gw, Inl (mkOutcome outcomeChannelError (Some e)))
                   | (l2, Inl _) \<Rightarrow>
                       (withLedger l2 gw, Inl ((mkOutcome outcomeChannelError (Some e))\<lparr>oc_consumed := True\<rparr>)))
              | (l1, Inr _) \<Rightarrow>
                  (let gw1 = emit (Called (ch_ID ch) body (ae_reply env)) (withLedger l1 gw);
                       lost = (\<lambda>gw e. (gw, Inl ((if ae_cancelled env 4 then mkOutcome outcomeNeutral (Some ErrContext)
                                 else mkOutcome outcomeChannelError (Some e))\<lparr>oc_consumed := True\<rparr>)))
                   in case sendUpstream stream (ae_reply env) of
                        Inr (status, h, bytes, err) \<Rightarrow> (gw1, Inr (a, status, h, bytes, err))
                      | Inl e \<Rightarrow>
                          if errors_is e ErrUpstreamNotDialed then
                            (case BillingReleaseAttempt exec (ae_release env) (fc_res fc) l1 of
                               (l2, Inr _) \<Rightarrow>
                                 (withLedger l2 gw1,
                                  Inl (if ae_cancelled env 3 then mkOutcome outcomeNeutral (Some ErrContext)
                                       else mkOutcome outcomeChannelError (Some e)))
                             | (l2, Inl _) \<Rightarrow> lost (withLedger l2 gw1) e)
                          else lost gw1 e))))))"

text \<open>A status outside 200 to 299.\<close>

definition rejectStatus ::
  "('d, 'n) forwarder \<Rightarrow> ('e, 's) ledger_exec \<Rightarrow> 'e attempt_env \<Rightarrow> ('d, 'n) forward_ctx \<Rightarrow> ('d, 'n) adapter \<Rightarrow>
     int \<Rightarrow> header \<Rightarrow> string \<Rightarrow> 's gateway \<Rightarrow> 's gateway \<times> ('d, 'n) outcome" where
  "rejectStatus f exec env fc a status h body gw =
     (if \<not> definitelyUnconsumedStatus status then
        (relay f fc status body h a gw,
         (mkOutcome outcomeChannelError (Some ErrUnexpected))\<lparr>oc_consumed := True, oc_committed := True\<rparr>)
      else (case BillingReleaseAttempt exec (ae_release env) (fc_res fc) (gw_ledger gw) of
              (l, Inl e) \<Rightarrow> (withLedger l gw, (mkOutcome outcomeChannelError (Some e))\<lparr>oc_consumed := True\<rparr>)
            | (l, Inr _) \<Rightarrow>
                if isChannelError status then
                  (withLedger l gw, (mkOutcome outcomeChannelError (Some ErrUnexpected))\<lparr>oc_upstreamError := Some (body, h, a)\<rparr>)
                else (relay f fc status body h a (withLedger l gw), mkOutcome outcomeClientError None)))"

definition fwSettle ::
  "('d, 'n) forwarder \<Rightarrow> ('e, 's) ledger_exec \<Rightarrow> 'e attempt_env \<Rightarrow> ('d, 'n) forward_ctx \<Rightarrow> channel \<Rightarrow> usage \<Rightarrow> 's gateway
     \<Rightarrow> 's gateway \<times> bool" where
  "fwSettle f exec env fc ch u gw =
     (case Settle (fw_billing f) exec (ae_settle env) (fc_res fc) (ch_ID ch) u (gw_ledger gw) of
        (l, q) \<Rightarrow> (withLedger l gw, q = None))"

section \<open>Non-streaming attempt\<close>

definition forwardNonStream ::
  "('d, 'n) forwarder \<Rightarrow> ('e, 's) ledger_exec \<Rightarrow> 'e attempt_env \<Rightarrow> ('d, 'n) forward_ctx \<Rightarrow> channel \<Rightarrow> 's gateway
     \<Rightarrow> 's gateway \<times> ('d, 'n) outcome" where
  "forwardNonStream f exec env fc ch gw =
     (case attemptSend f exec env fc ch False gw of
        (gw1, Inl oc) \<Rightarrow> (gw1, oc)
      | (gw1, Inr (a, status, h, body, _)) \<Rightarrow>
          if status < 200 \<or> status \<ge> 300 then rejectStatus f exec env fc a status h body gw1
          else
            (let gw2 = gw1\<lparr>gw_header := copySafeUpstreamHeaders h (gw_header gw1)\<rparr>;
                 success = (\<lambda>settled. (mkOutcome outcomeSuccess None)
                    \<lparr>oc_consumed := True, oc_settled := settled, oc_committed := True\<rparr>)
             in case ad_ParseResponse a body of
                  Inl _ \<Rightarrow>
                    (let (gw3, settled) = fwSettle f exec env fc ch zeroUsage gw2
                     in (writeError f (fc_clientFormat fc) 502 ''upstream_error'' ''upstream response cannot be billed safely'' gw3,
                         success settled))
                | Inr canonResp \<Rightarrow>
                    (let (gw3, settled) = fwSettle f exec env fc ch (rs_Usage canonResp) gw2 in
                     if canPassthrough fc ch then (emit (Wrote (CData 200 body)) gw3, success settled)
                     else (case ad_BuildResponse (fc_clientAdapter fc) (canonResp\<lparr>rs_Model := fc_clientModel fc\<rparr>) of
                             Inl _ \<Rightarrow>
                               (writeError f (fc_clientFormat fc) 500 ''internal_error'' ''building the response failed'' gw3,
                                success settled)
                           | Inr out \<Rightarrow> (emit (Wrote (CData 200 out)) gw3, success settled)))))"

section \<open>Streaming attempt\<close>

definition finishAttempt ::
  "('d, 'n) forwarder \<Rightarrow> ('e, 's) ledger_exec \<Rightarrow> 'e attempt_env \<Rightarrow> ('d, 'n) forward_ctx \<Rightarrow> channel \<Rightarrow>
     outcome_kind \<Rightarrow> goerr option \<Rightarrow> bool \<Rightarrow> usage \<Rightarrow> bool \<Rightarrow> 's gateway \<Rightarrow> 's gateway \<times> ('d, 'n) outcome" where
  "finishAttempt f exec env fc ch kind attemptErr exact u committed gw =
     (let (gw1, settled) = fwSettle f exec env fc ch (if exact then u else inexactUsage u) gw;
          late = (kind = outcomeChannelError \<and> \<not> committed);
          gw2 = (if late then writeError f (fc_clientFormat fc) 502 ''upstream_error''
                   ''upstream stream incomplete, billed at the reserved bound'' gw1 else gw1)
      in (gw2, (mkOutcome kind attemptErr)\<lparr>oc_settled := settled, oc_consumed := True, oc_committed := committed \<or> late\<rparr>))"

text \<open>Committing the response, and the writes of one record; the counter numbers the writes.\<close>

definition commitSSE :: "bool \<Rightarrow> 's gateway \<Rightarrow> 's gateway" where
  "commitSSE committed gw = (if committed then gw else emit (Wrote CSSEHeaders) gw)"

fun writeAll :: "'e attempt_env \<Rightarrow> nat \<Rightarrow> string list \<Rightarrow> 's gateway \<Rightarrow> 's gateway \<times> nat \<times> bool" where
  "writeAll env k [] gw = (gw, k, True)"
| "writeAll env k (x # xs) gw =
     (if ae_writeOk env k then writeAll env (k + 1) xs (emit (Wrote (CBytes x)) gw) else (gw, k + 1, False))"

fun encodeEvents ::
  "('d, 'n) adapter \<Rightarrow> 'e attempt_env \<Rightarrow> event list \<Rightarrow> 'n \<Rightarrow> bool \<Rightarrow> nat \<Rightarrow> 's gateway \<Rightarrow> 's gateway \<times> 'n \<times> bool \<times> nat \<times> bool"
where
  "encodeEvents a env [] enc committed k gw = (gw, enc, committed, k, True)"
| "encodeEvents a env (ev # evs) enc committed k gw =
     (case ad_Encode a ev enc of
        (Inl _, enc') \<Rightarrow> encodeEvents a env evs enc' committed k gw
      | (Inr out, enc') \<Rightarrow>
          if out = [] then encodeEvents a env evs enc' committed k gw
          else (case writeAll env k [out] (commitSSE committed gw) of
                  (gw', k', True) \<Rightarrow> encodeEvents a env evs enc' True k' gw'
                | (gw', k', False) \<Rightarrow> (gw', enc', True, k', False)))"

function streamLoop ::
  "('d, 'n) forwarder \<Rightarrow> ('e, 's) ledger_exec \<Rightarrow> 'e attempt_env \<Rightarrow> ('d, 'n) forward_ctx \<Rightarrow> channel \<Rightarrow> ('d, 'n) adapter \<Rightarrow>
     sse_reader \<Rightarrow> 'd \<Rightarrow> 'n \<Rightarrow> stream_acc \<Rightarrow> bool \<Rightarrow> nat \<Rightarrow> 's gateway \<Rightarrow> 's gateway \<times> ('d, 'n) outcome" where
  "streamLoop f exec env fc ch a reader dec enc acc committed k gw =
     (let finish = (\<lambda>kind e acc committed gw.
            finishAttempt f exec env fc ch kind e False (sa_usage acc) committed gw) in
      case Next reader of
        (Inl e, _) \<Rightarrow>
          if ae_cancelled env 5 then finish outcomeNeutral (Some ErrContext) acc committed gw
          else finish outcomeChannelError (Some e) acc committed gw
      | (Inr rec, reader') \<Rightarrow>
          (case ad_Decode a rec dec of
             (Inl e, _) \<Rightarrow>
               if ae_cancelled env 5 then finish outcomeNeutral (Some ErrContext) acc committed gw
               else finish outcomeChannelError (Some e) acc committed gw
           | (Inr events, dec') \<Rightarrow>
               (let (acc', eventErr) = recordStep events acc;
                    (gw', enc', committed', k', ok) =
                      (if canPassthrough fc ch
                       then (case writeAll env k (writeSSERecord rec) (commitSSE committed gw) of
                               (gw1, k1, ok1) \<Rightarrow> (gw1, enc, True, k1, ok1))
                       else encodeEvents (fc_clientAdapter fc) env events enc committed k gw)
                in if \<not> ok then
                     (case eventErr of
                        Some e \<Rightarrow> finish outcomeChannelError (Some e) acc' committed' gw'
                      | None \<Rightarrow> finish outcomeNeutral (Some (ErrOther ''client write'')) acc' committed' gw')
                   else (case eventErr of
                     Some e \<Rightarrow> finish outcomeChannelError (Some e) acc' committed' gw'
                   | None \<Rightarrow>
                       if sa_protocolCompleted acc' then
                         (if \<not> streamExact acc'
                          then finishAttempt f exec env fc ch outcomeChannelError (Some (ErrOther ''final usage missing''))
                                 False (streamUsage acc') committed' gw'
                          else finishAttempt f exec env fc ch outcomeSuccess None True (streamUsage acc') committed' gw')
                       else streamLoop f exec env fc ch a reader' dec' enc' acc' committed' k' gw'))))"
  by pat_completeness auto
termination
  by (relation "measure (\<lambda>(f, exec, env, fc, ch, a, reader, dec, enc, acc, committed, k, gw). length (sr_input reader))")
     (auto simp: Next_def dest!: nextLoop_bounds [OF sym])

declare streamLoop.simps [simp del]

definition forwardStream ::
  "('d, 'n) forwarder \<Rightarrow> ('e, 's) ledger_exec \<Rightarrow> 'e attempt_env \<Rightarrow> ('d, 'n) forward_ctx \<Rightarrow> channel \<Rightarrow> 's gateway
     \<Rightarrow> 's gateway \<times> ('d, 'n) outcome" where
  "forwardStream f exec env fc ch gw =
     (case attemptSend f exec env fc ch True gw of
        (gw1, Inl oc) \<Rightarrow> (gw1, oc)
      | (gw1, Inr (a, status, h, bytes, err)) \<Rightarrow>
          if status < 200 \<or> status \<ge> 300 then rejectStatus f exec env fc a status h (take 65536 bytes) gw1
          else
            (let gw2 = gw1\<lparr>gw_header := copySafeUpstreamHeaders h (gw_header gw1)\<rparr> in
             if \<not> ae_flusher env then
               finishAttempt f exec env fc ch outcomeNeutral None False zeroUsage False
                 (writeError f (fc_clientFormat fc) 500 ''internal_error'' ''streaming not supported'' gw2)
             else streamLoop f exec env fc ch a (newSSEReader bytes err) (ad_newDecoder a)
                    (ad_newEncoder (fc_clientAdapter fc)) newStreamAcc False 0 gw2))"

definition tryCandidate ::
  "('d, 'n) forwarder \<Rightarrow> ('e, 's) ledger_exec \<Rightarrow> 'e attempt_env \<Rightarrow> ('d, 'n) forward_ctx \<Rightarrow> channel \<Rightarrow> 's gateway
     \<Rightarrow> 's gateway \<times> ('d, 'n) outcome" where
  "tryCandidate f exec env fc ch gw =
     (if rq_Stream (fc_req fc) then forwardStream f exec env fc ch gw else forwardNonStream f exec env fc ch gw)"

section \<open>One request\<close>

record 'e forward_env =
  fe_body :: "string result"
  fe_identity :: "identity option"
  fe_requestID :: "string option"
  fe_idBytes :: "8 word list result"
  fe_timeText :: string
  fe_rand :: "8 word list result"
  fe_now :: gotime
  fe_intn :: "nat rng"
  fe_rng :: nat
  fe_reserve :: 'e
  fe_attempts :: "nat \<Rightarrow> 'e attempt_env"
  fe_cancelled :: "nat \<Rightarrow> bool"
  fe_refund :: 'e

definition newRequestID :: "8 word list result \<Rightarrow> string \<Rightarrow> string" where
  "newRequestID rand timeText =
     (case rand of Inl _ \<Rightarrow> ''req_'' @ timeText | Inr b \<Rightarrow> ''req_'' @ hexEncode b)"

definition setBreaker :: "addr \<Rightarrow> breaker \<Rightarrow> 's gateway \<Rightarrow> 's gateway" where
  "setBreaker a b gw = gw\<lparr>gw_router := (gw_router gw)\<lparr>ro_heap := mput a b (ro_heap (gw_router gw))\<rparr>\<rparr>"

definition report :: "addr \<Rightarrow> breaker_permit \<Rightarrow> gotime \<Rightarrow> breaker_result \<Rightarrow> 's gateway \<Rightarrow> 's gateway" where
  "report a permit now res gw =
     (case map_of (ro_heap (gw_router gw)) a of
        None \<Rightarrow> gw
      | Some b \<Rightarrow> emit (Reported a res) (setBreaker a (fst (resolve now res permit b)) gw))"

fun candidateLoop ::
  "('d, 'n) forwarder \<Rightarrow> ('e, 's) ledger_exec \<Rightarrow> 'e forward_env \<Rightarrow> ('d, 'n) forward_ctx \<Rightarrow> nat \<Rightarrow> candidate list \<Rightarrow>
     (string \<times> header \<times> ('d, 'n) adapter) option \<Rightarrow> 's gateway \<Rightarrow> 's gateway \<times> bool \<times> bool" where
  "candidateLoop f exec env fc n [] lastUpstreamError gw =
     ((case lastUpstreamError of
         Some (body, h, a) \<Rightarrow> relay f fc 502 body h a gw
       | None \<Rightarrow> writeError f (fc_clientFormat fc) 502 ''upstream_error'' ''no upstream channel available'' gw), False, False)"
| "candidateLoop f exec env fc n (cand # cands) lastUpstreamError gw =
     (if fe_cancelled env n then (gw, False, False)
      else (case map_of (ro_heap (gw_router gw)) (cd_Breaker cand) of
        None \<Rightarrow> candidateLoop f exec env fc (n + 1) cands lastUpstreamError gw
      | Some b \<Rightarrow>
      (let ae = fe_attempts env n in
       case Allow (ae_allowAt ae) b of
         (b', None) \<Rightarrow>
           candidateLoop f exec env fc (n + 1) cands lastUpstreamError (setBreaker (cd_Breaker cand) b' gw)
       | (b', Some permit) \<Rightarrow>
           (let gw1 = emit (Granted (cd_Breaker cand)) (setBreaker (cd_Breaker cand) b' gw);
                (gw2, oc) = tryCandidate f exec ae fc (cd_Channel cand) gw1;
                rep = (\<lambda>res. report (cd_Breaker cand) permit (ae_recordAt ae) res gw2)
            in case oc_kind oc of
                 outcomeSuccess \<Rightarrow> (rep breakerSuccess, oc_consumed oc, oc_settled oc)
               | outcomeClientError \<Rightarrow> (rep breakerSuccess, oc_consumed oc, oc_settled oc)
               | outcomeChannelError \<Rightarrow>
                   (let gw3 = rep breakerFailure;
                        lastUp = (case oc_upstreamError oc of None \<Rightarrow> lastUpstreamError | Some e \<Rightarrow> Some e)
                    in if oc_committed oc \<or> oc_consumed oc then
                         ((if oc_consumed oc \<and> \<not> oc_committed oc
                           then writeError f (fc_clientFormat fc) 502 ''upstream_error''
                                  ''upstream result uncertain, reservation kept for reconciliation'' gw3
                           else gw3), oc_consumed oc, oc_settled oc)
                       else candidateLoop f exec env fc (n + 1) cands lastUp gw3)
               | outcomeNeutral \<Rightarrow> (rep breakerNeutral, oc_consumed oc, oc_settled oc)))))"

definition forwardRequestID :: "'e forward_env \<Rightarrow> string" where
  "forwardRequestID env =
     (case fe_requestID env of Some i \<Rightarrow> i | None \<Rightarrow> newRequestID (fe_idBytes env) (fe_timeText env))"

definition forward ::
  "('d, 'n) forwarder \<Rightarrow> ('e, 's) ledger_exec \<Rightarrow> 'e forward_env \<Rightarrow> string \<Rightarrow> 's gateway \<Rightarrow> 's gateway" where
  "forward f exec env clientFormat gw =
     (let err = (\<lambda>status t msg gw. writeError f clientFormat status t msg gw) in
      case fw_adapters f clientFormat of
        None \<Rightarrow> err 500 ''internal_error'' ''client format not registered'' gw
      | Some clientAdapter \<Rightarrow>
      (case fe_body env of
        Inl e \<Rightarrow> if errors_is e ErrMaxBytes then err 413 ''invalid_request_error'' ''request body too large'' gw
                 else err 400 ''invalid_request_error'' ''reading the request body failed'' gw
      | Inr body \<Rightarrow>
      (case ad_ParseRequest clientAdapter body of
        Inl e \<Rightarrow> err 400 ''invalid_request_error'' ''parsing the request failed'' gw
      | Inr req0 \<Rightarrow>
      (if rq_Model req0 = [] then err 400 ''invalid_request_error'' ''model missing'' gw
       else (case fe_identity env of
        None \<Rightarrow> err 401 ''authentication_error'' ''not authenticated'' gw
      | Some i \<Rightarrow>
      (if \<not> Allows i (rq_Model req0) then err 403 ''permission_error'' ''model not allowed for this key'' gw
       else (case BillingNormalizeMaxOutput (fw_billing f) (rq_Model req0) (rq_MaxTokens req0) of
        Inl e \<Rightarrow> if errors_is e ErrInvalidTokenLimit then err 400 ''invalid_request_error'' ''max_tokens beyond the model bound'' gw
                 else err 500 ''internal_error'' ''reading the billing policy failed'' gw
      | Inr maxOutput \<Rightarrow>
      (let req = req0\<lparr>rq_MaxTokens := Some maxOutput\<rparr> in
       case normalizePassthroughRequest body clientFormat maxOutput (rq_Stream req) of
        Inl e \<Rightarrow> err 400 ''invalid_request_error'' ''normalising the request failed'' gw
      | Inr normalizedBody \<Rightarrow>
      (case Select (fe_intn env) (fe_rng env) (fe_now env) (rq_Model req) (gw_router gw) of
        (r', Inl e) \<Rightarrow> err 503 ''no_channel_error'' ''no channel for the model'' (gw\<lparr>gw_router := r'\<rparr>)
      | (r', Inr candidates) \<Rightarrow>
      (let gw1 = gw\<lparr>gw_router := r'\<rparr>;
           requestID = forwardRequestID env
       in case FacadeReserve (fw_billing f) exec (fe_reserve env) (fe_rand env) (fe_now env)
              \<lparr>rr_TraceID = requestID, rr_UserID = id_UserID i, rr_KeyID = id_KeyID i, rr_Model = rq_Model req,
               rr_MaxOutputTokens = maxOutput\<rparr> (gw_ledger gw1) of
        (l, res, Inl e) \<Rightarrow> err 500 ''internal_error'' ''billing unavailable'' (withLedger l gw1)
      | (l, res, Inr reserved) \<Rightarrow>
          if \<not> reserved then err 402 ''insufficient_quota'' ''insufficient quota'' (withLedger l gw1)
          else
            (let fc = \<lparr>fc_clientFormat = clientFormat, fc_clientAdapter = clientAdapter, fc_rawBody = normalizedBody,
                       fc_req = req, fc_clientModel = rq_Model req, fc_res = res, fc_requestID = requestID\<rparr>;
                 (gw2, consumed, settled) = candidateLoop f exec env fc 0 candidates None (withLedger l gw1)
             in if \<not> consumed \<and> \<not> settled
                then withLedger (fst (BillingRefund exec (fe_refund env) res (gw_ledger gw2))) gw2
                else gw2)))))))))))"

text \<open>The models that \<open>/v1/models\<close> lists.\<close>

definition Models :: "'s gateway \<Rightarrow> string list" where
  "Models gw = sort (remdups (concat (map (\<lambda>ch. map fst (ch_Models ch)) (filter ch_Enabled (Channels (gw_router gw))))))"

end
