(* ===== verification/ForwardProps.thy ===== *)
theory ForwardProps
  imports Forward
begin

text \<open>
  What the forwarder guarantees, for every upstream reply, every failure of the ledger and every point
  of cancellation. The lemmas are proved once for a ledger that keeps the contract and are used on the
  PostgreSQL ledger at the end.
\<close>

section \<open>Effects\<close>

text \<open>A reply after which the upstream may have produced (and charged for) output.\<close>

definition mayConsume :: "http_reply \<Rightarrow> bool" where
  "mayConsume reply =
     (case reply of
        HttpErr e \<Rightarrow> \<not> errors_is e ErrUpstreamNotDialed
      | HttpResp status _ _ _ \<Rightarrow> \<not> definitelyUnconsumedStatus status)"

text \<open>Reading a response body does not fail with the error that says that no connection was made.\<close>

definition reply_ok :: "http_reply \<Rightarrow> bool" where
  "reply_ok reply = (case reply of HttpErr _ \<Rightarrow> True | HttpResp _ _ _ err \<Rightarrow> \<not> errors_is err ErrUpstreamNotDialed)"

fun calls :: "effect list \<Rightarrow> http_reply list" where
  "calls [] = []"
| "calls (Called _ _ reply # es) = reply # calls es"
| "calls (_ # es) = calls es"

fun writes :: "effect list \<Rightarrow> client_write list" where
  "writes [] = []"
| "writes (Wrote w # es) = w # writes es"
| "writes (_ # es) = writes es"

fun permits :: "effect list \<Rightarrow> effect list" where
  "permits [] = []"
| "permits (Granted a # es) = Granted a # permits es"
| "permits (Reported a r # es) = Reported a r # permits es"
| "permits (_ # es) = permits es"

lemma calls_append [simp]: "calls (xs @ ys) = calls xs @ calls ys"
  by (induction xs rule: calls.induct) auto

lemma writes_append [simp]: "writes (xs @ ys) = writes xs @ writes ys"
  by (induction xs rule: writes.induct) auto

lemma permits_append [simp]: "permits (xs @ ys) = permits xs @ permits ys"
  by (induction xs rule: permits.induct) auto

text \<open>The shapes of what a client may receive: nothing, one response, or a stream.\<close>

definition isResponse :: "client_write \<Rightarrow> bool" where
  "isResponse w \<longleftrightarrow> (case w of CData _ _ \<Rightarrow> True | CJson _ _ \<Rightarrow> True | _ \<Rightarrow> False)"

definition isStream :: "client_write list \<Rightarrow> bool" where
  "isStream ws \<longleftrightarrow> (\<exists>bs. ws = CSSEHeaders # map CBytes bs)"

definition oneResponse :: "client_write list \<Rightarrow> bool" where
  "oneResponse ws \<longleftrightarrow> ws = [] \<or> (\<exists>w. ws = [w] \<and> isResponse w) \<or> isStream ws"

lemma isResponse_error [simp]: "isResponse (WriteProtocolError reg status protocol e)"
  by (auto simp: WriteProtocolError_def isResponse_def split: option.splits sum.splits)

lemma isResponse_WriteError [simp]: "isResponse (WriteError reg protocol status t msg)"
  by (simp add: WriteError_def)

lemma isResponse_CData: "isResponse (CData status body)"
  by (simp add: isResponse_def)

lemma emit_simps [simp]:
  "gw_effects (emit e gw) = gw_effects gw @ [e]" "gw_ledger (emit e gw) = gw_ledger gw"
  "gw_router (emit e gw) = gw_router gw" "gw_effects (withLedger l gw) = gw_effects gw"
  "gw_ledger (withLedger l gw) = l" "gw_router (withLedger l gw) = gw_router gw"
  by (simp_all add: emit_def withLedger_def)

lemma writeError_simps [simp]:
  "gw_effects (writeError f p st t msg gw) = gw_effects gw @ [Wrote (WriteError (fw_adapters f) p st t msg)]"
  "gw_ledger (writeError f p st t msg gw) = gw_ledger gw" "gw_router (writeError f p st t msg gw) = gw_router gw"
  by (simp_all add: writeError_def)

lemma relay_simps:
  "\<exists>w. gw_effects (relay f fc status body h a gw) = gw_effects gw @ [Wrote w] \<and> isResponse w"
  "gw_ledger (relay f fc status body h a gw) = gw_ledger gw" "gw_router (relay f fc status body h a gw) = gw_router gw"
  by (auto simp: relay_def relayUpstreamError_def Let_def)

definition isReject :: "int \<Rightarrow> bool" where
  "isReject status \<longleftrightarrow> status < 200 \<or> status \<ge> 300"

lemma accept_mayConsume: "\<not> isReject status \<Longrightarrow> \<not> definitelyUnconsumedStatus status"
  by (auto simp: isReject_def definitelyUnconsumedStatus_def)

lemma sendUpstream_err:
  "sendUpstream stream reply = Inl e \<Longrightarrow> reply_ok reply \<Longrightarrow> mayConsume reply \<Longrightarrow> \<not> errors_is e ErrUpstreamNotDialed"
  by (auto simp: sendUpstream_def readAtMost_def reply_ok_def mayConsume_def Let_def
      split: http_reply.splits if_splits sum.splits)

lemma sendUpstream_ok:
  "sendUpstream stream reply = Inr (status, h, bytes, err) \<Longrightarrow> \<exists>b e. reply = HttpResp status h b e"
  by (auto simp: sendUpstream_def split: http_reply.splits if_splits sum.splits)

text \<open>Steps that call nobody and move no permit, with what they write.\<close>

definition quiet :: "'s gateway \<Rightarrow> 's gateway \<Rightarrow> client_write list \<Rightarrow> bool" where
  "quiet gw gw' ws \<longleftrightarrow> gw_router gw' = gw_router gw \<and>
     (\<exists>es. gw_effects gw' = gw_effects gw @ es \<and> calls es = [] \<and> permits es = [] \<and> writes es = ws)"

lemma quiet_refl: "quiet gw gw []"
  by (auto simp: quiet_def intro: exI [of _ "[]"])

lemma quiet_trans: "quiet gw gw1 ws \<Longrightarrow> quiet gw1 gw2 ws' \<Longrightarrow> quiet gw gw2 (ws @ ws')"
  unfolding quiet_def by (metis append.assoc append_Nil calls_append permits_append writes_append)

lemma quiet_write: "quiet gw (emit (Wrote w) gw) [w]"
  by (auto simp: quiet_def)

lemma quiet_writeError: "quiet gw (writeError f p st t msg gw) [WriteError (fw_adapters f) p st t msg]"
  by (auto simp: quiet_def)

lemma quiet_error: "\<exists>w. quiet gw (writeError f p st t msg gw) [w] \<and> isResponse w"
  using quiet_writeError isResponse_WriteError by blast

lemma quiet_withLedger: "quiet gw (withLedger l gw) []"
  by (simp add: quiet_def)

lemma quiet_header: "quiet gw (gw\<lparr>gw_header := h\<rparr>) []"
  by (simp add: quiet_def)

lemma quiet_relay: "\<exists>w. quiet gw (relay f fc status body h a gw) [w] \<and> isResponse w"
proof -
  obtain w where "gw_effects (relay f fc status body h a gw) = gw_effects gw @ [Wrote w]" "isResponse w"
    using relay_simps(1) by blast
  then show ?thesis by (auto simp: quiet_def relay_simps intro!: exI [of _ w])
qed

text \<open>What a stream has written between two of its points, \<open>c\<close> and \<open>c'\<close> telling whether the response was
  committed there, and what it has written when it is over.\<close>

definition streamed :: "bool \<Rightarrow> bool \<Rightarrow> client_write list \<Rightarrow> bool" where
  "streamed c c' ws \<longleftrightarrow>
     (if c then c' \<and> (\<exists>bs. ws = map CBytes bs) else (\<not> c' \<and> ws = []) \<or> (c' \<and> isStream ws))"

definition ended :: "bool \<Rightarrow> client_write list \<Rightarrow> bool" where
  "ended c ws \<longleftrightarrow> (if c then \<exists>bs. ws = map CBytes bs else oneResponse ws)"

lemma streamed_refl: "streamed c c []"
  by (auto simp: streamed_def)

lemma streamed_trans: "streamed c c' ws \<Longrightarrow> streamed c' c'' ws' \<Longrightarrow> streamed c c'' (ws @ ws')"
  by (auto simp: streamed_def isStream_def simp flip: map_append split: if_splits)

lemma streamed_ended: "streamed c c' ws \<Longrightarrow> ended c' ws' \<Longrightarrow> ended c (ws @ ws')"
  by (auto simp: streamed_def ended_def oneResponse_def isStream_def simp flip: map_append split: if_splits)

lemma ended_Nil: "ended c []"
  by (simp add: ended_def oneResponse_def)

lemma ended_error: "ended False [WriteError reg p st t msg]"
  by (simp add: ended_def oneResponse_def)

lemma writeAll_quiet:
  "writeAll env k xs gw = (gw', k', ok) \<Longrightarrow>
     (\<exists>bs. quiet gw gw' (map CBytes bs)) \<and> gw_ledger gw' = gw_ledger gw"
proof (induction xs arbitrary: k gw)
  case Nil
  then show ?case using quiet_refl [of gw] by (auto intro: exI [of _ "[]"])
next
  case (Cons x xs)
  show ?case
  proof (cases "ae_writeOk env k")
    case True
    then obtain bs where "quiet (emit (Wrote (CBytes x)) gw) gw' (map CBytes bs)" "gw_ledger gw' = gw_ledger gw"
      using Cons.IH [of "k + 1" "emit (Wrote (CBytes x)) gw"] Cons.prems by auto
    then show ?thesis using quiet_trans [OF quiet_write [of gw "CBytes x"]]
      by (auto intro!: exI [of _ "x # bs"])
  next
    case False
    then show ?thesis using Cons.prems quiet_refl [of gw] by (auto intro: exI [of _ "[]"])
  qed
qed

lemma commitSSE_quiet:
  "quiet gw (commitSSE c gw) (if c then [] else [CSSEHeaders])" "gw_ledger (commitSSE c gw) = gw_ledger gw"
  by (auto simp: commitSSE_def quiet_refl quiet_write)

lemma commit_writeAll:
  assumes "writeAll env k xs (commitSSE c gw) = (gw', k', ok)"
  shows "\<exists>ws. quiet gw gw' ws \<and> streamed c True ws" "gw_ledger gw' = gw_ledger gw"
proof -
  obtain bs where bs: "quiet (commitSSE c gw) gw' (map CBytes bs)" "gw_ledger gw' = gw_ledger gw"
    using writeAll_quiet [OF assms] by (auto simp: commitSSE_quiet)
  have "streamed c True ((if c then [] else [CSSEHeaders]) @ map CBytes bs)"
    by (auto simp: streamed_def isStream_def)
  then show "\<exists>ws. quiet gw gw' ws \<and> streamed c True ws"
    using quiet_trans [OF commitSSE_quiet(1) bs(1)] by blast
  show "gw_ledger gw' = gw_ledger gw" by (rule bs(2))
qed

lemma encodeEvents_quiet:
  "encodeEvents a env evs enc c k gw = (gw', enc', c', k', ok) \<Longrightarrow>
     (\<exists>ws. quiet gw gw' ws \<and> streamed c c' ws) \<and> gw_ledger gw' = gw_ledger gw"
proof (induction evs arbitrary: enc c k gw)
  case Nil
  then show ?case using quiet_refl [of gw] streamed_refl [of c] by auto
next
  case (Cons ev evs)
  obtain r enc1 where e: "ad_Encode a ev enc = (r, enc1)" by fastforce
  show ?case
  proof (cases "\<exists>out. r = Inr out \<and> out \<noteq> []")
    case True
    then obtain out where r: "r = Inr out" "out \<noteq> []" by blast
    obtain gw1 k1 ok1 where w: "writeAll env k [out] (commitSSE c gw) = (gw1, k1, ok1)" by (metis prod_cases3)
    note cw = commit_writeAll [OF w]
    show ?thesis
    proof (cases ok1)
      case True
      then have "encodeEvents a env evs enc1 True k1 gw1 = (gw', enc', c', k', ok)"
        using Cons.prems w by (simp add: e r)
      from Cons.IH [OF this] cw show ?thesis using quiet_trans streamed_trans by metis
    next
      case False
      then show ?thesis using Cons.prems w cw by (simp add: e r)
    qed
  next
    case False
    then show ?thesis using Cons.prems Cons.IH [of enc1 c k gw] by (cases r) (auto simp: e)
  qed
qed

lemma sendUpstream_stream:
  "sendUpstream True reply = Inr (status, h, bytes, err) \<longleftrightarrow> reply = HttpResp status h bytes err"
  by (auto simp: sendUpstream_def split: http_reply.splits)

lemma attemptSend_reply:
  assumes "attemptSend f exec env fc ch True gw = (gw', Inr (a, status, h, bytes, err))"
  shows "ae_reply env = HttpResp status h bytes err" "fw_adapters f (ch_Format ch) = Some a"
  using assms
  by (auto simp: attemptSend_def Let_def sendUpstream_stream split: if_splits option.splits sum.splits prod.splits)

section \<open>Permits\<close>

text \<open>Every permit granted is reported, before the next one is granted, and to the breaker that granted it.\<close>

fun paired :: "effect list \<Rightarrow> bool" where
  "paired [] = True"
| "paired (Granted a # Reported b r # es) = (a = b \<and> paired es)"
| "paired _ = False"

lemma paired_append: "paired xs \<Longrightarrow> paired ys \<Longrightarrow> paired (xs @ ys)"
  by (induction xs rule: paired.induct) auto

lemma setBreaker_simps [simp]:
  "gw_effects (setBreaker a b gw) = gw_effects gw" "gw_ledger (setBreaker a b gw) = gw_ledger gw"
  by (simp_all add: setBreaker_def)

lemma report_simps:
  assumes "map_of (ro_heap (gw_router gw)) a \<noteq> None"
  shows "gw_effects (report a permit now res gw) = gw_effects gw @ [Reported a res]"
    "gw_ledger (report a permit now res gw) = gw_ledger gw"
  using assms by (auto simp: report_def)

section \<open>Requests that are turned away\<close>

definition early :: "'s gateway \<Rightarrow> 's \<Rightarrow> 's gateway \<Rightarrow> bool" where
  "early gw l gw' \<longleftrightarrow> gw_ledger gw' = l \<and> (\<exists>w. isResponse w \<and> gw_effects gw' = gw_effects gw @ [Wrote w])"

lemma early_error [simp]:
  "early gw (gw_ledger gw) (writeError f p st t msg gw)"
  "early gw (gw_ledger gw) (writeError f p st t msg (gw\<lparr>gw_router := r\<rparr>))"
  "early gw l (writeError f p st t msg (withLedger l (gw\<lparr>gw_router := r\<rparr>)))"
  by (auto simp: early_def)

text \<open>A request that is not turned away went through every gate: a registered format, a readable body that
  parses to a request for a model, an authenticated key that may use it, an output bound, a normalised
  body, a candidate channel and a reservation.\<close>

lemma forward_cases:
  assumes run: "forward f exec env cf gw = gw'" and not: "\<not> early gw (gw_ledger gw) gw'"
  obtains a body req0 i n body' r' cands l res q
  where "fw_adapters f cf = Some a" "fe_body env = Inr body" "ad_ParseRequest a body = Inr req0"
    "rq_Model req0 \<noteq> []" "fe_identity env = Some i" "Allows i (rq_Model req0)"
    "BillingNormalizeMaxOutput (fw_billing f) (rq_Model req0) (rq_MaxTokens req0) = Inr n"
    "normalizePassthroughRequest body cf n (rq_Stream req0) = Inr body'"
    "Select (fe_intn env) (fe_rng env) (fe_now env) (rq_Model req0) (gw_router gw) = (r', Inr cands)"
    "FacadeReserve (fw_billing f) exec (fe_reserve env) (fe_rand env) (fe_now env)
              \<lparr>rr_TraceID = forwardRequestID env, rr_UserID = id_UserID i, rr_KeyID = id_KeyID i, rr_Model = rq_Model req0,
               rr_MaxOutputTokens = n\<rparr> (gw_ledger gw) = (l, res, q)"
    "early gw l gw' \<or> q = Inr True \<and>
       (\<exists>gw2 consumed settled.
          candidateLoop f exec env \<lparr>fc_clientFormat = cf, fc_clientAdapter = a, fc_rawBody = body',
             fc_req = req0\<lparr>rq_MaxTokens := Some n\<rparr>, fc_clientModel = rq_Model req0, fc_res = res,
             fc_requestID = forwardRequestID env\<rparr> 0 cands None (withLedger l (gw\<lparr>gw_router := r'\<rparr>)) = (gw2, consumed, settled) \<and>
          gw' = (if \<not> consumed \<and> \<not> settled
                 then withLedger (fst (BillingRefund exec (fe_refund env) res (gw_ledger gw2))) gw2 else gw2))"
proof -
  note fwd = run [unfolded forward_def Let_def forwardRequestID_def [symmetric]]
  obtain a where a: "fw_adapters f cf = Some a" using fwd not by (cases "fw_adapters f cf") auto
  obtain body where b: "fe_body env = Inr body" using fwd not by (cases "fe_body env") (auto simp: a split: if_splits)
  obtain req0 where r0: "ad_ParseRequest a body = Inr req0" using fwd not by (cases "ad_ParseRequest a body") (auto simp: a b)
  have m: "rq_Model req0 \<noteq> []" using fwd not by (auto simp: a b r0)
  obtain i where i: "fe_identity env = Some i" using fwd not by (cases "fe_identity env") (auto simp: a b r0 m)
  have al: "Allows i (rq_Model req0)" using fwd not by (auto simp: a b r0 m i split: if_splits)
  obtain n where n: "BillingNormalizeMaxOutput (fw_billing f) (rq_Model req0) (rq_MaxTokens req0) = Inr n"
    using fwd not by (cases "BillingNormalizeMaxOutput (fw_billing f) (rq_Model req0) (rq_MaxTokens req0)")
      (auto simp: a b r0 m i al split: if_splits)
  note fwd1 = fwd [simplified a b r0 m i al n option.case sum.case if_False if_True not_True_eq_False]
  obtain body' where b': "normalizePassthroughRequest body cf n (rq_Stream req0) = Inr body'"
    using fwd1 not by (cases "normalizePassthroughRequest body cf n (rq_Stream req0)") auto
  obtain r' x where sel: "Select (fe_intn env) (fe_rng env) (fe_now env) (rq_Model req0) (gw_router gw) = (r', x)" by fastforce
  obtain cands where x: "x = Inr cands" using fwd1 not by (cases x) (auto simp: b' sel)
  obtain l res q where res: "FacadeReserve (fw_billing f) exec (fe_reserve env) (fe_rand env) (fe_now env)
              \<lparr>rr_TraceID = forwardRequestID env, rr_UserID = id_UserID i, rr_KeyID = id_KeyID i, rr_Model = rq_Model req0,
               rr_MaxOutputTokens = n\<rparr> (gw_ledger gw) = (l, res, q)" by (metis prod_cases3)
  have fwd2: "gw' = (case q of Inl e \<Rightarrow> writeError f cf 500 ''internal_error'' ''billing unavailable'' (withLedger l (gw\<lparr>gw_router := r'\<rparr>))
      | Inr reserved \<Rightarrow>
          if \<not> reserved then writeError f cf 402 ''insufficient_quota'' ''insufficient quota'' (withLedger l (gw\<lparr>gw_router := r'\<rparr>))
          else
            (let (gw2, consumed, settled) = candidateLoop f exec env \<lparr>fc_clientFormat = cf, fc_clientAdapter = a, fc_rawBody = body',
                   fc_req = req0\<lparr>rq_MaxTokens := Some n\<rparr>, fc_clientModel = rq_Model req0, fc_res = res,
                   fc_requestID = forwardRequestID env\<rparr> 0 cands None (withLedger l (gw\<lparr>gw_router := r'\<rparr>))
             in if \<not> consumed \<and> \<not> settled
                then withLedger (fst (BillingRefund exec (fe_refund env) res (gw_ledger gw2))) gw2 else gw2))"
    using fwd1 [symmetric] by (simp add: b' sel x res Let_def cong: if_cong sum.case_cong)
  show thesis
    by (rule that [OF a b r0 m i al n b' sel [unfolded x] res])
      (use fwd2 in \<open>auto split: sum.splits prod.splits if_splits\<close>)
qed

text \<open>What a request that reached an upstream was checked for: the key is authenticated and may use the
  model, the worst-case cost of the model's bounds is held for the key's owner, and the owner's balance
  covered it when a new reservation was made.\<close>

definition served :: "('d, 'n) forwarder \<Rightarrow> 'e forward_env \<Rightarrow> string \<Rightarrow> aledger \<Rightarrow> aledger \<Rightarrow> bool" where
  "served f env cf L0 L \<longleftrightarrow>
     (\<exists>a body req i n amount maxInput rid ar. fw_adapters f cf = Some a \<and> fe_body env = Inr body \<and>
        ad_ParseRequest a body = Inr req \<and> fe_identity env = Some i \<and> Allows i (rq_Model req) \<and>
        BillingNormalizeMaxOutput (fw_billing f) (rq_Model req) (rq_MaxTokens req) = Inr n \<and>
        ReservationCost (b_pricing (fw_billing f)) (rq_Model req) n = Inr (amount, maxInput) \<and>
        newReservationID (fe_rand env) = Inr rid \<and> map_of (al_res L) rid = Some ar \<and>
        ar_user ar = id_UserID i \<and> amount \<le> ar_amount ar \<and>
        (map_of (al_res L0) rid = None \<longrightarrow> amount \<le> al_bal L0 (id_UserID i)))"

text \<open>The lists of events of the first records of a body.\<close>

primrec decoded :: "('d, 'n) adapter \<Rightarrow> event list list \<Rightarrow> sse_reader \<Rightarrow> 'd \<Rightarrow> bool" where
  "decoded a [] reader dec = True"
| "decoded a (evs # recs) reader dec =
     (case Next reader of
        (Inl _, _) \<Rightarrow> False
      | (Inr rec, reader') \<Rightarrow>
          (case ad_Decode a rec dec of
             (Inl _, _) \<Rightarrow> False
           | (Inr evs', dec') \<Rightarrow> evs' = evs \<and> decoded a recs reader' dec'))"

text \<open>What a settled stream is charged: after a complete stream with a usable final usage, the settlement
  of the usage of exactly the records read; otherwise the whole reservation.\<close>

definition stream_charge :: "pricing \<Rightarrow> reservation \<Rightarrow> ('d, 'n) adapter \<Rightarrow> sse_reader \<Rightarrow> 'd \<Rightarrow> stream_acc \<Rightarrow> outcome_kind \<Rightarrow> int \<Rightarrow> bool" where
  "stream_charge p r a reader dec acc kind c \<longleftrightarrow>
     (if kind = outcomeSuccess
      then \<exists>recs. decoded a recs reader dec \<and> (\<forall>ev \<in> set (concat recs). ev_Type ev \<noteq> EventError) \<and>
             sa_protocolCompleted (fold addRecord recs acc) \<and> streamExact (fold addRecord recs acc) \<and>
             c = st_cost (settlementCost p r (streamUsage (fold addRecord recs acc)))
      else c = r_Amount r)"

section \<open>Attempts\<close>

text \<open>What one attempt leaves: the ledger related by \<open>R\<close>, the router untouched, no breaker event, at most
  one call; and after a call that may have been consumed the attempt says so and the reservation is
  \<open>sent\<close>.\<close>

definition attempt_post ::
  "('s \<Rightarrow> bool) \<Rightarrow> bool \<Rightarrow> 's gateway \<Rightarrow> 's gateway \<Rightarrow> effect list \<Rightarrow> http_reply \<Rightarrow> bool" where
  "attempt_post isSent consumed gw gw' es reply \<longleftrightarrow>
     gw_effects gw' = gw_effects gw @ es \<and> gw_router gw' = gw_router gw \<and> permits es = [] \<and>
     (calls es = [] \<or> calls es = [reply]) \<and>
     (calls es \<noteq> [] \<longrightarrow> mayConsume reply \<longrightarrow> consumed \<and> isSent (gw_ledger gw'))"

context settling_ledger
begin

definition kept :: "'s \<Rightarrow> 's \<Rightarrow> bool" where
  "kept s s' \<longleftrightarrow> inv s' \<and> (\<exists>ops. s' = run ops s)"

lemma kept_refl: "inv s \<Longrightarrow> kept s s"
  by (auto simp: kept_def intro: exI [of _ "[]"])

lemma kept_trans: "kept s t \<Longrightarrow> kept t w \<Longrightarrow> kept s w"
  by (auto simp: kept_def simp flip: run_append)

lemma kept_inv: "kept s s' \<Longrightarrow> inv s'"
  by (simp add: kept_def)

lemma kept_worth: "inv s \<Longrightarrow> kept s s' \<Longrightarrow> worth u (abs s') = worth u (abs s)"
  by (auto simp: kept_def run_worth)

lemma kept_evolves:
  "inv s \<Longrightarrow> kept s s' \<Longrightarrow> map_of (al_res (abs s)) i = Some a \<Longrightarrow>
     \<exists>b. map_of (al_res (abs s')) i = Some b \<and> evolves a b"
  by (auto simp: kept_def run_evolves)

lemma exec_kept: "inv s \<Longrightarrow> exec e op s = (s', r) \<Longrightarrow> kept s s'"
  unfolding kept_def by (metis exec_inv fst_conv snd_conv run.simps)

lemma recordLoop_kept: "inv s \<Longrightarrow> kept s (fst (recordLoop exec env c attempts lastErr s))"
proof (induction attempts arbitrary: s lastErr)
  case (Cons n ns)
  obtain s' res where r: "exec (be_calls env n) (LRecordConsumption c) s = (s', res)" by fastforce
  note k = exec_kept [OF Cons.prems r]
  then show ?case using kept_trans [OF k Cons.IH [OF kept_inv [OF k]]] by (auto simp: r split: sum.splits)
qed (simp add: kept_refl)

lemma mark_sent: "inv s \<Longrightarrow> exec e (LMarkInFlight i ch) s = (s', Inr x) \<Longrightarrow> sent i (abs s')"
  using exec_post [of s e "LMarkInFlight i ch"] answers_nil [of "LMarkInFlight i ch" e s s' x]
  by (auto simp: sent_def)

lemma Settle_kept:
  assumes "inv s" "Settle b exec env r ch u s = (s', q)"
  shows "kept s s'" "sent i (abs s) \<Longrightarrow> sent i (abs s')"
proof -
  let ?c = "settleConsumption (settlementCost (b_pricing b) r u) r ch u (be_now env)"
  obtain s1 q1 where rec: "recordConsumptionWithRetry exec env ?c s = (s1, q1)" by fastforce
  have k1: "kept s s1"
    using recordLoop_kept [OF assms(1), of env ?c "[0, 1, 2]" None] rec by (simp add: recordConsumptionWithRetry_def)
  obtain s2 res where fin: "exec (be_calls env 3) (LFinalize (r_ID r)) s1 = (s2, res)" by fastforce
  note k2 = kept_trans [OF k1 exec_kept [OF kept_inv [OF k1] fin]]
  show "kept s s'" using assms(2) k1 k2 kept_refl [OF assms(1)]
    by (auto simp: Settle_def Let_def rec fin split: option.splits sum.splits if_splits)
  show "sent i (abs s) \<Longrightarrow> sent i (abs s')"
    using Settle_keeps(3) [OF assms(1), where b = b and env = env and r = r and ch = ch and u = u] assms(2)
    by simp
qed

lemma fwSettle_kept:
  assumes "inv (gw_ledger gw)" "fwSettle f exec env fc ch u gw = (gw', settled)"
  shows "kept (gw_ledger gw) (gw_ledger gw')" "sent i (abs (gw_ledger gw)) \<Longrightarrow> sent i (abs (gw_ledger gw'))"
    "gw_effects gw' = gw_effects gw" "gw_router gw' = gw_router gw"
proof -
  obtain l q where s: "Settle (fw_billing f) exec (ae_settle env) (fc_res fc) (ch_ID ch) u (gw_ledger gw) = (l, q)"
    by fastforce
  have gw': "gw' = withLedger l gw" using assms(2) by (simp add: fwSettle_def s)
  show "kept (gw_ledger gw) (gw_ledger gw')" "sent i (abs (gw_ledger gw)) \<Longrightarrow> sent i (abs (gw_ledger gw'))"
    "gw_effects gw' = gw_effects gw" "gw_router gw' = gw_router gw"
    using Settle_kept [OF assms(1) s] by (simp_all add: gw')
qed

definition send_post ::
  "('d, 'n) forward_ctx \<Rightarrow> 'e attempt_env \<Rightarrow> 's gateway \<Rightarrow> 's gateway \<Rightarrow>
     (('d, 'n) outcome + (('d, 'n) adapter \<times> int \<times> header \<times> string \<times> goerr)) \<Rightarrow> bool" where
  "send_post fc env gw gw' r \<longleftrightarrow> kept (gw_ledger gw) (gw_ledger gw') \<and>
     (\<exists>es. attempt_post (\<lambda>l. sent (r_ID (fc_res fc)) (abs l))
             (case r of Inl oc \<Rightarrow> oc_consumed oc | Inr _ \<Rightarrow> True) gw gw' es (ae_reply env) \<and> writes es = [] \<and>
        (case r of
           Inl oc \<Rightarrow> \<not> oc_settled oc \<and> \<not> oc_committed oc \<and> oc_upstreamError oc = None \<and>
             (oc_kind oc = outcomeNeutral \<or> oc_kind oc = outcomeChannelError)
         | Inr (a, status, h, bytes, err) \<Rightarrow> calls es = [ae_reply env] \<and> sent (r_ID (fc_res fc)) (abs (gw_ledger gw')) \<and>
             (\<exists>b e. ae_reply env = HttpResp status h b e)))"

lemma send_post_noop:
  "inv (gw_ledger gw) \<Longrightarrow> kept (gw_ledger gw) l \<Longrightarrow> k = outcomeNeutral \<or> k = outcomeChannelError \<Longrightarrow>
     send_post fc env gw (withLedger l gw) (Inl (mkOutcome k e))"
  "inv (gw_ledger gw) \<Longrightarrow> kept (gw_ledger gw) l \<Longrightarrow> k = outcomeNeutral \<or> k = outcomeChannelError \<Longrightarrow>
     send_post fc env gw (withLedger l gw) (Inl ((mkOutcome k e)\<lparr>oc_consumed := True\<rparr>))"
  by (auto simp: send_post_def attempt_post_def mkOutcome_def)

lemma send_post_called:
  assumes "kept (gw_ledger gw) l" "k = outcomeNeutral \<or> k = outcomeChannelError"
    and "mayConsume (ae_reply env) \<Longrightarrow> c \<and> sent (r_ID (fc_res fc)) (abs l)"
  shows "send_post fc env gw (withLedger l (emit (Called i body (ae_reply env)) gw))
    (Inl ((mkOutcome k e)\<lparr>oc_consumed := c\<rparr>))"
  using assms by (auto simp: send_post_def attempt_post_def mkOutcome_def)

lemma mkOutcome_consumed [simp]: "(mkOutcome k e)\<lparr>oc_consumed := False\<rparr> = mkOutcome k e"
  by (simp add: mkOutcome_def)

lemma withLedger_commute:
  "emit x (withLedger l gw) = withLedger l (emit x gw)" "withLedger l (withLedger l' gw) = withLedger l gw"
  "withLedger (gw_ledger gw) gw = gw"
  by (simp_all add: emit_def withLedger_def)

lemma attemptSend_post:
  assumes inv: "inv (gw_ledger gw)" and reply: "reply_ok (ae_reply env)"
    and run: "attemptSend f exec env fc ch stream gw = (gw', r)"
  shows "send_post fc env gw gw' r"
proof -
  have noop: "send_post fc env gw gw' r"
    if "\<exists>k e. (gw', r) = (gw, Inl (mkOutcome k e)) \<and> (k = outcomeNeutral \<or> k = outcomeChannelError)"
    using send_post_noop(1) [OF inv kept_refl [OF inv], of _ fc env] that
    by (auto simp: withLedger_commute)
  show ?thesis
  proof (cases "ae_cancelled env 0 \<or> fw_adapters f (ch_Format ch) = None")
    case True
    show ?thesis
    proof (cases "ae_cancelled env 0")
      case True
      then show ?thesis using run by - (rule noop, auto simp: attemptSend_def)
    next
      case False
      then show ?thesis using run True by - (rule noop, auto simp: attemptSend_def)
    qed
  next
    case False
    then obtain a where a: "\<not> ae_cancelled env 0" "fw_adapters f (ch_Format ch) = Some a" by auto
    note run1 = run [unfolded attemptSend_def, simplified a if_False option.case]
    show ?thesis
    proof (cases "buildUpstreamBody f fc ch a stream")
      case (Inl e)
      then show ?thesis using run1 by - (rule noop, auto)
    next
      case body: (Inr body)
      show ?thesis
      proof (cases "ae_cancelled env 1 \<or> prepareRequest f env ch \<noteq> None \<or> ae_cancelled env 2")
        case True
        then show ?thesis using run1 by - (rule noop, auto simp: body split: if_splits option.splits)
      next
        case F: False
        obtain l1 q where mark: "BillingMarkInFlight exec (ae_mark env) (fc_res fc) (ch_ID ch) (gw_ledger gw) = (l1, q)"
          by fastforce
        have k1: "kept (gw_ledger gw) l1"
          using exec_kept [OF inv] mark by (simp add: BillingMarkInFlight_def)
        obtain l2 q2 where rel: "BillingReleaseAttempt exec (ae_release env) (fc_res fc) l1 = (l2, q2)" by fastforce
        have k2: "kept (gw_ledger gw) l2"
          using kept_trans [OF k1 exec_kept [OF kept_inv [OF k1]]] rel by (simp add: BillingReleaseAttempt_def)
        note run2 = run1 [simplified body sum.case if_False F a]
        show ?thesis
        proof (cases q)
          case (Inl e)
          then show ?thesis
            using run1 F send_post_noop [OF inv k2, of _ fc env]
            by (cases q2) (auto simp: body a mark rel)
        next
          case (Inr x)
          have s1: "sent (r_ID (fc_res fc)) (abs l1)"
            using mark_sent [OF inv] mark Inr by (auto simp: BillingMarkInFlight_def)
          note called = send_post_called [where i = "ch_ID ch" and body = body and fc = fc and env = env and gw = gw]
          show ?thesis
          proof (cases "sendUpstream stream (ae_reply env)")
            case resp: (Inr resp)
            obtain status h bytes err where x: "resp = (status, h, bytes, err)" by (cases resp)
            have "r = Inr (a, status, h, bytes, err)" "gw' = withLedger l1 (emit (Called (ch_ID ch) body (ae_reply env)) gw)"
              using run1 F Inr resp by (auto simp: body a mark Let_def x withLedger_commute)
            then show ?thesis using k1 s1 sendUpstream_ok [OF resp [unfolded x]]
              by (auto simp: send_post_def attempt_post_def)
          next
            case err: (Inl e)
            show ?thesis
            proof (cases "errors_is e ErrUpstreamNotDialed")
              case True
              then have nc: "\<not> mayConsume (ae_reply env)" using sendUpstream_err [OF err reply] by blast
              have "\<exists>k e' c. gw' = withLedger l2 (emit (Called (ch_ID ch) body (ae_reply env)) gw) \<and>
                  r = Inl ((mkOutcome k e')\<lparr>oc_consumed := c\<rparr>) \<and> (k = outcomeNeutral \<or> k = outcomeChannelError)"
                using run1 F Inr err True
                by (cases q2) (auto simp: body a mark rel Let_def withLedger_commute split: if_splits
                    intro: exI [of _ False] mkOutcome_consumed [symmetric])
              then show ?thesis using called [OF k2] nc by blast
            next
              case False
              then have "\<exists>k e'. gw' = withLedger l1 (emit (Called (ch_ID ch) body (ae_reply env)) gw) \<and>
                  r = Inl ((mkOutcome k e')\<lparr>oc_consumed := True\<rparr>) \<and> (k = outcomeNeutral \<or> k = outcomeChannelError)"
                using run1 F Inr err by (auto simp: body a mark Let_def withLedger_commute split: if_splits; blast)
              then show ?thesis using called [OF k1] s1 by blast
            qed
          qed
        qed
      qed
    qed
  qed
qed

lemma BillingRelease_kept:
  assumes "inv s" "BillingReleaseAttempt exec e r s = (s', q)"
  shows "kept s s'"
  using exec_kept [OF assms(1)] assms(2) by (simp add: BillingReleaseAttempt_def)

text \<open>What the part after the reply of an attempt promises: the writes make at most one response, a
  channel error that did not commit has written nothing, and unless the status proves that nothing was
  consumed the attempt says that it was.\<close>

definition reply_post :: "('d, 'n) forward_ctx \<Rightarrow> http_reply \<Rightarrow> 's gateway \<Rightarrow> 's gateway \<Rightarrow> ('d, 'n) outcome \<Rightarrow> bool" where
  "reply_post fc reply gw gw' oc \<longleftrightarrow> kept (gw_ledger gw) (gw_ledger gw') \<and>
     (\<exists>ws. quiet gw gw' ws \<and> oneResponse ws \<and>
        (oc_kind oc = outcomeChannelError \<longrightarrow> \<not> oc_committed oc \<longrightarrow> ws = [])) \<and>
     (oc_settled oc \<longrightarrow> oc_consumed oc) \<and>
     (mayConsume reply \<longrightarrow> sent (r_ID (fc_res fc)) (abs (gw_ledger gw)) \<longrightarrow>
        oc_consumed oc \<and> sent (r_ID (fc_res fc)) (abs (gw_ledger gw')))"

lemma rejectStatus_post:
  assumes inv: "inv (gw_ledger gw)" and run: "rejectStatus f exec env fc a status h body gw = (gw', oc)"
  shows "reply_post fc (HttpResp status h' b e) gw gw' oc"
proof -
  obtain l q where rel: "BillingReleaseAttempt exec (ae_release env) (fc_res fc) (gw_ledger gw) = (l, q)" by fastforce
  note k = BillingRelease_kept [OF inv rel]
  obtain w where w: "quiet gw (relay f fc status body h a gw) [w]" "isResponse w" using quiet_relay by blast
  obtain w' where "quiet (withLedger l gw) (relay f fc status body h a (withLedger l gw)) [w']" and w': "isResponse w'"
    using quiet_relay by blast
  note quiet = w(1) quiet_withLedger [of gw l] quiet_trans [OF quiet_withLedger this(1)]
  show ?thesis
  proof (cases "definitelyUnconsumedStatus status")
    case True
    then show ?thesis using run k quiet
      by (cases q) (auto simp: rejectStatus_def rel reply_post_def mayConsume_def mkOutcome_def relay_simps
          oneResponse_def w' split: if_splits)
  next
    case False
    then show ?thesis using run w kept_refl [OF inv] quiet
      by (auto simp: rejectStatus_def reply_post_def mkOutcome_def relay_simps oneResponse_def)
  qed
qed

lemma finishAttempt_post:
  assumes inv: "inv (gw_ledger gw)"
    and run: "finishAttempt f exec env fc ch kind e exact u committed gw = (gw', oc)"
  shows "kept (gw_ledger gw) (gw_ledger gw')"
    "sent i (abs (gw_ledger gw)) \<Longrightarrow> sent i (abs (gw_ledger gw'))"
    "oc_kind oc = kind" "oc_consumed oc" "oc_committed oc \<longleftrightarrow> committed \<or> kind = outcomeChannelError"
    "\<exists>ws. quiet gw gw' ws \<and> ended committed ws"
    "kind = outcomeChannelError \<or> (quiet gw gw' [])"
proof -
  obtain gw1 st where fs: "fwSettle f exec env fc ch (if exact then u else inexactUsage u) gw = (gw1, st)" by fastforce
  note fk = fwSettle_kept [OF inv fs]
  have q: "quiet gw gw1 []" using fk(3,4) by (auto simp: quiet_def intro: exI [of _ "[]"])
  show "kept (gw_ledger gw) (gw_ledger gw')"
    "sent i (abs (gw_ledger gw)) \<Longrightarrow> sent i (abs (gw_ledger gw'))"
    "oc_kind oc = kind" "oc_consumed oc" "oc_committed oc \<longleftrightarrow> committed \<or> kind = outcomeChannelError"
    using run fk(1,2) by (auto simp: finishAttempt_def Let_def fs mkOutcome_def split: if_splits)
  show "\<exists>ws. quiet gw gw' ws \<and> ended committed ws"
  proof (cases "kind = outcomeChannelError \<and> \<not> committed")
    case True
    then have "gw' = writeError f (fc_clientFormat fc) 502 ''upstream_error''
        ''upstream stream incomplete, billed at the reserved bound'' gw1"
      using run by (auto simp: finishAttempt_def Let_def fs)
    then show ?thesis using True quiet_trans [OF q quiet_writeError] ended_error by fastforce
  next
    case False
    then have "gw' = gw1" using run by (auto simp: finishAttempt_def Let_def fs)
    then show ?thesis using q ended_Nil by blast
  qed
  show "kind = outcomeChannelError \<or> quiet gw gw' []"
    using run q by (auto simp: finishAttempt_def Let_def fs split: if_splits)
qed

definition loop_post :: "string \<Rightarrow> bool \<Rightarrow> 's gateway \<Rightarrow> 's gateway \<Rightarrow> ('d, 'n) outcome \<Rightarrow> bool" where
  "loop_post i committed gw gw' oc \<longleftrightarrow> kept (gw_ledger gw) (gw_ledger gw') \<and>
     (sent i (abs (gw_ledger gw)) \<longrightarrow> sent i (abs (gw_ledger gw'))) \<and> oc_consumed oc \<and>
     (oc_kind oc = outcomeChannelError \<longrightarrow> oc_committed oc) \<and>
     (\<exists>ws. quiet gw gw' ws \<and> ended committed ws)"

lemma finish_loop_post:
  assumes "inv (gw_ledger gw1)" "quiet gw gw1 ws" "gw_ledger gw1 = gw_ledger gw" "streamed committed committed1 ws"
    and "finishAttempt f exec env fc ch kind e exact u committed1 gw1 = (gw', oc)"
  shows "loop_post i committed gw gw' oc"
  using finishAttempt_post [OF assms(1,5)] assms(2-4) quiet_trans streamed_ended
  unfolding loop_post_def by metis

lemma streamLoop_post_aux:
  "inv (gw_ledger gw) \<Longrightarrow> exe = exec \<Longrightarrow>
   streamLoop f exe env fc ch a reader dec enc acc committed k gw = (gw', oc) \<Longrightarrow> loop_post i committed gw gw' oc"
proof (induction f exe env fc ch a reader dec enc acc committed k gw rule: streamLoop.induct)
  case (1 f exe env fc ch a reader dec enc acc committed k gw)
  note exe = "1.prems"(2)
  note step = "1.prems"(3) [unfolded exe streamLoop.simps [of f exec env fc ch a reader]]
  note early = finish_loop_post [OF "1.prems"(1) quiet_refl HOL.refl streamed_refl]
  obtain x reader' where nx: "Next reader = (x, reader')" by fastforce
  show ?case
  proof (cases x)
    case (Inl e)
    then show ?thesis using step early by (auto simp: nx Let_def split: if_splits)
  next
    case rec: (Inr rec)
    obtain y dec' where dc: "ad_Decode a rec dec = (y, dec')" by fastforce
    show ?thesis
    proof (cases y)
      case (Inl e)
      then show ?thesis using step early by (auto simp: nx rec dc Let_def split: if_splits)
    next
      case ev: (Inr events)
      obtain acc' er where acc: "recordStep events acc = (acc', er)" by fastforce
      let ?out = "if canPassthrough fc ch
         then (case writeAll env k (writeSSERecord rec) (commitSSE committed gw) of
                 (gw1, k1, ok1) \<Rightarrow> (gw1, enc, True, k1, ok1))
         else encodeEvents (fc_clientAdapter fc) env events enc committed k gw"
      obtain gw1 enc' c' k' ok where out: "?out = (gw1, enc', c', k', ok)" by (metis prod_cases5)
      have q: "\<exists>ws. quiet gw gw1 ws \<and> streamed committed c' ws" "gw_ledger gw1 = gw_ledger gw"
        using out by (auto split: if_splits prod.splits dest: commit_writeAll encodeEvents_quiet)
      then obtain ws where ws: "quiet gw gw1 ws" "streamed committed c' ws" by blast
      have inv1: "inv (gw_ledger gw1)" using "1.prems"(1) q(2) by simp
      note fin = finish_loop_post [OF inv1 ws(1) q(2) ws(2)]
      note step' = step [unfolded nx rec dc ev acc out Let_def prod.case sum.case]
      show ?thesis
      proof (cases "ok \<and> er = None \<and> \<not> sa_protocolCompleted acc'")
        case True
        then have loop: "streamLoop f exec env fc ch a reader' dec' enc' acc' c' k' gw1 = (gw', oc)"
          using step' by simp
        have "loop_post i c' gw1 gw' oc"
          using "1.IH" nx rec dc ev acc out True inv1 loop exe by simp
        then show ?thesis using ws q(2) quiet_trans streamed_ended unfolding loop_post_def by metis
      next
        case False
        then show ?thesis using step' fin by (auto split: if_splits option.splits)
      qed
    qed
  qed
qed

lemmas streamLoop_post = streamLoop_post_aux [OF _ HOL.refl]

lemma loop_reply_post:
  assumes "loop_post (r_ID (fc_res fc)) c gw1 gw' oc" "\<not> c"
    and "gw_ledger gw1 = gw_ledger gw" "quiet gw gw1 []"
  shows "reply_post fc reply gw gw' oc"
proof -
  obtain ws where "quiet gw1 gw' ws" "oneResponse ws" using assms(1,2) by (auto simp: loop_post_def ended_def)
  moreover have "quiet gw gw' ws" using quiet_trans [OF assms(4) \<open>quiet gw1 gw' ws\<close>] by simp
  ultimately show ?thesis using assms(1,3) by (auto simp: loop_post_def reply_post_def)
qed

lemma forwardStream_reply:
  assumes inv: "inv (gw_ledger gw)" and ok: "\<not> isReject status"
    and run: "(let gw2 = gw\<lparr>gw_header := hdr\<rparr> in
             if \<not> ae_flusher env then
               finishAttempt f exec env fc ch outcomeNeutral None False zeroUsage False
                 (writeError f (fc_clientFormat fc) 500 ''internal_error'' ''streaming not supported'' gw2)
             else streamLoop f exec env fc ch a (newSSEReader bytes err) (ad_newDecoder a)
                    (ad_newEncoder (fc_clientAdapter fc)) newStreamAcc False 0 gw2) = (gw', oc)"
  shows "reply_post fc reply gw gw' oc"
proof (cases "ae_flusher env")
  case True
  then have "loop_post (r_ID (fc_res fc)) False (gw\<lparr>gw_header := hdr\<rparr>) gw' oc"
    using run inv by (intro streamLoop_post) (simp_all add: Let_def)
  from loop_reply_post [OF this] show ?thesis by (simp add: quiet_header)
next
  case False
  let ?gw1 = "writeError f (fc_clientFormat fc) 500 ''internal_error'' ''streaming not supported'' (gw\<lparr>gw_header := hdr\<rparr>)"
  have fin: "finishAttempt f exec env fc ch outcomeNeutral None False zeroUsage False ?gw1 = (gw', oc)"
    using run False by (simp add: Let_def)
  have "inv (gw_ledger ?gw1)" using inv by simp
  note post = finishAttempt_post [OF this fin]
  have "quiet gw gw' [WriteError (fw_adapters f) (fc_clientFormat fc) 500 ''internal_error'' ''streaming not supported'']"
    using quiet_trans [OF quiet_trans [OF quiet_header quiet_writeError]] post(7) by fastforce
  then show ?thesis using post by (auto simp: reply_post_def oneResponse_def)
qed

lemma success_reply:
  assumes inv: "inv (gw_ledger gw)" and fs: "fwSettle f exec env fc ch u (gw\<lparr>gw_header := hdr\<rparr>) = (gw1, settled)"
    and w: "isResponse w"
  shows "reply_post fc reply gw (emit (Wrote w) gw1)
    ((mkOutcome outcomeSuccess None)\<lparr>oc_consumed := True, oc_settled := settled, oc_committed := True\<rparr>)"
proof -
  have inv': "inv (gw_ledger (gw\<lparr>gw_header := hdr\<rparr>))" using inv by simp
  note fk = fwSettle_kept [OF this fs]
  have "quiet gw gw1 []" using fk(3,4) by (auto simp: quiet_def)
  from quiet_trans [OF this quiet_write [of gw1 w]] show ?thesis
    using fk(1,2) w by (auto simp: reply_post_def mkOutcome_def oneResponse_def)
qed

lemma forwardNonStream_reply:
  assumes inv: "inv (gw_ledger gw)"
    and run: "(let gw2 = gw\<lparr>gw_header := hdr\<rparr>;
                 success = (\<lambda>settled. (mkOutcome outcomeSuccess None)
                    \<lparr>oc_consumed := True, oc_settled := settled, oc_committed := True\<rparr>)
             in case ad_ParseResponse a body of
                  Inl _ \<Rightarrow>
                    (let (gw3, settled) = fwSettle f exec env fc ch zeroUsage gw2
                     in (writeError f (fc_clientFormat fc) 502 ''upstream_error'' ''upstream response cannot be billed safely'' gw3,
                         success settled))
                | Inr canonResp \<Rightarrow>
                    (let (gw3, settled) = fwSettle f exec env fc ch (rs_Usage canonResp) gw2 in
                     if canPassthrough fc ch then (emit (Wrote (CData 200 body)) gw3, success settled)
                     else (case ad_BuildResponse (fc_clientAdapter fc) (canonResp\<lparr>rs_Model := fc_clientModel fc\<rparr>) of
                             Inl _ \<Rightarrow>
                               (writeError f (fc_clientFormat fc) 500 ''internal_error'' ''building the response failed'' gw3,
                                success settled)
                           | Inr out \<Rightarrow> (emit (Wrote (CData 200 out)) gw3, success settled)))) = (gw', oc)"
  shows "reply_post fc reply gw gw' oc"
proof -
  obtain u where u: "u = (case ad_ParseResponse a body of Inl _ \<Rightarrow> zeroUsage | Inr cr \<Rightarrow> rs_Usage cr)" by blast
  obtain gw3 settled where fs: "fwSettle f exec env fc ch u (gw\<lparr>gw_header := hdr\<rparr>) = (gw3, settled)" by fastforce
  have "\<exists>w. isResponse w \<and> gw' = emit (Wrote w) gw3 \<and>
      oc = (mkOutcome outcomeSuccess None)\<lparr>oc_consumed := True, oc_settled := settled, oc_committed := True\<rparr>"
    using run fs u
    by (auto simp: Let_def writeError_def split: sum.splits if_splits
        intro: isResponse_WriteError isResponse_CData)
  then show ?thesis using success_reply [OF inv fs] by blast
qed

text \<open>A whole attempt.\<close>

definition try_post :: "('d, 'n) forward_ctx \<Rightarrow> 'e attempt_env \<Rightarrow> 's gateway \<Rightarrow> 's gateway \<Rightarrow> ('d, 'n) outcome \<Rightarrow> bool" where
  "try_post fc env gw gw' oc \<longleftrightarrow> kept (gw_ledger gw) (gw_ledger gw') \<and> (oc_settled oc \<longrightarrow> oc_consumed oc) \<and>
     (\<exists>es. attempt_post (\<lambda>l. sent (r_ID (fc_res fc)) (abs l)) (oc_consumed oc) gw gw' es (ae_reply env) \<and>
        oneResponse (writes es) \<and> (oc_kind oc = outcomeChannelError \<longrightarrow> \<not> oc_committed oc \<longrightarrow> writes es = []))"

lemma try_post_early: "send_post fc env gw gw' (Inl oc) \<Longrightarrow> try_post fc env gw gw' oc"
  by (auto simp: send_post_def try_post_def oneResponse_def)

lemma try_post_reply:
  assumes "send_post fc env gw gw1 (Inr x)" "reply_post fc (ae_reply env) gw1 gw' oc"
  shows "try_post fc env gw gw' oc"
proof -
  obtain es where es: "kept (gw_ledger gw) (gw_ledger gw1)" "gw_effects gw1 = gw_effects gw @ es" "gw_router gw1 = gw_router gw"
    "permits es = []" "calls es = [ae_reply env]" "writes es = []" "sent (r_ID (fc_res fc)) (abs (gw_ledger gw1))"
    using assms(1) by (auto simp: send_post_def attempt_post_def split: prod.splits)
  obtain ws es' where r: "kept (gw_ledger gw1) (gw_ledger gw')" "gw_router gw' = gw_router gw1"
    "gw_effects gw' = gw_effects gw1 @ es'" "calls es' = []" "permits es' = []" "writes es' = ws" "oneResponse ws"
    "oc_kind oc = outcomeChannelError \<longrightarrow> \<not> oc_committed oc \<longrightarrow> ws = []" "oc_settled oc \<longrightarrow> oc_consumed oc"
    "mayConsume (ae_reply env) \<longrightarrow> oc_consumed oc \<and> sent (r_ID (fc_res fc)) (abs (gw_ledger gw'))"
    using assms(2) es(7) by (auto simp: reply_post_def quiet_def)
  show ?thesis unfolding try_post_def attempt_post_def
    using es r kept_trans by (auto intro!: exI [of _ "es @ es'"])
qed

lemma tryCandidate_post:
  assumes inv: "inv (gw_ledger gw)" and reply: "reply_ok (ae_reply env)"
    and run: "tryCandidate f exec env fc ch gw = (gw', oc)"
  shows "try_post fc env gw gw' oc"
proof -
  obtain gw1 r where send: "attemptSend f exec env fc ch (rq_Stream (fc_req fc)) gw = (gw1, r)" by fastforce
  note sp = attemptSend_post [OF inv reply send]
  show ?thesis
  proof (cases r)
    case (Inl oc')
    then show ?thesis using run send sp try_post_early
      by (auto simp: tryCandidate_def forwardStream_def forwardNonStream_def split: if_splits)
  next
    case (Inr x)
    obtain a status h body err where x: "x = (a, status, h, body, err)" by (cases x)
    have inv1: "inv (gw_ledger gw1)" using sp by (auto simp: send_post_def kept_def)
    obtain b e where rep: "ae_reply env = HttpResp status h b e" using sp by (auto simp: send_post_def Inr x)
    show ?thesis
    proof (cases "isReject status")
      case True
      then have "\<exists>body'. rejectStatus f exec env fc a status h body' gw1 = (gw', oc)"
        using run send
        by (auto simp: tryCandidate_def forwardStream_def forwardNonStream_def Inr x isReject_def split: if_splits)
      then have "reply_post fc (ae_reply env) gw1 gw' oc" using rejectStatus_post [OF inv1] by (auto simp: rep)
      then show ?thesis using try_post_reply sp by (simp add: Inr)
    next
      case False
      note run' = run [unfolded tryCandidate_def forwardStream_def forwardNonStream_def]
      have "reply_post fc (ae_reply env) gw1 gw' oc"
      proof (cases "rq_Stream (fc_req fc)")
        case True
        show ?thesis
          by (rule forwardStream_reply [OF inv1 False]) (use run' send True False in \<open>simp add: Inr x isReject_def\<close>)
      next
        case F: False
        show ?thesis
          by (rule forwardNonStream_reply [OF inv1]) (use run' send F False in \<open>simp add: Inr x isReject_def\<close>)
      qed
      then show ?thesis using try_post_reply sp by (simp add: Inr)
    qed
  qed
qed

text \<open>The whole loop: as for an attempt, and every call but the last left nothing that could be charged.\<close>

definition cand_post :: "string \<Rightarrow> 's gateway \<Rightarrow> 's gateway \<Rightarrow> bool \<Rightarrow> bool \<Rightarrow> bool" where
  "cand_post i gw gw' consumed settled \<longleftrightarrow> kept (gw_ledger gw) (gw_ledger gw') \<and> (settled \<longrightarrow> consumed) \<and>
     (\<exists>es. gw_effects gw' = gw_effects gw @ es \<and> oneResponse (writes es) \<and> paired (permits es) \<and>
        (\<forall>reply \<in> set (butlast (calls es)). \<not> mayConsume reply) \<and>
        (calls es \<noteq> [] \<longrightarrow> mayConsume (last (calls es)) \<longrightarrow> consumed \<and> sent i (abs (gw_ledger gw'))))"

lemma cand_post_prefix:
  assumes "kept (gw_ledger gw) (gw_ledger gw1)" "gw_effects gw1 = gw_effects gw @ es" "writes es = []"
    and "paired (permits es)" "\<forall>reply \<in> set (calls es). \<not> mayConsume reply"
    and "cand_post i gw1 gw' consumed settled"
  shows "cand_post i gw gw' consumed settled"
proof -
  obtain es' where es': "gw_effects gw' = gw_effects gw1 @ es'" "oneResponse (writes es')" "paired (permits es')"
    "\<forall>reply \<in> set (butlast (calls es')). \<not> mayConsume reply"
    "calls es' \<noteq> [] \<longrightarrow> mayConsume (last (calls es')) \<longrightarrow> consumed \<and> sent i (abs (gw_ledger gw'))"
    using assms(6) by (auto simp: cand_post_def)
  have last': "calls (es @ es') \<noteq> [] \<longrightarrow> mayConsume (last (calls (es @ es'))) \<longrightarrow> consumed \<and> sent i (abs (gw_ledger gw'))"
    using es'(5) assms(5) by (cases "calls es' = []") (auto dest: last_in_set)
  have "\<forall>reply \<in> set (butlast (calls (es @ es'))). \<not> mayConsume reply"
    using es'(4) assms(5) by (auto simp: butlast_append dest: in_set_butlastD)
  with last' show ?thesis
    unfolding cand_post_def using assms es' kept_trans paired_append
    by (auto simp: cand_post_def intro!: exI [of _ "es @ es'"])
qed

lemma cand_post_stop:
  assumes "try_post fc ae gw1 gw2 oc" "gw_effects gw1 = gw_effects gw @ [Granted a]" "gw_ledger gw1 = gw_ledger gw"
    and "map_of (ro_heap (gw_router gw1)) a \<noteq> None"
    and "gw3 = report a permit now res gw2" "i = r_ID (fc_res fc)"
  shows "cand_post i gw gw3 (oc_consumed oc) (oc_settled oc)"
    and "oc_kind oc = outcomeChannelError \<Longrightarrow> \<not> oc_committed oc \<Longrightarrow>
           cand_post i gw (writeError f p st t msg gw3) (oc_consumed oc) (oc_settled oc)"
    and "oc_kind oc = outcomeChannelError \<Longrightarrow> \<not> oc_committed oc \<Longrightarrow> \<not> oc_consumed oc \<Longrightarrow>
           cand_post i gw3 gw' c stl \<Longrightarrow> cand_post i gw gw' c stl"
proof -
  obtain es where es: "kept (gw_ledger gw1) (gw_ledger gw2)" "oc_settled oc \<longrightarrow> oc_consumed oc"
    "gw_effects gw2 = gw_effects gw1 @ es" "gw_router gw2 = gw_router gw1" "permits es = []"
    "calls es = [] \<or> calls es = [ae_reply ae]"
    "calls es \<noteq> [] \<longrightarrow> mayConsume (ae_reply ae) \<longrightarrow> oc_consumed oc \<and> sent i (abs (gw_ledger gw2))"
    "oneResponse (writes es)" "oc_kind oc = outcomeChannelError \<longrightarrow> \<not> oc_committed oc \<longrightarrow> writes es = []"
    using assms(1,6) by (auto simp: try_post_def attempt_post_def)
  have rep: "gw_effects gw3 = gw_effects gw @ (Granted a # es @ [Reported a res])" "gw_ledger gw3 = gw_ledger gw2"
    using report_simps [of gw2 a permit now res] assms(2,4,5) es(3,4) by auto
  note k = es(1) [unfolded assms(3)]
  show "cand_post i gw gw3 (oc_consumed oc) (oc_settled oc)"
    unfolding cand_post_def using k es rep by (auto intro!: exI [of _ "Granted a # es @ [Reported a res]"])
  show "cand_post i gw (writeError f p st t msg gw3) (oc_consumed oc) (oc_settled oc)"
    if "oc_kind oc = outcomeChannelError" "\<not> oc_committed oc"
    unfolding cand_post_def using k es rep that
    by (auto simp: oneResponse_def
        intro!: exI [of _ "Granted a # es @ [Reported a res, Wrote (WriteError (fw_adapters f) p st t msg)]"])
  show "cand_post i gw gw' c stl"
    if "oc_kind oc = outcomeChannelError" "\<not> oc_committed oc" "\<not> oc_consumed oc" "cand_post i gw3 gw' c stl"
    by (rule cand_post_prefix [OF _ rep(1) _ _ _ that(4)]) (use k es rep that in auto)
qed

lemma cand_post_write:
  assumes "inv (gw_ledger gw)" "quiet gw gw' ws" "gw_ledger gw' = gw_ledger gw" "oneResponse ws"
  shows "cand_post i gw gw' False False"
  using assms kept_refl [OF assms(1)] by (auto simp: cand_post_def quiet_def)

lemma candidateLoop_post:
  "inv (gw_ledger gw) \<Longrightarrow> (\<And>k. reply_ok (ae_reply (fe_attempts env k))) \<Longrightarrow>
     candidateLoop f exec env fc n cands lastUp gw = (gw', consumed, settled) \<Longrightarrow>
     cand_post (r_ID (fc_res fc)) gw gw' consumed settled"
proof (induction cands arbitrary: n lastUp gw)
  case Nil
  have "\<exists>w. quiet gw gw' [w] \<and> isResponse w \<and> gw_ledger gw' = gw_ledger gw"
    using Nil(3) quiet_error quiet_relay by (cases lastUp) (auto simp: relay_simps)
  moreover have "\<not> consumed" "\<not> settled" using Nil(3) by auto
  ultimately show ?case using cand_post_write [OF Nil(1)] by (auto simp: oneResponse_def)
next
  case (Cons cand cands)
  note IH = Cons.IH [OF _ Cons.prems(2)]
  show ?case
  proof (cases "fe_cancelled env n")
    case True
    then show ?thesis using Cons.prems(1,3) cand_post_write [OF _ quiet_refl] by (auto simp: oneResponse_def)
  next
    case go: False
    show ?thesis
    proof (cases "map_of (ro_heap (gw_router gw)) (cd_Breaker cand)")
      case None
      then show ?thesis using Cons.prems(1,3) IH go by auto
    next
      case b: (Some b)
      obtain b' q where al: "Allow (ae_allowAt (fe_attempts env n)) b = (b', q)" by fastforce
      show ?thesis
      proof (cases q)
        case None
        have "cand_post (r_ID (fc_res fc)) (setBreaker (cd_Breaker cand) b' gw) gw' consumed settled"
          using Cons.prems(1,3) go b al None by (intro IH) (auto simp: Let_def)
        then show ?thesis
          by (rule cand_post_prefix [where es = "[]", rotated -1]) (use Cons.prems(1) kept_refl in auto)
      next
        case (Some permit)
        let ?gw1 = "emit (Granted (cd_Breaker cand)) (setBreaker (cd_Breaker cand) b' gw)"
        let ?ae = "fe_attempts env n"
        obtain gw2 oc where t: "tryCandidate f exec ?ae fc (cd_Channel cand) ?gw1 = (gw2, oc)" by fastforce
        have "try_post fc ?ae ?gw1 gw2 oc" using Cons.prems(1,2) by (intro tryCandidate_post [OF _ _ t]) simp_all
        then have tp: "try_post fc ?ae ?gw1 gw2 oc" "inv (gw_ledger gw2)" by (simp_all add: try_post_def kept_def)
        have heap: "map_of (ro_heap (gw_router ?gw1)) (cd_Breaker cand) \<noteq> None" by (simp add: setBreaker_def)
        note stop = cand_post_stop [OF tp(1) _ _ heap HOL.refl HOL.refl, of gw _ ]
        have inv3: "inv (gw_ledger (report (cd_Breaker cand) permit (ae_recordAt ?ae) breakerFailure gw2))"
          using tp(2) by (simp add: report_def split: option.splits)
        note step = Cons.prems(3) [simplified go b al Some t Let_def candidateLoop.simps if_False option.case prod.case]
        show ?thesis
        proof (cases "oc_kind oc = outcomeChannelError \<and> \<not> oc_committed oc \<and> \<not> oc_consumed oc")
          case True
          then have "cand_post (r_ID (fc_res fc)) (report (cd_Breaker cand) permit (ae_recordAt ?ae) breakerFailure gw2)
              gw' consumed settled"
            using step by (intro IH [OF inv3]) simp
          from stop(3) [OF _ _ _ _ _ this] True show ?thesis by simp
        next
          case False
          then show ?thesis using step stop(1,2) by (cases "oc_kind oc") (auto split: if_splits)
        qed
      qed
    qed
  qed
qed

lemma FacadeReserve_kept:
  assumes "inv s" "FacadeReserve b exec e rand now req s = (l, res, q)"
  shows "kept s l"
    and "q = Inr True \<Longrightarrow> newReservationID rand = Inr (r_ID res) \<and>
           (\<exists>amount maxInput ar. ReservationCost (b_pricing b) (rr_Model req) (rr_MaxOutputTokens req) = Inr (amount, maxInput) \<and>
              map_of (al_res (abs l)) (r_ID res) = Some ar \<and> ar_user ar = rr_UserID req \<and> amount \<le> ar_amount ar \<and>
              (map_of (al_res (abs s)) (r_ID res) = None \<longrightarrow> amount \<le> al_bal (abs s) (rr_UserID req)))"
proof -
  show "kept s l" using assms kept_refl exec_kept
    by (auto simp: FacadeReserve_def Let_def split: sum.splits prod.splits if_splits)
  assume q: "q = Inr True"
  have ex: "exec e (LReserve res) s = (l, q) \<and> newReservationID rand = Inr (r_ID res) \<and> r_UserID res = rr_UserID req \<and>
      (\<exists>amount maxInput. ReservationCost (b_pricing b) (rr_Model req) (rr_MaxOutputTokens req) = Inr (amount, maxInput) \<and>
         amount \<le> r_Amount res)"
    using assms(2) q by (auto simp: FacadeReserve_def Let_def split: sum.splits prod.splits if_splits)
  then show "newReservationID rand = Inr (r_ID res) \<and>
           (\<exists>amount maxInput ar. ReservationCost (b_pricing b) (rr_Model req) (rr_MaxOutputTokens req) = Inr (amount, maxInput) \<and>
              map_of (al_res (abs l)) (r_ID res) = Some ar \<and> ar_user ar = rr_UserID req \<and> amount \<le> ar_amount ar \<and>
              (map_of (al_res (abs s)) (r_ID res) = None \<longrightarrow> amount \<le> al_bal (abs s) (rr_UserID req)))"
    using exec_post [OF assms(1), of e "LReserve res"] exec_step [OF assms(1), of e "LReserve res"] q
    by (auto split: if_splits)
qed

definition request_post :: "('d, 'n) forwarder \<Rightarrow> 'e forward_env \<Rightarrow> string \<Rightarrow> 's gateway \<Rightarrow> 's gateway \<Rightarrow> effect list \<Rightarrow> bool" where
  "request_post f env cf gw gw' es \<longleftrightarrow> kept (gw_ledger gw) (gw_ledger gw') \<and>
     gw_effects gw' = gw_effects gw @ es \<and> oneResponse (writes es) \<and> paired (permits es) \<and>
     (\<forall>reply \<in> set (butlast (calls es)). \<not> mayConsume reply) \<and>
     (calls es \<noteq> [] \<longrightarrow> served f env cf (abs (gw_ledger gw)) (abs (gw_ledger gw')) \<and>
        (mayConsume (last (calls es)) \<longrightarrow> (\<exists>i. newReservationID (fe_rand env) = Inr i \<and> sent i (abs (gw_ledger gw')))))"

lemma forward_post:
  assumes inv: "inv (gw_ledger gw)" and reply: "\<And>k. reply_ok (ae_reply (fe_attempts env k))"
    and run: "forward f exec env cf gw = gw'"
  shows "\<exists>es. request_post f env cf gw gw' es"
proof (cases "early gw (gw_ledger gw) gw'")
  case True
  then show ?thesis using kept_refl [OF inv] by (auto simp: early_def request_post_def oneResponse_def)
next
  case False
  from forward_cases [OF run this] show ?thesis
  proof cases
    case (1 a body req0 i n body' r' cands l res q)
    note reserve = FacadeReserve_kept [OF inv 1(10)]
    show ?thesis
    proof (cases "early gw l gw'")
      case True
      then show ?thesis using reserve(1) by (auto simp: early_def request_post_def oneResponse_def)
    next
      case False
      let ?fc = "\<lparr>fc_clientFormat = cf, fc_clientAdapter = a, fc_rawBody = body',
             fc_req = req0\<lparr>rq_MaxTokens := Some n\<rparr>, fc_clientModel = rq_Model req0, fc_res = res,
             fc_requestID = forwardRequestID env\<rparr>"
      obtain gw2 c st where q: "q = Inr True" and loop: "candidateLoop f exec env ?fc 0 cands None
          (withLedger l (gw\<lparr>gw_router := r'\<rparr>)) = (gw2, c, st)"
        and gw': "gw' = (if \<not> c \<and> \<not> st
                 then withLedger (fst (BillingRefund exec (fe_refund env) res (gw_ledger gw2))) gw2 else gw2)"
        using 1(11) False by blast
      have invl: "inv l" by (rule kept_inv [OF reserve(1)])
      then have "cand_post (r_ID (fc_res ?fc)) (withLedger l (gw\<lparr>gw_router := r'\<rparr>)) gw2 c st"
        by (intro candidateLoop_post [OF _ reply loop]) simp
      then obtain es where es: "kept l (gw_ledger gw2)" "st \<longrightarrow> c" "gw_effects gw2 = gw_effects gw @ es"
        "oneResponse (writes es)" "paired (permits es)" "\<forall>reply \<in> set (butlast (calls es)). \<not> mayConsume reply"
        "calls es \<noteq> [] \<longrightarrow> mayConsume (last (calls es)) \<longrightarrow> c \<and> sent (r_ID res) (abs (gw_ledger gw2))"
        by (auto simp: cand_post_def)
      obtain l3 q3 where ref: "exec (fe_refund env) (LRefund (r_ID res)) (gw_ledger gw2) = (l3, q3)" by fastforce
      have "kept (gw_ledger gw2) l3" by (rule exec_kept [OF kept_inv [OF es(1)] ref])
      then have k: "kept l (gw_ledger gw')"
        using es(1) kept_trans ref by (auto simp: gw' BillingRefund_def)
      note rs = reserve(2) [OF q]
      obtain amount maxInput ar where ar:
        "ReservationCost (b_pricing (fw_billing f)) (rq_Model req0) n = Inr (amount, maxInput)"
        "map_of (al_res (abs l)) (r_ID res) = Some ar" "ar_user ar = id_UserID i" "amount \<le> ar_amount ar"
        "map_of (al_res (abs (gw_ledger gw))) (r_ID res) = None \<longrightarrow> amount \<le> al_bal (abs (gw_ledger gw)) (id_UserID i)"
        using rs by auto
      obtain ar' where "map_of (al_res (abs (gw_ledger gw'))) (r_ID res) = Some ar'" "evolves ar ar'"
        using kept_evolves [OF invl k ar(2)] by blast
      then have "served f env cf (abs (gw_ledger gw)) (abs (gw_ledger gw'))"
        unfolding served_def evolves_def using 1 ar rs by auto
      moreover have "gw_effects gw' = gw_effects gw @ es" using es(3) by (simp add: gw')
      moreover have "calls es \<noteq> [] \<longrightarrow> mayConsume (last (calls es)) \<longrightarrow> sent (r_ID res) (abs (gw_ledger gw'))"
        using es(7) by (auto simp: gw')
      ultimately show ?thesis
        unfolding request_post_def using es kept_trans [OF reserve(1) k] rs by blast
    qed
  qed
qed

text \<open>What a stream is charged.\<close>

definition charged_at :: "'s \<Rightarrow> string \<Rightarrow> int \<Rightarrow> bool" where
  "charged_at s i c \<longleftrightarrow>
     (\<exists>a. map_of (al_res (abs s)) i = Some a \<and> ar_status a = ReservationSettled \<and> ar_cost a = c)"

lemma finishAttempt_charges:
  assumes "inv (gw_ledger gw)" "finishAttempt f exec env fc ch kind e exact u committed gw = (gw', oc)" "oc_settled oc"
  shows "charged_at (gw_ledger gw') (r_ID (fc_res fc))
    (st_cost (settlementCost (b_pricing (fw_billing f)) (fc_res fc) (if exact then u else inexactUsage u)))"
proof -
  let ?u = "if exact then u else inexactUsage u"
  obtain l q where s: "Settle (fw_billing f) exec (ae_settle env) (fc_res fc) (ch_ID ch) ?u (gw_ledger gw) = (l, q)"
    by fastforce
  have "gw_ledger gw' = l" "q = None"
    using assms(2,3) s by (auto simp: finishAttempt_def fwSettle_def Let_def mkOutcome_def split: if_splits)
  then show ?thesis
    using Settle_settled [OF assms(1), of "fw_billing f" "ae_settle env" "fc_res fc" "ch_ID ch" ?u] s
    by (simp add: charged_at_def)
qed

lemma finish_inexact_charges:
  assumes "inv (gw_ledger gw)" "finishAttempt f exec env fc ch kind e False u committed gw = (gw', oc)" "oc_settled oc"
    and "kind \<noteq> outcomeSuccess"
  shows "\<exists>c. charged_at (gw_ledger gw') (r_ID (fc_res fc)) c \<and>
           stream_charge (b_pricing (fw_billing f)) (fc_res fc) a reader dec acc (oc_kind oc) c"
  using finishAttempt_charges [OF assms(1-3)] finishAttempt_post(3) [OF assms(1,2)] assms(4)
  by (auto simp: stream_charge_def inexact_whole)

lemma streamLoop_charges_aux:
  "inv (gw_ledger gw) \<Longrightarrow> exe = exec \<Longrightarrow>
   streamLoop f exe env fc ch a reader dec enc acc committed k gw = (gw', oc) \<Longrightarrow> oc_settled oc \<Longrightarrow>
   \<exists>c. charged_at (gw_ledger gw') (r_ID (fc_res fc)) c \<and>
       stream_charge (b_pricing (fw_billing f)) (fc_res fc) a reader dec acc (oc_kind oc) c"
proof (induction f exe env fc ch a reader dec enc acc committed k gw rule: streamLoop.induct)
  case (1 f exe env fc ch a reader dec enc acc committed k gw)
  note exe = "1.prems"(2) and settled = "1.prems"(4)
  note step = "1.prems"(3) [unfolded exe streamLoop.simps [of f exec env fc ch a reader]]
  note early = finish_inexact_charges [OF "1.prems"(1) _ settled, where a = a and reader = reader and dec = dec and acc = acc]
  obtain x reader' where nx: "Next reader = (x, reader')" by fastforce
  show ?case
  proof (cases x)
    case (Inl e)
    then show ?thesis using step by (auto simp: nx Let_def split: if_splits intro: early)
  next
    case rec: (Inr rec)
    obtain y dec' where dc: "ad_Decode a rec dec = (y, dec')" by fastforce
    show ?thesis
    proof (cases y)
      case (Inl e)
      then show ?thesis using step by (auto simp: nx rec dc Let_def split: if_splits intro: early)
    next
      case ev: (Inr events)
      obtain acc' er where acc: "recordStep events acc = (acc', er)" by fastforce
      let ?out = "if canPassthrough fc ch
         then (case writeAll env k (writeSSERecord rec) (commitSSE committed gw) of
                 (gw1, k1, ok1) \<Rightarrow> (gw1, enc, True, k1, ok1))
         else encodeEvents (fc_clientAdapter fc) env events enc committed k gw"
      obtain gw1 enc' c' k' ok where out: "?out = (gw1, enc', c', k', ok)" by (metis prod_cases5)
      have "gw_ledger gw1 = gw_ledger gw"
        using out by (auto split: if_splits prod.splits dest: commit_writeAll encodeEvents_quiet)
      then have inv1: "inv (gw_ledger gw1)" using "1.prems"(1) by simp
      note step' = step [unfolded nx rec dc ev acc out Let_def prod.case sum.case]
      have acc': "acc' = addRecord events acc" and er: "er = None \<longleftrightarrow> (\<forall>ev \<in> set events. ev_Type ev \<noteq> EventError)"
        using acc recordStep_err [of events acc] by (simp_all add: addRecord_def)
      consider (go) "ok" "er = None" "\<not> sa_protocolCompleted acc'"
        | (exact) "ok" "er = None" "sa_protocolCompleted acc'" "streamExact acc'"
        | (inexact) "\<not> ok \<or> er \<noteq> None \<or> (sa_protocolCompleted acc' \<and> \<not> streamExact acc')" by blast
      then show ?thesis
      proof cases
        case go
        then have loop: "streamLoop f exec env fc ch a reader' dec' enc' acc' c' k' gw1 = (gw', oc)"
          using step' by simp
        obtain c where c: "charged_at (gw_ledger gw') (r_ID (fc_res fc)) c"
          "stream_charge (b_pricing (fw_billing f)) (fc_res fc) a reader' dec' acc' (oc_kind oc) c"
          using "1.IH" nx rec dc ev acc out go inv1 loop exe settled by simp blast
        have "stream_charge (b_pricing (fw_billing f)) (fc_res fc) a reader dec acc (oc_kind oc) c"
        proof (cases "oc_kind oc = outcomeSuccess")
          case True
          then obtain recs where "decoded a recs reader' dec'" "\<forall>ev \<in> set (concat recs). ev_Type ev \<noteq> EventError"
            "sa_protocolCompleted (fold addRecord recs acc')" "streamExact (fold addRecord recs acc')"
            "c = st_cost (settlementCost (b_pricing (fw_billing f)) (fc_res fc) (streamUsage (fold addRecord recs acc')))"
            using c(2) by (auto simp: stream_charge_def)
          then show ?thesis using True go er unfolding stream_charge_def
            by (auto simp: nx rec dc ev acc' intro!: exI [of _ "events # recs"])
        next
          case False
          then show ?thesis using c(2) by (simp add: stream_charge_def)
        qed
        then show ?thesis using c(1) by blast
      next
        case exact
        then have fin: "finishAttempt f exec env fc ch outcomeSuccess None True (streamUsage acc') c' gw1 = (gw', oc)"
          using step' by simp
        have "stream_charge (b_pricing (fw_billing f)) (fc_res fc) a reader dec acc (oc_kind oc)
            (st_cost (settlementCost (b_pricing (fw_billing f)) (fc_res fc) (streamUsage acc')))"
          using exact er finishAttempt_post(3) [OF inv1 fin] unfolding stream_charge_def
          by (auto simp: nx rec dc ev acc' intro!: exI [of _ "[events]"])
        then show ?thesis using finishAttempt_charges [OF inv1 fin settled] by auto
      next
        case inexact
        then show ?thesis using step'
          by (auto split: if_splits option.splits
              intro: finish_inexact_charges [OF inv1 _ settled, where a = a and reader = reader and dec = dec and acc = acc])
      qed
    qed
  qed
qed

lemmas streamLoop_charges = streamLoop_charges_aux [OF _ HOL.refl]

lemma send_early_unsettled: "send_post fc env gw gw' (Inl oc) \<Longrightarrow> \<not> oc_settled oc"
  by (auto simp: send_post_def)

lemma rejectStatus_unsettled: "rejectStatus f exec env fc a status h body gw = (gw', oc) \<Longrightarrow> \<not> oc_settled oc"
  by (auto simp: rejectStatus_def mkOutcome_def split: if_splits sum.splits prod.splits)

lemma forwardStream_charges:
  assumes inv: "inv (gw_ledger gw)" and reply: "reply_ok (ae_reply env)"
    and run: "forwardStream f exec env fc ch gw = (gw', oc)" and settled: "oc_settled oc"
  shows "\<exists>a status h bytes err c. fw_adapters f (ch_Format ch) = Some a \<and> ae_reply env = HttpResp status h bytes err \<and>
    charged_at (gw_ledger gw') (r_ID (fc_res fc)) c \<and>
    stream_charge (b_pricing (fw_billing f)) (fc_res fc) a (newSSEReader bytes err) (ad_newDecoder a) newStreamAcc (oc_kind oc) c"
proof -
  obtain gw1 r where send: "attemptSend f exec env fc ch True gw = (gw1, r)" by fastforce
  note sp = attemptSend_post [OF inv reply send]
  show ?thesis
  proof (cases r)
    case (Inl oc')
    then show ?thesis using run send settled send_early_unsettled [of fc env gw gw1 oc'] sp by (simp add: forwardStream_def)
  next
    case (Inr x)
    obtain a status h body err where x: "x = (a, status, h, body, err)" by (cases x)
    have inv1: "inv (gw_ledger gw1)" using sp by (auto simp: send_post_def kept_def)
    have rep: "ae_reply env = HttpResp status h body err" and ad: "fw_adapters f (ch_Format ch) = Some a"
      using attemptSend_reply [OF send [unfolded Inr x]] by simp_all
    let ?gw2 = "gw1\<lparr>gw_header := copySafeUpstreamHeaders h (gw_header gw1)\<rparr>"
    let ?gw3 = "writeError f (fc_clientFormat fc) 500 ''internal_error'' ''streaming not supported'' ?gw2"
    have inv2: "inv (gw_ledger ?gw2)" "inv (gw_ledger ?gw3)" using inv1 by simp_all
    have acc: "\<not> (status < 200 \<or> status \<ge> 300)"
      using run send settled by (auto simp: forwardStream_def Inr x dest: rejectStatus_unsettled)
    show ?thesis
    proof (cases "ae_flusher env")
      case True
      then have "streamLoop f exec env fc ch a (newSSEReader body err) (ad_newDecoder a)
          (ad_newEncoder (fc_clientAdapter fc)) newStreamAcc False 0 ?gw2 = (gw', oc)"
        using run send acc by (simp add: forwardStream_def Inr x Let_def)
      from streamLoop_charges [OF inv2(1) this settled] show ?thesis using rep ad by blast
    next
      case False
      then have "finishAttempt f exec env fc ch outcomeNeutral None False zeroUsage False ?gw3 = (gw', oc)"
        using run send acc by (simp add: forwardStream_def Inr x Let_def)
      from finish_inexact_charges [OF inv2(2) this settled, where a = a and reader = "newSSEReader body err"
          and dec = "ad_newDecoder a" and acc = newStreamAcc]
      show ?thesis using rep ad by auto
    qed
  qed
qed

end

end
