(* ===== verification/Gateway.thy ===== *)
theory Gateway
  imports ForwardProps "HOL-Library.Code_Target_Nat"
begin

text \<open>
  The properties of the forwarder on the PostgreSQL ledger: what a request may cost, whom it may reach
  and what the client receives, for every reply of the upstreams, every failure of the database and
  every point of cancellation. The example at the end is a request that fails over from an overloaded
  channel to one that streams, evaluated from its bytes to the settled reservation.
\<close>

section \<open>Properties\<close>

lemma pg_reach_run: "pg_reach d \<Longrightarrow> pg_reach (pg.run ops d)"
  by (induction ops arbitrary: d) (auto intro: pg_reach.exec simp del: pgExec.simps)

lemma forward_pg:
  assumes "pg_reach (gw_ledger gw)" "\<And>k. reply_ok (ae_reply (fe_attempts env k))"
    and "forward f pgExec env cf gw = gw'" "gw_effects gw' = gw_effects gw @ es"
  shows "pgb.request_post f env cf gw gw' es"
  using pgb.forward_post [OF pg_reach_inv [OF assms(1)] assms(2,3)] assms(4)
  by (auto simp: pgb.request_post_def)

text \<open>C1. No charge is lost and none is invented: whatever the upstreams reply and the database does, the
  request leaves a reachable database in which every user has the same worth (balance, held and
  charged); every call but the last left nothing that an upstream could charge; and if the last one
  may have, the reservation stands: no refund of it succeeds afterwards.\<close>

theorem forward_keeps_money:
  assumes "pg_reach (gw_ledger gw)" "\<And>k. reply_ok (ae_reply (fe_attempts env k))"
    and "forward f pgExec env cf gw = gw'" "gw_effects gw' = gw_effects gw @ es"
  shows "pg_reach (gw_ledger gw') \<and> (\<forall>u. worth u (pg_abs (gw_ledger gw')) = worth u (pg_abs (gw_ledger gw))) \<and>
    (\<forall>reply \<in> set (butlast (calls es)). \<not> mayConsume reply) \<and>
    (calls es \<noteq> [] \<and> mayConsume (last (calls es)) \<longrightarrow>
       (\<exists>i. newReservationID (fe_rand env) = Inr i \<and> (\<forall>e. snd (PgRefund e i (gw_ledger gw')) \<noteq> Inr ())))"
proof -
  note post = forward_pg [OF assms, unfolded pgb.request_post_def pgb.kept_def]
  then obtain ops where ops: "gw_ledger gw' = pg.run ops (gw_ledger gw)" by blast
  have inv: "pg_inv (gw_ledger gw)" "pg_inv (gw_ledger gw')" using assms(1) pg_reach_inv post by auto
  have "snd (PgRefund e i (gw_ledger gw')) \<noteq> Inr ()" if "sent i (pg_abs (gw_ledger gw'))" for i e
    using pgb.refund_rejected [OF inv(2) that, of e] by (simp add: unitBool_def split: sum.splits)
  then show ?thesis
    using post ops pg_reach_run [OF assms(1)] pg.run_worth [OF inv(1)] by (metis (no_types, lifting))
qed

text \<open>C2. No upstream is called for a request that was not let in: the key is authenticated and may use
  the model, the worst-case cost of the bounded request is held for the key's owner under the
  request's reservation, and unless that reservation already existed the owner could afford it.\<close>

theorem forward_serves_paid:
  assumes "pg_reach (gw_ledger gw)" "\<And>k. reply_ok (ae_reply (fe_attempts env k))"
    and "forward f pgExec env cf gw = gw'" "gw_effects gw' = gw_effects gw @ es" "calls es \<noteq> []"
  shows "\<exists>a body req i n amount maxInput rid row. fw_adapters f cf = Some a \<and> fe_body env = Inr body \<and>
    ad_ParseRequest a body = Inr req \<and> fe_identity env = Some i \<and> Allows i (rq_Model req) \<and>
    BillingNormalizeMaxOutput (fw_billing f) (rq_Model req) (rq_MaxTokens req) = Inr n \<and>
    ReservationCost (b_pricing (fw_billing f)) (rq_Model req) n = Inr (amount, maxInput) \<and>
    newReservationID (fe_rand env) = Inr rid \<and> map_of (db_reservations (gw_ledger gw')) rid = Some row \<and>
    br_UserID row = id_UserID i \<and> amount \<le> br_Amount row \<and>
    (map_of (db_reservations (gw_ledger gw)) rid = None \<longrightarrow> amount \<le> pg_balance (gw_ledger gw) (id_UserID i))"
proof -
  have "served f env cf (pg_abs (gw_ledger gw)) (pg_abs (gw_ledger gw'))"
    using forward_pg [OF assms(1-4)] assms(5) by (simp add: pgb.request_post_def)
  then show ?thesis unfolding served_def
    by (elim exE conjE) (auto simp: pg_ares_def, blast?)
qed

text \<open>C3. Every breaker permit that a request takes is given back to the same breaker, before the next
  one is taken, so a request never leaves a half-open breaker with a probe that nobody will report.\<close>

theorem forward_returns_permits:
  assumes "pg_reach (gw_ledger gw)" "\<And>k. reply_ok (ae_reply (fe_attempts env k))"
    and "forward f pgExec env cf gw = gw'" "gw_effects gw' = gw_effects gw @ es"
  shows "paired (permits es)"
  using forward_pg [OF assms] by (simp add: pgb.request_post_def)

text \<open>C4. The client receives nothing, exactly one response, or exactly one stream; output of a failed
  attempt is never followed by that of another one or by an error document.\<close>

theorem forward_one_response:
  assumes "pg_reach (gw_ledger gw)" "\<And>k. reply_ok (ae_reply (fe_attempts env k))"
    and "forward f pgExec env cf gw = gw'" "gw_effects gw' = gw_effects gw @ es"
  shows "oneResponse (writes es)"
  using forward_pg [OF assms] by (simp add: pgb.request_post_def)

text \<open>C5. What a settled stream is charged. If the attempt succeeded, it read records of the upstream's
  body up to the end of the protocol, none reported an error, a usable final usage was among them, and
  the charge is the settlement of exactly those records; in every other case (cut off, oversized,
  undecodable, refused by the client, without a final usage) the charge is the whole reservation.\<close>

theorem forwardStream_charge:
  assumes "pg_reach (gw_ledger gw)" "reply_ok (ae_reply env)"
    and "forwardStream f pgExec env fc ch gw = (gw', oc)" "oc_settled oc"
  shows "\<exists>a status h bytes err row. fw_adapters f (ch_Format ch) = Some a \<and> ae_reply env = HttpResp status h bytes err \<and>
    map_of (db_reservations (gw_ledger gw')) (r_ID (fc_res fc)) = Some row \<and> br_Status row = ReservationSettled \<and>
    (if oc_kind oc = outcomeSuccess
     then \<exists>recs. decoded a recs (newSSEReader bytes err) (ad_newDecoder a) \<and>
            (\<forall>ev \<in> set (concat recs). ev_Type ev \<noteq> EventError) \<and>
            sa_protocolCompleted (streamRun recs) \<and> streamExact (streamRun recs) \<and>
            br_Cost row = st_cost (settlementCost (b_pricing (fw_billing f)) (fc_res fc) (streamUsage (streamRun recs)))
     else br_Cost row = r_Amount (fc_res fc))"
proof -
  obtain a status h bytes err c where c: "fw_adapters f (ch_Format ch) = Some a" "ae_reply env = HttpResp status h bytes err"
    "pgb.charged_at (gw_ledger gw') (r_ID (fc_res fc)) c"
    "stream_charge (b_pricing (fw_billing f)) (fc_res fc) a (newSSEReader bytes err) (ad_newDecoder a) newStreamAcc (oc_kind oc) c"
    using pgb.forwardStream_charges [OF pg_reach_inv [OF assms(1)] assms(2-4)] by blast
  then obtain row where row: "map_of (db_reservations (gw_ledger gw')) (r_ID (fc_res fc)) = Some row"
    "br_Status row = ReservationSettled" "br_Cost row = c"
    by (auto simp: pgb.charged_at_def pg_ares_def)
  show ?thesis
    using c(1,2,4) row unfolding stream_charge_def streamRun_addRecord by (auto split: if_splits)
qed

section \<open>Example\<close>

definition exampleParse :: "string \<Rightarrow> request result" where
  "exampleParse body = Inr \<lparr>rq_Model = ''gpt'', rq_System = [], rq_Messages = [], rq_Tools = [], rq_ToolChoice = None,
     rq_MaxTokens = Some 50, rq_Temperature = None, rq_TopP = None, rq_Stop = [],
     rq_Stream = ContainsSub body ''stream'', rq_Metadata = None\<rparr>"

definition exampleFinalUsage :: usage where
  "exampleFinalUsage = zeroUsage\<lparr>u_InputTokens := 10, u_InputTokensKnown := True, u_OutputTokens := 20, u_OutputTokensKnown := True\<rparr>"

definition exampleDecode :: "string \<Rightarrow> unit \<Rightarrow> event list result \<times> unit" where
  "exampleDecode rec s =
     (if rec = ''data: [DONE]'' then Inr [zeroEvent EventMessageStop]
      else Inr [(zeroEvent EventMessageDelta)\<lparr>ev_Usage := Some exampleFinalUsage, ev_UsageFinal := True\<rparr>], s)"

definition exampleAdapter :: "(unit, unit) adapter" where
  "exampleAdapter = \<lparr>ad_ParseRequest = exampleParse, ad_BuildRequest = (\<lambda>_. Inr ''{}''),
     ad_ParseResponse = (\<lambda>_. Inl (ErrOther ''no response'')), ad_BuildResponse = (\<lambda>_. Inr ''{}''), ad_newDecoder = (),
     ad_Decode = exampleDecode, ad_newEncoder = (), ad_Encode = (\<lambda>_ s. (Inr [], s)), ad_ErrorCodec = None\<rparr>"

definition exampleRegistry :: "(unit, unit) registry" where
  "exampleRegistry i = (if i = FormatOpenAI then Some exampleAdapter else None)"

definition exampleUrl :: url where
  "exampleUrl = \<lparr>url_Scheme = ''https'', url_Opaque = [], url_User = None, url_Host = ''h'', url_Path = [], url_RawPath = [],
     url_EscapedPath = [], url_ForceQuery = False, url_RawQuery = [], url_Fragment = []\<rparr>"

definition exampleForwarder :: "(unit, unit) forwarder" where
  "exampleForwarder = \<lparr>fw_adapters = exampleRegistry, fw_billing = exampleBilling, fw_limits = None,
     fw_policy = \<lparr>tp_strict = True, tp_rules = []\<rparr>,
     fw_netlib = exampleNetlib\<lparr>nl_urlParse := \<lambda>_. Some exampleUrl\<rparr>\<rparr>"

definition exampleGptChannel :: "string \<Rightarrow> int \<Rightarrow> channel" where
  "exampleGptChannel i p = \<lparr>ch_ID = i, ch_Name = i, ch_Format = FormatOpenAI, ch_BaseURL = ''u'', ch_APIKey = ''k'',
     ch_Models = [(''gpt'', '''')], ch_Priority = p, ch_Weight = 1, ch_Enabled = True\<rparr>"

definition exampleGateway :: "pg_db gateway" where
  "exampleGateway = \<lparr>gw_router = NewRouter [exampleGptChannel ''a'' 9, exampleGptChannel ''b'' 1] exampleBreakerCfg,
     gw_ledger = \<lparr>db_users = [(''ann'', exampleUser\<lparr>pu_Balance := 5000\<rparr>)], db_reservations = [], db_ledger = [], db_usage = []\<rparr>,
     gw_header = [], gw_effects = []\<rparr>"

definition exampleAttempt :: "http_reply \<Rightarrow> pg_env attempt_env" where
  "exampleAttempt reply = \<lparr>ae_cancelled = (\<lambda>_. False), ae_newRequest = None, ae_mark = goodEnv, ae_release = goodEnv,
     ae_reply = reply, ae_settle = \<lparr>be_calls = (\<lambda>_. goodEnv), be_cancelled = (\<lambda>_. False), be_now = 60\<rparr>,
     ae_flusher = True, ae_writeOk = (\<lambda>_. True), ae_allowAt = 5, ae_recordAt = 6\<rparr>"

definition exampleIdentity :: identity where
  "exampleIdentity = \<lparr>id_KeyID = ''k1'', id_UserID = ''ann'', id_RateLimitPerMin = 60,
     id_AllowedModels = [], id_Enabled = True, id_CreatedAt = 5\<rparr>"

text \<open>The first channel refuses the request as overloaded, the second one streams an answer.\<close>

definition exampleReplies :: "nat \<Rightarrow> http_reply" where
  "exampleReplies n = (if n = 0 then HttpResp 429 [] ''busy'' ErrEOF
     else HttpResp 200 [] (''data: 1'' @ [LF, LF] @ ''data: [DONE]'' @ [LF, LF]) ErrEOF)"

definition exampleForwardEnv :: "pg_env forward_env" where
  "exampleForwardEnv = \<lparr>fe_body = Inr ''{\"model\":\"gpt\",\"stream\":true}'', fe_identity = Some exampleIdentity, fe_requestID = Some ''r'',
     fe_idBytes = Inr [], fe_timeText = [], fe_rand = Inr (replicate 16 7), fe_now = 5, fe_intn = zeroRng, fe_rng = 0,
     fe_reserve = goodEnv, fe_attempts = (\<lambda>n. exampleAttempt (exampleReplies n)), fe_cancelled = (\<lambda>_. False), fe_refund = goodEnv\<rparr>"

definition exampleServed :: "pg_db gateway" where
  "exampleServed = forward exampleForwarder pgExec exampleForwardEnv FormatOpenAI exampleGateway"

section \<open>Witnesses\<close>

text \<open>The overloaded channel is tried first, its permit is given back, the other one streams, and the
  stream is charged for its 30 tokens.\<close>

lemma exampleServed_effects:
  "let gw = exampleServed; es = gw_effects gw in
     calls es = [exampleReplies 0, exampleReplies 1] \<and> length (writes es) = 5 \<and>
     permits es = [Granted 0, Reported 0 breakerFailure, Granted 1, Reported 1 breakerSuccess] \<and>
     map (br_Cost \<circ> snd) (db_reservations (gw_ledger gw)) = [140] \<and> pg_balance (gw_ledger gw) ''ann'' = 4860"
  by code_simp

lemma exampleGateway_reach: "pg_reach (gw_ledger exampleGateway)"
  unfolding exampleGateway_def by (simp, rule pg_reach.new) (simp_all add: exampleUser_def go_int)

lemma example_replies_ok: "reply_ok (ae_reply (fe_attempts exampleForwardEnv k))"
  by (simp add: exampleForwardEnv_def exampleAttempt_def exampleReplies_def reply_ok_def)

lemmas example_forward = exampleGateway_reach example_replies_ok exampleServed_def [symmetric]

lemma example_effects: "gw_effects exampleServed = gw_effects exampleGateway @ gw_effects exampleServed"
  by (simp add: exampleGateway_def)

theorem forward_keeps_money_witness:
  "mayConsume (exampleReplies 1) \<and> \<not> mayConsume (exampleReplies 0) \<and>
   snd (PgRefund goodEnv ''res_07070707070707070707070707070707'' (gw_ledger exampleServed)) \<noteq> Inr ()"
proof -
  have m: "mayConsume (exampleReplies 1)"
    by (simp add: exampleReplies_def mayConsume_def definitelyUnconsumedStatus_def)
  have "newReservationID (fe_rand exampleForwardEnv) = Inr ''res_07070707070707070707070707070707''" by code_simp
  then show ?thesis
    using forward_keeps_money [OF example_forward example_effects] exampleServed_effects m by (simp add: Let_def)
qed

theorem forward_serves_paid_witness: "2800 \<le> pg_balance (gw_ledger exampleGateway) ''ann''"
proof -
  have c: "calls (gw_effects exampleServed) \<noteq> []" using exampleServed_effects by (simp add: Let_def)
  have n: "BillingNormalizeMaxOutput exampleBilling ''gpt'' (Some 50) = Inr 50"
    "ReservationCost examplePricing ''gpt'' 50 = Inr (2800, 1000)" by code_simp+
  show ?thesis
    using forward_serves_paid [OF example_forward example_effects c] n
    by (auto simp: exampleForwarder_def exampleRegistry_def exampleAdapter_def exampleParse_def exampleForwardEnv_def
        exampleIdentity_def exampleBilling_def BillingNew_def exampleGateway_def)
qed

theorem forward_returns_permits_witness:
  "paired [Granted 0, Reported 0 breakerFailure, Granted 1, Reported 1 breakerSuccess]"
  using forward_returns_permits [OF example_forward example_effects] exampleServed_effects by (simp add: Let_def)

theorem forward_one_response_witness: "oneResponse (writes (gw_effects exampleServed)) \<and> length (writes (gw_effects exampleServed)) = 5"
  using forward_one_response [OF example_forward example_effects] exampleServed_effects by (simp add: Let_def)

text \<open>A stream that breaks off is charged the whole reservation.\<close>

definition exampleCtx :: "(unit, unit) forward_ctx" where
  "exampleCtx = \<lparr>fc_clientFormat = FormatOpenAI, fc_clientAdapter = exampleAdapter, fc_rawBody = ''{\"max_completion_tokens\":50}'',
     fc_req = (case exampleParse ''stream'' of Inr q \<Rightarrow> q), fc_clientModel = ''gpt'', fc_res = exampleReservation, fc_requestID = ''r''\<rparr>"

definition exampleReserved :: "pg_db gateway" where
  "exampleReserved = exampleGateway\<lparr>gw_ledger := fst (pgExec goodEnv (LReserve exampleReservation) exampleDb0)\<rparr>"

definition exampleCut :: "pg_db gateway \<times> (unit, unit) outcome" where
  "exampleCut = forwardStream exampleForwarder pgExec (exampleAttempt (HttpResp 200 [] (''data: 1'' @ [LF, LF]) ErrUnexpected))
     exampleCtx (exampleGptChannel ''a'' 9) exampleReserved"

lemma exampleCut_settled: "oc_settled (snd exampleCut) \<and> oc_kind (snd exampleCut) = outcomeChannelError"
  by code_simp

theorem forwardStream_charge_witness:
  "\<exists>row. map_of (db_reservations (gw_ledger (fst exampleCut))) ''res_1'' = Some row \<and> br_Cost row = 40"
proof -
  have r: "pg_reach (gw_ledger exampleReserved)"
    using pg_reach.exec [OF exampleDb0_reach, of goodEnv "LReserve exampleReservation"] by (simp add: exampleReserved_def)
  have ok: "reply_ok (ae_reply (exampleAttempt (HttpResp 200 [] (''data: 1'' @ [LF, LF]) ErrUnexpected)))"
    by (simp add: exampleAttempt_def reply_ok_def)
  have "forwardStream exampleForwarder pgExec (exampleAttempt (HttpResp 200 [] (''data: 1'' @ [LF, LF]) ErrUnexpected))
     exampleCtx (exampleGptChannel ''a'' 9) exampleReserved = (fst exampleCut, snd exampleCut)"
    by (simp add: exampleCut_def)
  from forwardStream_charge [OF r ok this] exampleCut_settled show ?thesis
    by (auto simp: exampleCtx_def exampleReservation_def)
qed

end
