(* ===== verification/RateLimit.thy ===== *)
theory RateLimit
  imports ErrorRelay Store
begin

text \<open>
  The rate limits of \<open>internal/middleware/ratelimit.go\<close> and \<open>authlimit.go\<close>: the Lua token bucket that
  runs atomically in Redis, the middleware that applies it to an API key, to an account, to a source
  address and to a login name, and the counting semaphore in front of bcrypt and of key lookups.

  The part of Redis that the script uses is a map from bucket keys to a bucket and the time at which
  \<open>EXPIRE\<close> removes it. One call of a script may succeed, fail before it ran, or run with its reply
  lost. Lua numbers and \<open>float64\<close> are the rationals they denote; the rounding of double arithmetic is
  not modelled. Times are in seconds of the clock of Redis.
\<close>

section \<open>The token bucket\<close>

record bucket =
  bk_tokens :: float64
  bk_ts :: float64

type_synonym buckets = "(string, bucket \<times> rat) gomap"

definition tokenBucketScript ::
  "float64 \<Rightarrow> float64 \<Rightarrow> float64 \<Rightarrow> rat \<Rightarrow> bucket option \<Rightarrow> (int \<times> int \<times> int) \<times> bucket \<times> int" where
  "tokenBucketScript capacity refill requested now bucket =
     (let (tokens, ts) = (case bucket of None \<Rightarrow> (capacity, now) | Some b \<Rightarrow> (bk_tokens b, bk_ts b));
          elapsed = max 0 (now - ts);
          tokens = min capacity (tokens + elapsed * refill);
          (allowed, retry_after, tokens) =
            (if tokens \<ge> requested then (1, 0, tokens - requested)
             else (0, ceiling ((requested - tokens) / refill), tokens));
          ttl = ceiling (capacity / refill) * 2
      in ((allowed, floor tokens, retry_after), \<lparr>bk_tokens = tokens, bk_ts = now\<rparr>, ttl))"

text \<open>What \<open>HMGET\<close> finds: a key is gone when its expiry has passed.\<close>

definition readBucket :: "buckets \<Rightarrow> string \<Rightarrow> rat \<Rightarrow> bucket option" where
  "readBucket s key now =
     (case map_of s key of
        None \<Rightarrow> None
      | Some (b, expiry) \<Rightarrow> if now < expiry then Some b else None)"

datatype redis_fate = RedisUp | RedisDown | RedisLost

text \<open>\<open>script.Run(...).Int64Slice()\<close>, which is how all the limiters call the script: capacity
  \<open>perMin\<close>, a sixtieth of it per second, one token requested.\<close>

definition runTokenBucket :: "redis_fate \<Rightarrow> rat \<Rightarrow> string \<Rightarrow> int \<Rightarrow> buckets \<Rightarrow> buckets \<times> (int \<times> int \<times> int) result" where
  "runTokenBucket fate now bucketKey perMin s =
     (let capacity = of_int perMin;
          refill = capacity / 60;
          (reply, b, ttl) = tokenBucketScript capacity refill 1 now (readBucket s bucketKey now);
          s' = mput bucketKey (b, now + of_int ttl) s
      in (case fate of
            RedisDown \<Rightarrow> (s, Inl ErrRedis)
          | RedisLost \<Rightarrow> (s', Inl ErrRedis)
          | RedisUp \<Rightarrow> (s', Inr reply)))"

text \<open>\<open>RateLimiter.allow\<close> and \<open>IPRateLimiter.allow\<close> differ in the key.\<close>

definition allow ::
  "redis_fate \<Rightarrow> rat \<Rightarrow> string \<Rightarrow> int \<Rightarrow> buckets \<Rightarrow> buckets \<times> (bool \<times> int \<times> int) result" where
  "allow fate now bucketID perMin s =
     (case runTokenBucket fate now (''ratelimit:'' @ bucketID) perMin s of
        (s', Inl err) \<Rightarrow> (s', Inl err)
      | (s', Inr (res0, res1, res2)) \<Rightarrow> (s', Inr (res0 = 1, res1, res2)))"

record ip_limiter =
  ip_prefix :: string
  ip_perMin :: int

definition ipAllow ::
  "redis_fate \<Rightarrow> rat \<Rightarrow> ip_limiter \<Rightarrow> string \<Rightarrow> buckets \<Rightarrow> buckets \<times> (bool \<times> int \<times> int) result" where
  "ipAllow fate now rl ip s =
     (case runTokenBucket fate now (''authlimit:'' @ ip_prefix rl @ '':'' @ ip) (ip_perMin rl) s of
        (s', Inl err) \<Rightarrow> (s', Inl err)
      | (s', Inr (res0, res1, res2)) \<Rightarrow> (s', Inr (res0 = 1, res1, res2)))"

text \<open>The login-name limiter. The hexadecimal SHA-256 digest and \<open>strings.ToLower\<close> (which needs the
  Unicode tables) are functions of the environment.\<close>

record text_env =
  te_sha256Hex :: "string \<Rightarrow> string"
  te_ToLower :: "string \<Rightarrow> string"

record ident_limiter =
  il_prefix :: string
  il_perMin :: int

definition identKey :: "text_env \<Rightarrow> ident_limiter \<Rightarrow> string \<Rightarrow> string \<Rightarrow> string" where
  "identKey te rl scope identifier =
     ''authlimit:'' @ il_prefix rl @ '':'' @ scope @ '':'' @
       te_sha256Hex te (te_ToLower te (TrimSpace identifier))"

definition identAllow ::
  "text_env \<Rightarrow> redis_fate \<Rightarrow> rat \<Rightarrow> ident_limiter option \<Rightarrow> string \<Rightarrow> string \<Rightarrow> buckets \<Rightarrow>
   buckets \<times> (bool \<times> int) result" where
  "identAllow te fate now limiter scope identifier s =
     (case limiter of
        None \<Rightarrow> (s, Inr (True, 0))
      | Some rl \<Rightarrow>
          if il_perMin rl \<le> 0 then (s, Inr (True, 0))
          else (case runTokenBucket fate now (identKey te rl scope identifier) (il_perMin rl) s of
                  (s', Inl err) \<Rightarrow> (s', Inl err)
                | (s', Inr (res0, res1, res2)) \<Rightarrow> (s', Inr (res0 = 1, res2))))"

section \<open>Middleware\<close>

text \<open>A middleware calls the next handler or aborts with a response; in both cases with the response
  headers it has set. \<open>abortError\<close> answers in the protocol of the endpoint.\<close>

datatype mw_outcome = Continue "(string \<times> string) list" | Abort "(string \<times> string) list" client_write

fun passed :: "mw_outcome \<Rightarrow> bool" where
  "passed (Continue _) = True"
| "passed (Abort _ _) = False"

definition abortError ::
  "('d, 'n) registry \<Rightarrow> string \<Rightarrow> (string \<times> string) list \<Rightarrow> int \<Rightarrow> string \<Rightarrow> string \<Rightarrow> mw_outcome" where
  "abortError adapters protocol headers status errType message =
     Abort headers (WriteError adapters protocol status errType message)"

definition RateMiddleware ::
  "('d, 'n) registry \<Rightarrow> string \<Rightarrow> redis_fate \<Rightarrow> rat \<Rightarrow> identity option \<Rightarrow> buckets \<Rightarrow> buckets \<times> mw_outcome" where
  "RateMiddleware adapters protocol fate now identityFrom s =
     (case identityFrom of
        None \<Rightarrow> (s, abortError adapters protocol [] 401 ''authentication_error'' ''unauthenticated'')
      | Some i \<Rightarrow>
          if id_RateLimitPerMin i \<le> 0 then (s, Continue [])
          else (case allow fate now (''key:'' @ id_KeyID i) (id_RateLimitPerMin i) s of
                  (s', Inl err) \<Rightarrow> (s', Continue [])
                | (s', Inr (allowed, remaining, retryAfter)) \<Rightarrow>
                    let headers = [(''X-RateLimit-Limit'', intText (id_RateLimitPerMin i)),
                                   (''X-RateLimit-Remaining'', intText remaining)]
                    in if \<not> allowed
                       then (s', abortError adapters protocol (headers @ [(''Retry-After'', intText retryAfter)])
                              429 ''rate_limit_error'' ''too many requests'')
                       else (s', Continue headers)))"

definition AccountMiddleware ::
  "('d, 'n) registry \<Rightarrow> string \<Rightarrow> int \<Rightarrow> redis_fate \<Rightarrow> rat \<Rightarrow> identity option \<Rightarrow> buckets \<Rightarrow> buckets \<times> mw_outcome" where
  "AccountMiddleware adapters protocol perMin fate now identityFrom s =
     (if perMin \<le> 0 then (s, Continue [])
      else (case identityFrom of
        None \<Rightarrow> (s, abortError adapters protocol [] 401 ''authentication_error'' ''unauthenticated'')
      | Some i \<Rightarrow>
          (case allow fate now (''account:'' @ id_UserID i) perMin s of
             (s', Inl err) \<Rightarrow> (s', Continue [])
           | (s', Inr (allowed, remaining, retryAfter)) \<Rightarrow>
               let headers = [(''X-Account-RateLimit-Limit'', intText perMin),
                              (''X-Account-RateLimit-Remaining'', intText remaining)]
               in if \<not> allowed
                  then (s', abortError adapters protocol (headers @ [(''Retry-After'', intText retryAfter)])
                         429 ''rate_limit_error'' ''too many requests of the account'')
                  else (s', Continue headers))))"

definition IPMiddleware ::
  "('d, 'n) registry \<Rightarrow> string \<Rightarrow> ip_limiter \<Rightarrow> redis_fate \<Rightarrow> rat \<Rightarrow> string \<Rightarrow> buckets \<Rightarrow> buckets \<times> mw_outcome" where
  "IPMiddleware adapters protocol rl fate now clientIP s =
     (if ip_perMin rl \<le> 0 then (s, Continue [])
      else (case ipAllow fate now rl clientIP s of
              (s', Inl err) \<Rightarrow> (s', Continue [])
            | (s', Inr (allowed, remaining, retryAfter)) \<Rightarrow>
                if \<not> allowed
                then (s', abortError adapters protocol [(''Retry-After'', intText retryAfter)]
                       429 ''rate_limit_error'' ''too many requests'')
                else (s', Continue [])))"

section \<open>The semaphore\<close>

text \<open>A buffered channel: its capacity and the number of slots taken.\<close>

record semaphore =
  sem_cap :: nat
  sem_used :: nat

definition NewSemaphore :: "int \<Rightarrow> semaphore" where
  "NewSemaphore cap = \<lparr>sem_cap = nat (if cap \<le> 0 then 1 else cap), sem_used = 0\<rparr>"

text \<open>The two cases of the \<open>select\<close>: when both are ready Go picks one (\<open>pickSlot\<close>); when none is, the
  call blocks (\<open>None\<close>).\<close>

definition Acquire :: "bool \<Rightarrow> bool \<Rightarrow> semaphore \<Rightarrow> (semaphore \<times> bool) option" where
  "Acquire ctxDone pickSlot s =
     (if sem_used s < sem_cap s \<and> (\<not> ctxDone \<or> pickSlot) then Some (s\<lparr>sem_used := sem_used s + 1\<rparr>, True)
      else if ctxDone then Some (s, False)
      else None)"

definition TryAcquire :: "semaphore \<Rightarrow> semaphore \<times> bool" where
  "TryAcquire s =
     (if sem_used s < sem_cap s then (s\<lparr>sem_used := sem_used s + 1\<rparr>, True) else (s, False))"

definition Release :: "semaphore \<Rightarrow> semaphore result" where
  "Release s = (if sem_used s > 0 then Inr (s\<lparr>sem_used := sem_used s - 1\<rparr>) else Inl ErrPanic)"

definition sem_ok :: "semaphore \<Rightarrow> bool" where
  "sem_ok s \<longleftrightarrow> 0 < sem_cap s \<and> sem_used s \<le> sem_cap s"

lemma sem_ok_NewSemaphore: "sem_ok (NewSemaphore cap)"
  by (simp add: sem_ok_def NewSemaphore_def)

lemma TryAcquire_pairs:
  "sem_ok s \<Longrightarrow> TryAcquire s = (s', ok) \<Longrightarrow>
     sem_ok s' \<and> sem_used s' = sem_used s + of_bool ok \<and> (ok \<longrightarrow> Release s' = Inr s) \<and> (\<not> ok \<longrightarrow> s' = s)"
  by (auto simp: TryAcquire_def Release_def sem_ok_def split: if_splits)

lemma Acquire_pairs:
  "sem_ok s \<Longrightarrow> Acquire d p s = Some (s', ok) \<Longrightarrow>
     sem_ok s' \<and> sem_used s' = sem_used s + of_bool ok \<and> (ok \<longrightarrow> Release s' = Inr s) \<and> (\<not> ok \<longrightarrow> s' = s)"
  by (auto simp: Acquire_def Release_def sem_ok_def split: if_splits)

section \<open>How many requests a bucket admits\<close>

text \<open>
  The tokens a bucket holds at a time, and the bound: from any state of Redis, the calls on one bucket
  in a stretch of time get at most its capacity plus what was refilled. The argument is the one of
  amortised analysis, with the level of the bucket as potential. A bucket that expires was full.
\<close>

definition level :: "float64 \<Rightarrow> float64 \<Rightarrow> buckets \<Rightarrow> string \<Rightarrow> rat \<Rightarrow> rat" where
  "level c r s key t =
     (case readBucket s key t of
        None \<Rightarrow> c
      | Some b \<Rightarrow> min c (bk_tokens b + max 0 (t - bk_ts b) * r))"

definition lasting :: "float64 \<Rightarrow> float64 \<Rightarrow> buckets \<Rightarrow> string \<Rightarrow> rat \<Rightarrow> bool" where
  "lasting c r s key t \<longleftrightarrow>
     (case map_of s key of
        None \<Rightarrow> True
      | Some (b, expiry) \<Rightarrow> bk_ts b \<le> t \<and> c \<le> (expiry - bk_ts b) * r \<and> 0 \<le> bk_tokens b)"

lemma level_le: "level c r s key t \<le> c"
  by (simp add: level_def split: option.split)

lemma level_grows:
  assumes "lasting c r s key t" "t \<le> t'" "0 < r"
  shows "level c r s key t' \<le> level c r s key t + (t' - t) * r"
proof (cases "map_of s key")
  case None
  then show ?thesis using assms by (simp add: level_def readBucket_def)
next
  case (Some p)
  obtain b expiry where p: "p = (b, expiry)" by fastforce
  have l: "bk_ts b \<le> t" "c \<le> (expiry - bk_ts b) * r" "0 \<le> bk_tokens b"
    using assms(1) Some p by (auto simp: lasting_def)
  have pos: "0 \<le> (t' - t) * r" using assms by simp
  have sum: "(t' - bk_ts b) * r = (t - bk_ts b) * r + (t' - t) * r" by (simp add: algebra_simps)
  show ?thesis
  proof (cases "t' < expiry")
    case True
    then show ?thesis using Some p l pos sum assms(2)
      by (auto simp: level_def readBucket_def min_def max_def)
  next
    case False
    then have "(expiry - bk_ts b) * r \<le> (t' - bk_ts b) * r"
      using assms(3) by (intro mult_right_mono) auto
    then show ?thesis using Some p l pos sum assms(2) False
      by (auto simp: level_def readBucket_def min_def max_def)
  qed
qed

lemma script_eq:
  "tokenBucketScript c r 1 t (readBucket s key t) =
     (let l = level c r s key t;
          (a, w, k) = (if 1 \<le> l then (1, 0, l - 1) else (0, ceiling ((1 - l) / r), l))
      in ((a, floor k, w), \<lparr>bk_tokens = k, bk_ts = t\<rparr>, ceiling (c / r) * 2))"
  by (cases "readBucket s key t") (simp_all add: tokenBucketScript_def level_def Let_def)

lemma script_level:
  assumes "tokenBucketScript c r 1 t (readBucket s key t) = ((a, m, w), b, ttl)"
  shows "a = (if 1 \<le> level c r s key t then 1 else 0)"
    and "bk_tokens b = level c r s key t - of_int a"
    and "bk_ts b = t" and "ttl = ceiling (c / r) * 2" and "m = floor (bk_tokens b)"
    and "w = (if a = 1 then 0 else ceiling ((1 - level c r s key t) / r))"
  using assms by (auto simp: script_eq Let_def split: if_splits)

lemma script_01:
  "tokenBucketScript c r 1 t (readBucket s key t) = ((a, m, w), b, ttl) \<Longrightarrow> a = 0 \<or> a = 1"
  by (drule script_level(1)) simp

lemma script_lasting:
  assumes "tokenBucketScript c r 1 t (readBucket s key t) = ((a, m, w), b, ttl)"
    and "map_of s' key = Some (b, t + of_int ttl)" "0 \<le> level c r s key t" "0 < r" "0 < c"
  shows "lasting c r s' key t" and "level c r s' key t + of_int a = level c r s key t"
proof -
  note b = script_level [OF assms(1)]
  have "c / r \<le> of_int (ceiling (c / r))" by (rule le_of_int_ceiling)
  then have "c \<le> of_int (ceiling (c / r)) * r" using assms(4) pos_divide_le_eq by blast
  moreover have "0 \<le> (of_int (ceiling (c / r)) :: rat) * r"
    using assms(5) calculation by linarith
  ultimately have x: "c \<le> of_int ttl * r" using b(4) by simp
  show "lasting c r s' key t"
    using assms(2,3) b x by (simp add: lasting_def)
  have "(0 :: rat) < of_int ttl"
    using x assms(4,5) zero_less_mult_pos2 [of "of_int ttl" r] by linarith
  then show "level c r s' key t + of_int a = level c r s key t"
    using assms(2,3) b level_le [of c r s key t]
    by (auto simp: level_def [of c r s'] readBucket_def min_def split: if_splits)
qed

fun admittedCount :: "('e \<Rightarrow> buckets \<Rightarrow> buckets \<times> bool) \<Rightarrow> 'e list \<Rightarrow> buckets \<Rightarrow> nat" where
  "admittedCount step [] s = 0"
| "admittedCount step (e # es) s =
     (case step e s of (s', g) \<Rightarrow> of_bool g + admittedCount step es s')"

text \<open>A client of one bucket: any step that counts as granted has run the script on that bucket, with
  the configured rate, and no step changes the bucket otherwise.\<close>

locale token_client =
  fixes step :: "'e \<Rightarrow> buckets \<Rightarrow> buckets \<times> bool"
    and clock :: "'e \<Rightarrow> rat"
    and key :: string
    and perMin :: int
  assumes uses: "0 < perMin \<Longrightarrow> step e s = (s', g) \<Longrightarrow>
    (map_of s' key = map_of s key \<and> \<not> g) \<or>
    (\<exists>a m w b ttl. tokenBucketScript (of_int perMin) (of_int perMin / 60) 1 (clock e)
         (readBucket s key (clock e)) = ((a, m, w), b, ttl) \<and>
       map_of s' key = Some (b, clock e + of_int ttl) \<and> (g \<longrightarrow> a = 1))"
begin

abbreviation "lvl \<equiv> level (of_int perMin) (of_int perMin / 60)"
abbreviation "lst \<equiv> lasting (of_int perMin) (of_int perMin / 60)"

lemma lvl_cong: "map_of s' key = map_of s key \<Longrightarrow> lvl s' key t = lvl s key t"
  by (simp add: level_def readBucket_def)

lemma lst_mono: "lst s key t \<Longrightarrow> t \<le> t' \<Longrightarrow> map_of s' key = map_of s key \<Longrightarrow> lst s' key t'"
  by (auto simp: lasting_def split: option.splits)

lemma lvl_nonneg: "0 \<le> perMin \<Longrightarrow> lst s key t \<Longrightarrow> 0 \<le> lvl s key t"
  by (auto simp: level_def lasting_def readBucket_def min_def split: option.splits if_splits)

lemma known_bucket:
  assumes "0 < perMin" "lst s key t" "sorted (map clock es)"
    "\<And>e. e \<in> set es \<Longrightarrow> t \<le> clock e \<and> clock e \<le> T" "t \<le> T"
  shows "of_nat (admittedCount step es s) \<le> lvl s key t + (T - t) * (of_int perMin / 60)"
  using assms(2-)
proof (induction es arbitrary: s t)
  case Nil
  then show ?case using lvl_nonneg [of s t] assms(1) by simp
next
  case (Cons e es)
  let ?r = "of_int perMin / 60 :: rat" and ?u = "clock e"
  have r: "0 < ?r" using assms(1) by simp
  have tu: "t \<le> ?u" "?u \<le> T" using Cons.prems(3) by auto
  have rest: "sorted (map clock es)" "\<And>x. x \<in> set es \<Longrightarrow> ?u \<le> clock x \<and> clock x \<le> T"
    using Cons.prems(2,3) by auto
  have grow: "lvl s key ?u \<le> lvl s key t + (?u - t) * ?r"
    using level_grows [OF Cons.prems(1) tu(1) r] .
  have lu: "lst s key ?u" using lst_mono [OF Cons.prems(1) tu(1)] by simp
  have sum: "(T - t) * ?r = (?u - t) * ?r + (T - ?u) * ?r"
    unfolding distrib_right [symmetric] by simp
  obtain s' g where st: "step e s = (s', g)" by fastforce
  from uses [OF assms(1) st] show ?case
  proof
    assume u: "map_of s' key = map_of s key \<and> \<not> g"
    then have "lst s' key ?u" using lst_mono lu by blast
    from Cons.IH [OF this rest tu(2)]
    have "of_nat (admittedCount step (e # es) s) \<le> lvl s key ?u + (T - ?u) * ?r"
      using u st lvl_cong [of s' s ?u] by simp
    then show ?thesis using grow sum by linarith
  next
    assume "\<exists>a m w b ttl. tokenBucketScript (of_int perMin) ?r 1 ?u (readBucket s key ?u) = ((a, m, w), b, ttl) \<and>
      map_of s' key = Some (b, ?u + of_int ttl) \<and> (g \<longrightarrow> a = 1)"
    then obtain a m w b ttl where x: "tokenBucketScript (of_int perMin) ?r 1 ?u (readBucket s key ?u) = ((a, m, w), b, ttl)"
      "map_of s' key = Some (b, ?u + of_int ttl)" "g \<longrightarrow> a = 1" by blast
    have nn: "0 \<le> lvl s key ?u" using lvl_nonneg lu assms(1) by simp
    have l: "lst s' key ?u" "lvl s' key ?u + of_int a = lvl s key ?u"
      using script_lasting [OF x(1,2) nn r] assms(1) by auto
    have "(of_bool g :: rat) \<le> of_int a" using x(3) script_01 [OF x(1)] by auto
    moreover have "of_nat (admittedCount step (e # es) s) =
        (of_bool g + of_nat (admittedCount step es s') :: rat)"
      using st by simp
    ultimately show ?thesis using Cons.IH [OF l(1) rest tu(2)] l(2) grow sum by linarith
  qed
qed

theorem budget:
  assumes "0 < perMin" "sorted (map clock es)"
    "\<And>e. e \<in> set es \<Longrightarrow> t \<le> clock e \<and> clock e \<le> T" "t \<le> T"
  shows "of_nat (admittedCount step es s) \<le> of_int perMin + (T - t) * (of_int perMin / 60)"
  using assms(2-)
proof (induction es arbitrary: s t)
  case Nil
  then show ?case using assms(1) by simp
next
  case (Cons e es)
  let ?r = "of_int perMin / 60 :: rat" and ?u = "clock e"
  have r: "0 < ?r" using assms(1) by simp
  have tu: "t \<le> ?u" "?u \<le> T" using Cons.prems(2) by auto
  have rest: "sorted (map clock es)" "\<And>x. x \<in> set es \<Longrightarrow> ?u \<le> clock x \<and> clock x \<le> T"
    using Cons.prems(1,2) by auto
  have sum: "(T - ?u) * ?r \<le> (T - t) * ?r" using tu r by (intro mult_right_mono) auto
  obtain s' g where st: "step e s = (s', g)" by fastforce
  from uses [OF assms(1) st] show ?case
  proof
    assume "map_of s' key = map_of s key \<and> \<not> g"
    then have "admittedCount step (e # es) s = admittedCount step es s'" using st by simp
    then show ?thesis using Cons.IH [OF rest tu(2), of s'] sum by linarith
  next
    assume "\<exists>a m w b ttl. tokenBucketScript (of_int perMin) ?r 1 ?u (readBucket s key ?u) = ((a, m, w), b, ttl) \<and>
      map_of s' key = Some (b, ?u + of_int ttl) \<and> (g \<longrightarrow> a = 1)"
    then obtain a m w b ttl where x: "tokenBucketScript (of_int perMin) ?r 1 ?u (readBucket s key ?u) = ((a, m, w), b, ttl)"
      "map_of s' key = Some (b, ?u + of_int ttl)" "g \<longrightarrow> a = 1" by blast
    show ?thesis
    proof (cases "0 \<le> lvl s key ?u")
      case True
      have l: "lst s' key ?u" "lvl s' key ?u + of_int a = lvl s key ?u"
        using script_lasting [OF x(1,2) True r] assms(1) by auto
      have "(of_bool g :: rat) \<le> of_int a" using x(3) script_01 [OF x(1)] by auto
      moreover have "of_nat (admittedCount step es s') \<le> lvl s' key ?u + (T - ?u) * ?r"
        by (rule known_bucket [OF assms(1) l(1) rest tu(2)])
      moreover have "of_nat (admittedCount step (e # es) s) =
          (of_bool g + of_nat (admittedCount step es s') :: rat)"
        using st by simp
      ultimately show ?thesis using l(2) sum level_le [of "of_int perMin" ?r s key ?u] by linarith
    next
      case False
      then have "a = 0" using script_level(1) [OF x(1)] by simp
      then have "admittedCount step (e # es) s = admittedCount step es s'" using st x(3) by simp
      then show ?thesis using Cons.IH [OF rest tu(2), of s'] sum by linarith
    qed
  qed
qed

end

section \<open>The limiters of the server\<close>

text \<open>
  The calls that reach one Redis, in any interleaving: the address limiters of \<open>/v1\<close> and \<open>/auth\<close>, the
  account and key limiters of \<open>/v1\<close> after authentication, and the login-name limiter of the console,
  configured as \<open>registerRoutes\<close> and \<open>registerAuthRoutes\<close> of \<open>internal/server/server.go\<close> do.
\<close>

record limit_config =
  lc_UnauthenticatedRateLimitPerMin :: int
  lc_AuthRateLimitPerMin :: int
  lc_AccountRateLimitPerMin :: int
  lc_AuthIdentifierRateLimitPerMin :: int

definition preAuthLimiter :: "limit_config \<Rightarrow> ip_limiter" where
  "preAuthLimiter c = \<lparr>ip_prefix = ''v1-auth'', ip_perMin = lc_UnauthenticatedRateLimitPerMin c\<rparr>"

definition authLimiter :: "limit_config \<Rightarrow> ip_limiter" where
  "authLimiter c = \<lparr>ip_prefix = ''auth'', ip_perMin = lc_AuthRateLimitPerMin c\<rparr>"

definition credentialLimit :: "limit_config \<Rightarrow> ident_limiter" where
  "credentialLimit c = \<lparr>il_prefix = ''credential'', il_perMin = lc_AuthIdentifierRateLimitPerMin c\<rparr>"

datatype limit_target =
    PreAuthCall string | AuthCall string | AccountCall identity | KeyCall identity
  | CredentialCall string string

record limit_call =
  lq_target :: limit_target
  lq_fate :: redis_fate
  lq_at :: rat

text \<open>The step answers whether the request goes on.\<close>

definition limitStep ::
  "('d, 'n) registry \<Rightarrow> text_env \<Rightarrow> limit_config \<Rightarrow> limit_call \<Rightarrow> buckets \<Rightarrow> buckets \<times> bool" where
  "limitStep adapters te c q s =
     (case lq_target q of
        PreAuthCall ip \<Rightarrow>
          map_prod id passed (IPMiddleware adapters ''openai'' (preAuthLimiter c) (lq_fate q) (lq_at q) ip s)
      | AuthCall ip \<Rightarrow>
          map_prod id passed (IPMiddleware adapters [] (authLimiter c) (lq_fate q) (lq_at q) ip s)
      | AccountCall i \<Rightarrow>
          map_prod id passed (AccountMiddleware adapters ''openai'' (lc_AccountRateLimitPerMin c)
            (lq_fate q) (lq_at q) (Some i) s)
      | KeyCall i \<Rightarrow>
          map_prod id passed (RateMiddleware adapters ''openai'' (lq_fate q) (lq_at q) (Some i) s)
      | CredentialCall scope username \<Rightarrow>
          (case identAllow te (lq_fate q) (lq_at q) (Some (credentialLimit c)) scope username s of
             (s', Inl err) \<Rightarrow> (s', True)
           | (s', Inr (allowed, retryAfter)) \<Rightarrow> (s', allowed)))"

text \<open>Which calls of a group go on although Redis answered.\<close>

definition grantStep ::
  "('d, 'n) registry \<Rightarrow> text_env \<Rightarrow> limit_config \<Rightarrow> (limit_target \<Rightarrow> bool) \<Rightarrow> limit_call \<Rightarrow>
   buckets \<Rightarrow> buckets \<times> bool" where
  "grantStep adapters te c counted q s =
     (case limitStep adapters te c q s of
        (s', ok) \<Rightarrow> (s', ok \<and> lq_fate q = RedisUp \<and> counted (lq_target q)))"

lemma runTokenBucket_other:
  "runTokenBucket fate now k p s = (s', r) \<Longrightarrow> k \<noteq> key \<Longrightarrow> map_of s' key = map_of s key"
  by (auto simp: runTokenBucket_def Let_def split: redis_fate.splits prod.splits)

lemma runTokenBucket_this:
  assumes "runTokenBucket fate now key p s = (s', r)"
  shows "(map_of s' key = map_of s key \<and> fate = RedisDown \<and> r = Inl ErrRedis) \<or>
    (\<exists>a m w b ttl. tokenBucketScript (of_int p) (of_int p / 60) 1 now (readBucket s key now) = ((a, m, w), b, ttl) \<and>
       map_of s' key = Some (b, now + of_int ttl) \<and>
       (if fate = RedisUp then r = Inr (a, m, w) else r = Inl ErrRedis))"
  using assms by (auto simp: runTokenBucket_def Let_def split: redis_fate.splits prod.splits)

definition ofAccount :: "string \<Rightarrow> limit_target \<Rightarrow> bool" where
  "ofAccount u g = (case g of AccountCall i \<Rightarrow> id_UserID i = u | _ \<Rightarrow> False)"

definition ofCredential :: "text_env \<Rightarrow> string \<Rightarrow> string \<Rightarrow> limit_target \<Rightarrow> bool" where
  "ofCredential te scope name g =
     (case g of
        CredentialCall scope' name' \<Rightarrow>
          scope' = scope \<and> te_ToLower te (TrimSpace name') = te_ToLower te (TrimSpace name)
      | _ \<Rightarrow> False)"

text \<open>Every limiter call runs the script on its own key or not at all.\<close>

definition callKey :: "text_env \<Rightarrow> limit_config \<Rightarrow> limit_target \<Rightarrow> string \<times> int" where
  "callKey te c g =
     (case g of
        PreAuthCall ip \<Rightarrow> (''authlimit:v1-auth:'' @ ip, lc_UnauthenticatedRateLimitPerMin c)
      | AuthCall ip \<Rightarrow> (''authlimit:auth:'' @ ip, lc_AuthRateLimitPerMin c)
      | AccountCall i \<Rightarrow> (''ratelimit:account:'' @ id_UserID i, lc_AccountRateLimitPerMin c)
      | KeyCall i \<Rightarrow> (''ratelimit:key:'' @ id_KeyID i, id_RateLimitPerMin i)
      | CredentialCall scope name \<Rightarrow>
          (identKey te (credentialLimit c) scope name, lc_AuthIdentifierRateLimitPerMin c))"

lemma limitStep_runs:
  "limitStep adapters te c q s =
     (let (k, p) = callKey te c (lq_target q) in
      if p \<le> 0 then (s, True)
      else (case runTokenBucket (lq_fate q) (lq_at q) k p s of
              (s', Inl err) \<Rightarrow> (s', True)
            | (s', Inr (a, m, w)) \<Rightarrow> (s', a = 1)))"
  by (cases "lq_target q")
     (auto simp: limitStep_def IPMiddleware_def AccountMiddleware_def RateMiddleware_def identAllow_def
        ipAllow_def allow_def preAuthLimiter_def authLimiter_def credentialLimit_def callKey_def Let_def
        abortError_def split: prod.splits sum.splits)

lemma grantStep_uses:
  assumes "0 < p" "grantStep adapters te c counted q s = (s', g)"
    and "counted (lq_target q) \<Longrightarrow> fst (callKey te c (lq_target q)) = key"
    and "fst (callKey te c (lq_target q)) = key \<Longrightarrow> snd (callKey te c (lq_target q)) = p"
  shows "(map_of s' key = map_of s key \<and> \<not> g) \<or>
    (\<exists>a m w b ttl. tokenBucketScript (of_int p) (of_int p / 60) 1 (lq_at q) (readBucket s key (lq_at q)) = ((a, m, w), b, ttl) \<and>
       map_of s' key = Some (b, lq_at q + of_int ttl) \<and> (g \<longrightarrow> a = 1))"
proof -
  obtain k p' where k: "callKey te c (lq_target q) = (k, p')" by fastforce
  obtain s1 r where run: "runTokenBucket (lq_fate q) (lq_at q) k p' s = (s1, r)" by fastforce
  show ?thesis
  proof (cases "k = key")
    case True
    then have "p' = p" using assms(4) k by simp
    then have s': "s' = s1" "g = (counted (lq_target q) \<and> lq_fate q = RedisUp \<and> (case r of Inl _ \<Rightarrow> True | Inr (a, m, w) \<Rightarrow> a = 1))"
      using assms(1,2) run k by (auto simp: grantStep_def limitStep_runs split: sum.splits prod.splits)
    show ?thesis using runTokenBucket_this [OF run [unfolded True]] s' \<open>p' = p\<close>
      by (auto split: if_splits)
  next
    case False
    have "map_of s1 key = map_of s key" by (rule runTokenBucket_other [OF run False])
    moreover have "\<not> g" using assms(2,3) False k by (auto simp: grantStep_def limitStep_runs split: prod.splits)
    ultimately show ?thesis using assms(2) run k
      by (auto simp: grantStep_def limitStep_runs split: sum.splits prod.splits if_splits)
  qed
qed

interpretation account_limit:
  token_client "grantStep adapters te c (ofAccount u)" lq_at "''ratelimit:account:'' @ u"
    "lc_AccountRateLimitPerMin c"
  for adapters te c u
proof
  fix e s s' g
  assume "0 < lc_AccountRateLimitPerMin c" "grantStep adapters te c (ofAccount u) e s = (s', g)"
  then show "(map_of s' (''ratelimit:account:'' @ u) = map_of s (''ratelimit:account:'' @ u) \<and> \<not> g) \<or>
    (\<exists>a m w b ttl. tokenBucketScript (of_int (lc_AccountRateLimitPerMin c))
        (of_int (lc_AccountRateLimitPerMin c) / 60) 1 (lq_at e)
        (readBucket s (''ratelimit:account:'' @ u) (lq_at e)) = ((a, m, w), b, ttl) \<and>
       map_of s' (''ratelimit:account:'' @ u) = Some (b, lq_at e + of_int ttl) \<and> (g \<longrightarrow> a = 1))"
    by (rule grantStep_uses)
       (auto simp: callKey_def ofAccount_def identKey_def credentialLimit_def split: limit_target.splits)
qed

interpretation credential_limit:
  token_client "grantStep adapters te c (ofCredential te scope name)" lq_at
    "identKey te (credentialLimit c) scope name" "lc_AuthIdentifierRateLimitPerMin c"
  for adapters te c scope name
proof
  fix e s s' g
  assume "0 < lc_AuthIdentifierRateLimitPerMin c"
    "grantStep adapters te c (ofCredential te scope name) e s = (s', g)"
  then show "(map_of s' (identKey te (credentialLimit c) scope name) =
        map_of s (identKey te (credentialLimit c) scope name) \<and> \<not> g) \<or>
    (\<exists>a m w b ttl. tokenBucketScript (of_int (lc_AuthIdentifierRateLimitPerMin c))
        (of_int (lc_AuthIdentifierRateLimitPerMin c) / 60) 1 (lq_at e)
        (readBucket s (identKey te (credentialLimit c) scope name) (lq_at e)) = ((a, m, w), b, ttl) \<and>
       map_of s' (identKey te (credentialLimit c) scope name) = Some (b, lq_at e + of_int ttl) \<and> (g \<longrightarrow> a = 1))"
    by (rule grantStep_uses)
       (auto simp: callKey_def ofCredential_def identKey_def credentialLimit_def split: limit_target.splits)
qed

text \<open>C35. However many API keys an account has and however their requests interleave with all other
  traffic, the account's limiter lets at most the configured number of requests through in an instant
  and one more for every sixtieth of a minute's share that passes, as long as Redis answers and its
  clock does not go back: at most \<open>perMin + (T - t) * perMin / 60\<close> between the times \<open>t\<close> and \<open>T\<close>,
  from any earlier state of the buckets.\<close>

theorem account_budget:
  assumes "0 < lc_AccountRateLimitPerMin c"
    and "sorted (map lq_at qs)"
    and "list_all (\<lambda>q. t \<le> lq_at q \<and> lq_at q \<le> T) qs" and "t \<le> T"
  shows "of_nat (admittedCount (grantStep adapters te c (ofAccount u)) qs s) \<le>
    of_int (lc_AccountRateLimitPerMin c) + (T - t) * (of_int (lc_AccountRateLimitPerMin c) / 60)"
  by (rule account_limit.budget) (use assms in \<open>auto simp: list_all_iff\<close>)

text \<open>A login name gets the configured number of login attempts, whatever addresses they come from
  and however it is spelt up to case and surrounding space: between \<open>t\<close> and \<open>T\<close> at most
  \<open>perMin + (T - t) * perMin / 60\<close> attempts reach the password check while Redis answers.\<close>

theorem credential_budget:
  assumes "0 < lc_AuthIdentifierRateLimitPerMin c"
    and "sorted (map lq_at qs)"
    and "list_all (\<lambda>q. t \<le> lq_at q \<and> lq_at q \<le> T) qs" and "t \<le> T"
  shows "of_nat (admittedCount (grantStep adapters te c (ofCredential te scope name)) qs s) \<le>
    of_int (lc_AuthIdentifierRateLimitPerMin c) +
      (T - t) * (of_int (lc_AuthIdentifierRateLimitPerMin c) / 60)"
  by (rule credential_limit.budget) (use assms in \<open>auto simp: list_all_iff\<close>)

text \<open>The answer of a healthy Redis to one more request.\<close>

definition admits :: "string \<Rightarrow> int \<Rightarrow> rat \<Rightarrow> buckets \<Rightarrow> bool" where
  "admits key p t s =
     (case snd (runTokenBucket RedisUp t key p s) of Inl _ \<Rightarrow> False | Inr (a, m, w) \<Rightarrow> a = 1)"

lemma admits_iff:
  "admits key p t s \<longleftrightarrow> 1 \<le> level (of_int p) (of_int p / 60) s key t"
  by (simp add: admits_def runTokenBucket_def script_eq Let_def)

lemma level_after:
  assumes "runTokenBucket RedisUp t key p s = (s1, Inr (a, m, w))" "0 < p" "t \<le> t'"
  shows "level (of_int p) (of_int p / 60) s1 key t' =
    (if t' < t + 120
     then min (of_int p) (level (of_int p) (of_int p / 60) s key t - of_int a + (t' - t) * (of_int p / 60))
     else of_int p)"
proof -
  have d: "of_int p / (of_int p / 60 :: rat) = 60" using assms(2) by simp
  have x: "tokenBucketScript (of_int p) (of_int p / 60) 1 t (readBucket s key t) = ((a, m, w), b, ttl) \<Longrightarrow>
      map_of s1 key = Some (b, t + of_int ttl)" for b ttl
    using assms(1) by (auto simp: runTokenBucket_def Let_def)
  obtain a' m' w' b ttl where y: "tokenBucketScript (of_int p) (of_int p / 60) 1 t (readBucket s key t) = ((a', m', w'), b, ttl)"
    by (metis prod.exhaust)
  then have eqs: "a' = a" "m' = m" "w' = w"
    using assms(1) by (auto simp: runTokenBucket_def Let_def)
  note b = script_level [OF y [unfolded eqs]]
  show ?thesis
    using x [OF y [unfolded eqs]] b d assms(3) by (auto simp: level_def [of _ _ s1] readBucket_def max_def)
qed

lemma level_nonneg:
  assumes "0 < r" "0 < c" "case readBucket s key t of None \<Rightarrow> True | Some b \<Rightarrow> 0 \<le> bk_tokens b"
  shows "0 \<le> level c r s key t"
  using assms by (auto simp: level_def min_def split: option.splits)

text \<open>The \<open>Retry-After\<close> of a refused request is honest: if no other request of that bucket comes
  first, a request is admitted from that many seconds on, and one that comes a second or more before
  is refused. A request that is admitted is told to wait 0 seconds.\<close>

theorem retry_after_honest:
  assumes "runTokenBucket RedisUp t key p s = (s1, Inr (a, m, w))" and "0 < p" and "t \<le> t'"
    and "case readBucket s key t of None \<Rightarrow> True | Some b \<Rightarrow> 0 \<le> bk_tokens b"
  shows "(a = 1 \<and> w = 0) \<or>
    (a = 0 \<and> 0 < w \<and> (if t + of_int w \<le> t' then admits key p t' s1
                       else t + of_int w - 1 < t' \<or> \<not> admits key p t' s1))"
proof -
  let ?c = "of_int p :: rat" and ?r = "of_int p / 60 :: rat"
  let ?l = "level ?c ?r s key t"
  have r: "0 < ?r" and c: "1 \<le> ?c" using assms(2) by auto
  have nn: "0 \<le> ?l" using level_nonneg [OF r] assms(2,4) by simp
  obtain b ttl where y: "tokenBucketScript ?c ?r 1 t (readBucket s key t) = ((a, m, w), b, ttl)"
    using assms(1) by (auto simp: runTokenBucket_def Let_def split: prod.splits)
  note b = script_level [OF y]
  show ?thesis
  proof (cases "1 \<le> ?l")
    case True
    then show ?thesis using b by simp
  next
    case False
    have w: "w = ceiling ((1 - ?l) / ?r)" and a: "a = 0" using b False by auto
    have pos: "0 < (1 - ?l) / ?r" using False r by simp
    have up: "(1 - ?l) / ?r \<le> of_int w" and lo: "of_int w - 1 < (1 - ?l) / ?r"
      unfolding w by linarith+
    have "0 < w" using up pos by linarith
    have "(1 - ?l) / ?r \<le> 1 / ?r" using nn r by (intro divide_right_mono) auto
    also have "1 / ?r = 60 / ?c" by simp
    also have "\<dots> \<le> 60" using c by (simp add: pos_divide_le_eq)
    finally have small: "of_int w < (61 :: rat)" using lo by linarith
    have up': "1 - ?l \<le> of_int w * ?r" using up r by (simp only: pos_divide_le_eq)
    have lo': "(of_int w - 1) * ?r < 1 - ?l" using lo r by (simp only: pos_less_divide_eq)
    have adm: "admits key p t' s1 \<longleftrightarrow> (t' < t + 120 \<longrightarrow> 1 \<le> ?l + (t' - t) * ?r)"
      using level_after [OF assms(1-3)] a c by (auto simp: admits_iff min_def)
    have "admits key p t' s1" if "t + of_int w \<le> t'"
    proof -
      have "of_int w * ?r \<le> (t' - t) * ?r" using that r by (intro mult_right_mono) auto
      then show ?thesis using up' adm by linarith
    qed
    moreover have "\<not> admits key p t' s1" if "t' \<le> t + of_int w - 1"
    proof -
      have "(t' - t) * ?r \<le> (of_int w - 1) * ?r" using that r by (intro mult_right_mono) auto
      moreover have "t' < t + 120" using that small by linarith
      ultimately show ?thesis using lo' adm by linarith
    qed
    ultimately show ?thesis using a \<open>0 < w\<close> by auto
  qed
qed

section \<open>Examples\<close>

definition exampleLimits :: limit_config where
  "exampleLimits = \<lparr>lc_UnauthenticatedRateLimitPerMin = 60, lc_AuthRateLimitPerMin = 10,
     lc_AccountRateLimitPerMin = 2, lc_AuthIdentifierRateLimitPerMin = 1\<rparr>"

definition exampleText :: text_env where
  "exampleText = \<lparr>te_sha256Hex = (\<lambda>s. s), te_ToLower = ToLower\<rparr>"

text \<open>Three keys of one account, five requests in 20 seconds.\<close>

definition keyOf :: "string \<Rightarrow> identity" where
  "keyOf k = \<lparr>id_KeyID = k, id_UserID = ''alice'', id_RateLimitPerMin = 0, id_AllowedModels = [],
     id_Enabled = True, id_CreatedAt = 0\<rparr>"

definition exampleCalls :: "limit_call list" where
  "exampleCalls =
     [\<lparr>lq_target = AccountCall (keyOf ''k1''), lq_fate = RedisUp, lq_at = 100\<rparr>,
      \<lparr>lq_target = AccountCall (keyOf ''k2''), lq_fate = RedisUp, lq_at = 101\<rparr>,
      \<lparr>lq_target = AccountCall (keyOf ''k3''), lq_fate = RedisUp, lq_at = 105\<rparr>,
      \<lparr>lq_target = AccountCall (keyOf ''k1''), lq_fate = RedisUp, lq_at = 118\<rparr>,
      \<lparr>lq_target = AccountCall (keyOf ''k2''), lq_fate = RedisUp, lq_at = 120\<rparr>]"

definition exampleAttempts :: "limit_call list" where
  "exampleAttempts =
     [\<lparr>lq_target = CredentialCall ''login'' ''Root'', lq_fate = RedisUp, lq_at = 7\<rparr>,
      \<lparr>lq_target = CredentialCall ''login'' '' root'', lq_fate = RedisUp, lq_at = 9\<rparr>]"

lemma example_admitted:
  "admittedCount (grantStep (\<lambda>_. None :: (unit, unit) adapter option) exampleText exampleLimits
     (ofAccount ''alice'')) exampleCalls [] = 2"
  by (simp add: exampleCalls_def exampleLimits_def grantStep_def limitStep_runs callKey_def keyOf_def
      runTokenBucket_def tokenBucketScript_def readBucket_def ofAccount_def Let_def)

lemma account_budget_witness:
  "of_nat (admittedCount (grantStep (\<lambda>_. None :: (unit, unit) adapter option) exampleText exampleLimits
     (ofAccount ''alice'')) exampleCalls []) \<le> (8 / 3 :: rat)"
  using account_budget [of exampleLimits exampleCalls 100 120]
  by (simp add: exampleLimits_def exampleCalls_def)

lemma credential_budget_witness:
  "of_nat (admittedCount (grantStep (\<lambda>_. None :: (unit, unit) adapter option) exampleText exampleLimits
     (ofCredential exampleText ''login'' ''root'')) exampleAttempts []) \<le> (31 / 30 :: rat)"
  using credential_budget [of exampleLimits exampleAttempts 7 9]
  by (simp add: exampleLimits_def exampleAttempts_def)

text \<open>A bucket of 2 tokens a minute, empty at time 10: the next token is there after 30 seconds.\<close>

lemma retry_after_honest_witness:
  "(0 = (1 :: int) \<and> 30 = (0 :: int)) \<or>
   (0 = (0 :: int) \<and> 0 < (30 :: int) \<and>
     (if 10 + of_int 30 \<le> (40 :: rat) then admits ''k'' 2 40 [(''k'', (\<lparr>bk_tokens = 0, bk_ts = 10\<rparr>, 130))]
      else 10 + of_int 30 - 1 < (40 :: rat) \<or> \<not> admits ''k'' 2 40 [(''k'', (\<lparr>bk_tokens = 0, bk_ts = 10\<rparr>, 130))]))"
  by (rule retry_after_honest [where s = "[(''k'', (\<lparr>bk_tokens = 0, bk_ts = 10\<rparr>, 130))]" and m = 0])
     (simp_all add: runTokenBucket_def tokenBucketScript_def readBucket_def)

end
