(* ===== verification/Account.thy ===== *)
theory Account
  imports GoJson Store
begin

text \<open>
  The console accounts of \<open>internal/account\<close>: the domain types and passwords (\<open>account.go\<close>,
  \<open>password.go\<close>, \<open>settings.go\<close>), the interface \<open>AccountStore\<close> with the contract that sessions rest on,
  and its implementation in memory (\<open>memory.go\<close>). The implementation on PostgreSQL is in \<open>PgAccount\<close>.

  bcrypt is a parameter: \<open>GenerateFromPassword\<close> draws a salt, which is an argument here.
\<close>

section \<open>Types\<close>

definition AccountRoleAdmin :: string where "AccountRoleAdmin = ''admin''"
definition AccountRoleUser :: string where "AccountRoleUser = ''user''"

definition ValidRole :: "string \<Rightarrow> bool" where
  "ValidRole r \<longleftrightarrow> r = AccountRoleAdmin \<or> r = AccountRoleUser"

record account =
  a_ID :: int
  a_Username :: string
  a_Role :: string
  a_ExternalID :: string
  a_GroupName :: string
  a_Enabled :: bool
  a_CreatedAt :: gotime
  a_SessionVersion :: int

record credentials =
  cd_Account :: account
  cd_PasswordHash :: string

record create_account_input =
  ca_Username :: string
  ca_PasswordHash :: string
  ca_Role :: string
  ca_ExternalID :: string

record settings =
  st_RegistrationEnabled :: bool
  st_NewUserInitialBalance :: int

definition DefaultRegistrationEnabled :: bool where "DefaultRegistrationEnabled = False"
definition DefaultNewUserInitialBalance :: int where "DefaultNewUserInitialBalance = 0"

section \<open>Passwords\<close>

definition MinPasswordLen :: nat where "MinPasswordLen = 8"
definition MaxPasswordBytes :: nat where "MaxPasswordBytes = 72"

record bcrypt =
  bc_Generate :: "string \<Rightarrow> string \<Rightarrow> string result"
  bc_Compare :: "string \<Rightarrow> string \<Rightarrow> bool"

text \<open>\<open>utf8.RuneCountInString\<close>: an invalid byte counts as one rune.\<close>

fun runeCountFuel :: "nat \<Rightarrow> string \<Rightarrow> nat" where
  "runeCountFuel 0 s = 0"
| "runeCountFuel (Suc n) s =
     (case s of [] \<Rightarrow> 0 | _ # _ \<Rightarrow> 1 + runeCountFuel n (drop (max 1 (runeLen s)) s))"

definition RuneCountInString :: "string \<Rightarrow> nat" where
  "RuneCountInString s = runeCountFuel (length s) s"

definition HashPassword :: "bcrypt \<Rightarrow> string \<Rightarrow> string \<Rightarrow> string result" where
  "HashPassword bc salt plain =
     (if RuneCountInString plain < MinPasswordLen then Inl ErrPasswordTooShort
      else if length plain > MaxPasswordBytes then Inl ErrPasswordTooLong
      else bc_Generate bc salt plain)"

definition CheckPassword :: "bcrypt \<Rightarrow> string \<Rightarrow> string \<Rightarrow> bool" where
  "CheckPassword bc hash plain = bc_Compare bc hash plain"

lemma HashPassword_bounds:
  "HashPassword bc salt plain = Inr h \<Longrightarrow>
     MinPasswordLen \<le> RuneCountInString plain \<and> length plain \<le> MaxPasswordBytes \<and> bc_Generate bc salt plain = Inr h"
  by (simp add: HashPassword_def split: if_splits)

section \<open>The interface\<close>

text \<open>\<open>AccountStore\<close> and \<open>SettingsStore\<close>: \<open>'e\<close> is what an implementation takes from its surroundings in
  one call (the clock, the failures of the database), \<open>'s\<close> its state.\<close>

record ('e, 's) account_ops =
  ao_CreateUserAccount :: "'e \<Rightarrow> string \<Rightarrow> string \<Rightarrow> int \<Rightarrow> 's \<Rightarrow> 's \<times> account result"
  ao_CreateAccount :: "'e \<Rightarrow> create_account_input \<Rightarrow> 's \<Rightarrow> 's \<times> account result"
  ao_GetCredentials :: "'e \<Rightarrow> string \<Rightarrow> 's \<Rightarrow> credentials result"
  ao_GetByID :: "'e \<Rightarrow> int \<Rightarrow> 's \<Rightarrow> account result"
  ao_GetByUsername :: "'e \<Rightarrow> string \<Rightarrow> 's \<Rightarrow> account result"
  ao_ListAccounts :: "'e \<Rightarrow> int \<Rightarrow> int \<Rightarrow> 's \<Rightarrow> account list result"
  ao_CountAccounts :: "'e \<Rightarrow> 's \<Rightarrow> int result"
  ao_SetEnabled :: "'e \<Rightarrow> int \<Rightarrow> bool \<Rightarrow> 's \<Rightarrow> 's \<times> account result"
  ao_UpdatePassword :: "'e \<Rightarrow> int \<Rightarrow> string \<Rightarrow> 's \<Rightarrow> 's \<times> unit result"

record ('e, 's) settings_ops =
  so_Get :: "'e \<Rightarrow> 's \<Rightarrow> settings result"
  so_Put :: "'e \<Rightarrow> settings \<Rightarrow> 's \<Rightarrow> 's \<times> unit result"

text \<open>What an operation may do to one account.\<close>

definition switched :: "bool \<Rightarrow> account \<Rightarrow> account" where
  "switched b a = a\<lparr>a_Enabled := b,
     a_SessionVersion := (if b then a_SessionVersion a else a_SessionVersion a + 1)\<rparr>"

definition rekeyed :: "account \<Rightarrow> account" where
  "rekeyed a = a\<lparr>a_SessionVersion := a_SessionVersion a + 1\<rparr>"

lemma a_ID_new [simp]: "a_ID (switched b a) = a_ID a" "a_ID (rekeyed a) = a_ID a"
  by (simp_all add: switched_def rekeyed_def)

text \<open>The role of an account and its tie to a billing entity belong together.\<close>

definition account_ok :: "account \<Rightarrow> bool" where
  "account_ok a \<longleftrightarrow>
     (a_Role a = AccountRoleAdmin \<and> a_ExternalID a = []) \<or>
     (a_Role a = AccountRoleUser \<and> a_ExternalID a = a_Username a)"

definition fresh_account :: "string \<Rightarrow> string \<Rightarrow> account \<Rightarrow> bool" where
  "fresh_account username role a \<longleftrightarrow>
     a_Username a = username \<and> a_Role a = role \<and> a_Enabled a \<and> a_SessionVersion a = 0 \<and> account_ok a"

text \<open>A change of the accounts: \<open>changed_by P r f s s'\<close> says that the call answered \<open>r\<close> and either
  failed and changed nothing, or replaced or added one account (as \<open>P old new\<close> allows), in which case
  a successful answer is \<open>f\<close> of the new account. An error may hide a change whose reply was lost.\<close>

definition changed_by ::
  "(account option \<Rightarrow> account \<Rightarrow> bool) \<Rightarrow> (account \<Rightarrow> 'r) \<Rightarrow> 'r result \<Rightarrow>
   (int \<Rightarrow> account option) \<Rightarrow> (int \<Rightarrow> account option) \<Rightarrow> bool" where
  "changed_by P f r accs accs' \<longleftrightarrow>
     (\<not> is_ok r \<and> accs' = accs) \<or>
     (\<exists>a. P (accs (a_ID a)) a \<and> accs' = accs(a_ID a \<mapsto> a) \<and> (is_ok r \<longrightarrow> r = Inr (f a)))"

text \<open>\<open>wf n s\<close>: a well-formed store with room for \<open>n\<close> more changes before a 64-bit counter runs over.\<close>

locale account_store =
  fixes ops :: "('e, 's) account_ops"
    and wf :: "nat \<Rightarrow> 's \<Rightarrow> bool"
    and accs :: "'s \<Rightarrow> int \<Rightarrow> account option"
  assumes room: "wf (Suc n) s \<Longrightarrow> wf n s"
    and ids: "wf n s \<Longrightarrow> accs s i = Some a \<Longrightarrow> a_ID a = i \<and> account_ok a"
    and getByID: "wf n s \<Longrightarrow> ao_GetByID ops e i s = Inr a \<Longrightarrow> accs s i = Some a"
    and getCredentials: "wf n s \<Longrightarrow> ao_GetCredentials ops e u s = Inr c \<Longrightarrow>
      a_Username (cd_Account c) = u \<and> accs s (a_ID (cd_Account c)) = Some (cd_Account c)"
    and setEnabled: "wf (Suc n) s \<Longrightarrow> ao_SetEnabled ops e i b s = (s', r) \<Longrightarrow>
      wf n s' \<and> changed_by (\<lambda>old new. a_ID new = i \<and> map_option (switched b) old = Some new) (\<lambda>a. a) r (accs s) (accs s')"
    and updatePassword: "wf (Suc n) s \<Longrightarrow> ao_UpdatePassword ops e i h s = (s', ru) \<Longrightarrow>
      wf n s' \<and> changed_by (\<lambda>old new. a_ID new = i \<and> map_option rekeyed old = Some new) (\<lambda>a. ()) ru (accs s) (accs s')"
    and createUser: "wf (Suc n) s \<Longrightarrow> ao_CreateUserAccount ops e u h bal s = (s', r) \<Longrightarrow>
      wf n s' \<and> changed_by (\<lambda>old new. old = None \<and> fresh_account u AccountRoleUser new) (\<lambda>a. a) r (accs s) (accs s')"
    and createAccount: "wf (Suc n) s \<Longrightarrow> ao_CreateAccount ops e inp s = (s', r) \<Longrightarrow>
      wf n s' \<and> changed_by (\<lambda>old new. old = None \<and> fresh_account (ca_Username inp) AccountRoleAdmin new) (\<lambda>a. a) r (accs s) (accs s')"

section \<open>In memory\<close>

text \<open>\<open>byID\<close> and \<open>byName\<close> hold the address of one record; every method runs under the mutex.\<close>

record mem_account =
  mc_acc :: account
  mc_hash :: string

record mem_accounts =
  ma_base :: mem_store
  ma_heap :: "(addr, mem_account) gomap"
  ma_next :: addr
  ma_byID :: "(int, addr) gomap"
  ma_byName :: "(string, addr) gomap"
  ma_nextID :: int
  ma_settings :: settings

definition NewMemAccounts :: "mem_store \<Rightarrow> mem_accounts" where
  "NewMemAccounts base = \<lparr>ma_base = base, ma_heap = [], ma_next = 0, ma_byID = [], ma_byName = [], ma_nextID = 1,
     ma_settings = \<lparr>st_RegistrationEnabled = DefaultRegistrationEnabled,
                    st_NewUserInitialBalance = DefaultNewUserInitialBalance\<rparr>\<rparr>"

definition insertLocked ::
  "gotime \<Rightarrow> string \<Rightarrow> string \<Rightarrow> string \<Rightarrow> string \<Rightarrow> mem_accounts \<Rightarrow> mem_accounts \<times> account" where
  "insertLocked now username hash role externalID m =
     (let acc = \<lparr>a_ID = ma_nextID m, a_Username = username, a_Role = role, a_ExternalID = externalID,
                 a_GroupName = ''default'', a_Enabled = True, a_CreatedAt = now, a_SessionVersion = 0\<rparr>;
          p = ma_next m
      in (m\<lparr>ma_heap := mput p \<lparr>mc_acc = acc, mc_hash = hash\<rparr> (ma_heap m), ma_next := p + 1,
            ma_byID := mput (a_ID acc) p (ma_byID m), ma_byName := mput username p (ma_byName m),
            ma_nextID := i64 (ma_nextID m + 1)\<rparr>, acc))"

definition MemCreateUserAccount ::
  "gotime \<Rightarrow> string \<Rightarrow> string \<Rightarrow> int \<Rightarrow> mem_accounts \<Rightarrow> mem_accounts \<times> account result" where
  "MemCreateUserAccount now username passwordHash initialBalance m =
     (if mhas (ma_byName m) username then (m, Inl ErrAccountConflict)
      else (case AdminCreateUser now (ma_base m) username initialBalance True of
              (base', Inl err) \<Rightarrow> (m\<lparr>ma_base := base'\<rparr>, Inl ErrAccountConflict)
            | (base', Inr v) \<Rightarrow>
                map_prod id Inr (insertLocked now username passwordHash AccountRoleUser username (m\<lparr>ma_base := base'\<rparr>))))"

definition MemCreateAccount ::
  "gotime \<Rightarrow> create_account_input \<Rightarrow> mem_accounts \<Rightarrow> mem_accounts \<times> account result" where
  "MemCreateAccount now inp m =
     (if ca_Role inp \<noteq> AccountRoleAdmin \<or> ca_ExternalID inp \<noteq> [] then (m, Inl ErrInvalidRole)
      else if mhas (ma_byName m) (ca_Username inp) then (m, Inl ErrAccountConflict)
      else map_prod id Inr (insertLocked now (ca_Username inp) (ca_PasswordHash inp) (ca_Role inp) (ca_ExternalID inp) m))"

definition recordAt :: "mem_accounts \<Rightarrow> addr \<Rightarrow> mem_account" where
  "recordAt m p = the (map_of (ma_heap m) p)"

definition MemGetCredentials :: "gotime \<Rightarrow> string \<Rightarrow> mem_accounts \<Rightarrow> credentials result" where
  "MemGetCredentials now username m =
     (case map_of (ma_byName m) username of
        None \<Rightarrow> Inl ErrAccountNotFound
      | Some p \<Rightarrow> Inr \<lparr>cd_Account = mc_acc (recordAt m p), cd_PasswordHash = mc_hash (recordAt m p)\<rparr>)"

definition MemGetByID :: "gotime \<Rightarrow> int \<Rightarrow> mem_accounts \<Rightarrow> account result" where
  "MemGetByID now i m =
     (case map_of (ma_byID m) i of
        None \<Rightarrow> Inl ErrAccountNotFound
      | Some p \<Rightarrow> Inr (mc_acc (recordAt m p)))"

definition MemGetByUsername :: "gotime \<Rightarrow> string \<Rightarrow> mem_accounts \<Rightarrow> account result" where
  "MemGetByUsername now username m =
     (case map_of (ma_byName m) username of
        None \<Rightarrow> Inl ErrAccountNotFound
      | Some p \<Rightarrow> Inr (mc_acc (recordAt m p)))"

definition sortAccountsDesc :: "account list \<Rightarrow> account list" where
  "sortAccountsDesc = sort_key (\<lambda>a. - a_ID a)"

definition pageAccounts :: "account list \<Rightarrow> int \<Rightarrow> int \<Rightarrow> account list" where
  "pageAccounts a limit offset =
     (let offset = (if offset < 0 then 0 else offset)
      in if offset \<ge> int (length a) then []
         else let a = drop (nat offset) a
              in if limit > 0 \<and> limit < int (length a) then take (nat limit) a else a)"

definition MemListAccounts :: "gotime \<Rightarrow> int \<Rightarrow> int \<Rightarrow> mem_accounts \<Rightarrow> account list result" where
  "MemListAccounts now limit offset m =
     Inr (pageAccounts (sortAccountsDesc (map (\<lambda>(i, p). mc_acc (recordAt m p)) (ma_byID m))) limit offset)"

definition MemCountAccounts :: "gotime \<Rightarrow> mem_accounts \<Rightarrow> int result" where
  "MemCountAccounts now m = Inr (int (length (ma_byID m)))"

definition MemSetEnabled :: "gotime \<Rightarrow> int \<Rightarrow> bool \<Rightarrow> mem_accounts \<Rightarrow> mem_accounts \<times> account result" where
  "MemSetEnabled now i enabled m =
     (case map_of (ma_byID m) i of
        None \<Rightarrow> (m, Inl ErrAccountNotFound)
      | Some p \<Rightarrow>
          let acc = (mc_acc (recordAt m p))\<lparr>a_Enabled := enabled\<rparr>;
              acc = (if \<not> enabled then acc\<lparr>a_SessionVersion := i64 (a_SessionVersion acc + 1)\<rparr> else acc)
          in (m\<lparr>ma_heap := mput p ((recordAt m p)\<lparr>mc_acc := acc\<rparr>) (ma_heap m)\<rparr>, Inr acc))"

definition MemUpdatePassword :: "gotime \<Rightarrow> int \<Rightarrow> string \<Rightarrow> mem_accounts \<Rightarrow> mem_accounts \<times> unit result" where
  "MemUpdatePassword now i passwordHash m =
     (case map_of (ma_byID m) i of
        None \<Rightarrow> (m, Inl ErrAccountNotFound)
      | Some p \<Rightarrow>
          let acc = mc_acc (recordAt m p)
          in (m\<lparr>ma_heap := mput p \<lparr>mc_acc = acc\<lparr>a_SessionVersion := i64 (a_SessionVersion acc + 1)\<rparr>,
                  mc_hash = passwordHash\<rparr> (ma_heap m)\<rparr>, Inr ()))"

definition MemGetSettings :: "gotime \<Rightarrow> mem_accounts \<Rightarrow> settings result" where
  "MemGetSettings now m = Inr (ma_settings m)"

definition MemPutSettings :: "gotime \<Rightarrow> settings \<Rightarrow> mem_accounts \<Rightarrow> mem_accounts \<times> unit result" where
  "MemPutSettings now st m = (m\<lparr>ma_settings := st\<rparr>, Inr ())"

definition memAccountStore :: "(gotime, mem_accounts) account_ops" where
  "memAccountStore = \<lparr>ao_CreateUserAccount = MemCreateUserAccount, ao_CreateAccount = MemCreateAccount,
     ao_GetCredentials = MemGetCredentials, ao_GetByID = MemGetByID, ao_GetByUsername = MemGetByUsername,
     ao_ListAccounts = MemListAccounts, ao_CountAccounts = MemCountAccounts, ao_SetEnabled = MemSetEnabled,
     ao_UpdatePassword = MemUpdatePassword\<rparr>"

definition memSettingsStore :: "(gotime, mem_accounts) settings_ops" where
  "memSettingsStore = \<lparr>so_Get = MemGetSettings, so_Put = MemPutSettings\<rparr>"

section \<open>The memory store keeps the contract\<close>

text \<open>Both indexes reach the same records: the record of an id has that id, the record of a name has that
  name, and every record that one index reaches the other reaches too.\<close>

definition mem_indexed :: "mem_accounts \<Rightarrow> bool" where
  "mem_indexed m \<longleftrightarrow>
     (\<forall>i p. map_of (ma_byID m) i = Some p \<longrightarrow>
        (\<exists>r. map_of (ma_heap m) p = Some r \<and> a_ID (mc_acc r) = i \<and> account_ok (mc_acc r) \<and>
             map_of (ma_byName m) (a_Username (mc_acc r)) = Some p)) \<and>
     (\<forall>u p. map_of (ma_byName m) u = Some p \<longrightarrow>
        (\<exists>r. map_of (ma_heap m) p = Some r \<and> a_Username (mc_acc r) = u \<and>
             map_of (ma_byID m) (a_ID (mc_acc r)) = Some p))"

definition mem_alloc :: "mem_accounts \<Rightarrow> bool" where
  "mem_alloc m \<longleftrightarrow>
     (\<forall>p. map_of (ma_heap m) p \<noteq> None \<longrightarrow> p < ma_next m) \<and>
     (\<forall>i. map_of (ma_byID m) i \<noteq> None \<longrightarrow> i < ma_nextID m)"

definition mem_room :: "nat \<Rightarrow> mem_accounts \<Rightarrow> bool" where
  "mem_room n m \<longleftrightarrow> 0 < ma_nextID m \<and> ma_nextID m + int n \<le> max_int64 \<and>
     (\<forall>p r. map_of (ma_heap m) p = Some r \<longrightarrow>
        0 \<le> a_SessionVersion (mc_acc r) \<and> a_SessionVersion (mc_acc r) + int n \<le> max_int64)"

definition mem_wf :: "nat \<Rightarrow> mem_accounts \<Rightarrow> bool" where
  "mem_wf n m \<longleftrightarrow> mwf (ma_heap m) \<and> mwf (ma_byID m) \<and> mwf (ma_byName m) \<and>
     mem_indexed m \<and> mem_alloc m \<and> mem_room n m"

definition mem_accs :: "mem_accounts \<Rightarrow> int \<Rightarrow> account option" where
  "mem_accs m i =
     (case map_of (ma_byID m) i of None \<Rightarrow> None | Some p \<Rightarrow> Some (mc_acc (recordAt m p)))"

named_theorems mem_accounts "the memory store of accounts"

lemmas mem_accounts_defs [mem_accounts] =
  mem_accs_def recordAt_def MemGetByID_def MemGetCredentials_def MemSetEnabled_def MemUpdatePassword_def
  MemCreateUserAccount_def MemCreateAccount_def insertLocked_def

lemma mem_room_i64: "mem_room (Suc n) m \<Longrightarrow> map_of (ma_heap m) p = Some r \<Longrightarrow>
    i64 (a_SessionVersion (mc_acc r) + 1) = a_SessionVersion (mc_acc r) + 1"
  by (rule i64_id) (fastforce simp: mem_room_def go_int)

lemma mem_room_next: "mem_room (Suc n) m \<Longrightarrow> i64 (ma_nextID m + 1) = ma_nextID m + 1"
  by (rule i64_id) (auto simp: mem_room_def go_int)

lemma mem_byID:
  assumes "mem_indexed m" "map_of (ma_byID m) i = Some p"
  obtains r where "map_of (ma_heap m) p = Some r" "a_ID (mc_acc r) = i" "account_ok (mc_acc r)"
    "map_of (ma_byName m) (a_Username (mc_acc r)) = Some p"
  using assms unfolding mem_indexed_def by blast

lemma mem_byName:
  assumes "mem_indexed m" "map_of (ma_byName m) u = Some p"
  obtains r where "map_of (ma_heap m) p = Some r" "a_Username (mc_acc r) = u"
    "map_of (ma_byID m) (a_ID (mc_acc r)) = Some p"
  using assms unfolding mem_indexed_def by blast

lemma mem_indexedI:
  assumes "\<And>i p. map_of (ma_byID m) i = Some p \<Longrightarrow>
        \<exists>r. map_of (ma_heap m) p = Some r \<and> a_ID (mc_acc r) = i \<and> account_ok (mc_acc r) \<and>
             map_of (ma_byName m) (a_Username (mc_acc r)) = Some p"
    and "\<And>u p. map_of (ma_byName m) u = Some p \<Longrightarrow>
        \<exists>r. map_of (ma_heap m) p = Some r \<and> a_Username (mc_acc r) = u \<and>
             map_of (ma_byID m) (a_ID (mc_acc r)) = Some p"
  shows "mem_indexed m"
  using assms by (simp add: mem_indexed_def)

lemma mem_room_old:
  "mem_room (Suc n) m \<Longrightarrow> map_of (ma_heap m) p = Some r \<Longrightarrow>
     0 \<le> a_SessionVersion (mc_acc r) \<and> a_SessionVersion (mc_acc r) + 1 + int n \<le> max_int64"
  unfolding mem_room_def by (metis add.assoc of_nat_Suc)

text \<open>Replacing the account in a record, keeping its identity.\<close>

lemma mem_wf_update:
  assumes "mem_wf (Suc n) m" "map_of (ma_byID m) i = Some p" "map_of (ma_heap m) p = Some r"
    and "a_ID acc = a_ID (mc_acc r)" "a_Username acc = a_Username (mc_acc r)" "account_ok acc"
    and "a_SessionVersion (mc_acc r) \<le> a_SessionVersion acc" "a_SessionVersion acc \<le> a_SessionVersion (mc_acc r) + 1"
  shows "mem_wf n (m\<lparr>ma_heap := mput p \<lparr>mc_acc = acc, mc_hash = h\<rparr> (ma_heap m)\<rparr>)"
    and "mem_accs (m\<lparr>ma_heap := mput p \<lparr>mc_acc = acc, mc_hash = h\<rparr> (ma_heap m)\<rparr>) = (mem_accs m)(i \<mapsto> acc)"
proof -
  let ?m = "m\<lparr>ma_heap := mput p \<lparr>mc_acc = acc, mc_hash = h\<rparr> (ma_heap m)\<rparr>"
  have idx: "mem_indexed m" using assms(1) by (simp add: mem_wf_def)
  have ri: "a_ID (mc_acc r) = i" by (rule mem_byID [OF idx assms(2)]) (use assms(3) in simp)
  have inj: "i' = i" if "map_of (ma_byID m) i' = Some p" for i'
    by (rule mem_byID [OF idx that]) (use assms(3) ri in simp)
  have "mem_indexed ?m"
  proof (rule mem_indexedI)
    fix j q
    assume "map_of (ma_byID ?m) j = Some q"
    then have j: "map_of (ma_byID m) j = Some q" by simp
    show "\<exists>x. map_of (ma_heap ?m) q = Some x \<and> a_ID (mc_acc x) = j \<and> account_ok (mc_acc x) \<and>
        map_of (ma_byName ?m) (a_Username (mc_acc x)) = Some q"
    proof -
      obtain x where "map_of (ma_heap m) q = Some x" "a_ID (mc_acc x) = j" "account_ok (mc_acc x)"
          "map_of (ma_byName m) (a_Username (mc_acc x)) = Some q"
        by (rule mem_byID [OF idx j])
      then show ?thesis using assms(3-6) by (cases "q = p") auto
    qed
  next
    fix v q
    assume "map_of (ma_byName ?m) v = Some q"
    then have v: "map_of (ma_byName m) v = Some q" by simp
    show "\<exists>x. map_of (ma_heap ?m) q = Some x \<and> a_Username (mc_acc x) = v \<and>
        map_of (ma_byID ?m) (a_ID (mc_acc x)) = Some q"
    proof -
      obtain x where "map_of (ma_heap m) q = Some x" "a_Username (mc_acc x) = v"
          "map_of (ma_byID m) (a_ID (mc_acc x)) = Some q"
        by (rule mem_byName [OF idx v])
      then show ?thesis using assms(3-6) by (cases "q = p") auto
    qed
  qed
  moreover have "mem_alloc ?m"
    using assms(1,3) by (auto simp: mem_wf_def mem_alloc_def)
  moreover have "mem_room n ?m"
  proof -
    have room: "mem_room (Suc n) m" using assms(1) by (simp add: mem_wf_def)
    have "0 \<le> a_SessionVersion (mc_acc x) \<and> a_SessionVersion (mc_acc x) + int n \<le> max_int64"
      if "map_of (ma_heap ?m) q = Some x" for q x
      using that assms(7,8) mem_room_old [OF room assms(3)] mem_room_old [OF room, of q x]
      by (auto split: if_splits)
    then show ?thesis using room by (auto simp: mem_room_def)
  qed
  ultimately show "mem_wf n ?m" using assms(1) by (simp add: mem_wf_def)
  show "mem_accs ?m = (mem_accs m)(i \<mapsto> acc)"
  proof
    fix j
    have "map_of (ma_byID m) j \<noteq> Some p" if "j \<noteq> i" using inj that by blast
    then show "mem_accs ?m j = ((mem_accs m)(i \<mapsto> acc)) j"
      using assms(2) by (cases "j = i") (auto simp: mem_accs_def recordAt_def split: option.split)
  qed
qed

lemma mem_record:
  assumes "mem_wf n m" "map_of (ma_byID m) i = Some p"
  obtains r where "map_of (ma_heap m) p = Some r" "recordAt m p = r" "a_ID (mc_acc r) = i"
    "account_ok (mc_acc r)" "mem_accs m i = Some (mc_acc r)"
  using assms by (fastforce simp: mem_wf_def mem_indexed_def mem_accs_def recordAt_def)

lemma mem_insert:
  assumes "mem_wf (Suc n) m" "map_of (ma_byName m) u = None" "insertLocked now u h role ext m = (m', acc)"
    "account_ok acc"
  shows "mem_wf n m' \<and> mem_accs m (a_ID acc) = None \<and> mem_accs m' = (mem_accs m)(a_ID acc \<mapsto> acc)"
proof -
  note wf = assms(1) [unfolded mem_wf_def]
  have free: "map_of (ma_byID m) (ma_nextID m) = None" "map_of (ma_heap m) (ma_next m) = None"
    using wf by (auto simp: mem_alloc_def)
  have acc: "a_ID acc = ma_nextID m" "a_Username acc = u" "a_SessionVersion acc = 0"
    using assms(3) by (auto simp: insertLocked_def Let_def)
  have m': "ma_heap m' = mput (ma_next m) \<lparr>mc_acc = acc, mc_hash = h\<rparr> (ma_heap m)" "ma_next m' = ma_next m + 1"
      "ma_byID m' = mput (ma_nextID m) (ma_next m) (ma_byID m)"
      "ma_byName m' = mput u (ma_next m) (ma_byName m)" "ma_nextID m' = ma_nextID m + 1"
    using assms(3) wf by (auto simp: insertLocked_def Let_def mem_room_next)
  have idx: "mem_indexed m" using wf by blast
  have "mem_indexed m'"
  proof (rule mem_indexedI)
    fix i p
    assume p: "map_of (ma_byID m') i = Some p"
    show "\<exists>r. map_of (ma_heap m') p = Some r \<and> a_ID (mc_acc r) = i \<and> account_ok (mc_acc r) \<and>
        map_of (ma_byName m') (a_Username (mc_acc r)) = Some p"
    proof (cases "i = ma_nextID m")
      case True
      then show ?thesis using p acc assms(4) by (simp add: m')
    next
      case False
      then have "map_of (ma_byID m) i = Some p" using p by (simp add: m')
      then show ?thesis
        by (rule mem_byID [OF idx]) (use free assms(2) in \<open>auto simp: m'\<close>)
    qed
  next
    fix v p
    assume p: "map_of (ma_byName m') v = Some p"
    show "\<exists>r. map_of (ma_heap m') p = Some r \<and> a_Username (mc_acc r) = v \<and>
        map_of (ma_byID m') (a_ID (mc_acc r)) = Some p"
    proof (cases "v = u")
      case True
      then show ?thesis using p acc by (simp add: m')
    next
      case False
      then have "map_of (ma_byName m) v = Some p" using p by (simp add: m')
      then show ?thesis
        by (rule mem_byName [OF idx]) (use free in \<open>auto simp: m'\<close>)
    qed
  qed
  moreover have "mem_alloc m'"
    using wf unfolding mem_alloc_def m' by (auto simp: less_Suc_eq)
  moreover have "mem_room n m'"
  proof -
    have "0 \<le> a_SessionVersion (mc_acc x) \<and> a_SessionVersion (mc_acc x) + int n \<le> max_int64"
      if "map_of (ma_heap m') q = Some x" for q x
      using that acc wf mem_room_old [of n m q x]
      by (auto simp: m' mem_room_def split: if_splits)
    then show ?thesis using wf by (auto simp: mem_room_def m')
  qed
  moreover have "mem_accs m' = (mem_accs m)(a_ID acc \<mapsto> acc)"
  proof
    fix j
    have "q \<noteq> ma_next m" if "map_of (ma_byID m) j = Some q" for q
      by (rule mem_byID [OF idx that]) (use free in auto)
    then show "mem_accs m' j = ((mem_accs m)(a_ID acc \<mapsto> acc)) j"
      using free acc by (auto simp: mem_accs_def recordAt_def m' split: option.split)
  qed
  ultimately show ?thesis using wf free acc by (simp add: mem_wf_def m' mem_accs_def)
qed

lemma mem_wf_room:
  assumes "mem_wf (Suc n) m"
  shows "mem_wf n m"
proof -
  have room: "mem_room (Suc n) m" using assms by (simp add: mem_wf_def)
  then have "mem_room n m"
    using mem_room_old [OF room] by (fastforce simp: mem_room_def)
  then show ?thesis using assms by (simp add: mem_wf_def)
qed

lemma mem_wf_base [simp]: "mem_wf n (m\<lparr>ma_base := b\<rparr>) = mem_wf n m"
  by (simp add: mem_wf_def mem_indexed_def mem_alloc_def mem_room_def)

lemma recordAt_base [simp]: "recordAt (m\<lparr>ma_base := b\<rparr>) = recordAt m"
  by (simp add: recordAt_def fun_eq_iff)

lemma mem_accs_base [simp]: "mem_accs (m\<lparr>ma_base := b\<rparr>) = mem_accs m"
  by (auto simp: mem_accs_def split: option.split)

lemma record_acc: "(r :: mem_account)\<lparr>mc_acc := x\<rparr> = \<lparr>mc_acc = x, mc_hash = mc_hash r\<rparr>"
  by (cases r) simp

lemma changed_byI:
  "P (accs (a_ID a)) a \<Longrightarrow> accs' = accs(a_ID a \<mapsto> a) \<Longrightarrow> r = Inr (f a) \<Longrightarrow> changed_by P f r accs accs'"
  by (auto simp: changed_by_def)

lemma unchanged: "changed_by P f (Inl err) accs accs"
  by (simp add: changed_by_def)

lemma mem_update_changed:
  assumes "mem_wf (Suc n) m" "map_of (ma_byID m) i = Some p" "recordAt m p = r"
    and "acc = switched b (mc_acc r) \<or> acc = rekeyed (mc_acc r)"
    and "P (Some (mc_acc r)) acc" "res = Inr (f acc)"
  shows "mem_wf n (m\<lparr>ma_heap := mput p \<lparr>mc_acc = acc, mc_hash = h\<rparr> (ma_heap m)\<rparr>) \<and>
    changed_by P f res (mem_accs m) (mem_accs (m\<lparr>ma_heap := mput p \<lparr>mc_acc = acc, mc_hash = h\<rparr> (ma_heap m)\<rparr>))"
proof -
  obtain r' where r': "map_of (ma_heap m) p = Some r'" "recordAt m p = r'" "a_ID (mc_acc r') = i"
    "account_ok (mc_acc r')" "mem_accs m i = Some (mc_acc r')"
    by (rule mem_record [OF assms(1,2)])
  then have r: "r' = r" using assms(3) by simp
  have "account_ok acc" "a_ID acc = i" "a_Username acc = a_Username (mc_acc r)"
    "a_SessionVersion (mc_acc r) \<le> a_SessionVersion acc" "a_SessionVersion acc \<le> a_SessionVersion (mc_acc r) + 1"
    using assms(4) r'(3,4) unfolding r by (auto simp: switched_def rekeyed_def account_ok_def)
  then show ?thesis
    using mem_wf_update [OF assms(1,2) r'(1) [unfolded r], of acc h] r' r assms(5,6)
      changed_byI [of P "mem_accs m" acc]
    by auto
qed

lemma MemSetEnabled_ok:
  assumes "mem_wf (Suc n) m" "MemSetEnabled now i b m = (m', res)"
  shows "mem_wf n m' \<and> changed_by (\<lambda>old new. a_ID new = i \<and> map_option (switched b) old = Some new)
    (\<lambda>a. a) res (mem_accs m) (mem_accs m')"
proof (cases "map_of (ma_byID m) i")
  case None
  then show ?thesis using assms mem_wf_room by (auto simp: MemSetEnabled_def unchanged)
next
  case (Some p)
  obtain r where r: "map_of (ma_heap m) p = Some r" "recordAt m p = r" "a_ID (mc_acc r) = i"
    by (rule mem_record [OF assms(1) Some])
  have room: "mem_room (Suc n) m" using assms(1) by (simp add: mem_wf_def)
  have m': "m' = m\<lparr>ma_heap := mput p \<lparr>mc_acc = switched b (mc_acc r), mc_hash = mc_hash r\<rparr> (ma_heap m)\<rparr>"
      "res = Inr (switched b (mc_acc r))"
    using assms(2) Some r mem_room_i64 [OF room r(1)]
    by (auto simp: MemSetEnabled_def switched_def Let_def record_acc)
  show ?thesis unfolding m'
    by (rule mem_update_changed [OF assms(1) Some r(2), where b = b])
       (use r(3) in \<open>auto simp: switched_def\<close>)
qed

lemma MemUpdatePassword_ok:
  assumes "mem_wf (Suc n) m" "MemUpdatePassword now i h m = (m', res)"
  shows "mem_wf n m' \<and> changed_by (\<lambda>old new. a_ID new = i \<and> map_option rekeyed old = Some new)
    (\<lambda>a. ()) res (mem_accs m) (mem_accs m')"
proof (cases "map_of (ma_byID m) i")
  case None
  then show ?thesis using assms mem_wf_room by (auto simp: MemUpdatePassword_def unchanged)
next
  case (Some p)
  obtain r where r: "map_of (ma_heap m) p = Some r" "recordAt m p = r" "a_ID (mc_acc r) = i"
    by (rule mem_record [OF assms(1) Some])
  have room: "mem_room (Suc n) m" using assms(1) by (simp add: mem_wf_def)
  have m': "m' = m\<lparr>ma_heap := mput p \<lparr>mc_acc = rekeyed (mc_acc r), mc_hash = h\<rparr> (ma_heap m)\<rparr>" "res = Inr ()"
    using assms(2) Some r mem_room_i64 [OF room r(1)]
    by (auto simp: MemUpdatePassword_def rekeyed_def Let_def)
  show ?thesis unfolding m'
    by (rule mem_update_changed [OF assms(1) Some r(2)]) (use r(3) in \<open>auto simp: rekeyed_def\<close>)
qed

lemma insertLocked_account:
  "insertLocked now u h role ext m = (m', acc) \<Longrightarrow>
     a_Username acc = u \<and> a_Role acc = role \<and> a_ExternalID acc = ext \<and> a_Enabled acc \<and> a_SessionVersion acc = 0"
  by (auto simp: insertLocked_def Let_def)

lemma mem_insert_changed:
  assumes "mem_wf (Suc n) m" "map_of (ma_byName m) u = None" "insertLocked now u h role ext m = (m', acc)"
    "(role = AccountRoleAdmin \<and> ext = []) \<or> (role = AccountRoleUser \<and> ext = u)"
  shows "mem_wf n m' \<and> changed_by (\<lambda>old new. old = None \<and> fresh_account u role new) (\<lambda>a. a) (Inr acc)
    (mem_accs m) (mem_accs m')"
proof -
  have ok: "account_ok acc" and fresh: "fresh_account u role acc"
    using insertLocked_account [OF assms(3)] assms(4) by (auto simp: account_ok_def fresh_account_def)
  from mem_insert [OF assms(1-3) ok] fresh show ?thesis
    by (auto intro!: changed_byI [where a = acc])
qed

lemma MemCreateUserAccount_ok:
  assumes "mem_wf (Suc n) m" "MemCreateUserAccount now u h bal m = (m', res)"
  shows "mem_wf n m' \<and> changed_by (\<lambda>old new. old = None \<and> fresh_account u AccountRoleUser new) (\<lambda>a. a) res
    (mem_accs m) (mem_accs m')"
proof -
  obtain b r where b: "AdminCreateUser now (ma_base m) u bal True = (b, r)" by fastforce
  show ?thesis
  proof (cases "mhas (ma_byName m) u \<or> \<not> is_ok r")
    case True
    then show ?thesis using assms b mem_wf_room
      by (auto simp: MemCreateUserAccount_def changed_by_def split: sum.splits if_splits)
  next
    case False
    obtain m1 acc where ins: "insertLocked now u h AccountRoleUser u (m\<lparr>ma_base := b\<rparr>) = (m1, acc)" by fastforce
    then have "m' = m1" "res = Inr acc"
      using False assms(2) b by (auto simp: MemCreateUserAccount_def split: sum.splits)
    then show ?thesis
      using mem_insert_changed [OF _ _ ins, of n] assms(1) False by (simp add: mhas_def)
  qed
qed

lemma MemCreateAccount_ok:
  assumes "mem_wf (Suc n) m" "MemCreateAccount now inp m = (m', res)"
  shows "mem_wf n m' \<and> changed_by (\<lambda>old new. old = None \<and> fresh_account (ca_Username inp) AccountRoleAdmin new)
    (\<lambda>a. a) res (mem_accs m) (mem_accs m')"
proof (cases "ca_Role inp \<noteq> AccountRoleAdmin \<or> ca_ExternalID inp \<noteq> [] \<or> mhas (ma_byName m) (ca_Username inp)")
  case True
  then show ?thesis using assms mem_wf_room
    by (auto simp: MemCreateAccount_def changed_by_def split: if_splits)
next
  case False
  obtain m1 acc where ins: "insertLocked now (ca_Username inp) (ca_PasswordHash inp) AccountRoleAdmin [] m = (m1, acc)"
    by fastforce
  then have "m' = m1" "res = Inr acc" using False assms(2) by (auto simp: MemCreateAccount_def)
  then show ?thesis using mem_insert_changed [OF assms(1) _ ins] False by (simp add: mhas_def)
qed

interpretation mem_store: account_store memAccountStore mem_wf mem_accs
proof
  fix n s assume "mem_wf (Suc n) s" then show "mem_wf n s" by (rule mem_wf_room)
next
  fix n s i a assume w: "mem_wf n s" and a: "mem_accs s i = Some a"
  then obtain p where p: "map_of (ma_byID s) i = Some p" by (auto simp: mem_accs_def split: option.splits)
  show "a_ID a = i \<and> account_ok a" by (rule mem_record [OF w p]) (use a in auto)
next
  fix n s e i a assume "mem_wf n s" "ao_GetByID memAccountStore e i s = Inr a"
  then show "mem_accs s i = Some a"
    by (auto simp: memAccountStore_def MemGetByID_def mem_accs_def split: option.splits)
next
  fix n s e u c assume w: "mem_wf n s" and c: "ao_GetCredentials memAccountStore e u s = Inr c"
  then obtain p where p: "map_of (ma_byName s) u = Some p"
    by (auto simp: memAccountStore_def MemGetCredentials_def split: option.splits)
  have idx: "mem_indexed s" using w by (simp add: mem_wf_def)
  obtain r where "map_of (ma_heap s) p = Some r" "a_Username (mc_acc r) = u"
    "map_of (ma_byID s) (a_ID (mc_acc r)) = Some p"
    by (rule mem_byName [OF idx p])
  then show "a_Username (cd_Account c) = u \<and> mem_accs s (a_ID (cd_Account c)) = Some (cd_Account c)"
    using c p by (auto simp: memAccountStore_def MemGetCredentials_def mem_accs_def recordAt_def)
next
  fix n s e i b s' r
  assume "mem_wf (Suc n) s" "ao_SetEnabled memAccountStore e i b s = (s', r)"
  then show "mem_wf n s' \<and> changed_by (\<lambda>old new. a_ID new = i \<and> map_option (switched b) old = Some new) (\<lambda>a. a) r
      (mem_accs s) (mem_accs s')"
    using MemSetEnabled_ok by (simp add: memAccountStore_def)
next
  fix n s e i h s' r
  assume "mem_wf (Suc n) s" "ao_UpdatePassword memAccountStore e i h s = (s', r)"
  then show "mem_wf n s' \<and> changed_by (\<lambda>old new. a_ID new = i \<and> map_option rekeyed old = Some new) (\<lambda>a. ()) r
      (mem_accs s) (mem_accs s')"
    using MemUpdatePassword_ok by (simp add: memAccountStore_def)
next
  fix n s e u h bal s' r
  assume "mem_wf (Suc n) s" "ao_CreateUserAccount memAccountStore e u h bal s = (s', r)"
  then show "mem_wf n s' \<and> changed_by (\<lambda>old new. old = None \<and> fresh_account u AccountRoleUser new) (\<lambda>a. a) r
      (mem_accs s) (mem_accs s')"
    using MemCreateUserAccount_ok by (simp add: memAccountStore_def)
next
  fix n s e inp s' r
  assume "mem_wf (Suc n) s" "ao_CreateAccount memAccountStore e inp s = (s', r)"
  then show "mem_wf n s' \<and> changed_by (\<lambda>old new. old = None \<and> fresh_account (ca_Username inp) AccountRoleAdmin new)
      (\<lambda>a. a) r (mem_accs s) (mem_accs s')"
    using MemCreateAccount_ok by (simp add: memAccountStore_def)
qed

lemma NewMemAccounts_wf: "mem_wf (nat (max_int64 - 1)) (NewMemAccounts base)"
  by (simp add: mem_wf_def mem_indexed_def mem_alloc_def mem_room_def NewMemAccounts_def go_int)

lemma NewMemAccounts_none [simp]: "mem_accs (NewMemAccounts base) i = None"
  by (simp add: mem_accs_def NewMemAccounts_def)

end
