(* ===== verification/PgAccount.thy ===== *)
theory PgAccount
  imports Account PgLedger GoStrings
begin

text \<open>
  The production account and settings store: \<open>internal/account/postgres.go\<close> with the statements of
  \<open>internal/db/accounts.sql.go\<close>, \<open>settings.sql.go\<close> and the \<open>CreateUser\<close> of \<open>users.sql.go\<close>, over the
  tables and constraints of \<open>internal/db/schema.sql\<close>, in the style of \<open>PgLedger\<close>: the environment of a
  call says which statements fail, what a commit (explicit, or of a single statement) does, the clock
  of the database and the value of the identity column. It keeps the same contract as the memory
  store, so every fact about sessions holds for both.
\<close>

section \<open>Tables\<close>

record db_account =
  ac_ID :: int
  ac_Username :: string
  ac_PasswordHash :: string
  ac_Role :: string
  ac_ExternalID :: "string option"
  ac_GroupName :: string
  ac_Enabled :: bool
  ac_SessionVersion :: int
  ac_CreatedAt :: gotime
  ac_UpdatedAt :: gotime

record pg_accounts =
  pa_billing :: pg_db
  pa_accounts :: "(int, db_account) gomap"
  pa_settings :: "(string, string) gomap"

datatype acc_stmt =
    ASBegin | ASCreateUser | ASCreateAccount | ASByUsername | ASByID | ASList | ASCount
  | ASSetEnabled | ASUpdatePassword | ASGetSettings | ASPutSettings

record acc_env =
  ae_fail :: "acc_stmt \<Rightarrow> bool"
  ae_commit :: commit_outcome
  ae_dbnow :: gotime
  ae_id :: int

type_synonym 'a acc_query = "pg_accounts \<Rightarrow> goerr + ('a \<times> pg_accounts)"

definition accStmt :: "acc_env \<Rightarrow> acc_stmt \<Rightarrow> 'a acc_query \<Rightarrow> 'a acc_query" where
  "accStmt e st q d = (if ae_fail e st then Inl (ErrPg ''statement'') else q d)"

text \<open>The end of a transaction, or of a statement that is one.\<close>

definition commitTo :: "acc_env \<Rightarrow> pg_accounts \<Rightarrow> goerr + ('a \<times> pg_accounts) \<Rightarrow> pg_accounts \<times> 'a result" where
  "commitTo e d q =
     (case q of
        Inl err \<Rightarrow> (d, Inl err)
      | Inr (x, d') \<Rightarrow>
          (case ae_commit e of
             CommitOk \<Rightarrow> (d', Inr x)
           | CommitLost \<Rightarrow> (d, Inl (ErrPg ''commit''))
           | CommitUnknown \<Rightarrow> (d', Inl (ErrPg ''commit''))))"

definition readOnly :: "goerr + ('a \<times> pg_accounts) \<Rightarrow> 'a result" where
  "readOnly q = (case q of Inl err \<Rightarrow> Inl err | Inr (x, d) \<Rightarrow> Inr x)"

section \<open>Statements\<close>

record create_account_params =
  cp_Username :: string
  cp_PasswordHash :: string
  cp_Role :: string
  cp_ExternalID :: "string option"

definition newAccountRow :: "acc_env \<Rightarrow> create_account_params \<Rightarrow> db_account" where
  "newAccountRow e p = \<lparr>ac_ID = ae_id e, ac_Username = cp_Username p, ac_PasswordHash = cp_PasswordHash p,
     ac_Role = cp_Role p, ac_ExternalID = cp_ExternalID p, ac_GroupName = ''default'', ac_Enabled = True,
     ac_SessionVersion = 0, ac_CreatedAt = ae_dbnow e, ac_UpdatedAt = ae_dbnow e\<rparr>"

definition accountRoleCheck :: "db_account \<Rightarrow> bool" where
  "accountRoleCheck r \<longleftrightarrow>
     (ac_Role r = ''admin'' \<and> ac_ExternalID r = None) \<or> (ac_Role r = ''user'' \<and> ac_ExternalID r \<noteq> None)"

definition CreateAccountRow :: "acc_env \<Rightarrow> create_account_params \<Rightarrow> db_account acc_query" where
  "CreateAccountRow e p = accStmt e ASCreateAccount (\<lambda>d.
     let r = newAccountRow e p in
     if \<not> accountRoleCheck r then Inl (ErrPg ''check_violation'')
     else if mhas (pa_accounts d) (ac_ID r) \<or>
             list_ex (\<lambda>(i, x). ac_Username x = ac_Username r) (pa_accounts d)
     then Inl (ErrPg ''unique_violation'')
     else Inr (r, d\<lparr>pa_accounts := mput (ac_ID r) r (pa_accounts d)\<rparr>))"

definition CreateUserRow :: "acc_env \<Rightarrow> string \<Rightarrow> int \<Rightarrow> bool \<Rightarrow> unit acc_query" where
  "CreateUserRow e externalID balance enabled = accStmt e ASCreateUser (\<lambda>d.
     if mhas (db_users (pa_billing d)) externalID then Inl (ErrPg ''unique_violation'')
     else Inr ((), d\<lparr>pa_billing := (pa_billing d)\<lparr>db_users := mput externalID
            \<lparr>pu_Balance = balance, pu_BalanceVersion = 0, pu_Enabled = enabled, pu_UpdatedAt = ae_dbnow e\<rparr>
            (db_users (pa_billing d))\<rparr>\<rparr>))"

definition GetAccountByUsername :: "acc_env \<Rightarrow> string \<Rightarrow> db_account acc_query" where
  "GetAccountByUsername e username = accStmt e ASByUsername (\<lambda>d.
     case find (\<lambda>(i, r). ac_Username r = username) (pa_accounts d) of
       None \<Rightarrow> Inl ErrNoRows
     | Some (i, r) \<Rightarrow> Inr (r, d))"

definition GetAccountByID :: "acc_env \<Rightarrow> int \<Rightarrow> db_account acc_query" where
  "GetAccountByID e i = accStmt e ASByID (\<lambda>d.
     case map_of (pa_accounts d) i of None \<Rightarrow> Inl ErrNoRows | Some r \<Rightarrow> Inr (r, d))"

definition ListAccountRows :: "acc_env \<Rightarrow> int \<Rightarrow> int \<Rightarrow> db_account list acc_query" where
  "ListAccountRows e limit offset = accStmt e ASList (\<lambda>d.
     if limit < 0 \<or> offset < 0 then Inl (ErrPg ''invalid_row_count'')
     else Inr (take (nat limit) (drop (nat offset)
            (sort_key (\<lambda>r. (- ac_CreatedAt r, - ac_ID r)) (map snd (pa_accounts d)))), d))"

definition CountAccountRows :: "acc_env \<Rightarrow> int acc_query" where
  "CountAccountRows e = accStmt e ASCount (\<lambda>d. Inr (int (length (pa_accounts d)), d))"

definition SetAccountEnabled :: "acc_env \<Rightarrow> int \<Rightarrow> bool \<Rightarrow> db_account acc_query" where
  "SetAccountEnabled e i enabled = accStmt e ASSetEnabled (\<lambda>d.
     case map_of (pa_accounts d) i of
       None \<Rightarrow> Inl ErrNoRows
     | Some r \<Rightarrow>
         let v = ac_SessionVersion r + (if \<not> enabled then 1 else 0);
             r' = r\<lparr>ac_Enabled := enabled, ac_SessionVersion := v, ac_UpdatedAt := ae_dbnow e\<rparr>
         in if \<not> in_i32 v then Inl (ErrPg ''numeric_value_out_of_range'')
            else Inr (r', d\<lparr>pa_accounts := mput i r' (pa_accounts d)\<rparr>))"

definition UpdateAccountPassword :: "acc_env \<Rightarrow> int \<Rightarrow> string \<Rightarrow> unit acc_query" where
  "UpdateAccountPassword e i passwordHash = accStmt e ASUpdatePassword (\<lambda>d.
     case map_of (pa_accounts d) i of
       None \<Rightarrow> Inr ((), d)
     | Some r \<Rightarrow>
         let r' = r\<lparr>ac_PasswordHash := passwordHash, ac_SessionVersion := ac_SessionVersion r + 1,
                    ac_UpdatedAt := ae_dbnow e\<rparr>
         in if \<not> in_i32 (ac_SessionVersion r + 1) then Inl (ErrPg ''numeric_value_out_of_range'')
            else Inr ((), d\<lparr>pa_accounts := mput i r' (pa_accounts d)\<rparr>))"

definition coalesce :: "string option \<Rightarrow> string" where
  "coalesce v = (case v of None \<Rightarrow> [] | Some x \<Rightarrow> x)"

definition GetSettingsSnapshot :: "acc_env \<Rightarrow> (string \<times> string) acc_query" where
  "GetSettingsSnapshot e = accStmt e ASGetSettings (\<lambda>d.
     Inr ((coalesce (map_of (pa_settings d) ''registration_enabled''),
           coalesce (map_of (pa_settings d) ''new_user_initial_balance'')), d))"

definition UpsertSettingsSnapshot :: "acc_env \<Rightarrow> string \<Rightarrow> string \<Rightarrow> unit acc_query" where
  "UpsertSettingsSnapshot e registrationEnabled newUserInitialBalance = accStmt e ASPutSettings (\<lambda>d.
     Inr ((), d\<lparr>pa_settings := mput ''new_user_initial_balance'' newUserInitialBalance
                 (mput ''registration_enabled'' registrationEnabled (pa_settings d))\<rparr>))"

section \<open>The store\<close>

definition mapErr :: "goerr \<Rightarrow> goerr" where
  "mapErr err =
     (if errors_is err ErrNoRows then ErrAccountNotFound
      else if err = ErrPg ''unique_violation'' then ErrAccountConflict
      else err)"

definition accountFromDB :: "db_account \<Rightarrow> account" where
  "accountFromDB r = \<lparr>a_ID = ac_ID r, a_Username = ac_Username r, a_Role = ac_Role r,
     a_ExternalID = coalesce (ac_ExternalID r), a_GroupName = ac_GroupName r, a_Enabled = ac_Enabled r,
     a_CreatedAt = ac_CreatedAt r, a_SessionVersion = ac_SessionVersion r\<rparr>"

definition PgCreateUserAccount ::
  "acc_env \<Rightarrow> string \<Rightarrow> string \<Rightarrow> int \<Rightarrow> pg_accounts \<Rightarrow> pg_accounts \<times> account result" where
  "PgCreateUserAccount e username passwordHash initialBalance d =
     (if ae_fail e ASBegin then (d, Inl (ErrPg ''begin''))
      else (case CreateUserRow e username initialBalance True d of
              Inl err \<Rightarrow> (d, Inl (mapErr err))
            | Inr (u, d1) \<Rightarrow>
                (case CreateAccountRow e \<lparr>cp_Username = username, cp_PasswordHash = passwordHash,
                        cp_Role = AccountRoleUser, cp_ExternalID = Some username\<rparr> d1 of
                   Inl err \<Rightarrow> (d, Inl (mapErr err))
                 | Inr (acc, d2) \<Rightarrow> commitTo e d (Inr (accountFromDB acc, d2)))))"

definition PgCreateAccount ::
  "acc_env \<Rightarrow> create_account_input \<Rightarrow> pg_accounts \<Rightarrow> pg_accounts \<times> account result" where
  "PgCreateAccount e inp d =
     (if ca_Role inp \<noteq> AccountRoleAdmin \<or> ca_ExternalID inp \<noteq> [] then (d, Inl ErrInvalidRole)
      else let ext = (if ca_ExternalID inp \<noteq> [] then Some (ca_ExternalID inp) else None)
           in map_prod id (map_sum mapErr accountFromDB)
                (commitTo e d (CreateAccountRow e \<lparr>cp_Username = ca_Username inp,
                   cp_PasswordHash = ca_PasswordHash inp, cp_Role = ca_Role inp, cp_ExternalID = ext\<rparr> d)))"

definition PgGetCredentials :: "acc_env \<Rightarrow> string \<Rightarrow> pg_accounts \<Rightarrow> credentials result" where
  "PgGetCredentials e username d =
     map_sum mapErr (\<lambda>r. \<lparr>cd_Account = accountFromDB r, cd_PasswordHash = ac_PasswordHash r\<rparr>)
       (readOnly (GetAccountByUsername e username d))"

definition PgGetByID :: "acc_env \<Rightarrow> int \<Rightarrow> pg_accounts \<Rightarrow> account result" where
  "PgGetByID e i d = map_sum mapErr accountFromDB (readOnly (GetAccountByID e i d))"

definition PgGetByUsername :: "acc_env \<Rightarrow> string \<Rightarrow> pg_accounts \<Rightarrow> account result" where
  "PgGetByUsername e username d = map_sum mapErr accountFromDB (readOnly (GetAccountByUsername e username d))"

definition PgListAccounts :: "acc_env \<Rightarrow> int \<Rightarrow> int \<Rightarrow> pg_accounts \<Rightarrow> account list result" where
  "PgListAccounts e limit offset d =
     map_sum id (map accountFromDB) (readOnly (ListAccountRows e (i32 limit) (i32 offset) d))"

definition PgCountAccounts :: "acc_env \<Rightarrow> pg_accounts \<Rightarrow> int result" where
  "PgCountAccounts e d = readOnly (CountAccountRows e d)"

definition PgSetEnabled :: "acc_env \<Rightarrow> int \<Rightarrow> bool \<Rightarrow> pg_accounts \<Rightarrow> pg_accounts \<times> account result" where
  "PgSetEnabled e i enabled d =
     map_prod id (map_sum mapErr accountFromDB) (commitTo e d (SetAccountEnabled e i enabled d))"

definition PgUpdatePassword :: "acc_env \<Rightarrow> int \<Rightarrow> string \<Rightarrow> pg_accounts \<Rightarrow> pg_accounts \<times> unit result" where
  "PgUpdatePassword e i passwordHash d =
     (case GetAccountByID e i d of
        Inl err \<Rightarrow> (d, Inl (mapErr err))
      | Inr _ \<Rightarrow> map_prod id (map_sum mapErr id) (commitTo e d (UpdateAccountPassword e i passwordHash d)))"

text \<open>\<open>strconv.ParseBool\<close> and the fallback of a missing or malformed setting.\<close>

definition parseBool :: "string \<Rightarrow> bool \<Rightarrow> bool" where
  "parseBool s def =
     (if s \<in> set [''1'', ''t'', ''T'', ''TRUE'', ''true'', ''True''] then True
      else if s \<in> set [''0'', ''f'', ''F'', ''FALSE'', ''false'', ''False''] then False
      else def)"

definition formatBool :: "bool \<Rightarrow> string" where
  "formatBool b = (if b then ''true'' else ''false'')"

definition parseInt64 :: "string \<Rightarrow> int \<Rightarrow> int" where
  "parseInt64 s def = (case Atoi s of None \<Rightarrow> def | Some v \<Rightarrow> v)"

definition formatInt64 :: "int \<Rightarrow> string" where
  "formatInt64 n = intText n"

definition PgGetSettings :: "acc_env \<Rightarrow> pg_accounts \<Rightarrow> settings result" where
  "PgGetSettings e d =
     (case readOnly (GetSettingsSnapshot e d) of
        Inl err \<Rightarrow> Inl err
      | Inr (re, nb) \<Rightarrow> Inr \<lparr>st_RegistrationEnabled = parseBool re DefaultRegistrationEnabled,
                             st_NewUserInitialBalance = parseInt64 nb DefaultNewUserInitialBalance\<rparr>)"

definition PgPutSettings :: "acc_env \<Rightarrow> settings \<Rightarrow> pg_accounts \<Rightarrow> pg_accounts \<times> unit result" where
  "PgPutSettings e st d =
     commitTo e d (UpsertSettingsSnapshot e (formatBool (st_RegistrationEnabled st))
       (formatInt64 (st_NewUserInitialBalance st)) d)"

definition pgAccountStore :: "(acc_env, pg_accounts) account_ops" where
  "pgAccountStore = \<lparr>ao_CreateUserAccount = PgCreateUserAccount, ao_CreateAccount = PgCreateAccount,
     ao_GetCredentials = PgGetCredentials, ao_GetByID = PgGetByID, ao_GetByUsername = PgGetByUsername,
     ao_ListAccounts = PgListAccounts, ao_CountAccounts = PgCountAccounts, ao_SetEnabled = PgSetEnabled,
     ao_UpdatePassword = PgUpdatePassword\<rparr>"

definition pgSettingsStore :: "(acc_env, pg_accounts) settings_ops" where
  "pgSettingsStore = \<lparr>so_Get = PgGetSettings, so_Put = PgPutSettings\<rparr>"

section \<open>The PostgreSQL store keeps the contract\<close>

definition pg_acc_wf :: "nat \<Rightarrow> pg_accounts \<Rightarrow> bool" where
  "pg_acc_wf n d \<longleftrightarrow> mwf (pa_accounts d) \<and>
     (\<forall>i r. map_of (pa_accounts d) i = Some r \<longrightarrow> ac_ID r = i \<and> account_ok (accountFromDB r))"

definition pg_accs :: "pg_accounts \<Rightarrow> int \<Rightarrow> account option" where
  "pg_accs d i = map_option accountFromDB (map_of (pa_accounts d) i)"

lemma commitTo_cases:
  assumes "commitTo e d q = (d', r)"
  obtains (kept) err where "d' = d" "r = Inl err"
    | (applied) x where "q = Inr (x, d')" "is_ok r \<longrightarrow> r = Inr x"
  using assms by (auto simp: commitTo_def split: sum.splits commit_outcome.splits)

lemma accStmt_ok: "accStmt e st q d = Inr x \<longleftrightarrow> \<not> ae_fail e st \<and> q d = Inr x"
  by (auto simp: accStmt_def)

lemma is_ok_map_sum [simp]: "is_ok (map_sum f g r) = is_ok r"
  by (cases r) auto

text \<open>Replacing or adding a row.\<close>

lemma pg_put:
  assumes "pg_acc_wf n d" "account_ok (accountFromDB r)"
    "pa_accounts d' = mput (ac_ID r) r (pa_accounts d)"
  shows "pg_acc_wf k d' \<and> pg_accs d' = (pg_accs d)(ac_ID r \<mapsto> accountFromDB r)"
  using assms by (auto simp: pg_acc_wf_def pg_accs_def fun_eq_iff)

lemma a_ID_accountFromDB [simp]: "a_ID (accountFromDB r) = ac_ID r"
  by (simp add: accountFromDB_def)

lemma pg_commit_changed:
  assumes "pg_acc_wf n d" "commitTo e d q = (d', res)" "res' = map_sum g f res"
    and "\<And>x. q = Inr (x, d') \<Longrightarrow> \<exists>r. account_ok (accountFromDB r) \<and>
      pa_accounts d' = mput (ac_ID r) r (pa_accounts d) \<and>
      P (pg_accs d (ac_ID r)) (accountFromDB r) \<and> f x = h (accountFromDB r)"
  shows "pg_acc_wf k d' \<and> changed_by P h res' (pg_accs d) (pg_accs d')"
  using assms(2)
proof (cases rule: commitTo_cases)
  case (kept err)
  then show ?thesis using assms(1,3) by (simp add: unchanged pg_acc_wf_def)
next
  case (applied x)
  obtain r where r: "account_ok (accountFromDB r)" "pa_accounts d' = mput (ac_ID r) r (pa_accounts d)"
      "P (pg_accs d (ac_ID r)) (accountFromDB r)" "f x = h (accountFromDB r)"
    using assms(4) [OF applied(1)] by blast
  have "changed_by P h res' (pg_accs d) (pg_accs d')"
    unfolding changed_by_def
    by (intro disjI2 exI [of _ "accountFromDB r"])
       (use pg_put [OF assms(1) r(1,2)] r applied(2) assms(3) in \<open>cases res; auto\<close>)
  then show ?thesis using pg_put [OF assms(1) r(1,2)] by simp
qed

lemma accountFromDB_switched:
  "ac_SessionVersion r' = ac_SessionVersion r + (if \<not> b then 1 else 0) \<Longrightarrow>
   r' = r\<lparr>ac_Enabled := b, ac_SessionVersion := ac_SessionVersion r', ac_UpdatedAt := t\<rparr> \<Longrightarrow>
   accountFromDB r' = switched b (accountFromDB r)"
  by (cases r; cases r') (auto simp: accountFromDB_def switched_def)

lemma pg_row: "pg_acc_wf n d \<Longrightarrow> map_of (pa_accounts d) i = Some r \<Longrightarrow>
    ac_ID r = i \<and> account_ok (accountFromDB r) \<and> pg_accs d i = Some (accountFromDB r)"
  by (auto simp: pg_acc_wf_def pg_accs_def)

lemma PgSetEnabled_ok:
  assumes "pg_acc_wf n d" "PgSetEnabled e i b d = (d', res)"
  shows "pg_acc_wf k d' \<and> changed_by (\<lambda>old new. a_ID new = i \<and> map_option (switched b) old = Some new)
    (\<lambda>a. a) res (pg_accs d) (pg_accs d')"
proof -
  obtain res1 where c: "commitTo e d (SetAccountEnabled e i b d) = (d', res1)" "res = map_sum mapErr accountFromDB res1"
    using assms(2) by (auto simp: PgSetEnabled_def map_prod_def split: prod.splits)
  show ?thesis
  proof (rule pg_commit_changed [OF assms(1) c])
    fix x assume "SetAccountEnabled e i b d = Inr (x, d')"
    then obtain r where r: "map_of (pa_accounts d) i = Some r"
      "x = r\<lparr>ac_Enabled := b, ac_SessionVersion := ac_SessionVersion r + (if \<not> b then 1 else 0), ac_UpdatedAt := ae_dbnow e\<rparr>"
      "d' = d\<lparr>pa_accounts := mput i x (pa_accounts d)\<rparr>"
      by (auto simp: SetAccountEnabled_def accStmt_ok Let_def split: option.splits if_splits)
    have x: "accountFromDB x = switched b (accountFromDB r)" "ac_ID x = ac_ID r"
      unfolding r(2) by (simp_all add: accountFromDB_def switched_def)
    moreover have "account_ok (switched b (accountFromDB r))"
      using pg_row [OF assms(1) r(1)] by (simp add: switched_def account_ok_def)
    ultimately show "\<exists>r. account_ok (accountFromDB r) \<and> pa_accounts d' = mput (ac_ID r) r (pa_accounts d) \<and>
        (a_ID (accountFromDB r) = i \<and> map_option (switched b) (pg_accs d (ac_ID r)) = Some (accountFromDB r)) \<and>
        accountFromDB x = accountFromDB r"
      using pg_row [OF assms(1) r(1)] r(3) by (intro exI [of _ x]) simp
  qed
qed

lemma PgUpdatePassword_ok:
  assumes "pg_acc_wf n d" "PgUpdatePassword e i h d = (d', res)"
  shows "pg_acc_wf k d' \<and> changed_by (\<lambda>old new. a_ID new = i \<and> map_option rekeyed old = Some new)
    (\<lambda>a. ()) res (pg_accs d) (pg_accs d')"
proof (cases "GetAccountByID e i d")
  case (Inl err)
  then show ?thesis using assms by (auto simp: PgUpdatePassword_def unchanged pg_acc_wf_def)
next
  case (Inr p)
  then obtain r where r: "map_of (pa_accounts d) i = Some r"
    by (auto simp: GetAccountByID_def accStmt_ok split: option.splits)
  obtain res1 where c: "commitTo e d (UpdateAccountPassword e i h d) = (d', res1)" "res = map_sum mapErr id res1"
    using assms(2) Inr by (auto simp: PgUpdatePassword_def map_prod_def split: prod.splits)
  show ?thesis
  proof (rule pg_commit_changed [OF assms(1) c])
    fix x assume "UpdateAccountPassword e i h d = Inr (x, d')"
    then obtain y where y:
      "y = r\<lparr>ac_PasswordHash := h, ac_SessionVersion := ac_SessionVersion r + 1, ac_UpdatedAt := ae_dbnow e\<rparr>"
      "d' = d\<lparr>pa_accounts := mput i y (pa_accounts d)\<rparr>"
      using r by (auto simp: UpdateAccountPassword_def accStmt_ok Let_def split: if_splits)
    have x: "accountFromDB y = rekeyed (accountFromDB r)" "ac_ID y = ac_ID r"
      unfolding y(1) by (simp_all add: accountFromDB_def rekeyed_def)
    moreover have "account_ok (rekeyed (accountFromDB r))"
      using pg_row [OF assms(1) r(1)] by (simp add: rekeyed_def account_ok_def)
    ultimately show "\<exists>r. account_ok (accountFromDB r) \<and> pa_accounts d' = mput (ac_ID r) r (pa_accounts d) \<and>
        (a_ID (accountFromDB r) = i \<and> map_option rekeyed (pg_accs d (ac_ID r)) = Some (accountFromDB r)) \<and>
        id x = ()"
      using pg_row [OF assms(1) r(1)] y(2) by (intro exI [of _ y]) simp
  qed
qed

lemma CreateAccountRow_new:
  assumes "CreateAccountRow e p d = Inr (x, d')"
  shows "x = newAccountRow e p \<and> map_of (pa_accounts d) (ac_ID x) = None \<and>
    d' = d\<lparr>pa_accounts := mput (ac_ID x) x (pa_accounts d)\<rparr>"
  using assms by (auto simp: CreateAccountRow_def accStmt_ok Let_def mhas_def split: if_splits)

lemma PgCreateAccount_ok:
  assumes "pg_acc_wf n d" "PgCreateAccount e inp d = (d', res)"
  shows "pg_acc_wf k d' \<and> changed_by (\<lambda>old new. old = None \<and> fresh_account (ca_Username inp) AccountRoleAdmin new)
    (\<lambda>a. a) res (pg_accs d) (pg_accs d')"
proof (cases "ca_Role inp \<noteq> AccountRoleAdmin \<or> ca_ExternalID inp \<noteq> []")
  case True
  then show ?thesis using assms by (auto simp: PgCreateAccount_def unchanged pg_acc_wf_def)
next
  case False
  let ?p = "\<lparr>cp_Username = ca_Username inp, cp_PasswordHash = ca_PasswordHash inp, cp_Role = ca_Role inp,
    cp_ExternalID = None\<rparr>"
  obtain res1 where c: "commitTo e d (CreateAccountRow e ?p d) = (d', res1)" "res = map_sum mapErr accountFromDB res1"
    using assms(2) False by (auto simp: PgCreateAccount_def map_prod_def split: prod.splits)
  show ?thesis
  proof (rule pg_commit_changed [OF assms(1) c])
    fix x assume x: "CreateAccountRow e ?p d = Inr (x, d')"
    note n = CreateAccountRow_new [OF x]
    have "fresh_account (ca_Username inp) AccountRoleAdmin (accountFromDB x)" "account_ok (accountFromDB x)"
      using n False
      by (auto simp: fresh_account_def accountFromDB_def newAccountRow_def account_ok_def coalesce_def)
    then show "\<exists>r. account_ok (accountFromDB r) \<and> pa_accounts d' = mput (ac_ID r) r (pa_accounts d) \<and>
        (pg_accs d (ac_ID r) = None \<and> fresh_account (ca_Username inp) AccountRoleAdmin (accountFromDB r)) \<and>
        accountFromDB x = accountFromDB r"
      using n [THEN conjunct2] by (intro exI [of _ x]) (simp add: pg_accs_def)
  qed
qed

lemma PgCreateUserAccount_ok:
  assumes "pg_acc_wf n d" "PgCreateUserAccount e u h bal d = (d', res)"
  shows "pg_acc_wf k d' \<and> changed_by (\<lambda>old new. old = None \<and> fresh_account u AccountRoleUser new)
    (\<lambda>a. a) res (pg_accs d) (pg_accs d')"
proof (cases "is_ok (CreateUserRow e u bal True d) \<and> \<not> ae_fail e ASBegin")
  case False
  then show ?thesis using assms by (auto simp: PgCreateUserAccount_def unchanged pg_acc_wf_def split: sum.splits if_splits)
next
  case True
  let ?p = "\<lparr>cp_Username = u, cp_PasswordHash = h, cp_Role = AccountRoleUser, cp_ExternalID = Some u\<rparr>"
  from True obtain d1 where d1: "CreateUserRow e u bal True d = Inr ((), d1)"
    by (auto simp: is_ok_iff)
  then have same: "pa_accounts d1 = pa_accounts d"
    by (auto simp: CreateUserRow_def accStmt_ok split: if_splits)
  show ?thesis
  proof (cases "CreateAccountRow e ?p d1")
    case (Inl err)
    then show ?thesis using assms d1 True by (auto simp: PgCreateUserAccount_def unchanged pg_acc_wf_def)
  next
    case (Inr y)
    then obtain x d2 where x: "CreateAccountRow e ?p d1 = Inr (x, d2)" by (cases y) auto
    note n = CreateAccountRow_new [OF x]
    have c: "commitTo e d (Inr (accountFromDB x, d2)) = (d', res)"
      using assms(2) d1 True x by (simp add: PgCreateUserAccount_def)
    have fresh: "fresh_account u AccountRoleUser (accountFromDB x)" "account_ok (accountFromDB x)"
      using n by (auto simp: fresh_account_def accountFromDB_def newAccountRow_def account_ok_def coalesce_def)
    show ?thesis
    proof (rule pg_commit_changed [OF assms(1) c])
      show "res = map_sum id id res" by (cases res) auto
      fix z assume "Inr (accountFromDB x, d2) = (Inr (z, d') :: goerr + (account \<times> pg_accounts))"
      then show "\<exists>r. account_ok (accountFromDB r) \<and> pa_accounts d' = mput (ac_ID r) r (pa_accounts d) \<and>
          (pg_accs d (ac_ID r) = None \<and> fresh_account u AccountRoleUser (accountFromDB r)) \<and>
          id z = accountFromDB r"
        using n [THEN conjunct2] fresh same by (intro exI [of _ x]) (auto simp: pg_accs_def)
    qed
  qed
qed

lemma find_SomeD: "find P xs = Some x \<Longrightarrow> x \<in> set xs \<and> P x"
  by (auto simp: find_Some_iff)

interpretation pg_store: account_store pgAccountStore pg_acc_wf pg_accs
proof
  fix n s assume "pg_acc_wf (Suc n) s" then show "pg_acc_wf n s" by (simp add: pg_acc_wf_def)
next
  fix n s i a assume "pg_acc_wf n s" "pg_accs s i = Some a"
  then show "a_ID a = i \<and> account_ok a" by (auto simp: pg_acc_wf_def pg_accs_def)
next
  fix n s e i a assume "pg_acc_wf n s" "ao_GetByID pgAccountStore e i s = Inr a"
  then show "pg_accs s i = Some a"
    by (auto simp: pgAccountStore_def PgGetByID_def GetAccountByID_def readOnly_def accStmt_def pg_accs_def
        split: sum.splits option.splits if_splits)
next
  fix n s e u c assume w: "pg_acc_wf n s" and c: "ao_GetCredentials pgAccountStore e u s = Inr c"
  then obtain i r where r: "find (\<lambda>(i, r). ac_Username r = u) (pa_accounts s) = Some (i, r)"
    "c = \<lparr>cd_Account = accountFromDB r, cd_PasswordHash = ac_PasswordHash r\<rparr>"
    by (auto simp: pgAccountStore_def PgGetCredentials_def GetAccountByUsername_def readOnly_def accStmt_def
        split: sum.splits option.splits if_splits)
  have "(i, r) \<in> set (pa_accounts s)" "ac_Username r = u"
    using find_SomeD [OF r(1)] by auto
  then have "map_of (pa_accounts s) i = Some r" using w by (simp add: pg_acc_wf_def mget_set)
  then show "a_Username (cd_Account c) = u \<and> pg_accs s (a_ID (cd_Account c)) = Some (cd_Account c)"
    using w r \<open>ac_Username r = u\<close> by (auto simp: pg_acc_wf_def pg_accs_def accountFromDB_def)
next
  fix n s e i b s' r
  assume "pg_acc_wf (Suc n) s" "ao_SetEnabled pgAccountStore e i b s = (s', r)"
  then show "pg_acc_wf n s' \<and> changed_by (\<lambda>old new. a_ID new = i \<and> map_option (switched b) old = Some new) (\<lambda>a. a) r
      (pg_accs s) (pg_accs s')"
    using PgSetEnabled_ok by (simp add: pgAccountStore_def)
next
  fix n s e i h s' r
  assume "pg_acc_wf (Suc n) s" "ao_UpdatePassword pgAccountStore e i h s = (s', r)"
  then show "pg_acc_wf n s' \<and> changed_by (\<lambda>old new. a_ID new = i \<and> map_option rekeyed old = Some new) (\<lambda>a. ()) r
      (pg_accs s) (pg_accs s')"
    using PgUpdatePassword_ok by (simp add: pgAccountStore_def)
next
  fix n s e u h bal s' r
  assume "pg_acc_wf (Suc n) s" "ao_CreateUserAccount pgAccountStore e u h bal s = (s', r)"
  then show "pg_acc_wf n s' \<and> changed_by (\<lambda>old new. old = None \<and> fresh_account u AccountRoleUser new) (\<lambda>a. a) r
      (pg_accs s) (pg_accs s')"
    using PgCreateUserAccount_ok by (simp add: pgAccountStore_def)
next
  fix n s e inp s' r
  assume "pg_acc_wf (Suc n) s" "ao_CreateAccount pgAccountStore e inp s = (s', r)"
  then show "pg_acc_wf n s' \<and> changed_by (\<lambda>old new. old = None \<and> fresh_account (ca_Username inp) AccountRoleAdmin new)
      (\<lambda>a. a) r (pg_accs s) (pg_accs s')"
    using PgCreateAccount_ok by (simp add: pgAccountStore_def)
qed

text \<open>Settings that were stored are read back, whatever was there before.\<close>

lemma settings_roundtrip:
  assumes "PgPutSettings e st d = (d', Inr ())" "in_i64 (st_NewUserInitialBalance st)" "\<not> ae_fail e' ASGetSettings"
  shows "PgGetSettings e' d' = Inr st"
  using assms
  by (cases st) (auto simp: PgPutSettings_def UpsertSettingsSnapshot_def accStmt_def PgGetSettings_def
      GetSettingsSnapshot_def readOnly_def parseBool_def formatBool_def parseInt64_def formatInt64_def
      coalesce_def Atoi_intText commitTo_def split: sum.splits commit_outcome.splits if_splits)

end
