(* ===== verification/Session.thy ===== *)
theory Session
  imports RateLimit Account
begin

text \<open>
  Console sessions: \<open>internal/session/session.go\<close> with its Lua script, the session middleware
  \<open>internal/middleware/session_auth.go\<close> and the CSRF check \<open>csrf.go\<close>.

  The part of Redis they use is a map from session keys to a payload with its expiry and a map from
  index keys to a sorted set (digests with their expiry as score) with an optional expiry of the whole
  set. Times are milliseconds of the clock of Redis. A payload is the session data that
  \<open>json.Marshal\<close> wrote (its strings are taken to be valid UTF-8, so that they are read back as they are)
  or bytes that do not unmarshal. SHA-256 in hexadecimal is a function of the environment, a random
  token an argument.
\<close>

section \<open>State\<close>

record session_data =
  sd_AccountID :: int
  sd_Username :: string
  sd_Role :: string
  sd_ExternalID :: string
  sd_CSRFToken :: string
  sd_SessionVersion :: int

datatype session_raw = Payload session_data | Garbled

type_synonym zset = "(string, int) gomap"

record session_redis =
  sr_keys :: "(string, session_raw \<times> int) gomap"
  sr_index :: "(string, zset \<times> int option) gomap"

record session_manager =
  sm_maxPerAccount :: int
  sm_sha256Hex :: "string \<Rightarrow> string"

definition DefaultTTL :: duration where "DefaultTTL = 24 * hour"
definition RememberTTL :: duration where "RememberTTL = 7 * 24 * hour"
definition DefaultMaxActiveSessions :: int where "DefaultMaxActiveSessions = 10"

definition NewManager :: "(string \<Rightarrow> string) \<Rightarrow> session_manager" where
  "NewManager sha = \<lparr>sm_maxPerAccount = DefaultMaxActiveSessions, sm_sha256Hex = sha\<rparr>"

definition sessionDigest :: "session_manager \<Rightarrow> string \<Rightarrow> string" where
  "sessionDigest m token = sm_sha256Hex m token"

definition sessionKey :: "session_manager \<Rightarrow> string \<Rightarrow> string" where
  "sessionKey m token = ''session:'' @ sessionDigest m token"

definition sessionIndexKey :: "int \<Rightarrow> string" where
  "sessionIndexKey accountID = ''sessions:account:'' @ intText accountID"

section \<open>Operations\<close>

text \<open>Reading keys that may have expired; a sorted set without members does not exist.\<close>

definition readSession :: "int \<Rightarrow> session_redis \<Rightarrow> string \<Rightarrow> session_raw option" where
  "readSession now r key =
     (case map_of (sr_keys r) key of
        None \<Rightarrow> None
      | Some (raw, expiry) \<Rightarrow> if now < expiry then Some raw else None)"

definition readIndex :: "int \<Rightarrow> session_redis \<Rightarrow> string \<Rightarrow> zset \<times> int option" where
  "readIndex now r key =
     (case map_of (sr_index r) key of
        None \<Rightarrow> ([], None)
      | Some (z, None) \<Rightarrow> (z, None)
      | Some (z, Some expiry) \<Rightarrow> if now < expiry then (z, Some expiry) else ([], None))"

definition writeIndex :: "string \<Rightarrow> zset \<Rightarrow> int option \<Rightarrow> session_redis \<Rightarrow> session_redis" where
  "writeIndex key z expiry r =
     (if z = [] then r\<lparr>sr_index := mdel key (sr_index r)\<rparr>
      else r\<lparr>sr_index := mput key (z, expiry) (sr_index r)\<rparr>)"

definition createScript ::
  "int \<Rightarrow> string \<Rightarrow> string \<Rightarrow> session_raw \<Rightarrow> int \<Rightarrow> string \<Rightarrow> int \<Rightarrow> session_redis \<Rightarrow> session_redis \<times> int result" where
  "createScript now_ms key indexKey payload ttl_ms digest max_sessions r =
     (let (z, expiry) = readIndex now_ms r indexKey;
          z = filter (\<lambda>(d, score). \<not> score \<le> now_ms) z;
          expiry = (if z = [] then None else expiry);
          r = writeIndex indexKey z expiry r
      in if max_sessions > 0 \<and> int (length z) \<ge> max_sessions then (r, Inr 0)
         else if ttl_ms \<le> 0 then (r, Inl ErrRedis)
         else let r = r\<lparr>sr_keys := mput key (payload, now_ms + ttl_ms) (sr_keys r)\<rparr>;
                  current_ttl = (case expiry of None \<Rightarrow> -1 | Some x \<Rightarrow> x - now_ms);
                  expiry = (if current_ttl < ttl_ms then Some (now_ms + ttl_ms) else expiry)
              in (writeIndex indexKey (mput digest (now_ms + ttl_ms) z) expiry r, Inr 1))"

definition milliseconds :: "duration \<Rightarrow> int" where
  "milliseconds d = go_div d 1000000"

text \<open>The random token is \<open>None\<close> when the random source fails.\<close>

definition CreateSession ::
  "session_manager \<Rightarrow> redis_fate \<Rightarrow> int \<Rightarrow> string option \<Rightarrow> session_data \<Rightarrow> duration \<Rightarrow> session_redis \<Rightarrow>
   session_redis \<times> string result" where
  "CreateSession m fate now random d ttl r =
     (if ttl \<le> 0 \<or> sd_AccountID d \<le> 0 then (r, Inl (ErrOther ''invalid session parameters''))
      else (case random of
              None \<Rightarrow> (r, Inl (ErrOther ''random''))
            | Some token \<Rightarrow>
                (let (r', res) = createScript now (sessionKey m token) (sessionIndexKey (sd_AccountID d))
                       (Payload d) (milliseconds ttl) (sessionDigest m token) (sm_maxPerAccount m) r
                 in (case fate of
                       RedisDown \<Rightarrow> (r, Inl ErrRedis)
                     | RedisLost \<Rightarrow> (r', Inl ErrRedis)
                     | RedisUp \<Rightarrow>
                         (case res of
                            Inl err \<Rightarrow> (r', Inl err)
                          | Inr created \<Rightarrow>
                              if created \<noteq> 1 then (r', Inl ErrTooManyActiveSessions) else (r', Inr token))))))"

definition GetSession :: "session_manager \<Rightarrow> redis_fate \<Rightarrow> int \<Rightarrow> string \<Rightarrow> session_redis \<Rightarrow> session_data result" where
  "GetSession m fate now token r =
     (if fate \<noteq> RedisUp then Inl ErrRedis
      else (case readSession now r (sessionKey m token) of
              None \<Rightarrow> Inl ErrSessionNotFound
            | Some Garbled \<Rightarrow> Inl (ErrOther ''unmarshal'')
            | Some (Payload d) \<Rightarrow> Inr d))"

text \<open>\<open>Delete\<close> reads the session and removes key and index entry in one transaction.\<close>

definition removeSession :: "session_manager \<Rightarrow> int \<Rightarrow> string \<Rightarrow> int \<Rightarrow> session_redis \<Rightarrow> session_redis" where
  "removeSession m now token accountID r =
     (let (z, expiry) = readIndex now r (sessionIndexKey accountID)
      in writeIndex (sessionIndexKey accountID) (mdel (sessionDigest m token) z) expiry
           (r\<lparr>sr_keys := mdel (sessionKey m token) (sr_keys r)\<rparr>))"

definition DeleteSession ::
  "session_manager \<Rightarrow> redis_fate \<Rightarrow> redis_fate \<Rightarrow> int \<Rightarrow> string \<Rightarrow> session_redis \<Rightarrow> session_redis \<times> unit result" where
  "DeleteSession m getFate execFate now token r =
     (if getFate \<noteq> RedisUp then (r, Inl ErrRedis)
      else (case readSession now r (sessionKey m token) of
              None \<Rightarrow> (r, Inr ())
            | Some Garbled \<Rightarrow> (r, Inl (ErrOther ''unmarshal''))
            | Some (Payload d) \<Rightarrow>
                (case execFate of
                   RedisDown \<Rightarrow> (r, Inl ErrRedis)
                 | RedisLost \<Rightarrow> (removeSession m now token (sd_AccountID d) r, Inl ErrRedis)
                 | RedisUp \<Rightarrow> (removeSession m now token (sd_AccountID d) r, Inr ()))))"

section \<open>Middleware\<close>

text \<open>A guard ends the request with a response or passes the session on. The cookie is \<open>None\<close> when the
  request has none. Console endpoints have no protocol context.\<close>

type_synonym guard = "client_write + session_data"

definition deny :: "('d, 'n) registry \<Rightarrow> int \<Rightarrow> string \<Rightarrow> string \<Rightarrow> guard" where
  "deny adapters status errType message = Inl (WriteError adapters [] status errType message)"

record auth_env =
  xe_now :: int
  xe_get :: redis_fate
  xe_delGet :: redis_fate
  xe_delExec :: redis_fate

definition getForAuth :: "('d, 'n) registry \<Rightarrow> session_manager \<Rightarrow> auth_env \<Rightarrow> string option \<Rightarrow> session_redis \<Rightarrow> guard" where
  "getForAuth adapters m xe cookie r =
     (case cookie of
        None \<Rightarrow> deny adapters 401 ''authentication_error'' ''not logged in''
      | Some token \<Rightarrow>
          if token = [] then deny adapters 401 ''authentication_error'' ''not logged in''
          else (case GetSession m (xe_get xe) (xe_now xe) token r of
                  Inl err \<Rightarrow>
                    if errors_is err ErrSessionNotFound
                    then deny adapters 401 ''authentication_error'' ''session expired''
                    else deny adapters 503 ''internal_error'' ''session service unavailable''
                | Inr d \<Rightarrow> Inr d))"

definition SessionAuth :: "('d, 'n) registry \<Rightarrow> session_manager \<Rightarrow> auth_env \<Rightarrow> string option \<Rightarrow> session_redis \<Rightarrow> guard" where
  "SessionAuth adapters m xe cookie r = getForAuth adapters m xe cookie r"

definition SessionAuthWithVersion ::
  "('d, 'n) registry \<Rightarrow> session_manager \<Rightarrow> (int \<Rightarrow> int result) option \<Rightarrow> auth_env \<Rightarrow> string option \<Rightarrow>
   session_redis \<Rightarrow> session_redis \<times> guard" where
  "SessionAuthWithVersion adapters m checker xe cookie r =
     (case checker of
        None \<Rightarrow> (r, SessionAuth adapters m xe cookie r)
      | Some check \<Rightarrow>
          (case getForAuth adapters m xe cookie r of
             Inl w \<Rightarrow> (r, Inl w)
           | Inr d \<Rightarrow>
               (case check (sd_AccountID d) of
                  Inl err \<Rightarrow> (r, deny adapters 503 ''internal_error'' ''session service unavailable'')
                | Inr current \<Rightarrow>
                    if current \<noteq> sd_SessionVersion d
                    then (fst (DeleteSession m (xe_delGet xe) (xe_delExec xe) (xe_now xe) (the cookie) r),
                          deny adapters 401 ''authentication_error'' ''session expired'')
                    else (r, Inr d))))"

definition RequireRole :: "('d, 'n) registry \<Rightarrow> string \<Rightarrow> session_data option \<Rightarrow> guard" where
  "RequireRole adapters role sessionFrom =
     (case sessionFrom of
        None \<Rightarrow> deny adapters 401 ''authentication_error'' ''not logged in''
      | Some d \<Rightarrow>
          if sd_Role d \<noteq> role then deny adapters 403 ''permission_error'' ''forbidden'' else Inr d)"

text \<open>\<open>sessionVersionChecker\<close> of \<open>internal/server/server.go\<close>.\<close>

definition sessionVersionChecker :: "('e, 's) account_ops \<Rightarrow> 'e \<Rightarrow> 's \<Rightarrow> int \<Rightarrow> int result" where
  "sessionVersionChecker ops e s accountID =
     (case ao_GetByID ops e accountID s of
        Inl err \<Rightarrow> Inl err
      | Inr acc \<Rightarrow> Inr (a_SessionVersion acc))"

section \<open>CSRF\<close>

definition isSafeMethod :: "string \<Rightarrow> bool" where
  "isSafeMethod method \<longleftrightarrow> method \<in> set [''GET'', ''HEAD'', ''OPTIONS'', ''TRACE'']"

definition isJSONContentType :: "string \<Rightarrow> bool" where
  "isJSONContentType ct =
     (if ct = [] then False
      else EqualFoldLower (TrimSpace (fst (CutByte (CHR '';'') ct))) ''application/json'')"

text \<open>\<open>url.Parse\<close> is a parameter that answers the host of the URL.\<close>

definition sameOrigin :: "(string \<Rightarrow> string result) \<Rightarrow> string \<Rightarrow> string \<Rightarrow> bool" where
  "sameOrigin urlHost origin host =
     (case urlHost origin of
        Inl err \<Rightarrow> False
      | Inr h \<Rightarrow> if h = [] then False else h = host)"

record http_request =
  hr_Method :: string
  hr_Host :: string
  hr_Header :: header

definition CSRFProtect ::
  "('d, 'n) registry \<Rightarrow> (string \<Rightarrow> string result) \<Rightarrow> http_request \<Rightarrow> session_data option \<Rightarrow> client_write option" where
  "CSRFProtect adapters urlHost q sessionFrom =
     (let reject = (\<lambda>msg. Some (WriteError adapters [] 403 ''permission_error'' msg)) in
      if isSafeMethod (hr_Method q) then None
      else (case sessionFrom of
              None \<Rightarrow> reject ''CSRF check failed''
            | Some d \<Rightarrow>
                if sd_CSRFToken d = [] then reject ''CSRF check failed''
                else if \<not> isJSONContentType (headerGet (hr_Header q) ''Content-Type'')
                then reject ''CSRF check failed: application/json required''
                else let origin = headerGet (hr_Header q) ''Origin'' in
                  if origin \<noteq> [] \<and> \<not> sameOrigin urlHost origin (hr_Host q)
                  then reject ''CSRF check failed: cross origin''
                  else let got = headerGet (hr_Header q) ''X-CSRF-Token'' in
                    if got = [] \<or> got \<noteq> sd_CSRFToken d then reject ''CSRF check failed: token''
                    else None))"

section \<open>The index covers the sessions\<close>

text \<open>
  The limit of sessions per account is enforced by counting the members of the account's index. It is
  sound because the index covers the sessions: every live session has its digest in the index of its
  account, with a score and in a set that both outlive it; and the index holds no more live members
  than the limit. Both are kept by every operation at any later time.
\<close>

definition liveMembers :: "int \<Rightarrow> zset \<Rightarrow> zset" where
  "liveMembers now z = filter (\<lambda>(g, score). \<not> score \<le> now) z"

definition zset_ok :: "int \<Rightarrow> int \<Rightarrow> zset \<Rightarrow> bool" where
  "zset_ok limit now z \<longleftrightarrow> mwf z \<and> (0 < limit \<longrightarrow> int (length (liveMembers now z)) \<le> limit)"

definition index_ok :: "int \<Rightarrow> int \<Rightarrow> session_redis \<Rightarrow> bool" where
  "index_ok limit now r \<longleftrightarrow>
     (\<forall>k z e. map_of (sr_index r) k = Some (z, e) \<longrightarrow> zset_ok limit now z \<and> e \<noteq> None)"

definition holds_member :: "int \<Rightarrow> session_redis \<Rightarrow> string \<Rightarrow> string \<Rightarrow> bool" where
  "holds_member expiry r ik g \<longleftrightarrow>
     (\<exists>z x score. map_of (sr_index r) ik = Some (z, Some x) \<and> map_of z g = Some score \<and>
        expiry \<le> score \<and> expiry \<le> x)"

definition covered :: "int \<Rightarrow> session_redis \<Rightarrow> bool" where
  "covered now r \<longleftrightarrow>
     (\<forall>k d expiry. map_of (sr_keys r) k = Some (Payload d, expiry) \<and> now < expiry \<longrightarrow>
        (\<exists>g. k = ''session:'' @ g \<and> holds_member expiry r (sessionIndexKey (sd_AccountID d)) g))"

definition session_inv :: "session_manager \<Rightarrow> int \<Rightarrow> session_redis \<Rightarrow> bool" where
  "session_inv m now r \<longleftrightarrow> mwf (sr_keys r) \<and> index_ok (sm_maxPerAccount m) now r \<and> covered now r"

lemma sr_keys_writeIndex [simp]: "sr_keys (writeIndex k z e r) = sr_keys r"
  by (simp add: writeIndex_def)

lemma sr_index_writeIndex [simp]:
  "map_of (sr_index (writeIndex k z e r)) k' =
     (if k' = k then (if z = [] then None else Some (z, e)) else map_of (sr_index r) k')"
  by (simp add: writeIndex_def)

lemma liveMembers_later: "now \<le> now' \<Longrightarrow> length (liveMembers now' z) \<le> length (liveMembers now z)"
  unfolding liveMembers_def by (induction z) auto

lemma liveMembers_idem [simp]: "liveMembers now (liveMembers now z) = liveMembers now z"
  unfolding liveMembers_def by (induction z) auto

lemma mwf_filter [simp, intro]: "mwf z \<Longrightarrow> mwf (filter P z)"
  by (simp add: mwf_def distinct_map_filter)

lemma mwf_liveMembers [simp, intro]: "mwf z \<Longrightarrow> mwf (liveMembers now z)"
  by (simp add: liveMembers_def)

lemma map_of_liveMembers:
  "mwf z \<Longrightarrow> map_of z g = Some score \<Longrightarrow> now < score \<Longrightarrow> map_of (liveMembers now z) g = Some score"
  by (simp add: liveMembers_def mget_set)

lemma liveMembers_Nil [simp]: "liveMembers now [] = []"
  by (simp add: liveMembers_def)

lemma zset_ok_later: "zset_ok limit now z \<Longrightarrow> now \<le> now' \<Longrightarrow> zset_ok limit now' z"
  using liveMembers_later [of now now' z] by (auto simp: zset_ok_def)

lemma zset_ok_live: "zset_ok limit now z \<Longrightarrow> zset_ok limit now (liveMembers now z)"
  by (auto simp: zset_ok_def)

lemma zset_ok_Nil [simp]: "zset_ok limit now []"
  by (simp add: zset_ok_def)

lemma session_inv_later:
  assumes "session_inv m now r" "now \<le> now'"
  shows "session_inv m now' r"
proof -
  have "index_ok (sm_maxPerAccount m) now' r"
    using assms zset_ok_later by (fastforce simp: session_inv_def index_ok_def)
  moreover have "covered now' r"
    using assms unfolding session_inv_def covered_def by (meson le_less_trans)
  ultimately show ?thesis using assms(1) by (simp add: session_inv_def)
qed

text \<open>What \<open>readIndex\<close> answers on an index that holds a member.\<close>

lemma readIndex_holds:
  assumes "holds_member expiry r ik g" "now < expiry"
  shows "\<exists>z x score. readIndex now r ik = (z, Some x) \<and> map_of (sr_index r) ik = Some (z, Some x) \<and>
    map_of z g = Some score \<and> expiry \<le> score \<and> expiry \<le> x"
  using assms by (auto simp: holds_member_def readIndex_def)

lemma readIndex_ok:
  assumes "index_ok limit now r" "readIndex now r ik = (z, e)"
  shows "zset_ok limit now z \<and> (z \<noteq> [] \<longrightarrow> e \<noteq> None)"
proof (cases "map_of (sr_index r) ik")
  case None
  then show ?thesis using assms(2) by (simp add: readIndex_def)
next
  case (Some p)
  obtain z' e' where p: "p = (z', e')" by fastforce
  have "zset_ok limit now z'" "e' \<noteq> None" using assms(1) Some p by (auto simp: index_ok_def)
  then show ?thesis using assms(2) Some p by (auto simp: readIndex_def split: if_splits)
qed

lemma index_ok_writeIndex:
  "index_ok limit now r \<Longrightarrow> (z \<noteq> [] \<Longrightarrow> zset_ok limit now z \<and> e \<noteq> None) \<Longrightarrow>
     index_ok limit now (writeIndex ik z e r)"
  unfolding index_ok_def by (auto split: if_splits)

lemma coveredI:
  assumes "covered now r"
    and "\<And>k d x. map_of (sr_keys r') k = Some (Payload d, x) \<Longrightarrow> now < x \<Longrightarrow> map_of (sr_keys r) k = Some (Payload d, x)"
    and "\<And>x ik g. now < x \<Longrightarrow> holds_member x r ik g \<Longrightarrow> holds_member x r' ik g"
  shows "covered now r'"
  using assms unfolding covered_def by meson

definition purged :: "int \<Rightarrow> string \<Rightarrow> session_redis \<Rightarrow> session_redis" where
  "purged now ik r =
     (case readIndex now r ik of
        (z, e) \<Rightarrow> writeIndex ik (liveMembers now z) (if liveMembers now z = [] then None else e) r)"

lemma sr_keys_purged [simp]: "sr_keys (purged now ik r) = sr_keys r"
  by (simp add: purged_def split: prod.split)

lemma holds_member_purged:
  assumes "index_ok limit now r" "holds_member expiry r ik' g" "now < expiry"
  shows "holds_member expiry (purged now ik r) ik' g"
proof (cases "ik' = ik")
  case False
  then show ?thesis using assms(2) by (simp add: holds_member_def purged_def split: prod.split)
next
  case True
  obtain z x score where z: "readIndex now r ik' = (z, Some x)" "map_of z g = Some score" "expiry \<le> score" "expiry \<le> x"
    using readIndex_holds [OF assms(2,3)] by blast
  have "map_of (liveMembers now z) g = Some score"
    by (rule map_of_liveMembers) (use readIndex_ok [OF assms(1) z(1)] z assms(3) in \<open>auto simp: zset_ok_def\<close>)
  then have "liveMembers now z \<noteq> []" by auto
  with \<open>map_of (liveMembers now z) g = Some score\<close> show ?thesis
    using z True by (auto simp: holds_member_def purged_def)
qed

lemma session_inv_purged:
  assumes "session_inv m now r"
  shows "session_inv m now (purged now ik r)"
proof -
  obtain z e where z: "readIndex now r ik = (z, e)" by fastforce
  have io: "index_ok (sm_maxPerAccount m) now r" using assms by (simp add: session_inv_def)
  note rz = readIndex_ok [OF io z]
  have "index_ok (sm_maxPerAccount m) now (purged now ik r)"
    unfolding purged_def z prod.case
    by (rule index_ok_writeIndex [OF io]) (use rz zset_ok_live in auto)
  moreover have "covered now (purged now ik r)"
    by (rule coveredI [of now r]) (use assms holds_member_purged [OF io] in \<open>auto simp: session_inv_def\<close>)
  ultimately show ?thesis using assms by (simp add: session_inv_def purged_def z)
qed

lemma mput_ne [simp]: "mput k v m \<noteq> []"
  by (cases m) auto

lemma length_mput: "length (mput k v m) \<le> Suc (length m)"
  by (induction m) auto

lemma createScript_cases:
  assumes "createScript now key ik raw ttl g limit r = (r', res)" "index_ok limit now r"
  obtains (kept) "r' = purged now ik r" "res \<noteq> Inr 1"
    | (created) z x where "res = Inr 1" "0 < ttl" "zset_ok limit now z" "0 < limit \<longrightarrow> int (length z) < limit"
        "liveMembers now z = z"
        "r' = writeIndex ik (mput g (now + ttl) z) (Some x)
           ((purged now ik r)\<lparr>sr_keys := mput key (raw, now + ttl) (sr_keys (purged now ik r))\<rparr>)"
        "map_of (sr_index (purged now ik r)) ik = (if z = [] then None else Some (z, Some x)) \<or>
         (\<exists>y. map_of (sr_index (purged now ik r)) ik = (if z = [] then None else Some (z, Some y)) \<and> y < x)"
        "now + ttl \<le> x"
proof -
  obtain z0 e0 where z0: "readIndex now r ik = (z0, e0)" by fastforce
  define z where "z = liveMembers now z0"
  define e where "e = (if z = [] then None else e0)"
  note ok = readIndex_ok [OF assms(2) z0]
  have zo: "zset_ok limit now z" "liveMembers now z = z" using ok zset_ok_live by (auto simp: z_def)
  have e: "z \<noteq> [] \<Longrightarrow> \<exists>y. e = Some y" using ok by (auto simp: e_def z_def)
  have pu: "purged now ik r = writeIndex ik z e r" by (simp add: purged_def z0 z_def e_def)
  have cs: "createScript now key ik raw ttl g limit r =
      (if limit > 0 \<and> int (length z) \<ge> limit then (purged now ik r, Inr 0)
       else if ttl \<le> 0 then (purged now ik r, Inl ErrRedis)
       else (writeIndex ik (mput g (now + ttl) z)
               (if (case e of None \<Rightarrow> -1 | Some x \<Rightarrow> x - now) < ttl then Some (now + ttl) else e)
               ((purged now ik r)\<lparr>sr_keys := mput key (raw, now + ttl) (sr_keys (purged now ik r))\<rparr>), Inr 1))"
    unfolding createScript_def z0 pu
    by (simp add: Let_def z_def [unfolded liveMembers_def, symmetric] e_def)
  show ?thesis
  proof (cases "(limit > 0 \<and> int (length z) \<ge> limit) \<or> ttl \<le> 0")
    case True
    then show ?thesis using assms(1) cs kept by (auto split: if_splits)
  next
    case False
    define x where "x = (case e of None \<Rightarrow> now + ttl | Some y \<Rightarrow> if y - now < ttl then now + ttl else y)"
    have x: "(if (case e of None \<Rightarrow> -1 | Some x \<Rightarrow> x - now) < ttl then Some (now + ttl) else e) = Some x"
      using False by (auto simp: x_def split: option.split)
    show ?thesis
    proof (rule created)
      show "res = Inr 1" "0 < ttl" "0 < limit \<longrightarrow> int (length z) < limit" using False assms(1) cs by auto
      show "zset_ok limit now z" "liveMembers now z = z" by (fact zo)+
      show "r' = writeIndex ik (mput g (now + ttl) z) (Some x)
          ((purged now ik r)\<lparr>sr_keys := mput key (raw, now + ttl) (sr_keys (purged now ik r))\<rparr>)"
        using False assms(1) cs [unfolded x] by (auto simp: not_le)
      show "map_of (sr_index (purged now ik r)) ik = (if z = [] then None else Some (z, Some x)) \<or>
         (\<exists>y. map_of (sr_index (purged now ik r)) ik = (if z = [] then None else Some (z, Some y)) \<and> y < x)"
        using e by (cases "z = []") (auto simp: pu x_def)
      show "now + ttl \<le> x" using False by (auto simp: x_def split: option.split)
    qed
  qed
qed

lemma length_live_le: "length (liveMembers now z) \<le> length z"
  by (simp add: liveMembers_def)

lemma session_inv_createScript:
  assumes "session_inv m now r"
    and "createScript now (''session:'' @ g) (sessionIndexKey (sd_AccountID d)) (Payload d) ttl g (sm_maxPerAccount m) r = (r', res)"
  shows "session_inv m now r'"
proof -
  let ?ik = "sessionIndexKey (sd_AccountID d)" and ?k = "''session:'' @ g"
  let ?p = "purged now ?ik r"
  have io: "index_ok (sm_maxPerAccount m) now r" using assms(1) by (simp add: session_inv_def)
  have pi: "session_inv m now ?p" by (rule session_inv_purged [OF assms(1)])
  from assms(2) io show ?thesis
  proof (cases rule: createScript_cases)
    case kept
    then show ?thesis using pi by simp
  next
    case (created z x)
    let ?z = "mput g (now + ttl) z"
    have "int (length (liveMembers now ?z)) \<le> sm_maxPerAccount m" if "0 < sm_maxPerAccount m"
      using created(4) that length_live_le [of now ?z] length_mput [of g "now + ttl" z] by simp
    then have "zset_ok (sm_maxPerAccount m) now ?z" using created(3) by (simp add: zset_ok_def)
    moreover have "index_ok (sm_maxPerAccount m) now (?p\<lparr>sr_keys := ks\<rparr>)" for ks
      using pi by (simp add: session_inv_def index_ok_def)
    ultimately have 1: "index_ok (sm_maxPerAccount m) now r'"
      unfolding created(6) by (intro index_ok_writeIndex) simp_all
    have keep: "holds_member y r' ik h" if "holds_member y ?p ik h" "h \<noteq> g \<or> ik \<noteq> ?ik" for y ik h
      using that created(7) unfolding created(6) holds_member_def by (auto split: if_splits)
    have "covered now r'"
      unfolding covered_def
    proof (intro allI impI)
      fix k d' y
      assume k: "map_of (sr_keys r') k = Some (Payload d', y) \<and> now < y"
      show "\<exists>h. k = ''session:'' @ h \<and> holds_member y r' (sessionIndexKey (sd_AccountID d')) h"
      proof (cases "k = ?k")
        case True
        then have "d' = d" "y = now + ttl" using k unfolding created(6) by auto
        then show ?thesis using True created(8) unfolding created(6) by (auto simp: holds_member_def)
      next
        case False
        then have "map_of (sr_keys ?p) k = Some (Payload d', y)" using k unfolding created(6) by simp
        then obtain h where "k = ''session:'' @ h" "holds_member y ?p (sessionIndexKey (sd_AccountID d')) h"
          using pi k unfolding session_inv_def covered_def by blast
        then show ?thesis using keep False by auto
      qed
    qed
    moreover have "mwf (sr_keys r')" using pi unfolding created(6) by (simp add: session_inv_def)
    ultimately show ?thesis using 1 by (simp add: session_inv_def)
  qed
qed

lemma session_inv_create:
  assumes "session_inv m now r" "CreateSession m fate now random d ttl r = (r', res)"
  shows "session_inv m now r'"
  using assms session_inv_createScript [OF assms(1)]
  by (auto simp: CreateSession_def Let_def sessionKey_def split: if_splits option.splits prod.splits redis_fate.splits sum.splits)

lemma session_inv_remove:
  assumes "session_inv m now r"
  shows "session_inv m now (removeSession m now token a r)"
proof -
  let ?ik = "sessionIndexKey a" and ?g = "sessionDigest m token" and ?k = "sessionKey m token"
  obtain z e where z: "readIndex now r ?ik = (z, e)" by fastforce
  let ?r = "removeSession m now token a r"
  have r: "?r = writeIndex ?ik (mdel ?g z) e (r\<lparr>sr_keys := mdel ?k (sr_keys r)\<rparr>)"
    by (simp add: removeSession_def z)
  have io: "index_ok (sm_maxPerAccount m) now r" using assms by (simp add: session_inv_def)
  note ok = readIndex_ok [OF io z]
  have "length (liveMembers now (mdel ?g z)) \<le> length (liveMembers now z)"
    unfolding liveMembers_def by (induction z) auto
  then have "mdel ?g z \<noteq> [] \<Longrightarrow> zset_ok (sm_maxPerAccount m) now (mdel ?g z) \<and> e \<noteq> None"
    using ok by (auto simp: zset_ok_def)
  moreover have "index_ok (sm_maxPerAccount m) now (r\<lparr>sr_keys := ks\<rparr>)" for ks
    using io by (simp add: index_ok_def)
  ultimately have "index_ok (sm_maxPerAccount m) now ?r"
    unfolding r by (intro index_ok_writeIndex) simp_all
  moreover have "covered now ?r"
    unfolding covered_def
  proof (intro allI impI)
    fix k d y
    assume k: "map_of (sr_keys ?r) k = Some (Payload d, y) \<and> now < y"
    then have "map_of (sr_keys r) k = Some (Payload d, y)" "k \<noteq> ?k"
      unfolding r by (auto split: if_splits)
    then obtain h where h: "k = ''session:'' @ h" "holds_member y r (sessionIndexKey (sd_AccountID d)) h"
      using assms k unfolding session_inv_def covered_def by blast
    have "h \<noteq> ?g" using h(1) \<open>k \<noteq> ?k\<close> by (auto simp: sessionKey_def)
    show "\<exists>h. k = ''session:'' @ h \<and> holds_member y ?r (sessionIndexKey (sd_AccountID d)) h"
    proof (cases "sessionIndexKey (sd_AccountID d) = ?ik")
      case False
      then show ?thesis using h unfolding r by (auto simp: holds_member_def)
    next
      case True
      obtain z' x score where zz: "readIndex now r ?ik = (z', Some x)" "map_of z' h = Some score" "y \<le> score" "y \<le> x"
        using readIndex_holds [of y r "?ik" h now] h(2) k True by auto
      then have "map_of (mdel ?g z') h = Some score" using \<open>h \<noteq> ?g\<close> by simp
      moreover from this have "mdel ?g z' \<noteq> []" by (metis map_of.simps(1) option.distinct(1))
      ultimately show ?thesis using h(1) True z zz unfolding r by (auto simp: holds_member_def)
    qed
  qed
  moreover have "mwf (sr_keys ?r)" using assms by (simp add: session_inv_def r)
  ultimately show ?thesis by (simp add: session_inv_def)
qed

lemma session_inv_delete:
  assumes "session_inv m now r" "DeleteSession m f1 f2 now token r = (r', res)"
  shows "session_inv m now r'"
  using assms session_inv_remove [OF assms(1)]
  by (auto simp: DeleteSession_def split: if_splits option.splits session_raw.splits redis_fate.splits)

section \<open>Reachable session stores\<close>

definition emptySessions :: session_redis where
  "emptySessions = \<lparr>sr_keys = [], sr_index = []\<rparr>"

text \<open>\<open>session_reach m now r\<close>: the operations of manager \<open>m\<close>, each at its time, lead to \<open>r\<close> by \<open>now\<close>.\<close>

inductive session_reach :: "session_manager \<Rightarrow> int \<Rightarrow> session_redis \<Rightarrow> bool" for m where
  start: "session_reach m now emptySessions"
| later: "session_reach m now r \<Longrightarrow> now \<le> now' \<Longrightarrow> session_reach m now' r"
| create: "session_reach m now r \<Longrightarrow> CreateSession m fate now random d ttl r = (r', res) \<Longrightarrow> session_reach m now r'"
| delete: "session_reach m now r \<Longrightarrow> DeleteSession m f1 f2 now token r = (r', res) \<Longrightarrow> session_reach m now r'"

lemma session_inv_empty: "session_inv m now emptySessions"
  by (simp add: session_inv_def index_ok_def covered_def emptySessions_def)

lemma session_reach_inv: "session_reach m now r \<Longrightarrow> session_inv m now r"
  by (induction rule: session_reach.induct)
     (blast intro: session_inv_empty session_inv_later session_inv_create session_inv_delete)+

definition sessionOf :: "int \<Rightarrow> int \<Rightarrow> string \<times> session_raw \<times> int \<Rightarrow> bool" where
  "sessionOf now a p =
     (case p of
        (k, Payload d, expiry) \<Rightarrow> now < expiry \<and> sd_AccountID d = a
      | (k, Garbled, expiry) \<Rightarrow> False)"

definition liveSessions :: "int \<Rightarrow> int \<Rightarrow> session_redis \<Rightarrow> nat" where
  "liveSessions now a r = length (filter (sessionOf now a) (sr_keys r))"

lemma liveSessions_le:
  assumes "session_inv m now r" "0 < sm_maxPerAccount m"
  shows "int (liveSessions now a r) \<le> sm_maxPerAccount m"
proof (cases "filter (sessionOf now a) (sr_keys r)")
  case Nil
  then show ?thesis using assms(2) by (simp add: liveSessions_def)
next
  case (Cons p ps)
  let ?S = "filter (sessionOf now a) (sr_keys r)" and ?ik = "sessionIndexKey a"
  have wf: "mwf (sr_keys r)" "index_ok (sm_maxPerAccount m) now r" using assms(1) by (auto simp: session_inv_def)
  have mem: "\<exists>g z x score. k = ''session:'' @ g \<and> map_of (sr_index r) ?ik = Some (z, Some x) \<and>
      map_of z g = Some score \<and> now < score" if kin: "(k, q) \<in> set ?S" for k q
  proof -
    obtain d y where q: "q = (Payload d, y)" "now < y" "sd_AccountID d = a"
      using kin by (cases q; cases "fst q") (auto simp: sessionOf_def)
    have "map_of (sr_keys r) k = Some (Payload d, y)" using wf(1) kin q(1) by (simp add: mget_set)
    then obtain g where "k = ''session:'' @ g" "holds_member y r ?ik g"
      using assms(1) q unfolding session_inv_def covered_def by blast
    then show ?thesis using q(2) by (auto simp: holds_member_def intro: less_le_trans)
  qed
  obtain k q where "p = (k, q)" by (cases p)
  then have "(k, q) \<in> set ?S" using Cons by simp
  from mem [OF this] obtain z x where z: "map_of (sr_index r) ?ik = Some (z, Some x)" by blast
  have zo: "mwf z" "int (length (liveMembers now z)) \<le> sm_maxPerAccount m"
    using wf(2) z assms(2) by (auto simp: index_ok_def zset_ok_def)
  have "fst ` set ?S \<subseteq> (\<lambda>g. ''session:'' @ g) ` fst ` set (liveMembers now z)"
  proof
    fix k assume "k \<in> fst ` set ?S"
    then obtain u where u: "u \<in> set ?S" "k = fst u" by blast
    then have "(k, snd u) \<in> set ?S" by simp
    from mem [OF this] obtain g z' x' score where k: "k = ''session:'' @ g"
        "map_of (sr_index r) ?ik = Some (z', Some x')" "map_of z' g = Some score" "now < score"
      by blast
    have "z' = z" using k(2) z by simp
    with k have "(g, score) \<in> set (liveMembers now z)" using zo(1) by (simp add: liveMembers_def mget_set)
    then show "k \<in> (\<lambda>g. ''session:'' @ g) ` fst ` set (liveMembers now z)"
      unfolding k(1) by (intro imageI) (rule image_eqI [where x = "(g, score)"], simp_all)
  qed
  then have "card (fst ` set ?S) \<le> card ((\<lambda>g. ''session:'' @ g) ` fst ` set (liveMembers now z))"
    by (intro card_mono) simp_all
  also have "\<dots> \<le> card (fst ` set (liveMembers now z))"
    by (rule card_image_le) simp
  also have "\<dots> \<le> card (set (liveMembers now z))"
    by (rule card_image_le) simp
  also have "\<dots> \<le> length (liveMembers now z)" by (rule card_length)
  finally have "card (fst ` set ?S) \<le> length (liveMembers now z)" .
  moreover have "distinct (map fst ?S)" using wf(1) by (simp add: mwf_def distinct_map_filter)
  from distinct_card [OF this] have "card (fst ` set ?S) = length ?S" by (simp only: set_map length_map)
  ultimately show ?thesis using zo(2) by (simp add: liveSessions_def)
qed

text \<open>C34. An account never has more live sessions than the limit, whatever sessions were created and
  deleted before, also when replies of Redis were lost, when sessions of different lifetimes mix and
  when a token was drawn twice.\<close>

theorem session_cap:
  assumes "session_reach m now r" and "0 < sm_maxPerAccount m"
  shows "int (liveSessions now a r) \<le> sm_maxPerAccount m"
  by (rule liveSessions_le [OF session_reach_inv [OF assms(1)] assms(2)])

text \<open>With a limit of one, the second of two logins is refused.\<close>

definition exampleManager :: session_manager where
  "exampleManager = \<lparr>sm_maxPerAccount = 1, sm_sha256Hex = (\<lambda>s. s)\<rparr>"

definition exampleLogin1 :: "string \<Rightarrow> session_redis \<Rightarrow> session_redis \<times> string result" where
  "exampleLogin1 token = CreateSession exampleManager RedisUp 10 (Some token)
     \<lparr>sd_AccountID = 7, sd_Username = ''u'', sd_Role = ''user'', sd_ExternalID = ''u'', sd_CSRFToken = ''c'',
      sd_SessionVersion = 0\<rparr> DefaultTTL"

lemma session_cap_witness:
  "liveSessions 10 7 (fst (exampleLogin1 ''b'' (fst (exampleLogin1 ''a'' emptySessions)))) = 1"
proof -
  let ?r = "fst (exampleLogin1 ''a'' emptySessions)"
  have r: "session_reach exampleManager 10 ?r"
    by (rule session_reach.create [OF session_reach.start]) (simp add: exampleLogin1_def, rule surjective_pairing)
  have r2: "session_reach exampleManager 10 (fst (exampleLogin1 ''b'' ?r))"
    by (rule session_reach.create [OF r]) (simp add: exampleLogin1_def, rule surjective_pairing)
  have "int (liveSessions 10 7 (fst (exampleLogin1 ''b'' ?r))) \<le> 1"
    using session_cap [OF r2, of 7] by (simp add: exampleManager_def)
  moreover have "0 < liveSessions 10 7 (fst (exampleLogin1 ''b'' ?r))" by code_simp
  ultimately show ?thesis by simp
qed

text \<open>A session that was created is found by its token until it expires or is deleted.\<close>

lemma GetSession_created:
  assumes "CreateSession m RedisUp now random d ttl r = (r', Inr token)"
    and "now \<le> now'" "now' < now + milliseconds ttl"
  shows "GetSession m RedisUp now' token r' = Inr d"
  using assms
  by (auto simp: CreateSession_def createScript_def GetSession_def readSession_def Let_def
      split: if_splits option.splits prod.splits sum.splits)

lemma GetSession_deleted:
  assumes "DeleteSession m f1 f2 now token r = (r', Inr ())" "now \<le> now'"
  shows "\<not> is_ok (GetSession m fate now' token r')"
  using assms
  by (auto simp: DeleteSession_def GetSession_def readSession_def removeSession_def
      split: if_splits option.splits session_raw.splits redis_fate.splits prod.splits)

end
