(* ===== verification/Console.thy ===== *)
theory Console
  imports Session PgAccount
begin

text \<open>
  The console of \<open>internal/server/auth_handlers.go\<close> (register, login, logout, me) and
  \<open>account_handlers.go\<close> (accounts and settings of the admin surface), over any \<open>AccountStore\<close>, with the
  session manager, the login-name limiter and the bcrypt semaphore, and \<open>bootstrapAdmin\<close> of
  \<open>cmd/linapi/main.go\<close>.

  A request body is what \<open>ShouldBindJSON\<close> decoded, or \<open>None\<close> when it is not JSON of that shape; the
  \<open>required\<close> checks are made here. A handler takes the state to a new state and a reply. A login is in
  two halves, the check of the password and the creation of the session, so that another request may
  come between them.
\<close>

section \<open>State and surroundings\<close>

record cookie =
  ck_Name :: string
  ck_Value :: string
  ck_MaxAge :: int
  ck_Secure :: bool
  ck_HttpOnly :: bool
  ck_SameSiteStrict :: bool

record reply =
  rp_write :: client_write
  rp_headers :: "(string \<times> string) list"
  rp_cookies :: "cookie list"

record ('e, 's) auth_handlers =
  ah_accounts :: "('e, 's) account_ops"
  ah_settings :: "('e, 's) settings_ops"
  ah_sessions :: session_manager
  ah_secureCookie :: bool
  ah_credentialLimit :: "ident_limiter option"
  ah_bcrypt :: bcrypt
  ah_text :: text_env
  ah_dummyPasswordHash :: string

record 's console =
  cs_store :: 's
  cs_sessions :: session_redis
  cs_buckets :: buckets
  cs_bcryptSem :: "semaphore option"
  cs_clock :: int

text \<open>What one request takes from its surroundings: the account and settings calls, the fate of its
  Redis calls, the random source.\<close>

record 'e console_env =
  ce_store :: 'e
  ce_settings :: 'e
  ce_limit :: redis_fate
  ce_session :: redis_fate
  ce_exec :: redis_fate
  ce_salt :: string
  ce_csrf :: "string option"
  ce_token :: "string option"

record credentials_req =
  cr_Username :: string
  cr_Password :: string
  cr_Remember :: bool

section \<open>Replies\<close>

definition writeErrorJSON :: "int \<Rightarrow> string \<Rightarrow> string \<Rightarrow> reply" where
  "writeErrorJSON status errType message =
     \<lparr>rp_write = CJson status (JObj [(''error'', JObj [(''message'', JStr message), (''type'', JStr errType)])]),
      rp_headers = [], rp_cookies = []\<rparr>"

definition writeJSON :: "int \<Rightarrow> (string \<times> json) list \<Rightarrow> reply" where
  "writeJSON status members = \<lparr>rp_write = CJson status (JObj members), rp_headers = [], rp_cookies = []\<rparr>"

definition sessionCookie :: "('e, 's) auth_handlers \<Rightarrow> string \<Rightarrow> int \<Rightarrow> cookie" where
  "sessionCookie h token maxAge = \<lparr>ck_Name = ''linapi_session'', ck_Value = token, ck_MaxAge = maxAge,
     ck_Secure = ah_secureCookie h, ck_HttpOnly = True, ck_SameSiteStrict = True\<rparr>"

definition csrfCookie :: "('e, 's) auth_handlers \<Rightarrow> string \<Rightarrow> int \<Rightarrow> cookie" where
  "csrfCookie h token maxAge = \<lparr>ck_Name = ''linapi_csrf'', ck_Value = token, ck_MaxAge = maxAge,
     ck_Secure = ah_secureCookie h, ck_HttpOnly = False, ck_SameSiteStrict = True\<rparr>"

definition bindCredentials :: "credentials_req option \<Rightarrow> credentials_req option" where
  "bindCredentials body =
     (case body of
        None \<Rightarrow> None
      | Some q \<Rightarrow> if cr_Username q = [] \<or> cr_Password q = [] then None else Some q)"

definition badRequest :: reply where
  "badRequest = writeErrorJSON 400 ''invalid_request_error'' ''invalid body''"

section \<open>Guards of the anonymous endpoints\<close>

definition acquireBcrypt :: "'s console \<Rightarrow> 's console \<times> bool" where
  "acquireBcrypt st =
     (case cs_bcryptSem st of
        None \<Rightarrow> (st, True)
      | Some sem \<Rightarrow> (case TryAcquire sem of (sem', ok) \<Rightarrow> (st\<lparr>cs_bcryptSem := Some sem'\<rparr>, ok)))"

text \<open>A panic of \<open>Release\<close> would end the request; it cannot happen after \<open>TryAcquire\<close> (\<open>bcrypt_balanced\<close>).\<close>

definition releaseBcrypt :: "'s console \<Rightarrow> 's console" where
  "releaseBcrypt st =
     (case cs_bcryptSem st of
        None \<Rightarrow> st
      | Some sem \<Rightarrow> (case Release sem of Inl err \<Rightarrow> st | Inr sem' \<Rightarrow> st\<lparr>cs_bcryptSem := Some sem'\<rparr>))"

text \<open>\<open>allowCredential\<close>: \<open>None\<close> lets the request go on.\<close>

definition allowCredential ::
  "('e, 's) auth_handlers \<Rightarrow> 'e console_env \<Rightarrow> string \<Rightarrow> string \<Rightarrow> 's console \<Rightarrow> 's console \<times> reply option" where
  "allowCredential h e scope username st =
     (case identAllow (ah_text h) (ce_limit e) (of_int (cs_clock st) / 1000) (ah_credentialLimit h) scope username
             (cs_buckets st) of
        (b, Inl err) \<Rightarrow> (st\<lparr>cs_buckets := b\<rparr>, None)
      | (b, Inr (allowed, retryAfter)) \<Rightarrow>
          (st\<lparr>cs_buckets := b\<rparr>,
           if allowed then None
           else Some ((writeErrorJSON 429 ''rate_limit_error'' ''too many attempts'')
                        \<lparr>rp_headers := [(''Retry-After'', intText retryAfter)]\<rparr>)))"

section \<open>Registration\<close>

definition registered :: reply where
  "registered = writeJSON 201 [(''ok'', JBool True)]"

definition register ::
  "('e, 's) auth_handlers \<Rightarrow> 'e console_env \<Rightarrow> credentials_req option \<Rightarrow> 's console \<Rightarrow> 's console \<times> reply" where
  "register h e body st =
     (case bindCredentials body of
        None \<Rightarrow> (st, badRequest)
      | Some q \<Rightarrow>
     (case allowCredential h e ''register'' (cr_Username q) st of
        (st, Some refusal) \<Rightarrow> (st, refusal)
      | (st, None) \<Rightarrow>
     (case so_Get (ah_settings h) (ce_settings e) (cs_store st) of
        Inl err \<Rightarrow> (st, writeErrorJSON 500 ''internal_error'' ''settings unavailable'')
      | Inr settings \<Rightarrow>
     (if \<not> st_RegistrationEnabled settings
      then (st, writeErrorJSON 403 ''permission_error'' ''registration is closed'')
      else (case acquireBcrypt st of
        (st, False) \<Rightarrow> (st, writeErrorJSON 503 ''internal_error'' ''busy'')
      | (st, True) \<Rightarrow>
     (let hash = HashPassword (ah_bcrypt h) (ce_salt e) (cr_Password q);
          st = releaseBcrypt st
      in (case hash of
        Inl err \<Rightarrow>
          if errors_is err ErrPasswordTooShort \<or> errors_is err ErrPasswordTooLong
          then (st, writeErrorJSON 400 ''invalid_request_error'' ''password length'')
          else (st, writeErrorJSON 500 ''internal_error'' ''password'')
      | Inr hash \<Rightarrow>
     (case ao_CreateUserAccount (ah_accounts h) (ce_store e) (cr_Username q) hash 0 (cs_store st) of
        (s, Inl err) \<Rightarrow>
          (st\<lparr>cs_store := s\<rparr>,
           if errors_is err ErrAccountConflict then registered
           else writeErrorJSON 500 ''internal_error'' ''account creation failed'')
      | (s, Inr acc) \<Rightarrow> (st\<lparr>cs_store := s\<rparr>, registered)))))))))"

section \<open>Login\<close>

definition loginFailed :: reply where
  "loginFailed = writeErrorJSON 401 ''authentication_error'' ''wrong user name or password''"

definition hashToCheck :: "('e, 's) auth_handlers \<Rightarrow> credentials result \<Rightarrow> string" where
  "hashToCheck h cred = (case cred of Inl err \<Rightarrow> ah_dummyPasswordHash h | Inr c \<Rightarrow> cd_PasswordHash c)"

text \<open>The first half: everything up to and including the password check.\<close>

definition loginCheck ::
  "('e, 's) auth_handlers \<Rightarrow> 'e console_env \<Rightarrow> credentials_req option \<Rightarrow> 's console \<Rightarrow>
   's console \<times> (reply + credentials \<times> bool)" where
  "loginCheck h e body st =
     (case bindCredentials body of
        None \<Rightarrow> (st, Inl badRequest)
      | Some q \<Rightarrow>
     (case allowCredential h e ''login'' (cr_Username q) st of
        (st, Some refusal) \<Rightarrow> (st, Inl refusal)
      | (st, None) \<Rightarrow>
     (let cred = ao_GetCredentials (ah_accounts h) (ce_store e) (cr_Username q) (cs_store st) in
      (case acquireBcrypt st of
        (st, False) \<Rightarrow> (st, Inl (writeErrorJSON 503 ''internal_error'' ''busy''))
      | (st, True) \<Rightarrow>
     (let passOK = CheckPassword (ah_bcrypt h) (hashToCheck h cred) (cr_Password q);
          st = releaseBcrypt st
      in (case cred of
            Inl err \<Rightarrow> (st, Inl loginFailed)
          | Inr c \<Rightarrow>
              if \<not> a_Enabled (cd_Account c) \<or> \<not> passOK then (st, Inl loginFailed)
              else (st, Inr (c, cr_Remember q))))))))"

definition sessionDataOf :: "account \<Rightarrow> string \<Rightarrow> session_data" where
  "sessionDataOf a csrf = \<lparr>sd_AccountID = a_ID a, sd_Username = a_Username a, sd_Role = a_Role a,
     sd_ExternalID = a_ExternalID a, sd_CSRFToken = csrf, sd_SessionVersion = a_SessionVersion a\<rparr>"

text \<open>The second half: the session and the cookies.\<close>

definition loginIssue ::
  "('e, 's) auth_handlers \<Rightarrow> 'e console_env \<Rightarrow> credentials \<Rightarrow> bool \<Rightarrow> 's console \<Rightarrow> 's console \<times> reply" where
  "loginIssue h e c remember st =
     (let ttl = (if remember then RememberTTL else DefaultTTL);
          maxAge = go_div ttl second
      in (case ce_csrf e of
            None \<Rightarrow> (st, writeErrorJSON 500 ''internal_error'' ''random source'')
          | Some csrf \<Rightarrow>
              (case CreateSession (ah_sessions h) (ce_session e) (cs_clock st) (ce_token e)
                      (sessionDataOf (cd_Account c) csrf) ttl (cs_sessions st) of
                 (r, Inl err) \<Rightarrow>
                   (st\<lparr>cs_sessions := r\<rparr>,
                    if errors_is err ErrTooManyActiveSessions
                    then writeErrorJSON 429 ''rate_limit_error'' ''too many sessions''
                    else writeErrorJSON 503 ''internal_error'' ''session service unavailable'')
               | (r, Inr token) \<Rightarrow>
                   (st\<lparr>cs_sessions := r\<rparr>,
                    (writeJSON 200 [(''username'', JStr (a_Username (cd_Account c))),
                       (''role'', JStr (a_Role (cd_Account c))), (''csrf_token'', JStr csrf)])
                      \<lparr>rp_cookies := [sessionCookie h token maxAge, csrfCookie h csrf maxAge]\<rparr>))))"

definition login ::
  "('e, 's) auth_handlers \<Rightarrow> 'e console_env \<Rightarrow> credentials_req option \<Rightarrow> 's console \<Rightarrow> 's console \<times> reply" where
  "login h e body st =
     (case loginCheck h e body st of
        (st, Inl refusal) \<Rightarrow> (st, refusal)
      | (st, Inr (c, remember)) \<Rightarrow> loginIssue h e c remember st)"

section \<open>Logout and identity\<close>

definition loggedOut :: "('e, 's) auth_handlers \<Rightarrow> reply" where
  "loggedOut h = (writeJSON 200 [(''ok'', JBool True)])
     \<lparr>rp_cookies := [sessionCookie h [] (-1), csrfCookie h [] (-1)]\<rparr>"

definition logout ::
  "('e, 's) auth_handlers \<Rightarrow> 'e console_env \<Rightarrow> string option \<Rightarrow> 's console \<Rightarrow> 's console \<times> reply" where
  "logout h e cookie st =
     (case cookie of
        None \<Rightarrow> (st, loggedOut h)
      | Some token \<Rightarrow>
          if token = [] then (st, loggedOut h)
          else (case DeleteSession (ah_sessions h) (ce_session e) (ce_exec e) (cs_clock st) token (cs_sessions st) of
                  (r, Inl err) \<Rightarrow>
                    (st\<lparr>cs_sessions := r\<rparr>, writeErrorJSON 503 ''internal_error'' ''logout failed'')
                | (r, Inr u) \<Rightarrow> (st\<lparr>cs_sessions := r\<rparr>, loggedOut h)))"

definition me :: "session_data option \<Rightarrow> reply" where
  "me sessionFrom =
     (case sessionFrom of
        None \<Rightarrow> writeErrorJSON 401 ''authentication_error'' ''not logged in''
      | Some d \<Rightarrow> writeJSON 200 [(''username'', JStr (sd_Username d)), (''role'', JStr (sd_Role d)),
          (''external_id'', JStr (sd_ExternalID d)), (''csrf_token'', JStr (sd_CSRFToken d))])"

definition registrationStatus :: "('e, 's) auth_handlers \<Rightarrow> 'e console_env \<Rightarrow> 's console \<Rightarrow> reply" where
  "registrationStatus h e st =
     (case so_Get (ah_settings h) (ce_settings e) (cs_store st) of
        Inl err \<Rightarrow> writeJSON 200 [(''registration_enabled'', JBool False)]
      | Inr settings \<Rightarrow> writeJSON 200 [(''registration_enabled'', JBool (st_RegistrationEnabled settings))])"

section \<open>Accounts and settings of the admin surface\<close>

definition writeAccountError :: "goerr \<Rightarrow> reply" where
  "writeAccountError err =
     (if errors_is err ErrAccountNotFound then writeErrorJSON 404 ''not_found'' ''no such account''
      else if errors_is err ErrAccountConflict then writeErrorJSON 409 ''conflict'' ''user name taken''
      else if errors_is err ErrInvalidRole then writeErrorJSON 400 ''invalid_request_error'' ''invalid role''
      else writeErrorJSON 500 ''internal_error'' ''storage failed'')"

text \<open>\<open>queryInt\<close> of \<open>admin_channels.go\<close>: an absent or empty parameter is the default; the error reply
  otherwise.\<close>

definition queryInt :: "string \<Rightarrow> string \<Rightarrow> int \<Rightarrow> int \<Rightarrow> int \<Rightarrow> reply + int" where
  "queryInt key s def minValue maxValue =
     (if s = [] then Inr def
      else (case Atoi s of
              None \<Rightarrow> Inl (writeErrorJSON 400 ''invalid_request_error'' (key @ '' out of range''))
            | Some v \<Rightarrow>
                if v < minValue \<or> v > maxValue
                then Inl (writeErrorJSON 400 ''invalid_request_error'' (key @ '' out of range''))
                else Inr v))"

text \<open>The JSON of an account, with \<open>omitempty\<close> on the external id; the text of the time is a
  parameter.\<close>

definition accountFields :: "(gotime \<Rightarrow> string) \<Rightarrow> account \<Rightarrow> (string \<times> json) list" where
  "accountFields timeText a =
     [(''id'', JNum (intText (a_ID a))), (''username'', JStr (a_Username a)), (''role'', JStr (a_Role a))] @
     (if a_ExternalID a = [] then [] else [(''external_id'', JStr (a_ExternalID a))]) @
     [(''group_name'', JStr (a_GroupName a)), (''enabled'', JBool (a_Enabled a)),
      (''created_at'', JStr (timeText (a_CreatedAt a))), (''session_version'', JNum (intText (a_SessionVersion a)))]"

definition listAccounts ::
  "('e, 's) auth_handlers \<Rightarrow> (gotime \<Rightarrow> string) \<Rightarrow> 'e console_env \<Rightarrow> string \<Rightarrow> string \<Rightarrow> 's console \<Rightarrow> reply" where
  "listAccounts h timeText e limit offset st =
     (case queryInt ''limit'' limit 100 1 500 of
        Inl refusal \<Rightarrow> refusal
      | Inr limit \<Rightarrow>
     (case queryInt ''offset'' offset 0 0 1000000000 of
        Inl refusal \<Rightarrow> refusal
      | Inr offset \<Rightarrow>
     (case ao_ListAccounts (ah_accounts h) (ce_store e) limit offset (cs_store st) of
        Inl err \<Rightarrow> writeAccountError err
      | Inr accs \<Rightarrow> writeJSON 200 [(''data'', JArr (map (\<lambda>a. JObj (accountFields timeText a)) accs))])))"

record create_account_req =
  cq_Username :: string
  cq_Password :: string
  cq_Role :: string
  cq_InitialBalance :: int

definition passwordError :: "goerr \<Rightarrow> reply" where
  "passwordError err =
     (if errors_is err ErrPasswordTooShort \<or> errors_is err ErrPasswordTooLong
      then writeErrorJSON 400 ''invalid_request_error'' ''password length''
      else writeErrorJSON 500 ''internal_error'' ''password'')"

definition createAccount ::
  "('e, 's) auth_handlers \<Rightarrow> (gotime \<Rightarrow> string) \<Rightarrow> 'e console_env \<Rightarrow> create_account_req option \<Rightarrow> 's console \<Rightarrow>
   's console \<times> reply" where
  "createAccount h timeText e body st =
     (case body of
        None \<Rightarrow> (st, badRequest)
      | Some q \<Rightarrow>
          if cq_Username q = [] \<or> cq_Password q = [] \<or> cq_Role q = [] then (st, badRequest)
          else if \<not> ValidRole (cq_Role q)
          then (st, writeErrorJSON 400 ''invalid_request_error'' ''invalid role'')
          else (case HashPassword (ah_bcrypt h) (ce_salt e) (cq_Password q) of
                  Inl err \<Rightarrow> (st, passwordError err)
                | Inr hash \<Rightarrow>
                    (case (if cq_Role q = AccountRoleUser
                           then ao_CreateUserAccount (ah_accounts h) (ce_store e) (cq_Username q) hash
                                  (cq_InitialBalance q) (cs_store st)
                           else ao_CreateAccount (ah_accounts h) (ce_store e)
                                  \<lparr>ca_Username = cq_Username q, ca_PasswordHash = hash, ca_Role = cq_Role q,
                                   ca_ExternalID = []\<rparr> (cs_store st)) of
                       (s, Inl err) \<Rightarrow> (st\<lparr>cs_store := s\<rparr>, writeAccountError err)
                     | (s, Inr acc) \<Rightarrow> (st\<lparr>cs_store := s\<rparr>, writeJSON 201 (accountFields timeText acc)))))"

text \<open>The path parameter is a text, the body a pointer to a flag, so that an absent flag is refused.\<close>

definition setAccountEnabled ::
  "('e, 's) auth_handlers \<Rightarrow> (gotime \<Rightarrow> string) \<Rightarrow> 'e console_env \<Rightarrow> string \<Rightarrow> bool option option \<Rightarrow> 's console \<Rightarrow>
   's console \<times> reply" where
  "setAccountEnabled h timeText e idText body st =
     (case Atoi idText of
        None \<Rightarrow> (st, writeErrorJSON 400 ''invalid_request_error'' ''invalid account id'')
      | Some i \<Rightarrow>
          (case body of
             Some (Some enabled) \<Rightarrow>
               (case ao_SetEnabled (ah_accounts h) (ce_store e) i enabled (cs_store st) of
                  (s, Inl err) \<Rightarrow> (st\<lparr>cs_store := s\<rparr>, writeAccountError err)
                | (s, Inr acc) \<Rightarrow> (st\<lparr>cs_store := s\<rparr>, writeJSON 200 (accountFields timeText acc)))
           | _ \<Rightarrow> (st, badRequest)))"

definition resetPassword ::
  "('e, 's) auth_handlers \<Rightarrow> 'e console_env \<Rightarrow> string \<Rightarrow> string option \<Rightarrow> 's console \<Rightarrow> 's console \<times> reply" where
  "resetPassword h e idText body st =
     (case Atoi idText of
        None \<Rightarrow> (st, writeErrorJSON 400 ''invalid_request_error'' ''invalid account id'')
      | Some i \<Rightarrow>
          (case body of
             None \<Rightarrow> (st, badRequest)
           | Some password \<Rightarrow>
               if password = [] then (st, badRequest)
               else (case HashPassword (ah_bcrypt h) (ce_salt e) password of
                       Inl err \<Rightarrow> (st, passwordError err)
                     | Inr hash \<Rightarrow>
                         (case ao_UpdatePassword (ah_accounts h) (ce_store e) i hash (cs_store st) of
                            (s, Inl err) \<Rightarrow> (st\<lparr>cs_store := s\<rparr>, writeAccountError err)
                          | (s, Inr u) \<Rightarrow> (st\<lparr>cs_store := s\<rparr>, writeJSON 200 [(''ok'', JBool True)])))))"

definition settingsFields :: "settings \<Rightarrow> (string \<times> json) list" where
  "settingsFields v = [(''registration_enabled'', JBool (st_RegistrationEnabled v)),
     (''new_user_initial_balance'', JNum (intText (st_NewUserInitialBalance v)))]"

definition getSettings :: "('e, 's) auth_handlers \<Rightarrow> 'e console_env \<Rightarrow> 's console \<Rightarrow> reply" where
  "getSettings h e st =
     (case so_Get (ah_settings h) (ce_settings e) (cs_store st) of
        Inl err \<Rightarrow> writeErrorJSON 500 ''internal_error'' ''settings unavailable''
      | Inr v \<Rightarrow> writeJSON 200 (settingsFields v))"

definition putSettings ::
  "('e, 's) auth_handlers \<Rightarrow> 'e console_env \<Rightarrow> settings option \<Rightarrow> 's console \<Rightarrow> 's console \<times> reply" where
  "putSettings h e body st =
     (case body of
        None \<Rightarrow> (st, badRequest)
      | Some v \<Rightarrow>
          if st_NewUserInitialBalance v \<noteq> 0
          then (st, writeErrorJSON 400 ''invalid_request_error'' ''new_user_initial_balance must be 0'')
          else (case so_Put (ah_settings h) (ce_settings e) v (cs_store st) of
                  (s, Inl err) \<Rightarrow> (st\<lparr>cs_store := s\<rparr>, writeErrorJSON 500 ''internal_error'' ''settings not saved'')
                | (s, Inr u) \<Rightarrow> (st\<lparr>cs_store := s\<rparr>, writeJSON 200 (settingsFields v))))"

text \<open>The first administrator at the start of the process; \<open>e'\<close> is the environment of the second call.\<close>

definition bootstrapAdmin ::
  "('e, 's) auth_handlers \<Rightarrow> bool \<Rightarrow> string \<Rightarrow> string \<Rightarrow> 'e console_env \<Rightarrow> 'e \<Rightarrow> 's console \<Rightarrow> 's console" where
  "bootstrapAdmin h adminEnabled username password e e' st =
     (if \<not> adminEnabled \<or> username = [] then st
      else if password = [] then st
      else if is_ok (ao_GetByUsername (ah_accounts h) (ce_store e) username (cs_store st)) then st
      else (case HashPassword (ah_bcrypt h) (ce_salt e) password of
              Inl err \<Rightarrow> st
            | Inr hash \<Rightarrow>
                st\<lparr>cs_store := fst (ao_CreateAccount (ah_accounts h) e'
                     \<lparr>ca_Username = username, ca_PasswordHash = hash, ca_Role = AccountRoleAdmin, ca_ExternalID = []\<rparr>
                     (cs_store st))\<rparr>))"

text \<open>The guard of \<open>/admin\<close> (\<open>registerAdminRoutes\<close>): a session, the role, and the CSRF check.\<close>

definition adminGuard ::
  "('d, 'n) registry \<Rightarrow> (string \<Rightarrow> string result) \<Rightarrow> ('e, 's) auth_handlers \<Rightarrow> 'e console_env \<Rightarrow> auth_env \<Rightarrow>
   string option \<Rightarrow> http_request \<Rightarrow> 's console \<Rightarrow> 's console \<times> guard" where
  "adminGuard adapters urlHost h e xe cookie q st =
     (case SessionAuthWithVersion adapters (ah_sessions h)
             (Some (sessionVersionChecker (ah_accounts h) (ce_store e) (cs_store st)))
             (xe\<lparr>xe_now := cs_clock st\<rparr>) cookie (cs_sessions st) of
        (r, Inl w) \<Rightarrow> (st\<lparr>cs_sessions := r\<rparr>, Inl w)
      | (r, Inr d) \<Rightarrow>
          (st\<lparr>cs_sessions := r\<rparr>,
           (case RequireRole adapters AccountRoleAdmin (Some d) of
              Inl w \<Rightarrow> Inl w
            | Inr d \<Rightarrow>
                (case CSRFProtect adapters urlHost q (Some d) of
                   Some w \<Rightarrow> Inl w
                 | None \<Rightarrow> Inr d))))"

end
