(* ===== verification/ConsoleProps.thy ===== *)
theory ConsoleProps
  imports Console
begin

text \<open>
  The console as a system: requests of any users interleave, the two halves of a login are separate
  steps, time passes, other traffic uses the buckets and the bcrypt slots. Over any account store that
  keeps the contract of \<open>Account\<close>, a session that passes the version check is the current view of an
  enabled account; a password reset or a disabled account ends every earlier session for good.
\<close>

section \<open>Steps\<close>

text \<open>A system is the state of the console and the accounts of the logins between their two halves.\<close>

type_synonym 's system = "'s console \<times> account list"

inductive console_step :: "('e, 's) auth_handlers \<Rightarrow> 's system \<Rightarrow> 's system \<Rightarrow> bool" for h where
  tick: "cs_clock st \<le> t \<Longrightarrow> console_step h (st, P) (st\<lparr>cs_clock := t\<rparr>, P)"
| others: "console_step h (st, P) (st\<lparr>cs_buckets := b, cs_bcryptSem := sem\<rparr>, P)"
| register: "register h e body st = (st', rp) \<Longrightarrow> console_step h (st, P) (st', P)"
| refused: "loginCheck h e body st = (st', Inl rp) \<Longrightarrow> console_step h (st, P) (st', P)"
| checked: "loginCheck h e body st = (st', Inr (c, rem)) \<Longrightarrow> console_step h (st, P) (st', cd_Account c # P)"
| issue: "cd_Account c \<in> set P \<Longrightarrow> loginIssue h e c rem st = (st', rp) \<Longrightarrow> console_step h (st, P) (st', P)"
| logout: "logout h e cookie st = (st', rp) \<Longrightarrow> console_step h (st, P) (st', P)"
| visit: "SessionAuthWithVersion (adapters :: (unit, unit) registry) (ah_sessions h)
      (Some (sessionVersionChecker (ah_accounts h) e (cs_store st))) xe cookie (cs_sessions st) = (r, g) \<Longrightarrow>
    console_step h (st, P) (st\<lparr>cs_sessions := r\<rparr>, P)"
| create: "createAccount h tt e req st = (st', rp) \<Longrightarrow> console_step h (st, P) (st', P)"
| switch: "setAccountEnabled h tt e idText flag st = (st', rp) \<Longrightarrow> console_step h (st, P) (st', P)"
| reset: "resetPassword h e idText pw st = (st', rp) \<Longrightarrow> console_step h (st, P) (st', P)"
| put: "putSettings h e v st = (st', rp) \<Longrightarrow> console_step h (st, P) (st', P)"
| boot: "console_step h (st, P) (bootstrapAdmin h b u pw e e' st, P)"

inductive console_run :: "('e, 's) auth_handlers \<Rightarrow> nat \<Rightarrow> 's system \<Rightarrow> 's system \<Rightarrow> bool" for h where
  stop: "console_run h 0 x x"
| move: "console_run h n x y \<Longrightarrow> console_step h y z \<Longrightarrow> console_run h (Suc n) x z"

inductive_cases console_stepE: "console_step h (st, P) y"
inductive_simps console_run_simps: "console_run h 0 x y" "console_run h (Suc n) x y"

section \<open>How accounts evolve\<close>

definition accounts_evolve :: "(int \<Rightarrow> account option) \<Rightarrow> (int \<Rightarrow> account option) \<Rightarrow> bool" where
  "accounts_evolve A A' \<longleftrightarrow>
     (\<forall>i a. A i = Some a \<longrightarrow>
        (\<exists>a'. A' i = Some a' \<and> a_ID a' = a_ID a \<and> a_Username a' = a_Username a \<and> a_Role a' = a_Role a \<and>
              a_ExternalID a' = a_ExternalID a \<and> a_SessionVersion a \<le> a_SessionVersion a' \<and>
              (a_SessionVersion a' = a_SessionVersion a \<longrightarrow> a_Enabled a \<longrightarrow> a_Enabled a')))"

lemma accounts_evolve_refl [simp, intro]: "accounts_evolve A A"
  by (auto simp: accounts_evolve_def)

lemma accounts_evolve_changed:
  assumes "changed_by Q f r A A'"
    and "\<And>old new. Q (Some old) new \<Longrightarrow> new = switched b old \<or> new = rekeyed old"
  shows "accounts_evolve A A'"
proof -
  have "accounts_evolve A (A(a_ID a \<mapsto> a))" if "Q (A (a_ID a)) a" for a
  proof (cases "A (a_ID a)")
    case None
    then show ?thesis by (auto simp: accounts_evolve_def)
  next
    case (Some old)
    then have "a = switched b old \<or> a = rekeyed old" using assms(2) that by simp
    then show ?thesis using Some by (auto simp: accounts_evolve_def switched_def rekeyed_def split: if_split_asm)
  qed
  then show ?thesis using assms(1) by (auto simp: changed_by_def)
qed

lemma accounts_evolve_trans: "accounts_evolve A B \<Longrightarrow> accounts_evolve B C \<Longrightarrow> accounts_evolve A C"
  unfolding accounts_evolve_def by (smt (verit) order_antisym order_trans)

text \<open>The data of a session describe an account as it was at some time; if the version is still the
  current one, the account is enabled.\<close>

definition vouched :: "(int \<Rightarrow> account option) \<Rightarrow> session_data \<Rightarrow> bool" where
  "vouched A d \<longleftrightarrow>
     (\<exists>a. A (sd_AccountID d) = Some a \<and> a_ID a = sd_AccountID d \<and> a_Username a = sd_Username d \<and>
          a_Role a = sd_Role d \<and> a_ExternalID a = sd_ExternalID d \<and> sd_SessionVersion d \<le> a_SessionVersion a \<and>
          (sd_SessionVersion d = a_SessionVersion a \<longrightarrow> a_Enabled a))"

lemma vouched_evolves: "vouched A d \<Longrightarrow> accounts_evolve A A' \<Longrightarrow> vouched A' d"
  unfolding vouched_def accounts_evolve_def by (smt (verit) order_trans)

lemma vouched_csrf: "vouched A (sessionDataOf a c) = vouched A (sessionDataOf a c')"
  by (simp add: vouched_def sessionDataOf_def)

definition allVouched :: "(int \<Rightarrow> account option) \<Rightarrow> session_redis \<Rightarrow> account list \<Rightarrow> bool" where
  "allVouched A r P \<longleftrightarrow>
     (\<forall>k d x. map_of (sr_keys r) k = Some (Payload d, x) \<longrightarrow> vouched A d) \<and>
     (\<forall>a \<in> set P. vouched A (sessionDataOf a []))"

lemma allVouched_evolves: "allVouched A r P \<Longrightarrow> accounts_evolve A A' \<Longrightarrow> allVouched A' r P"
  unfolding allVouched_def by (blast intro: vouched_evolves)

lemma createScript_keys:
  assumes "createScript now key ik raw ttl g limit r = (r', res)" "map_of (sr_keys r') k = Some y"
  shows "map_of (sr_keys r) k = Some y \<or> fst y = raw"
  using assms by (auto simp: createScript_def Let_def split: prod.splits if_splits)

lemma CreateSession_keys:
  assumes "CreateSession m fate now random d ttl r = (r', res)" "map_of (sr_keys r') k = Some (Payload d', x)"
  shows "map_of (sr_keys r) k = Some (Payload d', x) \<or> d' = d"
  using assms
  by (auto simp: CreateSession_def Let_def split: if_splits option.splits prod.splits redis_fate.splits sum.splits
      dest: createScript_keys)

lemma DeleteSession_keys:
  assumes "DeleteSession m f1 f2 now token r = (r', res)" "map_of (sr_keys r') k = Some y"
  shows "map_of (sr_keys r) k = Some y"
  using assms
  by (auto simp: DeleteSession_def removeSession_def split: if_splits option.splits session_raw.splits
      redis_fate.splits prod.splits)

lemma allVouched_create:
  assumes "allVouched A r P" "a \<in> set P"
  shows "allVouched A (fst (CreateSession m fate now random (sessionDataOf a csrf) ttl r)) P"
proof -
  obtain r' res where c: "CreateSession m fate now random (sessionDataOf a csrf) ttl r = (r', res)" by fastforce
  show ?thesis
    using assms CreateSession_keys [OF c] vouched_csrf [of A a csrf "[]"]
    unfolding allVouched_def c fst_conv by metis
qed

lemma allVouched_delete:
  assumes "allVouched A r P"
  shows "allVouched A (fst (DeleteSession m f1 f2 now token r)) P"
proof -
  obtain r' res where c: "DeleteSession m f1 f2 now token r = (r', res)" by fastforce
  show ?thesis
    using assms DeleteSession_keys [OF c] unfolding allVouched_def c fst_conv by blast
qed

text \<open>What the guard lets through.\<close>

lemma guard_passes:
  assumes "SessionAuthWithVersion adapters m (Some check) xe cookie r = (r', Inr d)"
  shows "r' = r \<and> (\<exists>token x. cookie = Some token \<and> map_of (sr_keys r) (sessionKey m token) = Some (Payload d, x)) \<and> check (sd_AccountID d) = Inr (sd_SessionVersion d)"
  using assms
  by (auto simp: SessionAuthWithVersion_def getForAuth_def deny_def GetSession_def readSession_def
      split: sum.splits option.splits if_splits session_raw.splits)

lemma guard_state:
  assumes "SessionAuthWithVersion adapters m (Some check) xe cookie r = (r', g)"
  shows "r' = r \<or> (\<exists>token. r' = fst (DeleteSession m (xe_delGet xe) (xe_delExec xe) (xe_now xe) token r))"
  using assms by (auto simp: SessionAuthWithVersion_def split: sum.splits if_splits)

section \<open>What the handlers do to store and sessions\<close>

lemma allowCredential_keeps:
  "allowCredential h e scope u st = (st', r) \<Longrightarrow> cs_store st' = cs_store st \<and> cs_sessions st' = cs_sessions st"
  by (auto simp: allowCredential_def split: prod.splits sum.splits)

lemma acquireBcrypt_keeps:
  "acquireBcrypt st = (st', ok) \<Longrightarrow> cs_store st' = cs_store st \<and> cs_sessions st' = cs_sessions st"
  by (auto simp: acquireBcrypt_def split: prod.splits option.splits)

lemma releaseBcrypt_keeps [simp]:
  "cs_store (releaseBcrypt st) = cs_store st" "cs_sessions (releaseBcrypt st) = cs_sessions st"
  by (auto simp: releaseBcrypt_def split: sum.splits option.splits)

lemmas guards_keep = allowCredential_keeps acquireBcrypt_keeps

lemma register_effect:
  "register h e body st = (st', rp) \<Longrightarrow> cs_sessions st' = cs_sessions st \<and>
     (cs_store st' = cs_store st \<or>
      (\<exists>u hash. cs_store st' = fst (ao_CreateUserAccount (ah_accounts h) (ce_store e) u hash 0 (cs_store st))))"
  by (auto simp: register_def Let_def split: option.splits prod.splits sum.splits if_splits bool.splits
      dest!: guards_keep) (metis fst_conv)+

lemma loginCheck_effect:
  "loginCheck h e body st = (st', res) \<Longrightarrow> cs_sessions st' = cs_sessions st \<and> cs_store st' = cs_store st \<and>
     (\<forall>c rem. res = Inr (c, rem) \<longrightarrow>
        a_Enabled (cd_Account c) \<and> (\<exists>u. ao_GetCredentials (ah_accounts h) (ce_store e) u (cs_store st) = Inr c))"
  by (auto simp: loginCheck_def Let_def split: option.splits prod.splits sum.splits if_splits bool.splits
      dest!: guards_keep)

lemma loginIssue_effect:
  "loginIssue h e c rem st = (st', rp) \<Longrightarrow> cs_store st' = cs_store st \<and>
     (cs_sessions st' = cs_sessions st \<or>
      (\<exists>csrf fate random ttl. cs_sessions st' = fst (CreateSession (ah_sessions h) fate (cs_clock st) random
         (sessionDataOf (cd_Account c) csrf) ttl (cs_sessions st))))"
  by (auto simp: loginIssue_def Let_def split: option.splits prod.splits sum.splits if_splits) (metis fst_conv)+

lemma logout_effect:
  "logout h e cookie st = (st', rp) \<Longrightarrow> cs_store st' = cs_store st \<and>
     (cs_sessions st' = cs_sessions st \<or>
      (\<exists>f1 f2 now token. cs_sessions st' = fst (DeleteSession (ah_sessions h) f1 f2 now token (cs_sessions st))))"
  by (auto simp: logout_def split: option.splits prod.splits sum.splits if_splits) (metis fst_conv)+

lemma createAccount_effect:
  "createAccount h tt e body st = (st', rp) \<Longrightarrow> cs_sessions st' = cs_sessions st \<and>
     (cs_store st' = cs_store st \<or>
      (\<exists>u hash b. cs_store st' = fst (ao_CreateUserAccount (ah_accounts h) (ce_store e) u hash b (cs_store st))) \<or>
      (\<exists>inp. cs_store st' = fst (ao_CreateAccount (ah_accounts h) (ce_store e) inp (cs_store st))))"
  by (auto simp: createAccount_def split: option.splits prod.splits sum.splits if_splits) (metis fst_conv)+

lemma setAccountEnabled_effect:
  "setAccountEnabled h tt e idText body st = (st', rp) \<Longrightarrow> cs_sessions st' = cs_sessions st \<and>
     (cs_store st' = cs_store st \<or>
      (\<exists>i b. cs_store st' = fst (ao_SetEnabled (ah_accounts h) (ce_store e) i b (cs_store st))))"
  by (auto simp: setAccountEnabled_def split: option.splits prod.splits sum.splits if_splits) (metis fst_conv)+

lemma resetPassword_effect:
  "resetPassword h e idText body st = (st', rp) \<Longrightarrow> cs_sessions st' = cs_sessions st \<and>
     (cs_store st' = cs_store st \<or>
      (\<exists>i hash. cs_store st' = fst (ao_UpdatePassword (ah_accounts h) (ce_store e) i hash (cs_store st))))"
  by (auto simp: resetPassword_def split: option.splits prod.splits sum.splits if_splits) (metis fst_conv)+

lemma putSettings_effect:
  "putSettings h e body st = (st', rp) \<Longrightarrow> cs_sessions st' = cs_sessions st \<and>
     (cs_store st' = cs_store st \<or>
      (\<exists>v. cs_store st' = fst (so_Put (ah_settings h) (ce_settings e) v (cs_store st))))"
  by (auto simp: putSettings_def split: option.splits prod.splits sum.splits if_splits) (metis fst_conv)+

lemma bootstrapAdmin_effect:
  "cs_sessions (bootstrapAdmin h b u pw e e' st) = cs_sessions st \<and>
     (cs_store (bootstrapAdmin h b u pw e e' st) = cs_store st \<or>
      (\<exists>inp. cs_store (bootstrapAdmin h b u pw e e' st) = fst (ao_CreateAccount (ah_accounts h) e' inp (cs_store st))))"
  by (auto simp: bootstrapAdmin_def split: sum.splits)

section \<open>The invariant, over any account store\<close>

text \<open>A console server: an account store that keeps the contract, and settings kept apart from it.\<close>

locale console_server = account_store ops wf accs
  for ops :: "('e, 's) account_ops" and wf :: "nat \<Rightarrow> 's \<Rightarrow> bool" and accs :: "'s \<Rightarrow> int \<Rightarrow> account option" +
  fixes sets :: "('e, 's) settings_ops"
  assumes settings_apart: "wf (Suc n) s \<Longrightarrow> so_Put sets e v s = (s', r) \<Longrightarrow> wf n s' \<and> accs s' = accs s"
begin

definition serves :: "('e, 's) auth_handlers \<Rightarrow> bool" where
  "serves h \<longleftrightarrow> ah_accounts h = ops \<and> ah_settings h = sets"

definition sys_ok :: "nat \<Rightarrow> 's system \<Rightarrow> bool" where
  "sys_ok n x \<longleftrightarrow> wf n (cs_store (fst x)) \<and> allVouched (accs (cs_store (fst x))) (cs_sessions (fst x)) (snd x)"

definition sys_evolves :: "'s system \<Rightarrow> 's system \<Rightarrow> bool" where
  "sys_evolves x y \<longleftrightarrow> accounts_evolve (accs (cs_store (fst x))) (accs (cs_store (fst y)))"

lemma store_step:
  assumes "sys_ok (Suc n) (st, P)" "wf n s'" "accounts_evolve (accs (cs_store st)) (accs s')"
    "cs_store st' = s'" "cs_sessions st' = cs_sessions st"
  shows "sys_ok n (st', P) \<and> sys_evolves (st, P) (st', P)"
  using assms allVouched_evolves by (auto simp: sys_ok_def sys_evolves_def)

lemma same_step:
  assumes "sys_ok (Suc n) (st, P)" "cs_store st' = cs_store st" "allVouched (accs (cs_store st)) (cs_sessions st') P'"
  shows "sys_ok n (st', P') \<and> sys_evolves (st, P) (st', P')"
  using assms room by (auto simp: sys_ok_def sys_evolves_def)

lemma evolves_new:
  "changed_by (\<lambda>old new. old = None \<and> fresh_account u role new) f r A A' \<Longrightarrow> accounts_evolve A A'"
  by (erule accounts_evolve_changed) auto

lemma evolves_switch:
  "changed_by (\<lambda>old new. a_ID new = i \<and> map_option (switched b) old = Some new) f r A A' \<Longrightarrow> accounts_evolve A A'"
  by (erule accounts_evolve_changed [where b = b]) auto

lemma evolves_rekey:
  "changed_by (\<lambda>old new. a_ID new = i \<and> map_option rekeyed old = Some new) f r A A' \<Longrightarrow> accounts_evolve A A'"
  by (erule accounts_evolve_changed) auto

text \<open>The three ways a step goes: one call that may change the accounts, a session made for an account
  in flight, a session deleted.\<close>

lemma step_create_user:
  assumes "sys_ok (Suc n) (st, P)" "cs_sessions st' = cs_sessions st"
    "cs_store st' = fst (ao_CreateUserAccount ops e u hash b (cs_store st))"
  shows "sys_ok n (st', P) \<and> sys_evolves (st, P) (st', P)"
proof -
  obtain s' r where c: "ao_CreateUserAccount ops e u hash b (cs_store st) = (s', r)" by fastforce
  have "wf n s'" "accounts_evolve (accs (cs_store st)) (accs s')"
    using createUser [OF _ c, of n] assms(1) evolves_new by (auto simp: sys_ok_def)
  then show ?thesis using store_step [OF assms(1)] assms(2,3) c by simp
qed

lemma step_create_account:
  assumes "sys_ok (Suc n) (st, P)" "cs_sessions st' = cs_sessions st"
    "cs_store st' = fst (ao_CreateAccount ops e inp (cs_store st))"
  shows "sys_ok n (st', P) \<and> sys_evolves (st, P) (st', P)"
proof -
  obtain s' r where c: "ao_CreateAccount ops e inp (cs_store st) = (s', r)" by fastforce
  have "wf n s'" "accounts_evolve (accs (cs_store st)) (accs s')"
    using createAccount [OF _ c, of n] assms(1) evolves_new by (auto simp: sys_ok_def)
  then show ?thesis using store_step [OF assms(1)] assms(2,3) c by simp
qed

lemma step_switch:
  assumes "sys_ok (Suc n) (st, P)" "cs_sessions st' = cs_sessions st"
    "cs_store st' = fst (ao_SetEnabled ops e i b (cs_store st))"
  shows "sys_ok n (st', P) \<and> sys_evolves (st, P) (st', P)"
proof -
  obtain s' r where c: "ao_SetEnabled ops e i b (cs_store st) = (s', r)" by fastforce
  have "wf n s'" "accounts_evolve (accs (cs_store st)) (accs s')"
    using setEnabled [OF _ c, of n] assms(1) evolves_switch by (auto simp: sys_ok_def)
  then show ?thesis using store_step [OF assms(1)] assms(2,3) c by simp
qed

lemma step_rekey:
  assumes "sys_ok (Suc n) (st, P)" "cs_sessions st' = cs_sessions st"
    "cs_store st' = fst (ao_UpdatePassword ops e i hash (cs_store st))"
  shows "sys_ok n (st', P) \<and> sys_evolves (st, P) (st', P)"
proof -
  obtain s' r where c: "ao_UpdatePassword ops e i hash (cs_store st) = (s', r)" by fastforce
  have "wf n s'" "accounts_evolve (accs (cs_store st)) (accs s')"
    using updatePassword [OF _ c, of n] assms(1) evolves_rekey by (auto simp: sys_ok_def)
  then show ?thesis using store_step [OF assms(1)] assms(2,3) c by simp
qed

lemma step_put:
  assumes "sys_ok (Suc n) (st, P)" "cs_sessions st' = cs_sessions st"
    "cs_store st' = fst (so_Put sets e v (cs_store st))"
  shows "sys_ok n (st', P) \<and> sys_evolves (st, P) (st', P)"
proof -
  obtain s' r where c: "so_Put sets e v (cs_store st) = (s', r)" by fastforce
  have "wf n s'" "accs s' = accs (cs_store st)"
    using settings_apart [OF _ c, of n] assms(1) by (auto simp: sys_ok_def)
  then show ?thesis using store_step [OF assms(1)] assms(2,3) c by simp
qed

lemma step_idle:
  assumes "sys_ok (Suc n) (st, P)" "cs_store st' = cs_store st" "cs_sessions st' = cs_sessions st"
  shows "sys_ok n (st', P) \<and> sys_evolves (st, P) (st', P)"
  by (rule same_step [OF assms(1,2)]) (use assms in \<open>simp add: sys_ok_def\<close>)

lemma step_delete:
  assumes "sys_ok (Suc n) (st, P)" "cs_store st' = cs_store st"
    "cs_sessions st' = fst (DeleteSession m f1 f2 now token (cs_sessions st))"
  shows "sys_ok n (st', P) \<and> sys_evolves (st, P) (st', P)"
  by (rule same_step [OF assms(1,2)])
     (use assms in \<open>simp add: sys_ok_def allVouched_delete\<close>)

lemma step_issue:
  assumes "sys_ok (Suc n) (st, P)" "cs_store st' = cs_store st" "a \<in> set P"
    "cs_sessions st' = fst (CreateSession m fate now random (sessionDataOf a csrf) ttl (cs_sessions st))"
  shows "sys_ok n (st', P) \<and> sys_evolves (st, P) (st', P)"
  by (rule same_step [OF assms(1,2)])
     (use assms in \<open>simp add: sys_ok_def allVouched_create\<close>)

lemma step_check:
  assumes "sys_ok (Suc n) (st, P)" "serves h" "loginCheck h e body st = (st', Inr (c, rem))"
  shows "sys_ok n (st', cd_Account c # P) \<and> sys_evolves (st, P) (st', cd_Account c # P)"
proof -
  obtain u where c: "a_Enabled (cd_Account c)" "ao_GetCredentials ops (ce_store e) u (cs_store st) = Inr c"
    and same: "cs_store st' = cs_store st" "cs_sessions st' = cs_sessions st"
    using loginCheck_effect [OF assms(3)] assms(2) by (auto simp: serves_def)
  have wf: "wf (Suc n) (cs_store st)" using assms(1) by (simp add: sys_ok_def)
  have "accs (cs_store st) (a_ID (cd_Account c)) = Some (cd_Account c)"
    using getCredentials [OF wf c(2)] by simp
  then have "vouched (accs (cs_store st)) (sessionDataOf (cd_Account c) [])"
    using c(1) by (simp add: vouched_def sessionDataOf_def)
  then show ?thesis
    by (intro same_step [OF assms(1) same(1)]) (use assms(1) same in \<open>simp add: sys_ok_def allVouched_def\<close>)
qed

lemma console_step_ok:
  assumes "console_step h x y" "sys_ok (Suc n) x" "serves h"
  shows "sys_ok n y \<and> sys_evolves x y"
proof -
  have ops: "ah_accounts h = ops" "ah_settings h = sets" using assms(3) by (simp_all add: serves_def)
  note steps = step_idle step_create_user step_create_account step_switch step_rekey step_put step_delete step_issue
  show ?thesis
    using assms(1,2)
  proof cases
    case (tick st t P)
    then show ?thesis using assms(2) step_idle [of n st P "st\<lparr>cs_clock := t\<rparr>"] by simp
  next
    case (others st P sem b)
    then show ?thesis
      using assms(2) step_idle [of n st P "st\<lparr>cs_buckets := b, cs_bcryptSem := sem\<rparr>"] by simp
  next
    case (register e body st st' rp P)
    from register_effect [OF register(3), unfolded ops] show ?thesis
      using assms(2) unfolding register(1,2) by (elim conjE disjE exE) (rule steps; assumption)+
  next
    case (refused e body st st' rp P)
    then show ?thesis using assms(2) loginCheck_effect [OF refused(3)] step_idle by blast
  next
    case (checked e body st st' c rem P)
    then show ?thesis using assms(2,3) step_check by blast
  next
    case (issue c P e rem st st' rp)
    from loginIssue_effect [OF issue(4)] show ?thesis
      using assms(2) issue(3) unfolding issue(1,2) by (elim conjE disjE exE) (rule steps; assumption)+
  next
    case (logout e cookie st st' rp P)
    from logout_effect [OF logout(3)] show ?thesis
      using assms(2) unfolding logout(1,2) by (elim conjE disjE exE) (rule steps; assumption)+
  next
    case (visit adapters e st xe cookie r g P)
    from guard_state [OF visit(3)] show ?thesis
      using assms(2) step_idle [of n st P "st\<lparr>cs_sessions := r\<rparr>"] step_delete [of n st P "st\<lparr>cs_sessions := r\<rparr>"]
      unfolding visit(1,2) by auto
  next
    case (create tt e req st st' rp P)
    from createAccount_effect [OF create(3), unfolded ops] show ?thesis
      using assms(2) unfolding create(1,2) by (elim conjE disjE exE) (rule steps; assumption)+
  next
    case (switch tt e idText flag st st' rp P)
    from setAccountEnabled_effect [OF switch(3), unfolded ops] show ?thesis
      using assms(2) unfolding switch(1,2) by (elim conjE disjE exE) (rule steps; assumption)+
  next
    case (reset e idText pw st st' rp P)
    from resetPassword_effect [OF reset(3), unfolded ops] show ?thesis
      using assms(2) unfolding reset(1,2) by (elim conjE disjE exE) (rule steps; assumption)+
  next
    case (put e v st st' rp P)
    from putSettings_effect [OF put(3), unfolded ops] show ?thesis
      using assms(2) unfolding put(1,2) by (elim conjE disjE exE) (rule steps; assumption)+
  next
    case (boot st P b u pw e e')
    from bootstrapAdmin_effect [of h b u pw e e' st, unfolded ops] show ?thesis
      using assms(2) unfolding boot(1,2) by (elim conjE disjE exE) (rule steps; assumption)+
  qed
qed

lemma console_run_ok:
  assumes "console_run h n x y" "sys_ok (n + k) x" "serves h"
  shows "sys_ok k y \<and> sys_evolves x y"
  using assms(1,2)
proof (induction n x y arbitrary: k rule: console_run.induct)
  case (stop x)
  then show ?case by (simp add: sys_evolves_def)
next
  case (move n x y z)
  then have "sys_ok (Suc k) y" "sys_evolves x y"
    using move.IH [of "Suc k"] by simp_all
  then show ?case
    using console_step_ok [OF move.hyps(2) _ assms(3)] accounts_evolve_trans by (fastforce simp: sys_evolves_def)
qed

text \<open>A session that passes the guard is the current view of an enabled account.\<close>

lemma guarded:
  assumes "sys_ok n (st, P)" "serves h"
    and "SessionAuthWithVersion adapters m (Some (sessionVersionChecker (ah_accounts h) e (cs_store st))) xe cookie
      (cs_sessions st) = (r, Inr d)"
  shows "\<exists>a. accs (cs_store st) (sd_AccountID d) = Some a \<and> a_Enabled a \<and> d = sessionDataOf a (sd_CSRFToken d)"
proof -
  obtain k x where d: "map_of (sr_keys (cs_sessions st)) k = Some (Payload d, x)"
    and v: "sessionVersionChecker (ah_accounts h) e (cs_store st) (sd_AccountID d) = Inr (sd_SessionVersion d)"
    using guard_passes [OF assms(3)] by blast
  obtain a where a: "ao_GetByID ops e (sd_AccountID d) (cs_store st) = Inr a" "a_SessionVersion a = sd_SessionVersion d"
    using v assms(2) by (auto simp: sessionVersionChecker_def serves_def split: sum.splits)
  have "accs (cs_store st) (sd_AccountID d) = Some a"
    using getByID [OF _ a(1)] assms(1) by (auto simp: sys_ok_def)
  moreover have "vouched (accs (cs_store st)) d"
    using assms(1) d by (auto simp: sys_ok_def allVouched_def)
  ultimately show ?thesis using a(2) by (cases d) (auto simp: vouched_def sessionDataOf_def)
qed

text \<open>After the version of an account was raised, no session from before is let through, nor one made
  of a login that was in flight.\<close>

definition bumped :: "int \<Rightarrow> 's \<Rightarrow> 's \<Rightarrow> bool" where
  "bumped i s s' \<longleftrightarrow>
     (\<exists>a a'. accs s i = Some a \<and> accs s' i = Some a' \<and> a_SessionVersion a < a_SessionVersion a')"

lemma revoked:
  assumes "sys_ok j (st, P)" "bumped (sd_AccountID d) (cs_store st) (cs_store st1)" "sys_ok (n + k) (st1, P)"
    "serves h" "console_run h n (st1, P) (st2, P2)"
    and "SessionAuthWithVersion adapters m (Some (sessionVersionChecker (ah_accounts h) e (cs_store st2))) xe cookie
      (cs_sessions st2) = (r, Inr d)"
  shows "(\<forall>k x. map_of (sr_keys (cs_sessions st)) k \<noteq> Some (Payload d, x)) \<and>
    (\<forall>a csrf. a \<in> set P \<longrightarrow> d \<noteq> sessionDataOf a csrf)"
proof -
  obtain a a1 where a: "accs (cs_store st) (sd_AccountID d) = Some a" "accs (cs_store st1) (sd_AccountID d) = Some a1"
    "a_SessionVersion a < a_SessionVersion a1"
    using assms(2) by (auto simp: bumped_def)
  have run: "sys_ok k (st2, P2)" "sys_evolves (st1, P) (st2, P2)"
    using console_run_ok [OF assms(5,3,4)] by auto
  obtain a2 where a2: "accs (cs_store st2) (sd_AccountID d) = Some a2" "d = sessionDataOf a2 (sd_CSRFToken d)"
    using guarded [OF run(1) assms(4,6)] by blast
  have "a_SessionVersion a1 \<le> a_SessionVersion a2"
    using run(2) a(2) a2(1) by (fastforce simp: sys_evolves_def accounts_evolve_def)
  then have later: "a_SessionVersion a < sd_SessionVersion d"
    using a(3) a2(2) by (metis less_le_trans sessionDataOf_def session_data.select_convs(6))
  have old: "\<not> vouched (accs (cs_store st)) d" using later a(1) by (auto simp: vouched_def)
  have all: "allVouched (accs (cs_store st)) (cs_sessions st) P" using assms(1) by (simp add: sys_ok_def)
  have "map_of (sr_keys (cs_sessions st)) k \<noteq> Some (Payload d, x)" for k x
    using all old unfolding allVouched_def by blast
  moreover have "d \<noteq> sessionDataOf a csrf" if "a \<in> set P" for a csrf
    using all old that vouched_csrf [of _ a csrf "[]"] unfolding allVouched_def by metis
  ultimately show ?thesis by blast
qed

end

section \<open>Both stores\<close>

lemma mem_wf_settings [simp]: "mem_wf n (m\<lparr>ma_settings := v\<rparr>) = mem_wf n m"
  by (simp add: mem_wf_def mem_indexed_def mem_alloc_def mem_room_def)

lemma mem_accs_settings [simp]: "mem_accs (m\<lparr>ma_settings := v\<rparr>) = mem_accs m"
  by (auto simp: mem_accs_def recordAt_def split: option.split)

interpretation mem_console: console_server memAccountStore mem_wf mem_accs memSettingsStore
proof
  fix n s e v s' r
  assume "mem_wf (Suc n) s" "so_Put memSettingsStore e v s = (s', r)"
  then show "mem_wf n s' \<and> mem_accs s' = mem_accs s"
    using mem_wf_room by (auto simp: memSettingsStore_def MemPutSettings_def)
qed

interpretation pg_console: console_server pgAccountStore pg_acc_wf pg_accs pgSettingsStore
proof
  fix n s e v s' r
  assume "pg_acc_wf (Suc n) s" "so_Put pgSettingsStore e v s = (s', r)"
  then show "pg_acc_wf n s' \<and> pg_accs s' = pg_accs s"
    by (auto simp: pgSettingsStore_def PgPutSettings_def UpsertSettingsSnapshot_def accStmt_def commitTo_def
        pg_acc_wf_def pg_accs_def fun_eq_iff split: sum.splits commit_outcome.splits if_splits)
qed

text \<open>A console server in production: the PostgreSQL store, started without sessions.\<close>

definition pg_serves :: "(acc_env, pg_accounts) auth_handlers \<Rightarrow> bool" where
  "pg_serves h \<longleftrightarrow> ah_accounts h = pgAccountStore \<and> ah_settings h = pgSettingsStore"

definition pg_started :: "pg_accounts console \<Rightarrow> bool" where
  "pg_started st \<longleftrightarrow> pg_acc_wf 0 (cs_store st) \<and> cs_sessions st = emptySessions"

lemma pg_acc_wf_any: "pg_acc_wf n d = pg_acc_wf k d"
  by (simp add: pg_acc_wf_def)

lemma pg_started_ok: "pg_started st \<Longrightarrow> pg_console.sys_ok n (st, [])"
  using pg_acc_wf_any [of 0 "cs_store st" n]
  by (simp add: pg_started_def pg_console.sys_ok_def allVouched_def emptySessions_def)

lemma pg_run_ok:
  "pg_started st0 \<Longrightarrow> pg_serves h \<Longrightarrow> console_run h n (st0, []) x \<Longrightarrow> pg_console.sys_ok k x"
  using pg_console.console_run_ok pg_started_ok by (auto simp: pg_serves_def pg_console.serves_def)


text \<open>C30. Once a password was reset or an account disabled with success, no session that existed then, and
  none made of a login that had passed its password check by then, is ever accepted again, whatever
  happens in between (also when the account is enabled again).\<close>

theorem sessions_revoked:
  assumes "pg_started st0" and "pg_serves h" and "console_run h n (st0, []) (st, P)"
    and "Atoi idText = Some (sd_AccountID d)"
    and "resetPassword h e idText pw st = (st1, writeJSON 200 [(''ok'', JBool True)]) \<or>
      (\<exists>acc. setAccountEnabled h tt e idText (Some (Some False)) st = (st1, writeJSON 200 (accountFields tt acc)))"
    and "console_run h m (st1, P) (st2, P2)"
    and "SessionAuthWithVersion adapters (ah_sessions h)
      (Some (sessionVersionChecker (ah_accounts h) e2 (cs_store st2))) xe cookie (cs_sessions st2) = (r, Inr d)"
  shows "(\<forall>k x. map_of (sr_keys (cs_sessions st)) k \<noteq> Some (Payload d, x)) \<and>
    (\<forall>a csrf. a \<in> set P \<longrightarrow> d \<noteq> sessionDataOf a csrf)"
proof -
  let ?i = "sd_AccountID d"
  have ok: "pg_console.sys_ok k (st, P)" for k by (rule pg_run_ok [OF assms(1-3)])
  have ops: "ah_accounts h = pgAccountStore" "pg_console.serves h"
    using assms(2) by (simp_all add: pg_serves_def pg_console.serves_def)
  have wf: "pg_acc_wf 1 (cs_store st)" using ok [of 1] by (simp add: pg_console.sys_ok_def)
  have "console_step h (st, P) (st1, P)"
    using assms(5) console_step.reset console_step.switch by metis
  then have ok1: "pg_console.sys_ok k (st1, P)" for k
    using pg_console.console_step_ok ok ops(2) by blast
  have "pg_console.bumped ?i (cs_store st) (cs_store st1)"
    using assms(5)
  proof
    assume "resetPassword h e idText pw st = (st1, writeJSON 200 [(''ok'', JBool True)])"
    then obtain hash where "ao_UpdatePassword pgAccountStore (ce_store e) ?i hash (cs_store st) = (cs_store st1, Inr ())"
      using assms(4) ops(1)
      by (auto simp: resetPassword_def writeJSON_def writeErrorJSON_def badRequest_def passwordError_def
          writeAccountError_def split: option.splits sum.splits prod.splits if_splits)
    then have "changed_by (\<lambda>old new. a_ID new = ?i \<and> map_option rekeyed old = Some new) (\<lambda>a. ()) (Inr ())
        (pg_accs (cs_store st)) (pg_accs (cs_store st1))"
      using pg_store.updatePassword [of 0] wf by auto
    then show ?thesis by (auto simp: changed_by_def pg_console.bumped_def rekeyed_def)
  next
    assume "\<exists>acc. setAccountEnabled h tt e idText (Some (Some False)) st = (st1, writeJSON 200 (accountFields tt acc))"
    then obtain acc where "ao_SetEnabled pgAccountStore (ce_store e) ?i False (cs_store st) = (cs_store st1, Inr acc)"
      using assms(4) ops(1)
      by (auto simp: setAccountEnabled_def writeJSON_def writeErrorJSON_def writeAccountError_def
          split: option.splits sum.splits prod.splits if_splits)
    then have "changed_by (\<lambda>old new. a_ID new = ?i \<and> map_option (switched False) old = Some new) (\<lambda>a. a) (Inr acc)
        (pg_accs (cs_store st)) (pg_accs (cs_store st1))"
      using pg_store.setEnabled [of 0] wf by auto
    then show ?thesis by (auto simp: changed_by_def pg_console.bumped_def switched_def)
  qed
  from pg_console.revoked [OF ok this ok1 ops(2) assms(6,7)] show ?thesis .
qed


section \<open>What the anonymous endpoints give away\<close>

definition authenticates :: "('e, 's) auth_handlers \<Rightarrow> 'e console_env \<Rightarrow> credentials_req \<Rightarrow> 's \<Rightarrow> bool" where
  "authenticates h e q s =
     (case ao_GetCredentials (ah_accounts h) (ce_store e) (cr_Username q) s of
        Inl err \<Rightarrow> False
      | Inr c \<Rightarrow> a_Enabled (cd_Account c) \<and> CheckPassword (ah_bcrypt h) (cd_PasswordHash c) (cr_Password q))"

lemma allowCredential_store:
  "allowCredential h e scope u (st\<lparr>cs_store := s\<rparr>) =
     (case allowCredential h e scope u st of (st', r) \<Rightarrow> (st'\<lparr>cs_store := s\<rparr>, r))"
  by (simp add: allowCredential_def split: prod.splits sum.splits)

lemma acquireBcrypt_store:
  "acquireBcrypt (st\<lparr>cs_store := s\<rparr>) = (case acquireBcrypt st of (st', ok) \<Rightarrow> (st'\<lparr>cs_store := s\<rparr>, ok))"
  by (simp add: acquireBcrypt_def split: prod.splits option.splits)

lemma releaseBcrypt_store: "releaseBcrypt (st\<lparr>cs_store := s\<rparr>) = (releaseBcrypt st)\<lparr>cs_store := s\<rparr>"
  by (simp add: releaseBcrypt_def split: sum.splits option.splits)

lemma loginCheck_fails:
  assumes "\<not> authenticates h e q (cs_store st)" "bindCredentials body = Some q"
  shows "loginCheck h e body st =
    (case allowCredential h e ''login'' (cr_Username q) st of
       (st, Some refusal) \<Rightarrow> (st, Inl refusal)
     | (st, None) \<Rightarrow>
         (case acquireBcrypt st of
            (st, False) \<Rightarrow> (st, Inl (writeErrorJSON 503 ''internal_error'' ''busy''))
          | (st, True) \<Rightarrow> (releaseBcrypt st, Inl loginFailed)))"
  using assms
  by (auto simp: loginCheck_def authenticates_def hashToCheck_def Let_def
      split: prod.splits option.splits bool.splits sum.splits dest!: allowCredential_keeps)

text \<open>C31. Failed logins are alike: whether the user name is unknown, the account disabled or the password
  wrong, and whatever else the account store holds, the reply and every effect of the request are the
  same. So the endpoint does not tell which user names exist.\<close>

theorem login_failures_alike:
  assumes "bindCredentials body = Some q"
    and "\<not> authenticates h e q (cs_store st)" and "\<not> authenticates h e q s"
  shows "login h e body (st\<lparr>cs_store := s\<rparr>) =
    (case login h e body st of (st', rp) \<Rightarrow> (st'\<lparr>cs_store := s\<rparr>, rp))"
proof -
  have s: "\<not> authenticates h e q (cs_store (st\<lparr>cs_store := s\<rparr>))" using assms(3) by simp
  show ?thesis
    unfolding login_def loginCheck_fails [OF assms(2,1)] loginCheck_fails [OF s assms(1)]
    by (auto simp: allowCredential_store acquireBcrypt_store releaseBcrypt_store
        split: prod.splits option.splits bool.splits)
qed

text \<open>A registration creates no money: the balances of the billing users add up to the same after it,
  whatever the settings say about an initial balance and whether it succeeds or not.\<close>

theorem register_grants_nothing:
  assumes "pg_serves h" and "register h e body st = (st', rp)"
  shows "msum pu_Balance (db_users (pa_billing (cs_store st'))) =
    msum pu_Balance (db_users (pa_billing (cs_store st)))"
proof -
  have "msum pu_Balance (db_users (pa_billing (fst (PgCreateUserAccount e' u hash 0 d)))) =
      msum pu_Balance (db_users (pa_billing d))" for e' u hash d
    by (auto simp: PgCreateUserAccount_def CreateUserRow_def CreateAccountRow_def accStmt_def commitTo_def
        msum_fresh mhas_def Let_def split: sum.splits commit_outcome.splits if_splits)
  then show ?thesis
    using register_effect [OF assms(2)] assms(1) by (auto simp: pg_serves_def pgAccountStore_def)
qed

text \<open>C33. A logout that reports success has ended the session: its token is not accepted at any later
  moment. One that could not remove the session says so and leaves the cookies alone.\<close>

theorem logout_honest:
  assumes "logout h e (Some token) st = (st', rp)" and "token \<noteq> []" and "cs_clock st \<le> t"
  shows "(rp = loggedOut h \<and> \<not> is_ok (GetSession (ah_sessions h) fate t token (cs_sessions st'))) \<or>
    (rp = writeErrorJSON 503 ''internal_error'' ''logout failed'' \<and> rp_cookies rp = [])"
proof -
  obtain r res where d: "DeleteSession (ah_sessions h) (ce_session e) (ce_exec e) (cs_clock st) token (cs_sessions st) = (r, res)"
    by fastforce
  show ?thesis
  proof (cases res)
    case (Inl err)
    then show ?thesis using assms d by (auto simp: logout_def writeErrorJSON_def)
  next
    case (Inr u)
    then show ?thesis
      using assms d GetSession_deleted [of "ah_sessions h" _ _ _ token _ r t fate] by (auto simp: logout_def)
  qed
qed

section \<open>An example\<close>

text \<open>A server over PostgreSQL with one administrator, one login and a limit of two sessions.\<close>

definition exampleConsole :: "(acc_env, pg_accounts) auth_handlers" where
  "exampleConsole = \<lparr>ah_accounts = pgAccountStore, ah_settings = pgSettingsStore,
     ah_sessions = \<lparr>sm_maxPerAccount = 2, sm_sha256Hex = (\<lambda>s. s)\<rparr>, ah_secureCookie = True,
     ah_credentialLimit = Some \<lparr>il_prefix = ''credential'', il_perMin = 10\<rparr>,
     ah_bcrypt = \<lparr>bc_Generate = (\<lambda>salt plain. Inr (CHR ''#'' # plain)), bc_Compare = (\<lambda>h plain. h = CHR ''#'' # plain)\<rparr>,
     ah_text = \<lparr>te_sha256Hex = (\<lambda>s. s), te_ToLower = ToLower\<rparr>, ah_dummyPasswordHash = ''#''\<rparr>"

definition exampleAccEnv :: "int \<Rightarrow> acc_env" where
  "exampleAccEnv i = \<lparr>ae_fail = (\<lambda>_. False), ae_commit = CommitOk, ae_dbnow = 5, ae_id = i\<rparr>"

definition exampleConsoleEnv :: "string \<Rightarrow> acc_env console_env" where
  "exampleConsoleEnv token = \<lparr>ce_store = exampleAccEnv 1, ce_settings = exampleAccEnv 1, ce_limit = RedisUp,
     ce_session = RedisUp, ce_exec = RedisUp, ce_salt = [], ce_csrf = Some ''c'', ce_token = Some token\<rparr>"

definition exampleStart :: "pg_accounts console" where
  "exampleStart = \<lparr>cs_store = \<lparr>pa_billing = \<lparr>db_users = [], db_reservations = [], db_ledger = [], db_usage = []\<rparr>,
       pa_accounts = [], pa_settings = [(''registration_enabled'', ''true'')]\<rparr>,
     cs_sessions = emptySessions, cs_buckets = [], cs_bcryptSem = Some (NewSemaphore 2), cs_clock = 1000\<rparr>"

text \<open>The state with the administrator's password and session version, the open sessions (token and
  version) and what is left in the login-name bucket.\<close>

definition exampleState :: "string \<Rightarrow> int \<Rightarrow> (string \<times> int) list \<Rightarrow> buckets \<Rightarrow> pg_accounts console" where
  "exampleState password version opened buckets = \<lparr>cs_store = (cs_store exampleStart)\<lparr>pa_accounts :=
       [(1, \<lparr>ac_ID = 1, ac_Username = ''root'', ac_PasswordHash = CHR ''#'' # password, ac_Role = ''admin'',
             ac_ExternalID = None, ac_GroupName = ''default'', ac_Enabled = True, ac_SessionVersion = version,
             ac_CreatedAt = 5, ac_UpdatedAt = 5\<rparr>)]\<rparr>,
     cs_sessions = \<lparr>sr_keys = map (\<lambda>(token, v). (''session:'' @ token,
         Payload \<lparr>sd_AccountID = 1, sd_Username = ''root'', sd_Role = ''admin'', sd_ExternalID = [],
           sd_CSRFToken = ''c'', sd_SessionVersion = v\<rparr>, 86401000)) opened,
       sr_index = (if opened = [] then [] else
         [(''sessions:account:1'', map (\<lambda>(token, v). (token, 86401000)) opened, Some 86401000)])\<rparr>,
     cs_buckets = buckets, cs_bcryptSem = Some (NewSemaphore 2), cs_clock = 1000\<rparr>"

definition exampleBucket :: "rat \<Rightarrow> buckets" where
  "exampleBucket tokens = [(''authlimit:credential:login:root'', \<lparr>bk_tokens = tokens, bk_ts = 1\<rparr>, 121)]"

definition exampleBooted :: "pg_accounts console" where
  "exampleBooted = exampleState ''password1'' 0 [] []"

definition exampleLogin :: "string \<Rightarrow> credentials_req option" where
  "exampleLogin pw = Some \<lparr>cr_Username = ''root'', cr_Password = pw, cr_Remember = False\<rparr>"

definition exampleAccount :: account where
  "exampleAccount = \<lparr>a_ID = 1, a_Username = ''root'', a_Role = ''admin'', a_ExternalID = [], a_GroupName = ''default'',
     a_Enabled = True, a_CreatedAt = 5, a_SessionVersion = 0\<rparr>"

definition exampleCredentials :: credentials where
  "exampleCredentials = \<lparr>cd_Account = exampleAccount, cd_PasswordHash = ''#password1''\<rparr>"

definition exampleChecked :: "pg_accounts console" where
  "exampleChecked = exampleState ''password1'' 0 [] (exampleBucket 9)"

definition exampleLoggedIn :: "pg_accounts console" where
  "exampleLoggedIn = exampleState ''password1'' 0 [(''t'', 0)] (exampleBucket 9)"

lemma example_check:
  "loginCheck exampleConsole (exampleConsoleEnv ''t'') (exampleLogin ''password1'') exampleBooted =
     (exampleChecked, Inr (exampleCredentials, False))"
  by code_simp

lemma example_boot:
  "bootstrapAdmin exampleConsole True ''root'' ''password1'' (exampleConsoleEnv ''t'') (exampleAccEnv 1) exampleStart = exampleBooted"
  by code_simp

lemma example_issue_state:
  "fst (loginIssue exampleConsole (exampleConsoleEnv ''t'') exampleCredentials False exampleChecked) = exampleLoggedIn"
  by code_simp

lemma example_issue:
  "loginIssue exampleConsole (exampleConsoleEnv ''t'') exampleCredentials False exampleChecked =
     (exampleLoggedIn, snd (loginIssue exampleConsole (exampleConsoleEnv ''t'') exampleCredentials False exampleChecked))"
  by (simp flip: example_issue_state)

lemma example_serves: "pg_serves exampleConsole" and example_started: "pg_started exampleStart"
  by (simp_all add: pg_serves_def exampleConsole_def pg_started_def exampleStart_def pg_acc_wf_def)

lemma example_run: "console_run exampleConsole 3 (exampleStart, []) (exampleLoggedIn, [exampleAccount])"
proof -
  have "console_step exampleConsole (exampleStart, []) (exampleBooted, [])"
    unfolding example_boot [symmetric] by (rule console_step.boot)
  moreover have "console_step exampleConsole (exampleBooted, []) (exampleChecked, [cd_Account exampleCredentials])"
    by (rule console_step.checked [OF example_check])
  moreover have "console_step exampleConsole (exampleChecked, [exampleAccount]) (exampleLoggedIn, [exampleAccount])"
    by (rule console_step.issue [OF _ example_issue]) (simp add: exampleCredentials_def)
  ultimately show ?thesis
    unfolding numeral_3_eq_3
    by (auto simp: exampleCredentials_def intro: console_run.intros)
qed

definition examplePost :: http_request where
  "examplePost = \<lparr>hr_Method = ''POST'', hr_Host = ''gw'',
     hr_Header = [(''Content-Type'', [''application/json'']), (''X-Csrf-Token'', [''c''])]\<rparr>"

definition exampleAuthEnv :: auth_env where
  "exampleAuthEnv = \<lparr>xe_now = 1000, xe_get = RedisUp, xe_delGet = RedisUp, xe_delExec = RedisUp\<rparr>"

definition noAdapters :: "(unit, unit) registry" where
  "noAdapters = (\<lambda>_. None)"

definition noURL :: "string \<Rightarrow> string result" where
  "noURL = (\<lambda>_. Inl ErrEOF)"

lemma example_guard:
  "adminGuard noAdapters noURL exampleConsole (exampleConsoleEnv ''t'') exampleAuthEnv (Some ''t'') examplePost exampleLoggedIn =
     (exampleLoggedIn, Inr (sessionDataOf exampleAccount ''c''))"
  by code_simp



text \<open>The password is reset; a login with the new one is accepted, and its session is not the old one.\<close>

definition exampleReset :: "pg_accounts console" where
  "exampleReset = exampleState ''password2'' 1 [(''t'', 0)] (exampleBucket 9)"

definition exampleAgain :: "pg_accounts console" where
  "exampleAgain = exampleState ''password2'' 1 [(''t'', 0), (''u'', 1)] (exampleBucket 8)"

definition exampleChecked2 :: "pg_accounts console" where
  "exampleChecked2 = exampleState ''password2'' 1 [(''t'', 0)] (exampleBucket 8)"

definition exampleCredentials2 :: credentials where
  "exampleCredentials2 = \<lparr>cd_Account = exampleAccount\<lparr>a_SessionVersion := 1\<rparr>, cd_PasswordHash = ''#password2''\<rparr>"

lemma example_reset:
  "resetPassword exampleConsole (exampleConsoleEnv ''t'') ''1'' (Some ''password2'') exampleLoggedIn =
     (exampleReset, writeJSON 200 [(''ok'', JBool True)])"
  by code_simp

lemma example_check2:
  "loginCheck exampleConsole (exampleConsoleEnv ''u'') (exampleLogin ''password2'') exampleReset =
     (exampleChecked2, Inr (exampleCredentials2, False))"
  by code_simp

lemma example_issue_state2:
  "fst (loginIssue exampleConsole (exampleConsoleEnv ''u'') exampleCredentials2 False exampleChecked2) = exampleAgain"
  by code_simp

lemma example_issue2:
  "loginIssue exampleConsole (exampleConsoleEnv ''u'') exampleCredentials2 False exampleChecked2 =
     (exampleAgain, snd (loginIssue exampleConsole (exampleConsoleEnv ''u'') exampleCredentials2 False exampleChecked2))"
  by (simp flip: example_issue_state2)

lemma example_run2:
  "console_run exampleConsole 2 (exampleReset, [exampleAccount])
     (exampleAgain, [cd_Account exampleCredentials2, exampleAccount])"
proof -
  have "console_step exampleConsole (exampleReset, [exampleAccount])
      (exampleChecked2, [cd_Account exampleCredentials2, exampleAccount])"
    by (rule console_step.checked [OF example_check2])
  moreover have "console_step exampleConsole (exampleChecked2, [cd_Account exampleCredentials2, exampleAccount])
      (exampleAgain, [cd_Account exampleCredentials2, exampleAccount])"
    by (rule console_step.issue [OF _ example_issue2]) simp
  ultimately show ?thesis
    unfolding numeral_2_eq_2 by (auto intro: console_run.intros)
qed

lemma example_accepted:
  "SessionAuthWithVersion noAdapters (ah_sessions exampleConsole)
     (Some (sessionVersionChecker (ah_accounts exampleConsole) (exampleAccEnv 1) (cs_store exampleAgain)))
     exampleAuthEnv (Some ''u'') (cs_sessions exampleAgain) =
   (cs_sessions exampleAgain, Inr (sessionDataOf (cd_Account exampleCredentials2) ''c''))"
  by code_simp

lemma sessions_revoked_witness:
  "\<forall>k x. map_of (sr_keys (cs_sessions exampleLoggedIn)) k \<noteq> Some (Payload (sessionDataOf (cd_Account exampleCredentials2) ''c''), x)"
proof -
  have i: "Atoi ''1'' = Some (sd_AccountID (sessionDataOf (cd_Account exampleCredentials2) ''c''))" by code_simp
  from sessions_revoked [OF example_started example_serves example_run i disjI1 [OF example_reset] example_run2 example_accepted]
  show ?thesis by blast
qed

lemma login_failures_alike_witness:
  "login exampleConsole (exampleConsoleEnv ''t'') (exampleLogin ''wrong'') (exampleBooted\<lparr>cs_store := cs_store exampleStart\<rparr>) =
    (case login exampleConsole (exampleConsoleEnv ''t'') (exampleLogin ''wrong'') exampleBooted of
       (st', rp) \<Rightarrow> (st'\<lparr>cs_store := cs_store exampleStart\<rparr>, rp))"
proof (rule login_failures_alike)
  show "bindCredentials (exampleLogin ''wrong'') = Some (the (exampleLogin ''wrong''))" by code_simp
  show "\<not> authenticates exampleConsole (exampleConsoleEnv ''t'') (the (exampleLogin ''wrong'')) (cs_store exampleBooted)"
    by code_simp
  show "\<not> authenticates exampleConsole (exampleConsoleEnv ''t'') (the (exampleLogin ''wrong'')) (cs_store exampleStart)"
    by code_simp
qed

lemma register_grants_nothing_witness:
  "msum pu_Balance (db_users (pa_billing (cs_store (fst (register exampleConsole (exampleConsoleEnv ''t'')
     (exampleLogin ''password1'') exampleStart))))) = 0"
proof -
  obtain st rp where r: "register exampleConsole (exampleConsoleEnv ''t'') (exampleLogin ''password1'') exampleStart = (st, rp)"
    by fastforce
  have "msum pu_Balance (db_users (pa_billing (cs_store exampleStart))) = 0" by (simp add: exampleStart_def)
  with register_grants_nothing [OF example_serves r] show ?thesis by (simp add: r)
qed

lemma logout_honest_witness:
  "\<not> is_ok (GetSession (ah_sessions exampleConsole) RedisUp 2000 ''t''
     (cs_sessions (fst (logout exampleConsole (exampleConsoleEnv ''t'') (Some ''t'') exampleLoggedIn))))"
proof -
  let ?st = "fst (logout exampleConsole (exampleConsoleEnv ''t'') (Some ''t'') exampleLoggedIn)"
  have l: "logout exampleConsole (exampleConsoleEnv ''t'') (Some ''t'') exampleLoggedIn = (?st, loggedOut exampleConsole)"
    and clock: "cs_clock exampleLoggedIn \<le> 2000" by code_simp+
  have "rp_cookies (loggedOut exampleConsole) \<noteq> []" by code_simp
  with logout_honest [OF l _ clock, of RedisUp] show ?thesis by simp
qed

text \<open>A reset does not free the places of the sessions it ends: they count until they expire, up to
  seven days, and a new login is refused while they fill the limit, although none of them is accepted
  any more.\<close>

definition oneSession :: "(acc_env, pg_accounts) auth_handlers" where
  "oneSession = exampleConsole\<lparr>ah_sessions := \<lparr>sm_maxPerAccount = 1, sm_sha256Hex = (\<lambda>s. s)\<rparr>\<rparr>"

text \<open>With a limit of one session and one session open, a user whose password was just reset cannot
  log in with the new password (429), while the old session is refused as well.\<close>

theorem reset_keeps_places_taken:
  "snd (login oneSession (exampleConsoleEnv ''u'') (exampleLogin ''password2'') exampleReset) =
     writeErrorJSON 429 ''rate_limit_error'' ''too many sessions'' \<and>
   snd (SessionAuthWithVersion noAdapters (ah_sessions oneSession)
     (Some (sessionVersionChecker (ah_accounts oneSession) (exampleAccEnv 1) (cs_store exampleReset)))
     exampleAuthEnv (Some ''t'') (cs_sessions exampleReset)) =
     deny noAdapters 401 ''authentication_error'' ''session expired''"
  by code_simp

end
