(* ===== verification/JsonCodec.thy ===== *)
theory JsonCodec
  imports GoJson Canonical "HOL-Library.Log_Nat" "HOL-Library.Monad_Syntax"
begin

text \<open>
  What the program uses of Go's \<open>encoding/json\<close> on typed values, over the scanner and the raw messages of
  \<open>GoJson\<close>: \<open>Unmarshal\<close> into strings, numbers, pointers, slices, maps, \<open>any\<close> and structs, and \<open>Marshal\<close>.

  A decoder takes the raw text of a value and the value the target has, and gives the new value, or
  \<open>None\<close> for a value of the wrong type. A member that occurs twice is decoded over the value of the
  first occurrence, as in Go (only the elements that a slice had before it was cut shorter are
  forgotten). A key selects the field of that name, else one that is equal to it under case folding.
  \<open>float64\<close> is the rational it denotes; the sign of a zero is kept in an \<open>any\<close> only.
\<close>

section \<open>Numbers\<close>

definition powRat :: "rat \<Rightarrow> int \<Rightarrow> rat" where
  "powRat b e = (if 0 \<le> e then b ^ nat e else 1 / b ^ nat (- e))"

definition roundHalfEven :: "rat \<Rightarrow> int" where
  "roundHalfEven r =
     (let f = floor r; d = r - of_int f
      in if d < 1 / 2 then f else if 1 / 2 < d then f + 1 else if even f then f else f + 1)"

text \<open>The nearest double of a magnitude; \<open>None\<close> when it overflows.\<close>

definition roundMagnitude :: "rat \<Rightarrow> rat option" where
  "roundMagnitude a =
     (let (p, q) = quotient_of a;
          b = bitlen p - bitlen q;
          e = max (- 1074) (if a < powRat 2 b then b - 53 else b - 52);
          v = of_int (roundHalfEven (a / powRat 2 e)) * powRat 2 e
      in if a = 0 then Some 0 else if powRat 2 1024 \<le> v then None else Some v)"

definition signedOf :: "string \<Rightarrow> bool \<times> string" where
  "signedOf t = (case t of [] \<Rightarrow> (False, []) | c # cs \<Rightarrow> if c = CHR ''-'' then (True, cs) else (False, t))"

definition natOf :: "string \<Rightarrow> nat" where
  "natOf ds = (case digitsVal 0 ds of None \<Rightarrow> 0 | Some n \<Rightarrow> n)"

definition exponentOf :: "string \<Rightarrow> int" where
  "exponentOf t =
     (case t of
        [] \<Rightarrow> 0
      | c # cs \<Rightarrow> if c = CHR ''-'' then - int (natOf cs) else if c = CHR ''+'' then int (natOf cs) else int (natOf t))"

text \<open>The magnitude that an unsigned JSON number denotes.\<close>

definition decimalOf :: "string \<Rightarrow> rat" where
  "decimalOf t =
     (let (mant, ex, _) = CutByte (CHR ''e'') (map (\<lambda>c. if c = CHR ''E'' then CHR ''e'' else c) t);
          (whole, frac, _) = CutByte (CHR ''.'') mant
      in of_nat (natOf (whole @ frac)) * powRat 10 (exponentOf ex - int (length frac)))"

definition parseFloat :: "string \<Rightarrow> float64 option" where
  "parseFloat t =
     (let (neg, u) = signedOf t
      in map_option (\<lambda>a. if neg then - a else a) (roundMagnitude (decimalOf u)))"

text \<open>The shortest decimal that rounds to a double, as an integer and a power of ten.\<close>

definition candidates :: "rat \<Rightarrow> int \<Rightarrow> int list" where
  "candidates a k =
     filter (\<lambda>c. roundMagnitude (of_int c * powRat 10 k) = Some a)
       (let f = floor (a / powRat 10 k) in
        if a / powRat 10 k - of_int f \<le> 1 / 2 then [f, f + 1] else [f + 1, f])"

definition shortestDecimal :: "rat \<Rightarrow> nat \<times> int" where
  "shortestDecimal a =
     (let start = int (length (natText (nat (floor a))));
          found = find (\<lambda>k. candidates a k \<noteq> []) (map (\<lambda>i. start - int i) [0..<800])
      in case found of None \<Rightarrow> (0, 0) | Some k \<Rightarrow> (nat (hd (candidates a k)), k))"

definition zeros :: "nat \<Rightarrow> string" where
  "zeros n = replicate n (CHR ''0'')"

definition plainDecimal :: "string \<Rightarrow> int \<Rightarrow> string" where
  "plainDecimal ds k =
     (let point = int (length ds) + k in
      if 0 \<le> k then ds @ zeros (nat k)
      else if 0 < point then take (nat point) ds @ ''.'' @ drop (nat point) ds
      else ''0.'' @ zeros (nat (- point)) @ ds)"

definition scientific :: "string \<Rightarrow> int \<Rightarrow> string" where
  "scientific ds k =
     (let x = int (length ds) + k - 1;
          digits = natText (nat (abs x));
          padded = (if length digits < 2 \<and> 0 \<le> x then ''0'' @ digits else digits)
      in take 1 ds @ (if length ds = 1 then [] else ''.'' @ drop 1 ds) @ ''e'' @ (if x < 0 then ''-'' else ''+'') @ padded)"

text \<open>The bounds of the plain notation are doubles too.\<close>

definition plainRange :: "rat \<Rightarrow> bool" where
  "plainRange a \<longleftrightarrow> (case roundMagnitude (powRat 10 (- 6)) of None \<Rightarrow> False | Some lo \<Rightarrow> lo \<le> a) \<and> a < powRat 10 21"

definition formatMagnitude :: "rat \<Rightarrow> string" where
  "formatMagnitude a =
     (if a = 0 then ''0''
      else let (c, k) = shortestDecimal a
           in if plainRange a then plainDecimal (natText c) k else scientific (natText c) k)"

definition formatFloat :: "float64 \<Rightarrow> string" where
  "formatFloat x = (if x < 0 then ''-'' else []) @ formatMagnitude (abs x)"

text \<open>A number that goes through an \<open>any\<close>: parsed to a double and printed again.\<close>

definition normNumber :: "string \<Rightarrow> string option" where
  "normNumber t =
     (let (neg, u) = signedOf t
      in map_option (\<lambda>a. (if neg then ''-'' else []) @ formatMagnitude a) (roundMagnitude (decimalOf u)))"

section \<open>Members and elements\<close>

definition inner :: "string \<Rightarrow> string" where
  "inner raw = butlast (tl raw)"

definition rawElements :: "string \<Rightarrow> string list" where
  "rawElements raw =
     (if trimJSON (inner raw) = [] then [] else map trimJSON (splitOuter (CHR '','') startState (inner raw)))"

definition rawMembers :: "string \<Rightarrow> (string \<times> string) list" where
  "rawMembers raw =
     (if trimJSON (inner raw) = [] then [] else map parseMember (splitOuter (CHR '','') startState (inner raw)))"

definition startsWith :: "char \<Rightarrow> string \<Rightarrow> bool" where
  "startsWith c raw = (case raw of [] \<Rightarrow> False | d # _ \<Rightarrow> d = c)"

definition isNumber :: "string \<Rightarrow> bool" where
  "isNumber raw = (case raw of [] \<Rightarrow> False | c # _ \<Rightarrow> c = CHR ''-'' \<or> isDigitByte c)"

section \<open>Decoders\<close>

type_synonym 'a decoder = "string \<Rightarrow> 'a \<Rightarrow> 'a option"

definition decString :: "string decoder" where
  "decString raw old =
     (if raw = ''null'' then Some old
      else if startsWith (CHR 0x22) raw then Some (unquoteString (inner raw)) else None)"

definition decBool :: "bool decoder" where
  "decBool raw old =
     (if raw = ''null'' then Some old
      else if raw = ''true'' then Some True else if raw = ''false'' then Some False else None)"

definition decInt :: "int decoder" where
  "decInt raw old = (if raw = ''null'' then Some old else if isNumber raw then Atoi raw else None)"

definition decFloat :: "float64 decoder" where
  "decFloat raw old = (if raw = ''null'' then Some old else if isNumber raw then parseFloat raw else None)"

definition decRaw :: "string option decoder" where
  "decRaw raw old = Some (Some raw)"

definition decPtr :: "'a decoder \<Rightarrow> 'a \<Rightarrow> 'a option decoder" where
  "decPtr d zero raw old =
     (if raw = ''null'' then Some None
      else map_option Some (d raw (case old of None \<Rightarrow> zero | Some v \<Rightarrow> v)))"

fun decElements :: "'a decoder \<Rightarrow> 'a \<Rightarrow> string list \<Rightarrow> 'a list \<Rightarrow> 'a list option" where
  "decElements d zero [] old = Some []"
| "decElements d zero (raw # raws) old =
     do {
       x \<leftarrow> d raw (case old of [] \<Rightarrow> zero | y # _ \<Rightarrow> y);
       xs \<leftarrow> decElements d zero raws (tl old);
       Some (x # xs)
     }"

definition decSlice :: "'a decoder \<Rightarrow> 'a \<Rightarrow> 'a list decoder" where
  "decSlice d zero raw old =
     (if raw = ''null'' then Some []
      else if startsWith (CHR ''['') raw then decElements d zero (rawElements raw) old else None)"

text \<open>An \<open>any\<close>; \<open>exact\<close> is \<open>UseNumber\<close>. The fuel is the length of the text.\<close>

fun anyFuel :: "nat \<Rightarrow> bool \<Rightarrow> string \<Rightarrow> json option" where
  "anyFuel 0 exact raw = None"
| "anyFuel (Suc n) exact raw =
     (if raw = ''null'' then Some JNull
      else if raw = ''true'' then Some (JBool True)
      else if raw = ''false'' then Some (JBool False)
      else if startsWith (CHR 0x22) raw then Some (JStr (unquoteString (inner raw)))
      else if startsWith (CHR ''['') raw
      then map_option JArr (those (map (anyFuel n exact) (rawElements raw)))
      else if startsWith (CHR ''{'') raw
      then map_option (\<lambda>vs. JObj (foldl (\<lambda>m (k, v). mput k v m) [] (zip (map fst (rawMembers raw)) vs)))
             (those (map (\<lambda>m. anyFuel n exact (snd m)) (rawMembers raw)))
      else if exact then Some (JNum raw) else map_option JNum (normNumber raw))"

definition decodeAny :: "bool \<Rightarrow> string \<Rightarrow> json option" where
  "decodeAny exact raw = anyFuel (length raw) exact raw"

definition decAny :: "bool \<Rightarrow> json decoder" where
  "decAny exact raw old = decodeAny exact raw"

definition decMap :: "(string, json) gomap option decoder" where
  "decMap raw old =
     (if raw = ''null'' then Some None
      else if startsWith (CHR ''{'') raw
      then (case decodeAny False raw of
              Some (JObj m) \<Rightarrow> Some (Some (foldl (\<lambda>acc (k, v). mput k v acc) (case old of None \<Rightarrow> [] | Some was \<Rightarrow> was) m))
            | _ \<Rightarrow> None)
      else None)"

section \<open>Structs\<close>

definition fieldFor :: "string list \<Rightarrow> string \<Rightarrow> string option" where
  "fieldFor names key =
     (if key \<in> set names then Some key else find (\<lambda>f. EqualFoldLower key f) names)"

text \<open>All members that go to one field, in order.\<close>

fun decField :: "string list \<Rightarrow> string \<Rightarrow> 'a decoder \<Rightarrow> (string \<times> string) list \<Rightarrow> 'a \<Rightarrow> 'a option" where
  "decField names f d [] old = Some old"
| "decField names f d ((k, raw) # ms) old =
     (if fieldFor names k = Some f then Option.bind (d raw old) (decField names f d ms) else decField names f d ms old)"

text \<open>A struct from its members; null leaves it as it is.\<close>

definition decStruct :: "((string \<times> string) list \<Rightarrow> 'a \<Rightarrow> 'a option) \<Rightarrow> 'a decoder" where
  "decStruct d raw old =
     (if raw = ''null'' then Some old
      else if startsWith (CHR ''{'') raw then d (rawMembers raw) old else None)"

text \<open>\<open>json.Unmarshal\<close>, and a \<open>Decoder\<close> that must reach the end of the input.\<close>

definition Unmarshal :: "'a decoder \<Rightarrow> string \<Rightarrow> 'a \<Rightarrow> 'a option" where
  "Unmarshal d raw old = (if validJSON raw then d (trimJSON raw) old else None)"

section \<open>Encoding\<close>

definition memberText :: "string \<times> string \<Rightarrow> string" where
  "memberText m = quoteString (fst m) @ '':'' @ snd m"

definition objText :: "(string \<times> string) list \<Rightarrow> string" where
  "objText ms = ''{'' @ JoinBytes '','' (map memberText ms) @ ''}''"

definition arrText :: "string list \<Rightarrow> string" where
  "arrText es = ''['' @ JoinBytes '','' es @ '']''"

definition omitIf :: "bool \<Rightarrow> string \<Rightarrow> string \<Rightarrow> (string \<times> string) list" where
  "omitIf absent k t = (if absent then [] else [(k, t)])"

text \<open>A pointer field with \<open>omitempty\<close>.\<close>

definition ptrMember :: "string \<Rightarrow> ('a \<Rightarrow> string) \<Rightarrow> 'a option \<Rightarrow> (string \<times> string) list" where
  "ptrMember k text p = (case p of None \<Rightarrow> [] | Some v \<Rightarrow> [(k, text v)])"

text \<open>A nil slice is null.\<close>

definition sliceText :: "('a \<Rightarrow> string) \<Rightarrow> 'a list \<Rightarrow> string" where
  "sliceText text xs = (if xs = [] then ''null'' else arrText (map text xs))"

fun anyText :: "json \<Rightarrow> string" where
  "anyText JNull = ''null''"
| "anyText (JBool b) = boolText b"
| "anyText (JNum t) = t"
| "anyText (JStr s) = quoteString s"
| "anyText (JArr es) = arrText (map anyText es)"
| "anyText (JObj m) = objText (sort_key fst (map (\<lambda>(k, v). (k, anyText v)) m))"

text \<open>A raw message must be valid and is compacted.\<close>

definition rawText :: "string \<Rightarrow> string result" where
  "rawText raw = (if validJSON raw then Inr (compactJSON raw) else Inl (ErrOther ''json''))"

section \<open>Content blocks\<close>

text \<open>A new block of a type, and the literals of the adapters.\<close>

definition newBlock :: "block_type \<Rightarrow> content_block" where
  "newBlock t = ContentBlock t [] None [] [] [] [] None None [] [] False False"

definition textBlock :: "string \<Rightarrow> content_block" where
  "textBlock s = ContentBlock BlockText s None [] [] [] [] None None [] [] False False"

definition imageBlock :: "image_source option \<Rightarrow> content_block" where
  "imageBlock im = ContentBlock BlockImage [] im [] [] [] [] None None [] [] False False"

definition toolUseBlock :: "string \<Rightarrow> string \<Rightarrow> content_block" where
  "toolUseBlock callID name = ContentBlock BlockToolUse [] None [] [] callID name None None [] [] False False"

definition toolResultBlock :: "string \<Rightarrow> content_block list \<Rightarrow> bool \<Rightarrow> content_block" where
  "toolResultBlock callID content isError =
     ContentBlock BlockToolResult [] None [] [] [] [] None None callID content isError False"

text \<open>\<open>SetToolInputJSON\<close>: the raw JSON is kept, and its object view if it is an object.\<close>

definition objectView :: "string \<Rightarrow> (string, json) gomap option" where
  "objectView raw =
     (if validJSON raw then (case decodeAny True (trimJSON raw) of Some (JObj m) \<Rightarrow> Some m | _ \<Rightarrow> None) else None)"

definition SetToolInputJSON :: "string option \<Rightarrow> content_block \<Rightarrow> content_block" where
  "SetToolInputJSON raw b =
     ContentBlock (cb_Type b) (cb_Text b) (cb_Image b) (cb_Thinking b) (cb_ThinkingSignature b) (cb_ToolUseID b)
       (cb_ToolName b) (case raw of None \<Rightarrow> None | Some r \<Rightarrow> objectView r) raw (cb_ToolResultID b)
       (cb_ToolResult b) (cb_ToolResultError b) (cb_CacheControl b)"

definition ToolInputBytes :: "content_block \<Rightarrow> string" where
  "ToolInputBytes b =
     (case cb_ToolInputJSON b of
        Some raw \<Rightarrow> raw
      | None \<Rightarrow> (case cb_ToolInput b of None \<Rightarrow> ''{}'' | Some m \<Rightarrow> anyText (JObj m)))"

end
