(* ===== verification/OpenAI.thy ===== *)
theory OpenAI
  imports JsonCodec ErrorRelay
begin

text \<open>
  The adapter of the OpenAI format, \<open>internal/adapter/openai\<close>: the wire types with their JSON form
  (\<open>types.go\<close>), requests in both directions (\<open>request.go\<close>, \<open>request_build.go\<close>), responses (\<open>response.go\<close>),
  usage (\<open>usage.go\<close>) and errors (\<open>error.go\<close>). The streams are in \<open>OpenAIStream\<close>. An error is
  \<open>ErrOther ''openai''\<close>.
\<close>

section \<open>Wire types\<close>

record oa_function_call =
  fc_Name :: string
  fc_Arguments :: string

record oa_tool_call =
  otc_ID :: string
  otc_Type :: string
  otc_Function :: oa_function_call

record oa_image_url =
  iu_URL :: string

record content_part =
  cpt_Type :: string
  cpt_Text :: string
  cpt_ImageURL :: "oa_image_url option"

text \<open>A \<open>content\<close> of type \<open>any\<close>: a JSON value (\<open>JNull\<close> is nil), or the parts that a request is built from.\<close>

datatype oa_content = OAny json | OParts "content_part list"

record chat_message =
  cm_Role :: string
  cm_Content :: oa_content
  cm_ToolCalls :: "oa_tool_call list"
  cm_ToolCallID :: string
  cm_Name :: string

record function_defn =
  fd_Name :: string
  fd_Description :: string
  fd_Parameters :: "(string, json) gomap option"

record oa_tool =
  ot_Type :: string
  ot_Function :: function_defn

record stream_options =
  so_IncludeUsage :: bool

record chat_request =
  cq_Model :: string
  cq_Messages :: "chat_message list"
  cq_Tools :: "oa_tool list"
  cq_ToolChoice :: json
  cq_MaxTokens :: "int option"
  cq_N :: "int option"
  cq_MaxCompletionTokens :: "int option"
  cq_Temperature :: "float64 option"
  cq_TopP :: "float64 option"
  cq_Stop :: "string list"
  cq_Stream :: bool
  cq_StreamOptions :: "stream_options option"

record prompt_token_details =
  pd_CachedTokens :: "int option"

record oa_usage =
  us_PromptTokens :: "int option"
  us_CompletionTokens :: "int option"
  us_TotalTokens :: "int option"
  us_PromptTokenDetails :: "prompt_token_details option"

record choice =
  oc_Index :: int
  oc_Message :: chat_message
  oc_FinishReason :: "string option"

record chat_response =
  or_ID :: string
  or_Object :: string
  or_Created :: int
  or_Model :: string
  or_Choices :: "choice list"
  or_Usage :: "oa_usage option"

section \<open>Reading the wire types\<close>

definition zeroCall :: oa_function_call where
  "zeroCall = \<lparr>fc_Name = [], fc_Arguments = []\<rparr>"

definition decFunctionCall :: "oa_function_call decoder" where
  "decFunctionCall = decStruct (\<lambda>ms old.
     let get = (\<lambda>f. decField [''name'', ''arguments''] f decString ms) in
     do {
       name \<leftarrow> get ''name'' (fc_Name old);
       arguments \<leftarrow> get ''arguments'' (fc_Arguments old);
       Some \<lparr>fc_Name = name, fc_Arguments = arguments\<rparr>
     })"

definition zeroToolCall :: oa_tool_call where
  "zeroToolCall = \<lparr>otc_ID = [], otc_Type = [], otc_Function = zeroCall\<rparr>"

definition toolCallFields :: "string list" where
  "toolCallFields = [''id'', ''type'', ''function'']"

definition decToolCall :: "oa_tool_call decoder" where
  "decToolCall = decStruct (\<lambda>ms old. do {
     callID \<leftarrow> decField toolCallFields ''id'' decString ms (otc_ID old);
     kind \<leftarrow> decField toolCallFields ''type'' decString ms (otc_Type old);
     func \<leftarrow> decField toolCallFields ''function'' decFunctionCall ms (otc_Function old);
     Some \<lparr>otc_ID = callID, otc_Type = kind, otc_Function = func\<rparr>
   })"

definition decImageURL :: "oa_image_url decoder" where
  "decImageURL = decStruct (\<lambda>ms old. do {
     url \<leftarrow> decField [''url''] ''url'' decString ms (iu_URL old);
     Some \<lparr>iu_URL = url\<rparr>
   })"

definition zeroPart :: content_part where
  "zeroPart = \<lparr>cpt_Type = [], cpt_Text = [], cpt_ImageURL = None\<rparr>"

definition partFields :: "string list" where
  "partFields = [''type'', ''text'', ''image_url'']"

definition decContentPart :: "content_part decoder" where
  "decContentPart = decStruct (\<lambda>ms old. do {
     kind \<leftarrow> decField partFields ''type'' decString ms (cpt_Type old);
     text \<leftarrow> decField partFields ''text'' decString ms (cpt_Text old);
     url \<leftarrow> decField partFields ''image_url'' (decPtr decImageURL \<lparr>iu_URL = []\<rparr>) ms (cpt_ImageURL old);
     Some \<lparr>cpt_Type = kind, cpt_Text = text, cpt_ImageURL = url\<rparr>
   })"

definition decContent :: "oa_content decoder" where
  "decContent raw old = map_option OAny (decodeAny False raw)"

definition zeroMessage :: chat_message where
  "zeroMessage = \<lparr>cm_Role = [], cm_Content = OAny JNull, cm_ToolCalls = [], cm_ToolCallID = [], cm_Name = []\<rparr>"

definition messageFields :: "string list" where
  "messageFields = [''role'', ''content'', ''tool_calls'', ''tool_call_id'', ''name'']"

definition decChatMessage :: "chat_message decoder" where
  "decChatMessage = decStruct (\<lambda>ms old. do {
     role \<leftarrow> decField messageFields ''role'' decString ms (cm_Role old);
     content \<leftarrow> decField messageFields ''content'' decContent ms (cm_Content old);
     calls \<leftarrow> decField messageFields ''tool_calls'' (decSlice decToolCall zeroToolCall) ms (cm_ToolCalls old);
     callID \<leftarrow> decField messageFields ''tool_call_id'' decString ms (cm_ToolCallID old);
     name \<leftarrow> decField messageFields ''name'' decString ms (cm_Name old);
     Some \<lparr>cm_Role = role, cm_Content = content, cm_ToolCalls = calls, cm_ToolCallID = callID, cm_Name = name\<rparr>
   })"

definition defnFields :: "string list" where
  "defnFields = [''name'', ''description'', ''parameters'']"

definition decFunctionDefn :: "function_defn decoder" where
  "decFunctionDefn = decStruct (\<lambda>ms old. do {
     name \<leftarrow> decField defnFields ''name'' decString ms (fd_Name old);
     description \<leftarrow> decField defnFields ''description'' decString ms (fd_Description old);
     parameters \<leftarrow> decField defnFields ''parameters'' decMap ms (fd_Parameters old);
     Some \<lparr>fd_Name = name, fd_Description = description, fd_Parameters = parameters\<rparr>
   })"

definition zeroTool :: oa_tool where
  "zeroTool = \<lparr>ot_Type = [], ot_Function = \<lparr>fd_Name = [], fd_Description = [], fd_Parameters = None\<rparr>\<rparr>"

definition decTool :: "oa_tool decoder" where
  "decTool = decStruct (\<lambda>ms old. do {
     kind \<leftarrow> decField [''type'', ''function''] ''type'' decString ms (ot_Type old);
     func \<leftarrow> decField [''type'', ''function''] ''function'' decFunctionDefn ms (ot_Function old);
     Some \<lparr>ot_Type = kind, ot_Function = func\<rparr>
   })"

text \<open>\<open>stopSequences.UnmarshalJSON\<close>: a string or an array of strings.\<close>

definition decStop :: "string list decoder" where
  "decStop raw old =
     (let trimmed = TrimSpace raw in
      if trimmed = ''null'' then Some []
      else if startsWith (CHR 0x22) trimmed
      then map_option (\<lambda>value. [value]) (Unmarshal decString trimmed [])
      else Unmarshal (decSlice decString []) trimmed [])"

definition decStreamOptions :: "stream_options decoder" where
  "decStreamOptions = decStruct (\<lambda>ms old. do {
     include \<leftarrow> decField [''include_usage''] ''include_usage'' decBool ms (so_IncludeUsage old);
     Some \<lparr>so_IncludeUsage = include\<rparr>
   })"

definition zeroRequest :: chat_request where
  "zeroRequest = \<lparr>cq_Model = [], cq_Messages = [], cq_Tools = [], cq_ToolChoice = JNull, cq_MaxTokens = None,
     cq_N = None, cq_MaxCompletionTokens = None, cq_Temperature = None, cq_TopP = None, cq_Stop = [],
     cq_Stream = False, cq_StreamOptions = None\<rparr>"

definition requestFields :: "string list" where
  "requestFields = [''model'', ''messages'', ''tools'', ''tool_choice'', ''max_tokens'', ''n'', ''max_completion_tokens'',
     ''temperature'', ''top_p'', ''stop'', ''stream'', ''stream_options'']"

definition decChatRequest :: "chat_request decoder" where
  "decChatRequest = decStruct (\<lambda>ms old. do {
     model \<leftarrow> decField requestFields ''model'' decString ms (cq_Model old);
     messages \<leftarrow> decField requestFields ''messages'' (decSlice decChatMessage zeroMessage) ms (cq_Messages old);
     tools \<leftarrow> decField requestFields ''tools'' (decSlice decTool zeroTool) ms (cq_Tools old);
     toolChoice \<leftarrow> decField requestFields ''tool_choice'' (decAny False) ms (cq_ToolChoice old);
     maxTokens \<leftarrow> decField requestFields ''max_tokens'' (decPtr decInt 0) ms (cq_MaxTokens old);
     n \<leftarrow> decField requestFields ''n'' (decPtr decInt 0) ms (cq_N old);
     maxCompletion \<leftarrow> decField requestFields ''max_completion_tokens'' (decPtr decInt 0) ms (cq_MaxCompletionTokens old);
     temperature \<leftarrow> decField requestFields ''temperature'' (decPtr decFloat 0) ms (cq_Temperature old);
     topP \<leftarrow> decField requestFields ''top_p'' (decPtr decFloat 0) ms (cq_TopP old);
     stop \<leftarrow> decField requestFields ''stop'' decStop ms (cq_Stop old);
     stream \<leftarrow> decField requestFields ''stream'' decBool ms (cq_Stream old);
     options \<leftarrow> decField requestFields ''stream_options'' (decPtr decStreamOptions \<lparr>so_IncludeUsage = False\<rparr>) ms
                 (cq_StreamOptions old);
     Some \<lparr>cq_Model = model, cq_Messages = messages, cq_Tools = tools, cq_ToolChoice = toolChoice,
       cq_MaxTokens = maxTokens, cq_N = n, cq_MaxCompletionTokens = maxCompletion, cq_Temperature = temperature,
       cq_TopP = topP, cq_Stop = stop, cq_Stream = stream, cq_StreamOptions = options\<rparr>
   })"

definition decTokenDetails :: "prompt_token_details decoder" where
  "decTokenDetails = decStruct (\<lambda>ms old. do {
     cached \<leftarrow> decField [''cached_tokens''] ''cached_tokens'' (decPtr decInt 0) ms (pd_CachedTokens old);
     Some \<lparr>pd_CachedTokens = cached\<rparr>
   })"

definition zeroOaUsage :: oa_usage where
  "zeroOaUsage = \<lparr>us_PromptTokens = None, us_CompletionTokens = None, us_TotalTokens = None, us_PromptTokenDetails = None\<rparr>"

definition usageFields :: "string list" where
  "usageFields = [''prompt_tokens'', ''completion_tokens'', ''total_tokens'', ''prompt_tokens_details'']"

definition decOaUsage :: "oa_usage decoder" where
  "decOaUsage = decStruct (\<lambda>ms old. do {
     prompt \<leftarrow> decField usageFields ''prompt_tokens'' (decPtr decInt 0) ms (us_PromptTokens old);
     completion \<leftarrow> decField usageFields ''completion_tokens'' (decPtr decInt 0) ms (us_CompletionTokens old);
     total \<leftarrow> decField usageFields ''total_tokens'' (decPtr decInt 0) ms (us_TotalTokens old);
     details \<leftarrow> decField usageFields ''prompt_tokens_details'' (decPtr decTokenDetails \<lparr>pd_CachedTokens = None\<rparr>) ms
                 (us_PromptTokenDetails old);
     Some \<lparr>us_PromptTokens = prompt, us_CompletionTokens = completion, us_TotalTokens = total,
       us_PromptTokenDetails = details\<rparr>
   })"

definition zeroChoice :: choice where
  "zeroChoice = \<lparr>oc_Index = 0, oc_Message = zeroMessage, oc_FinishReason = None\<rparr>"

definition choiceFields :: "string list" where
  "choiceFields = [''index'', ''message'', ''finish_reason'']"

definition decChoice :: "choice decoder" where
  "decChoice = decStruct (\<lambda>ms old. do {
     index \<leftarrow> decField choiceFields ''index'' decInt ms (oc_Index old);
     message \<leftarrow> decField choiceFields ''message'' decChatMessage ms (oc_Message old);
     finish \<leftarrow> decField choiceFields ''finish_reason'' (decPtr decString []) ms (oc_FinishReason old);
     Some \<lparr>oc_Index = index, oc_Message = message, oc_FinishReason = finish\<rparr>
   })"

definition zeroChatResponse :: chat_response where
  "zeroChatResponse = \<lparr>or_ID = [], or_Object = [], or_Created = 0, or_Model = [], or_Choices = [], or_Usage = None\<rparr>"

definition responseFields :: "string list" where
  "responseFields = [''id'', ''object'', ''created'', ''model'', ''choices'', ''usage'']"

definition decChatResponse :: "chat_response decoder" where
  "decChatResponse = decStruct (\<lambda>ms old. do {
     respID \<leftarrow> decField responseFields ''id'' decString ms (or_ID old);
     object \<leftarrow> decField responseFields ''object'' decString ms (or_Object old);
     created \<leftarrow> decField responseFields ''created'' decInt ms (or_Created old);
     model \<leftarrow> decField responseFields ''model'' decString ms (or_Model old);
     choices \<leftarrow> decField responseFields ''choices'' (decSlice decChoice zeroChoice) ms (or_Choices old);
     usage \<leftarrow> decField responseFields ''usage'' (decPtr decOaUsage zeroOaUsage) ms (or_Usage old);
     Some \<lparr>or_ID = respID, or_Object = object, or_Created = created, or_Model = model, or_Choices = choices,
       or_Usage = usage\<rparr>
   })"

section \<open>Writing the wire types\<close>

definition functionCallText :: "oa_function_call \<Rightarrow> string" where
  "functionCallText f =
     objText [(''name'', quoteString (fc_Name f)), (''arguments'', quoteString (fc_Arguments f))]"

definition toolCallText :: "oa_tool_call \<Rightarrow> string" where
  "toolCallText c = objText [(''id'', quoteString (otc_ID c)), (''type'', quoteString (otc_Type c)),
     (''function'', functionCallText (otc_Function c))]"

definition partText :: "content_part \<Rightarrow> string" where
  "partText p = objText ([(''type'', quoteString (cpt_Type p))] @
     omitIf (cpt_Text p = []) ''text'' (quoteString (cpt_Text p)) @
     ptrMember ''image_url'' (\<lambda>u. objText [(''url'', quoteString (iu_URL u))]) (cpt_ImageURL p))"

definition contentMember :: "oa_content \<Rightarrow> (string \<times> string) list" where
  "contentMember c =
     (case c of
        OAny j \<Rightarrow> omitIf (j = JNull) ''content'' (anyText j)
      | OParts ps \<Rightarrow> [(''content'', sliceText partText ps)])"

definition chatMessageText :: "chat_message \<Rightarrow> string" where
  "chatMessageText m = objText ([(''role'', quoteString (cm_Role m))] @
     contentMember (cm_Content m) @
     omitIf (cm_ToolCalls m = []) ''tool_calls'' (arrText (map toolCallText (cm_ToolCalls m))) @
     omitIf (cm_ToolCallID m = []) ''tool_call_id'' (quoteString (cm_ToolCallID m)) @
     omitIf (cm_Name m = []) ''name'' (quoteString (cm_Name m)))"

definition mapMember :: "string \<Rightarrow> (string, json) gomap option \<Rightarrow> (string \<times> string) list" where
  "mapMember k m = (case m of None \<Rightarrow> [] | Some mm \<Rightarrow> omitIf (mm = []) k (anyText (JObj mm)))"

definition functionDefnText :: "function_defn \<Rightarrow> string" where
  "functionDefnText f = objText ([(''name'', quoteString (fd_Name f))] @
     omitIf (fd_Description f = []) ''description'' (quoteString (fd_Description f)) @
     mapMember ''parameters'' (fd_Parameters f))"

definition toolText :: "oa_tool \<Rightarrow> string" where
  "toolText t = objText [(''type'', quoteString (ot_Type t)), (''function'', functionDefnText (ot_Function t))]"

definition streamOptionsText :: "stream_options \<Rightarrow> string" where
  "streamOptionsText opts =
     objText (omitIf (\<not> so_IncludeUsage opts) ''include_usage'' (boolText (so_IncludeUsage opts)))"

definition chatRequestText :: "chat_request \<Rightarrow> string" where
  "chatRequestText q = objText ([(''model'', quoteString (cq_Model q)),
       (''messages'', sliceText chatMessageText (cq_Messages q))] @
     omitIf (cq_Tools q = []) ''tools'' (arrText (map toolText (cq_Tools q))) @
     omitIf (cq_ToolChoice q = JNull) ''tool_choice'' (anyText (cq_ToolChoice q)) @
     ptrMember ''max_tokens'' intText (cq_MaxTokens q) @
     ptrMember ''n'' intText (cq_N q) @
     ptrMember ''max_completion_tokens'' intText (cq_MaxCompletionTokens q) @
     ptrMember ''temperature'' formatFloat (cq_Temperature q) @
     ptrMember ''top_p'' formatFloat (cq_TopP q) @
     omitIf (cq_Stop q = []) ''stop'' (arrText (map quoteString (cq_Stop q))) @
     omitIf (\<not> cq_Stream q) ''stream'' (boolText (cq_Stream q)) @
     ptrMember ''stream_options'' streamOptionsText (cq_StreamOptions q))"

definition oaUsageText :: "oa_usage \<Rightarrow> string" where
  "oaUsageText u = objText (ptrMember ''prompt_tokens'' intText (us_PromptTokens u) @
     ptrMember ''completion_tokens'' intText (us_CompletionTokens u) @
     ptrMember ''total_tokens'' intText (us_TotalTokens u) @
     ptrMember ''prompt_tokens_details'' (\<lambda>d. objText (ptrMember ''cached_tokens'' intText (pd_CachedTokens d)))
       (us_PromptTokenDetails u))"

definition choiceText :: "choice \<Rightarrow> string" where
  "choiceText c = objText ([(''index'', intText (oc_Index c)), (''message'', chatMessageText (oc_Message c))] @
     ptrMember ''finish_reason'' quoteString (oc_FinishReason c))"

definition chatResponseText :: "chat_response \<Rightarrow> string" where
  "chatResponseText r = objText ([(''id'', quoteString (or_ID r)), (''object'', quoteString (or_Object r)),
       (''created'', intText (or_Created r)), (''model'', quoteString (or_Model r)),
       (''choices'', sliceText choiceText (or_Choices r))] @
     ptrMember ''usage'' oaUsageText (or_Usage r))"

section \<open>Parsing a request\<close>

definition openaiErr :: goerr where
  "openaiErr = ErrOther ''openai''"

definition toContentParts :: "json \<Rightarrow> content_part list result" where
  "toContentParts content =
     (case content of
        JArr es \<Rightarrow>
          (case Unmarshal (decSlice decContentPart zeroPart) (anyText (JArr es)) [] of
             None \<Rightarrow> Inl openaiErr
           | Some parts \<Rightarrow> Inr parts)
      | _ \<Rightarrow> Inl openaiErr)"

definition contentToString :: "json \<Rightarrow> string result" where
  "contentToString content =
     (case content of
        JNull \<Rightarrow> Inr []
      | JStr s \<Rightarrow> Inr s
      | _ \<Rightarrow>
          (case toContentParts content of
             Inl e \<Rightarrow> Inl e
           | Inr parts \<Rightarrow> Inr (concat (map cpt_Text (filter (\<lambda>p. cpt_Type p = ''text'') parts)))))"

definition parseContentToText :: "json \<Rightarrow> content_block list result" where
  "parseContentToText content =
     (case contentToString content of
        Inl e \<Rightarrow> Inl e
      | Inr text \<Rightarrow> if text = [] then Inr [] else Inr [textBlock text])"

text \<open>The text before a separator of one byte, if it occurs.\<close>

definition cutAt :: "char \<Rightarrow> string \<Rightarrow> (string \<times> string) option" where
  "cutAt sep s = (case CutByte sep s of (front, after, found) \<Rightarrow> if found then Some (front, after) else None)"

definition parseImageURL :: "string \<Rightarrow> image_source" where
  "parseImageURL url =
     (let plain = \<lparr>im_Type = ''url'', im_URL = url, im_MediaType = [], im_Data = []\<rparr> in
      if HasPrefix url ''data:'' then
        (case cutAt (CHR '','') url of
           None \<Rightarrow> plain
         | Some (front, payload) \<Rightarrow>
             let meta = drop 5 front;
                 mediaType = (case cutAt (CHR '';'') meta of None \<Rightarrow> meta | Some (m, _) \<Rightarrow> m)
             in \<lparr>im_Type = ''base64'', im_URL = [], im_MediaType = mediaType, im_Data = payload\<rparr>)
      else plain)"

definition partBlock :: "content_part \<Rightarrow> content_block list" where
  "partBlock p =
     (if cpt_Type p = ''text'' then [textBlock (cpt_Text p)]
      else if cpt_Type p = ''image_url'' then
        (case cpt_ImageURL p of None \<Rightarrow> [] | Some u \<Rightarrow> [imageBlock (Some (parseImageURL (iu_URL u)))])
      else [])"

definition parseUserContent :: "json \<Rightarrow> content_block list result" where
  "parseUserContent content =
     (case content of
        JStr s \<Rightarrow> Inr [textBlock s]
      | _ \<Rightarrow>
          (case toContentParts content of
             Inl e \<Rightarrow> Inl e
           | Inr parts \<Rightarrow> Inr (concat (map partBlock parts))))"

definition callBlock :: "oa_tool_call \<Rightarrow> content_block" where
  "callBlock c = SetToolInputJSON (Some (fc_Arguments (otc_Function c))) (toolUseBlock (otc_ID c) (fc_Name (otc_Function c)))"

text \<open>The content of a message that was read is never \<open>OParts\<close>.\<close>

definition anyContent :: "chat_message \<Rightarrow> json" where
  "anyContent m = (case cm_Content m of OAny j \<Rightarrow> j | OParts ps \<Rightarrow> JNull)"

definition parseAssistantContent :: "chat_message \<Rightarrow> content_block list result" where
  "parseAssistantContent m =
     (case contentToString (anyContent m) of
        Inl e \<Rightarrow> Inl e
      | Inr text \<Rightarrow> Inr ((if text = [] then [] else [textBlock text]) @ map callBlock (cm_ToolCalls m)))"

definition oaParseToolChoice :: "json \<Rightarrow> tool_choice option" where
  "oaParseToolChoice v =
     (case v of
        JStr t \<Rightarrow>
          if t = ''auto'' then Some \<lparr>tc_Type = ToolChoiceAuto, tc_Name = []\<rparr>
          else if t = ''none'' then Some \<lparr>tc_Type = ToolChoiceNone, tc_Name = []\<rparr>
          else if t = ''required'' then Some \<lparr>tc_Type = ToolChoiceAny, tc_Name = []\<rparr>
          else None
      | JObj m \<Rightarrow>
          (case map_of m ''function'' of
             Some (JObj fn) \<Rightarrow>
               (case map_of fn ''name'' of
                  Some (JStr name) \<Rightarrow> Some \<lparr>tc_Type = ToolChoiceTool, tc_Name = name\<rparr>
                | _ \<Rightarrow> None)
           | _ \<Rightarrow> None)
      | _ \<Rightarrow> None)"

text \<open>A tool result joins the user message before it.\<close>

definition addToolResult :: "content_block \<Rightarrow> message list \<Rightarrow> message list" where
  "addToolResult b out =
     (if out \<noteq> [] \<and> ms_Role (last out) = RoleUser
      then butlast out @ [(last out)\<lparr>ms_Content := ms_Content (last out) @ [b]\<rparr>]
      else out @ [\<lparr>ms_Role = RoleUser, ms_Content = [b]\<rparr>])"

definition parseMessage :: "chat_message \<Rightarrow> message list \<Rightarrow> message list result" where
  "parseMessage m out =
     (let append = (\<lambda>role blocks. case blocks of
                      Inl e \<Rightarrow> Inl e
                    | Inr bs \<Rightarrow> Inr (out @ [\<lparr>ms_Role = role, ms_Content = bs\<rparr>])) in
      if cm_Role m = ''system'' then append RoleSystem (parseContentToText (anyContent m))
      else if cm_Role m = ''developer'' then append RoleDeveloper (parseContentToText (anyContent m))
      else if cm_Role m = ''user'' then append RoleUser (parseUserContent (anyContent m))
      else if cm_Role m = ''assistant'' then append RoleAssistant (parseAssistantContent m)
      else if cm_Role m = ''tool'' then
        (case contentToString (anyContent m) of
           Inl e \<Rightarrow> Inl e
         | Inr text \<Rightarrow> Inr (addToolResult (toolResultBlock (cm_ToolCallID m) [textBlock text] False) out))
      else Inl openaiErr)"

fun parseMessages :: "chat_message list \<Rightarrow> message list \<Rightarrow> message list result" where
  "parseMessages [] out = Inr out"
| "parseMessages (m # ms) out =
     (case parseMessage m out of Inl e \<Rightarrow> Inl e | Inr out' \<Rightarrow> parseMessages ms out')"

definition parseTool :: "oa_tool \<Rightarrow> tool" where
  "parseTool t = \<lparr>tl_Name = fd_Name (ot_Function t), tl_Description = fd_Description (ot_Function t),
     tl_InputSchema = fd_Parameters (ot_Function t)\<rparr>"

definition oaParseRequest :: "string \<Rightarrow> request result" where
  "oaParseRequest raw =
     (case Unmarshal decChatRequest raw zeroRequest of
        None \<Rightarrow> Inl openaiErr
      | Some req \<Rightarrow>
          let maxTokens = (if cq_MaxCompletionTokens req \<noteq> None then cq_MaxCompletionTokens req else cq_MaxTokens req) in
          if cq_MaxCompletionTokens req \<noteq> None \<and> cq_MaxTokens req \<noteq> None \<and>
             cq_MaxTokens req \<noteq> cq_MaxCompletionTokens req then Inl openaiErr
          else if cq_N req \<noteq> None \<and> cq_N req \<noteq> Some 1 then Inl openaiErr
          else (case parseMessages (cq_Messages req) [] of
                  Inl e \<Rightarrow> Inl e
                | Inr messages \<Rightarrow>
                    Inr \<lparr>rq_Model = cq_Model req, rq_System = [], rq_Messages = messages,
                      rq_Tools = map parseTool (cq_Tools req), rq_ToolChoice = oaParseToolChoice (cq_ToolChoice req),
                      rq_MaxTokens = maxTokens, rq_Temperature = cq_Temperature req, rq_TopP = cq_TopP req,
                      rq_Stop = cq_Stop req, rq_Stream = cq_Stream req, rq_Metadata = None\<rparr>))"

section \<open>Building a request\<close>

definition blocksToText :: "content_block list \<Rightarrow> string" where
  "blocksToText blocks = concat (map cb_Text (filter (\<lambda>b. cb_Type b = BlockText) blocks))"

definition imageSourceToURL :: "image_source \<Rightarrow> string" where
  "imageSourceToURL img =
     (if im_Type img = ''base64'' then ''data:'' @ im_MediaType img @ '';base64,'' @ im_Data img else im_URL img)"

definition userMessageFromParts :: "content_part list \<Rightarrow> chat_message" where
  "userMessageFromParts parts =
     (case parts of
        [p] \<Rightarrow> if cpt_Type p = ''text'' then zeroMessage\<lparr>cm_Role := ''user'', cm_Content := OAny (JStr (cpt_Text p))\<rparr>
                else zeroMessage\<lparr>cm_Role := ''user'', cm_Content := OParts parts\<rparr>
      | _ \<Rightarrow> zeroMessage\<lparr>cm_Role := ''user'', cm_Content := OParts parts\<rparr>)"

definition userPart :: "content_block \<Rightarrow> content_part list" where
  "userPart b =
     (if cb_Type b = BlockText then [\<lparr>cpt_Type = ''text'', cpt_Text = cb_Text b, cpt_ImageURL = None\<rparr>]
      else if cb_Type b = BlockImage then
        (case cb_Image b of
           None \<Rightarrow> []
         | Some im \<Rightarrow> [\<lparr>cpt_Type = ''image_url'', cpt_Text = [], cpt_ImageURL = Some \<lparr>iu_URL = imageSourceToURL im\<rparr>\<rparr>])
      else [])"

definition toolMessage :: "content_block \<Rightarrow> chat_message" where
  "toolMessage b = zeroMessage\<lparr>cm_Role := ''tool'', cm_ToolCallID := cb_ToolResultID b,
     cm_Content := OAny (JStr (blocksToText (cb_ToolResult b)))\<rparr>"

definition buildUserMessages :: "content_block list \<Rightarrow> chat_message list" where
  "buildUserMessages blocks =
     (let parts = concat (map userPart blocks);
          toolMsgs = map toolMessage (filter (\<lambda>b. cb_Type b = BlockToolResult) blocks)
      in (if parts \<noteq> [] then [userMessageFromParts parts] else []) @ toolMsgs)"

definition buildCall :: "content_block \<Rightarrow> oa_tool_call" where
  "buildCall b = \<lparr>otc_ID = cb_ToolUseID b, otc_Type = ''function'',
     otc_Function = \<lparr>fc_Name = cb_ToolName b, fc_Arguments = ToolInputBytes b\<rparr>\<rparr>"

text \<open>Thinking blocks are dropped.\<close>

definition buildAssistantMessage :: "content_block list \<Rightarrow> chat_message" where
  "buildAssistantMessage blocks =
     (let text = blocksToText blocks in
      zeroMessage\<lparr>cm_Role := ''assistant'',
        cm_ToolCalls := map buildCall (filter (\<lambda>b. cb_Type b = BlockToolUse) blocks),
        cm_Content := (if text \<noteq> [] then OAny (JStr text) else OAny JNull)\<rparr>)"

definition buildInstructionMessage :: "role \<Rightarrow> content_block list \<Rightarrow> chat_message result" where
  "buildInstructionMessage role blocks =
     (if list_ex (\<lambda>b. cb_Type b \<noteq> BlockText) blocks then Inl openaiErr
      else Inr (zeroMessage\<lparr>cm_Role := role, cm_Content := OAny (JStr (blocksToText blocks))\<rparr>))"

definition buildMessage :: "message \<Rightarrow> chat_message list result" where
  "buildMessage m =
     (if ms_Role m = RoleSystem \<or> ms_Role m = RoleDeveloper
      then (case buildInstructionMessage (ms_Role m) (ms_Content m) of Inl e \<Rightarrow> Inl e | Inr msg \<Rightarrow> Inr [msg])
      else if ms_Role m = RoleUser then Inr (buildUserMessages (ms_Content m))
      else if ms_Role m = RoleAssistant then Inr [buildAssistantMessage (ms_Content m)]
      else Inl openaiErr)"

fun buildMessages :: "message list \<Rightarrow> chat_message list result" where
  "buildMessages [] = Inr []"
| "buildMessages (m # ms) =
     (case buildMessage m of
        Inl e \<Rightarrow> Inl e
      | Inr msgs \<Rightarrow> (case buildMessages ms of Inl e \<Rightarrow> Inl e | Inr rest \<Rightarrow> Inr (msgs @ rest)))"

definition oaBuildToolChoice :: "tool_choice \<Rightarrow> json" where
  "oaBuildToolChoice tc =
     (case tc_Type tc of
        ToolChoiceAuto \<Rightarrow> JStr ''auto''
      | ToolChoiceNone \<Rightarrow> JStr ''none''
      | ToolChoiceAny \<Rightarrow> JStr ''required''
      | ToolChoiceTool \<Rightarrow> JObj [(''type'', JStr ''function''), (''function'', JObj [(''name'', JStr (tc_Name tc))])])"

definition buildTool :: "tool \<Rightarrow> oa_tool" where
  "buildTool t = \<lparr>ot_Type = ''function'', ot_Function = \<lparr>fd_Name = tl_Name t, fd_Description = tl_Description t,
     fd_Parameters = tl_InputSchema t\<rparr>\<rparr>"

definition oaBuildRequest :: "request \<Rightarrow> string result" where
  "oaBuildRequest req =
     (let sysText = blocksToText (rq_System req);
          sys = (if sysText \<noteq> [] then [zeroMessage\<lparr>cm_Role := ''system'', cm_Content := OAny (JStr sysText)\<rparr>] else [])
      in (case buildMessages (rq_Messages req) of
            Inl e \<Rightarrow> Inl e
          | Inr msgs \<Rightarrow>
              Inr (chatRequestText \<lparr>cq_Model = rq_Model req, cq_Messages = sys @ msgs,
                cq_Tools = map buildTool (rq_Tools req),
                cq_ToolChoice = (case rq_ToolChoice req of None \<Rightarrow> JNull | Some tc \<Rightarrow> oaBuildToolChoice tc),
                cq_MaxTokens = rq_MaxTokens req, cq_N = None, cq_MaxCompletionTokens = None,
                cq_Temperature = rq_Temperature req, cq_TopP = rq_TopP req, cq_Stop = rq_Stop req,
                cq_Stream = rq_Stream req,
                cq_StreamOptions = (if rq_Stream req then Some \<lparr>so_IncludeUsage = True\<rparr> else None)\<rparr>)))"

section \<open>Usage\<close>

definition oaUsageFromWire :: "oa_usage option \<Rightarrow> Canonical.usage option" where
  "oaUsageFromWire w =
     (case w of
        None \<Rightarrow> None
      | Some u \<Rightarrow>
          let cached = (case us_PromptTokenDetails u of None \<Rightarrow> None | Some d \<Rightarrow> pd_CachedTokens d);
              out = zeroUsage;
              out = (case us_PromptTokens u of
                       Some p \<Rightarrow>
                         let out = out\<lparr>u_InputTokens := p, u_InputTokensKnown := True\<rparr> in
                         (case cached of
                            None \<Rightarrow> out
                          | Some c \<Rightarrow>
                              if c < 0 \<or> c > p then out\<lparr>u_CacheReadInputTokens := - 1\<rparr>
                              else out\<lparr>u_InputTokens := p - c, u_CacheReadInputTokens := c\<rparr>)
                     | None \<Rightarrow> (case cached of None \<Rightarrow> out | Some c \<Rightarrow> out\<lparr>u_CacheReadInputTokens := c\<rparr>));
              out = (case us_CompletionTokens u of
                       None \<Rightarrow> out | Some c \<Rightarrow> out\<lparr>u_OutputTokens := c, u_OutputTokensKnown := True\<rparr>);
              out = (case us_TotalTokens u of
                       None \<Rightarrow> out | Some t \<Rightarrow> out\<lparr>u_ReportedTotalTokens := t, u_TotalTokensKnown := True\<rparr>)
          in Some out)"

fun checkedTokenSum :: "int \<Rightarrow> int list \<Rightarrow> int option" where
  "checkedTokenSum t [] = Some t"
| "checkedTokenSum t (v # vs) =
     (if v < 0 \<or> t > 2 ^ 63 - 1 - v then None else checkedTokenSum (t + v) vs)"

definition oaWireUsage :: "Canonical.usage \<Rightarrow> oa_usage option" where
  "oaWireUsage u =
     (let prompt = (if u_InputTokensKnown u
                    then checkedTokenSum 0 [u_InputTokens u, u_CacheCreationInputTokens u, u_CacheReadInputTokens u]
                    else None);
          details = (if prompt \<noteq> None \<and> u_CacheReadInputTokens u > 0
                     then Some \<lparr>pd_CachedTokens = Some (u_CacheReadInputTokens u)\<rparr> else None);
          completion = (if u_OutputTokensKnown u then Some (u_OutputTokens u) else None);
          summed = (if u_TotalTokensKnown u then Some (u_ReportedTotalTokens u)
                    else (case prompt of
                            None \<Rightarrow> None
                          | Some p \<Rightarrow>
                              if u_OutputTokensKnown u \<and> u_OutputTokens u \<ge> 0 \<and> p \<le> 2 ^ 63 - 1 - u_OutputTokens u
                              then Some (p + u_OutputTokens u) else None))
      in if prompt = None \<and> completion = None \<and> summed = None then None
         else Some \<lparr>us_PromptTokens = prompt, us_CompletionTokens = completion, us_TotalTokens = summed,
                us_PromptTokenDetails = details\<rparr>)"

section \<open>Responses\<close>

definition oaStopReason :: "string \<Rightarrow> stop_reason" where
  "oaStopReason r =
     (if r = ''stop'' then StopEndTurn else if r = ''length'' then StopMaxTokens
      else if r = ''tool_calls'' then StopToolUse else if r = ''content_filter'' then StopError
      else StopEndTurn)"

definition oaFinishReason :: "stop_reason \<Rightarrow> string" where
  "oaFinishReason r =
     (if r = StopEndTurn \<or> r = StopStop then ''stop'' else if r = StopMaxTokens then ''length''
      else if r = StopToolUse then ''tool_calls'' else if r = StopError then ''content_filter''
      else ''stop'')"

definition oaParseResponse :: "string \<Rightarrow> response result" where
  "oaParseResponse raw =
     (case Unmarshal decChatResponse raw zeroChatResponse of
        None \<Rightarrow> Inl openaiErr
      | Some resp \<Rightarrow>
          (case or_Choices resp of
             [ch] \<Rightarrow>
               if oc_Index ch \<noteq> 0 then Inl openaiErr
               else (case parseAssistantContent (oc_Message ch) of
                       Inl e \<Rightarrow> Inl e
                     | Inr content \<Rightarrow>
                         Inr \<lparr>rs_ID = or_ID resp, rs_Model = or_Model resp, rs_Role = RoleAssistant,
                           rs_Content = content,
                           rs_StopReason = (case oc_FinishReason ch of None \<Rightarrow> [] | Some f \<Rightarrow> oaStopReason f),
                           rs_Usage = (case oaUsageFromWire (or_Usage resp) of None \<Rightarrow> zeroUsage | Some u \<Rightarrow> u)\<rparr>)
           | _ \<Rightarrow> Inl openaiErr))"

definition oaBuildResponse :: "response \<Rightarrow> string result" where
  "oaBuildResponse resp =
     Inr (chatResponseText \<lparr>or_ID = rs_ID resp, or_Object = ''chat.completion'', or_Created = 0,
       or_Model = rs_Model resp,
       or_Choices = [\<lparr>oc_Index = 0, oc_Message = buildAssistantMessage (rs_Content resp),
         oc_FinishReason = Some (oaFinishReason (rs_StopReason resp))\<rparr>],
       or_Usage = oaWireUsage (rs_Usage resp)\<rparr>)"

section \<open>Errors\<close>

record oa_error_body =
  oe_Message :: string
  oe_Type :: string
  oe_Param :: json
  oe_Code :: json

definition oaErrorFields :: "string list" where
  "oaErrorFields = [''message'', ''type'', ''param'', ''code'']"

definition decOaErrorBody :: "oa_error_body decoder" where
  "decOaErrorBody = decStruct (\<lambda>ms old. do {
     message \<leftarrow> decField oaErrorFields ''message'' decString ms (oe_Message old);
     kind \<leftarrow> decField oaErrorFields ''type'' decString ms (oe_Type old);
     param \<leftarrow> decField oaErrorFields ''param'' (decAny True) ms (oe_Param old);
     code \<leftarrow> decField oaErrorFields ''code'' (decAny True) ms (oe_Code old);
     Some \<lparr>oe_Message = message, oe_Type = kind, oe_Param = param, oe_Code = code\<rparr>
   })"

text \<open>The envelope has the one field \<open>error\<close>.\<close>

definition decOaErrorEnvelope :: "oa_error_body decoder" where
  "decOaErrorEnvelope = decStruct (\<lambda>ms old. decField [''error''] ''error'' decOaErrorBody ms old)"

definition nonNil :: "json \<Rightarrow> json option" where
  "nonNil j = (if j = JNull then None else Some j)"

definition oaParseError :: "string \<Rightarrow> error_response option result" where
  "oaParseError raw =
     (case Unmarshal decOaErrorEnvelope raw \<lparr>oe_Message = [], oe_Type = [], oe_Param = JNull, oe_Code = JNull\<rparr> of
        None \<Rightarrow> Inl openaiErr
      | Some b \<Rightarrow>
          if oe_Message b = [] then Inl openaiErr
          else Inr (Some \<lparr>er_Type = (if oe_Type b = [] then ''upstream_error'' else oe_Type b),
                 er_Message = oe_Message b, er_Param = nonNil (oe_Param b), er_Code = nonNil (oe_Code b),
                 er_RequestID = []\<rparr>))"

definition oaBuildError :: "error_response \<Rightarrow> string result" where
  "oaBuildError e =
     Inr (objText [(''error'', objText ([(''message'', quoteString (er_Message e)), (''type'', quoteString (er_Type e))] @
       ptrMember ''param'' anyText (er_Param e) @ ptrMember ''code'' anyText (er_Code e)))])"

end
