(* ===== verification/OpenAIStream.thy ===== *)
theory OpenAIStream
  imports OpenAI Sse
begin

text \<open>
  The streams of the OpenAI format: \<open>stream_decode.go\<close>, which turns the flat increments of a chunk into
  the block structured events of the canonical model, and \<open>stream_encode.go\<close>, which does the reverse.
  Go closes the open tool blocks in the order in which it visits a map, so that order is a parameter:
  a function \<open>ord\<close> that permutes the entries of the map.
\<close>

section \<open>Chunks\<close>

record stream_tool_call =
  ost_Index :: int
  ost_ID :: string
  ost_Type :: string
  ost_Function :: oa_function_call

record oa_stream_delta =
  od_Role :: string
  od_Content :: json
  od_ToolCalls :: "stream_tool_call list"

record stream_choice =
  sc_Index :: int
  sc_Delta :: "oa_stream_delta option"
  sc_FinishReason :: "string option"

record stream_chunk =
  sk_ID :: string
  sk_Object :: string
  sk_Created :: int
  sk_Model :: string
  sk_Choices :: "stream_choice list"
  sk_Usage :: "oa_usage option"

definition streamCallFields :: "string list" where
  "streamCallFields = [''index'', ''id'', ''type'', ''function'']"

definition zeroStreamCall :: stream_tool_call where
  "zeroStreamCall = \<lparr>ost_Index = 0, ost_ID = [], ost_Type = [], ost_Function = zeroCall\<rparr>"

definition decStreamCall :: "stream_tool_call decoder" where
  "decStreamCall = decStruct (\<lambda>ms old. do {
     index \<leftarrow> decField streamCallFields ''index'' decInt ms (ost_Index old);
     callID \<leftarrow> decField streamCallFields ''id'' decString ms (ost_ID old);
     kind \<leftarrow> decField streamCallFields ''type'' decString ms (ost_Type old);
     func \<leftarrow> decField streamCallFields ''function'' decFunctionCall ms (ost_Function old);
     Some \<lparr>ost_Index = index, ost_ID = callID, ost_Type = kind, ost_Function = func\<rparr>
   })"

definition zeroOaDelta :: oa_stream_delta where
  "zeroOaDelta = \<lparr>od_Role = [], od_Content = JNull, od_ToolCalls = []\<rparr>"

definition oaDeltaFields :: "string list" where
  "oaDeltaFields = [''role'', ''content'', ''tool_calls'']"

definition decOaDelta :: "oa_stream_delta decoder" where
  "decOaDelta = decStruct (\<lambda>ms old. do {
     role \<leftarrow> decField oaDeltaFields ''role'' decString ms (od_Role old);
     content \<leftarrow> decField oaDeltaFields ''content'' (decAny False) ms (od_Content old);
     calls \<leftarrow> decField oaDeltaFields ''tool_calls'' (decSlice decStreamCall zeroStreamCall) ms (od_ToolCalls old);
     Some \<lparr>od_Role = role, od_Content = content, od_ToolCalls = calls\<rparr>
   })"

definition streamChoiceFields :: "string list" where
  "streamChoiceFields = [''index'', ''delta'', ''finish_reason'']"

definition decStreamChoice :: "stream_choice decoder" where
  "decStreamChoice = decStruct (\<lambda>ms old. do {
     index \<leftarrow> decField streamChoiceFields ''index'' decInt ms (sc_Index old);
     delta \<leftarrow> decField streamChoiceFields ''delta'' (decPtr decOaDelta zeroOaDelta) ms (sc_Delta old);
     finish \<leftarrow> decField streamChoiceFields ''finish_reason'' (decPtr decString []) ms (sc_FinishReason old);
     Some \<lparr>sc_Index = index, sc_Delta = delta, sc_FinishReason = finish\<rparr>
   })"

definition zeroChunk :: stream_chunk where
  "zeroChunk = \<lparr>sk_ID = [], sk_Object = [], sk_Created = 0, sk_Model = [], sk_Choices = [], sk_Usage = None\<rparr>"

definition chunkFields :: "string list" where
  "chunkFields = [''id'', ''object'', ''created'', ''model'', ''choices'', ''usage'']"

definition decChunk :: "stream_chunk decoder" where
  "decChunk = decStruct (\<lambda>ms old. do {
     chunkID \<leftarrow> decField chunkFields ''id'' decString ms (sk_ID old);
     object \<leftarrow> decField chunkFields ''object'' decString ms (sk_Object old);
     created \<leftarrow> decField chunkFields ''created'' decInt ms (sk_Created old);
     model \<leftarrow> decField chunkFields ''model'' decString ms (sk_Model old);
     choices \<leftarrow> decField chunkFields ''choices''
                 (decSlice decStreamChoice \<lparr>sc_Index = 0, sc_Delta = None, sc_FinishReason = None\<rparr>) ms (sk_Choices old);
     usage \<leftarrow> decField chunkFields ''usage'' (decPtr decOaUsage zeroOaUsage) ms (sk_Usage old);
     Some \<lparr>sk_ID = chunkID, sk_Object = object, sk_Created = created, sk_Model = model, sk_Choices = choices,
       sk_Usage = usage\<rparr>
   })"

text \<open>The error of a chunk: a struct with the one field \<open>error\<close>, whose one field is \<open>message\<close>.\<close>

definition decChunkError :: "string option decoder" where
  "decChunkError = decStruct (\<lambda>ms old. decField [''error''] ''error''
     (decPtr (decStruct (\<lambda>es old. decField [''message''] ''message'' decString es old)) []) ms old)"

definition streamCallText :: "stream_tool_call \<Rightarrow> string" where
  "streamCallText c = objText ([(''index'', intText (ost_Index c))] @
     omitIf (ost_ID c = []) ''id'' (quoteString (ost_ID c)) @
     omitIf (ost_Type c = []) ''type'' (quoteString (ost_Type c)) @
     [(''function'', functionCallText (ost_Function c))])"

definition oaDeltaText :: "oa_stream_delta \<Rightarrow> string" where
  "oaDeltaText d = objText (omitIf (od_Role d = []) ''role'' (quoteString (od_Role d)) @
     omitIf (od_Content d = JNull) ''content'' (anyText (od_Content d)) @
     omitIf (od_ToolCalls d = []) ''tool_calls'' (arrText (map streamCallText (od_ToolCalls d))))"

definition streamChoiceText :: "stream_choice \<Rightarrow> string" where
  "streamChoiceText c = objText ([(''index'', intText (sc_Index c))] @
     ptrMember ''delta'' oaDeltaText (sc_Delta c) @
     ptrMember ''finish_reason'' quoteString (sc_FinishReason c))"

definition chunkText :: "stream_chunk \<Rightarrow> string" where
  "chunkText c = objText ([(''id'', quoteString (sk_ID c)), (''object'', quoteString (sk_Object c)),
       (''created'', intText (sk_Created c)), (''model'', quoteString (sk_Model c)),
       (''choices'', arrText (map streamChoiceText (sk_Choices c)))] @
     ptrMember ''usage'' oaUsageText (sk_Usage c))"

section \<open>Decoding\<close>

record oa_decoder =
  dd_started :: bool
  dd_nextBlockIdx :: int
  dd_textOpen :: bool
  dd_textBlockIdx :: int
  dd_toolBlocks :: "(int, int) gomap"

type_synonym map_order = "(int, int) gomap \<Rightarrow> (int, int) gomap"

definition oaNewDecoder :: oa_decoder where
  "oaNewDecoder = \<lparr>dd_started = False, dd_nextBlockIdx = 0, dd_textOpen = False, dd_textBlockIdx = 0,
     dd_toolBlocks = []\<rparr>"

definition zeroDelta :: delta where
  "zeroDelta = \<lparr>dl_Text = [], dl_Thinking = [], dl_ThinkingSignature = [], dl_ToolUseID = [], dl_ToolName = [],
     dl_PartialInputJSON = []\<rparr>"

definition blockStart :: "int \<Rightarrow> block_type \<Rightarrow> delta option \<Rightarrow> event" where
  "blockStart i t d = (zeroEvent EventBlockStart)\<lparr>ev_BlockIndex := i, ev_BlockType := t, ev_Delta := d\<rparr>"

definition blockDelta :: "int \<Rightarrow> delta \<Rightarrow> event" where
  "blockDelta i d = (zeroEvent EventBlockDelta)\<lparr>ev_BlockIndex := i, ev_Delta := Some d\<rparr>"

definition blockStop :: "int \<Rightarrow> event" where
  "blockStop i = (zeroEvent EventBlockStop)\<lparr>ev_BlockIndex := i\<rparr>"

definition closeTextBlock :: "oa_decoder \<Rightarrow> event list \<times> oa_decoder" where
  "closeTextBlock d =
     (if \<not> dd_textOpen d then ([], d)
      else ([blockStop (dd_textBlockIdx d)], d\<lparr>dd_textOpen := False\<rparr>))"

definition closeOpenBlocks :: "map_order \<Rightarrow> oa_decoder \<Rightarrow> event list \<times> oa_decoder" where
  "closeOpenBlocks ord d =
     (case closeTextBlock d of
        (events, d1) \<Rightarrow>
          (events @ map (\<lambda>(i, b). blockStop b) (ord (dd_toolBlocks d1)), d1\<lparr>dd_toolBlocks := []\<rparr>))"

definition finish :: "map_order \<Rightarrow> oa_decoder \<Rightarrow> event list \<times> oa_decoder" where
  "finish ord d = (case closeOpenBlocks ord d of (events, d1) \<Rightarrow> (events @ [zeroEvent EventMessageStop], d1))"

definition openToolBlock :: "stream_tool_call \<Rightarrow> oa_decoder \<Rightarrow> event list \<times> int \<times> oa_decoder" where
  "openToolBlock tc d =
     (case map_of (dd_toolBlocks d) (ost_Index tc) of
        Some b \<Rightarrow> ([], b, d)
      | None \<Rightarrow>
          (case closeTextBlock d of
             (events, d1) \<Rightarrow>
               let b = dd_nextBlockIdx d1 in
               (events @ [blockStart b BlockToolUse
                  (Some (zeroDelta\<lparr>dl_ToolUseID := ost_ID tc, dl_ToolName := fc_Name (ost_Function tc)\<rparr>))],
                b, d1\<lparr>dd_nextBlockIdx := b + 1, dd_toolBlocks := mput (ost_Index tc) b (dd_toolBlocks d1)\<rparr>)))"

definition handleToolCallDelta :: "stream_tool_call \<Rightarrow> oa_decoder \<Rightarrow> event list \<times> oa_decoder" where
  "handleToolCallDelta tc d =
     (case openToolBlock tc d of
        (events, b, d1) \<Rightarrow>
          (events @ (if fc_Arguments (ost_Function tc) \<noteq> []
                     then [blockDelta b (zeroDelta\<lparr>dl_PartialInputJSON := fc_Arguments (ost_Function tc)\<rparr>)] else []),
           d1))"

fun handleToolCalls :: "stream_tool_call list \<Rightarrow> oa_decoder \<Rightarrow> event list \<times> oa_decoder" where
  "handleToolCalls [] d = ([], d)"
| "handleToolCalls (tc # tcs) d =
     (case handleToolCallDelta tc d of
        (events, d1) \<Rightarrow> (case handleToolCalls tcs d1 of (more_events, d2) \<Rightarrow> (events @ more_events, d2)))"

definition textDelta :: "string \<Rightarrow> oa_decoder \<Rightarrow> event list \<times> oa_decoder" where
  "textDelta text d =
     (if text = [] then ([], d)
      else if dd_textOpen d then ([blockDelta (dd_textBlockIdx d) (zeroDelta\<lparr>dl_Text := text\<rparr>)], d)
      else let b = dd_nextBlockIdx d in
           ([blockStart b BlockText None, blockDelta b (zeroDelta\<lparr>dl_Text := text\<rparr>)],
            d\<lparr>dd_textOpen := True, dd_textBlockIdx := b, dd_nextBlockIdx := b + 1\<rparr>))"

definition deltaEvents :: "oa_stream_delta option \<Rightarrow> oa_decoder \<Rightarrow> event list \<times> oa_decoder" where
  "deltaEvents delta d =
     (case delta of
        None \<Rightarrow> ([], d)
      | Some dl \<Rightarrow>
          (case textDelta (case contentToString (od_Content dl) of Inl e \<Rightarrow> [] | Inr s \<Rightarrow> s) d of
             (events, d1) \<Rightarrow>
               (case handleToolCalls (od_ToolCalls dl) d1 of (more_events, d2) \<Rightarrow> (events @ more_events, d2))))"

definition finishEvents :: "map_order \<Rightarrow> string option \<Rightarrow> oa_usage option \<Rightarrow> oa_decoder \<Rightarrow> event list \<times> oa_decoder" where
  "finishEvents ord reason usage d =
     (case reason of
        None \<Rightarrow> ([], d)
      | Some f \<Rightarrow>
          (case closeOpenBlocks ord d of
             (events, d1) \<Rightarrow>
               (events @ [(zeroEvent EventMessageDelta)\<lparr>ev_StopReason := oaStopReason f,
                  ev_Usage := oaUsageFromWire usage, ev_UsageFinal := (usage \<noteq> None)\<rparr>], d1)))"

definition startEvents :: "stream_chunk \<Rightarrow> oa_decoder \<Rightarrow> event list \<times> oa_decoder" where
  "startEvents chunk d =
     (if dd_started d then ([], d)
      else ([(zeroEvent EventMessageStart)\<lparr>ev_ID := sk_ID chunk, ev_Model := sk_Model chunk\<rparr>],
            d\<lparr>dd_started := True\<rparr>))"

definition chunkEvents :: "map_order \<Rightarrow> stream_chunk \<Rightarrow> oa_decoder \<Rightarrow> event list result \<times> oa_decoder" where
  "chunkEvents ord chunk d =
     (case startEvents chunk d of
        (starts, d1) \<Rightarrow>
          (case sk_Choices chunk of
             [] \<Rightarrow>
               (Inr (starts @ (case sk_Usage chunk of
                                 None \<Rightarrow> []
                               | Some u \<Rightarrow> [(zeroEvent EventMessageDelta)\<lparr>ev_Usage := oaUsageFromWire (Some u),
                                             ev_UsageFinal := True\<rparr>])), d1)
           | ch # chs \<Rightarrow>
               if chs \<noteq> [] \<or> sc_Index ch \<noteq> 0 then (Inl openaiErr, d1)
               else (case deltaEvents (sc_Delta ch) d1 of
                       (deltas, d2) \<Rightarrow>
                         (case finishEvents ord (sc_FinishReason ch) (sk_Usage chunk) d2 of
                            (ends, d3) \<Rightarrow> (Inr (starts @ deltas @ ends), d3)))))"

definition oaDecode :: "map_order \<Rightarrow> string \<Rightarrow> oa_decoder \<Rightarrow> event list result \<times> oa_decoder" where
  "oaDecode ord raw d =
     (case SSEData raw of
        None \<Rightarrow> if TrimSpace raw = [] then (Inr [], d) else (Inr [zeroEvent EventPing], d)
      | Some content \<Rightarrow>
          let line = TrimSpace content in
          if line = [] then (Inr [], d)
          else if line = ''[DONE]'' then (case finish ord d of (events, d1) \<Rightarrow> (Inr events, d1))
          else (case Unmarshal decChunk line zeroChunk of
                  None \<Rightarrow> (Inl openaiErr, d)
                | Some chunk \<Rightarrow>
                    (case Unmarshal decChunkError line None of
                       Some (Some message) \<Rightarrow> (Inr [(zeroEvent EventError)\<lparr>ev_Err := message\<rparr>], d)
                     | _ \<Rightarrow> chunkEvents ord chunk d)))"

section \<open>Encoding\<close>

record oa_encoder =
  en_id :: string
  en_model :: string
  en_usage :: Canonical.usage
  en_usageSent :: bool
  en_toolIndex :: "(int, int) gomap"
  en_nextTool :: int
  en_toolStarted :: "(int, bool) gomap"

definition oaNewEncoder :: oa_encoder where
  "oaNewEncoder = \<lparr>en_id = [], en_model = [], en_usage = zeroUsage, en_usageSent = False, en_toolIndex = [],
     en_nextTool = 0, en_toolStarted = []\<rparr>"

definition dataRecord :: "string \<Rightarrow> string" where
  "dataRecord b = ''data: '' @ b @ [LF, LF]"

definition mergeUsage :: "Canonical.usage option \<Rightarrow> oa_encoder \<Rightarrow> oa_encoder" where
  "mergeUsage given e =
     (case given of
        None \<Rightarrow> e
      | Some i \<Rightarrow>
          let u = en_usage e;
              u = (if u_InputTokensKnown i then u\<lparr>u_InputTokens := u_InputTokens i, u_InputTokensKnown := True\<rparr> else u);
              u = (if u_OutputTokensKnown i then u\<lparr>u_OutputTokens := u_OutputTokens i, u_OutputTokensKnown := True\<rparr> else u);
              u = (if u_TotalTokensKnown i
                   then u\<lparr>u_ReportedTotalTokens := u_ReportedTotalTokens i, u_TotalTokensKnown := True\<rparr> else u);
              u = (if u_CacheCreationInputTokens i > u_CacheCreationInputTokens u
                   then u\<lparr>u_CacheCreationInputTokens := u_CacheCreationInputTokens i\<rparr> else u);
              u = (if u_CacheReadInputTokens i > u_CacheReadInputTokens u
                   then u\<lparr>u_CacheReadInputTokens := u_CacheReadInputTokens i\<rparr> else u)
          in e\<lparr>en_usage := u\<rparr>)"

definition assignToolIndex :: "int \<Rightarrow> oa_encoder \<Rightarrow> int \<times> oa_encoder" where
  "assignToolIndex b e =
     (case map_of (en_toolIndex e) b of
        Some i \<Rightarrow> (i, e)
      | None \<Rightarrow> (en_nextTool e, e\<lparr>en_nextTool := en_nextTool e + 1, en_toolIndex := mput b (en_nextTool e) (en_toolIndex e)\<rparr>))"

definition markToolStarted :: "int \<Rightarrow> oa_encoder \<Rightarrow> oa_encoder" where
  "markToolStarted b e = e\<lparr>en_toolStarted := mput b True (en_toolStarted e)\<rparr>"

definition chunkOf :: "oa_encoder \<Rightarrow> stream_choice list \<Rightarrow> oa_usage option \<Rightarrow> stream_chunk" where
  "chunkOf e choices u = \<lparr>sk_ID = en_id e, sk_Object = ''chat.completion.chunk'', sk_Created = 0, sk_Model = en_model e,
     sk_Choices = choices, sk_Usage = u\<rparr>"

definition marshalChunk :: "oa_encoder \<Rightarrow> oa_stream_delta \<Rightarrow> string option \<Rightarrow> string" where
  "marshalChunk e delta fin =
     dataRecord (chunkText (chunkOf e [\<lparr>sc_Index = 0, sc_Delta = Some delta, sc_FinishReason = fin\<rparr>] None))"

definition marshalUsageChunk :: "oa_encoder \<Rightarrow> oa_usage option \<Rightarrow> string" where
  "marshalUsageChunk e u = dataRecord (chunkText (chunkOf e [] u))"

text \<open>The keys of a map are sorted.\<close>

definition marshalErrorEvent :: "string \<Rightarrow> string" where
  "marshalErrorEvent message =
     dataRecord (anyText (JObj [(''error'', JObj [(''message'', JStr message), (''type'', JStr ''api_error'')])]))"

definition encodeDelta :: "event \<Rightarrow> oa_encoder \<Rightarrow> string \<times> oa_encoder" where
  "encodeDelta ev e =
     (case ev_Delta ev of
        None \<Rightarrow> ([], e)
      | Some d \<Rightarrow>
          if dl_Text d \<noteq> [] then (marshalChunk e (zeroOaDelta\<lparr>od_Content := JStr (dl_Text d)\<rparr>) None, e)
          else if dl_PartialInputJSON d \<noteq> [] then
            (case assignToolIndex (ev_BlockIndex ev) e of
               (i, e1) \<Rightarrow>
                 (marshalChunk e1 (zeroOaDelta\<lparr>od_ToolCalls := [zeroStreamCall\<lparr>ost_Index := i,
                    ost_Function := \<lparr>fc_Name = [], fc_Arguments = dl_PartialInputJSON d\<rparr>\<rparr>]\<rparr>) None, e1))
          else ([], e))"

text \<open>The final usage is sent once.\<close>

definition finalUsageChunk :: "event \<Rightarrow> oa_encoder \<Rightarrow> string \<times> oa_encoder" where
  "finalUsageChunk ev e =
     (if ev_UsageFinal ev \<and> ev_Usage ev \<noteq> None \<and> \<not> en_usageSent e
      then (marshalUsageChunk e (oaWireUsage (en_usage e)), e\<lparr>en_usageSent := True\<rparr>)
      else ([], e))"

definition oaEncode :: "event \<Rightarrow> oa_encoder \<Rightarrow> string result \<times> oa_encoder" where
  "oaEncode ev e =
     (case ev_Type ev of
        EventMessageStart \<Rightarrow>
          let e1 = mergeUsage (ev_Usage ev) (e\<lparr>en_id := ev_ID ev, en_model := ev_Model ev\<rparr>)
          in (Inr (marshalChunk e1 (zeroOaDelta\<lparr>od_Role := ''assistant''\<rparr>) None), e1)
      | EventBlockStart \<Rightarrow>
          (case ev_Delta ev of
             Some d \<Rightarrow>
               if ev_BlockType ev = BlockToolUse then
                 (case assignToolIndex (ev_BlockIndex ev) e of
                    (i, e1) \<Rightarrow>
                      let e2 = markToolStarted (ev_BlockIndex ev) e1 in
                      (Inr (marshalChunk e2 (zeroOaDelta\<lparr>od_ToolCalls := [\<lparr>ost_Index = i, ost_ID = dl_ToolUseID d,
                         ost_Type = ''function'', ost_Function = \<lparr>fc_Name = dl_ToolName d, fc_Arguments = []\<rparr>\<rparr>]\<rparr>) None),
                       e2))
               else (Inr [], e)
           | None \<Rightarrow> (Inr [], e))
      | EventBlockDelta \<Rightarrow> (case encodeDelta ev e of (out, e1) \<Rightarrow> (Inr out, e1))
      | EventBlockStop \<Rightarrow> (Inr [], e)
      | EventMessageDelta \<Rightarrow>
          let e1 = mergeUsage (ev_Usage ev) e in
          if ev_StopReason ev = []
          then (case finalUsageChunk ev e1 of (out, e2) \<Rightarrow> (Inr out, e2))
          else let fin = marshalChunk e1 zeroOaDelta (Some (oaFinishReason (ev_StopReason ev))) in
               (case finalUsageChunk ev e1 of (out, e2) \<Rightarrow> (Inr (fin @ out), e2))
      | EventMessageStop \<Rightarrow> (Inr (dataRecord ''[DONE]''), e)
      | EventError \<Rightarrow> (Inr (marshalErrorEvent (ev_Err ev)), e)
      | EventPing \<Rightarrow> (Inr [], e))"

end
