(* ===== verification/Anthropic.thy ===== *)
theory Anthropic
  imports JsonCodec ErrorRelay
begin

text \<open>
  The adapter of the Anthropic format, \<open>internal/adapter/anthropic\<close>: the wire types with their JSON form
  (\<open>types.go\<close>), blocks in both directions (\<open>block.go\<close>), requests (\<open>request.go\<close>), responses
  (\<open>response.go\<close>), usage (\<open>usage.go\<close>) and errors (\<open>error.go\<close>). The streams are in \<open>AnthropicStream\<close>. An
  error is \<open>ErrOther ''anthropic''\<close>.
\<close>

section \<open>Wire types\<close>

record an_image_source =
  as_Type :: string
  as_MediaType :: string
  as_Data :: string
  as_URL :: string

record cache_control =
  cc_Type :: string

text \<open>A field of type \<open>any\<close> holds a JSON value (\<open>JNull\<close> is nil) or the blocks that a request is built from.\<close>

datatype an_block = AnBlock
    (bl_Type: string)
    (bl_Text: string)
    (bl_Thinking: string)
    (bl_Signature: string)
    (bl_Source: "an_image_source option")
    (bl_ID: string)
    (bl_Name: string)
    (bl_Input: "string option")
    (bl_ToolUseID: string)
    (bl_Content: an_any)
    (bl_IsError: bool)
    (bl_CacheControl: "cache_control option")
  and an_any = AAny json | ABlocks "an_block list"

record an_message =
  am_Role :: string
  am_Content :: "an_block list"

record an_tool =
  at_Name :: string
  at_Description :: string
  at_InputSchema :: "(string, json) gomap option"

record an_tool_choice =
  atc_Type :: string
  atc_Name :: string

record messages_request =
  mq_Model :: string
  mq_System :: an_any
  mq_Messages :: "an_message list"
  mq_Tools :: "an_tool list"
  mq_ToolChoice :: "an_tool_choice option"
  mq_MaxTokens :: int
  mq_Temperature :: "float64 option"
  mq_TopP :: "float64 option"
  mq_StopSeqs :: "string list"
  mq_Stream :: bool
  mq_Metadata :: "(string, json) gomap option"

record an_usage =
  au_InputTokens :: "int option"
  au_OutputTokens :: "int option"
  au_CacheCreationInputTokens :: int
  au_CacheReadInputTokens :: int

text \<open>A nil slice of blocks is \<open>None\<close>.\<close>

record messages_response =
  mr_ID :: string
  mr_Type :: string
  mr_Role :: string
  mr_Model :: string
  mr_Content :: "an_block list option"
  mr_StopReason :: string
  mr_Usage :: "an_usage option"

section \<open>Reading the wire types\<close>

definition imageSourceFields :: "string list" where
  "imageSourceFields = [''type'', ''media_type'', ''data'', ''url'']"

definition decImageSource :: "an_image_source decoder" where
  "decImageSource = decStruct (\<lambda>ms old. do {
     kind \<leftarrow> decField imageSourceFields ''type'' decString ms (as_Type old);
     mediaType \<leftarrow> decField imageSourceFields ''media_type'' decString ms (as_MediaType old);
     payload \<leftarrow> decField imageSourceFields ''data'' decString ms (as_Data old);
     url \<leftarrow> decField imageSourceFields ''url'' decString ms (as_URL old);
     Some \<lparr>as_Type = kind, as_MediaType = mediaType, as_Data = payload, as_URL = url\<rparr>
   })"

definition decCacheControl :: "cache_control decoder" where
  "decCacheControl = decStruct (\<lambda>ms old. do {
     kind \<leftarrow> decField [''type''] ''type'' decString ms (cc_Type old);
     Some \<lparr>cc_Type = kind\<rparr>
   })"

definition zeroSource :: an_image_source where
  "zeroSource = \<lparr>as_Type = [], as_MediaType = [], as_Data = [], as_URL = []\<rparr>"

definition zeroAnBlock :: an_block where
  "zeroAnBlock = AnBlock [] [] [] [] None [] [] None [] (AAny JNull) False None"

definition blockFields :: "string list" where
  "blockFields = [''type'', ''text'', ''thinking'', ''signature'', ''source'', ''id'', ''name'', ''input'', ''tool_use_id'',
     ''content'', ''is_error'', ''cache_control'']"

definition decAnAny :: "an_any decoder" where
  "decAnAny raw old = map_option AAny (decodeAny False raw)"

definition decBlock :: "an_block decoder" where
  "decBlock = decStruct (\<lambda>ms old. do {
     kind \<leftarrow> decField blockFields ''type'' decString ms (bl_Type old);
     text \<leftarrow> decField blockFields ''text'' decString ms (bl_Text old);
     thinking \<leftarrow> decField blockFields ''thinking'' decString ms (bl_Thinking old);
     signature \<leftarrow> decField blockFields ''signature'' decString ms (bl_Signature old);
     source \<leftarrow> decField blockFields ''source'' (decPtr decImageSource zeroSource) ms (bl_Source old);
     callID \<leftarrow> decField blockFields ''id'' decString ms (bl_ID old);
     name \<leftarrow> decField blockFields ''name'' decString ms (bl_Name old);
     input \<leftarrow> decField blockFields ''input'' decRaw ms (bl_Input old);
     toolUseID \<leftarrow> decField blockFields ''tool_use_id'' decString ms (bl_ToolUseID old);
     content \<leftarrow> decField blockFields ''content'' decAnAny ms (bl_Content old);
     isError \<leftarrow> decField blockFields ''is_error'' decBool ms (bl_IsError old);
     cache \<leftarrow> decField blockFields ''cache_control'' (decPtr decCacheControl \<lparr>cc_Type = []\<rparr>) ms (bl_CacheControl old);
     Some (AnBlock kind text thinking signature source callID name input toolUseID content isError cache)
   })"

definition zeroTextBlock :: "string \<Rightarrow> an_block" where
  "zeroTextBlock text = AnBlock ''text'' text [] [] None [] [] None [] (AAny JNull) False None"

text \<open>\<open>messageContent.UnmarshalJSON\<close>: a string or an array of blocks.\<close>

definition decMessageContent :: "an_block list decoder" where
  "decMessageContent raw old =
     (let trimmed = TrimSpace raw in
      if trimmed = ''null'' then Some []
      else if startsWith (CHR 0x22) trimmed
      then map_option (\<lambda>text. [zeroTextBlock text]) (Unmarshal decString trimmed [])
      else Unmarshal (decSlice decBlock zeroAnBlock) trimmed [])"

definition decAnMessage :: "an_message decoder" where
  "decAnMessage = decStruct (\<lambda>ms old. do {
     role \<leftarrow> decField [''role'', ''content''] ''role'' decString ms (am_Role old);
     content \<leftarrow> decField [''role'', ''content''] ''content'' decMessageContent ms (am_Content old);
     Some \<lparr>am_Role = role, am_Content = content\<rparr>
   })"

definition anToolFields :: "string list" where
  "anToolFields = [''name'', ''description'', ''input_schema'']"

definition decAnTool :: "an_tool decoder" where
  "decAnTool = decStruct (\<lambda>ms old. do {
     name \<leftarrow> decField anToolFields ''name'' decString ms (at_Name old);
     description \<leftarrow> decField anToolFields ''description'' decString ms (at_Description old);
     schema \<leftarrow> decField anToolFields ''input_schema'' decMap ms (at_InputSchema old);
     Some \<lparr>at_Name = name, at_Description = description, at_InputSchema = schema\<rparr>
   })"

definition decAnToolChoice :: "an_tool_choice decoder" where
  "decAnToolChoice = decStruct (\<lambda>ms old. do {
     kind \<leftarrow> decField [''type'', ''name''] ''type'' decString ms (atc_Type old);
     name \<leftarrow> decField [''type'', ''name''] ''name'' decString ms (atc_Name old);
     Some \<lparr>atc_Type = kind, atc_Name = name\<rparr>
   })"

definition messagesFields :: "string list" where
  "messagesFields = [''model'', ''system'', ''messages'', ''tools'', ''tool_choice'', ''max_tokens'', ''temperature'',
     ''top_p'', ''stop_sequences'', ''stream'', ''metadata'']"

definition zeroMessagesRequest :: messages_request where
  "zeroMessagesRequest = \<lparr>mq_Model = [], mq_System = AAny JNull, mq_Messages = [], mq_Tools = [], mq_ToolChoice = None,
     mq_MaxTokens = 0, mq_Temperature = None, mq_TopP = None, mq_StopSeqs = [], mq_Stream = False, mq_Metadata = None\<rparr>"

definition decMessagesRequest :: "messages_request decoder" where
  "decMessagesRequest = decStruct (\<lambda>ms old. do {
     model \<leftarrow> decField messagesFields ''model'' decString ms (mq_Model old);
     system \<leftarrow> decField messagesFields ''system'' decAnAny ms (mq_System old);
     messages \<leftarrow> decField messagesFields ''messages'' (decSlice decAnMessage \<lparr>am_Role = [], am_Content = []\<rparr>) ms
                  (mq_Messages old);
     tools \<leftarrow> decField messagesFields ''tools''
                (decSlice decAnTool \<lparr>at_Name = [], at_Description = [], at_InputSchema = None\<rparr>) ms (mq_Tools old);
     toolChoice \<leftarrow> decField messagesFields ''tool_choice'' (decPtr decAnToolChoice \<lparr>atc_Type = [], atc_Name = []\<rparr>) ms
                    (mq_ToolChoice old);
     maxTokens \<leftarrow> decField messagesFields ''max_tokens'' decInt ms (mq_MaxTokens old);
     temperature \<leftarrow> decField messagesFields ''temperature'' (decPtr decFloat 0) ms (mq_Temperature old);
     topP \<leftarrow> decField messagesFields ''top_p'' (decPtr decFloat 0) ms (mq_TopP old);
     stop \<leftarrow> decField messagesFields ''stop_sequences'' (decSlice decString []) ms (mq_StopSeqs old);
     stream \<leftarrow> decField messagesFields ''stream'' decBool ms (mq_Stream old);
     metadata \<leftarrow> decField messagesFields ''metadata'' decMap ms (mq_Metadata old);
     Some \<lparr>mq_Model = model, mq_System = system, mq_Messages = messages, mq_Tools = tools, mq_ToolChoice = toolChoice,
       mq_MaxTokens = maxTokens, mq_Temperature = temperature, mq_TopP = topP, mq_StopSeqs = stop, mq_Stream = stream,
       mq_Metadata = metadata\<rparr>
   })"

text \<open>The second decoding of a request has the one field \<open>max_tokens\<close>.\<close>

definition decLimits :: "int option decoder" where
  "decLimits = decStruct (\<lambda>ms old. decField [''max_tokens''] ''max_tokens'' (decPtr decInt 0) ms old)"

definition anUsageFields :: "string list" where
  "anUsageFields = [''input_tokens'', ''output_tokens'', ''cache_creation_input_tokens'', ''cache_read_input_tokens'']"

definition zeroAnUsage :: an_usage where
  "zeroAnUsage = \<lparr>au_InputTokens = None, au_OutputTokens = None, au_CacheCreationInputTokens = 0,
     au_CacheReadInputTokens = 0\<rparr>"

definition decAnUsage :: "an_usage decoder" where
  "decAnUsage = decStruct (\<lambda>ms old. do {
     input \<leftarrow> decField anUsageFields ''input_tokens'' (decPtr decInt 0) ms (au_InputTokens old);
     output \<leftarrow> decField anUsageFields ''output_tokens'' (decPtr decInt 0) ms (au_OutputTokens old);
     created \<leftarrow> decField anUsageFields ''cache_creation_input_tokens'' decInt ms (au_CacheCreationInputTokens old);
     cached \<leftarrow> decField anUsageFields ''cache_read_input_tokens'' decInt ms (au_CacheReadInputTokens old);
     Some \<lparr>au_InputTokens = input, au_OutputTokens = output, au_CacheCreationInputTokens = created,
       au_CacheReadInputTokens = cached\<rparr>
   })"

definition anResponseFields :: "string list" where
  "anResponseFields = [''id'', ''type'', ''role'', ''model'', ''content'', ''stop_reason'', ''usage'']"

definition zeroMessagesResponse :: messages_response where
  "zeroMessagesResponse = \<lparr>mr_ID = [], mr_Type = [], mr_Role = [], mr_Model = [], mr_Content = None, mr_StopReason = [],
     mr_Usage = None\<rparr>"

definition decMessagesResponse :: "messages_response decoder" where
  "decMessagesResponse = decStruct (\<lambda>ms old. do {
     respID \<leftarrow> decField anResponseFields ''id'' decString ms (mr_ID old);
     kind \<leftarrow> decField anResponseFields ''type'' decString ms (mr_Type old);
     role \<leftarrow> decField anResponseFields ''role'' decString ms (mr_Role old);
     model \<leftarrow> decField anResponseFields ''model'' decString ms (mr_Model old);
     content \<leftarrow> decField anResponseFields ''content'' (decPtr (decSlice decBlock zeroAnBlock) []) ms (mr_Content old);
     stop \<leftarrow> decField anResponseFields ''stop_reason'' decString ms (mr_StopReason old);
     usage \<leftarrow> decField anResponseFields ''usage'' (decPtr decAnUsage zeroAnUsage) ms (mr_Usage old);
     Some \<lparr>mr_ID = respID, mr_Type = kind, mr_Role = role, mr_Model = model, mr_Content = content, mr_StopReason = stop,
       mr_Usage = usage\<rparr>
   })"

section \<open>Writing the wire types\<close>

text \<open>Only a raw message can fail to be written, when it is not valid JSON.\<close>

fun allOk :: "'a result list \<Rightarrow> 'a list result" where
  "allOk [] = Inr []"
| "allOk (r # rs) =
     (case r of
        Inl e \<Rightarrow> Inl e
      | Inr x \<Rightarrow> (case allOk rs of Inl e \<Rightarrow> Inl e | Inr xs \<Rightarrow> Inr (x # xs)))"

definition imageSourceText :: "an_image_source \<Rightarrow> string" where
  "imageSourceText s = objText ([(''type'', quoteString (as_Type s))] @
     omitIf (as_MediaType s = []) ''media_type'' (quoteString (as_MediaType s)) @
     omitIf (as_Data s = []) ''data'' (quoteString (as_Data s)) @
     omitIf (as_URL s = []) ''url'' (quoteString (as_URL s)))"

definition cacheControlText :: "cache_control \<Rightarrow> string" where
  "cacheControlText c = objText [(''type'', quoteString (cc_Type c))]"

definition inputMember :: "string option \<Rightarrow> (string \<times> string) list result" where
  "inputMember input =
     (case input of
        None \<Rightarrow> Inr []
      | Some raw \<Rightarrow> if raw = [] then Inr [] else map_sum id (\<lambda>t. [(''input'', t)]) (rawText raw))"

definition blockMembers :: "an_block \<Rightarrow> (string \<times> string) list \<Rightarrow> (string \<times> string) list \<Rightarrow> (string \<times> string) list" where
  "blockMembers b input content =
     [(''type'', quoteString (bl_Type b))] @
     omitIf (bl_Text b = []) ''text'' (quoteString (bl_Text b)) @
     omitIf (bl_Thinking b = []) ''thinking'' (quoteString (bl_Thinking b)) @
     omitIf (bl_Signature b = []) ''signature'' (quoteString (bl_Signature b)) @
     ptrMember ''source'' imageSourceText (bl_Source b) @
     omitIf (bl_ID b = []) ''id'' (quoteString (bl_ID b)) @
     omitIf (bl_Name b = []) ''name'' (quoteString (bl_Name b)) @
     input @
     omitIf (bl_ToolUseID b = []) ''tool_use_id'' (quoteString (bl_ToolUseID b)) @
     content @
     omitIf (\<not> bl_IsError b) ''is_error'' (boolText (bl_IsError b)) @
     ptrMember ''cache_control'' cacheControlText (bl_CacheControl b)"

fun blockText :: "an_block \<Rightarrow> string result" and blocksMember :: "an_any \<Rightarrow> (string \<times> string) list result" where
  "blockText (AnBlock kind text thinking signature source callID name input toolUseID content isError cache) =
     (case inputMember input of
        Inl e \<Rightarrow> Inl e
      | Inr inp \<Rightarrow>
          (case blocksMember content of
             Inl e \<Rightarrow> Inl e
           | Inr con \<Rightarrow>
               Inr (objText (blockMembers (AnBlock kind text thinking signature source callID name input toolUseID
                      content isError cache) inp con))))"
| "blocksMember (AAny j) = Inr (omitIf (j = JNull) ''content'' (anyText j))"
| "blocksMember (ABlocks bs) =
     (case allOk (map blockText bs) of
        Inl e \<Rightarrow> Inl e
      | Inr ts \<Rightarrow> Inr [(''content'', sliceText id ts)])"

definition anMessageText :: "an_message \<Rightarrow> string result" where
  "anMessageText m =
     (case allOk (map blockText (am_Content m)) of
        Inl e \<Rightarrow> Inl e
      | Inr ts \<Rightarrow> Inr (objText [(''role'', quoteString (am_Role m)), (''content'', sliceText id ts)]))"

definition schemaMember :: "string \<Rightarrow> (string, json) gomap option \<Rightarrow> (string \<times> string) list" where
  "schemaMember k m = (case m of None \<Rightarrow> [] | Some mm \<Rightarrow> omitIf (mm = []) k (anyText (JObj mm)))"

definition anToolText :: "an_tool \<Rightarrow> string" where
  "anToolText t = objText ([(''name'', quoteString (at_Name t))] @
     omitIf (at_Description t = []) ''description'' (quoteString (at_Description t)) @
     schemaMember ''input_schema'' (at_InputSchema t))"

definition anToolChoiceText :: "an_tool_choice \<Rightarrow> string" where
  "anToolChoiceText c = objText ([(''type'', quoteString (atc_Type c))] @
     omitIf (atc_Name c = []) ''name'' (quoteString (atc_Name c)))"

definition systemMember :: "an_any \<Rightarrow> (string \<times> string) list result" where
  "systemMember s =
     (case s of
        AAny j \<Rightarrow> Inr (omitIf (j = JNull) ''system'' (anyText j))
      | ABlocks bs \<Rightarrow> map_sum id (\<lambda>ts. [(''system'', sliceText id ts)]) (allOk (map blockText bs)))"

definition messagesRequestText :: "messages_request \<Rightarrow> string result" where
  "messagesRequestText q =
     (case systemMember (mq_System q) of
        Inl e \<Rightarrow> Inl e
      | Inr sys \<Rightarrow>
          (case allOk (map anMessageText (mq_Messages q)) of
             Inl e \<Rightarrow> Inl e
           | Inr msgs \<Rightarrow>
               Inr (objText ([(''model'', quoteString (mq_Model q))] @ sys @ [(''messages'', sliceText id msgs)] @
                 omitIf (mq_Tools q = []) ''tools'' (arrText (map anToolText (mq_Tools q))) @
                 ptrMember ''tool_choice'' anToolChoiceText (mq_ToolChoice q) @
                 [(''max_tokens'', intText (mq_MaxTokens q))] @
                 ptrMember ''temperature'' formatFloat (mq_Temperature q) @
                 ptrMember ''top_p'' formatFloat (mq_TopP q) @
                 omitIf (mq_StopSeqs q = []) ''stop_sequences'' (arrText (map quoteString (mq_StopSeqs q))) @
                 omitIf (\<not> mq_Stream q) ''stream'' (boolText (mq_Stream q)) @
                 schemaMember ''metadata'' (mq_Metadata q)))))"

definition anUsageText :: "an_usage \<Rightarrow> string" where
  "anUsageText u = objText (ptrMember ''input_tokens'' intText (au_InputTokens u) @
     ptrMember ''output_tokens'' intText (au_OutputTokens u) @
     omitIf (au_CacheCreationInputTokens u = 0) ''cache_creation_input_tokens'' (intText (au_CacheCreationInputTokens u)) @
     omitIf (au_CacheReadInputTokens u = 0) ''cache_read_input_tokens'' (intText (au_CacheReadInputTokens u)))"

definition messagesResponseText :: "messages_response \<Rightarrow> string result" where
  "messagesResponseText r =
     (case (case mr_Content r of None \<Rightarrow> Inr ''null'' | Some bs \<Rightarrow> map_sum id arrText (allOk (map blockText bs))) of
        Inl e \<Rightarrow> Inl e
      | Inr content \<Rightarrow>
          Inr (objText ([(''id'', quoteString (mr_ID r)), (''type'', quoteString (mr_Type r)),
              (''role'', quoteString (mr_Role r)), (''model'', quoteString (mr_Model r)), (''content'', content)] @
            omitIf (mr_StopReason r = []) ''stop_reason'' (quoteString (mr_StopReason r)) @
            ptrMember ''usage'' anUsageText (mr_Usage r))))"

section \<open>Blocks\<close>

definition anthropicErr :: goerr where
  "anthropicErr = ErrOther ''anthropic''"

definition imageToCanonical :: "an_image_source \<Rightarrow> image_source" where
  "imageToCanonical s = \<lparr>im_Type = as_Type s, im_URL = as_URL s, im_MediaType = as_MediaType s, im_Data = as_Data s\<rparr>"

definition imageToWire :: "image_source \<Rightarrow> an_image_source" where
  "imageToWire s = \<lparr>as_Type = im_Type s, as_MediaType = im_MediaType s, as_Data = im_Data s, as_URL = im_URL s\<rparr>"

definition cached :: "bool \<Rightarrow> content_block \<Rightarrow> content_block" where
  "cached c b = ContentBlock (cb_Type b) (cb_Text b) (cb_Image b) (cb_Thinking b) (cb_ThinkingSignature b) (cb_ToolUseID b)
     (cb_ToolName b) (cb_ToolInput b) (cb_ToolInputJSON b) (cb_ToolResultID b) (cb_ToolResult b) (cb_ToolResultError b) c"

definition thinkingBlock :: "string \<Rightarrow> string \<Rightarrow> content_block" where
  "thinkingBlock thinking signature = ContentBlock BlockThinking [] None thinking signature [] [] None None [] [] False False"

text \<open>\<open>blockToCanonical\<close> on every type but \<open>tool_result\<close>; a block of an unknown type keeps nothing.\<close>

definition plainToCanonical :: "an_block \<Rightarrow> content_block" where
  "plainToCanonical b = cached (bl_CacheControl b \<noteq> None)
     (if bl_Type b = ''text'' then textBlock (bl_Text b)
      else if bl_Type b = ''thinking'' then thinkingBlock (bl_Thinking b) (bl_Signature b)
      else if bl_Type b = ''image'' then imageBlock (map_option imageToCanonical (bl_Source b))
      else if bl_Type b = ''tool_use'' then SetToolInputJSON (bl_Input b) (toolUseBlock (bl_ID b) (bl_Name b))
      else newBlock [])"

text \<open>One item of the content of a tool result: text and images are kept.\<close>

definition resultItem :: "json \<Rightarrow> content_block list" where
  "resultItem item =
     (case Unmarshal decBlock (anyText item) zeroAnBlock of
        None \<Rightarrow> []
      | Some wire \<Rightarrow> if bl_Type wire = ''text'' \<or> bl_Type wire = ''image'' then [plainToCanonical wire] else [])"

definition toolResultContentToCanonical :: "json \<Rightarrow> content_block list" where
  "toolResultContentToCanonical content =
     (case content of
        JStr v \<Rightarrow> [textBlock v]
      | JArr items \<Rightarrow> concat (map resultItem items)
      | _ \<Rightarrow> [])"

definition anyOfWire :: "an_any \<Rightarrow> json" where
  "anyOfWire a = (case a of AAny j \<Rightarrow> j | ABlocks bs \<Rightarrow> JNull)"

definition blockToCanonical :: "an_block \<Rightarrow> content_block" where
  "blockToCanonical b =
     (if bl_Type b = ''tool_result''
      then cached (bl_CacheControl b \<noteq> None)
             (toolResultBlock (bl_ToolUseID b) (toolResultContentToCanonical (anyOfWire (bl_Content b))) (bl_IsError b))
      else plainToCanonical b)"

definition cacheMark :: "bool \<Rightarrow> cache_control option" where
  "cacheMark c = (if c then Some \<lparr>cc_Type = ''ephemeral''\<rparr> else None)"

fun canonicalToBlock :: "content_block \<Rightarrow> an_block" where
  "canonicalToBlock (ContentBlock kind text img thinking signature callID name input inputJSON resultID result isError c) =
     (if kind = BlockText then AnBlock ''text'' text [] [] None [] [] None [] (AAny JNull) False (cacheMark c)
      else if kind = BlockThinking
      then AnBlock ''thinking'' [] thinking signature None [] [] None [] (AAny JNull) False (cacheMark c)
      else if kind = BlockImage
      then AnBlock ''image'' [] [] [] (map_option imageToWire img) [] [] None [] (AAny JNull) False (cacheMark c)
      else if kind = BlockToolUse
      then AnBlock ''tool_use'' [] [] [] None callID name
             (Some (ToolInputBytes (ContentBlock kind text img thinking signature callID name input inputJSON resultID
                result isError c))) [] (AAny JNull) False (cacheMark c)
      else if kind = BlockToolResult
      then AnBlock ''tool_result'' [] [] [] None [] [] None resultID
             (case result of
                [b] \<Rightarrow> if cb_Type b = BlockText then AAny (JStr (cb_Text b)) else ABlocks (map canonicalToBlock result)
              | _ \<Rightarrow> ABlocks (map canonicalToBlock result))
             isError (cacheMark c)
      else AnBlock [] [] [] [] None [] [] None [] (AAny JNull) False (cacheMark c))"

section \<open>Requests\<close>

definition systemItem :: "json \<Rightarrow> content_block list" where
  "systemItem item =
     (case item of
        JObj m \<Rightarrow>
          if map_of m ''type'' = Some (JStr ''text'') then
            (case map_of m ''text'' of
               Some (JStr t) \<Rightarrow> [cached (mhas m ''cache_control'') (textBlock t)]
             | _ \<Rightarrow> [])
          else []
      | _ \<Rightarrow> [])"

definition parseSystem :: "json \<Rightarrow> content_block list" where
  "parseSystem v =
     (case v of
        JStr s \<Rightarrow> if s = [] then [] else [textBlock s]
      | JArr items \<Rightarrow> concat (map systemItem items)
      | _ \<Rightarrow> [])"

definition anParseToolChoice :: "an_tool_choice \<Rightarrow> tool_choice option" where
  "anParseToolChoice tc =
     (if atc_Type tc = ''auto'' then Some \<lparr>tc_Type = ToolChoiceAuto, tc_Name = []\<rparr>
      else if atc_Type tc = ''any'' then Some \<lparr>tc_Type = ToolChoiceAny, tc_Name = []\<rparr>
      else if atc_Type tc = ''none'' then Some \<lparr>tc_Type = ToolChoiceNone, tc_Name = []\<rparr>
      else if atc_Type tc = ''tool'' then Some \<lparr>tc_Type = ToolChoiceTool, tc_Name = atc_Name tc\<rparr>
      else None)"

definition anBuildToolChoice :: "tool_choice \<Rightarrow> an_tool_choice" where
  "anBuildToolChoice tc =
     (case tc_Type tc of
        ToolChoiceAuto \<Rightarrow> \<lparr>atc_Type = ''auto'', atc_Name = []\<rparr>
      | ToolChoiceAny \<Rightarrow> \<lparr>atc_Type = ''any'', atc_Name = []\<rparr>
      | ToolChoiceNone \<Rightarrow> \<lparr>atc_Type = ''none'', atc_Name = []\<rparr>
      | ToolChoiceTool \<Rightarrow> \<lparr>atc_Type = ''tool'', atc_Name = tc_Name tc\<rparr>)"

definition messageToCanonical :: "an_message \<Rightarrow> message" where
  "messageToCanonical m = \<lparr>ms_Role = (if am_Role m = ''assistant'' then RoleAssistant else RoleUser),
     ms_Content = map blockToCanonical (am_Content m)\<rparr>"

definition toolToCanonical :: "an_tool \<Rightarrow> tool" where
  "toolToCanonical t = \<lparr>tl_Name = at_Name t, tl_Description = at_Description t, tl_InputSchema = at_InputSchema t\<rparr>"

definition anParseRequest :: "string \<Rightarrow> request result" where
  "anParseRequest raw =
     (case Unmarshal decMessagesRequest raw zeroMessagesRequest of
        None \<Rightarrow> Inl anthropicErr
      | Some req \<Rightarrow>
          (case Unmarshal decLimits raw None of
             None \<Rightarrow> Inl anthropicErr
           | Some limit \<Rightarrow>
               if (case limit of None \<Rightarrow> False | Some n \<Rightarrow> n \<le> 0) then Inl anthropicErr
               else Inr \<lparr>rq_Model = mq_Model req, rq_System = parseSystem (anyOfWire (mq_System req)),
                      rq_Messages = map messageToCanonical (mq_Messages req),
                      rq_Tools = map toolToCanonical (mq_Tools req),
                      rq_ToolChoice = Option.bind (mq_ToolChoice req) anParseToolChoice, rq_MaxTokens = limit,
                      rq_Temperature = mq_Temperature req, rq_TopP = mq_TopP req, rq_Stop = mq_StopSeqs req,
                      rq_Stream = mq_Stream req, rq_Metadata = mq_Metadata req\<rparr>))"

text \<open>The messages of a request: the blocks of the instructions so far, the messages so far, and whether
  the conversation has started.\<close>

fun anBuildMessages :: "message list \<Rightarrow> an_block list \<Rightarrow> an_message list \<Rightarrow> bool \<Rightarrow> (an_block list \<times> an_message list) result" where
  "anBuildMessages [] sys out started = Inr (sys, out)"
| "anBuildMessages (m # ms) sys out started =
     (if ms_Role m = RoleSystem \<or> ms_Role m = RoleDeveloper then
        if started then Inl anthropicErr
        else anBuildMessages ms (sys @ map canonicalToBlock (ms_Content m)) out started
      else if ms_Role m = RoleUser \<or> ms_Role m = RoleAssistant then
        anBuildMessages ms sys
          (out @ [\<lparr>am_Role = ms_Role m, am_Content = map canonicalToBlock (ms_Content m)\<rparr>]) True
      else Inl anthropicErr)"

definition anBuildTool :: "tool \<Rightarrow> an_tool" where
  "anBuildTool t = \<lparr>at_Name = tl_Name t, at_Description = tl_Description t, at_InputSchema = tl_InputSchema t\<rparr>"

definition anBuildRequest :: "request \<Rightarrow> string result" where
  "anBuildRequest req =
     (case anBuildMessages (rq_Messages req) (map canonicalToBlock (rq_System req)) [] False of
        Inl e \<Rightarrow> Inl e
      | Inr (systemBlocks, messages) \<Rightarrow>
          messagesRequestText \<lparr>mq_Model = rq_Model req,
            mq_System = (if systemBlocks = [] then AAny JNull else ABlocks systemBlocks), mq_Messages = messages,
            mq_Tools = map anBuildTool (rq_Tools req), mq_ToolChoice = map_option anBuildToolChoice (rq_ToolChoice req),
            mq_MaxTokens = (case rq_MaxTokens req of None \<Rightarrow> 4096 | Some n \<Rightarrow> n),
            mq_Temperature = rq_Temperature req, mq_TopP = rq_TopP req, mq_StopSeqs = rq_Stop req,
            mq_Stream = rq_Stream req, mq_Metadata = rq_Metadata req\<rparr>)"

section \<open>Usage\<close>

definition anUsageFromWire :: "an_usage option \<Rightarrow> Canonical.usage option" where
  "anUsageFromWire w =
     map_option (\<lambda>u.
       let out = zeroUsage\<lparr>u_CacheCreationInputTokens := au_CacheCreationInputTokens u,
                   u_CacheReadInputTokens := au_CacheReadInputTokens u\<rparr>;
           out = (case au_InputTokens u of
                    None \<Rightarrow> out | Some n \<Rightarrow> out\<lparr>u_InputTokens := n, u_InputTokensKnown := True\<rparr>)
       in (case au_OutputTokens u of
             None \<Rightarrow> out | Some n \<Rightarrow> out\<lparr>u_OutputTokens := n, u_OutputTokensKnown := True\<rparr>)) w"

definition anWireUsage :: "Canonical.usage \<Rightarrow> an_usage option" where
  "anWireUsage u =
     (let out = \<lparr>au_InputTokens = (if u_InputTokensKnown u then Some (u_InputTokens u) else None),
                 au_OutputTokens = (if u_OutputTokensKnown u then Some (u_OutputTokens u) else None),
                 au_CacheCreationInputTokens = u_CacheCreationInputTokens u,
                 au_CacheReadInputTokens = u_CacheReadInputTokens u\<rparr>
      in if out = zeroAnUsage then None else Some out)"

section \<open>Responses\<close>

definition anStopReason :: "string \<Rightarrow> stop_reason" where
  "anStopReason r =
     (if r = ''end_turn'' then StopEndTurn else if r = ''max_tokens'' then StopMaxTokens
      else if r = ''tool_use'' then StopToolUse else if r = ''stop_sequence'' then StopStop
      else StopEndTurn)"

definition anWireStop :: "stop_reason \<Rightarrow> string" where
  "anWireStop r =
     (if r = StopEndTurn then ''end_turn'' else if r = StopMaxTokens then ''max_tokens''
      else if r = StopToolUse then ''tool_use'' else if r = StopStop then ''stop_sequence''
      else ''end_turn'')"

definition anParseResponse :: "string \<Rightarrow> response result" where
  "anParseResponse raw =
     (case Unmarshal decMessagesResponse raw zeroMessagesResponse of
        None \<Rightarrow> Inl anthropicErr
      | Some resp \<Rightarrow>
          Inr \<lparr>rs_ID = mr_ID resp, rs_Model = mr_Model resp, rs_Role = RoleAssistant,
            rs_Content = map blockToCanonical (case mr_Content resp of None \<Rightarrow> [] | Some bs \<Rightarrow> bs),
            rs_StopReason = anStopReason (mr_StopReason resp),
            rs_Usage = (case anUsageFromWire (mr_Usage resp) of None \<Rightarrow> zeroUsage | Some u \<Rightarrow> u)\<rparr>)"

definition anBuildResponse :: "response \<Rightarrow> string result" where
  "anBuildResponse resp =
     messagesResponseText \<lparr>mr_ID = rs_ID resp, mr_Type = ''message'', mr_Role = ''assistant'', mr_Model = rs_Model resp,
       mr_Content = (if rs_Content resp = [] then None else Some (map canonicalToBlock (rs_Content resp))),
       mr_StopReason = anWireStop (rs_StopReason resp), mr_Usage = anWireUsage (rs_Usage resp)\<rparr>"

section \<open>Errors\<close>

record an_error_body =
  ae_Type :: string
  ae_Message :: string

record an_error_envelope =
  av_Type :: string
  av_Error :: an_error_body
  av_RequestID :: string

definition decAnErrorBody :: "an_error_body decoder" where
  "decAnErrorBody = decStruct (\<lambda>ms old. do {
     kind \<leftarrow> decField [''type'', ''message''] ''type'' decString ms (ae_Type old);
     message \<leftarrow> decField [''type'', ''message''] ''message'' decString ms (ae_Message old);
     Some \<lparr>ae_Type = kind, ae_Message = message\<rparr>
   })"

definition envelopeFields :: "string list" where
  "envelopeFields = [''type'', ''error'', ''request_id'']"

definition decAnErrorEnvelope :: "an_error_envelope decoder" where
  "decAnErrorEnvelope = decStruct (\<lambda>ms old. do {
     kind \<leftarrow> decField envelopeFields ''type'' decString ms (av_Type old);
     body \<leftarrow> decField envelopeFields ''error'' decAnErrorBody ms (av_Error old);
     requestID \<leftarrow> decField envelopeFields ''request_id'' decString ms (av_RequestID old);
     Some \<lparr>av_Type = kind, av_Error = body, av_RequestID = requestID\<rparr>
   })"

definition anParseError :: "string \<Rightarrow> error_response option result" where
  "anParseError raw =
     (case Unmarshal decAnErrorEnvelope raw
             \<lparr>av_Type = [], av_Error = \<lparr>ae_Type = [], ae_Message = []\<rparr>, av_RequestID = []\<rparr> of
        None \<Rightarrow> Inl anthropicErr
      | Some v \<Rightarrow>
          if av_Type v \<noteq> [] \<and> av_Type v \<noteq> ''error'' then Inl anthropicErr
          else if ae_Message (av_Error v) = [] then Inl anthropicErr
          else Inr (Some \<lparr>er_Type = (if ae_Type (av_Error v) = [] then ''upstream_error'' else ae_Type (av_Error v)),
                 er_Message = ae_Message (av_Error v), er_Param = None, er_Code = None,
                 er_RequestID = av_RequestID v\<rparr>))"

definition anBuildError :: "error_response \<Rightarrow> string result" where
  "anBuildError e =
     Inr (objText ([(''type'', quoteString ''error''),
         (''error'', objText [(''type'', quoteString (er_Type e)), (''message'', quoteString (er_Message e))])] @
       omitIf (er_RequestID e = []) ''request_id'' (quoteString (er_RequestID e))))"

end
