(* ===== verification/AnthropicStream.thy ===== *)
theory AnthropicStream
  imports Anthropic Sse
begin

text \<open>
  The streams of the Anthropic format: \<open>stream_types.go\<close>, \<open>stream_decode.go\<close> and \<open>stream_encode.go\<close>. The
  events correspond to the canonical ones; decoder and encoder remember the type of each block.
\<close>

section \<open>Events\<close>

record an_stream_delta =
  ad_Text :: string
  ad_PartialJSON :: string
  ad_Thinking :: string
  ad_Signature :: string
  ad_StopReason :: string
  ad_StopSequence :: string

record an_stream_error =
  sx_Type :: string
  sx_Message :: string

record stream_event =
  se_Type :: string
  se_Message :: "messages_response option"
  se_Index :: int
  se_ContentBlock :: "an_block option"
  se_Delta :: "an_stream_delta option"
  se_Usage :: "an_usage option"
  se_Error :: "an_stream_error option"

definition anDeltaFields :: "string list" where
  "anDeltaFields = [''text'', ''partial_json'', ''thinking'', ''signature'', ''stop_reason'', ''stop_sequence'']"

definition zeroAnDelta :: an_stream_delta where
  "zeroAnDelta = \<lparr>ad_Text = [], ad_PartialJSON = [], ad_Thinking = [], ad_Signature = [], ad_StopReason = [],
     ad_StopSequence = []\<rparr>"

definition decAnDelta :: "an_stream_delta decoder" where
  "decAnDelta = decStruct (\<lambda>ms old. do {
     text \<leftarrow> decField anDeltaFields ''text'' decString ms (ad_Text old);
     partial \<leftarrow> decField anDeltaFields ''partial_json'' decString ms (ad_PartialJSON old);
     thinking \<leftarrow> decField anDeltaFields ''thinking'' decString ms (ad_Thinking old);
     signature \<leftarrow> decField anDeltaFields ''signature'' decString ms (ad_Signature old);
     reason \<leftarrow> decField anDeltaFields ''stop_reason'' decString ms (ad_StopReason old);
     sequence \<leftarrow> decField anDeltaFields ''stop_sequence'' decString ms (ad_StopSequence old);
     Some \<lparr>ad_Text = text, ad_PartialJSON = partial, ad_Thinking = thinking, ad_Signature = signature,
       ad_StopReason = reason, ad_StopSequence = sequence\<rparr>
   })"

definition decStreamError :: "an_stream_error decoder" where
  "decStreamError = decStruct (\<lambda>ms old. do {
     kind \<leftarrow> decField [''type'', ''message''] ''type'' decString ms (sx_Type old);
     message \<leftarrow> decField [''type'', ''message''] ''message'' decString ms (sx_Message old);
     Some \<lparr>sx_Type = kind, sx_Message = message\<rparr>
   })"

definition streamEventFields :: "string list" where
  "streamEventFields = [''type'', ''message'', ''index'', ''content_block'', ''delta'', ''usage'', ''error'']"

definition zeroStreamEvent :: stream_event where
  "zeroStreamEvent = \<lparr>se_Type = [], se_Message = None, se_Index = 0, se_ContentBlock = None, se_Delta = None,
     se_Usage = None, se_Error = None\<rparr>"

definition decStreamEvent :: "stream_event decoder" where
  "decStreamEvent = decStruct (\<lambda>ms old. do {
     kind \<leftarrow> decField streamEventFields ''type'' decString ms (se_Type old);
     message \<leftarrow> decField streamEventFields ''message'' (decPtr decMessagesResponse zeroMessagesResponse) ms (se_Message old);
     index \<leftarrow> decField streamEventFields ''index'' decInt ms (se_Index old);
     content \<leftarrow> decField streamEventFields ''content_block'' (decPtr decBlock zeroAnBlock) ms (se_ContentBlock old);
     delta \<leftarrow> decField streamEventFields ''delta'' (decPtr decAnDelta zeroAnDelta) ms (se_Delta old);
     usage \<leftarrow> decField streamEventFields ''usage'' (decPtr decAnUsage zeroAnUsage) ms (se_Usage old);
     err \<leftarrow> decField streamEventFields ''error'' (decPtr decStreamError \<lparr>sx_Type = [], sx_Message = []\<rparr>) ms (se_Error old);
     Some \<lparr>se_Type = kind, se_Message = message, se_Index = index, se_ContentBlock = content, se_Delta = delta,
       se_Usage = usage, se_Error = err\<rparr>
   })"

section \<open>Decoding\<close>

type_synonym block_types = "(int, block_type) gomap"

definition blockTypeAt :: "int \<Rightarrow> block_types \<Rightarrow> block_type" where
  "blockTypeAt i d = (case map_of d i of Some bt \<Rightarrow> bt | None \<Rightarrow> BlockText)"

definition wireBlockType :: "string \<Rightarrow> block_type" where
  "wireBlockType t =
     (if t = ''text'' then BlockText else if t = ''thinking'' then BlockThinking
      else if t = ''tool_use'' then BlockToolUse else if t = ''image'' then BlockImage else BlockText)"

definition emptyDelta :: delta where
  "emptyDelta = \<lparr>dl_Text = [], dl_Thinking = [], dl_ThinkingSignature = [], dl_ToolUseID = [], dl_ToolName = [],
     dl_PartialInputJSON = []\<rparr>"

definition decodeBlockDelta :: "stream_event \<Rightarrow> block_types \<Rightarrow> event" where
  "decodeBlockDelta ev d =
     (let out = (zeroEvent EventBlockDelta)\<lparr>ev_BlockIndex := se_Index ev\<rparr> in
      case se_Delta ev of
        None \<Rightarrow> out
      | Some dl \<Rightarrow>
          out\<lparr>ev_Delta := Some
            (if blockTypeAt (se_Index ev) d = BlockToolUse then emptyDelta\<lparr>dl_PartialInputJSON := ad_PartialJSON dl\<rparr>
             else if blockTypeAt (se_Index ev) d = BlockThinking
             then emptyDelta\<lparr>dl_Thinking := ad_Thinking dl, dl_ThinkingSignature := ad_Signature dl\<rparr>
             else emptyDelta\<lparr>dl_Text := ad_Text dl\<rparr>)\<rparr>)"

definition decodeMessageStart :: "stream_event \<Rightarrow> event" where
  "decodeMessageStart ev =
     (case se_Message ev of
        None \<Rightarrow> zeroEvent EventMessageStart
      | Some m \<Rightarrow> (zeroEvent EventMessageStart)\<lparr>ev_ID := mr_ID m, ev_Model := mr_Model m,
                    ev_Usage := anUsageFromWire (mr_Usage m)\<rparr>)"

definition decodeBlockStart :: "stream_event \<Rightarrow> block_types \<Rightarrow> event \<times> block_types" where
  "decodeBlockStart ev d =
     (let out = (zeroEvent EventBlockStart)\<lparr>ev_BlockIndex := se_Index ev\<rparr> in
      case se_ContentBlock ev of
        None \<Rightarrow> (out, mput (se_Index ev) BlockText d)
      | Some b \<Rightarrow>
          let bt = wireBlockType (bl_Type b) in
          (out\<lparr>ev_BlockType := bt,
               ev_Delta := (if bt = BlockToolUse
                            then Some (emptyDelta\<lparr>dl_ToolUseID := bl_ID b, dl_ToolName := bl_Name b\<rparr>) else None)\<rparr>,
           mput (se_Index ev) bt d))"

definition decodeMessageDelta :: "stream_event \<Rightarrow> event" where
  "decodeMessageDelta ev =
     (let reason = (case se_Delta ev of None \<Rightarrow> [] | Some dl \<Rightarrow> ad_StopReason dl);
          terminal = (reason \<noteq> []);
          out = (zeroEvent EventMessageDelta)\<lparr>ev_StopReason := (if terminal then anStopReason reason else [])\<rparr>
      in if se_Usage ev = None then out
         else out\<lparr>ev_Usage := anUsageFromWire (se_Usage ev), ev_UsageFinal := terminal\<rparr>)"

definition eventsOf :: "stream_event \<Rightarrow> block_types \<Rightarrow> event list \<times> block_types" where
  "eventsOf ev d =
     (if se_Type ev = ''message_start'' then ([decodeMessageStart ev], d)
      else if se_Type ev = ''content_block_start''
      then (case decodeBlockStart ev d of (out, d1) \<Rightarrow> ([out], d1))
      else if se_Type ev = ''content_block_delta'' then ([decodeBlockDelta ev d], d)
      else if se_Type ev = ''content_block_stop''
      then ([(zeroEvent EventBlockStop)\<lparr>ev_BlockIndex := se_Index ev\<rparr>], d)
      else if se_Type ev = ''message_delta'' then ([decodeMessageDelta ev], d)
      else if se_Type ev = ''message_stop'' then ([zeroEvent EventMessageStop], d)
      else if se_Type ev = ''ping'' then ([zeroEvent EventPing], d)
      else if se_Type ev = ''error''
      then ([(zeroEvent EventError)\<lparr>ev_Err := (case se_Error ev of None \<Rightarrow> [] | Some e \<Rightarrow> sx_Message e)\<rparr>], d)
      else ([], d))"

definition anDecode :: "string \<Rightarrow> block_types \<Rightarrow> event list result \<times> block_types" where
  "anDecode raw d =
     (case SSEData raw of
        None \<Rightarrow> if raw = [] then (Inr [], d) else (Inr [zeroEvent EventPing], d)
      | Some line \<Rightarrow>
          if line = [] then (Inr [], d)
          else (case Unmarshal decStreamEvent line zeroStreamEvent of
                  None \<Rightarrow> (Inl anthropicErr, d)
                | Some ev \<Rightarrow> (case eventsOf ev d of (events, d1) \<Rightarrow> (Inr events, d1))))"

section \<open>Encoding\<close>

text \<open>A payload is a map: its keys are sorted.\<close>

definition sse :: "string \<Rightarrow> (string \<times> string) list \<Rightarrow> string" where
  "sse name payload = ''event: '' @ name @ [LF] @ ''data: '' @ objText (sort_key fst payload) @ [LF, LF]"

definition startBlockPayload :: "event \<Rightarrow> string" where
  "startBlockPayload ev =
     (if ev_BlockType ev = BlockToolUse then
        objText (sort_key fst ([(''type'', quoteString ''tool_use''), (''input'', ''{}'')] @
          (case ev_Delta ev of
             None \<Rightarrow> []
           | Some d \<Rightarrow> [(''id'', quoteString (dl_ToolUseID d)), (''name'', quoteString (dl_ToolName d))])))
      else if ev_BlockType ev = BlockThinking
      then objText (sort_key fst [(''type'', quoteString ''thinking''), (''thinking'', quoteString [])])
      else objText (sort_key fst [(''type'', quoteString ''text''), (''text'', quoteString [])]))"

definition deltaPayload :: "event \<Rightarrow> block_types \<Rightarrow> string option" where
  "deltaPayload ev types =
     (case ev_Delta ev of
        None \<Rightarrow> None
      | Some d \<Rightarrow>
          Some (objText (sort_key fst
            (if blockTypeAt (ev_BlockIndex ev) types = BlockToolUse
             then [(''type'', quoteString ''input_json_delta''), (''partial_json'', quoteString (dl_PartialInputJSON d))]
             else if blockTypeAt (ev_BlockIndex ev) types = BlockThinking then
               (if dl_ThinkingSignature d \<noteq> []
                then [(''type'', quoteString ''signature_delta''), (''signature'', quoteString (dl_ThinkingSignature d))]
                else [(''type'', quoteString ''thinking_delta''), (''thinking'', quoteString (dl_Thinking d))])
             else [(''type'', quoteString ''text_delta''), (''text'', quoteString (dl_Text d))]))))"

definition messageStartRecord :: "event \<Rightarrow> string result" where
  "messageStartRecord ev =
     map_sum id (\<lambda>msg. sse ''message_start'' [(''type'', quoteString ''message_start''), (''message'', msg)])
       (messagesResponseText \<lparr>mr_ID = ev_ID ev, mr_Type = ''message'', mr_Role = ''assistant'', mr_Model = ev_Model ev,
          mr_Content = Some [], mr_StopReason = [], mr_Usage = Option.bind (ev_Usage ev) anWireUsage\<rparr>)"

definition messageDeltaRecord :: "event \<Rightarrow> string" where
  "messageDeltaRecord ev =
     sse ''message_delta'' ([(''type'', quoteString ''message_delta''),
       (''delta'', objText (omitIf (ev_StopReason ev = []) ''stop_reason'' (quoteString (anWireStop (ev_StopReason ev)))))] @
       (case ev_Usage ev of
          None \<Rightarrow> []
        | Some u \<Rightarrow> omitIf (\<not> u_OutputTokensKnown u) ''usage'' (objText [(''output_tokens'', intText (u_OutputTokens u))])))"

definition anEncode :: "event \<Rightarrow> block_types \<Rightarrow> string result \<times> block_types" where
  "anEncode ev types =
     (case ev_Type ev of
        EventMessageStart \<Rightarrow> (messageStartRecord ev, types)
      | EventBlockStart \<Rightarrow>
          (Inr (sse ''content_block_start'' [(''type'', quoteString ''content_block_start''),
             (''index'', intText (ev_BlockIndex ev)), (''content_block'', startBlockPayload ev)]),
           mput (ev_BlockIndex ev) (ev_BlockType ev) types)
      | EventBlockDelta \<Rightarrow>
          (case deltaPayload ev types of
             None \<Rightarrow> (Inr [], types)
           | Some delta \<Rightarrow>
               (Inr (sse ''content_block_delta'' [(''type'', quoteString ''content_block_delta''),
                  (''index'', intText (ev_BlockIndex ev)), (''delta'', delta)]), types))
      | EventBlockStop \<Rightarrow>
          (Inr (sse ''content_block_stop'' [(''type'', quoteString ''content_block_stop''),
             (''index'', intText (ev_BlockIndex ev))]), types)
      | EventMessageDelta \<Rightarrow> (Inr (messageDeltaRecord ev), types)
      | EventMessageStop \<Rightarrow> (Inr (sse ''message_stop'' [(''type'', quoteString ''message_stop'')]), types)
      | EventPing \<Rightarrow> (Inr (sse ''ping'' [(''type'', quoteString ''ping'')]), types)
      | EventError \<Rightarrow>
          (Inr (sse ''error'' [(''type'', quoteString ''error''),
             (''error'', anyText (JObj [(''type'', JStr ''api_error''), (''message'', JStr (ev_Err ev))]))]), types))"

end
