(* ===== verification/Adapters.thy ===== *)
theory Adapters
  imports OpenAIStream AnthropicStream
begin

text \<open>
  The registry of \<open>internal/adapter/registry.go\<close> and the two adapters as values of the adapter interface
  that the forwarder takes (\<open>adapter.go\<close> of each package, \<open>all/all.go\<close>). A decoder or encoder state is
  one of the two kinds; a decoder is only ever given the state that it made.
\<close>

datatype decoder_state = OaDec oa_decoder | AnDec block_types
datatype encoder_state = OaEnc oa_encoder | AnEnc block_types

definition openaiAdapter :: "map_order \<Rightarrow> (decoder_state, encoder_state) adapter" where
  "openaiAdapter ord = \<lparr>ad_ParseRequest = oaParseRequest, ad_BuildRequest = oaBuildRequest,
     ad_ParseResponse = oaParseResponse, ad_BuildResponse = oaBuildResponse, ad_newDecoder = OaDec oaNewDecoder,
     ad_Decode = (\<lambda>raw d. case d of OaDec s \<Rightarrow> map_prod id OaDec (oaDecode ord raw s) | AnDec s \<Rightarrow> (Inl ErrPanic, d)),
     ad_newEncoder = OaEnc oaNewEncoder,
     ad_Encode = (\<lambda>ev e. case e of OaEnc s \<Rightarrow> map_prod id OaEnc (oaEncode ev s) | AnEnc s \<Rightarrow> (Inl ErrPanic, e)),
     ad_ErrorCodec = Some \<lparr>ec_ParseError = oaParseError, ec_BuildError = oaBuildError\<rparr>\<rparr>"

definition anthropicAdapter :: "(decoder_state, encoder_state) adapter" where
  "anthropicAdapter = \<lparr>ad_ParseRequest = anParseRequest, ad_BuildRequest = anBuildRequest,
     ad_ParseResponse = anParseResponse, ad_BuildResponse = anBuildResponse, ad_newDecoder = AnDec [],
     ad_Decode = (\<lambda>raw d. case d of AnDec s \<Rightarrow> map_prod id AnDec (anDecode raw s) | OaDec s \<Rightarrow> (Inl ErrPanic, d)),
     ad_newEncoder = AnEnc [],
     ad_Encode = (\<lambda>ev e. case e of AnEnc s \<Rightarrow> map_prod id AnEnc (anEncode ev s) | OaEnc s \<Rightarrow> (Inl ErrPanic, e)),
     ad_ErrorCodec = Some \<lparr>ec_ParseError = anParseError, ec_BuildError = anBuildError\<rparr>\<rparr>"

section \<open>The registry\<close>

type_synonym 'a adapter_map = "(string, 'a) gomap"

text \<open>A registration under an empty or a taken name panics.\<close>

definition Register :: "string \<Rightarrow> 'a \<Rightarrow> 'a adapter_map \<Rightarrow> 'a adapter_map result" where
  "Register name a m =
     (if name = [] then Inl ErrPanic
      else if mhas m name then Inl ErrPanic
      else Inr (mput name a m))"

definition GetAdapter :: "'a adapter_map \<Rightarrow> string \<Rightarrow> 'a option" where
  "GetAdapter m name = map_of m name"

definition MustGet :: "'a adapter_map \<Rightarrow> string \<Rightarrow> 'a result" where
  "MustGet m name = (case GetAdapter m name of Some a \<Rightarrow> Inr a | None \<Rightarrow> Inl (ErrOther ''adapter''))"

definition AdapterNames :: "'a adapter_map \<Rightarrow> string list" where
  "AdapterNames m = sort (map fst m)"

text \<open>The two \<open>init\<close> functions that \<open>all.go\<close> pulls in.\<close>

definition registerAll :: "map_order \<Rightarrow> (decoder_state, encoder_state) adapter adapter_map result" where
  "registerAll ord =
     (case Register ''anthropic'' anthropicAdapter [] of
        Inl e \<Rightarrow> Inl e
      | Inr m \<Rightarrow> Register ''openai'' (openaiAdapter ord) m)"

definition theRegistry :: "map_order \<Rightarrow> (decoder_state, encoder_state) registry" where
  "theRegistry ord = (case registerAll ord of Inl e \<Rightarrow> (\<lambda>_. None) | Inr m \<Rightarrow> GetAdapter m)"

end
