(* ===== verification/JsonProps.thy ===== *)
theory JsonProps
  imports JsonCodec
begin

text \<open>
  The texts that \<open>JsonCodec\<close> writes are read back as they were meant. A string of valid UTF-8 survives quoting and
  unquoting; the scanner accepts every text put together from quoted strings, integers, constants, objects and
  arrays (\<open>value_text\<close>), and splitting such a text at its separators gives its members again
  (\<open>rawMembers_obj\<close>, \<open>rawElements_arr\<close>). The last part applies the decoders to these texts, so that the round
  trip of a struct is a calculation with \<open>decField\<close>.
\<close>

section \<open>UTF-8\<close>

lemma runeLen_Nil [simp]: "runeLen [] = 0"
  by (simp add: runeLen_def)

lemma runeLen1: "byteVal a < 128 \<Longrightarrow> runeLen (a # as) = 1"
  by (simp add: runeLen_def)

lemma runeLen0: "128 \<le> byteVal a \<Longrightarrow> byteVal a < 194 \<or> 244 < byteVal a \<Longrightarrow> runeLen (a # as) = 0"
  by (auto simp: runeLen_def)

lemma runeLen2: "194 \<le> byteVal a \<Longrightarrow> byteVal a < 224 \<Longrightarrow>
    runeLen (a # as) = (case as of b # _ \<Rightarrow> if isCont b then 2 else 0 | _ \<Rightarrow> 0)"
  by (auto simp: runeLen_def)

lemma runeLen3: "224 \<le> byteVal a \<Longrightarrow> byteVal a < 240 \<Longrightarrow>
    runeLen (a # as) =
      (case as of
         b # c # _ \<Rightarrow>
           if isCont b \<and> isCont c \<and> (byteVal a = 224 \<longrightarrow> 160 \<le> byteVal b) \<and> (byteVal a = 237 \<longrightarrow> byteVal b \<le> 159)
           then 3 else 0
       | _ \<Rightarrow> 0)"
  by (simp add: runeLen_def Let_def)

lemma runeLen4: "240 \<le> byteVal a \<Longrightarrow> byteVal a \<le> 244 \<Longrightarrow>
    runeLen (a # as) =
      (case as of
         b # c # d # _ \<Rightarrow>
           if isCont b \<and> isCont c \<and> isCont d \<and> (byteVal a = 240 \<longrightarrow> 144 \<le> byteVal b) \<and> (byteVal a = 244 \<longrightarrow> byteVal b \<le> 143)
           then 4 else 0
       | _ \<Rightarrow> 0)"
  by (simp add: runeLen_def Let_def)

lemma isCont_high: "isCont c \<Longrightarrow> 128 \<le> byteVal c"
  by (simp add: isCont_def)

text \<open>The encoding at the head of a string: its length depends on its own bytes only, and the bytes of a
  long one are not ASCII.\<close>

lemma runeLen_cases:
  assumes "runeLen s \<noteq> 0"
  obtains (one) a t where "s = a # t" "byteVal a < 128" "runeLen s = 1"
    | (long) p t where "s = p @ t" "runeLen s = length p" "2 \<le> length p" "\<forall>c \<in> set p. 128 \<le> byteVal c"
        "\<And>t'. runeLen (p @ t') = length p"
proof -
  obtain a as where s: "s = a # as" using assms by (cases s) auto
  consider "byteVal a < 128" | "128 \<le> byteVal a" "byteVal a < 194 \<or> 244 < byteVal a" | "194 \<le> byteVal a" "byteVal a < 224"
    | "224 \<le> byteVal a" "byteVal a < 240" | "240 \<le> byteVal a" "byteVal a \<le> 244"
    by linarith
  then show thesis
  proof cases
    case 1
    then show thesis using one [OF s] s runeLen1 by simp
  next
    case 2
    then show thesis using assms s runeLen0 by simp
  next
    case 3
    then obtain b t where t: "as = b # t" "isCont b" using assms s by (auto simp: runeLen2 split: list.splits if_splits)
    show thesis by (rule long [of "[a, b]" t]) (use s t 3 isCont_high in \<open>auto simp: runeLen2\<close>)
  next
    case 4
    then obtain b c t where t: "as = b # c # t" "isCont b" "isCont c" "byteVal a = 224 \<longrightarrow> 160 \<le> byteVal b"
        "byteVal a = 237 \<longrightarrow> byteVal b \<le> 159"
      using assms s by (auto simp: runeLen3 split: list.splits if_splits)
    show thesis by (rule long [of "[a, b, c]" t]) (use s t 4 isCont_high in \<open>auto simp: runeLen3\<close>)
  next
    case 5
    then obtain b c d t where t: "as = b # c # d # t" "isCont b" "isCont c" "isCont d"
        "byteVal a = 240 \<longrightarrow> 144 \<le> byteVal b" "byteVal a = 244 \<longrightarrow> byteVal b \<le> 143"
      using assms s by (auto simp: runeLen4 split: list.splits if_splits)
    show thesis by (rule long [of "[a, b, c, d]" t]) (use s t 5 isCont_high in \<open>auto simp: runeLen4\<close>)
  qed
qed

function validUTF8 :: "string \<Rightarrow> bool" where
  "validUTF8 s = (if s = [] then True else if runeLen s = 0 then False else validUTF8 (drop (runeLen s) s))"
  by pat_completeness auto
termination
proof (relation "measure length")
  fix s :: string assume "s \<noteq> []" "runeLen s \<noteq> 0"
  then show "(drop (runeLen s) s, s) \<in> measure length" by (cases s) auto
qed simp

declare validUTF8.simps [simp del]

lemma validUTF8_Nil [simp]: "validUTF8 []"
  by (subst validUTF8.simps) simp

lemma validUTF8_ascii [simp]: "byteVal c < 128 \<Longrightarrow> validUTF8 (c # cs) = validUTF8 cs"
  by (subst validUTF8.simps) (simp add: runeLen1)

lemma validUTF8_rune:
  assumes "validUTF8 s" "s \<noteq> []"
  shows "runeLen s \<noteq> 0" "validUTF8 (drop (runeLen s) s)"
  using assms by (subst (asm) validUTF8.simps, simp split: if_splits)+

section \<open>Quoted strings\<close>

declare quoteFuel.simps(2) [simp del] unquoteFuel.simps(2) [simp del]

lemma byteVal_byte [simp]: "n < 256 \<Longrightarrow> byteVal (byte n) = n"
  by (simp add: byteVal_def byte_def)

lemma byte_byteVal [simp]: "byte (byteVal c) = c"
  by (simp add: byteVal_def byte_def)

lemma hexVal_hexLower:
  assumes "n < 16"
  shows "hexVal (hexLower n) = Some n"
proof -
  have "list_all (\<lambda>n. hexVal (hexLower n) = Some n) [0, 1, 2, 3, 4, 5, 6, 7, 8, 9, 10, 11, 12, 13, 14, 15]" by code_simp
  moreover have "n \<in> set [0, 1, 2, 3, 4, 5, 6, 7, 8, 9, 10, 11, 12, 13, 14, 15]" using assms by (auto simp: less_Suc_eq numeral_nat)
  ultimately show ?thesis by (simp only: list_all_iff)
qed

lemma hex4_escape:
  assumes "n < 65536"
  shows "hex4 (tl (tl (unicodeEscape n)) @ t) = Some n"
proof -
  define m where "m = n div 16"
  define k where "k = m div 16"
  have d: "n div 256 = k" "n div 4096 = k div 16" by (simp_all add: m_def k_def flip: div_mult2_eq)
  have "n = 16 * m + n mod 16" "m = 16 * k + m mod 16" "k = 16 * (k div 16) + k mod 16" by (simp_all add: m_def k_def)
  moreover have top: "k div 16 < 16" using assms unfolding m_def k_def by (simp add: less_mult_imp_div_less flip: div_mult2_eq)
  ultimately have "n div 4096 * 4096 + n div 256 mod 16 * 256 + n div 16 mod 16 * 16 + n mod 16 = n"
    unfolding d m_def [symmetric] by linarith
  then show ?thesis using top by (simp add: unicodeEscape_def hexVal_hexLower d(2) [symmetric])
qed


text \<open>What is special in a string literal.\<close>

lemma quoteByte_cases:
  assumes "byteVal c < 128"
  obtains (plain) "quoteByte c = [c]" "c \<noteq> CHR 0x22" "c \<noteq> CHR 0x5C" "32 \<le> byteVal c"
    | (simple) d where "quoteByte c = [CHR 0x5C, d]" "simpleEscape d = c" "d \<noteq> CHR ''u''"
        "d \<in> {CHR ''b'', CHR ''f'', CHR ''n'', CHR ''r'', CHR ''t'', CHR 0x5C, CHR ''/'', CHR 0x22}"
    | (escape) "quoteByte c = unicodeEscape (byteVal c)"
proof (cases "byteVal c < 32 \<or> isHTMLByte c \<or> c = CHR 0x22 \<or> c = CHR 0x5C")
  case False
  then have "c \<noteq> byte 8" "c \<noteq> byte 12" "c \<noteq> LF" "c \<noteq> CR" "c \<noteq> byte 9" by (auto simp: LF_def CR_def)
  then show thesis using False plain by (auto simp: quoteByte_def)
next
  case True
  show thesis
  proof (cases "c = CHR 0x22 \<or> c = CHR 0x5C")
    case True
    then show thesis by (intro simple [of c]) (auto simp: quoteByte_def simpleEscape_def)
  next
    case False
    consider "c = byte 8" | "c = byte 12" | "c = LF" | "c = CR" | "c = byte 9"
      | "c \<noteq> byte 8" "c \<noteq> byte 12" "c \<noteq> LF" "c \<noteq> CR" "c \<noteq> byte 9" by blast
    then show thesis
    proof cases
      case 1 then show thesis using simple [of "CHR ''b''"] False by (auto simp: quoteByte_def simpleEscape_def)
    next
      case 2 then show thesis using simple [of "CHR ''f''"] False by (auto simp: quoteByte_def simpleEscape_def byte_def)
    next
      case 3 then show thesis using simple [of "CHR ''n''"] False by (auto simp: quoteByte_def simpleEscape_def byte_def LF_def)
    next
      case 4 then show thesis using simple [of "CHR ''r''"] False by (auto simp: quoteByte_def simpleEscape_def byte_def LF_def CR_def)
    next
      case 5 then show thesis using simple [of "CHR ''t''"] False by (auto simp: quoteByte_def simpleEscape_def byte_def LF_def CR_def)
    next
      case 6 then show thesis using escape True False by (auto simp: quoteByte_def)
    qed
  qed
qed

text \<open>One step of the quoting of a valid string: an ASCII byte, a line separator, or the bytes of a rune.\<close>

lemma quoteFuel_step:
  assumes "validUTF8 s" "s \<noteq> []"
  obtains (ascii) c t where "s = c # t" "byteVal c < 128" "\<And>n. quoteFuel (Suc n) s = quoteByte c @ quoteFuel n t" "validUTF8 t"
    | (sep) m t where "s = [byte 226, byte 128, byte (168 + m)] @ t" "m < 2"
        "\<And>n. quoteFuel (Suc n) s = unicodeEscape (m + 8232) @ quoteFuel n t" "validUTF8 t"
    | (rune) p t where "s = p @ t" "p \<noteq> []" "\<forall>c \<in> set p. 128 \<le> byteVal c" "\<And>t'. runeLen (p @ t') = length p"
        "\<And>n. quoteFuel (Suc n) s = p @ quoteFuel n t" "validUTF8 t"
proof (rule runeLen_cases [OF validUTF8_rune(1) [OF assms]])
  fix a t assume a: "s = a # t" "byteVal a < 128" "runeLen s = 1"
  then show thesis using ascii [of a t] validUTF8_rune(2) [OF assms] by (simp add: quoteFuel.simps)
next
  fix p t
  assume p: "s = p @ t" "runeLen s = length p" "2 \<le> length p" "\<forall>c \<in> set p. 128 \<le> byteVal c" "\<And>t'. runeLen (p @ t') = length p"
  have v: "validUTF8 t" using validUTF8_rune(2) [OF assms] p by simp
  obtain c cs where s: "s = c # cs" using assms(2) by (cases s) auto
  show thesis
  proof (cases "isLineSep s")
    case False
    then have "quoteFuel (Suc n) s = take (length p) s @ quoteFuel n (drop (length p) s)" for n
      using p(2,3) by (auto simp: s quoteFuel.simps Let_def)
    then have "quoteFuel (Suc n) s = p @ quoteFuel n t" for n by (simp add: p(1))
    then show thesis using rune [of p t] p(1,3,4,5) v by force
  next
    case True
    then obtain m t' where m: "s = [byte 226, byte 128, byte (168 + m)] @ t'" "m < 2"
    proof -
      from True consider "take 3 s = [byte 226, byte 128, byte 168]" | "take 3 s = [byte 226, byte 128, byte 169]"
        by (auto simp: isLineSep_def)
      then show thesis
        using that [of 0 "drop 3 s"] that [of 1 "drop 3 s"] append_take_drop_id [of 3 s] by cases auto
    qed
    have r: "runeLen s = 3" using m by (simp add: runeLen3 isCont_def)
    then have t: "t = t'" using p m by (metis append_eq_append_conv length_Cons list.size(3) numeral_3_eq_3)
    have "quoteFuel (Suc n) s = unicodeEscape (m + 8232) @ quoteFuel n t'" for n
      using True r m s by (simp add: quoteFuel.simps Let_def)
    then show thesis using sep [of m t'] m v t by auto
  qed
qed


lemma unquote_simple: "d \<noteq> CHR ''u'' \<Longrightarrow> unquoteFuel (Suc k) (CHR 0x5C # d # t) = simpleEscape d # unquoteFuel k t"
  by (simp add: unquoteFuel.simps)

lemma unquote_ascii: "c \<noteq> CHR 0x5C \<Longrightarrow> byteVal c < 128 \<Longrightarrow> unquoteFuel (Suc k) (c # t) = c # unquoteFuel k t"
  by (simp add: unquoteFuel.simps runeLen1)

lemma unquote_rune:
  assumes "p \<noteq> []" "hd p \<noteq> CHR 0x5C" "runeLen (p @ t) = length p"
  shows "unquoteFuel (Suc k) (p @ t) = p @ unquoteFuel k t"
  using assms by (cases p) (auto simp: unquoteFuel.simps Let_def)

lemma unicodeEscape_Cons: "unicodeEscape n = CHR 0x5C # CHR ''u'' # tl (tl (unicodeEscape n))"
  by (simp add: unicodeEscape_def)

lemma unquote_escape:
  assumes "n < 55296"
  shows "unquoteFuel (Suc k) (unicodeEscape n @ t) = encodeRune n @ unquoteFuel k t"
proof -
  have "hex4 (tl (tl (unicodeEscape n)) @ t) = Some n" using assms by (intro hex4_escape) simp
  then have "unescapeU (tl (tl (unicodeEscape n)) @ t) = (encodeRune n, 5)" using assms by (simp add: unescapeU_def)
  moreover have "drop 5 (CHR ''u'' # tl (tl (unicodeEscape n)) @ t) = t" by (simp add: unicodeEscape_def)
  ultimately show ?thesis by (subst unicodeEscape_Cons) (simp add: unquoteFuel.simps)
qed

lemma unquoteFuel_quote:
  assumes "validUTF8 s" "length s \<le> n" "length (quoteFuel n s) \<le> k"
  shows "unquoteFuel k (quoteFuel n s) = s"
  using assms
proof (induction n arbitrary: s k)
  case 0
  then show ?case by (cases k) (auto simp: unquoteFuel.simps)
next
  case (Suc n)
  show ?case
  proof (cases "s = []")
    case True
    then show ?thesis by (cases k) (auto simp: unquoteFuel.simps quoteFuel.simps)
  next
    case False
    with Suc.prems(1) show ?thesis
    proof (rule quoteFuel_step)
      fix c t assume a: "s = c # t" "byteVal c < 128" "\<And>n. quoteFuel (Suc n) s = quoteByte c @ quoteFuel n t" "validUTF8 t"
      note q = a(3) [of n]
      from a(2) show ?thesis
      proof (rule quoteByte_cases)
        assume b: "quoteByte c = [c]" "c \<noteq> CHR 0x22" "c \<noteq> CHR 0x5C" "32 \<le> byteVal c"
        then obtain k' where k: "k = Suc k'" using Suc.prems(3) q by (cases k) auto
        show ?thesis unfolding q b k using b a Suc k q by (simp add: unquote_ascii)
      next
        fix d assume b: "quoteByte c = [CHR 0x5C, d]" "simpleEscape d = c" "d \<noteq> CHR ''u''"
        then obtain k' where k: "k = Suc k'" using Suc.prems(3) q by (cases k) auto
        show ?thesis unfolding q b k using b a Suc k q by (simp add: unquote_simple)
      next
        assume b: "quoteByte c = unicodeEscape (byteVal c)"
        then obtain k' where k: "k = Suc k'" using Suc.prems(3) q by (cases k) (auto simp: unicodeEscape_def)
        have "length (quoteFuel n t) \<le> k'" using Suc.prems(3) unfolding q b k by (simp add: unicodeEscape_def)
        then show ?thesis unfolding q b k using a Suc by (simp add: unquote_escape encodeRune_def)
      qed
    next
      fix m t assume a: "s = [byte 226, byte 128, byte (168 + m)] @ t" "m < 2"
        "\<And>n. quoteFuel (Suc n) s = unicodeEscape (m + 8232) @ quoteFuel n t" "validUTF8 t"
      note q = a(3) [of n]
      obtain k' where k: "k = Suc k'" using Suc.prems(3) unfolding q by (cases k) (auto simp: unicodeEscape_def)
      have "length (quoteFuel n t) \<le> k'" using Suc.prems(3) unfolding q k by (simp add: unicodeEscape_def)
      moreover have "encodeRune (m + 8232) = [byte 226, byte 128, byte (168 + m)]"
        using a(2) by (auto simp: encodeRune_def less_Suc_eq numeral_2_eq_2)
      ultimately show ?thesis unfolding q k using a Suc by (simp add: unquote_escape)
    next
      fix p t assume a: "s = p @ t" "p \<noteq> []" "\<forall>c \<in> set p. 128 \<le> byteVal c" "\<And>t'. runeLen (p @ t') = length p"
        "\<And>n. quoteFuel (Suc n) s = p @ quoteFuel n t" "validUTF8 t"
      note q = a(5) [of n]
      obtain c cs where p: "p = c # cs" using a(2) by (cases p) auto
      obtain k' where k: "k = Suc k'" using Suc.prems(3) unfolding q p by (cases k) auto
      have "hd p \<noteq> CHR 0x5C" using a(3) p by (auto simp: byteVal_def)
      moreover have "length t \<le> n" using Suc.prems(2) a(1) p by simp
      moreover have "length (quoteFuel n t) \<le> k'" using Suc.prems(3) unfolding q k p by simp
      ultimately show ?thesis unfolding q k using Suc.IH a(1,2,4,6) by (simp add: unquote_rune)
    qed
  qed
qed

lemma unquote_quoteString:
  assumes "validUTF8 s"
  shows "unquoteString (inner (quoteString s)) = s"
  using unquoteFuel_quote [OF assms order_refl order_refl] by (simp add: unquoteString_def inner_def quoteString_def)

section \<open>Texts inside a string literal\<close>

definition prepend :: "string \<Rightarrow> string list \<Rightarrow> string list" where
  "prepend w ps = (case ps of [] \<Rightarrow> [w] | q # qs \<Rightarrow> (w @ q) # qs)"

lemma prepend_prepend [simp]: "prepend v (prepend w ps) = prepend (v @ w) ps"
  by (simp add: prepend_def split: list.split)

lemma prepend_Cons [simp]: "prepend w (q # qs) = (w @ q) # qs"
  by (simp add: prepend_def)

definition atDepth :: "nat \<Rightarrow> split_state" where
  "atDepth d = \<lparr>ss_depth = d, ss_str = False, ss_esc = False\<rparr>"

definition inString :: "nat \<Rightarrow> split_state" where
  "inString d = \<lparr>ss_depth = d, ss_str = True, ss_esc = False\<rparr>"

lemma splitOuter_step:
  "\<not> (c = sep \<and> \<not> ss_str s \<and> ss_depth s = 0) \<Longrightarrow> splitOuter sep s (c # cs) = prepend [c] (splitOuter sep (splitNext c s) cs)"
  by (auto simp: prepend_def split: list.split)

text \<open>Bytes that keep both automata inside the literal.\<close>

definition literal :: "string \<Rightarrow> bool" where
  "literal w \<longleftrightarrow> (\<forall>st. scanAll w (InString, st) = Some (InString, st)) \<and>
     (\<forall>sep d rest. splitOuter sep (inString d) (w @ rest) = prepend w (splitOuter sep (inString d) rest))"

lemma splitOuter_ne [simp]: "splitOuter sep s cs \<noteq> []"
  by (induction cs arbitrary: s) (auto split: list.splits)

lemma prepend_Nil [simp]: "ps \<noteq> [] \<Longrightarrow> prepend [] ps = ps"
  by (cases ps) auto

lemma scanAll_append: "scanAll (xs @ ys) s = Option.bind (scanAll xs s) (scanAll ys)"
  by (induction xs arbitrary: s) (auto split: option.split)

lemma literal_Nil: "literal []"
  by (simp add: literal_def)

lemma literal_append: "literal v \<Longrightarrow> literal w \<Longrightarrow> literal (v @ w)"
  by (simp add: literal_def scanAll_append)

lemma literal_plain:
  assumes "c \<noteq> CHR 0x22" "c \<noteq> CHR 0x5C" "32 \<le> byteVal c"
  shows "literal [c]"
  using assms by (auto simp: literal_def splitOuter_step splitNext_def inString_def simp del: splitOuter.simps(2))

lemma literal_high: "\<forall>c \<in> set p. 128 \<le> byteVal c \<Longrightarrow> literal p"
proof (induction p)
  case (Cons c p)
  then have "c \<noteq> CHR 0x22" "c \<noteq> CHR 0x5C" "32 \<le> byteVal c" by (auto simp: byteVal_def)
  then show ?case using literal_append [OF literal_plain [of c]] Cons by simp
qed (rule literal_Nil)

lemma literal_escape2:
  assumes "d \<in> {CHR ''b'', CHR ''f'', CHR ''n'', CHR ''r'', CHR ''t'', CHR 0x5C, CHR ''/'', CHR 0x22}"
  shows "literal [CHR 0x5C, d]"
  using assms by (auto simp: literal_def splitOuter_step splitNext_def inString_def simp del: splitOuter.simps(2))

lemma hexLower_plain:
  assumes "n < 16"
  shows "hexVal (hexLower n) \<noteq> None" "literal [hexLower n]"
proof -
  have "\<forall>n \<in> set [0, 1, 2, 3, 4, 5, 6, 7, 8, 9, 10, 11, 12, 13, 14, 15].
      hexLower n \<noteq> CHR 0x22 \<and> hexLower n \<noteq> CHR 0x5C \<and> 32 \<le> byteVal (hexLower n)" by code_simp
  moreover have "n \<in> set [0, 1, 2, 3, 4, 5, 6, 7, 8, 9, 10, 11, 12, 13, 14, 15]" using assms by (auto simp: less_Suc_eq numeral_nat)
  ultimately have "hexLower n \<noteq> CHR 0x22 \<and> hexLower n \<noteq> CHR 0x5C \<and> 32 \<le> byteVal (hexLower n)"
    by (rule bspec)
  then show "literal [hexLower n]" by (simp add: literal_plain)
  show "hexVal (hexLower n) \<noteq> None" using hexVal_hexLower [OF assms] by simp
qed

lemma literal_unicode: "literal (unicodeEscape n)"
proof -
  define hs where "hs = map hexLower [n div 4096 mod 16, n div 256 mod 16, n div 16 mod 16, n mod 16]"
  have u: "unicodeEscape n = [CHR 0x5C, CHR ''u''] @ hs" by (simp add: unicodeEscape_def hs_def)
  have "literal [hexLower (n div 4096 mod 16)]" "literal [hexLower (n div 256 mod 16)]"
    "literal [hexLower (n div 16 mod 16)]" "literal [hexLower (n mod 16)]"
    by (simp_all add: hexLower_plain)
  then have hs: "splitOuter sep (inString d) (hs @ rest) = prepend hs (splitOuter sep (inString d) rest)" for sep d rest
    unfolding hs_def list.map using literal_append [of "[_]"] by (auto simp: literal_def)
  have "scanAll (unicodeEscape n) (InString, st) = Some (InString, st)" for st
    using hexLower_plain(1) by (auto simp: unicodeEscape_def)
  moreover have "splitOuter sep (inString d) (unicodeEscape n @ rest) = prepend (unicodeEscape n) (splitOuter sep (inString d) rest)" for sep d rest
    unfolding u using hs [of sep d rest]
    by (simp add: splitOuter_step splitNext_def inString_def del: splitOuter.simps(2))
  ultimately show ?thesis by (simp add: literal_def)
qed

text \<open>None of it breaks a line.\<close>

definition oneLine :: "string \<Rightarrow> bool" where
  "oneLine p \<longleftrightarrow> (\<forall>c \<in> set p. c \<noteq> LF \<and> c \<noteq> CR)"

lemma oneLine_append [simp]: "oneLine (p @ q) \<longleftrightarrow> oneLine p \<and> oneLine q"
  by (auto simp: oneLine_def)

lemma oneLine_Cons [simp]: "oneLine (c # q) \<longleftrightarrow> c \<noteq> LF \<and> c \<noteq> CR \<and> oneLine q"
  by (auto simp: oneLine_def)

lemma oneLine_Nil [simp]: "oneLine []"
  by (simp add: oneLine_def)

lemma byteVal_line: "32 \<le> byteVal c \<Longrightarrow> c \<noteq> LF \<and> c \<noteq> CR"
  by (auto simp: LF_def CR_def)

lemma oneLine_unicode: "oneLine (unicodeEscape n)"
proof -
  have "\<forall>n \<in> set [0, 1, 2, 3, 4, 5, 6, 7, 8, 9, 10, 11, 12, 13, 14, 15]. 32 \<le> byteVal (hexLower n)" by code_simp
  moreover have "m \<in> set [0, 1, 2, 3, 4, 5, 6, 7, 8, 9, 10, 11, 12, 13, 14, 15]" if "m < 16" for m :: nat
    using that by (auto simp: less_Suc_eq numeral_nat)
  ultimately have "m < 16 \<Longrightarrow> hexLower m \<noteq> LF \<and> hexLower m \<noteq> CR" for m
    using byteVal_line bspec by blast
  then have "hexLower (m mod 16) \<noteq> LF \<and> hexLower (m mod 16) \<noteq> CR" for m by simp
  moreover have "CHR 0x5C \<noteq> LF" "CHR 0x5C \<noteq> CR" "CHR ''u'' \<noteq> LF" "CHR ''u'' \<noteq> CR" by (simp_all add: LF_code CR_code)
  ultimately show ?thesis unfolding unicodeEscape_def oneLine_Cons using oneLine_Nil by blast
qed

lemma oneLine_quoteByte:
  assumes "byteVal c < 128"
  shows "oneLine (quoteByte c)"
  using assms
proof (cases rule: quoteByte_cases)
  case plain
  then show ?thesis using byteVal_line by simp
next
  case (simple d)
  then show ?thesis by (auto simp: LF_code CR_code)
qed (simp add: oneLine_unicode)

lemma oneLine_quoteFuel: "validUTF8 s \<Longrightarrow> length s \<le> n \<Longrightarrow> oneLine (quoteFuel n s)"
proof (induction n arbitrary: s)
  case (Suc n)
  show ?case
  proof (cases "s = []")
    case False
    from Suc.prems(1) False show ?thesis
    proof (rule quoteFuel_step)
      fix p t
      assume a: "s = p @ t" "p \<noteq> []" "\<forall>c \<in> set p. 128 \<le> byteVal c" "\<And>n. quoteFuel (Suc n) s = p @ quoteFuel n t" "validUTF8 t"
      have "length t \<le> n" using Suc.prems(2) a(1,2) by (cases p) auto
      moreover have "oneLine p" using a(3) byteVal_line by (force simp: oneLine_def)
      ultimately show ?thesis unfolding a(4) using Suc.IH a(5) by simp
    qed (use Suc in \<open>simp_all add: oneLine_quoteByte oneLine_unicode\<close>)
  qed (simp add: quoteFuel.simps)
qed simp

lemma literal_quoteByte: "byteVal c < 128 \<Longrightarrow> literal (quoteByte c)"
  by (erule quoteByte_cases) (auto simp: literal_plain literal_unicode intro: literal_escape2)

lemma literal_quoteFuel: "validUTF8 s \<Longrightarrow> length s \<le> n \<Longrightarrow> literal (quoteFuel n s)"
proof (induction n arbitrary: s)
  case 0
  then show ?case by (simp add: literal_Nil)
next
  case (Suc n)
  show ?case
  proof (cases "s = []")
    case True
    then show ?thesis by (simp add: quoteFuel.simps literal_Nil)
  next
    case False
    from Suc.prems(1) False show ?thesis
    proof (rule quoteFuel_step)
      fix p t
      assume a: "s = p @ t" "p \<noteq> []" "\<forall>c \<in> set p. 128 \<le> byteVal c" "\<And>n. quoteFuel (Suc n) s = p @ quoteFuel n t" "validUTF8 t"
      have "length t \<le> n" using Suc.prems(2) a(1,2) by (cases p) auto
      then show ?thesis unfolding a(4) using Suc.IH a(3,5) by (simp add: literal_append literal_high)
    qed (use Suc in \<open>simp_all add: literal_append literal_quoteByte literal_unicode\<close>)
  qed
qed


lemma literal_quoted: "validUTF8 s \<Longrightarrow> literal (quoteFuel (length s) s)"
  by (rule literal_quoteFuel) auto

section \<open>Texts of values\<close>

text \<open>A separator or bracket that may follow a value, or the space that ends the input.\<close>

definition follower :: "char \<Rightarrow> bool" where
  "follower c \<longleftrightarrow> c = CHR '','' \<or> c = CHR ''}'' \<or> c = CHR '']'' \<or> c = CHR '' ''"

text \<open>The text of one JSON value of nesting depth at most \<open>k\<close>, without white space around it: the scanner
  reads it, and splitting at a comma or a colon goes past it.\<close>

definition reads :: "nat \<Rightarrow> string \<Rightarrow> bool" where
  "reads k p \<longleftrightarrow> (\<forall>st. length st + k \<le> maxNestingDepth \<longrightarrow>
     (\<exists>s. scanAll p (BeginValue, st) = Some s \<and> (\<forall>c. follower c \<longrightarrow> scanStep c s = scanStep c (EndValue, st))))"

definition passes :: "string \<Rightarrow> bool" where
  "passes p \<longleftrightarrow> (\<forall>sep d rest. sep = CHR '','' \<or> sep = CHR '':'' \<longrightarrow>
     splitOuter sep (atDepth d) (p @ rest) = prepend p (splitOuter sep (atDepth d) rest))"

definition tight :: "string \<Rightarrow> bool" where
  "tight p \<longleftrightarrow> p \<noteq> [] \<and> \<not> isSpaceJSON (hd p) \<and> \<not> isSpaceJSON (last p) \<and> hd p \<noteq> CHR '']''"

definition value_text :: "nat \<Rightarrow> string \<Rightarrow> bool" where
  "value_text k p \<longleftrightarrow> reads k p \<and> passes p \<and> tight p \<and> oneLine p"

lemma value_text_mono: "value_text k p \<Longrightarrow> k \<le> m \<Longrightarrow> value_text m p"
  by (auto simp: value_text_def reads_def)

lemma dropWhile_hd: "xs \<noteq> [] \<Longrightarrow> \<not> P (hd xs) \<Longrightarrow> dropWhile P xs = xs"
  by (cases xs) auto

lemma trimJSON_tight: "tight p \<Longrightarrow> trimJSON p = p"
  by (simp add: tight_def trimJSON_def dropWhile_hd hd_rev)

lemma value_text_valid:
  assumes "value_text k p" "k \<le> maxNestingDepth"
  shows "validJSON p"
proof -
  obtain s where "scanAll p (BeginValue, []) = Some s" "scanStep (CHR '' '') s = scanStep (CHR '' '') (EndValue, [])"
    using assms by (force simp: value_text_def reads_def follower_def)
  then show ?thesis by (simp add: validJSON_def scanAll_append stateEndValue_def stateEndTop_def isSpaceJSON_def)
qed

lemma tight_quote: "tight (quoteString s)"
  by (simp add: tight_def quoteString_def isSpaceJSON_def LF_code CR_code byte_def char_of_def)

lemma value_text_quote:
  assumes "validUTF8 s"
  shows "value_text 0 (quoteString s)"
proof -
  note l = literal_quoted [OF assms]
  have "reads 0 (quoteString s)"
    using l by (simp add: reads_def quoteString_def literal_def scanAll_append stateBeginValue_def isSpaceJSON_def
        LF_code CR_code byte_def char_of_def)
  moreover have "passes (quoteString s)"
    unfolding passes_def
  proof (intro allI impI)
    fix sep d rest assume sep: "sep = CHR '','' \<or> sep = CHR '':''"
    have "splitOuter sep (inString d) (quoteFuel (length s) s @ CHR 0x22 # rest) =
        prepend (quoteFuel (length s) s @ [CHR 0x22]) (splitOuter sep (atDepth d) rest)"
      using l sep by (auto simp: literal_def splitOuter_step splitNext_def inString_def atDepth_def simp del: splitOuter.simps(2))
    then show "splitOuter sep (atDepth d) (quoteString s @ rest) = prepend (quoteString s) (splitOuter sep (atDepth d) rest)"
      using sep by (auto simp: quoteString_def splitOuter_step splitNext_def inString_def atDepth_def simp del: splitOuter.simps(2))
  qed
  moreover have "oneLine (quoteString s)"
    using oneLine_quoteFuel [OF assms] by (simp add: quoteString_def LF_code CR_code)
  ultimately show ?thesis by (simp add: value_text_def tight_quote)
qed

section \<open>Numbers and constants\<close>

definition plainChar :: "char \<Rightarrow> bool" where
  "plainChar c \<longleftrightarrow> c \<notin> {CHR '','', CHR '':'', CHR 0x22, CHR ''{'', CHR ''['', CHR ''}'', CHR '']''} \<and> \<not> isSpaceJSON c"

lemma passes_plain: "list_all plainChar p \<Longrightarrow> passes p"
proof (induction p)
  case (Cons c p)
  then show ?case
    by (auto simp: passes_def plainChar_def splitOuter_step splitNext_def atDepth_def simp del: splitOuter.simps(2))
qed (simp add: passes_def)

lemma tight_plain: "list_all plainChar p \<Longrightarrow> p \<noteq> [] \<Longrightarrow> tight p"
  by (cases p rule: rev_cases) (auto simp: tight_def plainChar_def hd_append list_all_iff)

lemma oneLine_plain: "list_all plainChar p \<Longrightarrow> oneLine p"
  by (auto simp: oneLine_def list_all_iff plainChar_def isSpaceJSON_def)

lemmas plain_text = passes_plain tight_plain oneLine_plain

lemma plainChar_digit:
  assumes "n < 10"
  shows "plainChar (digitChar n)" "isDigitByte (digitChar n)" "digitChar n \<notin> {CHR ''t'', CHR ''f'', CHR ''n'', CHR 0x22, CHR ''{'', CHR ''['', CHR ''-''}"
    "digitChar n = CHR ''0'' \<longleftrightarrow> n = 0"
proof -
  have "\<forall>n \<in> set [0, 1, 2, 3, 4, 5, 6, 7, 8, 9]. plainChar (digitChar n) \<and> isDigitByte (digitChar n) \<and>
      digitChar n \<notin> {CHR ''t'', CHR ''f'', CHR ''n'', CHR 0x22, CHR ''{'', CHR ''['', CHR ''-''} \<and> (digitChar n = CHR ''0'' \<longleftrightarrow> n = 0)"
    by code_simp
  moreover have "n \<in> set [0, 1, 2, 3, 4, 5, 6, 7, 8, 9]" using assms by (auto simp: less_Suc_eq numeral_nat)
  ultimately have "plainChar (digitChar n) \<and> isDigitByte (digitChar n) \<and>
      digitChar n \<notin> {CHR ''t'', CHR ''f'', CHR ''n'', CHR 0x22, CHR ''{'', CHR ''['', CHR ''-''} \<and> (digitChar n = CHR ''0'' \<longleftrightarrow> n = 0)"
    by (rule bspec)
  then show "plainChar (digitChar n)" "isDigitByte (digitChar n)"
    "digitChar n \<notin> {CHR ''t'', CHR ''f'', CHR ''n'', CHR 0x22, CHR ''{'', CHR ''['', CHR ''-''}" "digitChar n = CHR ''0'' \<longleftrightarrow> n = 0"
    by blast+
qed

lemma natText_plain: "list_all plainChar (natText n)"
  using natText_digits [of _ n] plainChar_digit(1) by (auto simp: list_all_iff)

lemma scan_digits: "\<forall>c \<in> set ds. isDigitByte c \<Longrightarrow> scanAll ds (NumInt, st) = Some (NumInt, st)"
  by (induction ds) auto

text \<open>The first digit of a number other than 0 is not 0.\<close>

lemma natText_head:
  assumes "0 < n"
  obtains d ds where "natText n = digitChar d # ds" "0 < d" "d < 10" "\<forall>c \<in> set ds. isDigitByte c"
  using assms
proof (induction n arbitrary: thesis rule: natText.induct)
  case (1 n)
  show ?case
  proof (cases "n < 10")
    case True
    then have "natText n = [digitChar n]" by (subst natText.simps) simp
    then show ?thesis using "1.prems" True by simp
  next
    case False
    then have "0 < n div 10" by simp
    then obtain d ds where "natText (n div 10) = digitChar d # ds" "0 < d" "d < 10" "\<forall>c \<in> set ds. isDigitByte c"
      using "1.IH" [OF False] by blast
    moreover have "natText n = natText (n div 10) @ [digitChar (n mod 10)]" using False by (subst natText.simps) simp
    ultimately show ?thesis using "1.prems"(1) [of d "ds @ [digitChar (n mod 10)]"] plainChar_digit(2) [of "n mod 10"] by auto
  qed
qed

lemma digit_begins:
  assumes "0 < d" "d < 10"
  shows "scanStep (digitChar d) (BeginValue, st) = Some (NumInt, st)" "scanStep (digitChar d) (NumNeg, st) = Some (NumInt, st)"
  using plainChar_digit [OF assms(2)] assms(1) by (auto simp: stateBeginValue_def plainChar_def)

lemma number_follows: "follower c \<Longrightarrow> \<not> isDigitByte c" "follower c \<Longrightarrow> stateAfterInt c st = stateEndValue c st"
  by (auto simp: follower_def stateAfterInt_def isDigitByte_def byteVal_def)

lemma reads_natText: "reads 0 (natText n)"
proof (cases "n = 0")
  case True
  then have "natText n = ''0''" using plainChar_digit(4) [of 0] by (subst natText.simps) simp
  then show ?thesis by (simp add: number_follows reads_def stateBeginValue_def isSpaceJSON_def LF_code CR_code byte_def char_of_def)
next
  case False
  then obtain d ds where "natText n = digitChar d # ds" "0 < d" "d < 10" "\<forall>c \<in> set ds. isDigitByte c"
    using natText_head [of n] by blast
  then show ?thesis by (auto simp: number_follows reads_def digit_begins scan_digits simp del: scanStep.simps(1))
qed

lemma value_text_int: "value_text 0 (intText i)"
proof (cases "i < 0")
  case False
  then show ?thesis
    using reads_natText plain_text [OF natText_plain] by (simp add: intText_def value_text_def)
next
  case True
  then obtain d ds where t: "natText (nat (- i)) = digitChar d # ds" "0 < d" "d < 10" "\<forall>c \<in> set ds. isDigitByte c"
    using natText_head [of "nat (- i)"] by auto
  have "plainChar (CHR ''-'')" by code_simp
  then have plain: "list_all plainChar (intText i)" using True natText_plain [of "nat (- i)"] by (simp add: intText_def)
  moreover have "intText i = CHR ''-'' # digitChar d # ds" using True t by (simp add: intText_def)
  moreover from this have "reads 0 (intText i)" using t
    by (auto simp: number_follows reads_def stateBeginValue_def isSpaceJSON_def LF_code CR_code byte_def char_of_def digit_begins scan_digits
        simp del: scanStep.simps(9))
  moreover have "passes (intText i)" "tight (intText i)" "oneLine (intText i)"
    using plain_text [OF plain] \<open>intText i = _\<close> by simp_all
  ultimately show ?thesis by (simp add: value_text_def)
qed

lemma value_text_const: "t = ''null'' \<or> t = ''true'' \<or> t = ''false'' \<Longrightarrow> value_text 0 t"
proof -
  have "list_all plainChar ''null''" "list_all plainChar ''true''" "list_all plainChar ''false''" by code_simp+
  then have "passes t \<and> tight t \<and> oneLine t" if "t = ''null'' \<or> t = ''true'' \<or> t = ''false''" using that
    by (elim disjE) (metis plain_text list.distinct(1))+
  moreover have "reads 0 t" if "t = ''null'' \<or> t = ''true'' \<or> t = ''false''" using that
    by (auto simp: reads_def stateBeginValue_def isSpaceJSON_def LF_code CR_code byte_def char_of_def)
  ultimately show "t = ''null'' \<or> t = ''true'' \<or> t = ''false'' \<Longrightarrow> value_text 0 t" by (simp add: value_text_def)
qed

lemma value_text_bool: "value_text 0 (boolText b)"
  by (auto simp: boolText_def value_text_const)

section \<open>Objects and arrays\<close>

lemma passes_append: "passes p \<Longrightarrow> passes q \<Longrightarrow> passes (p @ q)"
  by (simp add: passes_def)

text \<open>Inside brackets a separator is passed too.\<close>

definition passesIn :: "string \<Rightarrow> bool" where
  "passesIn p \<longleftrightarrow> (\<forall>sep d rest. sep = CHR '','' \<or> sep = CHR '':'' \<longrightarrow>
     splitOuter sep (atDepth (Suc d)) (p @ rest) = prepend p (splitOuter sep (atDepth (Suc d)) rest))"

lemma passesIn_passes: "passes p \<Longrightarrow> passesIn p"
  by (simp add: passes_def passesIn_def)

lemma passesIn_append: "passesIn p \<Longrightarrow> passesIn q \<Longrightarrow> passesIn (p @ q)"
  by (simp add: passesIn_def)

lemma passesIn_Nil: "passesIn []"
  by (simp add: passesIn_def)

lemma passesIn_sep: "passesIn q \<Longrightarrow> passesIn (CHR '','' # q)" "passesIn q \<Longrightarrow> passesIn (CHR '':'' # q)"
  by (auto simp: passesIn_def splitOuter_step splitNext_def atDepth_def simp del: splitOuter.simps(2))

lemma passes_brackets:
  assumes "passesIn p"
  shows "passes (''{'' @ p @ ''}'')" "passes (''['' @ p @ '']'')"
proof -
  have "splitOuter sep (atDepth (Suc d)) (p @ b # rest) = prepend (p @ [b]) (splitOuter sep (atDepth d) rest)"
    if "sep = CHR '','' \<or> sep = CHR '':''" "b = CHR ''}'' \<or> b = CHR '']''" for sep d b rest
  proof -
    have "splitOuter sep (atDepth (Suc d)) (p @ b # rest) = prepend p (splitOuter sep (atDepth (Suc d)) (b # rest))"
      using assms that unfolding passesIn_def by blast
    then show ?thesis using that
      by (auto simp: splitOuter_step splitNext_def atDepth_def simp del: splitOuter.simps(2))
  qed
  note * = this
  have "splitNext (CHR ''{'') (atDepth d) = atDepth (Suc d)" "splitNext (CHR ''['') (atDepth d) = atDepth (Suc d)" for d
    by (simp_all add: splitNext_def atDepth_def)
  then show "passes (''{'' @ p @ ''}'')" "passes (''['' @ p @ '']'')"
    using * by (auto simp: passes_def splitOuter_step simp del: splitOuter.simps(2))
qed

lemma passesIn_join: "(\<And>p. p \<in> set ps \<Longrightarrow> passesIn p) \<Longrightarrow> passesIn (JoinBytes '','' ps)"
  by (induction "'',''" ps rule: JoinBytes.induct) (simp_all add: passesIn_Nil passesIn_append passesIn_sep)

text \<open>A member: a quoted key and the text of a value.\<close>

definition member_ok :: "nat \<Rightarrow> string \<times> string \<Rightarrow> bool" where
  "member_ok k m \<longleftrightarrow> validUTF8 (fst m) \<and> value_text k (snd m)"

lemma passes_member: "member_ok k m \<Longrightarrow> passesIn (memberText m)"
  using value_text_quote [of "fst m"]
  by (simp add: member_ok_def memberText_def value_text_def passesIn_append passesIn_sep passesIn_passes)

lemma scan_key:
  assumes "validUTF8 k" "s = BeginString \<or> s = BeginStringOrEmpty"
  shows "scanAll (quoteString k @ '':'' @ rest) (s, ParseObjectKey # st) = scanAll rest (BeginValue, ParseObjectValue # st)"
  using literal_quoted [OF assms(1)] assms(2)
  by (auto simp: quoteString_def literal_def scanAll_append stateBeginString_def stateEndValue_def isSpaceJSON_def
      LF_code CR_code byte_def char_of_def)

lemma scan_member:
  assumes "member_ok k m" "s = BeginString \<or> s = BeginStringOrEmpty" "length st + Suc k \<le> maxNestingDepth" "follower c"
  shows "scanAll (memberText m @ c # rest) (s, ParseObjectKey # st) =
    Option.bind (scanStep c (EndValue, ParseObjectValue # st)) (scanAll rest)"
proof -
  obtain s' where "scanAll (snd m) (BeginValue, ParseObjectValue # st) = Some s'"
    "scanStep c s' = scanStep c (EndValue, ParseObjectValue # st)"
    using assms by (force simp: member_ok_def value_text_def reads_def)
  then show ?thesis
    using scan_key [of "fst m" s "snd m @ c # rest" st] assms(1,2)
    by (simp add: memberText_def member_ok_def scanAll_append del: scanStep.simps split: option.split)
qed

lemma scan_members:
  assumes "\<forall>m \<in> set (m # ms). member_ok k m" "s = BeginString \<or> s = BeginStringOrEmpty" "length st + Suc k \<le> maxNestingDepth"
  shows "scanAll (JoinBytes '','' (map memberText (m # ms)) @ ''}'') (s, ParseObjectKey # st) = Some (popState (ParseObjectValue # st))"
  using assms
proof (induction ms arbitrary: m s)
  case Nil
  then show ?case
    using scan_member [of k m s st "CHR ''}''" "[]"]
    by (simp add: follower_def stateEndValue_def isSpaceJSON_def LF_code CR_code byte_def char_of_def)
next
  case (Cons m2 ms)
  have "scanAll (memberText m @ CHR '','' # JoinBytes '','' (map memberText (m2 # ms)) @ ''}'') (s, ParseObjectKey # st) =
      scanAll (JoinBytes '','' (map memberText (m2 # ms)) @ ''}'') (BeginString, ParseObjectKey # st)"
    using scan_member [of k m s st "CHR '',''"] Cons.prems
    by (simp add: follower_def stateEndValue_def isSpaceJSON_def LF_code CR_code byte_def char_of_def)
  then show ?case using Cons.IH [of m2 BeginString] Cons.prems by simp
qed

lemma popState_follows: "follower c \<Longrightarrow> scanStep c (popState (p # st)) = scanStep c (EndValue, st)"
  by (auto simp: popState_def stateEndValue_def)

lemma oneLine_join: "oneLine (JoinBytes '','' ps) \<longleftrightarrow> (\<forall>p \<in> set ps. oneLine p)"
  by (induction "'',''" ps rule: JoinBytes.induct) (auto simp: LF_code CR_code)

lemma oneLine_member: "member_ok k m \<Longrightarrow> oneLine (memberText m)"
  using value_text_quote [of "fst m"]
  by (auto simp: member_ok_def value_text_def memberText_def LF_code CR_code)

lemma value_text_obj:
  assumes "\<forall>m \<in> set ms. member_ok k m"
  shows "value_text (Suc k) (objText ms)"
proof -
  have "reads (Suc k) (objText ms)"
    unfolding reads_def
  proof (intro allI impI)
    fix st :: "parse_state list" assume d: "length st + Suc k \<le> maxNestingDepth"
    have "scanAll (objText ms) (BeginValue, st) = Some (popState (ParseObjectValue # st))"
    proof (cases ms)
      case Nil
      then show ?thesis using d
        by (simp add: objText_def stateBeginValue_def stateEndValue_def pushState_def isSpaceJSON_def LF_code CR_code byte_def char_of_def)
    next
      case (Cons m ms')
      then show ?thesis using d assms scan_members [of m ms' k BeginStringOrEmpty st]
        by (simp add: objText_def stateBeginValue_def pushState_def isSpaceJSON_def LF_code CR_code byte_def char_of_def
            del: list.map JoinBytes.simps)
    qed
    then show "\<exists>s. scanAll (objText ms) (BeginValue, st) = Some s \<and> (\<forall>c. follower c \<longrightarrow> scanStep c s = scanStep c (EndValue, st))"
      using popState_follows by blast
  qed
  moreover have "passesIn (JoinBytes '','' (map memberText ms))" using assms passes_member by (intro passesIn_join) auto
  then have "passes (objText ms)" unfolding objText_def by (rule passes_brackets)
  moreover have "tight (objText ms)"
    by (simp add: objText_def tight_def isSpaceJSON_def LF_code CR_code byte_def char_of_def)
  moreover have "oneLine (objText ms)"
    using assms oneLine_member by (auto simp: objText_def oneLine_join LF_code CR_code simp del: split_paired_All)
  ultimately show ?thesis by (simp add: value_text_def)
qed

lemma scan_element:
  assumes "value_text k e" "length st + Suc k \<le> maxNestingDepth" "follower c"
  shows "scanAll (e @ c # rest) (BeginValue, ParseArrayValue # st) =
    Option.bind (scanStep c (EndValue, ParseArrayValue # st)) (scanAll rest)"
proof -
  have "reads k e" using assms(1) by (simp add: value_text_def)
  then have "length (ParseArrayValue # st) + k \<le> maxNestingDepth \<longrightarrow>
      (\<exists>s. scanAll e (BeginValue, ParseArrayValue # st) = Some s \<and>
        (\<forall>c. follower c \<longrightarrow> scanStep c s = scanStep c (EndValue, ParseArrayValue # st)))"
    unfolding reads_def by blast
  then obtain s where "scanAll e (BeginValue, ParseArrayValue # st) = Some s"
    "scanStep c s = scanStep c (EndValue, ParseArrayValue # st)"
    using assms(2,3) by auto
  then show ?thesis by (simp add: scanAll_append del: scanStep.simps split: option.split)
qed

lemma scan_elements:
  assumes "\<forall>e \<in> set (e # es). value_text k e" "length st + Suc k \<le> maxNestingDepth"
  shows "scanAll (JoinBytes '','' (e # es) @ '']'') (BeginValue, ParseArrayValue # st) = Some (popState (ParseArrayValue # st))"
  using assms
proof (induction es arbitrary: e)
  case Nil
  then show ?case
    using scan_element [of k e st "CHR '']''" "[]"]
    by (simp add: follower_def stateEndValue_def isSpaceJSON_def LF_code CR_code byte_def char_of_def)
next
  case (Cons e2 es)
  have "scanAll (e @ CHR '','' # JoinBytes '','' (e2 # es) @ '']'') (BeginValue, ParseArrayValue # st) =
      scanAll (JoinBytes '','' (e2 # es) @ '']'') (BeginValue, ParseArrayValue # st)"
    using scan_element [of k e st "CHR '',''"] Cons.prems
    by (simp add: follower_def stateEndValue_def isSpaceJSON_def LF_code CR_code byte_def char_of_def del: JoinBytes.simps)
  then show ?case using Cons.IH [of e2] Cons.prems by simp
qed

text \<open>An array begins like a value, except that it may end at once.\<close>

lemma begins_element:
  assumes "tight e"
  shows "scanAll (e @ t) (BeginValueOrEmpty, st) = scanAll (e @ t) (BeginValue, st)"
  using assms by (cases e) (simp_all add: tight_def)

lemma JoinBytes_head: "e \<noteq> [] \<Longrightarrow> \<exists>t. JoinBytes sep (e # es) = e @ t"
  by (cases es) auto

lemma value_text_arr:
  assumes "\<forall>e \<in> set es. value_text k e"
  shows "value_text (Suc k) (arrText es)"
proof -
  have "reads (Suc k) (arrText es)"
    unfolding reads_def
  proof (intro allI impI)
    fix st :: "parse_state list" assume d: "length st + Suc k \<le> maxNestingDepth"
    have "scanAll (arrText es) (BeginValue, st) = Some (popState (ParseArrayValue # st))"
    proof (cases es)
      case Nil
      then show ?thesis using d
        by (simp add: arrText_def stateBeginValue_def stateEndValue_def pushState_def isSpaceJSON_def LF_code CR_code byte_def char_of_def)
    next
      case (Cons e es')
      then have e: "tight e" using assms by (simp add: value_text_def)
      then obtain t where t: "JoinBytes '','' (e # es') = e @ t" using JoinBytes_head [of e] by (auto simp: tight_def)
      have "scanAll (JoinBytes '','' (e # es') @ '']'') (BeginValueOrEmpty, ParseArrayValue # st) = Some (popState (ParseArrayValue # st))"
        using scan_elements [of e es' k st] assms d Cons begins_element [OF e] unfolding t by simp
      then show ?thesis using d Cons
        by (simp add: arrText_def stateBeginValue_def pushState_def isSpaceJSON_def LF_code CR_code byte_def char_of_def
            del: JoinBytes.simps)
    qed
    then show "\<exists>s. scanAll (arrText es) (BeginValue, st) = Some s \<and> (\<forall>c. follower c \<longrightarrow> scanStep c s = scanStep c (EndValue, st))"
      using popState_follows by blast
  qed
  moreover have "passesIn (JoinBytes '','' es)"
    using assms by (intro passesIn_join) (auto simp: value_text_def intro: passesIn_passes)
  then have "passes (arrText es)" unfolding arrText_def by (rule passes_brackets)
  moreover have "tight (arrText es)"
    by (simp add: arrText_def tight_def isSpaceJSON_def LF_code CR_code byte_def char_of_def)
  moreover have "oneLine (arrText es)"
    using assms by (simp add: arrText_def oneLine_join value_text_def LF_code CR_code)
  ultimately show ?thesis by (simp add: value_text_def)
qed

section \<open>Reading members and elements back\<close>

definition passesTo :: "char \<Rightarrow> string \<Rightarrow> bool" where
  "passesTo sep p \<longleftrightarrow> (\<forall>rest. splitOuter sep startState (p @ rest) = prepend p (splitOuter sep startState rest))"

lemma startState_depth: "startState = atDepth 0"
  by (simp add: startState_def atDepth_def)

lemma passes_to: "passes p \<Longrightarrow> sep = CHR '','' \<or> sep = CHR '':'' \<Longrightarrow> passesTo sep p"
  unfolding passes_def passesTo_def startState_depth by blast

lemma passesTo_member:
  assumes "member_ok k m"
  shows "passesTo (CHR '','') (memberText m)"
proof -
  have "passesTo (CHR '','') (quoteString (fst m))" "passesTo (CHR '','') (snd m)"
    using assms value_text_quote by (auto simp: member_ok_def value_text_def intro: passes_to)
  then show ?thesis
    by (simp add: memberText_def passesTo_def splitOuter_step startState_def splitNext_def del: splitOuter.simps(2))
qed

lemma split_one: "passesTo sep p \<Longrightarrow> splitOuter sep startState p = [p]"
  using append_Nil2 [of p] by (simp add: passesTo_def) (metis append_Nil2 prepend_Cons splitOuter.simps(1))

lemma split_join:
  assumes "\<forall>p \<in> set (p # ps). passesTo (CHR '','') p"
  shows "splitOuter (CHR '','') startState (JoinBytes '','' (p # ps)) = p # ps"
  using assms
proof (induction ps arbitrary: p)
  case Nil
  then show ?case by (simp add: split_one)
next
  case (Cons q ps)
  then have "splitOuter (CHR '','') startState (p @ CHR '','' # JoinBytes '','' (q # ps)) =
      prepend p (splitOuter (CHR '','') startState (CHR '','' # JoinBytes '','' (q # ps)))"
    by (simp add: passesTo_def del: JoinBytes.simps splitOuter.simps)
  also have "splitOuter (CHR '','') startState (CHR '','' # JoinBytes '','' (q # ps)) = [] # q # ps"
    using Cons by (simp add: startState_def del: JoinBytes.simps)
  finally show ?case by simp
qed

lemma trimJSON_starts:
  assumes "x \<noteq> []" "\<not> isSpaceJSON (hd x)"
  shows "trimJSON x \<noteq> []"
  using assms by (cases x) (auto simp: trimJSON_def dropWhile_eq_Nil_conv)

lemma tight_member: "member_ok k m \<Longrightarrow> tight (memberText m)"
  by (auto simp: member_ok_def value_text_def tight_def memberText_def quoteString_def isSpaceJSON_def LF_code CR_code byte_def char_of_def)

lemma parseMember_text:
  assumes "member_ok k m"
  shows "parseMember (memberText m) = m"
proof -
  have v: "validUTF8 (fst m)" "tight (snd m)" "passes (snd m)" using assms by (auto simp: member_ok_def value_text_def)
  then have "passesTo (CHR '':'') (quoteString (fst m))" "passesTo (CHR '':'') (snd m)"
    using value_text_quote by (auto simp: value_text_def intro: passes_to)
  then have "splitOuter (CHR '':'') startState (quoteString (fst m) @ CHR '':'' # snd m) = [quoteString (fst m), snd m]"
    by (simp add: passesTo_def [of _ "quoteString (fst m)"] split_one) (simp add: startState_def split_one [unfolded startState_def])
  then show ?thesis
    using v tight_quote [of "fst m"] unquote_quoteString [of "fst m"]
    by (simp add: parseMember_def memberText_def trimJSON_tight inner_def)
qed

lemma join_ends:
  assumes "\<forall>p \<in> set (p # ps). tight p"
  shows "JoinBytes '','' (p # ps) \<noteq> []" "\<not> isSpaceJSON (hd (JoinBytes '','' (p # ps)))"
  using assms JoinBytes_head [of p "'',''" ps] by (auto simp: tight_def)

lemma inner_texts [simp]: "inner (''{'' @ p @ ''}'') = p" "inner (''['' @ p @ '']'') = p"
  by (simp_all add: inner_def butlast_append)

lemma rawMembers_obj:
  assumes "\<forall>m \<in> set ms. member_ok k m"
  shows "rawMembers (objText ms) = ms"
proof (cases ms)
  case Nil
  then show ?thesis by (simp add: rawMembers_def objText_def inner_def trimJSON_def)
next
  case (Cons m ms')
  have t: "\<forall>m \<in> set ms. tight (memberText m)" using assms tight_member by blast
  have u: "\<forall>m \<in> set ms. passesTo (CHR '','') (memberText m)" using assms passesTo_member by blast
  have "trimJSON (JoinBytes '','' (map memberText ms)) \<noteq> []"
    using join_ends [of "memberText m" "map memberText ms'"] t unfolding Cons
    by (intro trimJSON_starts) auto
  moreover have "splitOuter (CHR '','') startState (JoinBytes '','' (map memberText ms)) = map memberText ms"
    using split_join [of "memberText m" "map memberText ms'"] u unfolding Cons by auto
  moreover have "map (parseMember \<circ> memberText) ms = ms" using assms parseMember_text by (induction ms) auto
  ultimately show ?thesis by (simp add: rawMembers_def objText_def inner_def)
qed

lemma rawElements_arr:
  assumes "\<forall>e \<in> set es. value_text k e"
  shows "rawElements (arrText es) = es"
proof (cases es)
  case Nil
  then show ?thesis by (simp add: rawElements_def arrText_def inner_def trimJSON_def)
next
  case (Cons e es')
  have t: "\<forall>e \<in> set es. tight e \<and> passesTo (CHR '','') e" using assms by (auto simp: value_text_def intro: passes_to)
  have "trimJSON (JoinBytes '','' es) \<noteq> []"
    using join_ends [of e es'] t unfolding Cons by (intro trimJSON_starts) auto
  moreover have "splitOuter (CHR '','') startState (JoinBytes '','' es) = es"
    using split_join [of e es'] t unfolding Cons by auto
  moreover have "map trimJSON es = es" using t trimJSON_tight by (induction es) auto
  ultimately show ?thesis by (simp add: rawElements_def arrText_def inner_def)
qed

section \<open>Decoders on the texts that are written\<close>

lemma starts_text [simp]:
  "startsWith (CHR 0x22) (quoteString s)" "startsWith (CHR ''{'') (objText ms)" "startsWith (CHR ''['') (arrText es)"
  "quoteString s \<noteq> ''null''" "objText ms \<noteq> ''null''" "arrText es \<noteq> ''null''"
  by (simp_all add: startsWith_def quoteString_def objText_def arrText_def)

lemma decString_quote [simp]: "validUTF8 s \<Longrightarrow> decString (quoteString s) old = Some s"
  by (simp add: decString_def unquote_quoteString)

lemma decBool_text [simp]: "decBool (boolText b) old = Some b"
  by (simp add: decBool_def boolText_def)

lemma natText_isNumber: "isNumber (natText n)"
proof -
  obtain d ds where "natText n = d # ds" by (cases "natText n") auto
  moreover from this have "\<exists>k < 10. d = digitChar k" using natText_digits [of d n] by simp
  ultimately show ?thesis using plainChar_digit by (auto simp: isNumber_def)
qed

lemma intText_isNumber: "isNumber (intText i)" "intText i \<noteq> ''null''"
proof -
  show "isNumber (intText i)" using natText_isNumber by (simp add: intText_def isNumber_def)
  then show "intText i \<noteq> ''null''" by (auto simp: isNumber_def isDigitByte_def byteVal_def)
qed

lemma decInt_text [simp]: "in_i64 i \<Longrightarrow> decInt (intText i) old = Some i"
  by (simp add: decInt_def intText_isNumber Atoi_intText)

lemma decPtr_text: "t \<noteq> ''null'' \<Longrightarrow> decPtr d z t None = map_option Some (d t z)"
  by (simp add: decPtr_def)

lemma decPtr_simps [simp]:
  "decPtr d z (quoteString s) None = map_option Some (d (quoteString s) z)"
  "decPtr d z (objText ms) None = map_option Some (d (objText ms) z)"
  "decPtr d z (intText i) None = map_option Some (d (intText i) z)"
  by (simp_all add: decPtr_def intText_isNumber)

lemma decStruct_obj: "\<forall>m \<in> set ms. member_ok k m \<Longrightarrow> decStruct d (objText ms) old = d ms old"
  by (simp add: decStruct_def rawMembers_obj)

lemma decElements_map: "decElements d z es [] = those (map (\<lambda>e. d e z) es)"
  by (induction es) (auto split: option.split bind_split)

lemma those_map_Some: "(\<And>x. x \<in> set xs \<Longrightarrow> f x = Some (g x)) \<Longrightarrow> those (map f xs) = Some (map g xs)"
  by (induction xs) auto

lemma decSlice_arr:
  assumes "\<forall>x \<in> set xs. value_text k (text x) \<and> d (text x) z = Some x"
  shows "decSlice d z (arrText (map text xs)) [] = Some xs"
proof -
  have "rawElements (arrText (map text xs)) = map text xs" using assms by (intro rawElements_arr) auto
  moreover have "those (map (\<lambda>e. d e z) (map text xs)) = Some xs"
    using assms those_map_Some [of xs "\<lambda>x. d (text x) z" id] by (simp add: comp_def)
  ultimately show ?thesis by (simp add: decSlice_def decElements_map)
qed

lemma decField_skip [simp]:
  "k \<in> set names \<Longrightarrow> k \<noteq> f \<Longrightarrow> decField names f d ((k, t) # ms) old = decField names f d ms old"
  by (simp add: fieldFor_def)

lemma decField_here [simp]:
  "f \<in> set names \<Longrightarrow> decField names f d ((f, t) # ms) old = Option.bind (d t old) (decField names f d ms)"
  by (simp add: fieldFor_def)

lemma decField_append: "decField names f d (ms @ ms') old = Option.bind (decField names f d ms old) (decField names f d ms')"
  by (induction names f d ms old rule: decField.induct) (auto split: bind_split)

lemma decField_Nil [simp]: "decField names f d [] = Some"
  by (rule ext) simp

lemma bind_Some [simp]: "Option.bind x Some = x"
  by (cases x) auto

declare decField.simps(2) [simp del]

lemma decField_omitIf:
  "k \<in> set names \<Longrightarrow> decField names f d (omitIf c k t) old = (if c \<or> k \<noteq> f then Some old else d t old)"
  by (cases "k = f") (auto simp: omitIf_def)

lemma decField_ptrMember:
  "k \<in> set names \<Longrightarrow> decField names f d (ptrMember k text p) old =
     (case p of None \<Rightarrow> Some old | Some v \<Rightarrow> if k \<noteq> f then Some old else d (text v) old)"
  by (cases "k = f") (auto simp: ptrMember_def split: option.split)

lemma Unmarshal_text:
  assumes "value_text k t" "k \<le> maxNestingDepth"
  shows "Unmarshal d t old = d t old"
  using value_text_valid [OF assms] assms(1) by (simp add: Unmarshal_def value_text_def trimJSON_tight)

lemma member_quote: "validUTF8 key \<Longrightarrow> validUTF8 s \<Longrightarrow> member_ok 0 (key, quoteString s)"
  by (simp add: member_ok_def value_text_quote)

lemma member_ok_mono: "member_ok k m \<Longrightarrow> k \<le> k' \<Longrightarrow> member_ok k' m"
  using value_text_mono by (auto simp: member_ok_def)

lemma members_omitIf: "(\<forall>m \<in> set (omitIf c key t). member_ok k m) \<longleftrightarrow> c \<or> member_ok k (key, t)"
  by (simp add: omitIf_def)

lemma members_ptr: "(\<forall>m \<in> set (ptrMember key text p). member_ok k m) \<longleftrightarrow> (\<forall>v. p = Some v \<longrightarrow> member_ok k (key, text v))"
  by (cases p) (auto simp: ptrMember_def)

section \<open>Whole values\<close>

text \<open>JSON values as an encoder makes them: valid strings, number texts, sorted and distinct keys.\<close>

fun wfJson :: "json \<Rightarrow> bool" where
  "wfJson JNull = True"
| "wfJson (JBool b) = True"
| "wfJson (JNum t) = (value_text 0 t \<and> isNumber t)"
| "wfJson (JStr s) = validUTF8 s"
| "wfJson (JArr es) = list_all wfJson es"
| "wfJson (JObj m) = (sorted (map fst m) \<and> distinct (map fst m) \<and> list_all (\<lambda>(k, v). validUTF8 k \<and> wfJson v) m)"

fun jsonDepth :: "json \<Rightarrow> nat" where
  "jsonDepth (JArr es) = Suc (foldr (\<lambda>e d. max (jsonDepth e) d) es 0)"
| "jsonDepth (JObj m) = Suc (foldr (\<lambda>(k, v) d. max (jsonDepth v) d) m 0)"
| "jsonDepth j = 0"

definition memberDepth :: "(string \<times> json) list \<Rightarrow> nat" where
  "memberDepth m = foldr (\<lambda>x d. max (jsonDepth (snd x)) d) m 0"

lemma jsonDepth_obj [simp]: "jsonDepth (JObj m) = Suc (memberDepth m)"
  by (simp add: memberDepth_def case_prod_beta')

declare jsonDepth.simps(2) [simp del]

lemma foldr_max_le: "x \<in> set xs \<Longrightarrow> f x \<le> foldr (\<lambda>e d. max (f e) d) xs (0::nat)"
  by (induction xs) auto

lemma value_text_foldr:
  "(\<And>x. x \<in> set xs \<Longrightarrow> value_text (f x) (g x)) \<Longrightarrow> x \<in> set xs \<Longrightarrow> value_text (foldr (\<lambda>e d. max (f e) d) xs 0) (g x)"
  by (blast intro: value_text_mono foldr_max_le)

lemma sort_key_fst: "sorted (map fst m) \<Longrightarrow> sort_key fst (map (\<lambda>(k, v). (k, f v)) m) = map (\<lambda>(k, v). (k, f v)) m"
  by (rule sort_key_id_if_sorted) (simp add: comp_def case_prod_beta)

lemma anyText_value: "wfJson j \<Longrightarrow> value_text (jsonDepth j) (anyText j)"
proof (induction j)
  case JNull
  then show ?case by (simp add: value_text_const)
next
  case (JBool b)
  then show ?case by (simp add: value_text_bool)
next
  case (JStr s)
  then show ?case by (simp add: value_text_quote)
next
  case (JArr es)
  have "value_text (foldr (\<lambda>e d. max (jsonDepth e) d) es 0) (anyText e)" if "e \<in> set es" for e
    using JArr that by (intro value_text_foldr) (auto simp: list_all_iff)
  then show ?case by (auto intro!: value_text_arr)
next
  case (JObj m)
  have "value_text (memberDepth m) (anyText (snd x))" if "x \<in> set m" for x
    unfolding memberDepth_def using JObj that by (intro value_text_foldr) (force simp: list_all_iff snds.simps)+
  then have "member_ok (memberDepth m) (k, anyText v)" if "(k, v) \<in> set m" for k v
    using JObj.prems that by (force simp: list_all_iff member_ok_def case_prod_beta)
  then show ?case using JObj.prems by (auto simp: sort_key_fst intro!: value_text_obj)
qed simp

lemma JoinBytes_length: "p \<in> set ps \<Longrightarrow> length p \<le> length (JoinBytes sep ps)"
  by (induction sep ps rule: JoinBytes.induct) auto

lemma foldl_mput: "distinct (map fst m @ map fst acc) \<Longrightarrow> foldl (\<lambda>m (k, v). mput k v m) acc m = acc @ m"
proof (induction m arbitrary: acc)
  case (Cons x m)
  obtain k v where x: "x = (k, v)" by (cases x)
  then have "map_of acc k = None" using Cons.prems by (auto simp: map_of_eq_None_iff)
  then show ?case using Cons by (auto simp: x mput_fresh)
qed simp

lemma number_not_const: "isNumber t \<Longrightarrow> t \<noteq> ''null'' \<and> t \<noteq> ''true'' \<and> t \<noteq> ''false'' \<and>
    \<not> startsWith (CHR 0x22) t \<and> \<not> startsWith (CHR ''['') t \<and> \<not> startsWith (CHR ''{'') t"
  by (auto simp: isNumber_def startsWith_def isDigitByte_def byteVal_def split: list.splits)

lemma texts_apart [simp]:
  "quoteString s \<noteq> ''true''" "quoteString s \<noteq> ''false''" "objText ms \<noteq> ''true''" "objText ms \<noteq> ''false''"
  "arrText es \<noteq> ''true''" "arrText es \<noteq> ''false''"
  "\<not> startsWith (CHR 0x22) (objText ms)" "\<not> startsWith (CHR 0x22) (arrText es)" "\<not> startsWith (CHR ''['') (objText ms)"
  by (simp_all add: startsWith_def quoteString_def objText_def arrText_def)

lemma those_Some: "those (map f xs) = Some ys \<longleftrightarrow> map f xs = map Some ys"
  by (induction xs arbitrary: ys) (auto split: option.splits)

lemma anyFuel_anyText: "wfJson j \<Longrightarrow> length (anyText j) \<le> n \<Longrightarrow> anyFuel n True (anyText j) = Some j"
proof (induction j arbitrary: n)
  case JNull
  then show ?case by (cases n) auto
next
  case (JBool b)
  then show ?case by (cases n; cases b) (auto simp: boolText_def)
next
  case (JNum t)
  then show ?case by (cases n) (auto simp: number_not_const isNumber_def)
next
  case (JStr s)
  then obtain k where "n = Suc k" by (cases n) (auto simp: quoteString_def)
  then show ?case using JStr by (simp add: unquote_quoteString)
next
  case (JArr es)
  obtain k where n: "n = Suc k" using JArr.prems by (cases n) (auto simp: arrText_def)
  have raw: "rawElements (arrText (map anyText es)) = map anyText es"
    using JArr.prems(1) anyText_value
    by (intro rawElements_arr [where k = "foldr (\<lambda>e d. max (jsonDepth e) d) es 0"])
      (auto simp: list_all_iff intro!: value_text_foldr)
  have "anyFuel k True (anyText e) = Some e" if "e \<in> set es" for e
    using JArr.IH [OF that, of k] JArr.prems JoinBytes_length [of "anyText e" "map anyText es" "'',''"] that
    by (auto simp: n arrText_def list_all_iff)
  then show ?case by (simp add: n raw those_Some)
next
  case (JObj m)
  obtain k where n: "n = Suc k" using JObj.prems by (cases n) (auto simp: objText_def)
  define ms where "ms = map (\<lambda>(k, v). (k, anyText v)) m"
  have t: "anyText (JObj m) = objText ms" using JObj.prems(1) by (simp add: ms_def sort_key_fst)
  have ok: "\<forall>x \<in> set ms. member_ok (memberDepth m) x"
    using JObj.prems(1) anyText_value value_text_foldr [of m "\<lambda>x. jsonDepth (snd x)" "\<lambda>x. anyText (snd x)", folded memberDepth_def]
    by (force simp: ms_def list_all_iff member_ok_def case_prod_beta)
  have raw: "rawMembers (objText ms) = ms" using ok by (rule rawMembers_obj)
  have "anyFuel k True (anyText v) = Some v" if "(key, v) \<in> set m" for key v
  proof -
    have "length (anyText v) \<le> length (memberText (key, anyText v))" by (simp add: memberText_def)
    also have "\<dots> \<le> length (JoinBytes '','' (map memberText ms))"
      using that by (intro JoinBytes_length) (force simp: ms_def)
    also have "\<dots> \<le> k" using JObj.prems(2) unfolding t n by (simp add: objText_def)
    finally show ?thesis using JObj.IH [of "(key, v)" v k] JObj.prems(1) that by (auto simp: list_all_iff snds.simps)
  qed
  then have "those (map (\<lambda>x. anyFuel k True (snd x)) ms) = Some (map snd m)"
    by (auto simp: ms_def those_Some case_prod_beta)
  moreover have "zip (map fst ms) (map snd m) = m" by (simp add: ms_def comp_def case_prod_beta zip_map_fst_snd)
  moreover have "foldl (\<lambda>m (k, v). mput k v m) [] m = m" using foldl_mput [of m "[]"] JObj.prems(1) by simp
  ultimately show ?case unfolding t by (simp add: n raw)
qed

lemma decAny_anyText [simp]: "wfJson j \<Longrightarrow> decAny True (anyText j) old = Some j"
  by (simp add: decAny_def decodeAny_def anyFuel_anyText)

lemma decAny_quote [simp]: "validUTF8 s \<Longrightarrow> decAny exact (quoteString s) old = Some (JStr s)"
proof -
  assume "validUTF8 s"
  moreover have "length (quoteString s) = Suc (Suc (length (quoteFuel (length s) s)))" by (simp add: quoteString_def)
  ultimately show ?thesis by (simp add: decAny_def decodeAny_def unquote_quoteString)
qed

lemma validUTF8_append: "validUTF8 s \<Longrightarrow> validUTF8 t \<Longrightarrow> validUTF8 (s @ t)"
proof (induction s rule: validUTF8.induct)
  case (1 s)
  show ?case
  proof (cases "s = []")
    case False
    have r: "runeLen s \<noteq> 0" "validUTF8 (drop (runeLen s) s)" using validUTF8_rune "1.prems"(1) False by auto
    have len: "runeLen (s @ t) = runeLen s \<and> runeLen s \<le> length s"
      using r(1) by (rule runeLen_cases) (auto simp: runeLen1)
    have "validUTF8 (drop (runeLen s) s @ t)" using "1.IH" r False "1.prems"(2) by auto
    then show ?thesis using False r(1) len by (subst validUTF8.simps) auto
  qed (use "1.prems" in simp)
qed

lemma validUTF8_concat: "\<forall>s \<in> set ss. validUTF8 s \<Longrightarrow> validUTF8 (concat ss)"
  by (induction ss) (auto intro: validUTF8_append)

end
