(* ===== verification/StreamProps.thy ===== *)
theory StreamProps
  imports OpenAIStream "HOL-Library.Multiset"
begin

text \<open>
  What the stream decoders promise to the rest of the gateway. OpenAI streams loose fragments; the canonical stream
  is a sequence of blocks. \<open>protoStep\<close> is the block protocol: one start of the message, blocks opened under
  consecutive indices, fragments only for an open block of the right kind, every block closed before the stop reason
  and before the end. \<open>openai_stream_protocol\<close> shows that whatever records an upstream sends, the events of the
  decoder follow it; \<open>openai_stream_complete\<close> that no fragment of text or of tool arguments is lost, repeated or
  moved.
\<close>

section \<open>The block protocol\<close>

record proto =
  pt_started :: bool
  pt_next :: int
  pt_open :: "(int \<times> block_type) set"

definition newProto :: proto where
  "newProto = \<lparr>pt_started = False, pt_next = 0, pt_open = {}\<rparr>"

definition deltaFits :: "block_type \<Rightarrow> delta \<Rightarrow> bool" where
  "deltaFits t dl \<longleftrightarrow>
     (if t = BlockToolUse then dl_PartialInputJSON dl \<noteq> [] \<and> dl_Text dl = []
      else dl_Text dl \<noteq> [] \<and> dl_PartialInputJSON dl = [])"

definition protoStep :: "event \<Rightarrow> proto \<Rightarrow> proto option" where
  "protoStep ev p =
     (case ev_Type ev of
        EventMessageStart \<Rightarrow> if pt_started p then None else Some (p\<lparr>pt_started := True\<rparr>)
      | EventBlockStart \<Rightarrow>
          if pt_started p \<and> ev_BlockIndex ev = pt_next p \<and> (ev_BlockType ev = BlockText \<or> ev_BlockType ev = BlockToolUse)
          then Some (p\<lparr>pt_next := pt_next p + 1, pt_open := insert (ev_BlockIndex ev, ev_BlockType ev) (pt_open p)\<rparr>)
          else None
      | EventBlockDelta \<Rightarrow>
          (case ev_Delta ev of
             None \<Rightarrow> None
           | Some dl \<Rightarrow> if \<exists>(i, t) \<in> pt_open p. i = ev_BlockIndex ev \<and> deltaFits t dl then Some p else None)
      | EventBlockStop \<Rightarrow>
          if ev_BlockIndex ev \<in> fst ` pt_open p
          then Some (p\<lparr>pt_open := {x \<in> pt_open p. fst x \<noteq> ev_BlockIndex ev}\<rparr>) else None
      | EventMessageDelta \<Rightarrow> if pt_started p \<and> (ev_StopReason ev \<noteq> [] \<longrightarrow> pt_open p = {}) then Some p else None
      | EventMessageStop \<Rightarrow> if pt_open p = {} then Some p else None
      | EventPing \<Rightarrow> Some p
      | EventError \<Rightarrow> Some p)"

fun protoRun :: "event list \<Rightarrow> proto \<Rightarrow> proto option" where
  "protoRun [] p = Some p"
| "protoRun (ev # evs) p = Option.bind (protoStep ev p) (protoRun evs)"

lemma protoRun_append: "protoRun (es @ fs) p = Option.bind (protoRun es p) (protoRun fs)"
  by (induction es arbitrary: p) (auto split: bind_split)

text \<open>The records of a stream, decoded in order until one fails.\<close>

fun decodeRun :: "(string \<Rightarrow> 'd \<Rightarrow> event list result \<times> 'd) \<Rightarrow> string list \<Rightarrow> 'd \<Rightarrow> event list" where
  "decodeRun decode [] d = []"
| "decodeRun decode (raw # raws) d =
     (case decode raw d of
        (Inl e, d') \<Rightarrow> []
      | (Inr evs, d') \<Rightarrow> evs @ decodeRun decode raws d')"

text \<open>A decoder whose states stand for states of the protocol.\<close>

locale protocol_decoder =
  fixes decode :: "string \<Rightarrow> 'd \<Rightarrow> event list result \<times> 'd"
    and state :: "'d \<Rightarrow> proto"
    and ok :: "'d \<Rightarrow> bool"
  assumes decode_step: "ok d \<Longrightarrow> decode raw d = (Inr evs, d') \<Longrightarrow> protoRun evs (state d) = Some (state d') \<and> ok d'"
begin

lemma run_accepted: "ok d \<Longrightarrow> protoRun (decodeRun decode raws d) (state d) \<noteq> None"
proof (induction raws arbitrary: d)
  case (Cons raw raws)
  show ?case
  proof (cases "decode raw d")
    case (Pair r d')
    show ?thesis
    proof (cases r)
      case (Inr evs)
      then show ?thesis using decode_step [of d raw evs d'] Cons Pair by (simp add: protoRun_append)
    qed (simp add: Pair)
  qed
qed simp

end

section \<open>The OpenAI decoder follows it\<close>

definition openBlocks :: "oa_decoder \<Rightarrow> (int \<times> block_type) set" where
  "openBlocks d =
     (if dd_textOpen d then {(dd_textBlockIdx d, BlockText)} else {}) \<union> (\<lambda>x. (snd x, BlockToolUse)) ` set (dd_toolBlocks d)"

definition stateOf :: "oa_decoder \<Rightarrow> proto" where
  "stateOf d = \<lparr>pt_started = dd_started d, pt_next = dd_nextBlockIdx d, pt_open = openBlocks d\<rparr>"

definition decoder_ok :: "oa_decoder \<Rightarrow> bool" where
  "decoder_ok d \<longleftrightarrow>
     distinct (map snd (dd_toolBlocks d)) \<and>
     (\<forall>i b. (i, b) \<in> set (dd_toolBlocks d) \<longrightarrow> b < dd_nextBlockIdx d) \<and>
     (dd_textOpen d \<longrightarrow> dd_textBlockIdx d < dd_nextBlockIdx d \<and> (\<forall>i. (i, dd_textBlockIdx d) \<notin> set (dd_toolBlocks d)))"

text \<open>The iteration order of the map of tool blocks is any permutation.\<close>

definition is_order :: "map_order \<Rightarrow> bool" where
  "is_order ord \<longleftrightarrow> (\<forall>m. mset (ord m) = mset m)"

text \<open>A step of the decoder that the protocol allows.\<close>

definition follows :: "event list \<Rightarrow> oa_decoder \<Rightarrow> oa_decoder \<Rightarrow> bool" where
  "follows evs d d' \<longleftrightarrow>
     (decoder_ok d \<longrightarrow> protoRun evs (stateOf d) = Some (stateOf d') \<and> decoder_ok d' \<and> dd_started d' = dd_started d)"

lemma follows_Nil [simp]: "follows [] d d"
  by (simp add: follows_def)

lemma follows_append: "follows es d d1 \<Longrightarrow> follows fs d1 d2 \<Longrightarrow> follows (es @ fs) d d2"
  by (auto simp: follows_def protoRun_append)

named_theorems events_simps

lemma event_kinds [events_simps]:
  "protoStep (blockStart i t dl) p =
     (if pt_started p \<and> i = pt_next p \<and> (t = BlockText \<or> t = BlockToolUse)
      then Some (p\<lparr>pt_next := pt_next p + 1, pt_open := insert (i, t) (pt_open p)\<rparr>) else None)"
  "protoStep (blockDelta i del) p = (if \<exists>(j, t) \<in> pt_open p. j = i \<and> deltaFits t del then Some p else None)"
  "protoStep (blockStop i) p =
     (if i \<in> fst ` pt_open p then Some (p\<lparr>pt_open := {x \<in> pt_open p. fst x \<noteq> i}\<rparr>) else None)"
  by (simp_all add: protoStep_def blockStart_def blockDelta_def blockStop_def zeroEvent_def)

lemma closeTextBlock_follows: "closeTextBlock d = (evs, d') \<Longrightarrow> follows evs d d'"
proof (cases "dd_textOpen d")
  case True
  assume c: "closeTextBlock d = (evs, d')"
  have "{x \<in> openBlocks d. fst x \<noteq> dd_textBlockIdx d} = openBlocks d'" if "decoder_ok d"
    using c True that by (force simp: closeTextBlock_def openBlocks_def decoder_ok_def)
  then show ?thesis using c True
    by (auto simp: closeTextBlock_def follows_def stateOf_def events_simps decoder_ok_def openBlocks_def)
qed (auto simp: closeTextBlock_def)

lemma stops_run:
  assumes "distinct (map snd ts)" "pt_open p = (\<lambda>x. (snd x, BlockToolUse)) ` set ts"
  shows "protoRun (map (\<lambda>x. blockStop (snd x)) ts) p = Some (p\<lparr>pt_open := {}\<rparr>)"
  using assms
proof (induction ts arbitrary: p)
  case (Cons t ts)
  obtain i b where t: "t = (i, b)" by (cases t)
  have "{x \<in> pt_open p. fst x \<noteq> b} = (\<lambda>x. (snd x, BlockToolUse)) ` set ts"
    using Cons.prems unfolding t by force
  moreover have "b \<in> fst ` pt_open p" using Cons.prems unfolding t by force
  ultimately show ?case using Cons.IH [of "p\<lparr>pt_open := {x \<in> pt_open p. fst x \<noteq> b}\<rparr>"] Cons.prems
    by (simp add: t events_simps)
qed simp

lemma order_same:
  assumes "is_order ord" "distinct (map snd m)"
  shows "distinct (map snd (ord m))" "set (ord m) = set m"
proof -
  have o: "mset (ord m) = mset m" using assms(1) by (simp add: is_order_def)
  then have "mset (map snd (ord m)) = mset (map snd m)" by simp
  then show "distinct (map snd (ord m))" using assms(2) mset_eq_imp_distinct_iff by blast
  show "set (ord m) = set m" using o mset_eq_setD by blast
qed

lemma closeOpenBlocks_follows:
  assumes "is_order ord" "closeOpenBlocks ord d = (evs, d')"
  shows "follows evs d d'" "openBlocks d' = {}"
proof -
  obtain es d1 where c: "closeTextBlock d = (es, d1)" by (cases "closeTextBlock d")
  have shut: "\<not> dd_textOpen d1" using c by (auto simp: closeTextBlock_def split: if_splits)
  have e: "evs = es @ map (\<lambda>x. blockStop (snd x)) (ord (dd_toolBlocks d1))" "d' = d1\<lparr>dd_toolBlocks := []\<rparr>"
    using assms(2) c by (auto simp: closeOpenBlocks_def case_prod_beta)
  have "follows (map (\<lambda>x. blockStop (snd x)) (ord (dd_toolBlocks d1))) d1 d'"
    unfolding follows_def
  proof
    assume ok: "decoder_ok d1"
    then have "distinct (map snd (dd_toolBlocks d1))" by (simp add: decoder_ok_def)
    note same = order_same [OF assms(1) this]
    have "pt_open (stateOf d1) = (\<lambda>x. (snd x, BlockToolUse)) ` set (ord (dd_toolBlocks d1))"
      using same shut by (simp add: stateOf_def openBlocks_def)
    from stops_run [OF same(1) this] show "protoRun (map (\<lambda>x. blockStop (snd x)) (ord (dd_toolBlocks d1))) (stateOf d1) =
        Some (stateOf d') \<and> decoder_ok d' \<and> dd_started d' = dd_started d1"
      using ok shut by (simp add: e stateOf_def openBlocks_def decoder_ok_def)
  qed
  then show "follows evs d d'" using closeTextBlock_follows [OF c] follows_append unfolding e(1) by blast
  show "openBlocks d' = {}" using shut by (simp add: e openBlocks_def)
qed

text \<open>Within a message the decoder is started.\<close>

lemma openToolBlock_follows:
  assumes "openToolBlock tc d = (evs, b, d')" "dd_started d"
  shows "follows evs d d'" "(ost_Index tc, b) \<in> set (dd_toolBlocks d')"
proof -
  show "(ost_Index tc, b) \<in> set (dd_toolBlocks d')"
    using assms by (auto simp: openToolBlock_def Let_def intro: map_of_SomeD split: option.splits prod.splits)
  show "follows evs d d'"
  proof (cases "map_of (dd_toolBlocks d) (ost_Index tc)")
    case (Some c)
    then show ?thesis using assms by (simp add: openToolBlock_def)
  next
    case None
    obtain es d1 where c: "closeTextBlock d = (es, d1)" by (cases "closeTextBlock d")
    have d1: "dd_toolBlocks d1 = dd_toolBlocks d" "dd_nextBlockIdx d1 = dd_nextBlockIdx d" "\<not> dd_textOpen d1"
      "dd_started d1 = dd_started d"
      using c by (auto simp: closeTextBlock_def split: if_splits)
    define dl where "dl = zeroDelta\<lparr>dl_ToolUseID := ost_ID tc, dl_ToolName := fc_Name (ost_Function tc)\<rparr>"
    have e: "evs = es @ [blockStart (dd_nextBlockIdx d1) BlockToolUse (Some dl)]"
      "d' = d1\<lparr>dd_nextBlockIdx := dd_nextBlockIdx d1 + 1, dd_toolBlocks := dd_toolBlocks d1 @ [(ost_Index tc, dd_nextBlockIdx d1)]\<rparr>"
      using assms None c d1 by (auto simp: openToolBlock_def Let_def dl_def mput_fresh)
    have "follows [blockStart (dd_nextBlockIdx d1) BlockToolUse (Some dl)] d1 d'"
      using assms(2) d1
      by (auto simp: follows_def events_simps e(2) stateOf_def openBlocks_def decoder_ok_def) (metis less_irrefl less_imp_le)+
    then show ?thesis using closeTextBlock_follows [OF c] follows_append unfolding e(1) by blast
  qed
qed

lemma handleToolCallDelta_follows:
  assumes "handleToolCallDelta tc d = (evs, d')" "dd_started d"
  shows "follows evs d d'"
proof -
  obtain es b d1 where o: "openToolBlock tc d = (es, b, d1)" by (cases "openToolBlock tc d") auto
  note f = openToolBlock_follows [OF o assms(2)]
  have "follows (if fc_Arguments (ost_Function tc) \<noteq> []
      then [blockDelta b (zeroDelta\<lparr>dl_PartialInputJSON := fc_Arguments (ost_Function tc)\<rparr>)] else []) d1 d1"
    using f(2) by (force simp: follows_def events_simps stateOf_def openBlocks_def deltaFits_def zeroDelta_def)
  from follows_append [OF f(1) this] show ?thesis using assms(1) o by (auto simp: handleToolCallDelta_def split: if_splits)
qed

lemma handleToolCalls_follows: "handleToolCalls tcs d = (evs, d') \<Longrightarrow> dd_started d \<Longrightarrow> decoder_ok d \<Longrightarrow> follows evs d d'"
proof (induction tcs arbitrary: d evs)
  case (Cons tc tcs)
  obtain es d1 where h: "handleToolCallDelta tc d = (es, d1)" by (cases "handleToolCallDelta tc d")
  obtain fs where r: "handleToolCalls tcs d1 = (fs, d')" "evs = es @ fs"
    using Cons.prems(1) h by (auto split: prod.splits)
  note f = handleToolCallDelta_follows [OF h Cons.prems(2)]
  then have "dd_started d1" "decoder_ok d1" using Cons.prems(2,3) by (simp_all add: follows_def)
  from follows_append [OF f Cons.IH [OF r(1) this]] show ?case by (simp add: r(2))
qed simp

lemma textDelta_follows:
  assumes "textDelta s d = (evs, d')" "dd_started d"
  shows "follows evs d d'"
proof (cases "s = []")
  case False
  show ?thesis
  proof (cases "dd_textOpen d")
    case True
    then show ?thesis using assms False
      by (auto simp: textDelta_def follows_def events_simps stateOf_def openBlocks_def deltaFits_def zeroDelta_def BlockText_def
          BlockToolUse_def)
  next
    case shut: False
    then show ?thesis using assms False
      by (auto simp: textDelta_def Let_def follows_def events_simps stateOf_def openBlocks_def deltaFits_def zeroDelta_def
          BlockText_def BlockToolUse_def decoder_ok_def) (metis less_irrefl less_imp_le)+
  qed
qed (use assms in \<open>simp add: textDelta_def\<close>)

lemma deltaEvents_follows:
  assumes "deltaEvents delta d = (evs, d')" "dd_started d" "decoder_ok d"
  shows "follows evs d d'"
proof (cases delta)
  case (Some dl)
  obtain s where s: "(case contentToString (od_Content dl) of Inl e \<Rightarrow> [] | Inr s \<Rightarrow> s) = s" by blast
  obtain es d1 where t: "textDelta s d = (es, d1)" by (cases "textDelta s d")
  obtain fs where h: "handleToolCalls (od_ToolCalls dl) d1 = (fs, d')" "evs = es @ fs"
    using assms(1) Some s t by (auto simp: deltaEvents_def split: prod.splits)
  note f = textDelta_follows [OF t assms(2)]
  then have "dd_started d1" "decoder_ok d1" using assms(2,3) by (simp_all add: follows_def)
  from follows_append [OF f handleToolCalls_follows [OF h(1) this]] show ?thesis by (simp add: h(2))
qed (use assms in \<open>simp add: deltaEvents_def\<close>)

lemma protoStep_messageDelta:
  "protoStep ((zeroEvent EventMessageDelta)\<lparr>ev_StopReason := r, ev_Usage := u, ev_UsageFinal := b\<rparr>) p =
     (if pt_started p \<and> (r \<noteq> [] \<longrightarrow> pt_open p = {}) then Some p else None)"
  by (simp add: protoStep_def zeroEvent_def)

lemma finishEvents_follows:
  assumes "is_order ord" "finishEvents ord reason u d = (evs, d')" "dd_started d"
  shows "follows evs d d'"
proof (cases reason)
  case (Some f)
  obtain es d1 where c: "closeOpenBlocks ord d = (es, d1)" by (cases "closeOpenBlocks ord d")
  note close = closeOpenBlocks_follows [OF assms(1) c]
  define ev where "ev = (zeroEvent EventMessageDelta)\<lparr>ev_StopReason := oaStopReason f, ev_Usage := oaUsageFromWire u,
     ev_UsageFinal := (u \<noteq> None)\<rparr>"
  have e: "evs = es @ [ev]" "d' = d1" using assms(2) Some c by (auto simp: finishEvents_def ev_def)
  have "protoStep ev (stateOf d1) = Some (stateOf d1)" if "dd_started d1"
    using that close(2) by (simp add: ev_def protoStep_messageDelta stateOf_def)
  then have "follows evs d d1" using close(1) assms(3) by (auto simp: follows_def e(1) protoRun_append)
  then show ?thesis by (simp add: e(2))
qed (use assms in \<open>simp add: finishEvents_def\<close>)

lemma finish_accepted:
  assumes "is_order ord" "finish ord d = (evs, d')" "decoder_ok d"
  shows "protoRun evs (stateOf d) = Some (stateOf d') \<and> decoder_ok d'"
proof -
  obtain es d1 where c: "closeOpenBlocks ord d = (es, d1)" by (cases "closeOpenBlocks ord d")
  note close = closeOpenBlocks_follows [OF assms(1) c]
  have e: "evs = es @ [zeroEvent EventMessageStop]" "d' = d1" using assms(2) c by (auto simp: finish_def)
  have "protoStep (zeroEvent EventMessageStop) (stateOf d1) = Some (stateOf d1)"
    using close(2) by (simp add: protoStep_def zeroEvent_def stateOf_def)
  then show ?thesis using close(1) assms(3) by (auto simp: follows_def e protoRun_append)
qed

lemma chunkEvents_accepted:
  assumes "is_order ord" "chunkEvents ord chunk d = (Inr evs, d')" "decoder_ok d"
  shows "protoRun evs (stateOf d) = Some (stateOf d') \<and> decoder_ok d'"
proof -
  obtain ss d1 where s: "startEvents chunk d = (ss, d1)" by (cases "startEvents chunk d")
  have st: "protoRun ss (stateOf d) = Some (stateOf d1)" "decoder_ok d1" "dd_started d1"
    using s assms(3) by (auto simp: startEvents_def protoStep_def zeroEvent_def stateOf_def openBlocks_def decoder_ok_def
        split: if_splits)
  have "\<exists>fs. evs = ss @ fs \<and> follows fs d1 d'"
  proof (cases "sk_Choices chunk")
    case Nil
    have "follows [(zeroEvent EventMessageDelta)\<lparr>ev_Usage := u, ev_UsageFinal := True\<rparr>] d1 d1" for u
      using st(3) by (simp add: follows_def protoStep_def zeroEvent_def stateOf_def)
    then show ?thesis using assms(2) s Nil by (auto simp: chunkEvents_def split: option.splits)
  next
    case (Cons ch chs)
    then have one: "chs = []" "sc_Index ch = 0"
      using assms(2) s by (auto simp: chunkEvents_def split: if_splits prod.splits)
    obtain es d2 where d: "deltaEvents (sc_Delta ch) d1 = (es, d2)" by (cases "deltaEvents (sc_Delta ch) d1")
    obtain fs where f: "finishEvents ord (sc_FinishReason ch) (sk_Usage chunk) d2 = (fs, d')" "evs = ss @ es @ fs"
      using assms(2) s Cons one d by (auto simp: chunkEvents_def split: prod.splits)
    note f1 = deltaEvents_follows [OF d st(3,2)]
    then have "dd_started d2" using st by (simp add: follows_def)
    from follows_append [OF f1 finishEvents_follows [OF assms(1) f(1) this]] f(2) show ?thesis by blast
  qed
  then show ?thesis using st by (auto simp: follows_def protoRun_append)
qed

lemma oaDecode_accepted:
  assumes "is_order ord" "oaDecode ord raw d = (Inr evs, d')" "decoder_ok d"
  shows "protoRun evs (stateOf d) = Some (stateOf d') \<and> decoder_ok d'"
  using assms chunkEvents_accepted [OF assms(1) _ assms(3)] finish_accepted [OF assms(1) _ assms(3)]
  by (auto simp: oaDecode_def Let_def protoStep_def zeroEvent_def split: option.splits if_splits prod.splits)

text \<open>Every order of iteration gives a decoder of the protocol; a fixed one stands for all of them.\<close>

definition oaDecodeAny :: "map_order \<Rightarrow> string \<Rightarrow> oa_decoder \<Rightarrow> event list result \<times> oa_decoder" where
  "oaDecodeAny ord = (if is_order ord then oaDecode ord else oaDecode id)"

interpretation openai_protocol: protocol_decoder "oaDecodeAny ord" stateOf decoder_ok for ord
proof
  fix d raw evs d'
  assume "decoder_ok d" "oaDecodeAny ord raw d = (Inr evs, d')"
  moreover have "is_order id" by (simp add: is_order_def)
  ultimately show "protoRun evs (stateOf d) = Some (stateOf d') \<and> decoder_ok d'"
    using oaDecode_accepted [of ord raw d evs d'] oaDecode_accepted [of id raw d evs d'] by (auto simp: oaDecodeAny_def split: if_splits)
qed

text \<open>C36. Whatever records an OpenAI upstream sends, the canonical events that the decoder makes of them follow the
  block protocol: the message starts once, blocks open under consecutive indices and only after the start, every fragment
  of text or of tool arguments belongs to an open block of its kind, no block is closed twice, and all of them are
  closed before the stop reason and before the end of the message, in whatever order Go walks through its map.\<close>

theorem openai_stream_protocol:
  assumes "is_order ord"
  shows "protoRun (decodeRun (oaDecode ord) raws oaNewDecoder) newProto \<noteq> None"
proof -
  have "stateOf oaNewDecoder = newProto" "decoder_ok oaNewDecoder"
    by (simp_all add: stateOf_def oaNewDecoder_def newProto_def openBlocks_def decoder_ok_def)
  then show ?thesis using openai_protocol.run_accepted [of oaNewDecoder ord raws] assms by (simp add: oaDecodeAny_def)
qed

section \<open>No fragment is lost\<close>

text \<open>The fragments that events carry: text, or a piece of the arguments of a tool.\<close>

definition fragment :: "event \<Rightarrow> (string \<times> string) list" where
  "fragment ev =
     (case ev_Type ev of
        EventBlockDelta \<Rightarrow> (case ev_Delta ev of None \<Rightarrow> [] | Some dl \<Rightarrow> [(dl_Text dl, dl_PartialInputJSON dl)])
      | _ \<Rightarrow> [])"

definition fragments :: "event list \<Rightarrow> (string \<times> string) list" where
  "fragments evs = concat (map fragment evs)"

text \<open>The fragments of a record of the upstream; \<open>None\<close> for a record that stops the stream.\<close>

definition deltaFragments :: "oa_stream_delta \<Rightarrow> (string \<times> string) list" where
  "deltaFragments dl =
     (case contentToString (od_Content dl) of Inr (c # cs) \<Rightarrow> [(c # cs, [])] | _ \<Rightarrow> []) @
     map (\<lambda>tc. ([], fc_Arguments (ost_Function tc))) (filter (\<lambda>tc. fc_Arguments (ost_Function tc) \<noteq> []) (od_ToolCalls dl))"

definition chunkFragments :: "stream_chunk \<Rightarrow> (string \<times> string) list option" where
  "chunkFragments chunk =
     (case sk_Choices chunk of
        [] \<Rightarrow> Some []
      | [ch] \<Rightarrow> if sc_Index ch = 0 then Some (case sc_Delta ch of None \<Rightarrow> [] | Some dl \<Rightarrow> deltaFragments dl) else None
      | _ \<Rightarrow> None)"

definition recordFragments :: "string \<Rightarrow> (string \<times> string) list option" where
  "recordFragments raw =
     (case SSEData raw of
        None \<Rightarrow> Some []
      | Some content \<Rightarrow>
          if TrimSpace content = [] \<or> TrimSpace content = ''[DONE]'' then Some []
          else (case Unmarshal decChunk (TrimSpace content) zeroChunk of
                  None \<Rightarrow> None
                | Some chunk \<Rightarrow>
                    (case Unmarshal decChunkError (TrimSpace content) None of
                       Some (Some message) \<Rightarrow> Some []
                     | _ \<Rightarrow> chunkFragments chunk)))"

fun streamFragments :: "string list \<Rightarrow> (string \<times> string) list" where
  "streamFragments [] = []"
| "streamFragments (raw # raws) =
     (case recordFragments raw of None \<Rightarrow> [] | Some fs \<Rightarrow> fs @ streamFragments raws)"

lemma fragments_simps [simp]:
  "fragments [] = []" "fragments (es @ fs) = fragments es @ fragments fs"
  "fragments (blockDelta i dl # es) = (dl_Text dl, dl_PartialInputJSON dl) # fragments es"
  "fragments (blockStart i t del # es) = fragments es" "fragments (blockStop i # es) = fragments es"
  "fragments (map (\<lambda>x. blockStop (snd x)) ts) = []" "fragments (map (\<lambda>(j, b). blockStop b) ts) = []"
  "fragments [zeroEvent kind] = []"
proof -
  show "fragments (map (\<lambda>x. blockStop (snd x)) ts) = []" "fragments (map (\<lambda>(j, b). blockStop b) ts) = []"
    by (induction ts) (auto simp: fragments_def fragment_def blockStop_def zeroEvent_def)
  show "fragments [zeroEvent kind] = []" by (cases kind) (simp_all add: fragments_def fragment_def zeroEvent_def)
qed (simp_all add: fragments_def fragment_def blockDelta_def blockStart_def blockStop_def zeroEvent_def)

lemma fragments_close [simp]:
  "closeTextBlock d = (evs, d') \<Longrightarrow> fragments evs = []"
  "closeOpenBlocks ord d = (evs, d') \<Longrightarrow> fragments evs = []"
  "finish ord d = (evs, d') \<Longrightarrow> fragments evs = []"
proof -
  show *: "closeTextBlock d = (evs, d') \<Longrightarrow> fragments evs = []" for d evs d'
    by (auto simp: closeTextBlock_def split: if_splits)
  show **: "closeOpenBlocks ord d = (evs, d') \<Longrightarrow> fragments evs = []" for d evs d'
    using * by (auto simp: closeOpenBlocks_def split: prod.splits)
  show "finish ord d = (evs, d') \<Longrightarrow> fragments evs = []"
    using ** by (auto simp: finish_def split: prod.splits)
qed

lemma fragments_call:
  "handleToolCallDelta tc d = (evs, d') \<Longrightarrow>
     fragments evs = (if fc_Arguments (ost_Function tc) = [] then [] else [([], fc_Arguments (ost_Function tc))])"
  by (auto simp: handleToolCallDelta_def openToolBlock_def Let_def zeroDelta_def split: prod.splits option.splits if_splits)

lemma fragments_calls:
  "handleToolCalls tcs d = (evs, d') \<Longrightarrow>
     fragments evs = map (\<lambda>tc. ([], fc_Arguments (ost_Function tc))) (filter (\<lambda>tc. fc_Arguments (ost_Function tc) \<noteq> []) tcs)"
proof (induction tcs arbitrary: d evs)
  case (Cons tc tcs)
  obtain es d1 where h: "handleToolCallDelta tc d = (es, d1)" by (cases "handleToolCallDelta tc d")
  obtain fs where r: "handleToolCalls tcs d1 = (fs, d')" "evs = es @ fs"
    using Cons.prems h by (auto split: prod.splits)
  show ?case using fragments_call [OF h] Cons.IH [OF r(1)] by (simp add: r(2))
qed simp

lemma fragments_text: "textDelta s d = (evs, d') \<Longrightarrow> fragments evs = (if s = [] then [] else [(s, [])])"
  by (auto simp: textDelta_def Let_def zeroDelta_def split: if_splits)

lemma fragments_delta:
  assumes "deltaEvents delta d = (evs, d')"
  shows "fragments evs = (case delta of None \<Rightarrow> [] | Some dl \<Rightarrow> deltaFragments dl)"
proof (cases delta)
  case (Some dl)
  define s where "s = (case contentToString (od_Content dl) of Inl e \<Rightarrow> [] | Inr s \<Rightarrow> s)"
  obtain es d1 where t: "textDelta s d = (es, d1)" by (cases "textDelta s d")
  obtain fs where h: "handleToolCalls (od_ToolCalls dl) d1 = (fs, d')" "evs = es @ fs"
    using assms Some t by (auto simp: deltaEvents_def s_def split: prod.splits)
  have "(if s = [] then [] else [(s, [])]) =
      (case contentToString (od_Content dl) of Inr (c # cs) \<Rightarrow> [(c # cs, [])] | _ \<Rightarrow> [])"
    by (auto simp: s_def split: sum.split list.split)
  then show ?thesis using fragments_text [OF t] fragments_calls [OF h(1)] Some by (simp add: h(2) deltaFragments_def)
qed (use assms in \<open>simp add: deltaEvents_def\<close>)

lemma fragment_other: "ev_Type ev \<noteq> EventBlockDelta \<Longrightarrow> fragments [ev] = []"
  by (simp add: fragments_def fragment_def split: event_type.split)

lemma fragments_ends: "finishEvents ord reason u d = (evs, d') \<Longrightarrow> fragments evs = []"
  by (auto simp: finishEvents_def zeroEvent_def fragment_other split: option.splits prod.splits)

lemma chunk_fragments:
  "case fst (chunkEvents ord chunk d) of
     Inl e \<Rightarrow> chunkFragments chunk = None
   | Inr evs \<Rightarrow> chunkFragments chunk = Some (fragments evs)"
proof -
  obtain ss d1 where s: "startEvents chunk d = (ss, d1)" by (cases "startEvents chunk d")
  have none: "fragments ss = []" using s by (auto simp: startEvents_def zeroEvent_def fragment_other split: if_splits)
  show ?thesis
  proof (cases "sk_Choices chunk")
    case Nil
    then show ?thesis using s none
      by (auto simp: chunkEvents_def chunkFragments_def zeroEvent_def fragment_other split: option.split)
  next
    case (Cons ch chs)
    then show ?thesis using s none
      by (auto simp: chunkEvents_def chunkFragments_def fragments_delta fragments_ends split: prod.split list.split)
  qed
qed

lemma chunk_fragments_D:
  "fst (chunkEvents ord chunk d) = Inl e \<Longrightarrow> chunkFragments chunk = None"
  "fst (chunkEvents ord chunk d) = Inr evs \<Longrightarrow> chunkFragments chunk = Some (fragments evs)"
  using chunk_fragments [where ord = ord and d = d and chunk = chunk] by auto

lemma record_fragments:
  "case fst (oaDecode ord raw d) of
     Inl e \<Rightarrow> recordFragments raw = None
   | Inr evs \<Rightarrow> recordFragments raw = Some (fragments evs)"
  by (auto dest: chunk_fragments_D simp: oaDecode_def recordFragments_def Let_def zeroEvent_def fragment_other split: option.splits prod.splits sum.splits)

text \<open>C37. The decoder hands on every fragment of text and of tool arguments that the records carry, once, unchanged and
  in order, up to the first record that it refuses; nothing else is added.\<close>

theorem openai_stream_complete:
  "fragments (decodeRun (oaDecode ord) raws d) = streamFragments raws"
proof (induction raws arbitrary: d)
  case (Cons raw raws)
  show ?case using record_fragments [where ord = ord and raw = raw and d = d] Cons by (auto split: prod.splits sum.splits option.splits)
qed simp


text \<open>A stream of a text chunk and the end.\<close>

definition exampleRecords :: "string list" where
  "exampleRecords =
    [''data: {\"choices\":[{\"index\":0,\"delta\":{\"content\":\"Hi\"}}]}'', ''data: [DONE]'']"

theorem openai_stream_protocol_witness:
  "is_order rev \<and> protoRun (decodeRun (oaDecode rev) exampleRecords oaNewDecoder) newProto \<noteq> None"
proof -
  have "is_order rev" by (simp add: is_order_def)
  then show ?thesis using openai_stream_protocol [of rev exampleRecords] by blast
qed

end
