(* ===== verification/CodecProps.thy ===== *)
theory CodecProps
  imports JsonProps Anthropic OpenAI
begin

text \<open>
  The adapters read back what they write. A \<open>wire\<close> type has a writer and a reader that agree; the locale gives its
  slices, its pointers and its members in a larger struct, and each struct of the OpenAI response is an
  interpretation that rests on those of its fields. From these follow the round trips of errors and of responses, and
  what the OpenAI format keeps of a usage.
\<close>

declare decField.simps(2) [simp del] jsonDepth.simps(2) [simp del]

section \<open>Wire types that are read back\<close>

text \<open>A type with its writer and its reader: what is written is the text of one JSON value other than null, and
  reading it gives the value again.\<close>

locale wire =
  fixes enc :: "'a \<Rightarrow> string" and dec :: "'a decoder" and blank :: 'a and good :: "'a \<Rightarrow> bool" and k :: nat
  assumes enc_value: "good x \<Longrightarrow> value_text k (enc x)"
    and enc_not_null: "good x \<Longrightarrow> enc x \<noteq> ''null''"
    and dec_enc: "good x \<Longrightarrow> dec (enc x) blank = Some x"
begin

lemma enc_member: "validUTF8 key \<Longrightarrow> good x \<Longrightarrow> k \<le> j \<Longrightarrow> member_ok j (key, enc x)"
  using enc_value value_text_mono by (auto simp: member_ok_def)

lemma ptr_dec: "good x \<Longrightarrow> decPtr dec blank (enc x) None = Some (Some x)"
  using dec_enc enc_not_null by (simp add: decPtr_def)

lemma slice_dec: "\<forall>x \<in> set xs. good x \<Longrightarrow> decSlice dec blank (arrText (map enc xs)) [] = Some xs"
  using dec_enc enc_value by (intro decSlice_arr) auto

lemma slice_value: "\<forall>x \<in> set xs. good x \<Longrightarrow> k < j \<Longrightarrow> value_text j (arrText (map enc xs))"
  using value_text_arr [of "map enc xs" k] enc_value value_text_mono [of "Suc k" _ j] by auto

lemma slice_member: "validUTF8 key \<Longrightarrow> \<forall>x \<in> set xs. good x \<Longrightarrow> k < j \<Longrightarrow> member_ok j (key, arrText (map enc xs))"
  using slice_value by (simp add: member_ok_def)

lemma null_or_slice:
  "validUTF8 key \<Longrightarrow> \<forall>x \<in> set xs. good x \<Longrightarrow> k < j \<Longrightarrow> member_ok j (key, sliceText enc xs)"
  "\<forall>x \<in> set xs. good x \<Longrightarrow> decSlice dec blank (sliceText enc xs) [] = Some xs"
  using slice_member [of key xs j] slice_dec [of xs] value_text_mono [OF value_text_const, of "''null''" j]
  by (auto simp: sliceText_def member_ok_def decSlice_def [of dec blank "''null''"])

lemma Unmarshal_enc: "good x \<Longrightarrow> k \<le> maxNestingDepth \<Longrightarrow> Unmarshal dec (enc x) blank = Some x"
  using Unmarshal_text [OF enc_value, of x dec blank] dec_enc by simp

end

lemma obj_value: "\<forall>m \<in> set ms. member_ok j m \<Longrightarrow> j < k \<Longrightarrow> value_text k (objText ms)"
  using value_text_obj [of ms j] value_text_mono [of "Suc j" _ k] by auto

text \<open>A struct: its members are in order, and its reader rebuilds it from them.\<close>

lemma wire_struct:
  assumes "\<And>x. good x \<Longrightarrow> \<forall>m \<in> set (ms x). member_ok j m" "\<And>x. enc x = objText (ms x)" "dec = decStruct f" "j < k"
    and "\<And>x. good x \<Longrightarrow> f (ms x) blank = Some x"
  shows "wire enc dec blank good k"
proof
  fix x assume g: "good x"
  show "value_text k (enc x)" using obj_value [OF assms(1) [OF g] assms(4)] by (simp add: assms(2))
  show "enc x \<noteq> ''null''" by (simp add: assms(2))
  show "dec (enc x) blank = Some x" unfolding assms(2,3) decStruct_obj [OF assms(1) [OF g]] by (rule assms(5) [OF g])
qed

interpretation wire_string: wire quoteString decString blank validUTF8 0 for blank
  by unfold_locales (simp_all add: value_text_quote)

interpretation wire_int: wire intText decInt 0 in_i64 0
  by unfold_locales (simp_all add: value_text_int intText_isNumber)

lemma member_string: "validUTF8 key \<Longrightarrow> validUTF8 s \<Longrightarrow> member_ok j (key, quoteString s)"
  by (rule wire_string.enc_member) simp_all

lemma member_int: "validUTF8 key \<Longrightarrow> member_ok j (key, intText i)"
  using value_text_mono [OF value_text_int] by (simp add: member_ok_def)

named_theorems keys

lemma valid_keys [simp, keys]:
  "validUTF8 ''type''" "validUTF8 ''message''" "validUTF8 ''param''" "validUTF8 ''code''" "validUTF8 ''error''"
  "validUTF8 ''request_id''" "validUTF8 ''name''" "validUTF8 ''arguments''" "validUTF8 ''id''" "validUTF8 ''function''"
  "validUTF8 ''role''" "validUTF8 ''content''" "validUTF8 ''tool_calls''" "validUTF8 ''tool_call_id''"
  "validUTF8 ''index''" "validUTF8 ''finish_reason''" "validUTF8 ''object''" "validUTF8 ''created''" "validUTF8 ''model''"
  "validUTF8 ''choices''" "validUTF8 ''usage''" "validUTF8 ''prompt_tokens''" "validUTF8 ''completion_tokens''"
  "validUTF8 ''total_tokens''" "validUTF8 ''prompt_tokens_details''" "validUTF8 ''cached_tokens''"
  by (simp_all add: byteVal_def)

lemmas wire_simps = keys decField_append decField_omitIf decField_ptrMember member_string member_int

section \<open>OpenAI responses\<close>

definition call_good :: "oa_function_call \<Rightarrow> bool" where
  "call_good f \<longleftrightarrow> validUTF8 (fc_Name f) \<and> validUTF8 (fc_Arguments f)"

interpretation wire_call: wire functionCallText decFunctionCall zeroCall call_good 1
  by (rule wire_struct [where ms = "\<lambda>f. [(''name'', quoteString (fc_Name f)), (''arguments'', quoteString (fc_Arguments f))]" and j = 0,
      OF _ functionCallText_def decFunctionCall_def])
    (simp_all add: call_good_def wire_simps Let_def)

definition toolCall_good :: "oa_tool_call \<Rightarrow> bool" where
  "toolCall_good c \<longleftrightarrow> validUTF8 (otc_ID c) \<and> validUTF8 (otc_Type c) \<and> call_good (otc_Function c)"

interpretation wire_toolCall: wire toolCallText decToolCall zeroToolCall toolCall_good 2
  by (rule wire_struct [where ms = "\<lambda>c. [(''id'', quoteString (otc_ID c)), (''type'', quoteString (otc_Type c)),
        (''function'', functionCallText (otc_Function c))]" and j = 1, OF _ toolCallText_def decToolCall_def])
    (simp_all add: toolCall_good_def toolCallFields_def zeroToolCall_def wire_simps wire_call.enc_member wire_call.dec_enc)

definition message_good :: "chat_message \<Rightarrow> bool" where
  "message_good m \<longleftrightarrow> validUTF8 (cm_Role m) \<and> (\<forall>c \<in> set (cm_ToolCalls m). toolCall_good c) \<and>
     validUTF8 (cm_ToolCallID m) \<and> validUTF8 (cm_Name m) \<and>
     (cm_Content m = OAny JNull \<or> (\<exists>s. cm_Content m = OAny (JStr s) \<and> validUTF8 s))"

lemma decContent_quote: "validUTF8 s \<Longrightarrow> decContent (quoteString s) old = Some (OAny (JStr s))"
  using decAny_quote [of s False JNull] by (simp add: decContent_def decAny_def)

interpretation wire_message: wire chatMessageText decChatMessage zeroMessage message_good 4
  by (rule wire_struct [OF _ chatMessageText_def decChatMessage_def, where j = 3])
    (auto simp: message_good_def contentMember_def omitIf_def zeroMessage_def messageFields_def wire_simps decContent_quote
      wire_toolCall.slice_member wire_toolCall.slice_dec)

definition in_range_opt :: "int option \<Rightarrow> bool" where
  "in_range_opt p \<longleftrightarrow> (\<forall>i. p = Some i \<longrightarrow> in_i64 i)"

definition details_good :: "prompt_token_details \<Rightarrow> bool" where
  "details_good d \<longleftrightarrow> in_range_opt (pd_CachedTokens d)"

definition detailsText :: "prompt_token_details \<Rightarrow> string" where
  "detailsText d = objText (ptrMember ''cached_tokens'' intText (pd_CachedTokens d))"

interpretation wire_details: wire detailsText decTokenDetails "\<lparr>pd_CachedTokens = None\<rparr>" details_good 1
  by (rule wire_struct [OF _ detailsText_def decTokenDetails_def, where j = 0])
    (auto simp: details_good_def in_range_opt_def ptrMember_def wire_simps split: option.split)

lemmas oaUsageText_details = oaUsageText_def [folded detailsText_def]

definition usage_good :: "oa_usage \<Rightarrow> bool" where
  "usage_good u \<longleftrightarrow> in_range_opt (us_PromptTokens u) \<and> in_range_opt (us_CompletionTokens u) \<and>
     in_range_opt (us_TotalTokens u) \<and> (\<forall>d. us_PromptTokenDetails u = Some d \<longrightarrow> details_good d)"

interpretation wire_usage: wire oaUsageText decOaUsage zeroOaUsage usage_good 2
  by (rule wire_struct [OF _ oaUsageText_details decOaUsage_def, where j = 1])
    (auto simp: usage_good_def in_range_opt_def ptrMember_def zeroOaUsage_def usageFields_def wire_simps
      wire_details.enc_member wire_details.ptr_dec split: option.split)

definition choice_good :: "choice \<Rightarrow> bool" where
  "choice_good c \<longleftrightarrow> in_i64 (oc_Index c) \<and> message_good (oc_Message c) \<and>
     (\<forall>f. oc_FinishReason c = Some f \<longrightarrow> validUTF8 f)"

interpretation wire_choice: wire choiceText decChoice zeroChoice choice_good 5
  by (rule wire_struct [OF _ choiceText_def decChoice_def, where j = 4])
    (auto simp: choice_good_def ptrMember_def zeroChoice_def choiceFields_def wire_simps wire_message.enc_member
      wire_message.dec_enc split: option.split)

definition response_good :: "chat_response \<Rightarrow> bool" where
  "response_good r \<longleftrightarrow> validUTF8 (or_ID r) \<and> validUTF8 (or_Object r) \<and> in_i64 (or_Created r) \<and> validUTF8 (or_Model r) \<and>
     (\<forall>c \<in> set (or_Choices r). choice_good c) \<and> (\<forall>u. or_Usage r = Some u \<longrightarrow> usage_good u)"

interpretation wire_response: wire chatResponseText decChatResponse zeroChatResponse response_good 7
  by (rule wire_struct [OF _ chatResponseText_def decChatResponse_def, where j = 6])
    (auto simp: response_good_def ptrMember_def zeroChatResponse_def responseFields_def wire_simps
      wire_choice.null_or_slice wire_usage.enc_member wire_usage.ptr_dec split: option.split)

section \<open>Errors\<close>

definition error_ok :: "error_response \<Rightarrow> bool" where
  "error_ok e \<longleftrightarrow> er_Message e \<noteq> [] \<and> er_Type e \<noteq> [] \<and> validUTF8 (er_Message e) \<and> validUTF8 (er_Type e) \<and>
     validUTF8 (er_RequestID e) \<and>
     (\<forall>j. er_Param e = Some j \<or> er_Code e = Some j \<longrightarrow> wfJson j \<and> j \<noteq> JNull \<and> jsonDepth j \<le> 9998)"

lemma openai_error:
  assumes "error_ok e" "er_RequestID e = []" "oaBuildError e = Inr t"
  shows "oaParseError t = Inr (Some e)"
proof -
  define ms where "ms = [(''message'', quoteString (er_Message e)), (''type'', quoteString (er_Type e))] @
       ptrMember ''param'' anyText (er_Param e) @ ptrMember ''code'' anyText (er_Code e)"
  have t: "t = objText [(''error'', objText ms)]" using assms(3) by (simp add: oaBuildError_def ms_def)
  have v: "value_text 9998 (anyText j)" if "er_Param e = Some j \<or> er_Code e = Some j" for j
  proof -
    have "wfJson j" "jsonDepth j \<le> 9998" using assms(1) that by (auto simp: error_ok_def)
    then show ?thesis using value_text_mono [OF anyText_value] by blast
  qed
  have str: "validUTF8 (er_Message e)" "validUTF8 (er_Type e)" using assms(1) by (simp_all add: error_ok_def)
  have "member_ok 9998 (''message'', quoteString (er_Message e))" "member_ok 9998 (''type'', quoteString (er_Type e))"
    using str value_text_quote value_text_mono by (auto simp: member_ok_def)
  then have ms: "\<forall>m \<in> set ms. member_ok 9998 m"
    using v by (auto simp: ms_def ptrMember_def member_ok_def split: option.splits)
  then have outer: "\<forall>m \<in> set [(''error'', objText ms)]. member_ok 9999 m"
    using value_text_obj [of ms 9998] by (simp add: member_ok_def)
  have "value_text 10000 t" unfolding t using value_text_obj [OF outer] by simp
  then have "Unmarshal decOaErrorEnvelope t old = decOaErrorEnvelope t old" for old
    by (rule Unmarshal_text) (simp add: maxNestingDepth_def)
  moreover have "decOaErrorEnvelope t old = decOaErrorBody (objText ms) old" for old
    unfolding decOaErrorEnvelope_def t by (subst decStruct_obj [OF outer]) simp
  moreover have "decOaErrorBody (objText ms) \<lparr>oe_Message = [], oe_Type = [], oe_Param = JNull, oe_Code = JNull\<rparr> =
      Some \<lparr>oe_Message = er_Message e, oe_Type = er_Type e, oe_Param = (case er_Param e of None \<Rightarrow> JNull | Some j \<Rightarrow> j),
        oe_Code = (case er_Code e of None \<Rightarrow> JNull | Some j \<Rightarrow> j)\<rparr>"
    unfolding decOaErrorBody_def decStruct_obj [OF ms] using assms(1) str
    by (simp add: ms_def oaErrorFields_def decField_append decField_ptrMember error_ok_def split: option.split)
  ultimately show ?thesis using assms(1,2)
    by (auto simp: oaParseError_def error_ok_def nonNil_def split: option.split)
qed

lemma anthropic_error:
  assumes "error_ok e" "er_Param e = None" "er_Code e = None" "anBuildError e = Inr t"
  shows "anParseError t = Inr (Some e)"
proof -
  define body where "body = [(''type'', quoteString (er_Type e)), (''message'', quoteString (er_Message e))]"
  define ms where "ms = [(''type'', quoteString ''error''), (''error'', objText body)] @
       omitIf (er_RequestID e = []) ''request_id'' (quoteString (er_RequestID e))"
  have t: "t = objText ms" using assms(4) by (simp add: anBuildError_def ms_def body_def)
  have str: "validUTF8 (er_Message e)" "validUTF8 (er_Type e)" "validUTF8 (er_RequestID e)"
    using assms(1) by (simp_all add: error_ok_def)
  then have body: "\<forall>m \<in> set body. member_ok 0 m" by (simp add: body_def member_ok_def value_text_quote)
  have "member_ok 1 (k, quoteString s)" if "validUTF8 k" "validUTF8 s" for k s
    using that value_text_quote value_text_mono [of 0 _ 1] by (simp add: member_ok_def)
  then have ms: "\<forall>m \<in> set ms. member_ok 1 m"
    using value_text_obj [OF body] str by (simp add: ms_def omitIf_def member_ok_def)
  have "value_text 2 t" unfolding t using value_text_obj [OF ms] by (simp add: numeral_2_eq_2)
  then have "Unmarshal decAnErrorEnvelope t old = decAnErrorEnvelope t old" for old
    by (rule Unmarshal_text) (simp add: maxNestingDepth_def)
  moreover have "decAnErrorBody (objText body) old = Some \<lparr>ae_Type = er_Type e, ae_Message = er_Message e\<rparr>" for old
    unfolding decAnErrorBody_def decStruct_obj [OF body] using str by (simp add: body_def)
  then have "decAnErrorEnvelope t \<lparr>av_Type = [], av_Error = b, av_RequestID = []\<rparr> = Some \<lparr>av_Type = ''error'',
      av_Error = \<lparr>ae_Type = er_Type e, ae_Message = er_Message e\<rparr>, av_RequestID = er_RequestID e\<rparr>" for b
    unfolding decAnErrorEnvelope_def t decStruct_obj [OF ms] using str
    by (simp add: ms_def envelopeFields_def decField_append decField_omitIf)
  ultimately show ?thesis using assms(1-3)
    by (simp add: anParseError_def error_ok_def)
qed

text \<open>C38. The error codecs keep errors: an error written for an OpenAI client comes back with its type, message, parameter
  and code, one written for an Anthropic client with its type, message and request id.\<close>

theorem error_codecs_roundtrip:
  assumes "error_ok e"
  shows "(er_RequestID e = [] \<longrightarrow> (case oaBuildError e of Inl x \<Rightarrow> False | Inr t \<Rightarrow> oaParseError t = Inr (Some e))) \<and>
    (er_Param e = None \<and> er_Code e = None \<longrightarrow>
       (case anBuildError e of Inl x \<Rightarrow> False | Inr t \<Rightarrow> anParseError t = Inr (Some e)))"
  using openai_error [OF assms] anthropic_error [OF assms] by (auto simp: oaBuildError_def anBuildError_def)

definition exampleError :: error_response where
  "exampleError = \<lparr>er_Type = ''invalid_request_error'', er_Message = ''no such <model>'', er_Param = Some (JStr ''model''),
     er_Code = Some (JObj [(''a'', JArr [JBool True, JNull])]), er_RequestID = []\<rparr>"

definition exampleError2 :: error_response where
  "exampleError2 = \<lparr>er_Type = ''overloaded_error'', er_Message = ''busy'', er_Param = None, er_Code = None,
     er_RequestID = ''r1''\<rparr>"

lemma exampleError_ok: "error_ok exampleError" "error_ok exampleError2"
  by (auto simp: error_ok_def exampleError_def exampleError2_def byteVal_def memberDepth_def)

theorem error_codecs_roundtrip_witness:
  "(case oaBuildError exampleError of Inl x \<Rightarrow> False | Inr t \<Rightarrow> oaParseError t = Inr (Some exampleError)) \<and>
   (case anBuildError exampleError2 of Inl x \<Rightarrow> False | Inr t \<Rightarrow> anParseError t = Inr (Some exampleError2))"
proof -
  have "er_RequestID exampleError = []" "er_Param exampleError2 = None" "er_Code exampleError2 = None"
    by (simp_all add: exampleError_def exampleError2_def)
  then show ?thesis using error_codecs_roundtrip [OF exampleError_ok(1)] error_codecs_roundtrip [OF exampleError_ok(2)] by blast
qed

section \<open>Usage on the OpenAI wire\<close>

definition usageView :: "Canonical.usage \<Rightarrow> Canonical.usage" where
  "usageView u = (case oaUsageFromWire (oaWireUsage u) of None \<Rightarrow> zeroUsage | Some v \<Rightarrow> v)"

lemma checkedTokenSum_Some:
  "checkedTokenSum t vs = Some s \<Longrightarrow> s = t + sum_list vs \<and> list_all (\<lambda>v. 0 \<le> v) vs \<and> (0 \<le> t \<and> t < 2 ^ 63 \<longrightarrow> t \<le> s \<and> s < 2 ^ 63)"
  by (induction t vs rule: checkedTokenSum.induct) (auto split: if_splits)

lemma checkedTokenSum_ok:
  "list_all (\<lambda>v. 0 \<le> v) vs \<Longrightarrow> t + sum_list vs < 2 ^ 63 \<Longrightarrow> checkedTokenSum t vs = Some (t + sum_list vs)"
proof (induction vs arbitrary: t)
  case (Cons v vs)
  have "0 \<le> sum_list vs" using Cons.prems(1) by (induction vs) auto
  then show ?case using Cons by auto
qed simp

text \<open>The prompt as it is billed: all input tokens, cached or not.\<close>

definition promptTotal :: "Canonical.usage \<Rightarrow> int" where
  "promptTotal u = u_InputTokens u + u_CacheCreationInputTokens u + u_CacheReadInputTokens u"

definition cleanUsage :: "Canonical.usage \<Rightarrow> bool" where
  "cleanUsage u \<longleftrightarrow> 0 \<le> u_InputTokens u \<and> 0 \<le> u_CacheCreationInputTokens u \<and> 0 \<le> u_CacheReadInputTokens u \<and> promptTotal u < 2 ^ 63"

text \<open>A usage that crosses the OpenAI wire keeps what it knows and gains nothing: the output and a reported total come
  back as they were, the input is known afterwards exactly if it was known and its parts are not negative and fit an int,
  the prompt then has the same size, its cached part is kept, and a total that was not reported is the exact sum.\<close>

theorem openai_usage_honest:
  "u_OutputTokensKnown (usageView u) = u_OutputTokensKnown u \<and>
   (u_OutputTokensKnown u \<longrightarrow> u_OutputTokens (usageView u) = u_OutputTokens u) \<and>
   u_InputTokensKnown (usageView u) = (u_InputTokensKnown u \<and> cleanUsage u) \<and>
   (u_InputTokensKnown (usageView u) \<longrightarrow>
      promptTotal (usageView u) = promptTotal u \<and> u_CacheReadInputTokens (usageView u) = u_CacheReadInputTokens u) \<and>
   (u_TotalTokensKnown u \<longrightarrow> u_TotalTokensKnown (usageView u) \<and> u_ReportedTotalTokens (usageView u) = u_ReportedTotalTokens u) \<and>
   (u_TotalTokensKnown (usageView u) \<and> \<not> u_TotalTokensKnown u \<longrightarrow>
      u_InputTokensKnown u \<and> u_OutputTokensKnown u \<and> u_ReportedTotalTokens (usageView u) = promptTotal u + u_OutputTokens u)"
proof (cases "checkedTokenSum 0 [u_InputTokens u, u_CacheCreationInputTokens u, u_CacheReadInputTokens u]")
  case None
  then have "\<not> cleanUsage u"
    using checkedTokenSum_ok [of "[u_InputTokens u, u_CacheCreationInputTokens u, u_CacheReadInputTokens u]" 0]
    by (auto simp: cleanUsage_def promptTotal_def)
  then show ?thesis using None
    by (auto simp: usageView_def oaWireUsage_def oaUsageFromWire_def Let_def zeroUsage_def)
next
  case (Some s)
  have s: "s = promptTotal u" "cleanUsage u"
    using checkedTokenSum_Some [OF Some] by (auto simp: cleanUsage_def promptTotal_def)
  then show ?thesis using Some
    by (auto simp: usageView_def oaWireUsage_def oaUsageFromWire_def Let_def zeroUsage_def promptTotal_def cleanUsage_def
        simp del: checkedTokenSum.simps split: if_splits)
qed

definition exampleUsage :: Canonical.usage where
  "exampleUsage = zeroUsage\<lparr>u_InputTokens := 100, u_OutputTokens := 7, u_InputTokensKnown := True,
     u_OutputTokensKnown := True, u_CacheCreationInputTokens := 3, u_CacheReadInputTokens := 20\<rparr>"

theorem openai_usage_honest_witness:
  "u_InputTokensKnown exampleUsage \<and> cleanUsage exampleUsage \<and> \<not> u_TotalTokensKnown exampleUsage \<and>
   promptTotal (usageView exampleUsage) = 123 \<and> u_OutputTokens (usageView exampleUsage) = 7 \<and>
   u_TotalTokensKnown (usageView exampleUsage) \<and> u_ReportedTotalTokens (usageView exampleUsage) = 130"
proof -
  have "u_InputTokensKnown exampleUsage" "u_OutputTokensKnown exampleUsage" "\<not> u_TotalTokensKnown exampleUsage"
    "cleanUsage exampleUsage" "promptTotal exampleUsage = 123" "u_OutputTokens exampleUsage = 7"
    by (simp_all add: exampleUsage_def cleanUsage_def promptTotal_def zeroUsage_def)
  moreover have "u_TotalTokensKnown (usageView exampleUsage)" by code_simp
  ultimately show ?thesis using openai_usage_honest [of exampleUsage] by simp
qed

section \<open>Responses through the OpenAI wire\<close>

text \<open>What of a response the OpenAI format can say: the text in one piece, then the tool calls with their arguments as
  they are written, a stop reason of its own list, the usage of \<open>usageView\<close>.\<close>

definition callView :: "content_block \<Rightarrow> content_block" where
  "callView b = SetToolInputJSON (Some (ToolInputBytes b)) (toolUseBlock (cb_ToolUseID b) (cb_ToolName b))"

definition contentView :: "content_block list \<Rightarrow> content_block list" where
  "contentView bs =
     (if blocksToText bs = [] then [] else [textBlock (blocksToText bs)]) @
     map callView (filter (\<lambda>b. cb_Type b = BlockToolUse) bs)"

definition stopView :: "stop_reason \<Rightarrow> stop_reason" where
  "stopView r = (if r \<in> {StopMaxTokens, StopToolUse, StopError} then r else StopEndTurn)"

definition openaiView :: "response \<Rightarrow> response" where
  "openaiView r = \<lparr>rs_ID = rs_ID r, rs_Model = rs_Model r, rs_Role = RoleAssistant, rs_Content = contentView (rs_Content r),
     rs_StopReason = stopView (rs_StopReason r), rs_Usage = usageView (rs_Usage r)\<rparr>"

definition block_valid :: "content_block \<Rightarrow> bool" where
  "block_valid b \<longleftrightarrow> validUTF8 (cb_Text b) \<and> validUTF8 (cb_ToolUseID b) \<and> validUTF8 (cb_ToolName b) \<and> validUTF8 (ToolInputBytes b)"

definition usage_valid :: "Canonical.usage \<Rightarrow> bool" where
  "usage_valid u \<longleftrightarrow> in_i64 (u_InputTokens u) \<and> in_i64 (u_OutputTokens u) \<and> in_i64 (u_ReportedTotalTokens u) \<and>
     in_i64 (u_CacheCreationInputTokens u) \<and> in_i64 (u_CacheReadInputTokens u)"

definition response_valid :: "response \<Rightarrow> bool" where
  "response_valid r \<longleftrightarrow> validUTF8 (rs_ID r) \<and> validUTF8 (rs_Model r) \<and> list_all block_valid (rs_Content r) \<and>
     usage_valid (rs_Usage r)"

lemma oaStop_view: "oaStopReason (oaFinishReason r) = stopView r"
  by (auto simp: oaStopReason_def oaFinishReason_def stopView_def StopEndTurn_def StopStop_def StopMaxTokens_def StopToolUse_def
      StopError_def)

lemma blocksToText_valid: "list_all block_valid bs \<Longrightarrow> validUTF8 (blocksToText bs)"
  unfolding blocksToText_def by (rule validUTF8_concat) (auto simp: list_all_iff block_valid_def)

lemma wireUsage_good: "usage_valid u \<Longrightarrow> oaWireUsage u = Some w \<Longrightarrow> usage_good w"
  using checkedTokenSum_Some [of 0 "[u_InputTokens u, u_CacheCreationInputTokens u, u_CacheReadInputTokens u]"]
  by (auto simp: oaWireUsage_def Let_def usage_good_def usage_valid_def in_range_opt_def details_good_def in_i64_def max_int64_def min_int64_def
      simp del: checkedTokenSum.simps split: if_splits option.splits)

lemma assistant_good: "list_all block_valid bs \<Longrightarrow> message_good (buildAssistantMessage bs)"
  using blocksToText_valid [of bs] valid_keys
  by (auto simp: buildAssistantMessage_def message_good_def zeroMessage_def buildCall_def toolCall_good_def call_good_def
      list_all_iff block_valid_def byteVal_def Let_def)

lemma assistant_parsed: "parseAssistantContent (buildAssistantMessage bs) = Inr (contentView bs)"
  by (auto simp: parseAssistantContent_def buildAssistantMessage_def anyContent_def zeroMessage_def contentToString_def
      contentView_def callBlock_def buildCall_def callView_def Let_def)

text \<open>C39. A response that is written for an OpenAI client reads back as its view: every byte of text and every tool call
  with its exact arguments is there, in order, with the identifiers, the stop reason and the usage that the format has
  room for.\<close>

theorem openai_response_roundtrip:
  assumes "response_valid r"
  shows "case oaBuildResponse r of Inl e \<Rightarrow> False | Inr t \<Rightarrow> oaParseResponse t = Inr (openaiView r)"
proof -
  define w where "w = \<lparr>or_ID = rs_ID r, or_Object = ''chat.completion'', or_Created = 0, or_Model = rs_Model r,
       or_Choices = [\<lparr>oc_Index = 0, oc_Message = buildAssistantMessage (rs_Content r),
         oc_FinishReason = Some (oaFinishReason (rs_StopReason r))\<rparr>], or_Usage = oaWireUsage (rs_Usage r)\<rparr>"
  have "validUTF8 (oaFinishReason (rs_StopReason r))" "validUTF8 ''chat.completion''"
    by (simp_all add: oaFinishReason_def byteVal_def)
  then have "response_good w"
    using assms assistant_good wireUsage_good
    by (auto simp: response_good_def w_def choice_good_def response_valid_def in_i64_def
      max_int64_def min_int64_def)
  then have "Unmarshal decChatResponse (chatResponseText w) zeroChatResponse = Some w"
    by (rule wire_response.Unmarshal_enc) (simp add: maxNestingDepth_def)
  then show ?thesis
    by (simp add: oaBuildResponse_def oaParseResponse_def w_def [symmetric])
      (simp add: w_def assistant_parsed openaiView_def oaStop_view usageView_def split: option.split)
qed

definition exampleResponse :: response where
  "exampleResponse = \<lparr>rs_ID = ''msg_1'', rs_Model = ''claude'', rs_Role = RoleAssistant,
     rs_Content = [thinkingBlock ''hm'' ''sig'', textBlock ''Let me '', textBlock ''look.'',
       SetToolInputJSON (Some ''{ }'') (toolUseBlock ''t1'' ''weather'')],
     rs_StopReason = StopToolUse, rs_Usage = exampleUsage\<rparr>"

theorem openai_response_roundtrip_witness:
  "(case oaBuildResponse exampleResponse of Inl e \<Rightarrow> False | Inr t \<Rightarrow> oaParseResponse t = Inr (openaiView exampleResponse)) \<and>
   rs_Content (openaiView exampleResponse) =
     [textBlock ''Let me look.'', SetToolInputJSON (Some ''{ }'') (toolUseBlock ''t1'' ''weather'')]"
proof
  have "response_valid exampleResponse"
    by (simp add: response_valid_def exampleResponse_def exampleUsage_def zeroUsage_def block_valid_def usage_valid_def in_i64_def
        max_int64_def min_int64_def thinkingBlock_def textBlock_def toolUseBlock_def SetToolInputJSON_def ToolInputBytes_def
        byteVal_def)
  then show "case oaBuildResponse exampleResponse of Inl e \<Rightarrow> False | Inr t \<Rightarrow> oaParseResponse t = Inr (openaiView exampleResponse)"
    by (rule openai_response_roundtrip)
  show "rs_Content (openaiView exampleResponse) =
     [textBlock ''Let me look.'', SetToolInputJSON (Some ''{ }'') (toolUseBlock ''t1'' ''weather'')]"
    by (simp add: openaiView_def exampleResponse_def contentView_def blocksToText_def callView_def thinkingBlock_def textBlock_def
        toolUseBlock_def SetToolInputJSON_def ToolInputBytes_def BlockText_def BlockThinking_def BlockToolUse_def)
qed

end
