(* ===== verification/ChannelKeys.thy ===== *)
theory ChannelKeys
  imports GoStrings Prelude
begin

text \<open>
  The envelope encryption of upstream credentials: \<open>internal/admin/channel_key_crypto.go\<close>, with the
  parts of Go's \<open>encoding/base64\<close> that it uses, on strings of bytes.

  AES-256-GCM is a parameter: a record of \<open>Seal\<close> and \<open>Open\<close> with the sizes of the nonce and of the
  tag. \<open>aead_ok\<close> states the documented behaviour of the AEAD that correctness needs, and
  \<open>aead_binds\<close> that it authenticates the additional data. The random source is the string of bytes
  that the reader yields; it may be too short.
\<close>

section \<open>Base64\<close>

definition b64URL :: string where
  "b64URL = ''ABCDEFGHIJKLMNOPQRSTUVWXYZabcdefghijklmnopqrstuvwxyz0123456789-_''"

definition b64Std :: string where
  "b64Std = ''ABCDEFGHIJKLMNOPQRSTUVWXYZabcdefghijklmnopqrstuvwxyz0123456789+/''"

definition b64Val :: "string \<Rightarrow> char \<Rightarrow> nat option" where
  "b64Val alphabet c = find (\<lambda>n. alphabet ! n = c) [0..<64]"

text \<open>The digits of a text of bytes, without padding; a last group of one or two bytes is two or three
  digits.\<close>

fun b64Digits :: "nat list \<Rightarrow> nat list" where
  "b64Digits [] = []"
| "b64Digits [a] = [a div 4, a mod 4 * 16]"
| "b64Digits [a, b] = [a div 4, a mod 4 * 16 + b div 16, b mod 16 * 4]"
| "b64Digits (a # b # c # r) =
     [a div 4, a mod 4 * 16 + b div 16, b mod 16 * 4 + c div 64, c mod 64] @ b64Digits r"

definition RawURLEncode :: "string \<Rightarrow> string" where
  "RawURLEncode s = map (\<lambda>n. b64URL ! n) (b64Digits (map of_char s))"

text \<open>The bytes of the digits; bits left over in the last digit are dropped, as the decoder does when it
  is not strict. One digit alone is an error.\<close>

fun b64Bytes :: "nat list \<Rightarrow> string option" where
  "b64Bytes [] = Some []"
| "b64Bytes [x] = None"
| "b64Bytes [x, y] = Some [byte (x * 4 + y div 16)]"
| "b64Bytes [x, y, z] = Some [byte (x * 4 + y div 16), byte (y mod 16 * 16 + z div 4)]"
| "b64Bytes (x # y # z # w # r) =
     map_option (\<lambda>s. [byte (x * 4 + y div 16), byte (y mod 16 * 16 + z div 4), byte (z mod 4 * 64 + w)] @ s)
       (b64Bytes r)"

definition skipNewlines :: "string \<Rightarrow> string" where
  "skipNewlines s = filter (\<lambda>c. c \<noteq> CR \<and> c \<noteq> LF) s"

definition RawURLDecode :: "string \<Rightarrow> string option" where
  "RawURLDecode s = Option.bind (those (map (b64Val b64URL) (skipNewlines s))) b64Bytes"

text \<open>With padding: groups of four, and nothing after a padded one.\<close>

fun stdGroups :: "string \<Rightarrow> nat list option" where
  "stdGroups [] = Some []"
| "stdGroups (a # b # c # d # r) =
     (if d = CHR ''='' then
        (if r \<noteq> [] then None
         else those (map (b64Val b64Std) (if c = CHR ''='' then [a, b] else [a, b, c])))
      else Option.bind (those (map (b64Val b64Std) [a, b, c, d])) (\<lambda>xs. map_option (\<lambda>ys. xs @ ys) (stdGroups r)))"
| "stdGroups _ = None"

definition StdDecode :: "string \<Rightarrow> string option" where
  "StdDecode s = Option.bind (stdGroups (skipNewlines s)) b64Bytes"

section \<open>The cipher\<close>

record aead =
  ad_NonceSize :: nat
  ad_Overhead :: nat
  ad_Seal :: "string \<Rightarrow> string \<Rightarrow> string \<Rightarrow> string"
  ad_Open :: "string \<Rightarrow> string \<Rightarrow> string \<Rightarrow> string option"

text \<open>\<open>ChannelKeyCipher\<close>; a nil pointer is \<open>None\<close>.\<close>

record channel_key_cipher =
  kc_keyID :: string
  kc_aead :: aead

definition channelKeyEnvelopePrefix :: string where
  "channelKeyEnvelopePrefix = ''linapi:channel-key:''"

definition channelKeyEnvelopeV1 :: string where
  "channelKeyEnvelopeV1 = channelKeyEnvelopePrefix @ ''v1:''"

definition maxChannelAPIKeyBytes :: nat where
  "maxChannelAPIKeyBytes = 65536"

text \<open>Every rune outside ASCII has only bytes outside the accepted set, so the check by bytes is the
  check by runes.\<close>

definition keyIDChar :: "char \<Rightarrow> bool" where
  "keyIDChar c \<longleftrightarrow> (let n = (of_char c :: nat) in
     (97 \<le> n \<and> n \<le> 122) \<or> (65 \<le> n \<and> n \<le> 90) \<or> (48 \<le> n \<and> n \<le> 57) \<or> c = CHR ''.'' \<or> c = CHR ''_'' \<or> c = CHR ''-'')"

definition validChannelKeyID :: "string \<Rightarrow> bool" where
  "validChannelKeyID keyID \<longleftrightarrow> keyID \<noteq> [] \<and> length keyID \<le> 64 \<and> list_all keyIDChar keyID"

text \<open>\<open>gcm\<close> is the AEAD that \<open>aes.NewCipher\<close> and \<open>cipher.NewGCM\<close> make of a key of 32 bytes.\<close>

definition NewChannelKeyCipher :: "(string \<Rightarrow> aead) \<Rightarrow> string \<Rightarrow> string \<Rightarrow> channel_key_cipher result" where
  "NewChannelKeyCipher gcm keyID encodedKey =
     (if \<not> validChannelKeyID keyID then Inl (ErrOther ''key_id'')
      else (case StdDecode (TrimSpace encodedKey) of
              None \<Rightarrow> Inl (ErrOther ''key'')
            | Some key \<Rightarrow>
                if length key \<noteq> 32 then Inl (ErrOther ''key'')
                else Inr \<lparr>kc_keyID = keyID, kc_aead = gcm key\<rparr>))"

definition channelKeyAAD :: "string \<Rightarrow> string" where
  "channelKeyAAD channelID = ''linapi/channel-key/v1'' @ [byte 0] @ channelID"

definition Encrypt :: "channel_key_cipher option \<Rightarrow> string \<Rightarrow> string \<Rightarrow> string \<Rightarrow> string result" where
  "Encrypt c rand channelID plaintext =
     (case c of
        None \<Rightarrow> Inl ErrChannelKeyEncryptionRequired
      | Some c \<Rightarrow>
          if channelID = [] \<or> length plaintext > maxChannelAPIKeyBytes then Inl ErrInvalidInput
          else
            let nonce = take (ad_NonceSize (kc_aead c)) rand in
            if length nonce < ad_NonceSize (kc_aead c) then Inl (ErrOther ''nonce'')
            else
              let payload = nonce @ ad_Seal (kc_aead c) nonce plaintext (channelKeyAAD channelID) in
              Inr (channelKeyEnvelopeV1 @ RawURLEncode (kc_keyID c) @ '':'' @ RawURLEncode payload))"

definition Decrypt :: "channel_key_cipher option \<Rightarrow> string \<Rightarrow> string \<Rightarrow> string result" where
  "Decrypt c channelID envelope =
     (case c of
        None \<Rightarrow> Inl ErrChannelKeyEncryptionRequired
      | Some c \<Rightarrow>
          if channelID = [] \<or> length envelope > 2 * maxChannelAPIKeyBytes then Inl ErrInvalidChannelKeyEnvelope
          else
            let parts = SplitByte (CHR '':'') envelope in
            if length parts \<noteq> 5 \<or> JoinBytes '':'' (take 3 parts) @ '':'' \<noteq> channelKeyEnvelopeV1
            then Inl ErrInvalidChannelKeyEnvelope
            else if RawURLDecode (parts ! 3) \<noteq> Some (kc_keyID c) then Inl ErrInvalidChannelKeyEnvelope
            else
              (case RawURLDecode (parts ! 4) of
                 None \<Rightarrow> Inl ErrInvalidChannelKeyEnvelope
               | Some payload \<Rightarrow>
                   if length payload < ad_NonceSize (kc_aead c) + ad_Overhead (kc_aead c)
                   then Inl ErrInvalidChannelKeyEnvelope
                   else
                     let nonce = take (ad_NonceSize (kc_aead c)) payload;
                         ciphertext = drop (ad_NonceSize (kc_aead c)) payload in
                     (case ad_Open (kc_aead c) nonce ciphertext (channelKeyAAD channelID) of
                        None \<Rightarrow> Inl ErrInvalidChannelKeyEnvelope
                      | Some plaintext \<Rightarrow>
                          if length plaintext > maxChannelAPIKeyBytes then Inl ErrInvalidChannelKeyEnvelope
                          else Inr plaintext)))"

definition isChannelKeyEnvelope :: "string \<Rightarrow> bool" where
  "isChannelKeyEnvelope v = HasPrefix v channelKeyEnvelopePrefix"

section \<open>Base64 reads back what it writes\<close>

lemma b64URL_distinct: "distinct b64URL" "length b64URL = 64"
  by (simp_all add: b64URL_def)

lemma find_skip: "find P xs = None \<Longrightarrow> find P (xs @ ys) = find P ys"
  by (induction xs) (auto split: if_splits)

lemma b64Val_nth:
  assumes "n < 64"
  shows "b64Val b64URL (b64URL ! n) = Some n"
proof -
  have *: "b64URL ! m = b64URL ! n \<longleftrightarrow> m = n" if "m < 64" for m
    using that assms b64URL_distinct by (simp add: nth_eq_iff_index_eq)
  have "[0..<64] = [0..<n] @ n # [Suc n..<64]"
    using assms upt_add_eq_append [of 0 n "64 - n"] by (simp add: upt_conv_Cons)
  moreover have "find (\<lambda>m. b64URL ! m = b64URL ! n) [0..<n] = None"
    using assms * by (auto simp: find_None_iff)
  ultimately show ?thesis
    by (simp add: b64Val_def find_skip)
qed

lemma b64Digits_lt: "\<forall>a \<in> set as. a < 256 \<Longrightarrow> \<forall>x \<in> set (b64Digits as). x < 64"
  by (induction as rule: b64Digits.induct) auto

lemma b64Digits_length: "length (b64Digits as) = length as + (length as + 2) div 3"
  by (induction as rule: b64Digits.induct) auto

lemma sextet: "(b :: nat) < 256 \<Longrightarrow> b div 16 div 16 = 0 \<and> b div 16 mod 16 = b div 16"
  by (simp add: div_mult2_eq [symmetric] less_mult_imp_div_less)

lemma quartet: "(c :: nat) < 256 \<Longrightarrow> c div 64 div 4 = 0 \<and> c div 64 mod 4 = c div 64"
  by (simp add: div_mult2_eq [symmetric] less_mult_imp_div_less)

lemma b64Bytes_Digits:
  "\<forall>a \<in> set as. a < 256 \<Longrightarrow> b64Bytes (b64Digits as) = Some (map byte as)"
proof (induction as rule: b64Digits.induct)
  case (2 a)
  have "a div 4 * 4 + a mod 4 * 16 div 16 = a" by simp
  then show ?case by simp
next
  case (3 a b)
  then show ?case using sextet [of b] by simp
next
  case (4 a b c r)
  then show ?case using sextet [of b] quartet [of c] by simp
qed simp

lemma those_digits: "\<forall>n \<in> set ns. n < 64 \<Longrightarrow> those (map (b64Val b64URL) (map ((!) b64URL) ns)) = Some ns"
  by (induction ns) (auto simp: b64Val_nth)

lemma URL_digit: "n < 64 \<Longrightarrow> b64URL ! n \<noteq> CHR '':'' \<and> b64URL ! n \<noteq> CR \<and> b64URL ! n \<noteq> LF"
proof -
  assume "n < 64"
  then have "b64URL ! n \<in> set b64URL" by (simp add: b64URL_distinct)
  moreover have "CHR '':'' \<notin> set b64URL" "CR \<notin> set b64URL" "LF \<notin> set b64URL"
    by (simp_all add: b64URL_def CR_def LF_def byte_def char_of_def)
  ultimately show ?thesis by metis
qed

lemma RawURLEncode_set: "c \<in> set (RawURLEncode s) \<Longrightarrow> \<exists>n < 64. c = b64URL ! n"
  using b64Digits_lt [of "map of_char s"] by (auto simp: RawURLEncode_def)

lemma RawURLEncode_colon: "CHR '':'' \<notin> set (RawURLEncode s)"
  using RawURLEncode_set URL_digit by fastforce

lemma RawURLEncode_length: "length (RawURLEncode s) = length s + (length s + 2) div 3"
  by (simp add: RawURLEncode_def b64Digits_length)

lemma RawURLDecode_Encode [simp]: "RawURLDecode (RawURLEncode s) = Some s"
proof -
  have lt: "\<forall>x \<in> set (b64Digits (map of_char s)). x < 64" by (rule b64Digits_lt) auto
  have "skipNewlines (RawURLEncode s) = RawURLEncode s"
    unfolding skipNewlines_def using RawURLEncode_set URL_digit by (intro filter_True) fastforce
  then have "RawURLDecode (RawURLEncode s) = b64Bytes (b64Digits (map of_char s))"
    unfolding RawURLDecode_def by (simp only: RawURLEncode_def those_digits [OF lt] Option.bind.simps)
  also have "\<dots> = Some (map byte (map of_char s))" by (rule b64Bytes_Digits) auto
  finally show ?thesis by (simp add: byte_def comp_def)
qed

section \<open>Envelopes\<close>

definition aead_ok :: "aead \<Rightarrow> bool" where
  "aead_ok A \<longleftrightarrow> ad_NonceSize A = 12 \<and> ad_Overhead A = 16 \<and>
     (\<forall>n p a. length n = 12 \<longrightarrow> ad_Open A n (ad_Seal A n p a) a = Some p \<and>
        length (ad_Seal A n p a) = length p + 16)"

definition cipher_ok :: "channel_key_cipher \<Rightarrow> bool" where
  "cipher_ok c \<longleftrightarrow> validChannelKeyID (kc_keyID c) \<and> aead_ok (kc_aead c)"

lemma V1_text: "channelKeyEnvelopeV1 = ''linapi'' @ '':'' @ ''channel-key'' @ '':'' @ ''v1'' @ '':''"
  by (simp add: channelKeyEnvelopeV1_def channelKeyEnvelopePrefix_def)

lemma envelope_parts:
  assumes "CHR '':'' \<notin> set a" "CHR '':'' \<notin> set b"
  shows "SplitByte (CHR '':'') (channelKeyEnvelopeV1 @ a @ '':'' @ b) = [''linapi'', ''channel-key'', ''v1'', a, b]"
proof -
  have "channelKeyEnvelopeV1 @ a @ '':'' @ b = JoinBytes '':'' [''linapi'', ''channel-key'', ''v1'', a, b]"
    by (simp add: V1_text)
  then show ?thesis
    using assms Split_Join [of "[''linapi'', ''channel-key'', ''v1'', a, b]" "CHR '':''"] by (simp del: JoinBytes.simps)
qed

definition envelopeOf :: "channel_key_cipher \<Rightarrow> string \<Rightarrow> string" where
  "envelopeOf c payload = channelKeyEnvelopeV1 @ RawURLEncode (kc_keyID c) @ '':'' @ RawURLEncode payload"

lemma envelope_length:
  assumes "validChannelKeyID (kc_keyID c)" "length payload \<le> 65564"
  shows "length (envelopeOf c payload) \<le> 2 * maxChannelAPIKeyBytes"
proof -
  have "length (kc_keyID c) \<le> 64" using assms(1) by (simp add: validChannelKeyID_def)
  then have "length (RawURLEncode (kc_keyID c)) \<le> 86" "length (RawURLEncode payload) \<le> 87419"
    using assms(2) by (simp_all add: RawURLEncode_length)
  then show ?thesis
    by (simp add: envelopeOf_def V1_text maxChannelAPIKeyBytes_def)
qed

lemma Encrypt_cases:
  assumes "Encrypt (Some c) rand channelID plaintext = Inr env"
  obtains n where "channelID \<noteq> []" "length plaintext \<le> maxChannelAPIKeyBytes" "length n = ad_NonceSize (kc_aead c)"
    "env = envelopeOf c (n @ ad_Seal (kc_aead c) n plaintext (channelKeyAAD channelID))"
proof (rule that)
  show "channelID \<noteq> []" "length plaintext \<le> maxChannelAPIKeyBytes"
    using assms by (auto simp: Encrypt_def Let_def split: if_splits)
  show "length (take (ad_NonceSize (kc_aead c)) rand) = ad_NonceSize (kc_aead c)"
    using assms by (auto simp: Encrypt_def Let_def split: if_splits)
  show "env = envelopeOf c (take (ad_NonceSize (kc_aead c)) rand @
      ad_Seal (kc_aead c) (take (ad_NonceSize (kc_aead c)) rand) plaintext (channelKeyAAD channelID))"
    using assms by (auto simp: Encrypt_def Let_def envelopeOf_def split: if_splits)
qed

lemma Decrypt_envelope:
  assumes "Decrypt (Some c') channelID (envelopeOf c payload) = Inr q"
  shows "kc_keyID c' = kc_keyID c \<and>
    ad_Open (kc_aead c') (take (ad_NonceSize (kc_aead c')) payload) (drop (ad_NonceSize (kc_aead c')) payload)
      (channelKeyAAD channelID) = Some q"
  using assms envelope_parts [OF RawURLEncode_colon RawURLEncode_colon, of "kc_keyID c" payload]
  by (auto simp: Decrypt_def Let_def envelopeOf_def split: if_splits option.splits)

lemma Decrypt_Encrypt:
  assumes "cipher_ok c" "Encrypt (Some c) rand channelID plaintext = Inr env"
  shows "Decrypt (Some c) channelID env = Inr plaintext"
  using assms(2)
proof (cases rule: Encrypt_cases)
  case (1 n)
  let ?s = "ad_Seal (kc_aead c) n plaintext (channelKeyAAD channelID)"
  have A: "ad_NonceSize (kc_aead c) = 12" "ad_Overhead (kc_aead c) = 16" "length n = 12"
      "length ?s = length plaintext + 16" "ad_Open (kc_aead c) n ?s (channelKeyAAD channelID) = Some plaintext"
    using assms(1) 1(3) by (auto simp: cipher_ok_def aead_ok_def)
  have "length env \<le> 2 * maxChannelAPIKeyBytes"
    unfolding 1(4) using assms(1) A 1(2)
    by (intro envelope_length) (simp_all add: cipher_ok_def maxChannelAPIKeyBytes_def)
  then show ?thesis
    using 1 A envelope_parts [OF RawURLEncode_colon RawURLEncode_colon, of "kc_keyID c" "n @ ?s"]
    by (simp add: Decrypt_def Let_def envelopeOf_def channelKeyEnvelopeV1_def channelKeyEnvelopePrefix_def)
qed

lemma HasPrefix_envelope: "isChannelKeyEnvelope (envelopeOf c payload)"
  by (simp add: isChannelKeyEnvelope_def envelopeOf_def channelKeyEnvelopeV1_def HasPrefix_append)

lemma Encrypt_envelope: "Encrypt (Some c) rand ch p = Inr env \<Longrightarrow> isChannelKeyEnvelope env"
  using HasPrefix_envelope by (elim Encrypt_cases) simp

lemma channelKeyAAD_inj: "channelKeyAAD a = channelKeyAAD b \<longleftrightarrow> a = b"
  by (simp add: channelKeyAAD_def)

end
