(* ===== verification/Admin.thy ===== *)
theory Admin
  imports Store Routing Billing
begin

text \<open>
  The management service of \<open>internal/admin\<close>: its data (\<open>store.go\<close>), the memory store (\<open>memory.go\<close>) over
  the \<open>MemoryStore\<close> of \<open>internal/store\<close> and a map of channels, the conversion to routing channels
  (\<open>channels.go\<close>), the generated keys (\<open>keygen.go\<close>) and the service (\<open>service.go\<close>) that writes channels
  and then replaces the channels of the router.

  The interface \<open>AdminStore\<close> is the record \<open>admin_ops\<close>; its first argument is what a call takes from
  its surroundings (the clock of the memory store, the fate of the statements of the database). The
  map of a channel may be nil, which is \<open>None\<close>; a nil slice of model names is the empty list.
\<close>

section \<open>Data\<close>

record admin_user =
  au_ExternalID :: string
  au_Balance :: int
  au_Enabled :: bool
  au_CreatedAt :: gotime
  au_UpdatedAt :: gotime

record api_key =
  ak_KeyID :: string
  ak_UserID :: string
  ak_RateLimitPerMin :: int
  ak_AllowedModels :: "string list"
  ak_Enabled :: bool
  ak_CreatedAt :: gotime

record admin_channel =
  cn_ChannelID :: string
  cn_Name :: string
  cn_Format :: string
  cn_BaseURL :: string
  cn_APIKey :: string
  cn_Models :: "(string, string) gomap option"
  cn_Priority :: int
  cn_Weight :: int
  cn_Enabled :: bool
  cn_CreatedAt :: gotime
  cn_UpdatedAt :: gotime

record create_user_input =
  cu_ExternalID :: string
  cu_Balance :: int
  cu_Enabled :: bool

record create_key_input =
  ik_APIKey :: string
  ik_KeyID :: string
  ik_UserID :: string
  ik_RateLimitPerMin :: int
  ik_AllowedModels :: "string list"
  ik_Enabled :: bool

record channel_input =
  ci_ChannelID :: string
  ci_Name :: string
  ci_Format :: string
  ci_BaseURL :: string
  ci_APIKey :: string
  ci_APIKeySet :: bool
  ci_Models :: "(string, string) gomap option"
  ci_Priority :: int
  ci_Weight :: int
  ci_Enabled :: bool

definition MaxRateLimitPerMin :: int where "MaxRateLimitPerMin = 5000"
definition MaxChannelPriority :: int where "MaxChannelPriority = 1000000"
definition MaxChannelWeight :: int where "MaxChannelWeight = 1000000"
definition MinChannelPriority :: int where "MinChannelPriority = - MaxChannelPriority"

named_theorems admin_limits "the limits of the management interface"

lemmas admin_limits_defs [admin_limits] =
  MaxRateLimitPerMin_def MaxChannelPriority_def MaxChannelWeight_def MinChannelPriority_def

definition validateCreateAPIKeyInput :: "create_key_input \<Rightarrow> goerr option" where
  "validateCreateAPIKeyInput inp =
     (if ik_APIKey inp = [] \<or> ik_KeyID inp = [] \<or> ik_UserID inp = [] \<or>
         ik_RateLimitPerMin inp < 0 \<or> ik_RateLimitPerMin inp > MaxRateLimitPerMin
      then Some ErrInvalidInput else None)"

definition normalizeChannelInput :: "channel_input \<Rightarrow> channel_input result" where
  "normalizeChannelInput inp =
     (if ci_Priority inp < MinChannelPriority \<or> ci_Priority inp > MaxChannelPriority \<or>
         ci_Weight inp < 0 \<or> ci_Weight inp > MaxChannelWeight
      then Inl ErrInvalidInput
      else Inr (if ci_Weight inp = 0 then inp\<lparr>ci_Weight := 1\<rparr> else inp))"

section \<open>The interface\<close>

record ('e, 's) admin_ops =
  aop_CreateUser :: "'e \<Rightarrow> create_user_input \<Rightarrow> 's \<Rightarrow> 's \<times> admin_user result"
  aop_ListUsers :: "'e \<Rightarrow> int \<Rightarrow> int \<Rightarrow> 's \<Rightarrow> admin_user list result"
  aop_GetUser :: "'e \<Rightarrow> string \<Rightarrow> 's \<Rightarrow> admin_user result"
  aop_SetUserEnabled :: "'e \<Rightarrow> string \<Rightarrow> bool \<Rightarrow> 's \<Rightarrow> 's \<times> admin_user result"
  aop_AddBalance :: "'e \<Rightarrow> string \<Rightarrow> int \<Rightarrow> 's \<Rightarrow> 's \<times> int result"
  aop_CreateAPIKey :: "'e \<Rightarrow> create_key_input \<Rightarrow> 's \<Rightarrow> 's \<times> api_key result"
  aop_CreateAPIKeyLimited :: "'e \<Rightarrow> create_key_input \<Rightarrow> int \<Rightarrow> 's \<Rightarrow> 's \<times> api_key result"
  aop_ListAPIKeysByUser :: "'e \<Rightarrow> string \<Rightarrow> 's \<Rightarrow> api_key list result"
  aop_SetAPIKeyEnabled :: "'e \<Rightarrow> string \<Rightarrow> bool \<Rightarrow> 's \<Rightarrow> 's \<times> api_key result"
  aop_DeleteAPIKey :: "'e \<Rightarrow> string \<Rightarrow> 's \<Rightarrow> 's \<times> unit result"
  aop_CreateChannel :: "'e \<Rightarrow> channel_input \<Rightarrow> 's \<Rightarrow> 's \<times> admin_channel result"
  aop_ListChannels :: "'e \<Rightarrow> 's \<Rightarrow> admin_channel list result"
  aop_GetChannel :: "'e \<Rightarrow> string \<Rightarrow> 's \<Rightarrow> admin_channel result"
  aop_UpdateChannel :: "'e \<Rightarrow> channel_input \<Rightarrow> 's \<Rightarrow> 's \<times> admin_channel result"
  aop_SetChannelEnabled :: "'e \<Rightarrow> string \<Rightarrow> bool \<Rightarrow> 's \<Rightarrow> 's \<times> admin_channel result"
  aop_DeleteChannel :: "'e \<Rightarrow> string \<Rightarrow> 's \<Rightarrow> 's \<times> unit result"

section \<open>The memory store\<close>

record mem_admin =
  mm_base :: mem_store
  mm_channels :: "(string, admin_channel) gomap"

definition NewMemoryAdmin :: "mem_store \<Rightarrow> admin_channel list \<Rightarrow> mem_admin" where
  "NewMemoryAdmin base seed =
     \<lparr>mm_base = base, mm_channels = foldl (\<lambda>m c. mput (cn_ChannelID c) c m) [] seed\<rparr>"

definition mapUserErr :: "goerr \<Rightarrow> goerr" where
  "mapUserErr err =
     (if errors_is err ErrUserExists \<or> errors_is err ErrKeyExists then ErrConflict
      else if errors_is err ErrUserNotFound \<or> errors_is err ErrStoreKeyNotFound then ErrAdminNotFound
      else err)"

definition userFromView :: "mem_user_view \<Rightarrow> admin_user" where
  "userFromView v = \<lparr>au_ExternalID = uv_ExternalID v, au_Balance = uv_Balance v, au_Enabled = uv_Enabled v,
     au_CreatedAt = uv_CreatedAt v, au_UpdatedAt = uv_UpdatedAt v\<rparr>"

definition keyFromView :: "mem_key_view \<Rightarrow> api_key" where
  "keyFromView v = \<lparr>ak_KeyID = kv_KeyID v, ak_UserID = kv_UserID v, ak_RateLimitPerMin = kv_RateLimitPerMin v,
     ak_AllowedModels = kv_AllowedModels v, ak_Enabled = kv_Enabled v, ak_CreatedAt = kv_CreatedAt v\<rparr>"

definition orEmpty :: "(string, string) gomap option \<Rightarrow> (string, string) gomap" where
  "orEmpty m = (case m of None \<Rightarrow> [] | Some v \<Rightarrow> v)"

definition channelFromInput :: "channel_input \<Rightarrow> gotime \<Rightarrow> gotime \<Rightarrow> admin_channel" where
  "channelFromInput inp createdAt updatedAt =
     \<lparr>cn_ChannelID = ci_ChannelID inp, cn_Name = ci_Name inp, cn_Format = ci_Format inp,
      cn_BaseURL = ci_BaseURL inp, cn_APIKey = ci_APIKey inp, cn_Models = Some (orEmpty (ci_Models inp)),
      cn_Priority = ci_Priority inp, cn_Weight = ci_Weight inp, cn_Enabled = ci_Enabled inp,
      cn_CreatedAt = createdAt, cn_UpdatedAt = updatedAt\<rparr>"

text \<open>An operation of the base store on the whole state, with its error mapped.\<close>

definition onBase :: "('a \<Rightarrow> 'b) \<Rightarrow> mem_store \<times> 'a result \<Rightarrow> mem_admin \<Rightarrow> mem_admin \<times> 'b result" where
  "onBase f q m = (m\<lparr>mm_base := fst q\<rparr>, map_sum mapUserErr f (snd q))"

definition MemCreateUser :: "gotime \<Rightarrow> create_user_input \<Rightarrow> mem_admin \<Rightarrow> mem_admin \<times> admin_user result" where
  "MemCreateUser now inp m =
     onBase userFromView (AdminCreateUser now (mm_base m) (cu_ExternalID inp) (cu_Balance inp) (cu_Enabled inp)) m"

definition MemListUsers :: "gotime \<Rightarrow> int \<Rightarrow> int \<Rightarrow> mem_admin \<Rightarrow> admin_user list result" where
  "MemListUsers now limit offset m = Inr (map userFromView (AdminListUsers (mm_base m) limit offset))"

definition MemGetUser :: "gotime \<Rightarrow> string \<Rightarrow> mem_admin \<Rightarrow> admin_user result" where
  "MemGetUser now externalID m = map_sum mapUserErr userFromView (AdminGetUser (mm_base m) externalID)"

definition MemSetUserEnabled :: "gotime \<Rightarrow> string \<Rightarrow> bool \<Rightarrow> mem_admin \<Rightarrow> mem_admin \<times> admin_user result" where
  "MemSetUserEnabled now externalID enabled m =
     onBase userFromView (AdminSetUserEnabled now (mm_base m) externalID enabled) m"

definition MemAddBalance :: "gotime \<Rightarrow> string \<Rightarrow> int \<Rightarrow> mem_admin \<Rightarrow> mem_admin \<times> int result" where
  "MemAddBalance now externalID delta m = onBase id (AdminAddBalance now (mm_base m) externalID delta) m"

definition MemCreateAPIKey :: "gotime \<Rightarrow> create_key_input \<Rightarrow> mem_admin \<Rightarrow> mem_admin \<times> api_key result" where
  "MemCreateAPIKey now inp m =
     (case validateCreateAPIKeyInput inp of
        Some err \<Rightarrow> (m, Inl err)
      | None \<Rightarrow> onBase keyFromView (AdminCreateKey now (mm_base m) (ik_APIKey inp) (ik_KeyID inp) (ik_UserID inp)
                  (ik_RateLimitPerMin inp) (ik_AllowedModels inp) (ik_Enabled inp)) m)"

definition MemCreateAPIKeyLimited ::
  "gotime \<Rightarrow> create_key_input \<Rightarrow> int \<Rightarrow> mem_admin \<Rightarrow> mem_admin \<times> api_key result" where
  "MemCreateAPIKeyLimited now inp maxKeys m =
     (case validateCreateAPIKeyInput inp of
        Some err \<Rightarrow> (m, Inl err)
      | None \<Rightarrow>
          if maxKeys \<le> 0 then (m, Inl ErrInvalidInput)
          else (case AdminCreateKeyLimited now (mm_base m) (ik_APIKey inp) (ik_KeyID inp) (ik_UserID inp)
                       (ik_RateLimitPerMin inp) (ik_AllowedModels inp) (ik_Enabled inp) maxKeys of
                  (s, Inl err) \<Rightarrow> (m\<lparr>mm_base := s\<rparr>, Inl (mapUserErr err))
                | (s, Inr None) \<Rightarrow> (m\<lparr>mm_base := s\<rparr>, Inl ErrLimitReached)
                | (s, Inr (Some view)) \<Rightarrow> (m\<lparr>mm_base := s\<rparr>, Inr (keyFromView view))))"

definition MemListAPIKeysByUser :: "gotime \<Rightarrow> string \<Rightarrow> mem_admin \<Rightarrow> api_key list result" where
  "MemListAPIKeysByUser now userID m = Inr (map keyFromView (AdminListKeysByUser (mm_base m) userID))"

definition MemSetAPIKeyEnabled :: "gotime \<Rightarrow> string \<Rightarrow> bool \<Rightarrow> mem_admin \<Rightarrow> mem_admin \<times> api_key result" where
  "MemSetAPIKeyEnabled now keyID enabled m = onBase keyFromView (AdminSetKeyEnabled (mm_base m) keyID enabled) m"

definition MemDeleteAPIKey :: "gotime \<Rightarrow> string \<Rightarrow> mem_admin \<Rightarrow> mem_admin \<times> unit result" where
  "MemDeleteAPIKey now keyID m = onBase id (AdminDeleteKey (mm_base m) keyID) m"

definition MemCreateChannel :: "gotime \<Rightarrow> channel_input \<Rightarrow> mem_admin \<Rightarrow> mem_admin \<times> admin_channel result" where
  "MemCreateChannel now inp m =
     (case normalizeChannelInput inp of
        Inl err \<Rightarrow> (m, Inl err)
      | Inr inp \<Rightarrow>
          if mhas (mm_channels m) (ci_ChannelID inp) then (m, Inl ErrConflict)
          else let c = channelFromInput inp now now
               in (m\<lparr>mm_channels := mput (ci_ChannelID inp) c (mm_channels m)\<rparr>, Inr c))"

text \<open>The channel ids are distinct, so the order is total and the result does not depend on the
  iteration of the map.\<close>

definition channelOrder :: "admin_channel \<Rightarrow> int \<times> string" where
  "channelOrder c = (- cn_Priority c, cn_ChannelID c)"

definition MemListChannels :: "gotime \<Rightarrow> mem_admin \<Rightarrow> admin_channel list result" where
  "MemListChannels now m = Inr (sort_key channelOrder (map snd (mm_channels m)))"

definition MemGetChannel :: "gotime \<Rightarrow> string \<Rightarrow> mem_admin \<Rightarrow> admin_channel result" where
  "MemGetChannel now channelID m =
     (case map_of (mm_channels m) channelID of None \<Rightarrow> Inl ErrAdminNotFound | Some c \<Rightarrow> Inr c)"

definition MemUpdateChannel :: "gotime \<Rightarrow> channel_input \<Rightarrow> mem_admin \<Rightarrow> mem_admin \<times> admin_channel result" where
  "MemUpdateChannel now inp m =
     (case normalizeChannelInput inp of
        Inl err \<Rightarrow> (m, Inl err)
      | Inr inp \<Rightarrow>
          (case map_of (mm_channels m) (ci_ChannelID inp) of
             None \<Rightarrow> (m, Inl ErrAdminNotFound)
           | Some old \<Rightarrow>
               let inp = (if \<not> ci_APIKeySet inp then inp\<lparr>ci_APIKey := cn_APIKey old\<rparr> else inp);
                   c = channelFromInput inp (cn_CreatedAt old) now
               in (m\<lparr>mm_channels := mput (ci_ChannelID inp) c (mm_channels m)\<rparr>, Inr c)))"

definition MemSetChannelEnabled :: "gotime \<Rightarrow> string \<Rightarrow> bool \<Rightarrow> mem_admin \<Rightarrow> mem_admin \<times> admin_channel result" where
  "MemSetChannelEnabled now channelID enabled m =
     (case map_of (mm_channels m) channelID of
        None \<Rightarrow> (m, Inl ErrAdminNotFound)
      | Some c \<Rightarrow>
          let c' = c\<lparr>cn_Enabled := enabled, cn_UpdatedAt := now\<rparr>
          in (m\<lparr>mm_channels := mput channelID c' (mm_channels m)\<rparr>, Inr c'))"

definition MemDeleteChannel :: "gotime \<Rightarrow> string \<Rightarrow> mem_admin \<Rightarrow> mem_admin \<times> unit result" where
  "MemDeleteChannel now channelID m =
     (if \<not> mhas (mm_channels m) channelID then (m, Inl ErrAdminNotFound)
      else (m\<lparr>mm_channels := mdel channelID (mm_channels m)\<rparr>, Inr ()))"

definition memAdminStore :: "(gotime, mem_admin) admin_ops" where
  "memAdminStore = \<lparr>aop_CreateUser = MemCreateUser, aop_ListUsers = MemListUsers, aop_GetUser = MemGetUser,
     aop_SetUserEnabled = MemSetUserEnabled, aop_AddBalance = MemAddBalance,
     aop_CreateAPIKey = MemCreateAPIKey, aop_CreateAPIKeyLimited = MemCreateAPIKeyLimited,
     aop_ListAPIKeysByUser = MemListAPIKeysByUser, aop_SetAPIKeyEnabled = MemSetAPIKeyEnabled,
     aop_DeleteAPIKey = MemDeleteAPIKey, aop_CreateChannel = MemCreateChannel,
     aop_ListChannels = MemListChannels, aop_GetChannel = MemGetChannel, aop_UpdateChannel = MemUpdateChannel,
     aop_SetChannelEnabled = MemSetChannelEnabled, aop_DeleteChannel = MemDeleteChannel\<rparr>"

section \<open>Generated keys\<close>

record generated_key =
  gk_APIKey :: string
  gk_KeyID :: string

text \<open>The two reads of the random source, 32 and 8 bytes or an error.\<close>

definition GenerateKey :: "8 word list result \<Rightarrow> 8 word list result \<Rightarrow> generated_key result" where
  "GenerateKey secret idBytes =
     (case secret of
        Inl err \<Rightarrow> Inl err
      | Inr s \<Rightarrow>
          (case idBytes of
             Inl err \<Rightarrow> Inl err
           | Inr i \<Rightarrow> Inr \<lparr>gk_APIKey = ''sk-'' @ hexEncode s, gk_KeyID = ''key-'' @ hexEncode i\<rparr>))"

section \<open>The service\<close>

definition ChannelToRouting :: "admin_channel \<Rightarrow> channel" where
  "ChannelToRouting c =
     \<lparr>ch_ID = cn_ChannelID c, ch_Name = cn_Name c, ch_Format = cn_Format c, ch_BaseURL = cn_BaseURL c,
      ch_APIKey = cn_APIKey c, ch_Models = orEmpty (cn_Models c), ch_Priority = cn_Priority c,
      ch_Weight = cn_Weight c, ch_Enabled = cn_Enabled c\<rparr>"

definition ChannelsToRouting :: "admin_channel list \<Rightarrow> channel list" where
  "ChannelsToRouting cs = map ChannelToRouting cs"

record ('e, 's) service =
  sv_ops :: "('e, 's) admin_ops"
  sv_validateChannel :: "(channel \<Rightarrow> goerr option) option"

text \<open>The store and the router (nil without one) that a service works on.\<close>

record 's served =
  svd_store :: 's
  svd_router :: "router option"

record 'e service_env =
  se_get :: 'e
  se_write :: 'e
  se_list :: 'e

fun firstInvalid :: "(channel \<Rightarrow> goerr option) \<Rightarrow> channel list \<Rightarrow> goerr option" where
  "firstInvalid check [] = None"
| "firstInvalid check (ch # chs) = (case check ch of Some err \<Rightarrow> Some err | None \<Rightarrow> firstInvalid check chs)"

definition validateChannels :: "('e, 's) service \<Rightarrow> channel list \<Rightarrow> goerr option" where
  "validateChannels sv channels =
     (case sv_validateChannel sv of None \<Rightarrow> None | Some check \<Rightarrow> firstInvalid check channels)"

definition inputChannel :: "channel_input \<Rightarrow> admin_channel" where
  "inputChannel inp =
     \<lparr>cn_ChannelID = ci_ChannelID inp, cn_Name = ci_Name inp, cn_Format = ci_Format inp,
      cn_BaseURL = ci_BaseURL inp, cn_APIKey = ci_APIKey inp, cn_Models = ci_Models inp,
      cn_Priority = ci_Priority inp, cn_Weight = ci_Weight inp, cn_Enabled = ci_Enabled inp,
      cn_CreatedAt = 0, cn_UpdatedAt = 0\<rparr>"

definition validateInput :: "('e, 's) service \<Rightarrow> channel_input \<Rightarrow> goerr option" where
  "validateInput sv inp = validateChannels sv [ChannelToRouting (inputChannel inp)]"

definition ReloadChannels :: "('e, 's) service \<Rightarrow> 'e \<Rightarrow> 's served \<Rightarrow> 's served \<times> goerr option" where
  "ReloadChannels sv e st =
     (case svd_router st of
        None \<Rightarrow> (st, None)
      | Some r \<Rightarrow>
          (case aop_ListChannels (sv_ops sv) e (svd_store st) of
             Inl err \<Rightarrow> (st, Some err)
           | Inr channels \<Rightarrow>
               (case validateChannels sv (ChannelsToRouting channels) of
                  Some err \<Rightarrow> (st, Some err)
                | None \<Rightarrow> (st\<lparr>svd_router := Some (UpdateChannels (ChannelsToRouting channels) r)\<rparr>, None))))"

text \<open>The error of the reload is only logged.\<close>

definition reloadAfterWrite :: "('e, 's) service \<Rightarrow> 'e \<Rightarrow> 's served \<Rightarrow> 's served" where
  "reloadAfterWrite sv e st = fst (ReloadChannels sv e st)"

text \<open>What a write of the store leaves, and the reload when it succeeded.\<close>

definition thenReload ::
  "('e, 's) service \<Rightarrow> 'e service_env \<Rightarrow> 's \<times> 'a result \<Rightarrow> 's served \<Rightarrow> 's served \<times> 'a result" where
  "thenReload sv e q st =
     (case q of
        (s, Inl err) \<Rightarrow> (st\<lparr>svd_store := s\<rparr>, Inl err)
      | (s, Inr x) \<Rightarrow> (reloadAfterWrite sv (se_list e) (st\<lparr>svd_store := s\<rparr>), Inr x))"

definition SvcCreateChannel ::
  "('e, 's) service \<Rightarrow> 'e service_env \<Rightarrow> channel_input \<Rightarrow> 's served \<Rightarrow> 's served \<times> admin_channel result" where
  "SvcCreateChannel sv e inp st =
     (case validateInput sv inp of
        Some err \<Rightarrow> (st, Inl err)
      | None \<Rightarrow> thenReload sv e (aop_CreateChannel (sv_ops sv) (se_write e) inp (svd_store st)) st)"

definition SvcUpdateChannel ::
  "('e, 's) service \<Rightarrow> 'e service_env \<Rightarrow> channel_input \<Rightarrow> 's served \<Rightarrow> 's served \<times> admin_channel result" where
  "SvcUpdateChannel sv e inp st =
     (case (if \<not> ci_APIKeySet inp \<and> ci_APIKey inp = []
            then map_sum id (\<lambda>current. inp\<lparr>ci_APIKey := cn_APIKey current\<rparr>)
                   (aop_GetChannel (sv_ops sv) (se_get e) (ci_ChannelID inp) (svd_store st))
            else Inr inp) of
        Inl err \<Rightarrow> (st, Inl err)
      | Inr inp \<Rightarrow>
          (case validateInput sv inp of
             Some err \<Rightarrow> (st, Inl err)
           | None \<Rightarrow> thenReload sv e (aop_UpdateChannel (sv_ops sv) (se_write e) inp (svd_store st)) st))"

definition SvcSetChannelEnabled ::
  "('e, 's) service \<Rightarrow> 'e service_env \<Rightarrow> string \<Rightarrow> bool \<Rightarrow> 's served \<Rightarrow> 's served \<times> admin_channel result" where
  "SvcSetChannelEnabled sv e channelID enabled st =
     (case (if enabled \<and> sv_validateChannel sv \<noteq> None
            then (case aop_GetChannel (sv_ops sv) (se_get e) channelID (svd_store st) of
                    Inl err \<Rightarrow> Some err
                  | Inr current \<Rightarrow> validateChannels sv [ChannelToRouting (current\<lparr>cn_Enabled := True\<rparr>)])
            else None) of
        Some err \<Rightarrow> (st, Inl err)
      | None \<Rightarrow> thenReload sv e (aop_SetChannelEnabled (sv_ops sv) (se_write e) channelID enabled (svd_store st)) st)"

definition SvcDeleteChannel ::
  "('e, 's) service \<Rightarrow> 'e service_env \<Rightarrow> string \<Rightarrow> 's served \<Rightarrow> 's served \<times> unit result" where
  "SvcDeleteChannel sv e channelID st =
     thenReload sv e (aop_DeleteChannel (sv_ops sv) (se_write e) channelID (svd_store st)) st"

definition SvcCreateAPIKeyLimited ::
  "('e, 's) service \<Rightarrow> 'e \<Rightarrow> create_key_input \<Rightarrow> int \<Rightarrow> 's served \<Rightarrow> 's served \<times> api_key result" where
  "SvcCreateAPIKeyLimited sv e inp maxKeys st =
     map_prod (\<lambda>s. st\<lparr>svd_store := s\<rparr>) id (aop_CreateAPIKeyLimited (sv_ops sv) e inp maxKeys (svd_store st))"

end
