(* ===== verification/AdminSpec.thy ===== *)
theory AdminSpec
  imports Admin JsonProps
begin

text \<open>
  What the management interface promises about channels and keys, whatever store is behind it: an
  abstract table of channels with \<open>achStep\<close>, the locale \<open>channel_store\<close> whose laws say that the
  operations of an \<open>AdminStore\<close> act on that table as \<open>achStep\<close> does or fail as an outage, the locale
  \<open>key_store\<close> for the keys of users, and the interpretations of both for the memory store. The service
  and the handlers are proved correct inside the locales.
\<close>

declare decField.simps(2) [simp del] jsonDepth.simps(2) [simp del]

section \<open>The table of channels\<close>

record achannel =
  xc_Name :: string
  xc_Format :: string
  xc_BaseURL :: string
  xc_APIKey :: string
  xc_Models :: "string \<Rightarrow> string option"
  xc_Priority :: int
  xc_Weight :: int
  xc_Enabled :: bool

type_synonym achannels = "string \<Rightarrow> achannel option"

definition achannelOf :: "admin_channel \<Rightarrow> achannel" where
  "achannelOf c = \<lparr>xc_Name = cn_Name c, xc_Format = cn_Format c, xc_BaseURL = cn_BaseURL c,
     xc_APIKey = cn_APIKey c, xc_Models = map_of (orEmpty (cn_Models c)), xc_Priority = cn_Priority c,
     xc_Weight = cn_Weight c, xc_Enabled = cn_Enabled c\<rparr>"

lemma orEmpty_simps [simp]: "orEmpty None = []" "orEmpty (Some m) = m"
  by (simp_all add: orEmpty_def)

definition inputView :: "channel_input \<Rightarrow> achannel" where
  "inputView inp = achannelOf (inputChannel inp)"

definition chanView :: "admin_channel \<Rightarrow> string \<times> achannel" where
  "chanView c = (cn_ChannelID c, achannelOf c)"

datatype channel_op =
    OpCreate channel_input | OpUpdate channel_input | OpEnable string bool | OpDelete string

type_synonym 't channel_reply = "'t \<times> (string \<times> achannel) option result"

fun achStep :: "channel_op \<Rightarrow> achannels \<Rightarrow> achannels channel_reply" where
  "achStep (OpCreate inp) t =
     (case normalizeChannelInput inp of
        Inl err \<Rightarrow> (t, Inl err)
      | Inr inp \<Rightarrow>
          if t (ci_ChannelID inp) \<noteq> None then (t, Inl ErrConflict)
          else (t(ci_ChannelID inp \<mapsto> inputView inp), Inr (Some (ci_ChannelID inp, inputView inp))))"
| "achStep (OpUpdate inp) t =
     (case normalizeChannelInput inp of
        Inl err \<Rightarrow> (t, Inl err)
      | Inr inp \<Rightarrow>
          (case t (ci_ChannelID inp) of
             None \<Rightarrow> (t, Inl ErrAdminNotFound)
           | Some old \<Rightarrow>
               let c = (inputView inp)\<lparr>xc_APIKey := if ci_APIKeySet inp then ci_APIKey inp else xc_APIKey old\<rparr>
               in (t(ci_ChannelID inp \<mapsto> c), Inr (Some (ci_ChannelID inp, c)))))"
| "achStep (OpEnable i enabled) t =
     (case t i of
        None \<Rightarrow> (t, Inl ErrAdminNotFound)
      | Some old \<Rightarrow> (t(i \<mapsto> old\<lparr>xc_Enabled := enabled\<rparr>), Inr (Some (i, old\<lparr>xc_Enabled := enabled\<rparr>))))"
| "achStep (OpDelete i) t =
     (if t i = None then (t, Inl ErrAdminNotFound) else (t(i := None), Inr None))"

text \<open>The same operation on a store.\<close>

fun chanExec :: "('e, 's) admin_ops \<Rightarrow> 'e \<Rightarrow> channel_op \<Rightarrow> 's \<Rightarrow> 's channel_reply" where
  "chanExec ops e (OpCreate inp) s = map_prod id (map_sum id (\<lambda>c. Some (chanView c))) (aop_CreateChannel ops e inp s)"
| "chanExec ops e (OpUpdate inp) s = map_prod id (map_sum id (\<lambda>c. Some (chanView c))) (aop_UpdateChannel ops e inp s)"
| "chanExec ops e (OpEnable i b) s = map_prod id (map_sum id (\<lambda>c. Some (chanView c))) (aop_SetChannelEnabled ops e i b s)"
| "chanExec ops e (OpDelete i) s = map_prod id (map_sum id (\<lambda>c. None)) (aop_DeleteChannel ops e i s)"

text \<open>Inputs that every store accepts: the credential is within the limit of the cipher, the models
  are text.\<close>

definition models_ok :: "(string, string) gomap \<Rightarrow> bool" where
  "models_ok m \<longleftrightarrow> mwf m \<and> (\<forall>(k, v) \<in> set m. validUTF8 k \<and> validUTF8 v)"

definition input_ok :: "channel_input \<Rightarrow> bool" where
  "input_ok inp \<longleftrightarrow> ci_ChannelID inp \<noteq> [] \<and> models_ok (orEmpty (ci_Models inp))"

fun op_ok :: "channel_op \<Rightarrow> bool" where
  "op_ok (OpCreate inp) = (input_ok inp \<and> length (ci_APIKey inp) \<le> 65536)"
| "op_ok (OpUpdate inp) = (input_ok inp \<and> (ci_APIKeySet inp \<longrightarrow> length (ci_APIKey inp) \<le> 65536))"
| "op_ok _ = True"

text \<open>Any other error is an outage: the operation may have been applied or not.\<close>

definition outage :: "goerr \<Rightarrow> bool" where
  "outage err \<longleftrightarrow> err \<notin> {ErrAdminNotFound, ErrConflict, ErrInvalidInput, ErrLimitReached}"

definition agrees :: "achannels \<Rightarrow> achannels channel_reply \<Rightarrow> achannels channel_reply \<Rightarrow> bool" where
  "agrees t spec got \<longleftrightarrow> got = spec \<or>
     (\<exists>err. snd got = Inl err \<and> outage err \<and> (fst got = t \<or> fst got = fst spec))"

locale channel_store =
  fixes ops :: "('e, 's) admin_ops" and inv :: "'s \<Rightarrow> bool" and chans :: "'s \<Rightarrow> achannels"
  assumes exec: "inv s \<Longrightarrow> op_ok op \<Longrightarrow> chanExec ops e op s = (s', r) \<Longrightarrow>
      inv s' \<and> agrees (chans s) (achStep op (chans s)) (chans s', r)"
    and get: "inv s \<Longrightarrow> aop_GetChannel ops e i s = q \<Longrightarrow>
      (case q of Inr c \<Rightarrow> cn_ChannelID c = i \<and> chans s i = Some (achannelOf c) \<and> models_ok (orEmpty (cn_Models c))
       | Inl err \<Rightarrow> chans s i = None \<and> err = ErrAdminNotFound \<or> outage err)"
    and list: "inv s \<Longrightarrow> aop_ListChannels ops e s = Inr cs \<Longrightarrow>
      distinct (map cn_ChannelID cs) \<and> map_of (map chanView cs) = chans s"

section \<open>The memory store keeps it\<close>

definition mem_chan_inv :: "mem_admin \<Rightarrow> bool" where
  "mem_chan_inv m \<longleftrightarrow> mwf (mm_channels m) \<and>
     (\<forall>i c. map_of (mm_channels m) i = Some c \<longrightarrow> cn_ChannelID c = i \<and> models_ok (orEmpty (cn_Models c)))"

definition mem_chans :: "mem_admin \<Rightarrow> achannels" where
  "mem_chans m i = map_option achannelOf (map_of (mm_channels m) i)"

lemma channelFromInput_view [simp]: "achannelOf (channelFromInput inp t u) = inputView inp"
  by (simp add: achannelOf_def inputView_def channelFromInput_def inputChannel_def orEmpty_def split: option.splits)

lemma channelFromInput_id [simp]: "cn_ChannelID (channelFromInput inp t u) = ci_ChannelID inp"
  "orEmpty (cn_Models (channelFromInput inp t u)) = orEmpty (ci_Models inp)"
  by (simp_all add: channelFromInput_def orEmpty_def)

lemma inputView_key [simp]: "inputView (inp\<lparr>ci_APIKey := k\<rparr>) = (inputView inp)\<lparr>xc_APIKey := k\<rparr>"
  by (simp add: inputView_def achannelOf_def inputChannel_def)

lemma inputView_same [simp]: "(inputView inp)\<lparr>xc_APIKey := ci_APIKey inp\<rparr> = inputView inp"
  by (simp add: inputView_def achannelOf_def inputChannel_def)

lemma achannelOf_key [simp]: "xc_APIKey (achannelOf c) = cn_APIKey c"
  by (simp add: achannelOf_def)

lemma normalize_fields:
  assumes "normalizeChannelInput inp = Inr inp'"
  shows "ci_ChannelID inp' = ci_ChannelID inp" "ci_APIKey inp' = ci_APIKey inp" "ci_APIKeySet inp' = ci_APIKeySet inp"
    "ci_Models inp' = ci_Models inp"
  using assms by (auto simp: normalizeChannelInput_def split: if_splits)

lemma mem_put:
  assumes "mem_chan_inv m" "cn_ChannelID c = i" "models_ok (orEmpty (cn_Models c))"
  shows "mem_chan_inv (m\<lparr>mm_channels := mput i c (mm_channels m)\<rparr>)"
    "mem_chans (m\<lparr>mm_channels := mput i c (mm_channels m)\<rparr>) = (mem_chans m)(i \<mapsto> achannelOf c)"
  using assms by (auto simp: mem_chan_inv_def mem_chans_def fun_eq_iff)

lemma mem_chans_None: "mem_chans m i = None \<longleftrightarrow> \<not> mhas (mm_channels m) i"
  by (simp add: mem_chans_def mhas_def)

lemma mem_list: 
  assumes "mem_chan_inv m"
  shows "distinct (map cn_ChannelID (map snd (mm_channels m)))"
    "map_of (map chanView (map snd (mm_channels m))) = mem_chans m"
proof -
  have id: "cn_ChannelID (snd p) = fst p" if "p \<in> set (mm_channels m)" for p
    using assms that by (cases p) (auto simp: mem_chan_inv_def mget_set)
  then have "map cn_ChannelID (map snd (mm_channels m)) = map fst (mm_channels m)" by simp
  then show "distinct (map cn_ChannelID (map snd (mm_channels m)))"
    using assms unfolding mem_chan_inv_def mwf_def by presburger
  have "map chanView (map snd (mm_channels m)) = map (\<lambda>(k, x). (k, achannelOf x)) (mm_channels m)"
    using id by (auto simp: chanView_def)
  then show "map_of (map chanView (map snd (mm_channels m))) = mem_chans m"
    by (simp only: map_of_map_snd) (simp add: mem_chans_def fun_eq_iff)
qed

text \<open>Sorting a list with distinct keys does not change its map.\<close>

lemma distinct_sort: "distinct (map g (sort_key f xs)) = distinct (map g xs)"
  by (rule mset_eq_imp_distinct_iff) simp

lemma map_of_sort: "distinct (map g xs) \<Longrightarrow> (\<And>x. fst (h x) = g x) \<Longrightarrow>
    map_of (map h (sort_key f xs)) = map_of (map h xs)"
  by (subst map_of_inject_set) (simp_all add: comp_def distinct_sort)

interpretation mem_channels: channel_store memAdminStore mem_chan_inv mem_chans
proof unfold_locales
  fix s s' :: mem_admin and op r and e :: gotime
  assume inv: "mem_chan_inv s" and ok: "op_ok op" and x: "chanExec memAdminStore e op s = (s', r)"
  have "mem_chan_inv s' \<and> (mem_chans s', r) = achStep op (mem_chans s)"
  proof (cases op)
    case (OpCreate inp)
    show ?thesis
    proof (cases "normalizeChannelInput inp")
      case (Inl err) then show ?thesis using x inv OpCreate by (simp add: memAdminStore_def MemCreateChannel_def)
    next
      case (Inr i)
      note f = normalize_fields [OF Inr]
      have "mhas (mm_channels s) (ci_ChannelID i) \<or> models_ok (orEmpty (ci_Models i))" using ok OpCreate f by (simp add: input_ok_def)
      then show ?thesis using x inv Inr OpCreate
        by (auto simp: memAdminStore_def MemCreateChannel_def Let_def mem_put mem_chans_None chanView_def split: if_splits)
    qed
  next
    case (OpUpdate inp)
    show ?thesis
    proof (cases "normalizeChannelInput inp")
      case (Inl err) then show ?thesis using x inv OpUpdate by (simp add: memAdminStore_def MemUpdateChannel_def)
    next
      case (Inr i)
      note f = normalize_fields [OF Inr]
      have "models_ok (orEmpty (ci_Models i))" using ok OpUpdate f by (simp add: input_ok_def)
      then show ?thesis using x inv Inr OpUpdate
        by (cases "map_of (mm_channels s) (ci_ChannelID i)")
           (auto simp: memAdminStore_def MemUpdateChannel_def Let_def mem_put mem_chans_def chanView_def split: if_splits)
    qed
  next
    case (OpEnable i b)
    then show ?thesis using x inv
      by (cases "map_of (mm_channels s) i")
         (auto simp: memAdminStore_def MemSetChannelEnabled_def Let_def mem_chans_def chanView_def mem_chan_inv_def
           achannelOf_def fun_eq_iff split: if_splits)
  next
    case (OpDelete i)
    then show ?thesis using x inv
      by (auto simp: memAdminStore_def MemDeleteChannel_def mem_chans_def mem_chan_inv_def mhas_def fun_eq_iff split: if_splits)
  qed
  then show "mem_chan_inv s' \<and> agrees (mem_chans s) (achStep op (mem_chans s)) (mem_chans s', r)"
    by (simp add: agrees_def)
next
  fix s :: mem_admin and e i q
  assume "mem_chan_inv s" "aop_GetChannel memAdminStore e i s = q"
  then show "case q of Inr c \<Rightarrow> cn_ChannelID c = i \<and> mem_chans s i = Some (achannelOf c) \<and> models_ok (orEmpty (cn_Models c))
      | Inl err \<Rightarrow> mem_chans s i = None \<and> err = ErrAdminNotFound \<or> outage err"
    by (auto simp: memAdminStore_def MemGetChannel_def mem_chans_def mem_chan_inv_def split: option.splits)
next
  fix s :: mem_admin and e cs
  assume "mem_chan_inv s" "aop_ListChannels memAdminStore e s = Inr cs"
  then show "distinct (map cn_ChannelID cs) \<and> map_of (map chanView cs) = mem_chans s"
    using mem_list [of s] by (auto simp: memAdminStore_def MemListChannels_def distinct_sort chanView_def
        map_of_sort [where g = cn_ChannelID])
qed

section \<open>The table of keys\<close>

text \<open>The keys by their id, without the time of creation. The creation of a key depends also on the
  users and on the digests of the other keys, so what an operation may do is a relation.\<close>

type_synonym akeys = "string \<Rightarrow> api_key option"

definition keyView0 :: "api_key \<Rightarrow> api_key" where
  "keyView0 k = k\<lparr>ak_CreatedAt := 0\<rparr>"

definition inputKey :: "create_key_input \<Rightarrow> api_key" where
  "inputKey inp = \<lparr>ak_KeyID = ik_KeyID inp, ak_UserID = ik_UserID inp, ak_RateLimitPerMin = ik_RateLimitPerMin inp,
     ak_AllowedModels = ik_AllowedModels inp, ak_Enabled = ik_Enabled inp, ak_CreatedAt = 0\<rparr>"

datatype key_op =
    KeyCreate create_key_input | KeyCreateLimited create_key_input int | KeyEnable string bool | KeyDelete string

fun keyExec :: "('e, 's) admin_ops \<Rightarrow> 'e \<Rightarrow> key_op \<Rightarrow> 's \<Rightarrow> 's \<times> api_key option result" where
  "keyExec ops e (KeyCreate inp) s = map_prod id (map_sum id (\<lambda>k. Some (keyView0 k))) (aop_CreateAPIKey ops e inp s)"
| "keyExec ops e (KeyCreateLimited inp n) s =
     map_prod id (map_sum id (\<lambda>k. Some (keyView0 k))) (aop_CreateAPIKeyLimited ops e inp n s)"
| "keyExec ops e (KeyEnable i b) s = map_prod id (map_sum id (\<lambda>k. Some (keyView0 k))) (aop_SetAPIKeyEnabled ops e i b s)"
| "keyExec ops e (KeyDelete i) s = map_prod id (map_sum id (\<lambda>u. None)) (aop_DeleteAPIKey ops e i s)"

definition ownedCount :: "akeys \<Rightarrow> string \<Rightarrow> nat" where
  "ownedCount t u = card {i. \<exists>k. t i = Some k \<and> ak_UserID k = u}"

text \<open>The key that an operation is about, and what it may make of it; \<open>enforced\<close> says whether the limit is
  enforced.\<close>

fun keyTarget :: "key_op \<Rightarrow> string" where
  "keyTarget (KeyCreate inp) = ik_KeyID inp"
| "keyTarget (KeyCreateLimited inp n) = ik_KeyID inp"
| "keyTarget (KeyEnable i b) = i"
| "keyTarget (KeyDelete i) = i"

definition creatable :: "create_key_input \<Rightarrow> bool" where
  "creatable inp \<longleftrightarrow> validateCreateAPIKeyInput inp = None"

fun keyEffect :: "bool \<Rightarrow> key_op \<Rightarrow> akeys \<Rightarrow> api_key option \<Rightarrow> bool" where
  "keyEffect enforced (KeyCreate inp) t new \<longleftrightarrow> creatable inp \<and> t (ik_KeyID inp) = None \<and> new = Some (inputKey inp)"
| "keyEffect enforced (KeyCreateLimited inp n) t new \<longleftrightarrow>
     creatable inp \<and> t (ik_KeyID inp) = None \<and> new = Some (inputKey inp) \<and>
     (enforced \<longrightarrow> int (ownedCount t (ik_UserID inp)) < n)"
| "keyEffect enforced (KeyEnable i b) t new \<longleftrightarrow> (\<exists>k. t i = Some k \<and> new = Some (k\<lparr>ak_Enabled := b\<rparr>))"
| "keyEffect enforced (KeyDelete i) t new \<longleftrightarrow> t i \<noteq> None \<and> new = None"

definition keyChange :: "bool \<Rightarrow> key_op \<Rightarrow> akeys \<Rightarrow> akeys \<Rightarrow> api_key option result \<Rightarrow> bool" where
  "keyChange enforced op t t' r \<longleftrightarrow>
     (\<exists>err. r = Inl err \<and> t' = t) \<or>
     (\<exists>new. keyEffect enforced op t new \<and> t' = t(keyTarget op := new) \<and>
        (r = Inr new \<or> (\<exists>err. r = Inl err \<and> outage err)))"

definition keys_wf :: "akeys \<Rightarrow> bool" where
  "keys_wf t \<longleftrightarrow> finite (dom t) \<and> (\<forall>i k. t i = Some k \<longrightarrow> ak_KeyID k = i)"

locale key_store =
  fixes ops :: "('e, 's) admin_ops" and inv :: "'s \<Rightarrow> bool" and keys :: "'s \<Rightarrow> akeys" and serial :: "'e \<Rightarrow> bool"
  assumes exec: "inv s \<Longrightarrow> keyExec ops e op s = (s', r) \<Longrightarrow> inv s' \<and> keyChange (serial e) op (keys s) (keys s') r"
    and list: "inv s \<Longrightarrow> aop_ListAPIKeysByUser ops e u s = Inr ks \<Longrightarrow>
      (\<forall>k. k \<in> set ks \<longrightarrow> keys s (ak_KeyID k) = Some (keyView0 k)) \<and>
      (\<forall>i k. keys s i = Some k \<and> ak_UserID k = u \<longrightarrow> i \<in> ak_KeyID ` set ks) \<and> (\<forall>k \<in> set ks. ak_UserID k = u)"
    and wf: "inv s \<Longrightarrow> keys_wf (keys s)"

definition mem_keys :: "mem_admin \<Rightarrow> akeys" where
  "mem_keys m i = (case map_of (ms_keyByID (mm_base m)) i of
     None \<Rightarrow> None
   | Some a \<Rightarrow> map_option (\<lambda>x. keyView0 (keyFromView (keyView x))) (map_of (ms_heap (mm_base m)) a))"

definition mem_key_inv :: "mem_admin \<Rightarrow> bool" where
  "mem_key_inv m \<longleftrightarrow> store_inv (mm_base m)"

lemma mem_keys_Some: "store_inv (mm_base m) \<Longrightarrow> map_of (ms_keyByID (mm_base m)) i = Some a \<Longrightarrow>
    \<exists>x. map_of (ms_heap (mm_base m)) a = Some x \<and> id_KeyID x = i \<and>
        mem_keys m i = Some (keyView0 (keyFromView (keyView x)))"
  by (force simp: mem_keys_def store_inv_def store_ids_def)

lemma key_fields [simp]: "ak_KeyID (keyView0 k) = ak_KeyID k" "ak_UserID (keyView0 k) = ak_UserID k"
  "ak_KeyID (keyFromView v) = kv_KeyID v" "ak_UserID (keyFromView v) = kv_UserID v"
  "kv_KeyID (keyView x) = id_KeyID x" "kv_UserID (keyView x) = id_UserID x"
  by (simp_all add: keyView0_def keyFromView_def keyView_def)

lemma mem_keys_wf: "mem_key_inv m \<Longrightarrow> keys_wf (mem_keys m)"
proof -
  assume inv: "mem_key_inv m"
  have "dom (mem_keys m) \<subseteq> dom (map_of (ms_keyByID (mm_base m)))"
    by (auto simp: mem_keys_def split: option.splits)
  then have "finite (dom (mem_keys m))" using finite_dom_map_of finite_subset by blast
  moreover have "ak_KeyID k = i" if "mem_keys m i = Some k" for i k
    using that inv mem_keys_Some [of m i] by (auto simp: mem_key_inv_def mem_keys_def split: option.splits)
  ultimately show ?thesis by (simp add: keys_wf_def)
qed

lemma map_filter_set: "x \<in> set (List.map_filter f xs) \<longleftrightarrow> (\<exists>p \<in> set xs. f p = Some x)"
  by (induction xs) (auto simp: List.map_filter_simps split: option.splits)

lemma bex_snd: "(\<exists>p \<in> A. P (snd p)) \<longleftrightarrow> (\<exists>i a. (i, a) \<in> A \<and> P a)"
  by force

lemma mem_list_keys:
  assumes "mem_key_inv m"
  shows "set (map keyFromView (AdminListKeysByUser (mm_base m) u)) = (\<lambda>x. keyFromView (keyView x)) `
    {x. id_UserID x = u \<and> (\<exists>i a. map_of (ms_keyByID (mm_base m)) i = Some a \<and> map_of (ms_heap (mm_base m)) a = Some x)}"
proof -
  have wf: "mwf (ms_keyByID (mm_base m))" using assms by (simp add: mem_key_inv_def store_inv_def store_maps_def)
  show ?thesis
    unfolding mget_set [OF wf]
    by (auto simp: AdminListKeysByUser_def map_filter_set image_image case_prod_beta bex_snd [where P = "\<lambda>a. map_of (ms_heap (mm_base m)) a = Some _"])
qed

lemma card_filter:
  assumes "mwf m"
  shows "card {i. \<exists>a. map_of m i = Some a \<and> P a} = length (filter (\<lambda>(k, a). P a) m)"
proof -
  have "{i. \<exists>a. map_of m i = Some a \<and> P a} = set (map fst (filter (\<lambda>(k, a). P a) m))"
    unfolding mget_set [OF assms] by force
  moreover have "distinct (map fst (filter (\<lambda>(k, a). P a) m))"
    using assms by (simp add: mwf_def distinct_map_filter)
  ultimately show ?thesis using distinct_card by fastforce
qed

lemma owned_keyCount:
  assumes "mem_key_inv m"
  shows "int (ownedCount (mem_keys m) u) = keyCount (mm_base m) u"
proof -
  have wf: "mwf (ms_keyByID (mm_base m))" using assms by (simp add: mem_key_inv_def store_inv_def store_maps_def)
  have "{i. \<exists>k. mem_keys m i = Some k \<and> ak_UserID k = u} = {i. \<exists>a. map_of (ms_keyByID (mm_base m)) i = Some a \<and>
      (case map_of (ms_heap (mm_base m)) a of None \<Rightarrow> False | Some x \<Rightarrow> id_UserID x = u)}"
    (is "?A = ?B")
  proof (rule set_eqI)
    fix i show "i \<in> ?A \<longleftrightarrow> i \<in> ?B"
      by (cases "map_of (ms_keyByID (mm_base m)) i")
         (auto simp: mem_keys_def split: option.split)
  qed
  then show ?thesis by (simp add: ownedCount_def keyCount_def card_filter [OF wf])
qed

lemma keyByID_inj:
  assumes "store_inv s" "map_of (ms_keyByID s) j = Some a" "map_of (ms_keyByID s) i = Some a"
  shows "j = i"
proof -
  have ids: "store_ids s" using assms(1) by (simp add: store_inv_def)
  from ids [unfolded store_ids_def, rule_format, OF assms(2)] ids [unfolded store_ids_def, rule_format, OF assms(3)]
  show ?thesis by auto
qed

lemma mem_put_key:
  assumes "store_inv s" "map_of (ms_keyByID s) i = Some a"
  shows "mem_keys (m\<lparr>mm_base := s\<lparr>ms_heap := mput a x (ms_heap s)\<rparr>\<rparr>) =
    (mem_keys (m\<lparr>mm_base := s\<rparr>))(i \<mapsto> keyView0 (keyFromView (keyView x)))"
proof
  fix j
  show "mem_keys (m\<lparr>mm_base := s\<lparr>ms_heap := mput a x (ms_heap s)\<rparr>\<rparr>) j =
      ((mem_keys (m\<lparr>mm_base := s\<rparr>))(i \<mapsto> keyView0 (keyFromView (keyView x)))) j"
  proof (cases "j = i")
    case True then show ?thesis using assms(2) by (simp add: mem_keys_def)
  next
    case False
    then have "map_of (ms_keyByID s) j \<noteq> Some a" using keyByID_inj [OF assms(1) _ assms(2)] by blast
    then show ?thesis using False by (cases "map_of (ms_keyByID s) j") (auto simp: mem_keys_def)
  qed
qed

lemma mem_new_key:
  assumes "store_inv s" "map_of (ms_keyByID s) i = None"
  shows "mem_keys (m\<lparr>mm_base := s\<lparr>ms_heap := mput (ms_next s) x (ms_heap s), ms_next := n, ms_keys := ks,
      ms_keyByID := mput i (ms_next s) (ms_keyByID s)\<rparr>\<rparr>) =
    (mem_keys (m\<lparr>mm_base := s\<rparr>))(i \<mapsto> keyView0 (keyFromView (keyView x)))"
proof
  fix j
  have "map_of (ms_keyByID s) j \<noteq> Some (ms_next s)"
    using assms by (force simp: store_inv_def store_ids_def store_alloc_def)
  then show "mem_keys (m\<lparr>mm_base := s\<lparr>ms_heap := mput (ms_next s) x (ms_heap s), ms_next := n, ms_keys := ks,
      ms_keyByID := mput i (ms_next s) (ms_keyByID s)\<rparr>\<rparr>) j =
    ((mem_keys (m\<lparr>mm_base := s\<rparr>))(i \<mapsto> keyView0 (keyFromView (keyView x)))) j"
    by (cases "map_of (ms_keyByID s) j") (auto simp: mem_keys_def)
qed

lemma inputKey_view:
  "keyView0 (keyFromView (keyView \<lparr>id_KeyID = ik_KeyID inp, id_UserID = ik_UserID inp,
      id_RateLimitPerMin = ik_RateLimitPerMin inp, id_AllowedModels = ik_AllowedModels inp,
      id_Enabled = ik_Enabled inp, id_CreatedAt = now\<rparr>)) = inputKey inp"
  by (simp add: keyView0_def keyFromView_def keyView_def inputKey_def)

lemma mem_create_key:
  assumes "store_inv (mm_base m)" "creatable inp"
    and "adminCreateKeyLocked now (mm_base m) (ik_APIKey inp) (ik_KeyID inp) (ik_UserID inp) (ik_RateLimitPerMin inp)
      (ik_AllowedModels inp) (ik_Enabled inp) = (s, r)"
  shows "store_inv s \<and> (case r of Inl err \<Rightarrow> s = mm_base m
    | Inr v \<Rightarrow> mem_keys m (ik_KeyID inp) = None \<and> keyView0 (keyFromView v) = inputKey inp \<and>
        mem_keys (m\<lparr>mm_base := s\<rparr>) = (mem_keys m)(ik_KeyID inp \<mapsto> inputKey inp))"
proof -
  have "store_inv s"
    using adminCreateKeyLocked_inv [OF assms(1)] assms(3) by (metis fst_conv)
  moreover have "\<not> mhas (ms_keyByID (mm_base m)) (ik_KeyID inp) \<Longrightarrow> mem_keys m (ik_KeyID inp) = None"
    by (simp add: mem_keys_def mhas_def)
  ultimately show ?thesis
    using assms mem_new_key [OF assms(1), where i = "ik_KeyID inp" and m = m]
    by (auto simp: adminCreateKeyLocked_def Let_def inputKey_view mhas_def split: if_splits)
qed

lemma keyView0_enabled:
  "keyView0 (keyFromView (keyView (x\<lparr>id_Enabled := b\<rparr>))) = (keyView0 (keyFromView (keyView x)))\<lparr>ak_Enabled := b\<rparr>"
  by (simp add: keyView0_def keyFromView_def keyView_def)

lemma mem_base_same [simp]: "m\<lparr>mm_base := mm_base m\<rparr> = m"
  by simp

lemma mem_keys_base: "mm_base m = s \<Longrightarrow> mem_keys (m\<lparr>mm_base := s\<rparr>) = mem_keys m"
  by auto

lemma mem_delete_key:
  assumes "store_inv (mm_base m)" "map_of (ms_keyByID (mm_base m)) i = Some a"
  shows "mem_keys (m\<lparr>mm_base := fst (AdminDeleteKey (mm_base m) i)\<rparr>) = (mem_keys m)(i := None)"
proof
  fix j show "mem_keys (m\<lparr>mm_base := fst (AdminDeleteKey (mm_base m) i)\<rparr>) j = ((mem_keys m)(i := None)) j"
    using assms(2) by (cases "map_of (ms_keyByID (mm_base m)) j") (auto simp: mem_keys_def AdminDeleteKey_def)
qed

lemma mem_keyExec:
  assumes inv: "mem_key_inv s" and x: "keyExec memAdminStore e op s = (s', r)"
  shows "mem_key_inv s' \<and> keyChange True op (mem_keys s) (mem_keys s') r"
proof -
  have base: "store_inv (mm_base s)" using inv by (simp add: mem_key_inv_def)
  show ?thesis
  proof (cases op)
    case (KeyCreate inp)
    obtain s0 r0 where q: "adminCreateKeyLocked e (mm_base s) (ik_APIKey inp) (ik_KeyID inp) (ik_UserID inp)
        (ik_RateLimitPerMin inp) (ik_AllowedModels inp) (ik_Enabled inp) = (s0, r0)" by fastforce
    show ?thesis
    proof (cases "creatable inp")
      case True
      then show ?thesis using x KeyCreate q mem_create_key [OF base True q]
        by (cases r0) (auto simp: memAdminStore_def MemCreateAPIKey_def creatable_def onBase_def AdminCreateKey_def
            mem_key_inv_def keyChange_def)
    qed (use x KeyCreate inv in \<open>auto simp: memAdminStore_def MemCreateAPIKey_def creatable_def keyChange_def\<close>)
  next
    case (KeyCreateLimited inp n)
    obtain s0 r0 where q: "adminCreateKeyLocked e (mm_base s) (ik_APIKey inp) (ik_KeyID inp) (ik_UserID inp)
        (ik_RateLimitPerMin inp) (ik_AllowedModels inp) (ik_Enabled inp) = (s0, r0)" by fastforce
    show ?thesis
    proof (cases "creatable inp \<and> n > 0 \<and> keyCount (mm_base s) (ik_UserID inp) < n")
      case True
      then have "creatable inp" by simp
      from mem_create_key [OF base this q] True show ?thesis using x KeyCreateLimited q
        by (cases r0) (auto simp: memAdminStore_def MemCreateAPIKeyLimited_def AdminCreateKeyLimited_def creatable_def
            mem_key_inv_def keyChange_def owned_keyCount [OF inv])
    qed (use x KeyCreateLimited inv in \<open>auto simp: memAdminStore_def MemCreateAPIKeyLimited_def AdminCreateKeyLimited_def
          creatable_def keyChange_def split: option.splits if_splits\<close>)
  next
    case (KeyEnable i b)
    show ?thesis
    proof (cases "map_of (ms_keyByID (mm_base s)) i")
      case None
      then show ?thesis using x KeyEnable inv
        by (auto simp: memAdminStore_def MemSetAPIKeyEnabled_def onBase_def AdminSetKeyEnabled_def keyChange_def)
    next
      case (Some a)
      then obtain y where y: "map_of (ms_heap (mm_base s)) a = Some y"
          "mem_keys s i = Some (keyView0 (keyFromView (keyView y)))"
        using mem_keys_Some [OF base] by blast
      have "store_inv (mm_base s')"
        using AdminSetKeyEnabled_inv [OF base, of i b] x KeyEnable
        by (auto simp: memAdminStore_def MemSetAPIKeyEnabled_def onBase_def)
      then show ?thesis using x KeyEnable Some y mem_put_key [OF base Some, where m = s]
        by (auto simp: memAdminStore_def MemSetAPIKeyEnabled_def onBase_def AdminSetKeyEnabled_def keyChange_def Let_def
            mem_key_inv_def keyView0_enabled)
    qed
  next
    case (KeyDelete i)
    show ?thesis
    proof (cases "map_of (ms_keyByID (mm_base s)) i")
      case None
      then show ?thesis using x KeyDelete inv
        by (auto simp: memAdminStore_def MemDeleteAPIKey_def onBase_def AdminDeleteKey_def keyChange_def)
    next
      case (Some a)
      then have "mem_keys s i \<noteq> None" using mem_keys_Some [OF base] by fastforce
      then show ?thesis
        using x KeyDelete Some mem_delete_key [OF base Some] AdminDeleteKey_inv [OF base, of i]
          AdminDeleteKey_ok [OF base Some]
        by (auto simp: memAdminStore_def MemDeleteAPIKey_def onBase_def keyChange_def mem_key_inv_def)
    qed
  qed
qed

interpretation mem_key_table: key_store memAdminStore mem_key_inv mem_keys "\<lambda>e. True"
proof unfold_locales
  fix s e u ks
  assume inv: "mem_key_inv s" and l: "aop_ListAPIKeysByUser memAdminStore e u s = Inr ks"
  have ks: "set ks = (\<lambda>x. keyFromView (keyView x)) ` {x. id_UserID x = u \<and>
      (\<exists>i a. map_of (ms_keyByID (mm_base s)) i = Some a \<and> map_of (ms_heap (mm_base s)) a = Some x)}"
    using l mem_list_keys [OF inv, of u] by (simp add: memAdminStore_def MemListAPIKeysByUser_def)
  have some: "mem_keys s i = Some k \<longleftrightarrow> (\<exists>a x. map_of (ms_keyByID (mm_base s)) i = Some a \<and>
      map_of (ms_heap (mm_base s)) a = Some x \<and> id_KeyID x = i \<and> k = keyView0 (keyFromView (keyView x)))" for i k
    using mem_keys_Some [of s i] inv by (auto simp: mem_key_inv_def mem_keys_def split: option.splits)
  show "(\<forall>k. k \<in> set ks \<longrightarrow> mem_keys s (ak_KeyID k) = Some (keyView0 k)) \<and>
      (\<forall>i k. mem_keys s i = Some k \<and> ak_UserID k = u \<longrightarrow> i \<in> ak_KeyID ` set ks) \<and> (\<forall>k \<in> set ks. ak_UserID k = u)"
    unfolding ks some using mem_keys_Some [of s] inv by (force simp: mem_key_inv_def)
qed (use mem_keyExec mem_keys_wf in \<open>auto\<close>)

section \<open>The service\<close>

fun svcExec :: "('e, 's) service \<Rightarrow> 'e service_env \<Rightarrow> channel_op \<Rightarrow> 's served \<Rightarrow> 's served channel_reply" where
  "svcExec sv e (OpCreate inp) st = map_prod id (map_sum id (\<lambda>c. Some (chanView c))) (SvcCreateChannel sv e inp st)"
| "svcExec sv e (OpUpdate inp) st = map_prod id (map_sum id (\<lambda>c. Some (chanView c))) (SvcUpdateChannel sv e inp st)"
| "svcExec sv e (OpEnable i b) st = map_prod id (map_sum id (\<lambda>c. Some (chanView c))) (SvcSetChannelEnabled sv e i b st)"
| "svcExec sv e (OpDelete i) st = map_prod id (map_sum id (\<lambda>c. None)) (SvcDeleteChannel sv e i st)"

text \<open>The channels of a router as a table.\<close>

definition routeView :: "channel \<Rightarrow> string \<times> achannel" where
  "routeView ch = (ch_ID ch, \<lparr>xc_Name = ch_Name ch, xc_Format = ch_Format ch, xc_BaseURL = ch_BaseURL ch,
     xc_APIKey = ch_APIKey ch, xc_Models = map_of (ch_Models ch), xc_Priority = ch_Priority ch,
     xc_Weight = ch_Weight ch, xc_Enabled = ch_Enabled ch\<rparr>)"

definition routeTable :: "router \<Rightarrow> achannels" where
  "routeTable r = map_of (map routeView (Channels r))"

lemma routeView_ChannelToRouting [simp]: "routeView (ChannelToRouting c) = chanView c"
  by (simp add: routeView_def ChannelToRouting_def chanView_def achannelOf_def)

lemma syncBreakers_snap: "ro_snap (fst (syncBreakers r next cs)) = ro_snap r"
  by (induction r "next" cs rule: syncBreakers.induct)
     (auto simp: Let_def allocBreaker_def split: prod.splits option.splits)

lemma Channels_Update [simp]: "Channels (UpdateChannels cs r) = cs"
  using syncBreakers_snap [of "storeSnapshot cs r" "[]" cs]
  by (cases "syncBreakers (storeSnapshot cs r) [] cs")
     (simp add: Channels_def UpdateChannels_def exchangeBreakers_def, simp add: storeSnapshot_def)

text \<open>A channel that fails the check stops every reload, even when it is disabled.\<close>

lemma invalid_channel_blocks_reload:
  assumes "sv_validateChannel sv = Some check" "aop_ListChannels (sv_ops sv) e (svd_store st) = Inr cs"
    and "c \<in> set cs" "check (ChannelToRouting c) \<noteq> None"
  shows "fst (ReloadChannels sv e st) = st"
proof -
  have "firstInvalid check chs \<noteq> None" if "ch \<in> set chs" "check ch \<noteq> None" for ch chs
    using that by (induction chs) (auto split: option.splits)
  from this [OF _ assms(4)] assms(3) have "firstInvalid check (ChannelsToRouting cs) \<noteq> None"
    by (simp add: ChannelsToRouting_def)
  then show ?thesis using assms(1,2) by (auto simp: ReloadChannels_def validateChannels_def split: option.splits)
qed

text \<open>What a channel write leaves: an error leaves the router alone; a success is in the table, and the
  router serves the new table unless the reload failed, which leaves it alone.\<close>

definition channelWrite :: "('e, 's) service \<Rightarrow> ('s \<Rightarrow> achannels) \<Rightarrow> 'e service_env \<Rightarrow> channel_op \<Rightarrow>
    's served \<Rightarrow> 's served \<Rightarrow> (string \<times> achannel) option result \<Rightarrow> bool" where
  "channelWrite sv chans e op st st' r \<longleftrightarrow>
     (case r of
        Inl err \<Rightarrow> svd_router st' = svd_router st \<and> (chans (svd_store st') = chans (svd_store st) \<or>
          outage err \<and> chans (svd_store st') = fst (achStep op (chans (svd_store st))))
      | Inr x \<Rightarrow> achStep op (chans (svd_store st)) = (chans (svd_store st'), Inr x) \<and>
          (case svd_router st of
             None \<Rightarrow> svd_router st' = None
           | Some ro \<Rightarrow> (\<exists>ro'. svd_router st' = Some ro' \<and> routeTable ro' = chans (svd_store st')) \<or>
               svd_router st' = Some ro \<and> snd (ReloadChannels sv (se_list e) st') \<noteq> None))"

lemma achStep_error: "snd (achStep op t) = Inl err \<Longrightarrow> fst (achStep op t) = t"
  by (cases op) (auto simp: Let_def split: sum.splits option.splits if_splits)

lemma normalize_key: "normalizeChannelInput (inp\<lparr>ci_APIKey := k\<rparr>) =
    map_sum id (\<lambda>i. i\<lparr>ci_APIKey := k\<rparr>) (normalizeChannelInput inp)"
  by (simp add: normalizeChannelInput_def)

text \<open>An update that keeps the credential does not read the one of its input.\<close>

lemma achStep_kept:
  assumes "\<not> ci_APIKeySet inp"
  shows "achStep (OpUpdate (inp\<lparr>ci_APIKey := k\<rparr>)) t = achStep (OpUpdate inp) t"
proof (cases "normalizeChannelInput inp")
  case (Inr i)
  then have "\<not> ci_APIKeySet i" using assms normalize_fields [OF Inr] by simp
  then show ?thesis using Inr by (cases "t (ci_ChannelID i)") (simp_all add: normalize_key Let_def)
qed (simp add: normalize_key)

context channel_store
begin

lemma reload:
  assumes "inv (svd_store st)" "sv_ops sv = ops" "st' = reloadAfterWrite sv e st"
  shows "svd_store st' = svd_store st \<and>
    (case svd_router st of
       None \<Rightarrow> svd_router st' = None
     | Some ro \<Rightarrow> (\<exists>ro'. svd_router st' = Some ro' \<and> routeTable ro' = chans (svd_store st')) \<or>
         svd_router st' = Some ro \<and> snd (ReloadChannels sv e st') \<noteq> None)"
proof (cases "svd_router st")
  case (Some ro)
  show ?thesis
  proof (cases "aop_ListChannels ops e (svd_store st)")
    case (Inl err)
    then show ?thesis using assms Some by (simp add: reloadAfterWrite_def ReloadChannels_def)
  next
    case (Inr cs)
    then show ?thesis using assms Some list [OF assms(1) Inr]
      by (cases "validateChannels sv (ChannelsToRouting cs)")
         (simp_all add: reloadAfterWrite_def ReloadChannels_def routeTable_def ChannelsToRouting_def comp_def)
  qed
qed (use assms in \<open>simp add: reloadAfterWrite_def ReloadChannels_def\<close>)

text \<open>A write of the store and the reload after it.\<close>

lemma wrote:
  assumes "inv (svd_store st)" "op_ok op" "sv_ops sv = ops" "achStep op (chans (svd_store st)) = achStep op' (chans (svd_store st))"
    and "chanExec ops (se_write e) op (svd_store st) = map_prod id (map_sum id f) q"
    and "map_prod id (map_sum id f) (thenReload sv e q st) = (st', r)"
  shows "inv (svd_store st') \<and> channelWrite sv chans e op' st st' r"
proof -
  obtain s0 r0 where q: "q = (s0, r0)" by fastforce
  have x: "inv s0" "agrees (chans (svd_store st)) (achStep op' (chans (svd_store st))) (chans s0, map_sum id f r0)"
    using exec [OF assms(1,2)] assms(4,5) q by auto
  show ?thesis
  proof (cases r0)
    case (Inl err)
    then have "st' = st\<lparr>svd_store := s0\<rparr>" "r = Inl err"
      using assms(6) q by (simp_all add: thenReload_def)
    moreover have "chans s0 = chans (svd_store st) \<or>
        outage err \<and> chans s0 = fst (achStep op' (chans (svd_store st)))"
      using x(2) Inl achStep_error [of op' "chans (svd_store st)" err]
      by (cases "achStep op' (chans (svd_store st))") (auto simp: agrees_def)
    ultimately show ?thesis using x(1) by (simp add: channelWrite_def)
  next
    case (Inr y)
    then have st': "st' = reloadAfterWrite sv (se_list e) (st\<lparr>svd_store := s0\<rparr>)" "r = Inr (f y)"
      using assms(6) q by (auto simp: thenReload_def)
    have "agrees (chans (svd_store st)) (achStep op' (chans (svd_store st))) (chans s0, Inr (f y))"
      using x(2) Inr by simp
    then have "achStep op' (chans (svd_store st)) = (chans s0, Inr (f y))" by (auto simp: agrees_def)
    then show ?thesis
      using reload [OF _ assms(3) st'(1)] x(1) st'(2) by (auto simp: channelWrite_def split: option.splits)
  qed
qed

lemma refused: "inv (svd_store st) \<Longrightarrow> inv (svd_store st) \<and> channelWrite sv chans e op st st (Inl err)"
  by (simp add: channelWrite_def)

theorem served:
  assumes "inv (svd_store st)" "op_ok op" "sv_ops sv = ops" "svcExec sv e op st = (st', r)"
  shows "inv (svd_store st') \<and> channelWrite sv chans e op st st' r"
proof (cases op)
  case (OpCreate inp)
  show ?thesis
  proof (cases "validateInput sv inp")
    case None
    then show ?thesis using assms OpCreate
      by (intro wrote [where op = op and f = "\<lambda>c. Some (chanView c)" and q = "aop_CreateChannel ops (se_write e) inp (svd_store st)"])
         (simp_all add: SvcCreateChannel_def)
  qed (use assms OpCreate refused in \<open>auto simp: SvcCreateChannel_def\<close>)
next
  case (OpUpdate inp)
  define got where "got = (if \<not> ci_APIKeySet inp \<and> ci_APIKey inp = []
    then map_sum id (\<lambda>current. inp\<lparr>ci_APIKey := cn_APIKey current\<rparr>)
           (aop_GetChannel ops (se_get e) (ci_ChannelID inp) (svd_store st)) else Inr inp)"
  have svc: "svcExec sv e op st = map_prod id (map_sum id (\<lambda>c. Some (chanView c)))
      (case got of Inl err \<Rightarrow> (st, Inl err)
       | Inr i \<Rightarrow> (case validateInput sv i of Some err \<Rightarrow> (st, Inl err)
           | None \<Rightarrow> thenReload sv e (aop_UpdateChannel ops (se_write e) i (svd_store st)) st))"
    by (simp only: OpUpdate svcExec.simps SvcUpdateChannel_def got_def assms(3))
  show ?thesis
  proof (cases got)
    case (Inl err)
    then show ?thesis using assms(1,4) refused [OF assms(1)] by (auto simp: svc)
  next
    case (Inr i)
    then have i: "i = inp \<or> \<not> ci_APIKeySet inp \<and> (\<exists>k. i = inp\<lparr>ci_APIKey := k\<rparr>)"
      by (cases "aop_GetChannel ops (se_get e) (ci_ChannelID inp) (svd_store st)") (auto simp: got_def split: if_splits)
    then have same: "achStep (OpUpdate i) t = achStep op t" "op_ok (OpUpdate i)" for t
      using OpUpdate assms(2) by (auto simp: achStep_kept input_ok_def simp del: achStep.simps)
    show ?thesis
    proof (cases "validateInput sv i")
      case None
      then show ?thesis using assms OpUpdate Inr same
        by (intro wrote [where op = "OpUpdate i" and f = "\<lambda>c. Some (chanView c)"
              and q = "aop_UpdateChannel ops (se_write e) i (svd_store st)"])
           (simp_all add: svc [unfolded OpUpdate] del: achStep.simps svcExec.simps)
    qed (use assms(1,4) Inr refused [OF assms(1)] in \<open>auto simp: svc\<close>)
  qed
next
  case (OpEnable i b)
  define check where "check = (if b \<and> sv_validateChannel sv \<noteq> None
    then (case aop_GetChannel ops (se_get e) i (svd_store st) of
            Inl err \<Rightarrow> Some err
          | Inr current \<Rightarrow> validateChannels sv [ChannelToRouting (current\<lparr>cn_Enabled := True\<rparr>)])
    else None)"
  have svc: "svcExec sv e op st = map_prod id (map_sum id (\<lambda>c. Some (chanView c)))
      (case check of Some err \<Rightarrow> (st, Inl err)
       | None \<Rightarrow> thenReload sv e (aop_SetChannelEnabled ops (se_write e) i b (svd_store st)) st)"
    by (simp only: OpEnable svcExec.simps SvcSetChannelEnabled_def check_def assms(3))
  show ?thesis
  proof (cases check)
    case None
    then show ?thesis using assms OpEnable
      by (intro wrote [where op = op and f = "\<lambda>c. Some (chanView c)"
            and q = "aop_SetChannelEnabled ops (se_write e) i b (svd_store st)"])
         (simp_all add: svc [unfolded OpEnable] del: achStep.simps svcExec.simps)
  qed (use assms(1,4) refused [OF assms(1)] in \<open>auto simp: svc\<close>)
next
  case (OpDelete i)
  then show ?thesis using assms
    by (intro wrote [where op = op and f = "\<lambda>c. None" and q = "aop_DeleteChannel ops (se_write e) i (svd_store st)"])
       (simp_all add: SvcDeleteChannel_def)
qed

end

end
