(* ===== verification/PgAdmin.thy ===== *)
theory PgAdmin
  imports AdminSpec ChannelKeys PgLedger
begin

text \<open>
  The production store of the management interface: \<open>internal/admin/postgres.go\<close> with the statements of
  \<open>internal/db/channels.sql.go\<close>, \<open>api_keys.sql.go\<close>, \<open>users.sql.go\<close>, \<open>channel_keys.sql.go\<close> and
  \<open>usage_logs.sql.go\<close> over the tables and constraints of \<open>internal/db/schema.sql\<close>, the identity store
  \<open>internal/store/postgres.go\<close>, and the migration of plaintext credentials,
  \<open>internal/admin/channel_key_migration.go\<close>.

  As in the other stores on PostgreSQL, the environment of a call says which statements fail, what a
  commit does, the clock and the identity column; here also what the random source yields. Credentials
  are stored as envelopes. \<open>JSONB\<close> renders the text it stores anew: the function \<open>ps_jsonb\<close>, which
  may refuse a text, and keeps the map that the text denotes (\<open>jsonb_ok\<close>).
\<close>

declare decField.simps(2) [simp del] jsonDepth.simps(2) [simp del]

section \<open>Tables\<close>

record db_api_key =
  kr_ID :: int
  kr_KeyHash :: string
  kr_KeyID :: string
  kr_UserExternalID :: string
  kr_RateLimitPerMin :: int
  kr_AllowedModels :: "string list"
  kr_Enabled :: bool
  kr_CreatedAt :: gotime

record db_channel =
  dc_ID :: int
  dc_ChannelID :: string
  dc_Name :: string
  dc_Format :: string
  dc_BaseURL :: string
  dc_ApiKey :: string
  dc_Models :: string
  dc_Priority :: int
  dc_Weight :: int
  dc_Enabled :: bool
  dc_CreatedAt :: gotime
  dc_UpdatedAt :: gotime

record db_user =
  du_ID :: int
  du_ExternalID :: string
  du_Balance :: int
  du_Enabled :: bool
  du_CreatedAt :: gotime
  du_UpdatedAt :: gotime

text \<open>The users of the ledger with the two columns that only the management interface reads.\<close>

record pg_admin =
  pd_billing :: pg_db
  pd_userID :: "string \<Rightarrow> int"
  pd_userCreated :: "string \<Rightarrow> gotime"
  pd_keys :: "(string, db_api_key) gomap"
  pd_channels :: "(string, db_channel) gomap"

datatype admin_stmt =
    DSBegin | DSCreateUser | DSListUsers | DSGetUser | DSSetUserEnabled | DSAddBalance | DSGetBalance
  | DSCreateKey | DSCreateKeyLimited | DSListKeys | DSSetKeyEnabled | DSDeleteKey | DSResolveKey
  | DSCreateChannel | DSListChannels | DSListEnabled | DSGetChannel | DSUpdateChannel | DSSetChannelEnabled
  | DSDeleteChannel | DSListMaterials | DSUpdateMaterial | DSSumCost

record admin_env =
  an_fail :: "admin_stmt \<Rightarrow> bool"
  an_commit :: commit_outcome
  an_dbnow :: gotime
  an_id :: int
  an_rand :: string
  an_overlap :: int

type_synonym 'a admin_query = "pg_admin \<Rightarrow> goerr + ('a \<times> pg_admin)"

definition admStmt :: "admin_env \<Rightarrow> admin_stmt \<Rightarrow> 'a admin_query \<Rightarrow> 'a admin_query" where
  "admStmt e st q d = (if an_fail e st then Inl (ErrPg ''statement'') else q d)"

definition admCommit :: "admin_env \<Rightarrow> pg_admin \<Rightarrow> goerr + ('a \<times> pg_admin) \<Rightarrow> pg_admin \<times> 'a result" where
  "admCommit e d q =
     (case q of
        Inl err \<Rightarrow> (d, Inl err)
      | Inr (x, d') \<Rightarrow>
          (case an_commit e of
             CommitOk \<Rightarrow> (d', Inr x)
           | CommitLost \<Rightarrow> (d, Inl (ErrPg ''commit''))
           | CommitUnknown \<Rightarrow> (d', Inl (ErrPg ''commit''))))"

definition admRead :: "goerr + ('a \<times> pg_admin) \<Rightarrow> 'a result" where
  "admRead q = map_sum id fst q"

section \<open>Users\<close>

definition userRow :: "pg_admin \<Rightarrow> string \<Rightarrow> pg_user \<Rightarrow> db_user" where
  "userRow d externalID u = \<lparr>du_ID = pd_userID d externalID, du_ExternalID = externalID, du_Balance = pu_Balance u,
     du_Enabled = pu_Enabled u, du_CreatedAt = pd_userCreated d externalID, du_UpdatedAt = pu_UpdatedAt u\<rparr>"

definition putUser :: "string \<Rightarrow> pg_user \<Rightarrow> pg_admin \<Rightarrow> pg_admin" where
  "putUser externalID u d = d\<lparr>pd_billing := (pd_billing d)\<lparr>db_users := mput externalID u (db_users (pd_billing d))\<rparr>\<rparr>"

definition GetUserByExternalID :: "admin_env \<Rightarrow> string \<Rightarrow> db_user admin_query" where
  "GetUserByExternalID e externalID = admStmt e DSGetUser (\<lambda>d.
     case map_of (db_users (pd_billing d)) externalID of
       None \<Rightarrow> Inl ErrNoRows
     | Some u \<Rightarrow> Inr (userRow d externalID u, d))"

definition GetBalanceRow :: "admin_env \<Rightarrow> string \<Rightarrow> int admin_query" where
  "GetBalanceRow e externalID = admStmt e DSGetBalance (\<lambda>d.
     case map_of (db_users (pd_billing d)) externalID of
       None \<Rightarrow> Inl ErrNoRows
     | Some u \<Rightarrow> if pu_Enabled u then Inr (pu_Balance u, d) else Inl ErrNoRows)"

definition AddBalanceRow :: "admin_env \<Rightarrow> string \<Rightarrow> int \<Rightarrow> int admin_query" where
  "AddBalanceRow e externalID delta = admStmt e DSAddBalance (\<lambda>d.
     case map_of (db_users (pd_billing d)) externalID of
       None \<Rightarrow> Inl ErrNoRows
     | Some u \<Rightarrow>
         if \<not> in_i64 (pu_Balance u + delta) \<or> \<not> in_i64 (pu_BalanceVersion u + 1)
         then Inl (ErrPg ''numeric_value_out_of_range'')
         else Inr (pu_Balance u + delta, putUser externalID (u\<lparr>pu_Balance := pu_Balance u + delta,
                pu_BalanceVersion := pu_BalanceVersion u + 1, pu_UpdatedAt := an_dbnow e\<rparr>) d))"

definition InsertUser :: "admin_env \<Rightarrow> create_user_input \<Rightarrow> db_user admin_query" where
  "InsertUser e p = admStmt e DSCreateUser (\<lambda>d.
     if mhas (db_users (pd_billing d)) (cu_ExternalID p) then Inl (ErrPg ''unique_violation'')
     else
       let u = \<lparr>pu_Balance = cu_Balance p, pu_BalanceVersion = 0, pu_Enabled = cu_Enabled p, pu_UpdatedAt = an_dbnow e\<rparr>;
           d' = putUser (cu_ExternalID p) u
                  (d\<lparr>pd_userID := (pd_userID d)(cu_ExternalID p := an_id e),
                     pd_userCreated := (pd_userCreated d)(cu_ExternalID p := an_dbnow e)\<rparr>)
       in Inr (userRow d' (cu_ExternalID p) u, d'))"

definition ListUserRows :: "admin_env \<Rightarrow> int \<Rightarrow> int \<Rightarrow> db_user list admin_query" where
  "ListUserRows e limit offset = admStmt e DSListUsers (\<lambda>d.
     if limit < 0 \<or> offset < 0 then Inl (ErrPg ''invalid_row_count'')
     else Inr (take (nat limit) (drop (nat offset) (sort_key (\<lambda>r. (- du_CreatedAt r, - du_ID r))
            (map (\<lambda>(i, u). userRow d i u) (db_users (pd_billing d))))), d))"

definition UpdateUserEnabled :: "admin_env \<Rightarrow> string \<Rightarrow> bool \<Rightarrow> db_user admin_query" where
  "UpdateUserEnabled e externalID enabled = admStmt e DSSetUserEnabled (\<lambda>d.
     case map_of (db_users (pd_billing d)) externalID of
       None \<Rightarrow> Inl ErrNoRows
     | Some u \<Rightarrow>
         let d' = putUser externalID (u\<lparr>pu_Enabled := enabled, pu_UpdatedAt := an_dbnow e\<rparr>) d
         in Inr (userRow d' externalID (u\<lparr>pu_Enabled := enabled, pu_UpdatedAt := an_dbnow e\<rparr>), d'))"

text \<open>The sum of the costs in a half-open window; the cast to \<open>BIGINT\<close> fails when it does not fit.\<close>

definition SumCostByUser :: "admin_env \<Rightarrow> string \<Rightarrow> gotime \<Rightarrow> gotime \<Rightarrow> int admin_query" where
  "SumCostByUser e userID start until = admStmt e DSSumCost (\<lambda>d.
     let total = sum_list (map ul_Cost (filter (\<lambda>u. ul_UserID u = userID \<and> start \<le> ul_CreatedAt u \<and> ul_CreatedAt u < until)
           (db_usage (pd_billing d))))
     in if in_i64 total then Inr (total, d) else Inl (ErrPg ''numeric_value_out_of_range''))"

section \<open>Keys\<close>

record create_key_params =
  kp_KeyHash :: string
  kp_KeyID :: string
  kp_UserExternalID :: string
  kp_RateLimitPerMin :: int
  kp_AllowedModels :: "string list"
  kp_Enabled :: bool

definition newKeyRow :: "admin_env \<Rightarrow> create_key_params \<Rightarrow> db_api_key" where
  "newKeyRow e p = \<lparr>kr_ID = an_id e, kr_KeyHash = kp_KeyHash p, kr_KeyID = kp_KeyID p,
     kr_UserExternalID = kp_UserExternalID p, kr_RateLimitPerMin = kp_RateLimitPerMin p,
     kr_AllowedModels = kp_AllowedModels p, kr_Enabled = kp_Enabled p, kr_CreatedAt = an_dbnow e\<rparr>"

definition insertKey :: "admin_env \<Rightarrow> create_key_params \<Rightarrow> db_api_key admin_query" where
  "insertKey e p d =
     (if mhas (pd_keys d) (kp_KeyID p) \<or> list_ex (\<lambda>(i, r). kr_KeyHash r = kp_KeyHash p) (pd_keys d)
      then Inl (ErrPg ''unique_violation'')
      else if \<not> mhas (db_users (pd_billing d)) (kp_UserExternalID p) then Inl (ErrPg ''foreign_key_violation'')
      else Inr (newKeyRow e p, d\<lparr>pd_keys := mput (kp_KeyID p) (newKeyRow e p) (pd_keys d)\<rparr>))"

definition InsertAPIKey :: "admin_env \<Rightarrow> create_key_params \<Rightarrow> db_api_key admin_query" where
  "InsertAPIKey e p = admStmt e DSCreateKey (insertKey e p)"

text \<open>The statement takes its snapshot when it starts and waits for the advisory lock afterwards, so the
  count does not see \<open>an_overlap\<close> keys of the same user that were committed in between.\<close>

definition seenKeys :: "admin_env \<Rightarrow> string \<Rightarrow> pg_admin \<Rightarrow> int" where
  "seenKeys e userID d =
     int (length (filter (\<lambda>(i, r). kr_UserExternalID r = userID) (pd_keys d))) - an_overlap e"

definition InsertAPIKeyLimited :: "admin_env \<Rightarrow> create_key_params \<Rightarrow> int \<Rightarrow> db_api_key admin_query" where
  "InsertAPIKeyLimited e p maxKeys = admStmt e DSCreateKeyLimited (\<lambda>d.
     if seenKeys e (kp_UserExternalID p) d < maxKeys then insertKey e p d else Inl ErrNoRows)"

definition ListKeyRows :: "admin_env \<Rightarrow> string \<Rightarrow> db_api_key list admin_query" where
  "ListKeyRows e userExternalID = admStmt e DSListKeys (\<lambda>d.
     Inr (sort_key (\<lambda>r. (- kr_CreatedAt r, - kr_ID r))
            (filter (\<lambda>r. kr_UserExternalID r = userExternalID) (map snd (pd_keys d))), d))"

definition UpdateKeyEnabled :: "admin_env \<Rightarrow> string \<Rightarrow> bool \<Rightarrow> db_api_key admin_query" where
  "UpdateKeyEnabled e keyID enabled = admStmt e DSSetKeyEnabled (\<lambda>d.
     case map_of (pd_keys d) keyID of
       None \<Rightarrow> Inl ErrNoRows
     | Some r \<Rightarrow> Inr (r\<lparr>kr_Enabled := enabled\<rparr>, d\<lparr>pd_keys := mput keyID (r\<lparr>kr_Enabled := enabled\<rparr>) (pd_keys d)\<rparr>))"

definition DeleteKeyRow :: "admin_env \<Rightarrow> string \<Rightarrow> int admin_query" where
  "DeleteKeyRow e keyID = admStmt e DSDeleteKey (\<lambda>d.
     if mhas (pd_keys d) keyID then Inr (1, d\<lparr>pd_keys := mdel keyID (pd_keys d)\<rparr>) else Inr (0, d))"

text \<open>The join of a key with its user, both enabled.\<close>

definition ResolveAPIKey :: "admin_env \<Rightarrow> string \<Rightarrow> db_api_key admin_query" where
  "ResolveAPIKey e keyHash = admStmt e DSResolveKey (\<lambda>d.
     case find (\<lambda>(i, r). kr_KeyHash r = keyHash \<and> kr_Enabled r \<and>
            (case map_of (db_users (pd_billing d)) (kr_UserExternalID r) of None \<Rightarrow> False | Some u \<Rightarrow> pu_Enabled u))
          (pd_keys d) of
       None \<Rightarrow> Inl ErrNoRows
     | Some (i, r) \<Rightarrow> Inr (r, d))"

section \<open>Channels\<close>

record channel_params =
  cp_ChannelID :: string
  cp_Name :: string
  cp_Format :: string
  cp_BaseURL :: string
  cp_ApiKey :: string
  cp_Models :: string
  cp_Priority :: int
  cp_Weight :: int
  cp_Enabled :: bool

text \<open>The check constraint on \<open>api_key\<close>. It is \<open>NOT VALID\<close>, which spares the rows that are there, but not
  a row that is written.\<close>

definition putChannel :: "db_channel \<Rightarrow> 'a \<Rightarrow> 'a admin_query" where
  "putChannel r x d =
     (if \<not> isChannelKeyEnvelope (dc_ApiKey r) then Inl (ErrPg ''check_violation'')
      else Inr (x, d\<lparr>pd_channels := mput (dc_ChannelID r) r (pd_channels d)\<rparr>))"

definition newChannelRow :: "admin_env \<Rightarrow> channel_params \<Rightarrow> string \<Rightarrow> db_channel" where
  "newChannelRow e p models = \<lparr>dc_ID = an_id e, dc_ChannelID = cp_ChannelID p, dc_Name = cp_Name p,
     dc_Format = cp_Format p, dc_BaseURL = cp_BaseURL p, dc_ApiKey = cp_ApiKey p, dc_Models = models,
     dc_Priority = cp_Priority p, dc_Weight = cp_Weight p, dc_Enabled = cp_Enabled p,
     dc_CreatedAt = an_dbnow e, dc_UpdatedAt = an_dbnow e\<rparr>"

definition InsertChannel :: "(string \<Rightarrow> string option) \<Rightarrow> admin_env \<Rightarrow> channel_params \<Rightarrow> db_channel admin_query" where
  "InsertChannel jsonb e p = admStmt e DSCreateChannel (\<lambda>d.
     case jsonb (cp_Models p) of
       None \<Rightarrow> Inl (ErrPg ''invalid_text'')
     | Some models \<Rightarrow>
         if isChannelKeyEnvelope (cp_ApiKey p) \<and> mhas (pd_channels d) (cp_ChannelID p)
         then Inl (ErrPg ''unique_violation'')
         else putChannel (newChannelRow e p models) (newChannelRow e p models) d)"

definition sortedChannels :: "pg_admin \<Rightarrow> db_channel list" where
  "sortedChannels d = sort_key (\<lambda>r. (- dc_Priority r, dc_ChannelID r)) (map snd (pd_channels d))"

definition ListAllChannels :: "admin_env \<Rightarrow> db_channel list admin_query" where
  "ListAllChannels e = admStmt e DSListChannels (\<lambda>d. Inr (sortedChannels d, d))"

definition ListEnabledChannels :: "admin_env \<Rightarrow> db_channel list admin_query" where
  "ListEnabledChannels e = admStmt e DSListEnabled (\<lambda>d. Inr (filter dc_Enabled (sortedChannels d), d))"

definition GetChannelRow :: "admin_env \<Rightarrow> string \<Rightarrow> db_channel admin_query" where
  "GetChannelRow e channelID = admStmt e DSGetChannel (\<lambda>d.
     case map_of (pd_channels d) channelID of None \<Rightarrow> Inl ErrNoRows | Some r \<Rightarrow> Inr (r, d))"

definition changedChannelRow :: "admin_env \<Rightarrow> channel_params \<Rightarrow> bool \<Rightarrow> string \<Rightarrow> db_channel \<Rightarrow> db_channel" where
  "changedChannelRow e p apiKeySet models old =
     old\<lparr>dc_Name := cp_Name p, dc_Format := cp_Format p, dc_BaseURL := cp_BaseURL p,
         dc_ApiKey := (if apiKeySet then cp_ApiKey p else dc_ApiKey old), dc_Models := models,
         dc_Priority := cp_Priority p, dc_Weight := cp_Weight p, dc_Enabled := cp_Enabled p,
         dc_UpdatedAt := an_dbnow e\<rparr>"

definition UpdateChannelRow ::
  "(string \<Rightarrow> string option) \<Rightarrow> admin_env \<Rightarrow> channel_params \<Rightarrow> bool \<Rightarrow> db_channel admin_query" where
  "UpdateChannelRow jsonb e p apiKeySet = admStmt e DSUpdateChannel (\<lambda>d.
     case jsonb (cp_Models p) of
       None \<Rightarrow> Inl (ErrPg ''invalid_text'')
     | Some models \<Rightarrow>
         (case map_of (pd_channels d) (cp_ChannelID p) of
            None \<Rightarrow> Inl ErrNoRows
          | Some old \<Rightarrow>
              putChannel (changedChannelRow e p apiKeySet models old) (changedChannelRow e p apiKeySet models old) d))"

definition UpdateChannelEnabled :: "admin_env \<Rightarrow> string \<Rightarrow> bool \<Rightarrow> db_channel admin_query" where
  "UpdateChannelEnabled e channelID enabled = admStmt e DSSetChannelEnabled (\<lambda>d.
     case map_of (pd_channels d) channelID of
       None \<Rightarrow> Inl ErrNoRows
     | Some old \<Rightarrow> let r = old\<lparr>dc_Enabled := enabled, dc_UpdatedAt := an_dbnow e\<rparr> in putChannel r r d)"

definition DeleteChannelRow :: "admin_env \<Rightarrow> string \<Rightarrow> int admin_query" where
  "DeleteChannelRow e channelID = admStmt e DSDeleteChannel (\<lambda>d.
     if mhas (pd_channels d) channelID then Inr (1, d\<lparr>pd_channels := mdel channelID (pd_channels d)\<rparr>)
     else Inr (0, d))"

section \<open>The store\<close>

record pg_store =
  ps_channelKeys :: "channel_key_cipher option"
  ps_hash :: "string \<Rightarrow> string"
  ps_jsonb :: "string \<Rightarrow> string option"

definition mapWriteErr :: "goerr \<Rightarrow> goerr" where
  "mapWriteErr err =
     (if errors_is err ErrNoRows then ErrAdminNotFound
      else if err = ErrPg ''unique_violation'' then ErrConflict
      else if err = ErrPg ''foreign_key_violation'' then ErrAdminNotFound
      else err)"

definition mapReadErr :: "goerr \<Rightarrow> goerr" where
  "mapReadErr err = (if errors_is err ErrNoRows then ErrAdminNotFound else err)"

definition userFromDB :: "db_user \<Rightarrow> admin_user" where
  "userFromDB u = \<lparr>au_ExternalID = du_ExternalID u, au_Balance = du_Balance u, au_Enabled = du_Enabled u,
     au_CreatedAt = du_CreatedAt u, au_UpdatedAt = du_UpdatedAt u\<rparr>"

definition PgAdminCreateUser :: "admin_env \<Rightarrow> create_user_input \<Rightarrow> pg_admin \<Rightarrow> pg_admin \<times> admin_user result" where
  "PgAdminCreateUser e inp d = map_prod id (map_sum mapWriteErr userFromDB) (admCommit e d (InsertUser e inp d))"

definition PgAdminListUsers :: "admin_env \<Rightarrow> int \<Rightarrow> int \<Rightarrow> pg_admin \<Rightarrow> admin_user list result" where
  "PgAdminListUsers e limit offset d =
     map_sum id (map userFromDB) (admRead (ListUserRows e (i32 limit) (i32 offset) d))"

definition PgAdminGetUser :: "admin_env \<Rightarrow> string \<Rightarrow> pg_admin \<Rightarrow> admin_user result" where
  "PgAdminGetUser e externalID d = map_sum mapReadErr userFromDB (admRead (GetUserByExternalID e externalID d))"

definition PgAdminSetUserEnabled :: "admin_env \<Rightarrow> string \<Rightarrow> bool \<Rightarrow> pg_admin \<Rightarrow> pg_admin \<times> admin_user result" where
  "PgAdminSetUserEnabled e externalID enabled d =
     map_prod id (map_sum mapWriteErr userFromDB) (admCommit e d (UpdateUserEnabled e externalID enabled d))"

definition PgAdminAddBalance :: "admin_env \<Rightarrow> string \<Rightarrow> int \<Rightarrow> pg_admin \<Rightarrow> pg_admin \<times> int result" where
  "PgAdminAddBalance e externalID delta d =
     (case GetUserByExternalID e externalID d of
        Inl err \<Rightarrow> (d, Inl (mapReadErr err))
      | Inr _ \<Rightarrow> map_prod id (map_sum mapWriteErr id) (admCommit e d (AddBalanceRow e externalID delta d)))"

definition keyFromDB :: "db_api_key \<Rightarrow> api_key" where
  "keyFromDB k = \<lparr>ak_KeyID = kr_KeyID k, ak_UserID = kr_UserExternalID k, ak_RateLimitPerMin = kr_RateLimitPerMin k,
     ak_AllowedModels = kr_AllowedModels k, ak_Enabled = kr_Enabled k, ak_CreatedAt = kr_CreatedAt k\<rparr>"

definition keyParams :: "pg_store \<Rightarrow> create_key_input \<Rightarrow> create_key_params" where
  "keyParams ps inp = \<lparr>kp_KeyHash = ps_hash ps (ik_APIKey inp), kp_KeyID = ik_KeyID inp,
     kp_UserExternalID = ik_UserID inp, kp_RateLimitPerMin = i32 (ik_RateLimitPerMin inp),
     kp_AllowedModels = ik_AllowedModels inp, kp_Enabled = ik_Enabled inp\<rparr>"

definition PgCreateAPIKey ::
  "pg_store \<Rightarrow> admin_env \<Rightarrow> create_key_input \<Rightarrow> pg_admin \<Rightarrow> pg_admin \<times> api_key result" where
  "PgCreateAPIKey ps e inp d =
     (case validateCreateAPIKeyInput inp of
        Some err \<Rightarrow> (d, Inl err)
      | None \<Rightarrow> map_prod id (map_sum mapWriteErr keyFromDB) (admCommit e d (InsertAPIKey e (keyParams ps inp) d)))"

definition limitErr :: "goerr \<Rightarrow> goerr" where
  "limitErr err = (if errors_is err ErrNoRows then ErrLimitReached else mapWriteErr err)"

definition PgCreateAPIKeyLimited ::
  "pg_store \<Rightarrow> admin_env \<Rightarrow> create_key_input \<Rightarrow> int \<Rightarrow> pg_admin \<Rightarrow> pg_admin \<times> api_key result" where
  "PgCreateAPIKeyLimited ps e inp maxKeys d =
     (case validateCreateAPIKeyInput inp of
        Some err \<Rightarrow> (d, Inl err)
      | None \<Rightarrow>
          if maxKeys \<le> 0 then (d, Inl ErrInvalidInput)
          else map_prod id (map_sum limitErr keyFromDB)
                 (admCommit e d (InsertAPIKeyLimited e (keyParams ps inp) (i32 maxKeys) d)))"

definition PgListAPIKeysByUser :: "admin_env \<Rightarrow> string \<Rightarrow> pg_admin \<Rightarrow> api_key list result" where
  "PgListAPIKeysByUser e userID d = map_sum id (map keyFromDB) (admRead (ListKeyRows e userID d))"

definition PgSetAPIKeyEnabled :: "admin_env \<Rightarrow> string \<Rightarrow> bool \<Rightarrow> pg_admin \<Rightarrow> pg_admin \<times> api_key result" where
  "PgSetAPIKeyEnabled e keyID enabled d =
     map_prod id (map_sum mapWriteErr keyFromDB) (admCommit e d (UpdateKeyEnabled e keyID enabled d))"

definition someRow :: "int \<Rightarrow> unit result" where
  "someRow n = (if n = 0 then Inl ErrAdminNotFound else Inr ())"

definition PgDeleteAPIKey :: "admin_env \<Rightarrow> string \<Rightarrow> pg_admin \<Rightarrow> pg_admin \<times> unit result" where
  "PgDeleteAPIKey e keyID d =
     map_prod id (case_sum Inl someRow) (admCommit e d (DeleteKeyRow e keyID d))"

text \<open>Channels: the map of models as a text, the credential as an envelope.\<close>

definition marshalModels :: "(string, string) gomap option \<Rightarrow> string" where
  "marshalModels m =
     (if orEmpty m = [] then ''{}''
      else objText (sort_key fst (map (\<lambda>(k, v). (k, quoteString v)) (orEmpty m))))"

text \<open>\<open>json.Unmarshal\<close> into a \<open>map[string]string\<close>.\<close>

definition decStringMap :: "(string, string) gomap option decoder" where
  "decStringMap raw old =
     (if raw = ''null'' then Some None
      else if startsWith (CHR ''{'') raw
      then map_option (\<lambda>vs. Some (foldl (\<lambda>m (k, v). mput k v m) (orEmpty old) (zip (map fst (rawMembers raw)) vs)))
             (those (map (\<lambda>m. decString (snd m) []) (rawMembers raw)))
      else None)"

definition unmarshalModels :: "string \<Rightarrow> (string, string) gomap option option" where
  "unmarshalModels raw = (if raw = [] then Some (Some []) else Unmarshal decStringMap raw (Some []))"

definition decryptChannelKey :: "pg_store \<Rightarrow> string \<Rightarrow> string \<Rightarrow> string result" where
  "decryptChannelKey ps channelID envelope =
     (if ps_channelKeys ps = None then Inl ErrChannelKeyEncryptionRequired
      else map_sum (\<lambda>err. ErrInvalidChannelKeyEnvelope) id (Decrypt (ps_channelKeys ps) channelID envelope))"

definition encryptChannelKey :: "pg_store \<Rightarrow> admin_env \<Rightarrow> string \<Rightarrow> string \<Rightarrow> string result" where
  "encryptChannelKey ps e channelID plaintext =
     (if ps_channelKeys ps = None then Inl ErrChannelKeyEncryptionRequired
      else Encrypt (ps_channelKeys ps) (an_rand e) channelID plaintext)"

definition channelFromDB :: "pg_store \<Rightarrow> db_channel \<Rightarrow> admin_channel result" where
  "channelFromDB ps c =
     (case decryptChannelKey ps (dc_ChannelID c) (dc_ApiKey c) of
        Inl err \<Rightarrow> Inl err
      | Inr apiKey \<Rightarrow>
          (case unmarshalModels (dc_Models c) of
             None \<Rightarrow> Inl (ErrOther ''json'')
           | Some models \<Rightarrow>
               Inr \<lparr>cn_ChannelID = dc_ChannelID c, cn_Name = dc_Name c, cn_Format = dc_Format c,
                 cn_BaseURL = dc_BaseURL c, cn_APIKey = apiKey, cn_Models = models, cn_Priority = dc_Priority c,
                 cn_Weight = dc_Weight c, cn_Enabled = dc_Enabled c, cn_CreatedAt = dc_CreatedAt c,
                 cn_UpdatedAt = dc_UpdatedAt c\<rparr>))"

definition channelParams :: "channel_input \<Rightarrow> string \<Rightarrow> channel_params" where
  "channelParams inp encryptedKey = \<lparr>cp_ChannelID = ci_ChannelID inp, cp_Name = ci_Name inp, cp_Format = ci_Format inp,
     cp_BaseURL = ci_BaseURL inp, cp_ApiKey = encryptedKey, cp_Models = marshalModels (ci_Models inp),
     cp_Priority = i32 (ci_Priority inp), cp_Weight = i32 (ci_Weight inp), cp_Enabled = ci_Enabled inp\<rparr>"

text \<open>The answer of a statement that returns a channel.\<close>

definition channelReply :: "pg_store \<Rightarrow> pg_admin \<times> db_channel result \<Rightarrow> pg_admin \<times> admin_channel result" where
  "channelReply ps q = map_prod id (case_sum (\<lambda>err. Inl (mapWriteErr err)) (channelFromDB ps)) q"

definition PgCreateChannel ::
  "pg_store \<Rightarrow> admin_env \<Rightarrow> channel_input \<Rightarrow> pg_admin \<Rightarrow> pg_admin \<times> admin_channel result" where
  "PgCreateChannel ps e inp d =
     (case normalizeChannelInput inp of
        Inl err \<Rightarrow> (d, Inl err)
      | Inr inp \<Rightarrow>
          (case encryptChannelKey ps e (ci_ChannelID inp) (ci_APIKey inp) of
             Inl err \<Rightarrow> (d, Inl err)
           | Inr encryptedKey \<Rightarrow>
               channelReply ps (admCommit e d (InsertChannel (ps_jsonb ps) e (channelParams inp encryptedKey) d))))"

fun channelsFromDB :: "pg_store \<Rightarrow> db_channel list \<Rightarrow> admin_channel list result" where
  "channelsFromDB ps [] = Inr []"
| "channelsFromDB ps (r # rs) =
     (case channelFromDB ps r of
        Inl err \<Rightarrow> Inl err
      | Inr c \<Rightarrow> map_sum id (\<lambda>cs. c # cs) (channelsFromDB ps rs))"

definition PgListChannels :: "pg_store \<Rightarrow> admin_env \<Rightarrow> pg_admin \<Rightarrow> admin_channel list result" where
  "PgListChannels ps e d =
     (case admRead (ListAllChannels e d) of Inl err \<Rightarrow> Inl err | Inr rows \<Rightarrow> channelsFromDB ps rows)"

definition PgGetChannel :: "pg_store \<Rightarrow> admin_env \<Rightarrow> string \<Rightarrow> pg_admin \<Rightarrow> admin_channel result" where
  "PgGetChannel ps e channelID d =
     (case admRead (GetChannelRow e channelID d) of Inl err \<Rightarrow> Inl (mapReadErr err) | Inr r \<Rightarrow> channelFromDB ps r)"

definition PgUpdateChannel ::
  "pg_store \<Rightarrow> admin_env \<Rightarrow> channel_input \<Rightarrow> pg_admin \<Rightarrow> pg_admin \<times> admin_channel result" where
  "PgUpdateChannel ps e inp d =
     (case normalizeChannelInput inp of
        Inl err \<Rightarrow> (d, Inl err)
      | Inr inp \<Rightarrow>
          (case (if ci_APIKeySet inp then encryptChannelKey ps e (ci_ChannelID inp) (ci_APIKey inp) else Inr []) of
             Inl err \<Rightarrow> (d, Inl err)
           | Inr encryptedKey \<Rightarrow>
               channelReply ps (admCommit e d
                 (UpdateChannelRow (ps_jsonb ps) e (channelParams inp encryptedKey) (ci_APIKeySet inp) d))))"

definition PgSetChannelEnabled ::
  "pg_store \<Rightarrow> admin_env \<Rightarrow> string \<Rightarrow> bool \<Rightarrow> pg_admin \<Rightarrow> pg_admin \<times> admin_channel result" where
  "PgSetChannelEnabled ps e channelID enabled d =
     channelReply ps (admCommit e d (UpdateChannelEnabled e channelID enabled d))"

definition PgDeleteChannel :: "admin_env \<Rightarrow> string \<Rightarrow> pg_admin \<Rightarrow> pg_admin \<times> unit result" where
  "PgDeleteChannel e channelID d =
     map_prod id (case_sum Inl someRow) (admCommit e d (DeleteChannelRow e channelID d))"

definition pgAdminStore :: "pg_store \<Rightarrow> (admin_env, pg_admin) admin_ops" where
  "pgAdminStore ps = \<lparr>aop_CreateUser = PgAdminCreateUser, aop_ListUsers = PgAdminListUsers,
     aop_GetUser = PgAdminGetUser, aop_SetUserEnabled = PgAdminSetUserEnabled, aop_AddBalance = PgAdminAddBalance,
     aop_CreateAPIKey = PgCreateAPIKey ps, aop_CreateAPIKeyLimited = PgCreateAPIKeyLimited ps,
     aop_ListAPIKeysByUser = PgListAPIKeysByUser, aop_SetAPIKeyEnabled = PgSetAPIKeyEnabled,
     aop_DeleteAPIKey = PgDeleteAPIKey, aop_CreateChannel = PgCreateChannel ps,
     aop_ListChannels = PgListChannels ps, aop_GetChannel = PgGetChannel ps, aop_UpdateChannel = PgUpdateChannel ps,
     aop_SetChannelEnabled = PgSetChannelEnabled ps, aop_DeleteChannel = PgDeleteChannel\<rparr>"

section \<open>Identities and balances for the hot path\<close>

definition PgResolveKey :: "pg_store \<Rightarrow> admin_env \<Rightarrow> string \<Rightarrow> pg_admin \<Rightarrow> identity result" where
  "PgResolveKey ps e apiKey d =
     map_sum (\<lambda>err. if errors_is err ErrNoRows then ErrStoreKeyNotFound else err)
       (\<lambda>r. \<lparr>id_KeyID = kr_KeyID r, id_UserID = kr_UserExternalID r, id_RateLimitPerMin = kr_RateLimitPerMin r,
             id_AllowedModels = kr_AllowedModels r, id_Enabled = True, id_CreatedAt = 0\<rparr>)
       (admRead (ResolveAPIKey e (ps_hash ps apiKey) d))"

definition PgBalance :: "admin_env \<Rightarrow> string \<Rightarrow> pg_admin \<Rightarrow> int result" where
  "PgBalance e userID d =
     (case admRead (GetBalanceRow e userID d) of
        Inl err \<Rightarrow> if errors_is err ErrNoRows then Inr 0 else Inl err
      | Inr bal \<Rightarrow> Inr bal)"

section \<open>The migration of plaintext credentials\<close>

definition ListChannelKeyMaterials :: "admin_env \<Rightarrow> (string \<times> string) list admin_query" where
  "ListChannelKeyMaterials e = admStmt e DSListMaterials (\<lambda>d.
     Inr (map (\<lambda>r. (dc_ChannelID r, dc_ApiKey r)) (sort_key dc_ChannelID (map snd (pd_channels d))), d))"

record key_update =
  ku_channelID :: string
  ku_oldValue :: string
  ku_newValue :: string

definition UpdateChannelKeyMaterial :: "admin_env \<Rightarrow> key_update \<Rightarrow> int admin_query" where
  "UpdateChannelKeyMaterial e u = admStmt e DSUpdateMaterial (\<lambda>d.
     case map_of (pd_channels d) (ku_channelID u) of
       None \<Rightarrow> Inr (0, d)
     | Some r \<Rightarrow>
         if dc_ApiKey r \<noteq> ku_oldValue u then Inr (0, d)
         else putChannel (r\<lparr>dc_ApiKey := ku_newValue u, dc_UpdatedAt := an_dbnow e\<rparr>) 1 d)"

fun verifyEnvelopes :: "channel_key_cipher option \<Rightarrow> (string \<times> string) list \<Rightarrow> goerr option" where
  "verifyEnvelopes c [] = None"
| "verifyEnvelopes c ((i, key) # rows) =
     (if \<not> isChannelKeyEnvelope key then verifyEnvelopes c rows
      else (case Decrypt c i key of
              Inl err \<Rightarrow> Some ErrInvalidChannelKeyEnvelope
            | Inr _ \<Rightarrow> verifyEnvelopes c rows))"

text \<open>Each encryption reads its nonce from what the random source yields next.\<close>

fun encryptRows ::
  "channel_key_cipher \<Rightarrow> string \<Rightarrow> (string \<times> string) list \<Rightarrow> key_update list result" where
  "encryptRows c rand [] = Inr []"
| "encryptRows c rand ((i, key) # rows) =
     (if isChannelKeyEnvelope key then encryptRows c rand rows
      else (case Encrypt (Some c) rand i key of
              Inl err \<Rightarrow> Inl err
            | Inr encrypted \<Rightarrow>
                map_sum id (\<lambda>us. \<lparr>ku_channelID = i, ku_oldValue = key, ku_newValue = encrypted\<rparr> # us)
                  (encryptRows c (drop (ad_NonceSize (kc_aead c)) rand) rows)))"

definition planChannelKeyMigration ::
  "(string \<times> string) list \<Rightarrow> channel_key_cipher option \<Rightarrow> string \<Rightarrow> bool \<Rightarrow> key_update list result" where
  "planChannelKeyMigration rows cipher rand allowPlaintext =
     (case cipher of
        None \<Rightarrow> Inl ErrChannelKeyEncryptionRequired
      | Some c \<Rightarrow>
          (case verifyEnvelopes cipher rows of
             Some err \<Rightarrow> Inl err
           | None \<Rightarrow>
               if list_ex (\<lambda>(i, key). \<not> isChannelKeyEnvelope key) rows \<and> \<not> allowPlaintext
               then Inl ErrPlaintextChannelKeys
               else encryptRows c rand rows))"

fun applyUpdates :: "admin_env \<Rightarrow> key_update list \<Rightarrow> unit admin_query" where
  "applyUpdates e [] d = Inr ((), d)"
| "applyUpdates e (u # us) d =
     (case UpdateChannelKeyMaterial e u d of
        Inl err \<Rightarrow> Inl err
      | Inr (n, d') \<Rightarrow> if n \<noteq> 1 then Inl (ErrOther ''conflict'') else applyUpdates e us d')"

definition MigrateChannelAPIKeys ::
  "admin_env \<Rightarrow> channel_key_cipher option \<Rightarrow> bool \<Rightarrow> pg_admin \<Rightarrow> pg_admin \<times> int result" where
  "MigrateChannelAPIKeys e cipher allowPlaintext d =
     (if cipher = None then (d, Inl ErrChannelKeyEncryptionRequired)
      else if an_fail e DSBegin then (d, Inl (ErrPg ''begin''))
      else (case ListChannelKeyMaterials e d of
              Inl err \<Rightarrow> (d, Inl err)
            | Inr (rows, d1) \<Rightarrow>
                (case planChannelKeyMigration rows cipher (an_rand e) allowPlaintext of
                   Inl err \<Rightarrow> (d, Inl err)
                 | Inr updates \<Rightarrow>
                     admCommit e d (map_sum id (\<lambda>(_, d2). (int (length updates), d2)) (applyUpdates e updates d1)))))"

text \<open>\<open>ValidateChannelKeyEnvelopeConstraint\<close>: the check over all rows.\<close>

definition ValidateChannelKeyEnvelopeConstraint :: "admin_env \<Rightarrow> pg_admin \<Rightarrow> unit result" where
  "ValidateChannelKeyEnvelopeConstraint e d =
     (if an_fail e DSBegin then Inl (ErrPg ''statement'')
      else if list_ex (\<lambda>(i, r). \<not> isChannelKeyEnvelope (dc_ApiKey r)) (pd_channels d) then Inl (ErrPg ''check_violation'')
      else Inr ())"

text \<open>\<open>ChannelsFromDB\<close> of the forwarder, which the program does not call: the stored text as credential.\<close>

fun ChannelsFromDB :: "db_channel list \<Rightarrow> channel list result" where
  "ChannelsFromDB [] = Inr []"
| "ChannelsFromDB (r # rs) =
     (case unmarshalModels (dc_Models r) of
        None \<Rightarrow> Inl (ErrOther ''json'')
      | Some models \<Rightarrow>
          map_sum id (\<lambda>chs. \<lparr>ch_ID = dc_ChannelID r, ch_Name = dc_Name r, ch_Format = dc_Format r,
              ch_BaseURL = dc_BaseURL r, ch_APIKey = dc_ApiKey r, ch_Models = orEmpty models,
              ch_Priority = dc_Priority r, ch_Weight = dc_Weight r, ch_Enabled = dc_Enabled r\<rparr> # chs)
            (ChannelsFromDB rs))"

end
