(* ===== verification/PgAdminProps.thy ===== *)
theory PgAdminProps
  imports PgAdmin
begin

text \<open>
  The production store keeps the contracts of \<open>AdminSpec\<close>: the encrypted rows of \<open>channels\<close> implement the
  table of channels with plain credentials, and the rows of \<open>api_keys\<close> the table of keys. Then the
  migration of plaintext credentials, and the race of the limit on keys.
\<close>

declare decField.simps(2) [simp del] jsonDepth.simps(2) [simp del]

section \<open>Models\<close>

lemma insort_map: "insort_key fst (k, f v) (map (\<lambda>(k, v). (k, f v)) xs) = map (\<lambda>(k, v). (k, f v)) (insort_key fst (k, v) xs)"
  by (induction xs) auto

lemma sort_map: "sort_key fst (map (\<lambda>(k, v). (k, f v)) xs) = map (\<lambda>(k, v). (k, f v)) (sort_key fst xs)"
  by (induction xs) (auto simp: insort_map)

lemma marshalModels_text:
  "marshalModels m = objText (map (\<lambda>(k, v). (k, quoteString v)) (sort_key fst (orEmpty m)))"
  by (simp add: marshalModels_def sort_map objText_def)

lemma unmarshal_marshal:
  assumes "models_ok (orEmpty m)"
  shows "unmarshalModels (marshalModels m) = Some (Some (sort_key fst (orEmpty m)))"
proof -
  let ?xs = "sort_key fst (orEmpty m)"
  let ?ms = "map (\<lambda>(k, v). (k, quoteString v)) ?xs"
  have ok: "\<forall>p \<in> set ?ms. member_ok 0 p"
    using assms by (auto simp: models_ok_def intro!: member_quote)
  have decoded: "unmarshalModels (objText ?ms) = decStringMap (objText ?ms) (Some [])"
    using Unmarshal_text [OF value_text_obj [OF ok]] by (simp add: unmarshalModels_def objText_def maxNestingDepth_def)
  have "those (map (\<lambda>p. decString (snd p) []) ?ms) = Some (map snd ?xs)"
    using assms by (simp add: comp_def case_prod_beta, intro JsonProps.those_map_Some) (auto simp: models_ok_def)
  moreover have "distinct (map fst ?xs)"
    using assms distinct_sort [of fst fst "orEmpty m"] by (simp add: models_ok_def mwf_def)
  moreover have "zip (map fst ?ms) (map snd ?xs) = ?xs"
    by (simp add: comp_def case_prod_beta zip_map_fst_snd)
  ultimately show ?thesis
    by (simp add: marshalModels_text decoded decStringMap_def rawMembers_obj [OF ok] foldl_mput del: map_map)
qed

definition jsonb_ok :: "(string \<Rightarrow> string option) \<Rightarrow> bool" where
  "jsonb_ok jsonb \<longleftrightarrow> (\<forall>t u m. jsonb t = Some u \<longrightarrow> unmarshalModels t = Some (Some m) \<longrightarrow>
     (\<exists>m'. unmarshalModels u = Some (Some m') \<and> mwf m' \<and> map_of m' = map_of m))"

lemma stored_models:
  assumes "jsonb_ok jsonb" "models_ok (orEmpty m)" "jsonb (marshalModels m) = Some u"
  shows "\<exists>m'. unmarshalModels u = Some (Some m') \<and> models_ok m' \<and> map_of m' = map_of (orEmpty m)"
proof -
  obtain m' where m': "unmarshalModels u = Some (Some m')" "mwf m'" "map_of m' = map_of (sort_key fst (orEmpty m))"
    using assms unmarshal_marshal [OF assms(2)] unfolding jsonb_ok_def by blast
  have wf: "mwf (orEmpty m)" using assms(2) by (simp add: models_ok_def)
  have same: "map_of (sort_key fst (orEmpty m)) = map_of (orEmpty m)"
    using map_of_sort [of fst "orEmpty m" "\<lambda>x. x" fst] wf by (simp add: mwf_def)
  have "set m' = set (orEmpty m)"
    using map_of_inject_set [of m' "orEmpty m"] m' wf same by (simp add: mwf_def)
  then show ?thesis using m' same assms(2) by (auto simp: models_ok_def)
qed

section \<open>The encrypted rows implement the table of channels\<close>

definition channel_row_ok :: "pg_store \<Rightarrow> db_channel \<Rightarrow> bool" where
  "channel_row_ok ps r \<longleftrightarrow> dc_ChannelID r \<noteq> [] \<and> isChannelKeyEnvelope (dc_ApiKey r) \<and>
     (\<exists>c. channelFromDB ps r = Inr c \<and> models_ok (orEmpty (cn_Models c)))"

definition pg_store_ok :: "pg_store \<Rightarrow> bool" where
  "pg_store_ok ps \<longleftrightarrow> (\<exists>c. ps_channelKeys ps = Some c \<and> cipher_ok c) \<and> jsonb_ok (ps_jsonb ps)"

definition pg_admin_inv :: "pg_store \<Rightarrow> pg_admin \<Rightarrow> bool" where
  "pg_admin_inv ps d \<longleftrightarrow> pg_store_ok ps \<and> mwf (pd_channels d) \<and>
     (\<forall>i r. map_of (pd_channels d) i = Some r \<longrightarrow> dc_ChannelID r = i \<and> channel_row_ok ps r)"

definition rowView :: "pg_store \<Rightarrow> db_channel \<Rightarrow> achannel option" where
  "rowView ps r = (case channelFromDB ps r of Inl err \<Rightarrow> None | Inr c \<Rightarrow> Some (achannelOf c))"

definition pg_chans :: "pg_store \<Rightarrow> pg_admin \<Rightarrow> achannels" where
  "pg_chans ps d i = Option.bind (map_of (pd_channels d) i) (rowView ps)"

lemma channelFromDB_id: "channelFromDB ps r = Inr c \<Longrightarrow> cn_ChannelID c = dc_ChannelID r"
  by (auto simp: channelFromDB_def split: sum.splits option.splits)

lemma channelFromDB_cases:
  assumes "channelFromDB ps r = Inr c"
  obtains k m where "decryptChannelKey ps (dc_ChannelID r) (dc_ApiKey r) = Inr k" "unmarshalModels (dc_Models r) = Some m"
    "cn_APIKey c = k" "cn_Models c = m" "achannelOf c = \<lparr>xc_Name = dc_Name r, xc_Format = dc_Format r,
      xc_BaseURL = dc_BaseURL r, xc_APIKey = k, xc_Models = map_of (orEmpty m), xc_Priority = dc_Priority r,
      xc_Weight = dc_Weight r, xc_Enabled = dc_Enabled r\<rparr>"
  using assms by (auto simp: channelFromDB_def achannelOf_def split: sum.splits option.splits)

lemma pg_channel_row:
  assumes "pg_admin_inv ps d" "map_of (pd_channels d) i = Some r"
  obtains c where "channelFromDB ps r = Inr c" "cn_ChannelID c = i" "dc_ChannelID r = i"
    "pg_chans ps d i = Some (achannelOf c)" "channel_row_ok ps r" "models_ok (orEmpty (cn_Models c))"
proof -
  have r: "dc_ChannelID r = i" "channel_row_ok ps r" using assms by (simp_all add: pg_admin_inv_def)
  then obtain c where "channelFromDB ps r = Inr c" "models_ok (orEmpty (cn_Models c))" by (auto simp: channel_row_ok_def)
  with r assms(2) show thesis by (intro that) (simp_all add: channelFromDB_id pg_chans_def rowView_def)
qed

lemma pg_chans_None: "pg_admin_inv ps d \<Longrightarrow> pg_chans ps d i = None \<longleftrightarrow> map_of (pd_channels d) i = None"
  by (cases "map_of (pd_channels d) i") (auto simp: pg_chans_def elim: pg_channel_row)

lemma pg_put_channel:
  assumes "pg_admin_inv ps d" "channel_row_ok ps r" "channelFromDB ps r = Inr c" "d' = d\<lparr>pd_channels := mput (dc_ChannelID r) r (pd_channels d)\<rparr>"
  shows "pg_admin_inv ps d' \<and> pg_chans ps d' = (pg_chans ps d)(dc_ChannelID r \<mapsto> achannelOf c)"
  using assms by (auto simp: pg_admin_inv_def pg_chans_def rowView_def fun_eq_iff)

lemma admCommit_cases:
  assumes "admCommit e d q = (d', r)"
  obtains (failed) err where "q = Inl err" "d' = d" "r = Inl err"
    | (finished) x where "q = Inr (x, d')" "r = Inr x"
    | (unsure) x d1 where "q = Inr (x, d1)" "d' = d \<or> d' = d1" "r = Inl (ErrPg ''commit'')"
  using assms by (auto simp: admCommit_def split: sum.splits commit_outcome.splits)

lemma admStmt_cases:
  "admStmt e st q d = Inl err \<longleftrightarrow> (if an_fail e st then err = ErrPg ''statement'' else q d = Inl err)"
  "admStmt e st q d = Inr x \<longleftrightarrow> \<not> an_fail e st \<and> q d = Inr x"
  by (auto simp: admStmt_def)

lemma mapWriteErr_simps [simp]:
  "mapWriteErr ErrNoRows = ErrAdminNotFound" "mapWriteErr (ErrPg ''unique_violation'') = ErrConflict"
  "mapWriteErr (ErrPg ''foreign_key_violation'') = ErrAdminNotFound"
  "outage (mapWriteErr (ErrPg ''commit''))" "outage (mapWriteErr (ErrPg ''statement''))"
  "outage (mapWriteErr (ErrPg ''check_violation''))" "outage (mapWriteErr (ErrPg ''invalid_text''))"
  "outage (mapReadErr (ErrPg ''statement''))" "mapReadErr ErrNoRows = ErrAdminNotFound"
  by (simp_all add: mapWriteErr_def mapReadErr_def outage_def)

text \<open>A statement that writes one channel and answers it.\<close>

lemma reply_agrees:
  assumes "pg_admin_inv ps d" "channelReply ps (admCommit e d q) = (d', res)"
    and fails: "\<And>err. q = Inl err \<Longrightarrow> outage (mapWriteErr err) \<or> spec = (pg_chans ps d, Inl (mapWriteErr err))"
    and works: "\<And>r d1. q = Inr (r, d1) \<Longrightarrow> channel_row_ok ps r \<and> d1 = d\<lparr>pd_channels := mput (dc_ChannelID r) r (pd_channels d)\<rparr> \<and>
      (\<forall>c. channelFromDB ps r = Inr c \<longrightarrow>
         spec = ((pg_chans ps d)(dc_ChannelID r \<mapsto> achannelOf c), Inr (Some (dc_ChannelID r, achannelOf c))))"
  shows "pg_admin_inv ps d' \<and> agrees (pg_chans ps d) spec (pg_chans ps d', map_sum id (\<lambda>c. Some (chanView c)) res)"
proof -
  obtain res1 where c: "admCommit e d q = (d', res1)" "res = case_sum (\<lambda>err. Inl (mapWriteErr err)) (channelFromDB ps) res1"
    using assms(2) by (cases "admCommit e d q") (auto simp: channelReply_def)
  from c(1) show ?thesis
  proof (cases rule: admCommit_cases)
    case (failed err)
    then show ?thesis using fails [of err] c(2) assms(1) by (auto simp: agrees_def)
  next
    case (finished r)
    note w = works [OF finished(1)]
    then obtain x where x: "channelFromDB ps r = Inr x" by (auto simp: channel_row_ok_def)
    then show ?thesis
      using w pg_put_channel [OF assms(1) _ x, of d'] finished c(2) by (auto simp: agrees_def chanView_def channelFromDB_id)
  next
    case (unsure r d1)
    note w = works [OF unsure(1)]
    then obtain x where x: "channelFromDB ps r = Inr x" by (auto simp: channel_row_ok_def)
    then show ?thesis
      using w pg_put_channel [OF assms(1) _ x, of d1] unsure c(2) assms(1) by (auto simp: agrees_def)
  qed
qed

lemma decrypt_encrypted:
  assumes "pg_store_ok ps" "encryptChannelKey ps e i k = Inr env"
  shows "decryptChannelKey ps i env = Inr k" "isChannelKeyEnvelope env" "i \<noteq> []"
  using assms Decrypt_Encrypt Encrypt_envelope
  by (auto simp: pg_store_ok_def encryptChannelKey_def decryptChannelKey_def Encrypt_def split: if_splits)

lemma encrypt_fails:
  assumes "pg_store_ok ps" "encryptChannelKey ps e i k = Inl err" "i \<noteq> []" "length k \<le> 65536"
  shows "outage err"
  using assms by (auto simp: pg_store_ok_def encryptChannelKey_def Encrypt_def maxChannelAPIKeyBytes_def outage_def Let_def
      split: if_splits)

lemma normalize_range:
  assumes "normalizeChannelInput inp = Inr i"
  shows "i32 (ci_Priority i) = ci_Priority i" "i32 (ci_Weight i) = ci_Weight i"
  using assms by (auto simp: normalizeChannelInput_def admin_limits intro!: i32_id split: if_splits) (simp_all add: go_int)

text \<open>The statements that write a channel, backwards.\<close>

lemma InsertChannel_Inr:
  "InsertChannel jsonb e p d = Inr (r, d1) \<Longrightarrow> \<exists>u. jsonb (cp_Models p) = Some u \<and> r = newChannelRow e p u \<and>
     map_of (pd_channels d) (cp_ChannelID p) = None \<and> d1 = d\<lparr>pd_channels := mput (cp_ChannelID p) r (pd_channels d)\<rparr>"
  by (auto simp: InsertChannel_def admStmt_cases putChannel_def newChannelRow_def mhas_def split: option.splits if_splits)

lemma InsertChannel_Inl:
  "InsertChannel jsonb e p d = Inl err \<Longrightarrow> isChannelKeyEnvelope (cp_ApiKey p) \<Longrightarrow> outage (mapWriteErr err) \<or>
     mapWriteErr err = ErrConflict \<and> map_of (pd_channels d) (cp_ChannelID p) \<noteq> None"
  by (auto simp: InsertChannel_def admStmt_cases putChannel_def newChannelRow_def mhas_def split: option.splits if_splits)

lemma UpdateChannelRow_Inr:
  "UpdateChannelRow jsonb e p b d = Inr (r, d1) \<Longrightarrow> \<exists>u old. jsonb (cp_Models p) = Some u \<and>
     map_of (pd_channels d) (cp_ChannelID p) = Some old \<and> r = changedChannelRow e p b u old \<and>
     isChannelKeyEnvelope (dc_ApiKey r) \<and> d1 = d\<lparr>pd_channels := mput (dc_ChannelID old) r (pd_channels d)\<rparr>"
  by (auto simp: UpdateChannelRow_def admStmt_cases putChannel_def changedChannelRow_def split: option.splits if_splits)

lemma UpdateChannelRow_Inl:
  "UpdateChannelRow jsonb e p b d = Inl err \<Longrightarrow> outage (mapWriteErr err) \<or>
     mapWriteErr err = ErrAdminNotFound \<and> map_of (pd_channels d) (cp_ChannelID p) = None"
  by (auto simp: UpdateChannelRow_def admStmt_cases putChannel_def split: option.splits if_splits)

lemma UpdateChannelEnabled_Inr:
  "UpdateChannelEnabled e i b d = Inr (r, d1) \<Longrightarrow> \<exists>old. map_of (pd_channels d) i = Some old \<and>
     r = old\<lparr>dc_Enabled := b, dc_UpdatedAt := an_dbnow e\<rparr> \<and> d1 = d\<lparr>pd_channels := mput (dc_ChannelID old) r (pd_channels d)\<rparr>"
  by (auto simp: UpdateChannelEnabled_def admStmt_cases putChannel_def Let_def split: option.splits if_splits)

lemma UpdateChannelEnabled_Inl:
  "UpdateChannelEnabled e i b d = Inl err \<Longrightarrow> outage (mapWriteErr err) \<or>
     mapWriteErr err = ErrAdminNotFound \<and> map_of (pd_channels d) i = None"
  by (auto simp: UpdateChannelEnabled_def admStmt_cases putChannel_def Let_def split: option.splits if_splits)

lemma params_simps [simp]:
  "cp_ChannelID (channelParams i env) = ci_ChannelID i" "cp_ApiKey (channelParams i env) = env"
  "cp_Models (channelParams i env) = marshalModels (ci_Models i)"
  by (simp_all add: channelParams_def)

text \<open>The row that a create or an update writes.\<close>

lemma written_row:
  assumes "decryptChannelKey ps (dc_ChannelID r) (dc_ApiKey r) = Inr k" "isChannelKeyEnvelope (dc_ApiKey r)"
    "dc_ChannelID r \<noteq> []" "unmarshalModels (dc_Models r) = Some (Some m')" "models_ok m'"
  shows "channel_row_ok ps r" "channelFromDB ps r = Inr c \<Longrightarrow> achannelOf c = \<lparr>xc_Name = dc_Name r, xc_Format = dc_Format r,
      xc_BaseURL = dc_BaseURL r, xc_APIKey = k, xc_Models = map_of m', xc_Priority = dc_Priority r,
      xc_Weight = dc_Weight r, xc_Enabled = dc_Enabled r\<rparr>"
  using assms by (auto simp: channel_row_ok_def channelFromDB_def achannelOf_def)

lemma inputView_eq: "inputView i = \<lparr>xc_Name = ci_Name i, xc_Format = ci_Format i, xc_BaseURL = ci_BaseURL i,
    xc_APIKey = ci_APIKey i, xc_Models = map_of (orEmpty (ci_Models i)), xc_Priority = ci_Priority i,
    xc_Weight = ci_Weight i, xc_Enabled = ci_Enabled i\<rparr>"
  by (simp add: inputView_def achannelOf_def inputChannel_def)

lemma PgCreateChannel_ok:
  assumes inv: "pg_admin_inv ps d" and ok: "op_ok (OpCreate inp)" and x: "PgCreateChannel ps e inp d = (d', res)"
  shows "pg_admin_inv ps d' \<and>
    agrees (pg_chans ps d) (achStep (OpCreate inp) (pg_chans ps d)) (pg_chans ps d', map_sum id (\<lambda>c. Some (chanView c)) res)"
proof (cases "normalizeChannelInput inp")
  case (Inl err)
  then show ?thesis using x inv by (auto simp: PgCreateChannel_def agrees_def)
next
  case (Inr i)
  note f = normalize_fields [OF Inr] and range = normalize_range [OF Inr]
  have st: "pg_store_ok ps" and jb: "jsonb_ok (ps_jsonb ps)"
    using inv by (simp_all add: pg_admin_inv_def pg_store_ok_def)
  have in_ok: "ci_ChannelID i \<noteq> []" "models_ok (orEmpty (ci_Models i))" "length (ci_APIKey i) \<le> 65536"
    using ok f by (simp_all add: input_ok_def)
  show ?thesis
  proof (cases "encryptChannelKey ps e (ci_ChannelID i) (ci_APIKey i)")
    case (Inl err)
    then show ?thesis using encrypt_fails [OF st Inl] in_ok x inv Inr by (auto simp: PgCreateChannel_def agrees_def)
  next
    case enc: (Inr env)
    note dec = decrypt_encrypted [OF st enc]
    let ?p = "channelParams i env"
    show ?thesis
    proof (rule reply_agrees [OF inv])
      show "channelReply ps (admCommit e d (InsertChannel (ps_jsonb ps) e ?p d)) = (d', res)"
        using x Inr enc by (simp add: PgCreateChannel_def)
    next
      fix err assume "InsertChannel (ps_jsonb ps) e ?p d = Inl err"
      from InsertChannel_Inl [OF this] dec show "outage (mapWriteErr err) \<or>
          achStep (OpCreate inp) (pg_chans ps d) = (pg_chans ps d, Inl (mapWriteErr err))"
        using Inr pg_chans_None [OF inv, of "ci_ChannelID i"] by auto
    next
      fix r d1 assume "InsertChannel (ps_jsonb ps) e ?p d = Inr (r, d1)"
      from InsertChannel_Inr [OF this] obtain u where u: "ps_jsonb ps (marshalModels (ci_Models i)) = Some u"
        and fresh: "map_of (pd_channels d) (ci_ChannelID i) = None" and r: "r = newChannelRow e ?p u"
        and d1: "d1 = d\<lparr>pd_channels := mput (ci_ChannelID i) r (pd_channels d)\<rparr>" by auto
      have id: "dc_ChannelID r = ci_ChannelID i" by (simp add: r newChannelRow_def)
      obtain m' where m': "unmarshalModels u = Some (Some m')" "models_ok m'" "map_of m' = map_of (orEmpty (ci_Models i))"
        using stored_models [OF jb in_ok(2) u] by blast
      have w: "channel_row_ok ps r" "channelFromDB ps r = Inr c \<Longrightarrow> achannelOf c = inputView i" for c
        using written_row [of ps r "ci_APIKey i" m'] dec m' range
        by (simp_all add: r newChannelRow_def channelParams_def inputView_eq)
      then show "channel_row_ok ps r \<and> d1 = d\<lparr>pd_channels := mput (dc_ChannelID r) r (pd_channels d)\<rparr> \<and>
        (\<forall>c. channelFromDB ps r = Inr c \<longrightarrow> achStep (OpCreate inp) (pg_chans ps d) =
         ((pg_chans ps d)(dc_ChannelID r \<mapsto> achannelOf c), Inr (Some (dc_ChannelID r, achannelOf c))))"
        using Inr id d1 fresh pg_chans_None [OF inv, of "ci_ChannelID i"] by simp
    qed
  qed
qed

lemma PgUpdateChannel_ok:
  assumes inv: "pg_admin_inv ps d" and ok: "op_ok (OpUpdate inp)" and x: "PgUpdateChannel ps e inp d = (d', res)"
  shows "pg_admin_inv ps d' \<and>
    agrees (pg_chans ps d) (achStep (OpUpdate inp) (pg_chans ps d)) (pg_chans ps d', map_sum id (\<lambda>c. Some (chanView c)) res)"
proof (cases "normalizeChannelInput inp")
  case (Inl err)
  then show ?thesis using x inv by (auto simp: PgUpdateChannel_def agrees_def)
next
  case (Inr i)
  note f = normalize_fields [OF Inr] and range = normalize_range [OF Inr]
  have st: "pg_store_ok ps" and jb: "jsonb_ok (ps_jsonb ps)"
    using inv by (simp_all add: pg_admin_inv_def pg_store_ok_def)
  have in_ok: "ci_ChannelID i \<noteq> []" "models_ok (orEmpty (ci_Models i))" "ci_APIKeySet i \<longrightarrow> length (ci_APIKey i) \<le> 65536"
    using ok f by (simp_all add: input_ok_def)
  define key where "key = (if ci_APIKeySet i then encryptChannelKey ps e (ci_ChannelID i) (ci_APIKey i) else Inr [])"
  show ?thesis
  proof (cases key)
    case (Inl err)
    then have "outage err" using encrypt_fails [OF st, of e "ci_ChannelID i" "ci_APIKey i" err] in_ok
      by (auto simp: key_def split: if_splits)
    then show ?thesis using x inv Inr Inl by (auto simp: PgUpdateChannel_def agrees_def key_def [symmetric])
  next
    case enc: (Inr env)
    let ?p = "channelParams i env"
    let ?b = "ci_APIKeySet i"
    show ?thesis
    proof (rule reply_agrees [OF inv])
      show "channelReply ps (admCommit e d (UpdateChannelRow (ps_jsonb ps) e ?p ?b d)) = (d', res)"
        using x Inr enc by (simp add: PgUpdateChannel_def key_def [symmetric])
    next
      fix err assume "UpdateChannelRow (ps_jsonb ps) e ?p ?b d = Inl err"
      from UpdateChannelRow_Inl [OF this] show "outage (mapWriteErr err) \<or>
          achStep (OpUpdate inp) (pg_chans ps d) = (pg_chans ps d, Inl (mapWriteErr err))"
        using Inr pg_chans_None [OF inv, of "ci_ChannelID i"] by auto
    next
      fix r d1 assume "UpdateChannelRow (ps_jsonb ps) e ?p ?b d = Inr (r, d1)"
      from UpdateChannelRow_Inr [OF this] obtain u old where u: "ps_jsonb ps (marshalModels (ci_Models i)) = Some u"
        and old: "map_of (pd_channels d) (ci_ChannelID i) = Some old" and r: "r = changedChannelRow e ?p ?b u old"
        and env: "isChannelKeyEnvelope (dc_ApiKey r)"
        and d1: "d1 = d\<lparr>pd_channels := mput (dc_ChannelID old) r (pd_channels d)\<rparr>" by auto
      obtain c0 where c0: "channelFromDB ps old = Inr c0" "dc_ChannelID old = ci_ChannelID i"
          "pg_chans ps d (ci_ChannelID i) = Some (achannelOf c0)"
        by (rule pg_channel_row [OF inv old]) blast
      from c0(1) have k0: "decryptChannelKey ps (ci_ChannelID i) (dc_ApiKey old) = Inr (cn_APIKey c0)"
        by (elim channelFromDB_cases) (simp add: c0(2))
      have id: "dc_ChannelID r = ci_ChannelID i" by (simp add: r changedChannelRow_def c0(2))
      obtain m' where m': "unmarshalModels u = Some (Some m')" "models_ok m'" "map_of m' = map_of (orEmpty (ci_Models i))"
        using stored_models [OF jb in_ok(2) u] by blast
      let ?k = "if ?b then ci_APIKey i else cn_APIKey c0"
      have "decryptChannelKey ps (dc_ChannelID r) (dc_ApiKey r) = Inr ?k"
        using k0 enc decrypt_encrypted [OF st, of e "ci_ChannelID i" "ci_APIKey i" env]
        by (auto simp: id r changedChannelRow_def c0(2) key_def split: if_splits)
      then have w: "channel_row_ok ps r" "channelFromDB ps r = Inr c \<Longrightarrow> achannelOf c = (inputView i)\<lparr>xc_APIKey := ?k\<rparr>" for c
        using written_row [of ps r ?k m'] env m' range id in_ok(1)
        by (simp_all add: r changedChannelRow_def channelParams_def inputView_eq)
      then show "channel_row_ok ps r \<and> d1 = d\<lparr>pd_channels := mput (dc_ChannelID r) r (pd_channels d)\<rparr> \<and>
        (\<forall>c. channelFromDB ps r = Inr c \<longrightarrow> achStep (OpUpdate inp) (pg_chans ps d) =
         ((pg_chans ps d)(dc_ChannelID r \<mapsto> achannelOf c), Inr (Some (dc_ChannelID r, achannelOf c))))"
        using Inr id d1 c0(2,3) by (simp add: Let_def)
    qed
  qed
qed

lemma PgSetChannelEnabled_ok:
  assumes inv: "pg_admin_inv ps d" and x: "PgSetChannelEnabled ps e i b d = (d', res)"
  shows "pg_admin_inv ps d' \<and>
    agrees (pg_chans ps d) (achStep (OpEnable i b) (pg_chans ps d)) (pg_chans ps d', map_sum id (\<lambda>c. Some (chanView c)) res)"
proof (rule reply_agrees [OF inv])
  show "channelReply ps (admCommit e d (UpdateChannelEnabled e i b d)) = (d', res)"
    using x by (simp add: PgSetChannelEnabled_def)
next
  fix err assume "UpdateChannelEnabled e i b d = Inl err"
  from UpdateChannelEnabled_Inl [OF this] show "outage (mapWriteErr err) \<or>
      achStep (OpEnable i b) (pg_chans ps d) = (pg_chans ps d, Inl (mapWriteErr err))"
    using pg_chans_None [OF inv, of i] by auto
next
  fix r d1 assume "UpdateChannelEnabled e i b d = Inr (r, d1)"
  from UpdateChannelEnabled_Inr [OF this] obtain old where old: "map_of (pd_channels d) i = Some old"
    and r: "r = old\<lparr>dc_Enabled := b, dc_UpdatedAt := an_dbnow e\<rparr>"
    and d1: "d1 = d\<lparr>pd_channels := mput (dc_ChannelID old) r (pd_channels d)\<rparr>" by blast
  obtain c0 where c0: "channelFromDB ps old = Inr c0" "dc_ChannelID old = i" "pg_chans ps d i = Some (achannelOf c0)"
      "channel_row_ok ps old" "models_ok (orEmpty (cn_Models c0))"
    by (rule pg_channel_row [OF inv old]) blast
  have "channelFromDB ps r = Inr (c0\<lparr>cn_Enabled := b, cn_UpdatedAt := an_dbnow e\<rparr>)"
    using c0(1) by (auto simp: channelFromDB_def r split: sum.splits option.splits)
  then show "channel_row_ok ps r \<and> d1 = d\<lparr>pd_channels := mput (dc_ChannelID r) r (pd_channels d)\<rparr> \<and>
      (\<forall>c. channelFromDB ps r = Inr c \<longrightarrow> achStep (OpEnable i b) (pg_chans ps d) =
        ((pg_chans ps d)(dc_ChannelID r \<mapsto> achannelOf c), Inr (Some (dc_ChannelID r, achannelOf c))))"
    using c0 d1 by (auto simp: channel_row_ok_def r achannelOf_def)
qed

lemma PgDeleteChannel_ok:
  assumes inv: "pg_admin_inv ps d" and x: "PgDeleteChannel e i d = (d', res)"
  shows "pg_admin_inv ps d' \<and>
    agrees (pg_chans ps d) (achStep (OpDelete i) (pg_chans ps d)) (pg_chans ps d', map_sum id (\<lambda>c. None) res)"
proof -
  obtain res1 where c: "admCommit e d (DeleteChannelRow e i d) = (d', res1)" "res = case_sum Inl someRow res1"
    using x by (cases "admCommit e d (DeleteChannelRow e i d)") (auto simp: PgDeleteChannel_def)
  let ?d = "d\<lparr>pd_channels := mdel i (pd_channels d)\<rparr>"
  have del: "pg_admin_inv ps ?d" "pg_chans ps ?d = (pg_chans ps d)(i := None)"
    using inv by (auto simp: pg_admin_inv_def pg_chans_def fun_eq_iff)
  have same: "(pg_chans ps d)(i := None) = pg_chans ps d" if "map_of (pd_channels d) i = None"
    using that by (auto simp: pg_chans_def fun_eq_iff)
  from c(1) show ?thesis
    by (cases rule: admCommit_cases)
       (use c(2) inv del same pg_chans_None [OF inv, of i] in
         \<open>auto simp: DeleteChannelRow_def admStmt_cases mhas_def someRow_def agrees_def outage_def split: if_splits\<close>)
qed

lemma pg_chanExec:
  assumes "pg_admin_inv ps d" "op_ok op" "chanExec (pgAdminStore ps) e op d = (d', r)"
  shows "pg_admin_inv ps d' \<and> agrees (pg_chans ps d) (achStep op (pg_chans ps d)) (pg_chans ps d', r)"
proof (cases op)
  case (OpCreate inp)
  then show ?thesis using assms PgCreateChannel_ok [OF assms(1), of inp e]
    by (cases "PgCreateChannel ps e inp d") (simp add: pgAdminStore_def del: achStep.simps)
next
  case (OpUpdate inp)
  then show ?thesis using assms PgUpdateChannel_ok [OF assms(1), of inp e]
    by (cases "PgUpdateChannel ps e inp d") (simp add: pgAdminStore_def del: achStep.simps)
next
  case (OpEnable i b)
  then show ?thesis using assms PgSetChannelEnabled_ok [OF assms(1), of e i b]
    by (cases "PgSetChannelEnabled ps e i b d") (simp add: pgAdminStore_def del: achStep.simps)
next
  case (OpDelete i)
  then show ?thesis using assms PgDeleteChannel_ok [OF assms(1), of e i]
    by (cases "PgDeleteChannel e i d") (simp add: pgAdminStore_def del: achStep.simps)
qed

lemma channelsFromDB_ok:
  "channelsFromDB ps rs = Inr cs \<Longrightarrow> list_all2 (\<lambda>r c. channelFromDB ps r = Inr c) rs cs"
proof (induction ps rs arbitrary: cs rule: channelsFromDB.induct)
  case (2 ps r rs)
  then show ?case by (cases "channelFromDB ps r"; cases "channelsFromDB ps rs") auto
qed simp

lemma pg_list:
  assumes inv: "pg_admin_inv ps d" and l: "PgListChannels ps e d = Inr cs"
  shows "distinct (map cn_ChannelID cs) \<and> map_of (map chanView cs) = pg_chans ps d"
proof -
  have "list_all2 (\<lambda>r c. channelFromDB ps r = Inr c) (sortedChannels d) cs"
    using l by (auto simp: PgListChannels_def admRead_def ListAllChannels_def admStmt_def
        intro: channelsFromDB_ok split: if_splits)
  then have cs: "map cn_ChannelID cs = map dc_ChannelID (sortedChannels d)"
      "map (\<lambda>c. (cn_ChannelID c, Some (achannelOf c))) cs = map (\<lambda>r. (dc_ChannelID r, rowView ps r)) (sortedChannels d)"
    by (induction rule: list_all2_induct) (auto simp: channelFromDB_id rowView_def)
  have id: "dc_ChannelID (snd p) = fst p" if "p \<in> set (pd_channels d)" for p
    using inv that by (cases p) (auto simp: pg_admin_inv_def mget_set)
  then have ids: "map dc_ChannelID (map snd (pd_channels d)) = map fst (pd_channels d)" by simp
  have "distinct (map dc_ChannelID (map snd (pd_channels d)))"
    unfolding ids using inv by (simp add: pg_admin_inv_def mwf_def)
  note dist = this
  have "map_of (map (\<lambda>r. (dc_ChannelID r, rowView ps r)) (sortedChannels d)) =
      map_of (map (\<lambda>r. (dc_ChannelID r, rowView ps r)) (map snd (pd_channels d)))"
    unfolding sortedChannels_def using dist by (intro map_of_sort [where g = dc_ChannelID]) simp_all
  also have "map (\<lambda>r. (dc_ChannelID r, rowView ps r)) (map snd (pd_channels d)) =
      map (\<lambda>(k, r). (k, rowView ps r)) (pd_channels d)"
    using id by auto
  also have "map_of \<dots> = map_option (rowView ps) \<circ> map_of (pd_channels d)" by (rule map_of_map_snd)
  finally have m: "map_of (map (\<lambda>c. (cn_ChannelID c, Some (achannelOf c))) cs) =
      map_option (rowView ps) \<circ> map_of (pd_channels d)" using cs(2) by simp
  have "map_of (map (\<lambda>c. (cn_ChannelID c, Some (achannelOf c))) cs) = map_option Some \<circ> map_of (map chanView cs)"
    by (induction cs) (auto simp: chanView_def fun_eq_iff)
  then have "map_of (map chanView cs) i = pg_chans ps d i" for i
    using fun_cong [OF m, of i]
    by (cases "map_of (map chanView cs) i"; cases "map_of (pd_channels d) i") (simp_all add: pg_chans_def)
  moreover have "distinct (map cn_ChannelID cs)"
    unfolding cs(1) sortedChannels_def distinct_sort using dist .
  ultimately show ?thesis by auto
qed

interpretation pg_channels: channel_store "pgAdminStore ps" "pg_admin_inv ps" "pg_chans ps" for ps
proof unfold_locales
  fix d e i q
  assume inv: "pg_admin_inv ps d" and g: "aop_GetChannel (pgAdminStore ps) e i d = q"
  show "case q of Inr c \<Rightarrow> cn_ChannelID c = i \<and> pg_chans ps d i = Some (achannelOf c) \<and> models_ok (orEmpty (cn_Models c))
      | Inl err \<Rightarrow> pg_chans ps d i = None \<and> err = ErrAdminNotFound \<or> outage err"
  proof (cases "map_of (pd_channels d) i")
    case None
    then show ?thesis using g pg_chans_None [OF inv, of i]
      by (auto simp: pgAdminStore_def PgGetChannel_def GetChannelRow_def admRead_def admStmt_def)
  next
    case (Some r)
    show ?thesis
      by (rule pg_channel_row [OF inv Some])
         (use g Some in \<open>auto simp: pgAdminStore_def PgGetChannel_def GetChannelRow_def admRead_def admStmt_def\<close>)
  qed
next
  fix d e cs
  assume "pg_admin_inv ps d" "aop_ListChannels (pgAdminStore ps) e d = Inr cs"
  then show "distinct (map cn_ChannelID cs) \<and> map_of (map chanView cs) = pg_chans ps d"
    by (intro pg_list) (simp_all add: pgAdminStore_def)
qed (use pg_chanExec in \<open>auto\<close>)

section \<open>The rows of keys implement the table of keys\<close>

definition pg_keys :: "pg_admin \<Rightarrow> akeys" where
  "pg_keys d i = map_option (\<lambda>r. keyView0 (keyFromDB r)) (map_of (pd_keys d) i)"

definition pg_keys_inv :: "pg_admin \<Rightarrow> bool" where
  "pg_keys_inv d \<longleftrightarrow> mwf (pd_keys d) \<and> (\<forall>i r. map_of (pd_keys d) i = Some r \<longrightarrow> kr_KeyID r = i)"

text \<open>No key of the same user was committed while the statement waited for its lock.\<close>

definition alone :: "admin_env \<Rightarrow> bool" where
  "alone e \<longleftrightarrow> an_overlap e \<le> 0"

lemma keyFromDB_simps [simp]: "ak_KeyID (keyFromDB r) = kr_KeyID r" "ak_UserID (keyFromDB r) = kr_UserExternalID r"
  by (simp_all add: keyFromDB_def)

lemma i32_le: "0 < n \<Longrightarrow> i32 n \<le> n"
  using zmod_le_nonneg_dividend [of "n + 2 ^ 31" "2 ^ 32"] by (simp add: i32_def)

lemma owned_rows:
  assumes "pg_keys_inv d"
  shows "int (ownedCount (pg_keys d) u) = int (length (filter (\<lambda>(i, r). kr_UserExternalID r = u) (pd_keys d)))"
proof -
  have wf: "mwf (pd_keys d)" using assms by (simp add: pg_keys_inv_def)
  have "{i. \<exists>k. pg_keys d i = Some k \<and> ak_UserID k = u} =
      {i. \<exists>r. map_of (pd_keys d) i = Some r \<and> kr_UserExternalID r = u}"
    by (auto simp: pg_keys_def)
  then show ?thesis by (simp add: ownedCount_def card_filter [OF wf])
qed

lemma put_key:
  assumes "pg_keys_inv d" "kr_KeyID r = i"
  shows "pg_keys_inv (d\<lparr>pd_keys := mput i r (pd_keys d)\<rparr>)"
    "pg_keys (d\<lparr>pd_keys := mput i r (pd_keys d)\<rparr>) = (pg_keys d)(i \<mapsto> keyView0 (keyFromDB r))"
  using assms by (auto simp: pg_keys_inv_def pg_keys_def fun_eq_iff)

lemma insertKey_Inr:
  "insertKey e p d = Inr (r, d1) \<Longrightarrow> map_of (pd_keys d) (kp_KeyID p) = None \<and> r = newKeyRow e p \<and>
     d1 = d\<lparr>pd_keys := mput (kp_KeyID p) r (pd_keys d)\<rparr>"
  by (auto simp: insertKey_def mhas_def split: if_splits)

lemma newKey_view: "creatable inp \<Longrightarrow> keyView0 (keyFromDB (newKeyRow e (keyParams ps inp))) = inputKey inp"
  by (auto simp: keyView0_def keyFromDB_def newKeyRow_def keyParams_def inputKey_def creatable_def
      validateCreateAPIKeyInput_def admin_limits go_int split: if_splits intro!: i32_id)

text \<open>A statement that makes at most the change that the operation may make.\<close>

lemma committed_change:
  assumes "pg_keys_inv d" "admCommit e d q = (d', res1)" "r = case_sum (\<lambda>err. Inl (g err)) h res1"
    and works: "\<And>x d1. q = Inr (x, d1) \<Longrightarrow> (\<exists>err. h x = Inl err \<and> d1 = d) \<or> (\<exists>new. pg_keys_inv d1 \<and>
      keyEffect b op (pg_keys d) new \<and> pg_keys d1 = (pg_keys d)(keyTarget op := new) \<and> h x = Inr new)"
    and g: "outage (g (ErrPg ''commit''))"
  shows "pg_keys_inv d' \<and> keyChange b op (pg_keys d) (pg_keys d') r"
  using assms(2)
proof (cases rule: admCommit_cases)
  case (failed err)
  then show ?thesis using assms(1,3) by (simp add: keyChange_def)
next
  case (finished x)
  then show ?thesis using works [OF finished(1)] assms(1,3) by (auto simp: keyChange_def)
next
  case (unsure x d1)
  then show ?thesis using works [OF unsure(1)] assms(1,3) g by (auto simp: keyChange_def)
qed

lemma commit_outage [simp]: "outage (limitErr (ErrPg ''commit''))" "outage (ErrPg ''commit'')"
  by (simp_all add: limitErr_def mapWriteErr_def outage_def)

lemma map_prod_commit: "map_prod id f (map_prod id g q) = (d', y) \<Longrightarrow> \<exists>r. q = (d', r) \<and> y = f (g r)"
  by (cases q) auto

lemma map_sum_twice: "map_sum id f (map_sum g h r) = map_sum g (\<lambda>x. f (h x)) r"
  by (cases r) auto

lemma map_sum_case: "map_sum f g r = case_sum (\<lambda>err. Inl (f err)) (\<lambda>x. Inr (g x)) r"
  by (cases r) auto

lemma pg_keyExec:
  assumes inv: "pg_keys_inv d" and x: "keyExec (pgAdminStore ps) e op d = (d', r)"
  shows "pg_keys_inv d' \<and> keyChange (alone e) op (pg_keys d) (pg_keys d') r"
proof (cases op)
  case (KeyCreate inp)
  show ?thesis
  proof (cases "creatable inp")
    case True
    then obtain res1 where c: "admCommit e d (InsertAPIKey e (keyParams ps inp) d) = (d', res1)"
      "r = map_sum mapWriteErr (\<lambda>k. Some (keyView0 (keyFromDB k))) res1"
      using x KeyCreate True
      by (auto simp: pgAdminStore_def PgCreateAPIKey_def creatable_def map_sum_twice dest!: map_prod_commit)
    show ?thesis
    proof (rule committed_change [OF inv c(1) c(2) [unfolded map_sum_case]])
      fix k d1 assume "InsertAPIKey e (keyParams ps inp) d = Inr (k, d1)"
      then have "insertKey e (keyParams ps inp) d = Inr (k, d1)" by (simp add: InsertAPIKey_def admStmt_cases)
      from insertKey_Inr [OF this] put_key [OF inv, of k "ik_KeyID inp"] newKey_view [OF True]
      show "(\<exists>err. Inr (Some (keyView0 (keyFromDB k))) = Inl err \<and> d1 = d) \<or> (\<exists>new. pg_keys_inv d1 \<and>
          keyEffect (alone e) op (pg_keys d) new \<and> pg_keys d1 = (pg_keys d)(keyTarget op := new) \<and>
          Inr (Some (keyView0 (keyFromDB k))) = Inr new)"
        using True KeyCreate by (auto simp: keyParams_def newKeyRow_def pg_keys_def)
    qed simp
  qed (use x KeyCreate inv in \<open>auto simp: pgAdminStore_def PgCreateAPIKey_def creatable_def keyChange_def\<close>)
next
  case (KeyCreateLimited inp n)
  show ?thesis
  proof (cases "creatable inp \<and> 0 < n")
    case True
    then obtain res1 where c: "admCommit e d (InsertAPIKeyLimited e (keyParams ps inp) (i32 n) d) = (d', res1)"
      "r = map_sum limitErr (\<lambda>k. Some (keyView0 (keyFromDB k))) res1"
      using x KeyCreateLimited True
      by (auto simp: pgAdminStore_def PgCreateAPIKeyLimited_def creatable_def map_sum_twice dest!: map_prod_commit)
    show ?thesis
    proof (rule committed_change [OF inv c(1) c(2) [unfolded map_sum_case]])
      fix k d1 assume "InsertAPIKeyLimited e (keyParams ps inp) (i32 n) d = Inr (k, d1)"
      then have i: "insertKey e (keyParams ps inp) d = Inr (k, d1)" "seenKeys e (ik_UserID inp) d < i32 n"
        by (auto simp: InsertAPIKeyLimited_def admStmt_cases keyParams_def split: if_splits)
      have "alone e \<longrightarrow> int (ownedCount (pg_keys d) (ik_UserID inp)) < n"
        using i(2) i32_le [of n] True owned_rows [OF inv, of "ik_UserID inp"] by (auto simp: seenKeys_def alone_def)
      with insertKey_Inr [OF i(1)] put_key [OF inv, of k "ik_KeyID inp"] newKey_view [of inp e ps]
      show "(\<exists>err. Inr (Some (keyView0 (keyFromDB k))) = Inl err \<and> d1 = d) \<or> (\<exists>new. pg_keys_inv d1 \<and>
          keyEffect (alone e) op (pg_keys d) new \<and> pg_keys d1 = (pg_keys d)(keyTarget op := new) \<and>
          Inr (Some (keyView0 (keyFromDB k))) = Inr new)"
        using True KeyCreateLimited by (auto simp: keyParams_def newKeyRow_def pg_keys_def)
    qed simp
  qed (use x KeyCreateLimited inv in \<open>auto simp: pgAdminStore_def PgCreateAPIKeyLimited_def creatable_def keyChange_def
        split: option.splits if_splits\<close>)
next
  case (KeyEnable i b)
  then obtain res1 where c: "admCommit e d (UpdateKeyEnabled e i b d) = (d', res1)"
    "r = map_sum mapWriteErr (\<lambda>k. Some (keyView0 (keyFromDB k))) res1"
    using x KeyEnable by (auto simp: pgAdminStore_def PgSetAPIKeyEnabled_def map_sum_twice dest!: map_prod_commit)
  show ?thesis
  proof (rule committed_change [OF inv c(1) c(2) [unfolded map_sum_case]])
    fix k d1 assume "UpdateKeyEnabled e i b d = Inr (k, d1)"
    then obtain old where old: "map_of (pd_keys d) i = Some old" "k = old\<lparr>kr_Enabled := b\<rparr>"
      "d1 = d\<lparr>pd_keys := mput i k (pd_keys d)\<rparr>"
      by (auto simp: UpdateKeyEnabled_def admStmt_cases split: option.splits)
    moreover have "keyView0 (keyFromDB k) = (keyView0 (keyFromDB old))\<lparr>ak_Enabled := b\<rparr>" "kr_KeyID k = i"
      using old inv by (auto simp: keyView0_def keyFromDB_def pg_keys_inv_def)
    ultimately show "(\<exists>err. Inr (Some (keyView0 (keyFromDB k))) = Inl err \<and> d1 = d) \<or> (\<exists>new. pg_keys_inv d1 \<and>
        keyEffect (alone e) op (pg_keys d) new \<and> pg_keys d1 = (pg_keys d)(keyTarget op := new) \<and>
        Inr (Some (keyView0 (keyFromDB k))) = Inr new)"
      using KeyEnable put_key [OF inv, of k i] by (auto simp: pg_keys_def)
  qed simp
next
  case (KeyDelete i)
  then obtain res1 where c: "admCommit e d (DeleteKeyRow e i d) = (d', res1)"
    "r = case_sum (\<lambda>err. Inl err) (\<lambda>n. map_sum id (\<lambda>u. None) (someRow n)) res1"
    using x by (cases "admCommit e d (DeleteKeyRow e i d)")
      (auto simp: pgAdminStore_def PgDeleteAPIKey_def map_prod_def split: sum.splits)
  show ?thesis
  proof (rule committed_change [OF inv c])
    fix n d1 assume "DeleteKeyRow e i d = Inr (n, d1)"
    then show "(\<exists>err. map_sum id (\<lambda>u. None) (someRow n) = Inl err \<and> d1 = d) \<or> (\<exists>new. pg_keys_inv d1 \<and>
        keyEffect (alone e) op (pg_keys d) new \<and> pg_keys d1 = (pg_keys d)(keyTarget op := new) \<and>
        map_sum id (\<lambda>u. None) (someRow n) = Inr new)"
      using KeyDelete inv
      by (auto simp: DeleteKeyRow_def admStmt_cases mhas_def someRow_def pg_keys_def pg_keys_inv_def fun_eq_iff split: if_splits)
  qed simp
qed

interpretation pg_key_table: key_store "pgAdminStore ps" pg_keys_inv pg_keys alone for ps
proof unfold_locales
  fix d e u ks
  assume inv: "pg_keys_inv d" and l: "aop_ListAPIKeysByUser (pgAdminStore ps) e u d = Inr ks"
  have ks: "set ks = keyFromDB ` {r. kr_UserExternalID r = u \<and> (\<exists>i. map_of (pd_keys d) i = Some r)}"
    using l mget_set [of "pd_keys d"] inv
    by (force simp: pgAdminStore_def PgListAPIKeysByUser_def ListKeyRows_def admRead_def admStmt_def pg_keys_inv_def
        split: if_splits)
  show "(\<forall>k. k \<in> set ks \<longrightarrow> pg_keys d (ak_KeyID k) = Some (keyView0 k)) \<and>
      (\<forall>i k. pg_keys d i = Some k \<and> ak_UserID k = u \<longrightarrow> i \<in> ak_KeyID ` set ks) \<and> (\<forall>k \<in> set ks. ak_UserID k = u)"
    unfolding ks using inv by (force simp: pg_keys_inv_def pg_keys_def)
next
  fix d assume inv: "pg_keys_inv d"
  have "dom (pg_keys d) \<subseteq> dom (map_of (pd_keys d))" by (auto simp: pg_keys_def)
  then show "keys_wf (pg_keys d)"
    using inv finite_subset [OF _ finite_dom_map_of]
    by (fastforce simp: keys_wf_def pg_keys_def pg_keys_inv_def)
qed (use pg_keyExec in auto)

text \<open>Two creations that overlap exceed the limit: the second one counts before the first one is seen.\<close>

lemma limit_overrun:
  assumes inv: "pg_keys_inv d" and ok: "creatable inp" "0 < n" "i32 n = n"
    and env: "\<And>st. \<not> an_fail e st" "an_commit e = CommitOk" "an_overlap e = 1"
    and full: "int (ownedCount (pg_keys d) (ik_UserID inp)) = n"
    and user: "map_of (db_users (pd_billing d)) (ik_UserID inp) \<noteq> None"
    and fresh: "map_of (pd_keys d) (ik_KeyID inp) = None"
      "\<And>r. r \<in> snd ` set (pd_keys d) \<Longrightarrow> kr_KeyHash r \<noteq> ps_hash ps (ik_APIKey inp)"
  shows "\<exists>k d'. PgCreateAPIKeyLimited ps e inp n d = (d', Inr k) \<and> pg_keys d' = (pg_keys d)(ik_KeyID inp \<mapsto> keyView0 k)"
proof -
  let ?p = "keyParams ps inp" and ?r = "newKeyRow e (keyParams ps inp)"
  have p: "kp_KeyID ?p = ik_KeyID inp" "kp_UserExternalID ?p = ik_UserID inp" "kp_KeyHash ?p = ps_hash ps (ik_APIKey inp)"
    by (simp_all add: keyParams_def)
  have "seenKeys e (ik_UserID inp) d < n"
    using owned_rows [OF inv, of "ik_UserID inp"] full env(3) by (simp add: seenKeys_def)
  moreover have "\<not> list_ex (\<lambda>(i, r). kr_KeyHash r = ps_hash ps (ik_APIKey inp)) (pd_keys d)"
    using fresh(2) by (force simp: list_ex_iff)
  ultimately have "InsertAPIKeyLimited e ?p (i32 n) d = Inr (?r, d\<lparr>pd_keys := mput (ik_KeyID inp) ?r (pd_keys d)\<rparr>)"
    using env(1) fresh(1) user ok(3) by (simp add: InsertAPIKeyLimited_def admStmt_def insertKey_def p mhas_def)
  then show ?thesis
    using ok env(2) put_key(2) [OF inv, of ?r "ik_KeyID inp"]
    by (simp add: PgCreateAPIKeyLimited_def creatable_def admCommit_def newKeyRow_def p)
qed

section \<open>The migration of plaintext credentials\<close>

definition rows_keyed :: "pg_admin \<Rightarrow> bool" where
  "rows_keyed d \<longleftrightarrow> mwf (pd_channels d) \<and> (\<forall>i r. map_of (pd_channels d) i = Some r \<longrightarrow> dc_ChannelID r = i)"

text \<open>What the migration makes of a row: a plaintext becomes an envelope that opens, for that channel, to the
  plaintext; an envelope stays, and opens.\<close>

definition migratedRow :: "channel_key_cipher \<Rightarrow> gotime \<Rightarrow> db_channel \<Rightarrow> db_channel \<Rightarrow> bool" where
  "migratedRow c now r r' \<longleftrightarrow>
     isChannelKeyEnvelope (dc_ApiKey r') \<and>
     (if isChannelKeyEnvelope (dc_ApiKey r)
      then r' = r \<and> (\<exists>k. Decrypt (Some c) (dc_ChannelID r) (dc_ApiKey r) = Inr k)
      else r' = r\<lparr>dc_ApiKey := dc_ApiKey r', dc_UpdatedAt := now\<rparr> \<and>
        Decrypt (Some c) (dc_ChannelID r) (dc_ApiKey r') = Inr (dc_ApiKey r))"

definition migratedTable :: "channel_key_cipher \<Rightarrow> gotime \<Rightarrow> pg_admin \<Rightarrow> pg_admin \<Rightarrow> bool" where
  "migratedTable c now d d' \<longleftrightarrow> d' = d\<lparr>pd_channels := pd_channels d'\<rparr> \<and>
     (\<forall>i. rel_option (migratedRow c now) (map_of (pd_channels d) i) (map_of (pd_channels d') i))"

lemma applyUpdates_Inr:
  assumes "applyUpdates e us d = Inr (x, d')" "distinct (map ku_channelID us)" "rows_keyed d"
  shows "rows_keyed d' \<and> d' = d\<lparr>pd_channels := pd_channels d'\<rparr> \<and>
    (\<forall>i. i \<notin> ku_channelID ` set us \<longrightarrow> map_of (pd_channels d') i = map_of (pd_channels d) i) \<and>
    (\<forall>u \<in> set us. \<exists>r. map_of (pd_channels d) (ku_channelID u) = Some r \<and> dc_ApiKey r = ku_oldValue u \<and>
       map_of (pd_channels d') (ku_channelID u) = Some (r\<lparr>dc_ApiKey := ku_newValue u, dc_UpdatedAt := an_dbnow e\<rparr>))"
  using assms
proof (induction us arbitrary: d)
  case Nil
  then show ?case by simp
next
  case (Cons u us)
  from Cons.prems(1) obtain d1 where d1: "UpdateChannelKeyMaterial e u d = Inr (1, d1)" "applyUpdates e us d1 = Inr (x, d')"
    by (auto split: sum.splits if_splits)
  let ?new = "\<lambda>r. r\<lparr>dc_ApiKey := ku_newValue u, dc_UpdatedAt := an_dbnow e\<rparr>"
  obtain r where r: "map_of (pd_channels d) (ku_channelID u) = Some r" "dc_ApiKey r = ku_oldValue u"
    "d1 = d\<lparr>pd_channels := mput (ku_channelID u) (?new r) (pd_channels d)\<rparr>"
    using d1(1) Cons.prems(3) by (auto simp: UpdateChannelKeyMaterial_def admStmt_cases putChannel_def rows_keyed_def
        split: option.splits if_splits)
  have k: "rows_keyed d1" using Cons.prems(3) r by (auto simp: rows_keyed_def)
  note ih = Cons.IH [OF d1(2) _ k]
  have d': "d' = d1\<lparr>pd_channels := pd_channels d'\<rparr>" using ih Cons.prems(2) by simp
  have "d' = d\<lparr>pd_channels := pd_channels d'\<rparr>" unfolding r(3) by (subst d') (simp add: r(3))
  moreover have "map_of (pd_channels d') (ku_channelID u) = Some (?new r)"
    using ih Cons.prems(2) r(3) by simp
  moreover have "\<exists>r. map_of (pd_channels d) (ku_channelID v) = Some r \<and> dc_ApiKey r = ku_oldValue v \<and>
      map_of (pd_channels d') (ku_channelID v) = Some (r\<lparr>dc_ApiKey := ku_newValue v, dc_UpdatedAt := an_dbnow e\<rparr>)"
    if "v \<in> set us" for v
  proof -
    have "ku_channelID v \<in> ku_channelID ` set us" using that by (rule imageI)
    then have "ku_channelID v \<noteq> ku_channelID u" using Cons.prems(2) by (auto simp del: image_iff)
    then show ?thesis using ih Cons.prems(2) that r(3) by auto
  qed
  ultimately show ?case using ih Cons.prems(2) r by auto
qed

lemma verifyEnvelopes_None:
  "verifyEnvelopes c rows = None \<Longrightarrow> (i, key) \<in> set rows \<Longrightarrow> isChannelKeyEnvelope key \<Longrightarrow> \<exists>k. Decrypt c i key = Inr k"
  by (induction c rows rule: verifyEnvelopes.induct) (auto split: if_splits sum.splits)

lemma encryptRows_Inr:
  assumes "cipher_ok c" "encryptRows c rand rows = Inr us"
  shows "map (\<lambda>u. (ku_channelID u, ku_oldValue u)) us = filter (\<lambda>(i, key). \<not> isChannelKeyEnvelope key) rows \<and>
    (\<forall>u \<in> set us. isChannelKeyEnvelope (ku_newValue u) \<and> Decrypt (Some c) (ku_channelID u) (ku_newValue u) = Inr (ku_oldValue u))"
  using assms
proof (induction c rand rows arbitrary: us rule: encryptRows.induct)
  case (2 c rand i key rows)
  show ?case
  proof (cases "isChannelKeyEnvelope key")
    case True
    then show ?thesis using 2 by simp
  next
    case False
    then obtain enc vs where v: "Encrypt (Some c) rand i key = Inr enc"
      "encryptRows c (drop (ad_NonceSize (kc_aead c)) rand) rows = Inr vs"
      "us = \<lparr>ku_channelID = i, ku_oldValue = key, ku_newValue = enc\<rparr> # vs"
      using 2(4) by (cases "Encrypt (Some c) rand i key"; cases "encryptRows c (drop (ad_NonceSize (kc_aead c)) rand) rows") auto
    then show ?thesis
      using 2(2) [OF False v(1) 2(3) v(2)] False Decrypt_Encrypt [OF 2(3) v(1)] Encrypt_envelope [OF v(1)] by simp
  qed
qed simp

lemma length_filter_sort: "length (filter P (sort_key f xs)) = length (filter P xs)"
  by (metis mset_filter mset_sort size_mset)

lemma materials:
  assumes "rows_keyed d" "ListChannelKeyMaterials e d = Inr (rows, d1)"
  shows "d1 = d \<and> distinct (map fst rows) \<and>
    ((i, key) \<in> set rows \<longleftrightarrow> (\<exists>r. map_of (pd_channels d) i = Some r \<and> dc_ApiKey r = key)) \<and>
    length (filter (\<lambda>(i, key). P key) rows) = length (filter (\<lambda>(i, r). P (dc_ApiKey r)) (pd_channels d))"
proof -
  have rows: "rows = map (\<lambda>r. (dc_ChannelID r, dc_ApiKey r)) (sort_key dc_ChannelID (map snd (pd_channels d)))" "d1 = d"
    using assms(2) by (auto simp: ListChannelKeyMaterials_def admStmt_cases)
  have wf: "mwf (pd_channels d)" and id: "\<And>i r. (i, r) \<in> set (pd_channels d) \<Longrightarrow> dc_ChannelID r = i"
    using assms(1) by (auto simp: rows_keyed_def mget_set)
  have ids: "map dc_ChannelID (map snd (pd_channels d)) = map fst (pd_channels d)" using id by auto
  have "distinct (map dc_ChannelID (map snd (pd_channels d)))" unfolding ids using wf by (simp add: mwf_def)
  moreover have "map fst rows = map dc_ChannelID (sort_key dc_ChannelID (map snd (pd_channels d)))" by (simp add: rows)
  ultimately have "distinct (map fst rows)" by (simp only: distinct_sort)
  moreover have "(i, key) \<in> set rows \<longleftrightarrow> (\<exists>r. map_of (pd_channels d) i = Some r \<and> dc_ApiKey r = key)"
    unfolding rows using id mget_set [OF wf] by force
  moreover have "length (filter (\<lambda>(i, key). P key) rows) = length (filter (\<lambda>(i, r). P (dc_ApiKey r)) (pd_channels d))"
    by (simp add: rows filter_map comp_def length_filter_sort case_prod_unfold)
  ultimately show ?thesis using rows(2) by blast
qed

lemma migrated_rows:
  assumes c: "cipher_ok c" and k: "rows_keyed d" and rows: "ListChannelKeyMaterials e d = Inr (rows, d1)"
    and plan: "planChannelKeyMigration rows (Some c) rand allow = Inr us" and run: "applyUpdates e us d1 = Inr (x, d')"
  shows "migratedTable c (an_dbnow e) d d' \<and>
    length us = length (filter (\<lambda>(i, r). \<not> isChannelKeyEnvelope (dc_ApiKey r)) (pd_channels d)) \<and> (us = [] \<or> allow)"
proof -
  have m: "distinct (map fst rows)" and d1: "d1 = d"
    and n: "length (filter (\<lambda>(i, key). \<not> isChannelKeyEnvelope key) rows) =
      length (filter (\<lambda>(i, r). \<not> isChannelKeyEnvelope (dc_ApiKey r)) (pd_channels d))"
    using materials [OF k rows] by auto
  have ver: "verifyEnvelopes (Some c) rows = None" and enc: "encryptRows c rand rows = Inr us"
    using plan by (simp_all add: planChannelKeyMigration_def split: option.splits if_splits)
  have allowed: "isChannelKeyEnvelope (snd p) \<or> allow" if "p \<in> set rows" for p
    using plan that ver by (cases p) (auto simp: planChannelKeyMigration_def list_ex_iff split: if_splits)
  note u = encryptRows_Inr [OF c enc]
  let ?plain = "filter (\<lambda>(i, key). \<not> isChannelKeyEnvelope key) rows"
  have ids: "map ku_channelID us = map fst ?plain" using arg_cong [OF conjunct1 [OF u], of "map fst"] by (simp add: comp_def)
  have upd: "(i, key) \<in> set rows \<and> \<not> isChannelKeyEnvelope key \<longleftrightarrow> (\<exists>v \<in> set us. ku_channelID v = i \<and> ku_oldValue v = key)" for i key
  proof -
    have "(i, key) \<in> set ?plain \<longleftrightarrow> (i, key) \<in> set (map (\<lambda>u. (ku_channelID u, ku_oldValue u)) us)" using u by simp
    then show ?thesis by auto
  qed
  have "distinct (map ku_channelID us)" unfolding ids using m by (simp add: distinct_map_filter)
  note a = applyUpdates_Inr [OF run this, unfolded d1, OF k]
  have "rel_option (migratedRow c (an_dbnow e)) (map_of (pd_channels d) i) (map_of (pd_channels d') i)" for i
  proof (cases "i \<in> ku_channelID ` set us")
    case True
    then obtain v where v: "v \<in> set us" "ku_channelID v = i" by auto
    then have old: "\<not> isChannelKeyEnvelope (ku_oldValue v)" using upd by blast
    obtain r where r: "map_of (pd_channels d) i = Some r" "dc_ApiKey r = ku_oldValue v"
      "map_of (pd_channels d') i = Some (r\<lparr>dc_ApiKey := ku_newValue v, dc_UpdatedAt := an_dbnow e\<rparr>)"
      using a v by auto
    have "dc_ChannelID r = i" using k r(1) by (simp add: rows_keyed_def)
    then show ?thesis using r u v old by (auto simp: migratedRow_def)
  next
    case False
    then have same: "map_of (pd_channels d') i = map_of (pd_channels d) i" using a by simp
    have "migratedRow c (an_dbnow e) r r" if r: "map_of (pd_channels d) i = Some r" for r
    proof -
      have row: "(i, dc_ApiKey r) \<in> set rows" "dc_ChannelID r = i"
        using materials [OF k rows, of i "dc_ApiKey r"] r k by (auto simp: rows_keyed_def)
      then have "isChannelKeyEnvelope (dc_ApiKey r)" using False upd [of i "dc_ApiKey r"] by (auto simp: image_iff)
      then show ?thesis using verifyEnvelopes_None [OF ver row(1)] row(2) by (simp add: migratedRow_def)
    qed
    then show ?thesis unfolding same by (cases "map_of (pd_channels d) i") auto
  qed
  moreover have "length us = length ?plain" using arg_cong [OF ids, of length] by simp
  moreover have "us = [] \<or> allow"
  proof (cases us)
    case (Cons v vs)
    then have "(ku_channelID v, ku_oldValue v) \<in> set rows \<and> \<not> isChannelKeyEnvelope (ku_oldValue v)" using upd by simp
    then show ?thesis using allowed [of "(ku_channelID v, ku_oldValue v)"] by simp
  qed simp
  ultimately show ?thesis using a n by (simp add: migratedTable_def)
qed

text \<open>Nothing or everything.\<close>

lemma migration_outcome:
  assumes c: "cipher_ok c" and k: "rows_keyed d" and x: "MigrateChannelAPIKeys e (Some c) allow d = (d', r)"
  shows "(d' = d \<or> allow \<and> migratedTable c (an_dbnow e) d d') \<and>
    (case r of
       Inl err \<Rightarrow> d' = d \<or> err = ErrPg ''commit''
     | Inr n \<Rightarrow> migratedTable c (an_dbnow e) d d' \<and>
         n = int (length (filter (\<lambda>(i, r). \<not> isChannelKeyEnvelope (dc_ApiKey r)) (pd_channels d))))"
proof -
  consider err where "d' = d" "r = Inl err"
    | rows d1 us where "ListChannelKeyMaterials e d = Inr (rows, d1)"
        "planChannelKeyMigration rows (Some c) (an_rand e) allow = Inr us"
        "admCommit e d (map_sum id (\<lambda>(_, d2). (int (length us), d2)) (applyUpdates e us d1)) = (d', r)"
    using x by (auto simp: MigrateChannelAPIKeys_def split: if_splits sum.splits)
  then show ?thesis
  proof cases
    case 1
    then show ?thesis by simp
  next
    case 2
    have d1: "d1 = d" using materials [OF k 2(1)] by simp
    have same: "d2 = d" if "us = []" "applyUpdates e us d1 = Inr (u, d2)" for u d2 using that d1 by simp
    note m = migrated_rows [OF c k 2(1,2)]
    from 2(3) show ?thesis
    proof (cases rule: admCommit_cases)
      case (failed err)
      then show ?thesis by simp
    next
      case (finished n)
      then obtain u where "applyUpdates e us d1 = Inr (u, d')" "n = int (length us)"
        by (cases "applyUpdates e us d1") auto
      then show ?thesis using m [of u d'] same finished by auto
    next
      case (unsure n d2)
      then obtain u where "applyUpdates e us d1 = Inr (u, d2)" by (cases "applyUpdates e us d1") auto
      then show ?thesis using m [of u d2] same unsure by auto
    qed
  qed
qed

end
