(* ===== verification/AdminApi.thy ===== *)
theory AdminApi
  imports AdminSpec Console
begin

text \<open>
  The handlers of the management interface, \<open>internal/server/admin_handlers.go\<close> and
  \<open>admin_channels.go\<close>, and of the users' own keys, \<open>me_handlers.go\<close>, over any service of \<open>Admin\<close>.

  A body is what \<open>ShouldBindJSON\<close> decoded, or \<open>None\<close> when it is not JSON of that shape; the \<open>required\<close>
  checks are made here. Messages are given in English and without the text of the error. The JSON of a
  nil slice of model names is that of the empty one here. The handlers that check the owner of a key
  before they write get two states: the one that the check reads and the one that the write finds.
\<close>

declare decField.simps(2) [simp del] jsonDepth.simps(2) [simp del]

section \<open>Replies\<close>

definition writeAdminError :: "goerr \<Rightarrow> reply" where
  "writeAdminError err =
     (if errors_is err ErrAdminNotFound then writeErrorJSON 404 ''not_found'' ''no such resource''
      else if errors_is err ErrConflict then writeErrorJSON 409 ''conflict'' ''resource exists''
      else if errors_is err ErrInvalidInput then writeErrorJSON 400 ''invalid_request_error'' ''invalid parameter''
      else if errors_is err ErrLimitReached then writeErrorJSON 409 ''limit_reached'' ''limit reached''
      else writeErrorJSON 500 ''internal_error'' ''storage failed'')"

definition noContent :: reply where
  "noContent = \<lparr>rp_write = CData 204 [], rp_headers = [], rp_cookies = []\<rparr>"

definition userFields :: "(gotime \<Rightarrow> string) \<Rightarrow> admin_user \<Rightarrow> (string \<times> json) list" where
  "userFields timeText u =
     [(''external_id'', JStr (au_ExternalID u)), (''balance'', JNum (intText (au_Balance u))),
      (''enabled'', JBool (au_Enabled u)), (''created_at'', JStr (timeText (au_CreatedAt u))),
      (''updated_at'', JStr (timeText (au_UpdatedAt u)))]"

definition keyFields :: "(gotime \<Rightarrow> string) \<Rightarrow> api_key \<Rightarrow> (string \<times> json) list" where
  "keyFields timeText k =
     [(''key_id'', JStr (ak_KeyID k)), (''user_id'', JStr (ak_UserID k)),
      (''rate_limit_per_min'', JNum (intText (ak_RateLimitPerMin k))),
      (''allowed_models'', JArr (map JStr (ak_AllowedModels k))), (''enabled'', JBool (ak_Enabled k)),
      (''created_at'', JStr (timeText (ak_CreatedAt k)))]"

definition modelsJSON :: "(string, string) gomap option \<Rightarrow> json" where
  "modelsJSON m = (case m of None \<Rightarrow> JNull | Some kvs \<Rightarrow> JObj (sort_key fst (map (\<lambda>(k, v). (k, JStr v)) kvs)))"

text \<open>The credential has the tag \<open>json:"-"\<close>.\<close>

definition channelFields :: "(gotime \<Rightarrow> string) \<Rightarrow> admin_channel \<Rightarrow> (string \<times> json) list" where
  "channelFields timeText c =
     [(''channel_id'', JStr (cn_ChannelID c)), (''name'', JStr (cn_Name c)), (''format'', JStr (cn_Format c)),
      (''base_url'', JStr (cn_BaseURL c)), (''models'', modelsJSON (cn_Models c)),
      (''priority'', JNum (intText (cn_Priority c))), (''weight'', JNum (intText (cn_Weight c))),
      (''enabled'', JBool (cn_Enabled c)), (''created_at'', JStr (timeText (cn_CreatedAt c))),
      (''updated_at'', JStr (timeText (cn_UpdatedAt c)))]"

definition sanitizeChannel :: "admin_channel \<Rightarrow> admin_channel" where
  "sanitizeChannel c = c\<lparr>cn_APIKey := []\<rparr>"

definition validChannelFormat :: "string \<Rightarrow> bool" where
  "validChannelFormat format \<longleftrightarrow> format = ''openai'' \<or> format = ''anthropic''"

text \<open>The reply to an operation of the service: its error, or what \<open>ok\<close> makes of its result.\<close>

definition adminReply :: "('a \<Rightarrow> reply) \<Rightarrow> 'a result \<Rightarrow> reply" where
  "adminReply ok r = (case r of Inl err \<Rightarrow> writeAdminError err | Inr x \<Rightarrow> ok x)"

text \<open>An operation of the store, on the state of the service.\<close>

definition onStore :: "('s \<Rightarrow> 's \<times> 'a result) \<Rightarrow> ('a \<Rightarrow> reply) \<Rightarrow> 's served \<Rightarrow> 's served \<times> reply" where
  "onStore f ok st = map_prod (\<lambda>s. st\<lparr>svd_store := s\<rparr>) (adminReply ok) (f (svd_store st))"

section \<open>Users\<close>

record create_user_req =
  uq_ExternalID :: string
  uq_Balance :: int
  uq_Enabled :: "bool option"

definition createUser ::
  "('e, 's) service \<Rightarrow> (gotime \<Rightarrow> string) \<Rightarrow> 'e \<Rightarrow> create_user_req option \<Rightarrow> 's served \<Rightarrow> 's served \<times> reply" where
  "createUser sv timeText e body st =
     (case body of
        None \<Rightarrow> (st, badRequest)
      | Some q \<Rightarrow>
          if uq_ExternalID q = [] then (st, badRequest)
          else onStore (aop_CreateUser (sv_ops sv) e \<lparr>cu_ExternalID = uq_ExternalID q, cu_Balance = uq_Balance q,
                 cu_Enabled = (case uq_Enabled q of None \<Rightarrow> True | Some b \<Rightarrow> b)\<rparr>)
                 (\<lambda>u. writeJSON 201 (userFields timeText u)) st)"

definition listUsers ::
  "('e, 's) service \<Rightarrow> (gotime \<Rightarrow> string) \<Rightarrow> 'e \<Rightarrow> string \<Rightarrow> string \<Rightarrow> 's served \<Rightarrow> reply" where
  "listUsers sv timeText e limit offset st =
     (case queryInt ''limit'' limit 100 1 500 of
        Inl refusal \<Rightarrow> refusal
      | Inr limit \<Rightarrow>
     (case queryInt ''offset'' offset 0 0 1000000000 of
        Inl refusal \<Rightarrow> refusal
      | Inr offset \<Rightarrow>
          adminReply (\<lambda>us. writeJSON 200 [(''data'', JArr (map (\<lambda>u. JObj (userFields timeText u)) us))])
            (aop_ListUsers (sv_ops sv) e limit offset (svd_store st))))"

definition getUser :: "('e, 's) service \<Rightarrow> (gotime \<Rightarrow> string) \<Rightarrow> 'e \<Rightarrow> string \<Rightarrow> 's served \<Rightarrow> reply" where
  "getUser sv timeText e i st =
     adminReply (\<lambda>u. writeJSON 200 (userFields timeText u)) (aop_GetUser (sv_ops sv) e i (svd_store st))"

text \<open>\<open>setEnabledReq\<close>: the outer option is the decoding, the inner one the pointer, which is required.\<close>

definition bindEnabled :: "bool option option \<Rightarrow> bool option" where
  "bindEnabled body = (case body of None \<Rightarrow> None | Some b \<Rightarrow> b)"

definition setUserEnabled ::
  "('e, 's) service \<Rightarrow> (gotime \<Rightarrow> string) \<Rightarrow> 'e \<Rightarrow> string \<Rightarrow> bool option option \<Rightarrow> 's served \<Rightarrow> 's served \<times> reply" where
  "setUserEnabled sv timeText e i body st =
     (case bindEnabled body of
        None \<Rightarrow> (st, badRequest)
      | Some b \<Rightarrow> onStore (aop_SetUserEnabled (sv_ops sv) e i b) (\<lambda>u. writeJSON 200 (userFields timeText u)) st)"

text \<open>\<open>required\<close> refuses also a zero.\<close>

definition addBalance ::
  "('e, 's) service \<Rightarrow> 'e \<Rightarrow> string \<Rightarrow> int option \<Rightarrow> 's served \<Rightarrow> 's served \<times> reply" where
  "addBalance sv e i body st =
     (case body of
        None \<Rightarrow> (st, badRequest)
      | Some delta \<Rightarrow>
          if delta = 0 then (st, badRequest)
          else onStore (aop_AddBalance (sv_ops sv) e i delta)
                 (\<lambda>bal. writeJSON 200 [(''external_id'', JStr i), (''balance'', JNum (intText bal))]) st)"

section \<open>Keys\<close>

record create_key_req =
  kq_RateLimitPerMin :: int
  kq_AllowedModels :: "string list"
  kq_Enabled :: "bool option"

definition createdKey :: "(gotime \<Rightarrow> string) \<Rightarrow> string \<Rightarrow> bool \<Rightarrow> api_key \<Rightarrow> reply" where
  "createdKey timeText apiKey withUser k = writeJSON 201
     ([(''api_key'', JStr apiKey), (''key_id'', JStr (ak_KeyID k))] @
      (if withUser then [(''user_id'', JStr (ak_UserID k))] else []) @
      [(''rate_limit_per_min'', JNum (intText (ak_RateLimitPerMin k))),
       (''allowed_models'', JArr (map JStr (ak_AllowedModels k))), (''enabled'', JBool (ak_Enabled k)),
       (''created_at'', JStr (timeText (ak_CreatedAt k)))])"

text \<open>\<open>gen\<close> is what \<open>GenerateKey\<close> returned.\<close>

definition createKey ::
  "('e, 's) service \<Rightarrow> (gotime \<Rightarrow> string) \<Rightarrow> 'e \<Rightarrow> generated_key result \<Rightarrow> string \<Rightarrow> create_key_req option \<Rightarrow>
   's served \<Rightarrow> 's served \<times> reply" where
  "createKey sv timeText e gen i body st =
     (case body of
        None \<Rightarrow> (st, badRequest)
      | Some q \<Rightarrow>
          if kq_RateLimitPerMin q < 0 \<or> kq_RateLimitPerMin q > MaxRateLimitPerMin
          then (st, writeErrorJSON 400 ''invalid_request_error'' ''rate_limit_per_min out of range'')
          else (case gen of
                  Inl err \<Rightarrow> (st, writeErrorJSON 500 ''internal_error'' ''random source'')
                | Inr g \<Rightarrow>
                    onStore (aop_CreateAPIKey (sv_ops sv) e \<lparr>ik_APIKey = gk_APIKey g, ik_KeyID = gk_KeyID g, ik_UserID = i,
                        ik_RateLimitPerMin = kq_RateLimitPerMin q, ik_AllowedModels = kq_AllowedModels q,
                        ik_Enabled = (case kq_Enabled q of None \<Rightarrow> True | Some b \<Rightarrow> b)\<rparr>)
                      (createdKey timeText (gk_APIKey g) True) st))"

definition keyList :: "(gotime \<Rightarrow> string) \<Rightarrow> api_key list \<Rightarrow> reply" where
  "keyList timeText ks = writeJSON 200 [(''data'', JArr (map (\<lambda>k. JObj (keyFields timeText k)) ks))]"

definition listKeys :: "('e, 's) service \<Rightarrow> (gotime \<Rightarrow> string) \<Rightarrow> 'e \<Rightarrow> string \<Rightarrow> 's served \<Rightarrow> reply" where
  "listKeys sv timeText e i st = adminReply (keyList timeText) (aop_ListAPIKeysByUser (sv_ops sv) e i (svd_store st))"

definition setKeyEnabled ::
  "('e, 's) service \<Rightarrow> (gotime \<Rightarrow> string) \<Rightarrow> 'e \<Rightarrow> string \<Rightarrow> bool option option \<Rightarrow> 's served \<Rightarrow> 's served \<times> reply" where
  "setKeyEnabled sv timeText e i body st =
     (case bindEnabled body of
        None \<Rightarrow> (st, badRequest)
      | Some b \<Rightarrow> onStore (aop_SetAPIKeyEnabled (sv_ops sv) e i b) (\<lambda>k. writeJSON 200 (keyFields timeText k)) st)"

section \<open>Channels\<close>

record channel_req =
  hq_ChannelID :: string
  hq_Name :: string
  hq_Format :: string
  hq_BaseURL :: string
  hq_APIKey :: "string option"
  hq_Models :: "(string, string) gomap option"
  hq_Priority :: int
  hq_Weight :: int
  hq_Enabled :: "bool option"

definition bindChannel :: "channel_req option \<Rightarrow> channel_req option" where
  "bindChannel body =
     (case body of
        None \<Rightarrow> None
      | Some q \<Rightarrow> if hq_ChannelID q = [] \<or> hq_Format q = [] \<or> hq_BaseURL q = [] then None else Some q)"

definition toInput :: "channel_req \<Rightarrow> string \<Rightarrow> bool \<Rightarrow> channel_input" where
  "toInput q channelID creating =
     \<lparr>ci_ChannelID = channelID, ci_Name = hq_Name q, ci_Format = hq_Format q, ci_BaseURL = hq_BaseURL q,
      ci_APIKey = (case hq_APIKey q of None \<Rightarrow> [] | Some k \<Rightarrow> k),
      ci_APIKeySet = (creating \<or> hq_APIKey q \<noteq> None), ci_Models = hq_Models q, ci_Priority = hq_Priority q,
      ci_Weight = (if hq_Weight q \<le> 0 then 1 else hq_Weight q),
      ci_Enabled = (case hq_Enabled q of None \<Rightarrow> True | Some b \<Rightarrow> b)\<rparr>"

definition channelReplyJSON :: "(gotime \<Rightarrow> string) \<Rightarrow> int \<Rightarrow> admin_channel \<Rightarrow> reply" where
  "channelReplyJSON timeText status c = writeJSON status (channelFields timeText (sanitizeChannel c))"

text \<open>A body that decodes and has one of the two formats.\<close>

definition withChannel ::
  "channel_req option \<Rightarrow> (channel_req \<Rightarrow> 's served \<Rightarrow> 's served \<times> reply) \<Rightarrow> 's served \<Rightarrow> 's served \<times> reply" where
  "withChannel body f st =
     (case bindChannel body of
        None \<Rightarrow> (st, badRequest)
      | Some q \<Rightarrow>
          if \<not> validChannelFormat (hq_Format q)
          then (st, writeErrorJSON 400 ''invalid_request_error'' ''format must be openai or anthropic'')
          else f q st)"

definition createChannel ::
  "('e, 's) service \<Rightarrow> (gotime \<Rightarrow> string) \<Rightarrow> 'e service_env \<Rightarrow> channel_req option \<Rightarrow> 's served \<Rightarrow> 's served \<times> reply" where
  "createChannel sv timeText e body =
     withChannel body (\<lambda>q st. map_prod id (adminReply (channelReplyJSON timeText 201))
       (SvcCreateChannel sv e (toInput q (hq_ChannelID q) True) st))"

definition listChannels :: "('e, 's) service \<Rightarrow> (gotime \<Rightarrow> string) \<Rightarrow> 'e \<Rightarrow> 's served \<Rightarrow> reply" where
  "listChannels sv timeText e st =
     adminReply (\<lambda>cs. writeJSON 200 [(''data'', JArr (map (\<lambda>c. JObj (channelFields timeText (sanitizeChannel c))) cs))])
       (aop_ListChannels (sv_ops sv) e (svd_store st))"

definition getChannel :: "('e, 's) service \<Rightarrow> (gotime \<Rightarrow> string) \<Rightarrow> 'e \<Rightarrow> string \<Rightarrow> 's served \<Rightarrow> reply" where
  "getChannel sv timeText e i st =
     adminReply (channelReplyJSON timeText 200) (aop_GetChannel (sv_ops sv) e i (svd_store st))"

definition updateChannel ::
  "('e, 's) service \<Rightarrow> (gotime \<Rightarrow> string) \<Rightarrow> 'e service_env \<Rightarrow> string \<Rightarrow> channel_req option \<Rightarrow> 's served \<Rightarrow>
   's served \<times> reply" where
  "updateChannel sv timeText e i body =
     withChannel body (\<lambda>q st. map_prod id (adminReply (channelReplyJSON timeText 200))
       (SvcUpdateChannel sv e (toInput q i False) st))"

definition setChannelEnabled ::
  "('e, 's) service \<Rightarrow> (gotime \<Rightarrow> string) \<Rightarrow> 'e service_env \<Rightarrow> string \<Rightarrow> bool option option \<Rightarrow> 's served \<Rightarrow>
   's served \<times> reply" where
  "setChannelEnabled sv timeText e i body st =
     (case bindEnabled body of
        None \<Rightarrow> (st, badRequest)
      | Some b \<Rightarrow> map_prod id (adminReply (channelReplyJSON timeText 200)) (SvcSetChannelEnabled sv e i b st))"

definition deleteChannel ::
  "('e, 's) service \<Rightarrow> 'e service_env \<Rightarrow> string \<Rightarrow> 's served \<Rightarrow> 's served \<times> reply" where
  "deleteChannel sv e i st = map_prod id (adminReply (\<lambda>u. noContent)) (SvcDeleteChannel sv e i st)"

section \<open>A user's own keys\<close>

definition minSelfKeyRateLimit :: int where "minSelfKeyRateLimit = 1"
definition maxSelfKeyRateLimit :: int where "maxSelfKeyRateLimit = MaxRateLimitPerMin"
definition maxSelfKeysPerAccount :: int where "maxSelfKeysPerAccount = 50"

lemmas self_limits = minSelfKeyRateLimit_def maxSelfKeyRateLimit_def maxSelfKeysPerAccount_def MaxRateLimitPerMin_def

text \<open>\<open>Balance\<close> of the identity store works on the same data as the management store.\<close>

record ('e, 's) me_handlers =
  mh_svc :: "('e, 's) service"
  mh_balance :: "'e \<Rightarrow> string \<Rightarrow> 's \<Rightarrow> int result"
  mh_timeText :: "gotime \<Rightarrow> string"

definition sessionExternalID :: "session_data option \<Rightarrow> string" where
  "sessionExternalID sess = (case sess of None \<Rightarrow> [] | Some d \<Rightarrow> sd_ExternalID d)"

definition ownedKey ::
  "('e, 's) me_handlers \<Rightarrow> 'e \<Rightarrow> session_data option \<Rightarrow> string \<Rightarrow> 's served \<Rightarrow> api_key option" where
  "ownedKey h e sess keyID st =
     (case aop_ListAPIKeysByUser (sv_ops (mh_svc h)) e (sessionExternalID sess) (svd_store st) of
        Inl err \<Rightarrow> None
      | Inr ks \<Rightarrow> find (\<lambda>k. ak_KeyID k = keyID) ks)"

definition requireExternalID :: "session_data option \<Rightarrow> reply + string" where
  "requireExternalID sess =
     (if sessionExternalID sess = [] then Inl (writeErrorJSON 401 ''authentication_error'' ''not logged in'')
      else Inr (sessionExternalID sess))"

definition profile :: "('e, 's) me_handlers \<Rightarrow> 'e \<Rightarrow> session_data option \<Rightarrow> 's served \<Rightarrow> reply" where
  "profile h e sess st =
     (case requireExternalID sess of
        Inl refusal \<Rightarrow> refusal
      | Inr ext \<Rightarrow>
          (case mh_balance h e ext (svd_store st) of
             Inl err \<Rightarrow> writeErrorJSON 500 ''internal_error'' ''balance unavailable''
           | Inr bal \<Rightarrow> writeJSON 200 [(''external_id'', JStr ext), (''balance'', JNum (intText bal))]))"

definition meListKeys :: "('e, 's) me_handlers \<Rightarrow> 'e \<Rightarrow> session_data option \<Rightarrow> 's served \<Rightarrow> reply" where
  "meListKeys h e sess st =
     (case requireExternalID sess of
        Inl refusal \<Rightarrow> refusal
      | Inr ext \<Rightarrow>
          (case aop_ListAPIKeysByUser (sv_ops (mh_svc h)) e ext (svd_store st) of
             Inl err \<Rightarrow> writeErrorJSON 500 ''internal_error'' ''keys unavailable''
           | Inr ks \<Rightarrow> keyList (mh_timeText h) ks))"

record me_create_key_req =
  mq_RateLimitPerMin :: int
  mq_AllowedModels :: "string list"

definition meCreateKey ::
  "('e, 's) me_handlers \<Rightarrow> 'e \<Rightarrow> generated_key result \<Rightarrow> session_data option \<Rightarrow> me_create_key_req option \<Rightarrow>
   's served \<Rightarrow> 's served \<times> reply" where
  "meCreateKey h e gen sess body st =
     (case requireExternalID sess of
        Inl refusal \<Rightarrow> (st, refusal)
      | Inr ext \<Rightarrow>
     (case body of
        None \<Rightarrow> (st, badRequest)
      | Some q \<Rightarrow>
          if mq_RateLimitPerMin q < minSelfKeyRateLimit \<or> mq_RateLimitPerMin q > maxSelfKeyRateLimit
          then (st, writeErrorJSON 400 ''invalid_request_error'' ''rate_limit_per_min out of range'')
          else (case gen of
                  Inl err \<Rightarrow> (st, writeErrorJSON 500 ''internal_error'' ''random source'')
                | Inr g \<Rightarrow>
                    map_prod id (adminReply (createdKey (mh_timeText h) (gk_APIKey g) False))
                      (SvcCreateAPIKeyLimited (mh_svc h) e \<lparr>ik_APIKey = gk_APIKey g, ik_KeyID = gk_KeyID g, ik_UserID = ext,
                          ik_RateLimitPerMin = mq_RateLimitPerMin q, ik_AllowedModels = mq_AllowedModels q,
                          ik_Enabled = True\<rparr> maxSelfKeysPerAccount st))))"

definition noSuchKey :: reply where
  "noSuchKey = writeErrorJSON 404 ''not_found'' ''no such key''"

text \<open>The check of the owner reads \<open>seen\<close>, with the environment \<open>e0\<close>.\<close>

definition meSetKeyEnabled ::
  "('e, 's) me_handlers \<Rightarrow> 'e \<Rightarrow> 'e \<Rightarrow> session_data option \<Rightarrow> string \<Rightarrow> bool option option \<Rightarrow> 's served \<Rightarrow> 's served \<Rightarrow>
   's served \<times> reply" where
  "meSetKeyEnabled h e0 e sess keyID body seen st =
     (case ownedKey h e0 sess keyID seen of
        None \<Rightarrow> (st, noSuchKey)
      | Some k \<Rightarrow>
          (case bindEnabled body of
             None \<Rightarrow> (st, badRequest)
           | Some b \<Rightarrow>
               onStore (aop_SetAPIKeyEnabled (sv_ops (mh_svc h)) e keyID b)
                 (\<lambda>k. writeJSON 200 (keyFields (mh_timeText h) k)) st))"

definition meDeleteKey ::
  "('e, 's) me_handlers \<Rightarrow> 'e \<Rightarrow> 'e \<Rightarrow> session_data option \<Rightarrow> string \<Rightarrow> 's served \<Rightarrow> 's served \<Rightarrow> 's served \<times> reply" where
  "meDeleteKey h e0 e sess keyID seen st =
     (case ownedKey h e0 sess keyID seen of
        None \<Rightarrow> (st, noSuchKey)
      | Some k \<Rightarrow>
          (case aop_DeleteAPIKey (sv_ops (mh_svc h)) e keyID (svd_store st) of
             (s, Inl err) \<Rightarrow>
               (st\<lparr>svd_store := s\<rparr>,
                if errors_is err ErrAdminNotFound then noSuchKey
                else writeErrorJSON 500 ''internal_error'' ''key not deleted'')
           | (s, Inr u) \<Rightarrow> (st\<lparr>svd_store := s\<rparr>, noContent)))"

datatype me_request =
    MeProfile | MeListKeys | MeCreateKey "me_create_key_req option"
  | MeSetKeyEnabled string "bool option option" | MeDeleteKey string

record 'e me_env =
  mv_check :: 'e
  mv_call :: 'e
  mv_gen :: "generated_key result"

text \<open>The routes of \<open>/me\<close>.\<close>

fun meHandle ::
  "('e, 's) me_handlers \<Rightarrow> 'e me_env \<Rightarrow> session_data option \<Rightarrow> me_request \<Rightarrow> 's served \<Rightarrow> 's served \<Rightarrow> 's served \<times> reply" where
  "meHandle h e sess MeProfile seen st = (st, profile h (mv_call e) sess st)"
| "meHandle h e sess MeListKeys seen st = (st, meListKeys h (mv_call e) sess st)"
| "meHandle h e sess (MeCreateKey body) seen st = meCreateKey h (mv_call e) (mv_gen e) sess body st"
| "meHandle h e sess (MeSetKeyEnabled i body) seen st = meSetKeyEnabled h (mv_check e) (mv_call e) sess i body seen st"
| "meHandle h e sess (MeDeleteKey i) seen st = meDeleteKey h (mv_check e) (mv_call e) sess i seen st"

datatype admin_request =
    AdmCreateUser "create_user_req option" | AdmListUsers string string | AdmGetUser string
  | AdmSetUserEnabled string "bool option option" | AdmAddBalance string "int option"
  | AdmCreateKey string "create_key_req option" | AdmListKeys string | AdmSetKeyEnabled string "bool option option"
  | AdmCreateChannel "channel_req option" | AdmListChannels | AdmGetChannel string
  | AdmUpdateChannel string "channel_req option" | AdmSetChannelEnabled string "bool option option" | AdmDeleteChannel string

record 'e admin_call_env =
  ac_call :: 'e
  ac_channel :: "'e service_env"
  ac_gen :: "generated_key result"

text \<open>The routes of \<open>/admin\<close> that \<open>adminHandlers\<close> serves.\<close>

fun adminHandle ::
  "('e, 's) service \<Rightarrow> (gotime \<Rightarrow> string) \<Rightarrow> 'e admin_call_env \<Rightarrow> admin_request \<Rightarrow> 's served \<Rightarrow> 's served \<times> reply" where
  "adminHandle sv t e (AdmCreateUser body) st = createUser sv t (ac_call e) body st"
| "adminHandle sv t e (AdmListUsers limit offset) st = (st, listUsers sv t (ac_call e) limit offset st)"
| "adminHandle sv t e (AdmGetUser i) st = (st, getUser sv t (ac_call e) i st)"
| "adminHandle sv t e (AdmSetUserEnabled i body) st = setUserEnabled sv t (ac_call e) i body st"
| "adminHandle sv t e (AdmAddBalance i body) st = addBalance sv (ac_call e) i body st"
| "adminHandle sv t e (AdmCreateKey i body) st = createKey sv t (ac_call e) (ac_gen e) i body st"
| "adminHandle sv t e (AdmListKeys i) st = (st, listKeys sv t (ac_call e) i st)"
| "adminHandle sv t e (AdmSetKeyEnabled i body) st = setKeyEnabled sv t (ac_call e) i body st"
| "adminHandle sv t e (AdmCreateChannel body) st = createChannel sv t (ac_channel e) body st"
| "adminHandle sv t e AdmListChannels st = (st, listChannels sv t (ac_call e) st)"
| "adminHandle sv t e (AdmGetChannel i) st = (st, getChannel sv t (ac_call e) i st)"
| "adminHandle sv t e (AdmUpdateChannel i body) st = updateChannel sv t (ac_channel e) i body st"
| "adminHandle sv t e (AdmSetChannelEnabled i body) st = setChannelEnabled sv t (ac_channel e) i body st"
| "adminHandle sv t e (AdmDeleteChannel i) st = deleteChannel sv (ac_channel e) i st"

end
