(* ===== verification/HttpEdge.thy ===== *)
theory HttpEdge
  imports Session Store RateLimit
begin

text \<open>
  The middleware in front of the handlers: authentication by API key (\<open>internal/middleware/auth.go\<close>),
  the limit on request bodies (\<open>bodylimit.go\<close>), the token of the metrics endpoint (\<open>metrics_auth.go\<close>),
  and the probes and the list of models of \<open>internal/server/server.go\<close>.

  A missing header is the empty string. \<open>protocol\<close> is what \<open>ProtocolContext\<close> marked the request with.
\<close>

section \<open>API keys\<close>

record auth_headers =
  ha_Authorization :: string
  ha_XAPIKey :: string

text \<open>\<open>Bearer\<close> with a blank, in any case, and something after it; the rest is trimmed.\<close>

definition bearerToken :: "string \<Rightarrow> string option" where
  "bearerToken auth =
     (if 7 < length auth \<and> EqualFoldLower (take 7 auth) ''bearer '' then Some (TrimSpace (drop 7 auth)) else None)"

definition extractAPIKey :: "auth_headers \<Rightarrow> string" where
  "extractAPIKey hs =
     (case bearerToken (ha_Authorization hs) of
        Some key \<Rightarrow> key
      | None \<Rightarrow> if ha_XAPIKey hs \<noteq> [] then TrimSpace (ha_XAPIKey hs) else [])"

definition maxAPIKeyBytes :: nat where "maxAPIKeyBytes = 512"

text \<open>\<open>defer gate.Release()\<close>; the panic of \<open>Release\<close> cannot occur after \<open>TryAcquire\<close>.\<close>

definition withGate :: "semaphore option \<Rightarrow> 'a \<Rightarrow> semaphore option \<times> 'a option" where
  "withGate gate x =
     (case gate of
        None \<Rightarrow> (None, Some x)
      | Some g \<Rightarrow>
          (case TryAcquire g of
             (g, False) \<Rightarrow> (Some g, None)
           | (g, True) \<Rightarrow> (Some (case Release g of Inl err \<Rightarrow> g | Inr g' \<Rightarrow> g'), Some x)))"

definition authWithGate ::
  "('d, 'n) registry \<Rightarrow> string \<Rightarrow> (string \<Rightarrow> identity result) \<Rightarrow> semaphore option \<Rightarrow> auth_headers \<Rightarrow>
   semaphore option \<times> (client_write + identity)" where
  "authWithGate adapters protocol resolve gate hs =
     (let apiKey = extractAPIKey hs; abort = \<lambda>status errType message. Inl (WriteError adapters protocol status errType message)
      in if apiKey = [] then (gate, abort 401 ''authentication_error'' ''missing API key'')
         else if length apiKey > maxAPIKeyBytes then (gate, abort 401 ''authentication_error'' ''invalid API key'')
         else (case withGate gate (resolve apiKey) of
                 (gate, None) \<Rightarrow> (gate, abort 503 ''internal_error'' ''busy'')
               | (gate, Some (Inl err)) \<Rightarrow>
                   (gate, if errors_is err ErrStoreKeyNotFound
                          then abort 401 ''authentication_error'' ''invalid API key''
                          else abort 500 ''internal_error'' ''authentication unavailable'')
               | (gate, Some (Inr i)) \<Rightarrow> (gate, Inr i)))"

section \<open>Request bodies\<close>

text \<open>The body is \<open>None\<close> for a nil one; what passes carries the limit of \<open>MaxBytesReader\<close>.\<close>

definition BodyLimit ::
  "('d, 'n) registry \<Rightarrow> string \<Rightarrow> int \<Rightarrow> int \<Rightarrow> string option \<Rightarrow> client_write + int option" where
  "BodyLimit adapters protocol maxBytes contentLength body =
     (if maxBytes \<le> 0 \<or> body = None then Inr None
      else if contentLength > maxBytes
      then Inl (WriteError adapters protocol 413 ''invalid_request_error'' ''body too large'')
      else Inr (Some maxBytes))"

text \<open>Reading a body to its end through \<open>MaxBytesReader\<close>.\<close>

definition readLimited :: "int option \<Rightarrow> string \<Rightarrow> string result" where
  "readLimited limit body =
     (case limit of
        None \<Rightarrow> Inr body
      | Some n \<Rightarrow> if int (length body) > n then Inl (ErrOther ''too_large'') else Inr body)"

lemma body_within_limit:
  assumes "0 < maxBytes" "BodyLimit adapters protocol maxBytes contentLength (Some body) = Inr limit"
    and "readLimited limit body = Inr b"
  shows "b = body \<and> int (length b) \<le> maxBytes"
  using assms by (auto simp: BodyLimit_def readLimited_def split: if_splits)

section \<open>Metrics and probes\<close>

text \<open>\<open>ConstantTimeCompare\<close> is equality; \<open>False\<close> aborts with 401.\<close>

definition MetricsAuth :: "string \<Rightarrow> string \<Rightarrow> bool" where
  "MetricsAuth token auth \<longleftrightarrow>
     token = [] \<or> (let provided = (case bearerToken auth of None \<Rightarrow> [] | Some p \<Rightarrow> p) in provided = token)"

definition live :: client_write where
  "live = CJson 200 (JObj [(''status'', JStr ''ok'')])"

text \<open>\<open>ready\<close> is the injected check, \<open>None\<close> when there is none, and \<open>Some (Some err)\<close> when it fails.\<close>

definition readyz :: "goerr option option \<Rightarrow> client_write" where
  "readyz ready =
     (case ready of
        Some (Some err) \<Rightarrow> CJson 503 (JObj [(''status'', JStr ''not_ready'')])
      | _ \<Rightarrow> CJson 200 (JObj [(''status'', JStr ''ready'')]))"

definition listModels :: "int \<Rightarrow> string list \<Rightarrow> client_write" where
  "listModels now models = CJson 200 (JObj [(''object'', JStr ''list''),
     (''data'', JArr (map (\<lambda>m. JObj [(''id'', JStr m), (''object'', JStr ''model''), (''created'', JNum (intText now)),
        (''owned_by'', JStr ''linapi'')]) models))])"

section \<open>What authentication lets through\<close>

lemma withGate_gate: "(\<forall>g. gate = Some g \<longrightarrow> sem_ok g) \<Longrightarrow> fst (withGate gate x) = gate"
  by (cases gate) (auto simp: withGate_def TryAcquire_def Release_def)

lemma withGate_Some: "snd (withGate gate x) = Some y \<longleftrightarrow> y = x \<and> (case gate of None \<Rightarrow> True | Some g \<Rightarrow> sem_used g < sem_cap g)"
  by (cases gate) (auto simp: withGate_def TryAcquire_def)

text \<open>The identity is the store's, for the key of the request, and the gate is given back.\<close>

lemma authWithGate_Inr:
  "snd (authWithGate adapters protocol resolve gate hs) = Inr i \<longleftrightarrow>
     extractAPIKey hs \<noteq> [] \<and> length (extractAPIKey hs) \<le> maxAPIKeyBytes \<and>
     (case gate of None \<Rightarrow> True | Some g \<Rightarrow> sem_used g < sem_cap g) \<and> resolve (extractAPIKey hs) = Inr i"
  using withGate_Some [of gate "resolve (extractAPIKey hs)"]
  by (cases "withGate gate (resolve (extractAPIKey hs))")
     (auto simp: authWithGate_def Let_def split: option.splits sum.splits)

lemma authWithGate_gate:
  "(\<forall>g. gate = Some g \<longrightarrow> sem_ok g) \<Longrightarrow> fst (authWithGate adapters protocol resolve gate hs) = gate"
  using withGate_gate [of gate "resolve (extractAPIKey hs)"]
  by (cases "withGate gate (resolve (extractAPIKey hs))")
     (auto simp: authWithGate_def Let_def split: option.splits sum.splits)

end
