(* ===== verification/Startup.thy ===== *)
theory Startup
  imports PgAdmin RequestBody TargetPolicy
begin

text \<open>
  The start of the gateway: the parts of the configuration that it reads (\<open>internal/config/config.go\<close>), the
  checks and the construction in \<open>cmd/linapi/main.go\<close>, the channels of \<open>internal/forwarder/channels.go\<close> and
  the check of the Redis address in \<open>internal/redisx\<close>. A \<open>log.Fatal\<close> is the error of a result.
\<close>

section \<open>Configuration\<close>

record channel_config =
  cc_ID :: string
  cc_Name :: string
  cc_Format :: string
  cc_BaseURL :: string
  cc_APIKey :: string
  cc_Models :: "(string, string) gomap option"
  cc_Priority :: int
  cc_Weight :: int
  cc_Enabled :: bool

record server_config =
  sg_Mode :: string
  sg_ReadTimeoutSeconds :: int
  sg_IdleTimeoutSeconds :: int
  sg_MaxRequestBodyBytes :: int
  sg_MaxHeaderBytes :: int
  sg_MetricsToken :: string
  sg_MetricsMaxRequestsInFlight :: int
  sg_MetricsTimeoutSeconds :: int

record database_config =
  dg_Enabled :: bool
  dg_MaxOpenConns :: int
  dg_MinIdleConns :: int
  dg_AutoMigrate :: bool
  dg_KeyID :: string
  dg_Key :: string
  dg_MigratePlaintext :: bool

record redis_config =
  rg_Addr :: string
  rg_TLSEnabled :: bool
  rg_AllowInsecureRemote :: bool

record key_config =
  kg_APIKey :: string
  kg_KeyID :: string
  kg_UserID :: string
  kg_RateLimitPerMin :: int
  kg_AllowedModels :: "string list"
  kg_Enabled :: bool
  kg_InitialBalance :: int

record auth_config =
  ug_Keys :: "key_config list"
  ug_UnauthenticatedRateLimitPerMin :: int
  ug_AccountRateLimitPerMin :: int

record admin_config =
  ag_Enabled :: bool
  ag_AuthRateLimitPerMin :: int
  ag_AuthIdentifierRateLimitPerMin :: int
  ag_MaxActiveSessionsPerAccount :: int

record model_price_config = model_policy +
  mc_Model :: string

record billing_config =
  bg_DefaultReserve :: int
  bg_Default :: model_policy
  bg_OpenAIOutputLimitFields :: "(string, string) gomap"
  bg_Models :: "model_price_config list"

record config =
  cfg_Server :: server_config
  cfg_Database :: database_config
  cfg_Redis :: redis_config
  cfg_Auth :: auth_config
  cfg_Admin :: admin_config
  cfg_Billing :: billing_config
  cfg_TargetRules :: "target_rule_config list"
  cfg_Channels :: "channel_config list"

definition release :: "config \<Rightarrow> bool" where
  "release cfg \<longleftrightarrow> sg_Mode (cfg_Server cfg) = ''release''"

text \<open>What \<open>Load\<close> yields without a file and an environment: \<open>setDefaults\<close>.\<close>

definition defaultConfig :: config where
  "defaultConfig =
     \<lparr>cfg_Server = \<lparr>sg_Mode = ''release'', sg_ReadTimeoutSeconds = 30, sg_IdleTimeoutSeconds = 120,
        sg_MaxRequestBodyBytes = 32 * 1024 * 1024, sg_MaxHeaderBytes = 64 * 1024, sg_MetricsToken = [],
        sg_MetricsMaxRequestsInFlight = 2, sg_MetricsTimeoutSeconds = 10\<rparr>,
      cfg_Database = \<lparr>dg_Enabled = False, dg_MaxOpenConns = 50, dg_MinIdleConns = 10, dg_AutoMigrate = True,
        dg_KeyID = [], dg_Key = [], dg_MigratePlaintext = False\<rparr>,
      cfg_Redis = \<lparr>rg_Addr = ''localhost:6379'', rg_TLSEnabled = False, rg_AllowInsecureRemote = False\<rparr>,
      cfg_Auth = \<lparr>ug_Keys = [], ug_UnauthenticatedRateLimitPerMin = 120, ug_AccountRateLimitPerMin = 10000\<rparr>,
      cfg_Admin = \<lparr>ag_Enabled = False, ag_AuthRateLimitPerMin = 30, ag_AuthIdentifierRateLimitPerMin = 20,
        ag_MaxActiveSessionsPerAccount = 10\<rparr>,
      cfg_Billing = \<lparr>bg_DefaultReserve = 10000,
        bg_Default = \<lparr>InputPer1M = 2000000, OutputPer1M = 6000000, CacheCreationInputPer1M = 2500000,
          CacheReadInputPer1M = 200000, MaxBillableInputTokens = 128000, MaxOutputTokens = 4096\<rparr>,
        bg_OpenAIOutputLimitFields = [], bg_Models = []\<rparr>,
      cfg_TargetRules = [], cfg_Channels = []\<rparr>"

section \<open>Checks\<close>

definition channelKeyCipherForConfig :: "(string \<Rightarrow> aead) \<Rightarrow> config option \<Rightarrow> channel_key_cipher option result" where
  "channelKeyCipherForConfig gcm cfg =
     (case cfg of
        None \<Rightarrow> Inr None
      | Some c \<Rightarrow>
          if \<not> dg_Enabled (cfg_Database c) then Inr None
          else map_sum id Some (NewChannelKeyCipher gcm (dg_KeyID (cfg_Database c)) (dg_Key (cfg_Database c))))"

definition releaseChecks :: "config \<Rightarrow> unit result" where
  "releaseChecks cfg =
     (let s = cfg_Server cfg; d = cfg_Database cfg; u = cfg_Auth cfg; a = cfg_Admin cfg in
      if release cfg \<and> \<not> dg_Enabled d then Inl (ErrOther ''release needs the database'')
      else if release cfg \<and> (sg_ReadTimeoutSeconds s \<le> 0 \<or> sg_IdleTimeoutSeconds s \<le> 0 \<or>
              sg_MaxRequestBodyBytes s \<le> 0 \<or> sg_MaxHeaderBytes s \<le> 0) then Inl (ErrOther ''server limits'')
      else if release cfg \<and> sg_MetricsToken s = [] then Inl (ErrOther ''metrics token'')
      else if release cfg \<and> (sg_MetricsMaxRequestsInFlight s \<le> 0 \<or> sg_MetricsTimeoutSeconds s \<le> 0)
      then Inl (ErrOther ''metrics limits'')
      else if release cfg \<and> (ug_UnauthenticatedRateLimitPerMin u \<le> 0 \<or> ug_AccountRateLimitPerMin u \<le> 0)
      then Inl (ErrOther ''rate limits'')
      else if release cfg \<and> ag_Enabled a \<and> (ag_AuthRateLimitPerMin a \<le> 0 \<or>
              ag_AuthIdentifierRateLimitPerMin a \<le> 0 \<or> ag_MaxActiveSessionsPerAccount a \<le> 0)
      then Inl (ErrOther ''admin limits'')
      else if dg_MinIdleConns d < 0 \<or> dg_MaxOpenConns d \<le> 0 \<or> dg_MinIdleConns d > dg_MaxOpenConns d
      then Inl (ErrOther ''connections'')
      else Inr ())"

text \<open>\<open>net.ParseIP\<close> refuses a zone; \<open>IsLoopback\<close> of the package sees through a mapped address.\<close>

definition ValidateSecurity :: "netlib \<Rightarrow> redis_config \<Rightarrow> bool \<Rightarrow> unit result" where
  "ValidateSecurity nl cfg rel =
     (if \<not> rel \<or> rg_TLSEnabled cfg \<or> rg_AllowInsecureRemote cfg then Inr ()
      else (case SplitHostPort (rg_Addr cfg) of
              None \<Rightarrow> Inl (ErrOther ''redis address'')
            | Some (host, port) \<Rightarrow>
                if host = ''localhost'' then Inr ()
                else (case nl_ParseAddr nl host of
                        Some ip \<Rightarrow>
                          if IsLoopback (Unmap ip) \<and> (case ip of IPv6 w zone \<Rightarrow> zone = [] | IPv4 w \<Rightarrow> True) then Inr ()
                          else Inl (ErrOther ''redis without TLS'')
                      | None \<Rightarrow> Inl (ErrOther ''redis without TLS''))))"

section \<open>Construction\<close>

definition ChannelsFromConfig :: "channel_config list \<Rightarrow> channel list" where
  "ChannelsFromConfig cs = map (\<lambda>c. \<lparr>ch_ID = cc_ID c, ch_Name = cc_Name c, ch_Format = cc_Format c,
     ch_BaseURL = cc_BaseURL c, ch_APIKey = cc_APIKey c, ch_Models = orEmpty (cc_Models c),
     ch_Priority = cc_Priority c, ch_Weight = cc_Weight c, ch_Enabled = cc_Enabled c\<rparr>) cs"

definition configToAdminChannels :: "channel_config list \<Rightarrow> admin_channel list" where
  "configToAdminChannels cs = map (\<lambda>c. \<lparr>cn_ChannelID = cc_ID c, cn_Name = cc_Name c, cn_Format = cc_Format c,
     cn_BaseURL = cc_BaseURL c, cn_APIKey = cc_APIKey c, cn_Models = Some (orEmpty (cc_Models c)),
     cn_Priority = cc_Priority c, cn_Weight = cc_Weight c, cn_Enabled = cc_Enabled c,
     cn_CreatedAt = 0, cn_UpdatedAt = 0\<rparr>) cs"

definition buildKeySeeds :: "auth_config \<Rightarrow> key_seed list" where
  "buildKeySeeds auth = map (\<lambda>k. \<lparr>ks_APIKey = kg_APIKey k, ks_KeyID = kg_KeyID k, ks_UserID = kg_UserID k,
     ks_RateLimitPerMin = kg_RateLimitPerMin k, ks_AllowedModels = kg_AllowedModels k, ks_Enabled = kg_Enabled k,
     ks_InitialBalance = kg_InitialBalance k\<rparr>) (ug_Keys auth)"

definition buildBilling :: "billing_config \<Rightarrow> bool \<Rightarrow> billing" where
  "buildBilling cfg strict =
     (let models = foldl (\<lambda>m p. mput (mc_Model p) (model_policy.truncate p) m) [] (bg_Models cfg);
          pricing = (if strict then NewStrictPricingWithPolicies models (bg_Default cfg)
                     else NewPricingWithPolicies models (bg_Default cfg))
      in BillingNew pricing (bg_DefaultReserve cfg))"

text \<open>Of the channels of the database only the enabled ones are routed at first.\<close>

definition initialChannels :: "admin_channel list \<Rightarrow> channel list" where
  "initialChannels stored = filter ch_Enabled (ChannelsToRouting stored)"

text \<open>The channels of a start on the database: the migration of the credentials, the constraint, the list.\<close>

definition loadStoredChannels ::
  "pg_store \<Rightarrow> database_config \<Rightarrow> admin_env \<Rightarrow> admin_env \<Rightarrow> admin_env \<Rightarrow> pg_admin \<Rightarrow> pg_admin \<times> channel list result" where
  "loadStoredChannels ps cfg e1 e2 e3 d =
     (case MigrateChannelAPIKeys e1 (ps_channelKeys ps) (dg_MigratePlaintext cfg) d of
        (d, Inl err) \<Rightarrow> (d, Inl err)
      | (d, Inr n) \<Rightarrow>
          (case (if dg_AutoMigrate cfg then ValidateChannelKeyEnvelopeConstraint e2 d else Inr ()) of
             Inl err \<Rightarrow> (d, Inl err)
           | Inr u \<Rightarrow> (d, map_sum id initialChannels (PgListChannels ps e3 d))))"

definition unpriced :: "billing \<Rightarrow> channel list \<Rightarrow> goerr option" where
  "unpriced b chs =
     (case List.map_filter (ValidateModel b) (concat (map (\<lambda>ch. map fst (ch_Models ch)) chs)) of
        [] \<Rightarrow> None
      | err # _ \<Rightarrow> Some err)"

text \<open>The channel check that the management service gets: the target policy and the output limits.\<close>

definition mainValidateChannel :: "netlib \<Rightarrow> target_policy \<Rightarrow> resolver \<Rightarrow> channel \<Rightarrow> goerr option" where
  "mainValidateChannel nl p limits ch =
     (case PolicyValidateChannel nl p ch of
        Some err \<Rightarrow> Some err
      | None \<Rightarrow> ValidateChannel (Some limits) ch)"

record gateway_parts =
  gp_billing :: billing
  gp_limits :: resolver
  gp_policy :: target_policy
  gp_router :: router

text \<open>From the channels to the router; the recovery of the ledger comes between the prices and the
  limits and does not change the parts.\<close>

definition buildGateway :: "netlib \<Rightarrow> config \<Rightarrow> channel list \<Rightarrow> gateway_parts result" where
  "buildGateway nl cfg chs =
     (let b = buildBilling (cfg_Billing cfg) (release cfg) in
      case (if release cfg then unpriced b chs else None) of
        Some err \<Rightarrow> Inl err
      | None \<Rightarrow>
     (case NewOpenAIOutputLimitResolver (bg_OpenAIOutputLimitFields (cfg_Billing cfg)) (release cfg) of
        Inl err \<Rightarrow> Inl err
      | Inr limits \<Rightarrow>
     (case (if release cfg then ValidateChannels (Some limits) chs else None) of
        Some err \<Rightarrow> Inl err
      | None \<Rightarrow>
     (case NewUpstreamTargetPolicy nl (cfg_TargetRules cfg) (release cfg) of
        Inl err \<Rightarrow> Inl err
      | Inr p \<Rightarrow>
     (case PolicyValidateChannels nl p chs of
        Some err \<Rightarrow> Inl err
      | None \<Rightarrow> Inr \<lparr>gp_billing = b, gp_limits = limits, gp_policy = p,
                  gp_router = NewRouter chs DefaultBreakerConfig\<rparr>)))))"

section \<open>What a start guarantees\<close>

text \<open>The defaults alone do not start a gateway.\<close>

lemma defaults_refused: "releaseChecks defaultConfig = Inl (ErrOther ''release needs the database'')"
  by (simp add: releaseChecks_def defaultConfig_def release_def Let_def)

lemma PolicyValidateChannels_None:
  "PolicyValidateChannels nl p chs = None \<Longrightarrow> ch \<in> set chs \<Longrightarrow> ch_Enabled ch \<Longrightarrow> PolicyValidateChannel nl p ch = None"
  by (induction chs) (auto split: if_splits option.splits)

lemma ValidateChannels_None: "ValidateChannels r chs = None \<Longrightarrow> ch \<in> set chs \<Longrightarrow> ValidateChannel r ch = None"
  by (induction chs) (auto split: option.splits)

lemma unpriced_None:
  assumes "unpriced b chs = None" "ch \<in> set chs" "m \<in> fst ` set (ch_Models ch)"
  shows "ValidateModel b m = None"
proof -
  have "List.map_filter f xs = [] \<Longrightarrow> x \<in> set xs \<Longrightarrow> f x = None" for f :: "string \<Rightarrow> goerr option" and xs x
    by (induction xs) (auto simp: List.map_filter_simps split: option.splits)
  then show ?thesis using assms by (force simp: unpriced_def split: list.splits)
qed

text \<open>A release start serves only channels that pass the check of the management service, whose models
  all have a complete price.\<close>

lemma release_start:
  assumes "release cfg" "buildGateway nl cfg (initialChannels stored) = Inr g" "c \<in> set stored" "cn_Enabled c"
  shows "mainValidateChannel nl (gp_policy g) (gp_limits g) (ChannelToRouting c) = None \<and>
    (\<forall>m \<in> fst ` set (orEmpty (cn_Models c)). ValidateModel (gp_billing g) m = None)"
proof -
  have mem: "ChannelToRouting c \<in> set (initialChannels stored)" "ch_Enabled (ChannelToRouting c)"
      "ch_Models (ChannelToRouting c) = orEmpty (cn_Models c)"
    using assms(3,4) by (auto simp: initialChannels_def ChannelsToRouting_def ChannelToRouting_def)
  have g: "unpriced (gp_billing g) (initialChannels stored) = None"
      "ValidateChannels (Some (gp_limits g)) (initialChannels stored) = None"
      "PolicyValidateChannels nl (gp_policy g) (initialChannels stored) = None"
    using assms(1,2) by (auto simp: buildGateway_def Let_def split: option.splits sum.splits)
  show ?thesis
    using PolicyValidateChannels_None [OF g(3) mem(1,2)] ValidateChannels_None [OF g(2) mem(1)] unpriced_None [OF g(1) mem(1)] mem(3)
    by (auto simp: mainValidateChannel_def)
qed

end
