(* ===== verification/Migrations.thy ===== *)
theory Migrations
  imports "HOL-Library.Multiset" GoStrings Billing PgLedger
begin

text \<open>
  The versions of the database schema, \<open>internal/db/pool.go\<close>: the embedded migrations, what a start with
  \<open>auto_migrate\<close> applies in one transaction, and what a start without it verifies.

  The schema itself and what a script makes of it are parameters (\<open>sql_engine\<close>), and so is SHA-256. The
  database keeps the schema and the table of the applied versions, \<open>None\<close> when that table is missing. The
  advisory lock serialises the transactions, so one call works on one state.
\<close>

section \<open>The embedded migrations\<close>

record migration =
  mg_Version :: int
  mg_Name :: string
  mg_SQL :: string
  mg_Checksum :: string

record embedded_file =
  ef_Name :: string
  ef_IsDir :: bool
  ef_Body :: "string result"

text \<open>\<open>strings.Cut\<close> at a byte.\<close>

definition CutByte :: "char \<Rightarrow> string \<Rightarrow> string \<times> string \<times> bool" where
  "CutByte c s =
     (case dropWhile (\<lambda>x. x \<noteq> c) s of
        [] \<Rightarrow> (s, [], False)
      | _ # rest \<Rightarrow> (takeWhile (\<lambda>x. x \<noteq> c) s, rest, True))"

definition readMigration ::
  "(string \<Rightarrow> 8 word list) \<Rightarrow> int set \<Rightarrow> embedded_file \<Rightarrow> migration result" where
  "readMigration sha256 seen f =
     (case CutByte (CHR ''_'') (TrimSuffix (ef_Name f) ''.sql'') of (versionText, name, ok) \<Rightarrow>
        if \<not> ok \<or> name = [] then Inl (ErrOther ''migration_name'')
        else (case Atoi versionText of
                None \<Rightarrow> Inl (ErrOther ''migration_version'')
              | Some version \<Rightarrow>
                  if version \<le> 0 then Inl (ErrOther ''migration_version'')
                  else if version \<in> seen then Inl (ErrOther ''migration_duplicate'')
                  else (case ef_Body f of
                          Inl err \<Rightarrow> Inl err
                        | Inr body \<Rightarrow>
                            if TrimSpace body = [] then Inl (ErrOther ''migration_empty'')
                            else Inr \<lparr>mg_Version = version, mg_Name = name, mg_SQL = body,
                                   mg_Checksum = hexEncode (sha256 body)\<rparr>)))"

fun readMigrations ::
  "(string \<Rightarrow> 8 word list) \<Rightarrow> int set \<Rightarrow> embedded_file list \<Rightarrow> migration list result" where
  "readMigrations sha256 seen [] = Inr []"
| "readMigrations sha256 seen (f # fs) =
     (if ef_IsDir f \<or> \<not> HasSuffix (ef_Name f) ''.sql'' then readMigrations sha256 seen fs
      else (case readMigration sha256 seen f of
              Inl err \<Rightarrow> Inl err
            | Inr m \<Rightarrow> map_sum id (\<lambda>ms. m # ms) (readMigrations sha256 (insert (mg_Version m) seen) fs)))"

definition loadMigrations ::
  "(string \<Rightarrow> 8 word list) \<Rightarrow> embedded_file list result \<Rightarrow> migration list result" where
  "loadMigrations sha256 dir =
     (case dir of
        Inl err \<Rightarrow> Inl err
      | Inr files \<Rightarrow>
          (case readMigrations sha256 {} files of
             Inl err \<Rightarrow> Inl err
           | Inr ms \<Rightarrow> if ms = [] then Inl (ErrOther ''no_migrations'') else Inr (sort_key mg_Version ms)))"

section \<open>The database\<close>

record 's sql_engine =
  eg_run :: "string \<Rightarrow> 's \<Rightarrow> 's option"
  eg_hasUsers :: "'s \<Rightarrow> bool"
  eg_schemaSQL :: string

record 's schema_db =
  sc_schema :: 's
  sc_applied :: "(int, string \<times> string) gomap option"

datatype mig_stmt = MGBegin | MGLock | MGCreate | MGRead | MGProbe | MGInit | MGRun int | MGRecord int

record mig_env =
  gv_fail :: "mig_stmt \<Rightarrow> bool"
  gv_commit :: commit_outcome

definition migStmt :: "mig_env \<Rightarrow> mig_stmt \<Rightarrow> 'a result \<Rightarrow> 'a result" where
  "migStmt e st r = (if gv_fail e st then Inl (ErrPg ''statement'') else r)"

definition validateAppliedMigrations :: "(int, string \<times> string) gomap \<Rightarrow> migration list \<Rightarrow> unit result" where
  "validateAppliedMigrations applied known =
     (let knownByVersion = foldl (\<lambda>k m. mput (mg_Version m) (mg_Name m, mg_Checksum m) k) [] known
      in if list_ex (\<lambda>(v, got). map_of knownByVersion v \<noteq> Some got) applied then Inl (ErrOther ''migration_mismatch'')
         else Inr ())"

definition recordMigration :: "mig_env \<Rightarrow> migration \<Rightarrow> 's schema_db \<Rightarrow> 's schema_db result" where
  "recordMigration e m d = migStmt e (MGRecord (mg_Version m))
     (let applied = (case sc_applied d of None \<Rightarrow> [] | Some a \<Rightarrow> a)
      in if mhas applied (mg_Version m) then Inl (ErrPg ''unique_violation'')
         else Inr (d\<lparr>sc_applied := Some (mput (mg_Version m) (mg_Name m, mg_Checksum m) applied)\<rparr>))"

definition runScript :: "'s sql_engine \<Rightarrow> mig_env \<Rightarrow> mig_stmt \<Rightarrow> string \<Rightarrow> 's schema_db \<Rightarrow> 's schema_db result" where
  "runScript eg e st sql d = migStmt e st
     (case eg_run eg sql (sc_schema d) of
        None \<Rightarrow> Inl (ErrPg ''statement'')
      | Some s \<Rightarrow> Inr (d\<lparr>sc_schema := s\<rparr>))"

fun recordAll :: "mig_env \<Rightarrow> migration list \<Rightarrow> 's schema_db \<Rightarrow> 's schema_db result" where
  "recordAll e [] d = Inr d"
| "recordAll e (m # ms) d = (case recordMigration e m d of Inl err \<Rightarrow> Inl err | Inr d \<Rightarrow> recordAll e ms d)"

fun applyPending ::
  "'s sql_engine \<Rightarrow> mig_env \<Rightarrow> (int, string \<times> string) gomap \<Rightarrow> migration list \<Rightarrow> 's schema_db \<Rightarrow> 's schema_db result" where
  "applyPending eg e applied [] d = Inr d"
| "applyPending eg e applied (m # ms) d =
     (if mhas applied (mg_Version m) then applyPending eg e applied ms d
      else (case runScript eg e (MGRun (mg_Version m)) (mg_SQL m) d of
              Inl err \<Rightarrow> Inl err
            | Inr d \<Rightarrow>
                (case recordMigration e m d of
                   Inl err \<Rightarrow> Inl err
                 | Inr d \<Rightarrow> applyPending eg e applied ms d)))"

text \<open>The statements between \<open>BEGIN\<close> and \<open>COMMIT\<close>.\<close>

definition migrateTx :: "'s sql_engine \<Rightarrow> mig_env \<Rightarrow> migration list \<Rightarrow> 's schema_db \<Rightarrow> 's schema_db result" where
  "migrateTx eg e migrations d =
     (if gv_fail e MGLock \<or> gv_fail e MGCreate \<or> gv_fail e MGRead then Inl (ErrPg ''statement'')
      else
        let applied = (case sc_applied d of None \<Rightarrow> [] | Some a \<Rightarrow> a); d = d\<lparr>sc_applied := Some applied\<rparr> in
        (case validateAppliedMigrations applied migrations of
           Inl err \<Rightarrow> Inl err
         | Inr u \<Rightarrow>
             if gv_fail e MGProbe then Inl (ErrPg ''statement'')
             else if \<not> eg_hasUsers eg (sc_schema d)
             then (if applied \<noteq> [] then Inl (ErrOther ''core_missing'')
                   else (case runScript eg e MGInit (eg_schemaSQL eg) d of
                           Inl err \<Rightarrow> Inl err
                         | Inr d \<Rightarrow> recordAll e migrations d))
             else applyPending eg e applied migrations d))"

definition ApplySchema ::
  "'s sql_engine \<Rightarrow> mig_env \<Rightarrow> migration list \<Rightarrow> 's schema_db \<Rightarrow> 's schema_db \<times> unit result" where
  "ApplySchema eg e migrations d =
     (if gv_fail e MGBegin then (d, Inl (ErrPg ''begin''))
      else (case migrateTx eg e migrations d of
              Inl err \<Rightarrow> (d, Inl err)
            | Inr d' \<Rightarrow>
                (case gv_commit e of
                   CommitOk \<Rightarrow> (d', Inr ())
                 | CommitLost \<Rightarrow> (d, Inl (ErrPg ''commit''))
                 | CommitUnknown \<Rightarrow> (d', Inl (ErrPg ''commit'')))))"

definition VerifySchema :: "mig_env \<Rightarrow> migration list \<Rightarrow> 's schema_db \<Rightarrow> unit result" where
  "VerifySchema e migrations d =
     (case sc_applied d of
        None \<Rightarrow> Inl (ErrPg ''undefined_table'')
      | Some applied \<Rightarrow>
          if gv_fail e MGRead then Inl (ErrPg ''statement'')
          else (case validateAppliedMigrations applied migrations of
                  Inl err \<Rightarrow> Inl err
                | Inr u \<Rightarrow>
                    if list_ex (\<lambda>m. \<not> mhas applied (mg_Version m)) migrations then Inl (ErrOther ''migration_missing'')
                    else Inr ()))"

section \<open>Every migration once\<close>

text \<open>What \<open>loadMigrations\<close> returns: distinct versions in order.\<close>

lemma readMigrations_versions:
  "readMigrations sha256 seen fs = Inr ms \<Longrightarrow> distinct (map mg_Version ms) \<and> (\<forall>m \<in> set ms. mg_Version m \<notin> seen \<and> 0 < mg_Version m)"
proof (induction sha256 seen fs arbitrary: ms rule: readMigrations.induct)
  case (2 sha256 seen f fs)
  show ?case
  proof (cases "ef_IsDir f \<or> \<not> HasSuffix (ef_Name f) ''.sql''")
    case False
    then obtain m where m: "readMigration sha256 seen f = Inr m" using 2(3) by (auto split: sum.splits)
    then have v: "mg_Version m \<notin> seen" "0 < mg_Version m"
      by (auto simp: readMigration_def split: prod.splits option.splits sum.splits if_splits)
    obtain rest where "readMigrations sha256 (insert (mg_Version m) seen) fs = Inr rest" "ms = m # rest"
      using 2(3) False m by (cases "readMigrations sha256 (insert (mg_Version m) seen) fs") auto
    then show ?thesis using 2(2) [OF False m] v by auto
  qed (use 2 in auto)
qed simp

lemma loadMigrations_versions:
  "loadMigrations sha256 dir = Inr ms \<Longrightarrow> ms \<noteq> [] \<and> sorted (map mg_Version ms) \<and> distinct (map mg_Version ms)"
proof -
  assume l: "loadMigrations sha256 dir = Inr ms"
  then obtain files xs where x: "readMigrations sha256 {} files = Inr xs" "xs \<noteq> []" "ms = sort_key mg_Version xs"
    by (auto simp: loadMigrations_def split: sum.splits if_splits)
  have "mset (map mg_Version ms) = mset (map mg_Version xs)" by (simp only: x(3) mset_map mset_sort)
  then have "distinct (map mg_Version ms)" using readMigrations_versions [OF x(1)] mset_eq_imp_distinct_iff by blast
  moreover have "length ms = length xs" by (simp add: x(3))
  then have "ms \<noteq> []" using x(2) by (metis length_0_conv)
  ultimately show ?thesis by (simp add: x(3))
qed

text \<open>The scripts: the initial schema has the users, and no migration drops them.\<close>

definition engine_ok :: "'s sql_engine \<Rightarrow> migration list \<Rightarrow> bool" where
  "engine_ok eg ms \<longleftrightarrow> (\<forall>s s'. eg_run eg (eg_schemaSQL eg) s = Some s' \<longrightarrow> eg_hasUsers eg s') \<and>
     (\<forall>m \<in> set ms. \<forall>s s'. eg_hasUsers eg s \<longrightarrow> eg_run eg (mg_SQL m) s = Some s' \<longrightarrow> eg_hasUsers eg s')"

definition appliedOf :: "'s schema_db \<Rightarrow> int \<Rightarrow> (string \<times> string) option" where
  "appliedOf d = (case sc_applied d of None \<Rightarrow> Map.empty | Some a \<Rightarrow> map_of a)"

definition stamp :: "migration list \<Rightarrow> int \<Rightarrow> (string \<times> string) option" where
  "stamp ms = map_of (map (\<lambda>m. (mg_Version m, mg_Name m, mg_Checksum m)) ms)"

lemma stamp_simps [simp]: "stamp [] = Map.empty" "stamp (m # ms) = (stamp ms)(mg_Version m \<mapsto> (mg_Name m, mg_Checksum m))"
  by (simp_all add: stamp_def)

lemma stamp_dom: "stamp ms v \<noteq> None \<longleftrightarrow> v \<in> mg_Version ` set ms"
  by (induction ms) auto

lemma known_versions:
  "distinct (map mg_Version ms) \<Longrightarrow>
     map_of (foldl (\<lambda>k m. mput (mg_Version m) (mg_Name m, mg_Checksum m) k) acc ms) = map_of acc ++ stamp ms"
proof (induction ms arbitrary: acc)
  case (Cons m ms)
  have "stamp ms (mg_Version m) = None" using Cons.prems stamp_dom [of ms "mg_Version m"] by auto
  then show ?case using Cons by (auto simp: fun_eq_iff map_add_def split: option.splits)
qed simp

lemma recordMigration_Inr:
  "recordMigration e m d = Inr d' \<Longrightarrow> appliedOf d (mg_Version m) = None \<and> sc_schema d' = sc_schema d \<and>
     sc_applied d' \<noteq> None \<and> appliedOf d' = (appliedOf d)(mg_Version m \<mapsto> (mg_Name m, mg_Checksum m))"
  by (cases "sc_applied d"; cases "map_of (the (sc_applied d)) (mg_Version m)")
     (auto simp: recordMigration_def migStmt_def appliedOf_def mhas_def Let_def split: if_splits)

lemma runScript_Inr:
  "runScript eg e st sql d = Inr d' \<Longrightarrow> eg_run eg sql (sc_schema d) = Some (sc_schema d') \<and> sc_applied d' = sc_applied d"
  by (auto simp: runScript_def migStmt_def split: if_splits option.splits)

lemma recordAll_Inr:
  "recordAll e ms d = Inr d' \<Longrightarrow> distinct (map mg_Version ms) \<Longrightarrow> sc_applied d \<noteq> None \<Longrightarrow>
     sc_schema d' = sc_schema d \<and> sc_applied d' \<noteq> None \<and> appliedOf d' = appliedOf d ++ stamp ms"
proof (induction ms arbitrary: d)
  case (Cons m ms)
  then obtain d1 where d1: "recordMigration e m d = Inr d1" "recordAll e ms d1 = Inr d'" by (auto split: sum.splits)
  note r = recordMigration_Inr [OF d1(1)]
  have "stamp ms (mg_Version m) = None" using Cons.prems(2) stamp_dom [of ms "mg_Version m"] by auto
  then show ?case using Cons.IH [OF d1(2)] Cons.prems(2) r by (auto simp: fun_eq_iff map_add_def split: option.splits)
qed simp

text \<open>The pending migrations: those that are not recorded are run and recorded.\<close>

lemma applyPending_Inr:
  assumes "applyPending eg e applied ms d = Inr d'" "distinct (map mg_Version ms)" "sc_applied d \<noteq> None"
    and "\<And>v. v \<in> mg_Version ` set ms \<Longrightarrow> appliedOf d v = map_of applied v" "engine_ok eg all" "set ms \<subseteq> set all"
    and "eg_hasUsers eg (sc_schema d)"
  shows "eg_hasUsers eg (sc_schema d') \<and> sc_applied d' \<noteq> None \<and>
    appliedOf d' = (\<lambda>v. if map_of applied v = None \<and> v \<in> mg_Version ` set ms then stamp ms v else appliedOf d v)"
  using assms
proof (induction ms arbitrary: d)
  case (Cons m ms)
  have out: "stamp ms (mg_Version m) = None" using Cons.prems(2) stamp_dom [of ms "mg_Version m"] by auto
  show ?case
  proof (cases "mhas applied (mg_Version m)")
    case True
    have "applyPending eg e applied ms d = Inr d'" using Cons.prems(1) True by simp
    from Cons.IH [OF this] True show ?thesis
      using Cons.prems(2-7) by (auto simp: mhas_def fun_eq_iff)
  next
    case False
    then obtain d1 d2 where d: "runScript eg e (MGRun (mg_Version m)) (mg_SQL m) d = Inr d1"
      "recordMigration e m d1 = Inr d2" "applyPending eg e applied ms d2 = Inr d'"
      using Cons.prems(1) by (auto split: sum.splits)
    note r = runScript_Inr [OF d(1)] and w = recordMigration_Inr [OF d(2)]
    have same: "appliedOf d1 = appliedOf d" using r by (simp add: appliedOf_def)
    have core: "eg_hasUsers eg (sc_schema d2)"
      using Cons.prems(5-7) r w by (auto simp: engine_ok_def)
    have "eg_hasUsers eg (sc_schema d') \<and> sc_applied d' \<noteq> None \<and>
        appliedOf d' = (\<lambda>v. if map_of applied v = None \<and> v \<in> mg_Version ` set ms then stamp ms v else appliedOf d2 v)"
      using Cons.prems(2-6) w same core by (intro Cons.IH [OF d(3)]) (auto simp: image_iff)
    then show ?thesis using w same False Cons.prems(2) out by (auto simp: fun_eq_iff mhas_def)
  qed
qed simp

lemma validate_iff:
  assumes "distinct (map mg_Version ms)" "mwf applied"
  shows "validateAppliedMigrations applied ms = Inr () \<longleftrightarrow> map_of applied \<subseteq>\<^sub>m stamp ms"
proof -
  have "map_of applied \<subseteq>\<^sub>m stamp ms \<longleftrightarrow> (\<forall>(v, got) \<in> set applied. stamp ms v = Some got)"
    using mget_set [OF assms(2)] by (force simp: map_le_def dom_def)
  then show ?thesis
    using known_versions [OF assms(1), of "[]"]
    by (auto simp: validateAppliedMigrations_def Let_def list_ex_iff)
qed

text \<open>Verified: every migration is recorded as it is.\<close>

definition upToDate :: "migration list \<Rightarrow> 's schema_db \<Rightarrow> bool" where
  "upToDate ms d \<longleftrightarrow> sc_applied d \<noteq> None \<and> appliedOf d = stamp ms"

definition schema_wf :: "'s schema_db \<Rightarrow> bool" where
  "schema_wf d \<longleftrightarrow> (\<forall>a. sc_applied d = Some a \<longrightarrow> mwf a)"

lemma verify_iff:
  assumes "distinct (map mg_Version ms)" "schema_wf d" "\<not> gv_fail e MGRead"
  shows "VerifySchema e ms d = Inr () \<longleftrightarrow> upToDate ms d"
proof (cases "sc_applied d")
  case (Some applied)
  have wf: "mwf applied" using assms(2) Some by (simp add: schema_wf_def)
  have all: "list_ex (\<lambda>m. \<not> mhas applied (mg_Version m)) ms \<longleftrightarrow> \<not> dom (stamp ms) \<subseteq> dom (map_of applied)"
    using stamp_dom [of ms] by (auto simp: list_ex_iff mhas_def dom_def)
  have "map_of applied \<subseteq>\<^sub>m stamp ms \<and> dom (stamp ms) \<subseteq> dom (map_of applied) \<longleftrightarrow> map_of applied = stamp ms"
    by (metis map_le_antisym map_le_def map_le_implies_dom_le domI subset_eq order_refl)
  then show ?thesis
    using Some assms(3) validate_iff [OF assms(1) wf] all
    by (cases "validateAppliedMigrations applied ms") (auto simp: VerifySchema_def upToDate_def appliedOf_def)
qed (simp add: VerifySchema_def upToDate_def)

lemma applyPending_none:
  "(\<And>m. m \<in> set ms \<Longrightarrow> mhas applied (mg_Version m)) \<Longrightarrow> applyPending eg e applied ms d = Inr d"
  by (induction ms) auto

lemma recordMigration_wf: "recordMigration e m d = Inr d' \<Longrightarrow> schema_wf d \<Longrightarrow> schema_wf d'"
  using mwf_mput [of "[] :: (int, string \<times> string) gomap"]
  by (auto simp: recordMigration_def migStmt_def schema_wf_def Let_def mwf_def [of "[]"] split: if_splits option.splits)

lemma recordAll_wf: "recordAll e ms d = Inr d' \<Longrightarrow> schema_wf d \<Longrightarrow> schema_wf d'"
  by (induction ms arbitrary: d) (auto split: sum.splits dest: recordMigration_wf)

lemma runScript_wf: "runScript eg e st sql d = Inr d' \<Longrightarrow> schema_wf d \<Longrightarrow> schema_wf d'"
  by (auto dest!: runScript_Inr simp: schema_wf_def)

lemma applyPending_wf: "applyPending eg e applied ms d = Inr d' \<Longrightarrow> schema_wf d \<Longrightarrow> schema_wf d'"
  by (induction ms arbitrary: d) (auto split: sum.splits if_splits dest: recordMigration_wf runScript_wf)

lemma migrateTx_wf:
  assumes "schema_wf d" "migrateTx eg e ms d = Inr d'"
  shows "schema_wf d'"
proof -
  have "schema_wf (d\<lparr>sc_applied := Some (case sc_applied d of None \<Rightarrow> [] | Some a \<Rightarrow> a)\<rparr>)"
    using assms(1) by (cases "sc_applied d") (auto simp: schema_wf_def mwf_def)
  then show ?thesis using assms(2)
    by (auto simp: migrateTx_def Let_def split: if_splits sum.splits dest: recordAll_wf runScript_wf applyPending_wf)
qed

lemma migrateTx_Inr:
  assumes "engine_ok eg ms" "distinct (map mg_Version ms)" "schema_wf d" "migrateTx eg e ms d = Inr d'"
  shows "upToDate ms d' \<and> eg_hasUsers eg (sc_schema d') \<and> (upToDate ms d \<and> eg_hasUsers eg (sc_schema d) \<longrightarrow> d' = d)"
proof -
  define applied where "applied = (case sc_applied d of None \<Rightarrow> [] | Some a \<Rightarrow> a)"
  define d0 where "d0 = d\<lparr>sc_applied := Some applied\<rparr>"
  have wf: "mwf applied" using assms(3) by (cases "sc_applied d") (auto simp: applied_def schema_wf_def mwf_def)
  have d0: "sc_applied d0 \<noteq> None" "appliedOf d0 = map_of applied" "sc_schema d0 = sc_schema d"
    by (simp_all add: d0_def appliedOf_def)
  have tx: "validateAppliedMigrations applied ms = Inr ()"
    "(if \<not> eg_hasUsers eg (sc_schema d) then if applied \<noteq> [] then Inl (ErrOther ''core_missing'')
      else case runScript eg e MGInit (eg_schemaSQL eg) d0 of Inl err \<Rightarrow> Inl err | Inr d \<Rightarrow> recordAll e ms d
      else applyPending eg e applied ms d0) = Inr d'"
    using assms(4) d0(3) unfolding migrateTx_def Let_def applied_def [symmetric] d0_def [symmetric]
    by (simp_all only: split: if_split_asm sum.split_asm) simp_all
  have le: "map_of applied \<subseteq>\<^sub>m stamp ms" using tx(1) validate_iff [OF assms(2) wf] by simp
  show ?thesis
  proof (cases "eg_hasUsers eg (sc_schema d)")
    case False
    then obtain d1 where d1: "applied = []" "runScript eg e MGInit (eg_schemaSQL eg) d0 = Inr d1" "recordAll e ms d1 = Inr d'"
      using tx(2) by (cases "runScript eg e MGInit (eg_schemaSQL eg) d0") (auto split: if_splits)
    note r = runScript_Inr [OF d1(2)]
    have "appliedOf d1 = Map.empty" using r d0 d1(1) by (simp add: appliedOf_def)
    then show ?thesis
      using recordAll_Inr [OF d1(3) assms(2)] r d0 assms(1) False by (auto simp: upToDate_def engine_ok_def)
  next
    case True
    then have p: "applyPending eg e applied ms d0 = Inr d'" using tx(2) by simp
    note a = applyPending_Inr [OF p assms(2) d0(1) fun_cong [OF d0(2)] assms(1) order_refl True [folded d0(3)], unfolded d0(2)]
    have "appliedOf d' = (\<lambda>v. if map_of applied v = None \<and> v \<in> mg_Version ` set ms then stamp ms v else map_of applied v)"
      using a by blast
    moreover have "map_of applied v = stamp ms v" if "\<not> (map_of applied v = None \<and> v \<in> mg_Version ` set ms)" for v
    proof (cases "map_of applied v")
      case None
      then show ?thesis using that stamp_dom [of ms v] by metis
    next
      case (Some x)
      then show ?thesis using le by (metis map_le_def domI)
    qed
    ultimately have "appliedOf d' = stamp ms" by (auto simp: fun_eq_iff)
    moreover have "d' = d" if u: "upToDate ms d"
    proof -
      obtain x where x: "sc_applied d = Some x" "map_of x = stamp ms" using u by (auto simp: upToDate_def appliedOf_def)
      then have "d0 = d" "\<And>m. m \<in> set ms \<Longrightarrow> mhas applied (mg_Version m)"
        using stamp_dom [of ms] by (auto simp: d0_def applied_def mhas_def)
      then show ?thesis using p applyPending_none [of ms applied eg e d0] by simp
    qed
    ultimately show ?thesis using a by (auto simp: upToDate_def)
  qed
qed

definition lawfulEngine :: "string list sql_engine" where
  "lawfulEngine = \<lparr>eg_run = (\<lambda>sql s. if sql = ''bad'' then None else Some (s @ [sql])), eg_hasUsers = (\<lambda>s. s \<noteq> []),
     eg_schemaSQL = ''schema''\<rparr>"

definition exampleFiles :: "embedded_file list" where
  "exampleFiles = [\<lparr>ef_Name = ''0002_b.sql'', ef_IsDir = False, ef_Body = Inr ''two''\<rparr>,
     \<lparr>ef_Name = ''0001_a.sql'', ef_IsDir = False, ef_Body = Inr ''one''\<rparr>]"

definition exampleMigrations :: "migration list" where
  "exampleMigrations = [\<lparr>mg_Version = 1, mg_Name = ''a'', mg_SQL = ''one'', mg_Checksum = []\<rparr>,
     \<lparr>mg_Version = 2, mg_Name = ''b'', mg_SQL = ''two'', mg_Checksum = []\<rparr>]"

definition quietEnv :: mig_env where
  "quietEnv = \<lparr>gv_fail = (\<lambda>st. False), gv_commit = CommitOk\<rparr>"

text \<open>An old database, at version 1.\<close>

definition exampleOld :: "string list schema_db" where
  "exampleOld = \<lparr>sc_schema = [''old''], sc_applied = Some [(1, ''a'', [])]\<rparr>"

lemma example_load: "loadMigrations (\<lambda>s. []) (Inr exampleFiles) = Inr exampleMigrations"
  by code_simp

lemma example_apply: "ApplySchema lawfulEngine quietEnv exampleMigrations exampleOld =
    (\<lparr>sc_schema = [''old'', ''two''], sc_applied = Some [(1, ''a'', []), (2, ''b'', [])]\<rparr>, Inr ())"
  by (simp add: ApplySchema_def migrateTx_def quietEnv_def exampleOld_def exampleMigrations_def lawfulEngine_def
      validateAppliedMigrations_def runScript_def recordMigration_def migStmt_def mhas_def)

lemma example_engine: "engine_ok lawfulEngine exampleMigrations"
  by (simp add: engine_ok_def lawfulEngine_def exampleMigrations_def)



end
