(* ===== verification/AdminApiProps.thy ===== *)
theory AdminApiProps
  imports AdminApi PgAdminProps HttpEdge Startup ConsoleProps
begin

text \<open>
  What the handlers of \<open>AdminApi\<close> guarantee: a user's requests reach only that user's keys, within the
  limits, and no reply of the management interface depends on the credential of a channel. Then the
  properties of the management side on the production store, with a concrete database.
\<close>

declare decField.simps(2) [simp del] jsonDepth.simps(2) [simp del]

section \<open>A user's requests reach the user's keys\<close>

definition sameOwners :: "akeys \<Rightarrow> akeys \<Rightarrow> bool" where
  "sameOwners t t' \<longleftrightarrow> (\<forall>i k k'. t i = Some k \<longrightarrow> t' i = Some k' \<longrightarrow> ak_UserID k' = ak_UserID k)"

text \<open>Only keys of \<open>u\<close> change, and a key that appears is enabled and within the limits.\<close>

definition ownChange :: "string \<Rightarrow> akeys \<Rightarrow> akeys \<Rightarrow> bool" where
  "ownChange u t t' \<longleftrightarrow> (\<forall>i. t' i \<noteq> t i \<longrightarrow>
     (\<forall>k. t i = Some k \<longrightarrow> ak_UserID k = u) \<and> (\<forall>k. t' i = Some k \<longrightarrow> ak_UserID k = u \<and>
        (t i = None \<longrightarrow> ak_Enabled k \<and> 1 \<le> ak_RateLimitPerMin k \<and> ak_RateLimitPerMin k \<le> 5000)))"

fun ownOp :: "string \<Rightarrow> key_op \<Rightarrow> akeys \<Rightarrow> bool" where
  "ownOp u (KeyCreate inp) t \<longleftrightarrow> False"
| "ownOp u (KeyCreateLimited inp n) t \<longleftrightarrow> ik_UserID inp = u \<and> ik_Enabled inp \<and> n = 50 \<and>
     1 \<le> ik_RateLimitPerMin inp \<and> ik_RateLimitPerMin inp \<le> 5000"
| "ownOp u (KeyEnable i b) t \<longleftrightarrow> (\<forall>k. t i = Some k \<longrightarrow> ak_UserID k = u)"
| "ownOp u (KeyDelete i) t \<longleftrightarrow> (\<forall>k. t i = Some k \<longrightarrow> ak_UserID k = u)"

lemma ownedCount_update:
  assumes "keys_wf t"
  shows "ownedCount (t(i := new)) u \<le> ownedCount t u + (if t i = None \<and> new \<noteq> None then 1 else 0) \<or>
    (\<exists>k. t i = Some k \<and> ak_UserID k \<noteq> u)"
proof -
  define A where "A = {i. \<exists>k. t i = Some k \<and> ak_UserID k = u}"
  define B where "B = {j. \<exists>k. (t(i := new)) j = Some k \<and> ak_UserID k = u}"
  have fin: "finite A"
    using assms by (auto simp: A_def keys_wf_def intro: finite_subset [of _ "dom t"])
  have sub: "B \<subseteq> insert i A" "new = None \<Longrightarrow> B \<subseteq> A" "t i = Some k \<Longrightarrow> ak_UserID k = u \<Longrightarrow> i \<in> A" for k
    by (auto simp: A_def B_def split: if_splits)
  have "card B \<le> card A" if "B \<subseteq> A" using that fin by (rule card_mono [rotated])
  moreover have "card B \<le> card A + 1"
    using card_mono [OF _ sub(1)] fin by (simp add: card_insert_if split: if_splits)
  moreover have "B \<subseteq> A" if "i \<in> A" using that sub(1) by auto
  ultimately have "card B \<le> card A + (if t i = None \<and> new \<noteq> None then 1 else 0) \<or> (\<exists>k. t i = Some k \<and> ak_UserID k \<noteq> u)"
    using sub(2,3) by (cases "t i"; cases new) auto
  then show ?thesis by (simp only: ownedCount_def A_def B_def)
qed

lemma own_change:
  assumes "keys_wf t" "ownOp u op t" "keyChange b op t t' r"
  shows "ownChange u t t' \<and> (b \<and> ownedCount t u \<le> 50 \<longrightarrow> ownedCount t' u \<le> 50)"
proof (cases "t' = t")
  case False
  then obtain new where new: "keyEffect b op t new" "t' = t(keyTarget op := new)"
    using assms(3) by (auto simp: keyChange_def)
  then have "ownChange u t t'"
    using assms(2) by (cases op) (auto simp: ownChange_def inputKey_def)
  moreover have "ownedCount t' u \<le> 50" if "b" "ownedCount t u \<le> 50"
    using that new assms(2) ownedCount_update [OF assms(1), of "keyTarget op" new u]
    by (cases op) (auto split: if_splits)
  ultimately show ?thesis by simp
qed (simp add: ownChange_def)

definition replyStatus :: "reply \<Rightarrow> int" where
  "replyStatus rep = (case rp_write rep of CJson status j \<Rightarrow> status | CData status b \<Rightarrow> status | _ \<Rightarrow> 0)"

text \<open>What a request of \<open>/me\<close> may do: \<open>t\<close> are the keys that it finds, \<open>b\<close> says that the limit is enforced.\<close>

definition meConfined ::
  "(gotime \<Rightarrow> string) \<Rightarrow> bool \<Rightarrow> string \<Rightarrow> me_request \<Rightarrow> akeys \<Rightarrow> akeys \<Rightarrow> reply \<Rightarrow> bool" where
  "meConfined timeText b u req t t' rep \<longleftrightarrow> ownChange u t t' \<and>
     (b \<and> ownedCount t u \<le> 50 \<longrightarrow> ownedCount t' u \<le> 50) \<and>
     (req = MeListKeys \<longrightarrow> replyStatus rep \<noteq> 200 \<or>
        (\<exists>ks. rep = keyList timeText ks \<and> (\<forall>k \<in> set ks. ak_UserID k = u \<and> t (ak_KeyID k) = Some (keyView0 k))))"

lemma status_simps [simp]: "replyStatus (writeErrorJSON s x m) = s" "replyStatus (writeJSON s fs) = s"
  by (simp_all add: replyStatus_def writeErrorJSON_def writeJSON_def)

lemma ownChange_refl [simp]: "ownChange u t t"
  by (simp add: ownChange_def)

lemma meConfined_refl: "req \<noteq> MeListKeys \<Longrightarrow> meConfined timeText b u req t t rep"
  by (simp add: meConfined_def)

context key_store
begin

lemma owned:
  assumes "inv (svd_store seen)" "sv_ops (mh_svc h) = ops" "ownedKey h e sess i seen = Some k"
  shows "\<exists>k. keys (svd_store seen) i = Some k \<and> ak_UserID k = sessionExternalID sess"
proof -
  obtain ks where ks: "aop_ListAPIKeysByUser ops e (sessionExternalID sess) (svd_store seen) = Inr ks"
    "find (\<lambda>k. ak_KeyID k = i) ks = Some k"
    using assms(2,3) by (auto simp: ownedKey_def split: sum.splits)
  then have "k \<in> set ks" "ak_KeyID k = i" by (auto simp: find_Some_iff)
  then show ?thesis using list [OF assms(1) ks(1)] by (metis key_fields(2))
qed

text \<open>An operation of the store that is the user's own.\<close>

lemma own_exec:
  assumes "inv s" "ownOp u op (keys s)" "keyExec ops e op s = (s', r)"
  shows "inv s' \<and> ownChange u (keys s) (keys s') \<and> (serial e \<and> ownedCount (keys s) u \<le> 50 \<longrightarrow> ownedCount (keys s') u \<le> 50)"
  using exec [OF assms(1,3)] own_change [OF wf [OF assms(1)] assms(2)] by auto

lemma me_confined:
  assumes inv: "inv (svd_store seen)" "inv (svd_store st)"
    and owners: "sameOwners (keys (svd_store seen)) (keys (svd_store st))"
    and ops: "sv_ops (mh_svc h) = ops" and run: "meHandle h e sess req seen st = (st', rep)"
  shows "inv (svd_store st') \<and>
    meConfined (mh_timeText h) (serial (mv_call e)) (sessionExternalID sess) req (keys (svd_store st)) (keys (svd_store st')) rep"
proof (cases req)
  case MeProfile
  then show ?thesis using run inv by (simp add: meConfined_refl)
next
  case MeListKeys
  then have st: "st' = st" "rep = meListKeys h (mv_call e) sess st" using run by auto
  have "replyStatus rep \<noteq> 200 \<or> (\<exists>ks. rep = keyList (mh_timeText h) ks \<and>
      (\<forall>k \<in> set ks. ak_UserID k = sessionExternalID sess \<and> keys (svd_store st) (ak_KeyID k) = Some (keyView0 k)))"
    using ops list [OF inv(2)] unfolding st
    by (auto simp: meListKeys_def requireExternalID_def split: sum.splits)
  then show ?thesis using inv(2) by (simp add: st meConfined_def MeListKeys)
next
  case (MeCreateKey body)
  show ?thesis
  proof (cases "st' = st")
    case False
    note run = run [unfolded MeCreateKey, simplified, unfolded meCreateKey_def]
    from run False obtain q where body: "body = Some q"
      by (auto simp: requireExternalID_def split: option.splits if_splits)
    from run False obtain g where gen: "mv_gen e = Inr g"
      by (auto simp: requireExternalID_def split: option.splits sum.splits if_splits)
    have q: "map_prod id (adminReply (createdKey (mh_timeText h) (gk_APIKey g) False))
        (SvcCreateAPIKeyLimited (mh_svc h) (mv_call e) \<lparr>ik_APIKey = gk_APIKey g, ik_KeyID = gk_KeyID g,
           ik_UserID = sessionExternalID sess, ik_RateLimitPerMin = mq_RateLimitPerMin q,
           ik_AllowedModels = mq_AllowedModels q, ik_Enabled = True\<rparr> maxSelfKeysPerAccount st) = (st', rep)"
      "1 \<le> mq_RateLimitPerMin q" "mq_RateLimitPerMin q \<le> 5000"
      using run False unfolding body gen by (auto simp: requireExternalID_def self_limits split: if_splits)
    let ?op = "KeyCreateLimited \<lparr>ik_APIKey = gk_APIKey g, ik_KeyID = gk_KeyID g, ik_UserID = sessionExternalID sess,
      ik_RateLimitPerMin = mq_RateLimitPerMin q, ik_AllowedModels = mq_AllowedModels q, ik_Enabled = True\<rparr> 50"
    obtain r where "keyExec ops (mv_call e) ?op (svd_store st) = (svd_store st', r)"
      using q(1) ops by (auto simp: SvcCreateAPIKeyLimited_def self_limits map_prod_def split: prod.splits)
    from own_exec [OF inv(2) _ this, of "sessionExternalID sess"] q show ?thesis
      by (simp add: meConfined_def MeCreateKey)
  qed (use inv MeCreateKey in \<open>simp add: meConfined_refl\<close>)
next
  case (MeSetKeyEnabled i body)
  show ?thesis
  proof (cases "st' = st")
    case False
    then obtain k b where k: "ownedKey h (mv_check e) sess i seen = Some k" "bindEnabled body = Some b"
      using run MeSetKeyEnabled by (auto simp: meSetKeyEnabled_def split: option.splits)
    then obtain r where x: "keyExec ops (mv_call e) (KeyEnable i b) (svd_store st) = (svd_store st', r)"
      using run MeSetKeyEnabled ops by (auto simp: meSetKeyEnabled_def onStore_def map_prod_def split: prod.splits)
    have "ownOp (sessionExternalID sess) (KeyEnable i b) (keys (svd_store st))"
      using owned [OF inv(1) ops k(1)] owners by (auto simp: sameOwners_def)
    from own_exec [OF inv(2) this x] show ?thesis by (simp add: meConfined_def MeSetKeyEnabled)
  qed (use inv MeSetKeyEnabled in \<open>simp add: meConfined_refl\<close>)
next
  case (MeDeleteKey i)
  show ?thesis
  proof (cases "st' = st")
    case False
    then obtain k where k: "ownedKey h (mv_check e) sess i seen = Some k"
      using run MeDeleteKey by (auto simp: meDeleteKey_def split: option.splits)
    then obtain r where x: "keyExec ops (mv_call e) (KeyDelete i) (svd_store st) = (svd_store st', r)"
      using run MeDeleteKey ops by (auto simp: meDeleteKey_def split: prod.splits sum.splits)
    have "ownOp (sessionExternalID sess) (KeyDelete i) (keys (svd_store st))"
      using owned [OF inv(1) ops k] owners by (auto simp: sameOwners_def)
    from own_exec [OF inv(2) this x] show ?thesis by (simp add: meConfined_def MeDeleteKey)
  qed (use inv MeDeleteKey in \<open>simp add: meConfined_refl\<close>)
qed

end

section \<open>The credentials of channels are not shown\<close>

text \<open>A state and a request without their credentials.\<close>

definition hideKeys :: "mem_admin \<Rightarrow> mem_admin" where
  "hideKeys m = m\<lparr>mm_channels := map (\<lambda>(i, c). (i, sanitizeChannel c)) (mm_channels m)\<rparr>"

definition hideReq :: "channel_req \<Rightarrow> channel_req" where
  "hideReq q = q\<lparr>hq_APIKey := map_option (\<lambda>k. []) (hq_APIKey q)\<rparr>"

fun hideRequest :: "admin_request \<Rightarrow> admin_request" where
  "hideRequest (AdmCreateChannel body) = AdmCreateChannel (map_option hideReq body)"
| "hideRequest (AdmUpdateChannel i body) = AdmUpdateChannel i (map_option hideReq body)"
| "hideRequest req = req"

definition hideInput :: "channel_input \<Rightarrow> channel_input" where
  "hideInput inp = inp\<lparr>ci_APIKey := []\<rparr>"

lemma hide_simps [simp]:
  "mm_base (hideKeys m) = mm_base m"
  "map_of (mm_channels (hideKeys m)) i = map_option sanitizeChannel (map_of (mm_channels m) i)"
  "mhas (mm_channels (hideKeys m)) i = mhas (mm_channels m) i"
  "hideKeys (m\<lparr>mm_base := b\<rparr>) = (hideKeys m)\<lparr>mm_base := b\<rparr>"
  "hideKeys (m\<lparr>mm_channels := mput i c (mm_channels m)\<rparr>) =
     (hideKeys m)\<lparr>mm_channels := mput i (sanitizeChannel c) (mm_channels (hideKeys m))\<rparr>"
  "sanitizeChannel (sanitizeChannel c) = sanitizeChannel c"
  by (simp_all add: hideKeys_def map_of_map_snd mhas_def mput_map) (simp add: sanitizeChannel_def)

lemma hide_delete [simp]: "hideKeys (m\<lparr>mm_channels := mdel i (mm_channels m)\<rparr>) =
    (hideKeys m)\<lparr>mm_channels := mdel i (mm_channels (hideKeys m))\<rparr>"
proof -
  have "map (\<lambda>(i, c). (i, sanitizeChannel c)) (mdel i xs) = mdel i (map (\<lambda>(i, c). (i, sanitizeChannel c)) xs)" for xs
    by (induction xs) auto
  then show ?thesis by (simp add: hideKeys_def)
qed

lemma normalize_hide: "normalizeChannelInput (hideInput inp) = map_sum id hideInput (normalizeChannelInput inp)"
  by (simp add: normalizeChannelInput_def hideInput_def)

lemma sanitize_input [simp]: "sanitizeChannel (channelFromInput inp a b) = channelFromInput (hideInput inp) a b"
  by (simp add: sanitizeChannel_def channelFromInput_def hideInput_def)

lemma sanitize_fields [simp]:
  "cn_ChannelID (sanitizeChannel c) = cn_ChannelID c" "cn_CreatedAt (sanitizeChannel c) = cn_CreatedAt c"
  "cn_APIKey (sanitizeChannel c) = []" "cn_Priority (sanitizeChannel c) = cn_Priority c"
  "sanitizeChannel (c\<lparr>cn_Enabled := b, cn_UpdatedAt := now\<rparr>) = (sanitizeChannel c)\<lparr>cn_Enabled := b, cn_UpdatedAt := now\<rparr>"
  "ci_ChannelID (hideInput inp) = ci_ChannelID inp" "ci_APIKeySet (hideInput inp) = ci_APIKeySet inp"
  "hideInput (hideInput inp) = hideInput inp"
  by (simp_all add: sanitizeChannel_def hideInput_def)

text \<open>Hiding commutes with the operations of the memory store.\<close>

abbreviation hidden :: "mem_admin \<times> admin_channel result \<Rightarrow> mem_admin \<times> admin_channel result" where
  "hidden \<equiv> map_prod hideKeys (map_sum id sanitizeChannel)"

lemma hide_create: "MemCreateChannel now (hideInput inp) (hideKeys m) = hidden (MemCreateChannel now inp m)"
  by (cases "normalizeChannelInput inp") (simp_all add: MemCreateChannel_def normalize_hide Let_def)

lemma hide_update: "MemUpdateChannel now (hideInput inp) (hideKeys m) = hidden (MemUpdateChannel now inp m)"
proof (cases "normalizeChannelInput inp")
  case (Inr i)
  have "hideInput (i\<lparr>ci_APIKey := k\<rparr>) = hideInput i" for k by (simp add: hideInput_def)
  moreover have "(hideInput i)\<lparr>ci_APIKey := []\<rparr> = hideInput i" by (simp add: hideInput_def)
  ultimately show ?thesis
    using Inr by (cases "map_of (mm_channels m) (ci_ChannelID i)") (simp_all add: MemUpdateChannel_def normalize_hide Let_def)
qed (simp add: MemUpdateChannel_def normalize_hide)

lemma hide_enable: "MemSetChannelEnabled now i b (hideKeys m) = hidden (MemSetChannelEnabled now i b m)"
  by (cases "map_of (mm_channels m) i") (simp_all add: MemSetChannelEnabled_def Let_def)

lemma hide_get: "MemGetChannel now i (hideKeys m) = map_sum id sanitizeChannel (MemGetChannel now i m)"
  by (cases "map_of (mm_channels m) i") (simp_all add: MemGetChannel_def)

lemma hide_drop: "MemDeleteChannel now i (hideKeys m) = map_prod hideKeys id (MemDeleteChannel now i m)"
  by (simp add: MemDeleteChannel_def)

text \<open>The service: the router does not matter for the store and the reply.\<close>

definition outcome :: "'s served \<times> 'a \<Rightarrow> 's \<times> 'a" where
  "outcome q = (svd_store (fst q), snd q)"

lemma outcome_simps [simp]:
  "outcome (st, r) = (svd_store st, r)" "outcome (map_prod id f q) = map_prod id f (outcome q)"
  by (simp_all add: outcome_def)

lemma outcome_reload [simp]: "outcome (thenReload sv e q st) = q"
proof -
  have "svd_store (fst (ReloadChannels sv l st)) = svd_store st" for l st
    by (simp add: ReloadChannels_def split: option.splits sum.splits)
  then show ?thesis
    by (cases q; cases "snd q") (simp_all add: thenReload_def outcome_def reloadAfterWrite_def)
qed

text \<open>The code's services: no check, or the check that \<open>main\<close> makes.\<close>

definition policyService :: "netlib \<Rightarrow> target_policy \<Rightarrow> resolver \<Rightarrow> (gotime, mem_admin) service \<Rightarrow> bool" where
  "policyService nl p limits sv \<longleftrightarrow>
     sv_ops sv = memAdminStore \<and> sv_validateChannel sv \<in> {None, Some (mainValidateChannel nl p limits)}"

lemma resolveModels_hide: "resolveModels r (ch\<lparr>ch_APIKey := k\<rparr>) ms = resolveModels r ch ms"
  by (induction ms) (simp_all add: UpstreamModel_def split: sum.split)

lemma main_check_hide: "mainValidateChannel nl p limits (ch\<lparr>ch_APIKey := k\<rparr>) = mainValidateChannel nl p limits ch"
  by (simp add: mainValidateChannel_def PolicyValidateChannel_def ValidateChannel_def resolveModels_hide split: option.split)

lemma routing_hide:
  "ChannelToRouting (sanitizeChannel c) = (ChannelToRouting c)\<lparr>ch_APIKey := []\<rparr>"
  "ChannelToRouting ((sanitizeChannel c)\<lparr>cn_Enabled := b\<rparr>) = (ChannelToRouting (c\<lparr>cn_Enabled := b\<rparr>))\<lparr>ch_APIKey := []\<rparr>"
  by (simp_all add: ChannelToRouting_def sanitizeChannel_def)

lemma check_hide:
  assumes "policyService nl p limits sv"
  shows "validateChannels sv [ChannelToRouting (sanitizeChannel c)] = validateChannels sv [ChannelToRouting c]"
    "validateChannels sv [ChannelToRouting ((sanitizeChannel c)\<lparr>cn_Enabled := b\<rparr>)] =
     validateChannels sv [ChannelToRouting (c\<lparr>cn_Enabled := b\<rparr>)]"
  using assms unfolding routing_hide
  by (auto simp: policyService_def validateChannels_def main_check_hide)

lemma validate_hide:
  assumes "policyService nl p limits sv"
  shows "validateInput sv (hideInput inp) = validateInput sv inp"
proof -
  have "inputChannel (hideInput inp) = sanitizeChannel (inputChannel inp)"
    by (simp add: inputChannel_def hideInput_def sanitizeChannel_def)
  then show ?thesis using check_hide(1) [OF assms] by (simp add: validateInput_def)
qed

text \<open>Two states of the service whose stores agree up to the credentials.\<close>

abbreviation hiddenOut :: "mem_admin served \<times> admin_channel result \<Rightarrow> mem_admin \<times> admin_channel result" where
  "hiddenOut q \<equiv> hidden (outcome q)"

lemma svc_create_hide:
  assumes "policyService nl p limits sv"
  shows "hiddenOut (SvcCreateChannel sv e inp st) =
    (case validateInput sv (hideInput inp) of
       Some err \<Rightarrow> (hideKeys (svd_store st), Inl err)
     | None \<Rightarrow> MemCreateChannel (se_write e) (hideInput inp) (hideKeys (svd_store st)))"
  using assms
  by (simp add: SvcCreateChannel_def validate_hide [OF assms] hide_create policyService_def memAdminStore_def split: option.split)

lemma svc_update_hide:
  assumes "policyService nl p limits sv" "\<not> ci_APIKeySet inp \<longrightarrow> ci_APIKey inp = []"
  shows "hiddenOut (SvcUpdateChannel sv e inp st) =
    (case (if ci_APIKeySet inp then Inr ()
           else map_sum id (\<lambda>c. ()) (MemGetChannel (se_get e) (ci_ChannelID inp) (hideKeys (svd_store st)))) of
       Inl err \<Rightarrow> (hideKeys (svd_store st), Inl err)
     | Inr u \<Rightarrow>
         (case validateInput sv (hideInput inp) of
            Some err \<Rightarrow> (hideKeys (svd_store st), Inl err)
          | None \<Rightarrow> MemUpdateChannel (se_write e) (hideInput inp) (hideKeys (svd_store st))))"
proof -
  have ops: "sv_ops sv = memAdminStore" using assms(1) by (simp add: policyService_def)
  have key: "hideInput (inp\<lparr>ci_APIKey := k\<rparr>) = hideInput inp" for k by (simp add: hideInput_def)
  have upd: "hiddenOut (case validateInput sv i of Some err \<Rightarrow> (st, Inl err)
      | None \<Rightarrow> thenReload sv e (aop_UpdateChannel (sv_ops sv) (se_write e) i (svd_store st)) st) =
     (case validateInput sv (hideInput i) of Some err \<Rightarrow> (hideKeys (svd_store st), Inl err)
      | None \<Rightarrow> MemUpdateChannel (se_write e) (hideInput i) (hideKeys (svd_store st)))" for i
    by (simp add: validate_hide [OF assms(1)] hide_update ops memAdminStore_def split: option.split)
  show ?thesis
  proof (cases "ci_APIKeySet inp")
    case True
    then show ?thesis using upd [of inp] by (simp add: SvcUpdateChannel_def)
  next
    case False
    let ?got = "aop_GetChannel (sv_ops sv) (se_get e) (ci_ChannelID inp) (svd_store st)"
    have got: "?got = MemGetChannel (se_get e) (ci_ChannelID inp) (svd_store st)"
      by (simp add: ops memAdminStore_def)
    show ?thesis
    proof (cases ?got)
      case (Inl err)
      then show ?thesis using False assms(2) got by (simp add: SvcUpdateChannel_def hide_get)
    next
      case (Inr c)
      then show ?thesis using False assms(2) got upd [of "inp\<lparr>ci_APIKey := cn_APIKey c\<rparr>", unfolded key]
        by (simp add: SvcUpdateChannel_def hide_get)
    qed
  qed
qed

lemma svc_enable_hide:
  assumes "policyService nl p limits sv"
  shows "hiddenOut (SvcSetChannelEnabled sv e i b st) =
    (case (if b \<and> sv_validateChannel sv \<noteq> None
           then (case MemGetChannel (se_get e) i (hideKeys (svd_store st)) of
                   Inl err \<Rightarrow> Some err
                 | Inr c \<Rightarrow> validateChannels sv [ChannelToRouting (c\<lparr>cn_Enabled := True\<rparr>)])
           else None) of
       Some err \<Rightarrow> (hideKeys (svd_store st), Inl err)
     | None \<Rightarrow> MemSetChannelEnabled (se_write e) i b (hideKeys (svd_store st)))"
proof -
  have ops: "sv_ops sv = memAdminStore" using assms by (simp add: policyService_def)
  have "(case MemGetChannel (se_get e) i (hideKeys (svd_store st)) of Inl err \<Rightarrow> Some err
        | Inr c \<Rightarrow> validateChannels sv [ChannelToRouting (c\<lparr>cn_Enabled := True\<rparr>)]) =
      (case aop_GetChannel (sv_ops sv) (se_get e) i (svd_store st) of Inl err \<Rightarrow> Some err
        | Inr c \<Rightarrow> validateChannels sv [ChannelToRouting (c\<lparr>cn_Enabled := True\<rparr>)])"
    by (cases "MemGetChannel (se_get e) i (svd_store st)") (simp_all add: hide_get check_hide(2) [OF assms] ops memAdminStore_def)
  then show ?thesis
    by (simp only: SvcSetChannelEnabled_def) (simp add: hide_enable ops memAdminStore_def split: option.split)
qed

lemma svc_delete_hide:
  assumes "policyService nl p limits sv"
  shows "map_prod hideKeys id (outcome (SvcDeleteChannel sv e i st)) = MemDeleteChannel (se_write e) i (hideKeys (svd_store st))"
  using assms by (simp add: SvcDeleteChannel_def hide_drop policyService_def memAdminStore_def)

text \<open>The handlers. What is left of an outcome when the credentials in the store are hidden:\<close>

abbreviation shown :: "mem_admin served \<times> reply \<Rightarrow> mem_admin \<times> reply" where
  "shown q \<equiv> map_prod hideKeys id (outcome q)"

lemma reply_hide: "adminReply (channelReplyJSON t s) (map_sum id sanitizeChannel r) = adminReply (channelReplyJSON t s) r"
  by (cases r) (simp_all add: adminReply_def channelReplyJSON_def)

lemma shown_channel: "shown (map_prod id (adminReply (channelReplyJSON t s)) q) =
    map_prod id (adminReply (channelReplyJSON t s)) (hiddenOut q)"
  by (cases q) (simp add: reply_hide)

lemma shown_onBase: "shown (onStore (\<lambda>m. onBase f (g (mm_base m)) m) ok st) =
    map_prod id (adminReply ok) (onBase f (g (mm_base (hideKeys (svd_store st)))) (hideKeys (svd_store st)))"
  by (simp add: onStore_def onBase_def outcome_def map_prod_def split: prod.split)

text \<open>The operations that leave the channels alone.\<close>

lemma base_ops:
  "shown (onStore (MemCreateUser now inp) ok1 st) = map_prod id (adminReply ok1) (MemCreateUser now inp (hideKeys (svd_store st)))"
  "shown (onStore (MemSetUserEnabled now u b) ok1 st) = map_prod id (adminReply ok1) (MemSetUserEnabled now u b (hideKeys (svd_store st)))"
  "shown (onStore (MemAddBalance now u x) ok2 st) = map_prod id (adminReply ok2) (MemAddBalance now u x (hideKeys (svd_store st)))"
  "shown (onStore (MemCreateAPIKey now k) ok3 st) = map_prod id (adminReply ok3) (MemCreateAPIKey now k (hideKeys (svd_store st)))"
  "shown (onStore (MemSetAPIKeyEnabled now u b) ok3 st) = map_prod id (adminReply ok3) (MemSetAPIKeyEnabled now u b (hideKeys (svd_store st)))"
  by (simp_all add: onStore_def onBase_def outcome_def map_prod_def MemCreateUser_def MemSetUserEnabled_def MemAddBalance_def
      MemCreateAPIKey_def MemSetAPIKeyEnabled_def split: prod.split option.split)

lemma base_reads:
  "MemListUsers now l n (hideKeys m) = MemListUsers now l n m" "MemGetUser now u (hideKeys m) = MemGetUser now u m"
  "MemListAPIKeysByUser now u (hideKeys m) = MemListAPIKeysByUser now u m"
  by (simp_all add: MemListUsers_def MemGetUser_def MemListAPIKeysByUser_def)

lemma insort_image: "insort_key f (h x) (map h xs) = map h (insort_key f x xs)" if "\<And>x. f (h x) = f x"
  using that by (induction xs) auto

lemma sort_image: "sort_key f (map h xs) = map h (sort_key f xs)" if "\<And>x. f (h x) = f x"
  using that by (induction xs) (auto simp: insort_image)

lemma hide_list: "MemListChannels now (hideKeys m) = map_sum id (map sanitizeChannel) (MemListChannels now m)"
proof -
  have "map snd (mm_channels (hideKeys m)) = map sanitizeChannel (map snd (mm_channels m))"
    by (simp add: hideKeys_def comp_def case_prod_beta)
  then show ?thesis
    using sort_image [of channelOrder sanitizeChannel "map snd (mm_channels m)"]
    by (simp add: MemListChannels_def channelOrder_def del: map_map)
qed

lemma bind_hide: "bindChannel (map_option hideReq body) = map_option hideReq (bindChannel body)"
  by (cases body) (auto simp: bindChannel_def hideReq_def)

lemma input_hide: "hideInput (toInput q i b) = toInput (hideReq q) i b" "hq_Format (hideReq q) = hq_Format q"
  "hq_ChannelID (hideReq q) = hq_ChannelID q" "\<not> ci_APIKeySet (toInput q i b) \<longrightarrow> ci_APIKey (toInput q i b) = []"
  "ci_APIKeySet (toInput q i b) = ci_APIKeySet (toInput (hideReq q) i b)" "ci_ChannelID (toInput q i b) = i"
  by (auto simp: hideInput_def toInput_def hideReq_def split: option.splits)

lemma hideRequest_eq: "hideRequest r1 = hideRequest r2 \<Longrightarrow> r1 = r2 \<or>
    (\<exists>b1 b2. r1 = AdmCreateChannel b1 \<and> r2 = AdmCreateChannel b2 \<and> map_option hideReq b1 = map_option hideReq b2) \<or>
    (\<exists>i b1 b2. r1 = AdmUpdateChannel i b1 \<and> r2 = AdmUpdateChannel i b2 \<and> map_option hideReq b1 = map_option hideReq b2)"
  by (cases r1; cases r2; simp)

lemma withChannel_hide:
  assumes "map_option hideReq b1 = map_option hideReq b2" "hideKeys (svd_store st1) = hideKeys (svd_store st2)"
    and same: "\<And>q1 q2. hideReq q1 = hideReq q2 \<Longrightarrow> shown (f q1 st1) = shown (f q2 st2)"
  shows "shown (withChannel b1 f st1) = shown (withChannel b2 f st2)"
proof -
  have "map_option hideReq (bindChannel b1) = map_option hideReq (bindChannel b2)"
    using assms(1) by (metis bind_hide)
  then consider "bindChannel b1 = None" "bindChannel b2 = None"
    | q1 q2 where "bindChannel b1 = Some q1" "bindChannel b2 = Some q2" "hideReq q1 = hideReq q2"
    by (cases "bindChannel b1"; cases "bindChannel b2") auto
  then show ?thesis
  proof cases
    case 2
    then have "hq_Format q1 = hq_Format q2" by (metis input_hide(2))
    then show ?thesis using 2 same [OF 2(3)] assms(2) by (simp add: withChannel_def)
  qed (use assms(2) in \<open>simp add: withChannel_def\<close>)
qed

lemma channel_requests_hide:
  assumes "policyService nl p limits sv" "map_option hideReq b1 = map_option hideReq b2" "hideKeys (svd_store st1) = hideKeys (svd_store st2)"
  shows "shown (createChannel sv t e b1 st1) = shown (createChannel sv t e b2 st2)"
    "shown (updateChannel sv t e i b1 st1) = shown (updateChannel sv t e i b2 st2)"
proof -
  have same: "hideInput (toInput q1 i c) = hideInput (toInput q2 i c)" "ci_APIKeySet (toInput q1 i c) = ci_APIKeySet (toInput q2 i c)"
    "hq_ChannelID q1 = hq_ChannelID q2" if "hideReq q1 = hideReq q2" for q1 q2 i c
    using that by (metis input_hide)+
  show "shown (createChannel sv t e b1 st1) = shown (createChannel sv t e b2 st2)"
    unfolding createChannel_def
  proof (rule withChannel_hide [OF assms(2,3)])
    fix q1 q2 assume q: "hideReq q1 = hideReq q2"
    show "shown (map_prod id (adminReply (channelReplyJSON t 201)) (SvcCreateChannel sv e (toInput q1 (hq_ChannelID q1) True) st1)) =
        shown (map_prod id (adminReply (channelReplyJSON t 201)) (SvcCreateChannel sv e (toInput q2 (hq_ChannelID q2) True) st2))"
      unfolding shown_channel svc_create_hide [OF assms(1)] assms(3) same(3) [OF q] same(1) [OF q] by (rule HOL.refl)
  qed
  show "shown (updateChannel sv t e i b1 st1) = shown (updateChannel sv t e i b2 st2)"
    unfolding updateChannel_def
  proof (rule withChannel_hide [OF assms(2,3)])
    fix q1 q2 assume q: "hideReq q1 = hideReq q2"
    show "shown (map_prod id (adminReply (channelReplyJSON t 200)) (SvcUpdateChannel sv e (toInput q1 i False) st1)) =
        shown (map_prod id (adminReply (channelReplyJSON t 200)) (SvcUpdateChannel sv e (toInput q2 i False) st2))"
      unfolding shown_channel svc_update_hide [OF assms(1) input_hide(4)] assms(3) same(1) [OF q] same(2) [OF q] input_hide(6)
      by (rule HOL.refl)
  qed
qed

lemma list_reply: "listChannels sv t e st =
    adminReply (\<lambda>cs. writeJSON 200 [(''data'', JArr (map (\<lambda>c. JObj (channelFields t c)) cs))])
      (map_sum id (map sanitizeChannel) (aop_ListChannels (sv_ops sv) e (svd_store st)))"
  by (cases "aop_ListChannels (sv_ops sv) e (svd_store st)") (simp_all add: listChannels_def adminReply_def comp_def)

lemma get_reply: "getChannel sv t e i st =
    adminReply (channelReplyJSON t 200) (map_sum id sanitizeChannel (aop_GetChannel (sv_ops sv) e i (svd_store st)))"
  by (simp add: getChannel_def reply_hide)

lemma same_request_hide:
  assumes sv: "policyService nl p limits sv" and same: "hideKeys (svd_store st1) = hideKeys (svd_store st2)"
  shows "shown (adminHandle sv t e req st1) = shown (adminHandle sv t e req st2)"
proof -
  have ops: "sv_ops sv = memAdminStore" using sv by (simp add: policyService_def)
  have reads: "MemListUsers now l n (svd_store st1) = MemListUsers now l n (svd_store st2)"
    "MemGetUser now u (svd_store st1) = MemGetUser now u (svd_store st2)"
    "MemListAPIKeysByUser now u (svd_store st1) = MemListAPIKeysByUser now u (svd_store st2)" for now l n u
    using same by (metis base_reads)+
  have list: "listChannels sv t x st1 = listChannels sv t x st2" for x
    unfolding list_reply by (simp only: ops memAdminStore_def admin_ops.simps flip: hide_list) (simp only: same)
  have get: "getChannel sv t x i st1 = getChannel sv t x i st2" for x i
    unfolding get_reply by (simp only: ops memAdminStore_def admin_ops.simps flip: hide_get) (simp only: same)
  note simps = same ops memAdminStore_def base_ops reads shown_channel
  show ?thesis
  proof (cases req)
    case (AdmCreateChannel b)
    then show ?thesis using channel_requests_hide [OF sv HOL.refl same] by simp
  next
    case (AdmUpdateChannel i b)
    then show ?thesis using channel_requests_hide [OF sv HOL.refl same] by simp
  next
    case (AdmSetChannelEnabled i b)
    show ?thesis
    proof (cases "bindEnabled b")
      case (Some c)
      show ?thesis
        unfolding AdmSetChannelEnabled adminHandle.simps setChannelEnabled_def Some option.case shown_channel
          svc_enable_hide [OF sv] same by (rule HOL.refl)
    qed (use AdmSetChannelEnabled same in \<open>simp add: setChannelEnabled_def\<close>)
  next
    case (AdmDeleteChannel i)
    have "shown (deleteChannel sv x i st) = map_prod id (adminReply (\<lambda>u. noContent))
        (map_prod hideKeys id (outcome (SvcDeleteChannel sv x i st)))" for x st
      by (simp add: deleteChannel_def map_prod_def split: prod.split)
    then show ?thesis using AdmDeleteChannel by (simp add: svc_delete_hide [OF sv] same)
  next
    case (AdmCreateUser b)
    then show ?thesis by (cases b) (simp_all add: createUser_def simps)
  next
    case (AdmListUsers l n)
    then show ?thesis by (simp add: listUsers_def simps split: sum.split)
  next
    case (AdmGetUser u)
    then show ?thesis by (simp add: getUser_def simps)
  next
    case (AdmSetUserEnabled u b)
    then show ?thesis by (cases "bindEnabled b") (simp_all add: setUserEnabled_def simps)
  next
    case (AdmAddBalance u b)
    then show ?thesis by (cases b) (simp_all add: addBalance_def simps)
  next
    case (AdmCreateKey u b)
    then show ?thesis by (cases b; cases "ac_gen e") (simp_all add: createKey_def simps)
  next
    case (AdmListKeys u)
    then show ?thesis by (simp add: listKeys_def simps)
  next
    case (AdmSetKeyEnabled u b)
    then show ?thesis by (cases "bindEnabled b") (simp_all add: setKeyEnabled_def simps)
  next
    case AdmListChannels
    then show ?thesis by (simp add: list same)
  next
    case (AdmGetChannel i)
    then show ?thesis by (simp add: get same)
  qed
qed

text \<open>Neither the reply nor what is stored, the credentials apart, depends on a credential.\<close>

lemma credentials_not_read:
  assumes "policyService nl p limits sv" "hideKeys (svd_store st1) = hideKeys (svd_store st2)" "hideRequest r1 = hideRequest r2"
  shows "shown (adminHandle sv t e r1 st1) = shown (adminHandle sv t e r2 st2)"
  using hideRequest_eq [OF assms(3)]
proof (elim disjE exE conjE)
  assume "r1 = r2"
  then show ?thesis using same_request_hide [OF assms(1,2)] by simp
next
  fix b1 b2
  assume r: "r1 = AdmCreateChannel b1" "r2 = AdmCreateChannel b2" "map_option hideReq b1 = map_option hideReq b2"
  show ?thesis unfolding r(1,2) adminHandle.simps by (rule channel_requests_hide(1) [OF assms(1) r(3) assms(2)])
next
  fix i b1 b2
  assume r: "r1 = AdmUpdateChannel i b1" "r2 = AdmUpdateChannel i b2" "map_option hideReq b1 = map_option hideReq b2"
  show ?thesis unfolding r(1,2) adminHandle.simps by (rule channel_requests_hide(2) [OF assms(1) r(3) assms(2)])
qed

section \<open>The channels of a start\<close>

text \<open>A start that gets its channels has left only envelopes behind, and routes the enabled channels of the
  table with their plain credentials.\<close>

lemma start_channels:
  assumes "ps_channelKeys ps = Some c" "cipher_ok c" "rows_keyed d" "loadStoredChannels ps cfg e1 e2 e3 d = (d', Inr chs)"
  shows "migratedTable c (an_dbnow e1) d d' \<and> (\<exists>cs. PgListChannels ps e3 d' = Inr cs \<and> chs = initialChannels cs)"
proof -
  obtain n where m: "MigrateChannelAPIKeys e1 (Some c) (dg_MigratePlaintext cfg) d = (d', Inr n)"
    "map_sum id initialChannels (PgListChannels ps e3 d') = Inr chs"
    using assms(1,4) by (auto simp: loadStoredChannels_def split: prod.splits sum.splits)
  show ?thesis
    using migration_outcome [OF assms(2,3) m(1)] m(2) by (cases "PgListChannels ps e3 d'") auto
qed

section \<open>Revoked keys\<close>

definition hashes_unique :: "pg_admin \<Rightarrow> bool" where
  "hashes_unique d \<longleftrightarrow> (\<forall>i j r r'. map_of (pd_keys d) i = Some r \<longrightarrow> map_of (pd_keys d) j = Some r' \<longrightarrow>
     kr_KeyHash r = kr_KeyHash r' \<longrightarrow> i = j)"

lemma resolved_row:
  assumes "PgResolveKey ps e key d = Inr x" "mwf (pd_keys d)"
  shows "\<exists>i r u. map_of (pd_keys d) i = Some r \<and> kr_KeyHash r = ps_hash ps key \<and> kr_Enabled r \<and>
    map_of (db_users (pd_billing d)) (kr_UserExternalID r) = Some u \<and> pu_Enabled u \<and> id_KeyID x = kr_KeyID r \<and>
    id_UserID x = kr_UserExternalID r"
  using assms
  by (auto simp: PgResolveKey_def admRead_def ResolveAPIKey_def admStmt_def mget_set find_Some_iff in_set_conv_nth
      split: if_splits option.splits prod.splits) metis

lemma find_mput: "map_of m i = Some r \<Longrightarrow> \<not> P (i, r) \<Longrightarrow> \<not> P (i, r') \<Longrightarrow> find P (mput i r' m) = find P m"
  by (induction m) auto

lemma find_mdel: "(\<And>r. (i, r) \<in> set m \<Longrightarrow> \<not> P (i, r)) \<Longrightarrow> find P (mdel i m) = find P m"
proof (induction m)
  case (Cons p m)
  then show ?case by (cases p) auto
qed simp

lemma hashes_insert:
  assumes "hashes_unique d" "pg_keys_inv d" "insertKey e p d = Inr (r, d')"
  shows "hashes_unique d'"
proof -
  have fresh: "kr_KeyHash x \<noteq> kp_KeyHash p" if "map_of (pd_keys d) j = Some x" for j x
    using assms(3) map_of_SomeD [OF that] by (auto simp: insertKey_def list_ex_iff split: if_splits)
  then show ?thesis
    using assms(1) insertKey_Inr [OF assms(3)] by (auto simp: hashes_unique_def newKeyRow_def dest: fresh)
qed

text \<open>A write that answers without an error made exactly its change.\<close>

lemma committed: "admCommit e d q = (d', Inr x) \<Longrightarrow> q = Inr (x, d')"
  by (auto simp: admCommit_def split: sum.splits commit_outcome.splits)

lemma disabled_key: "PgSetAPIKeyEnabled e i b d = (d', Inr k) \<Longrightarrow> \<exists>r. map_of (pd_keys d) i = Some r \<and>
    d' = d\<lparr>pd_keys := mput i (r\<lparr>kr_Enabled := b\<rparr>) (pd_keys d)\<rparr>"
  by (cases "admCommit e d (UpdateKeyEnabled e i b d)"; cases "snd (admCommit e d (UpdateKeyEnabled e i b d))")
     (auto simp: PgSetAPIKeyEnabled_def UpdateKeyEnabled_def admStmt_cases dest!: committed split: option.splits)

lemma deleted_key: "PgDeleteAPIKey e i d = (d', Inr u) \<Longrightarrow> d' = d\<lparr>pd_keys := mdel i (pd_keys d)\<rparr>"
  by (cases "admCommit e d (DeleteKeyRow e i d)"; cases "snd (admCommit e d (DeleteKeyRow e i d))")
     (auto simp: PgDeleteAPIKey_def DeleteKeyRow_def admStmt_cases someRow_def dest!: committed split: if_splits)

lemma disabled_user: "PgAdminSetUserEnabled e v b d = (d', Inr x) \<Longrightarrow> pd_keys d' = pd_keys d \<and>
    (\<exists>u. map_of (db_users (pd_billing d')) v = Some u \<and> pu_Enabled u = b)"
  by (cases "admCommit e d (UpdateUserEnabled e v b d)"; cases "snd (admCommit e d (UpdateUserEnabled e v b d))")
     (auto simp: PgAdminSetUserEnabled_def UpdateUserEnabled_def admStmt_cases putUser_def Let_def dest!: committed split: option.splits)

lemma revoked_unresolved:
  assumes "pg_keys_inv d" "hashes_unique d" "map_of (pd_keys d) i = Some r" "kr_KeyHash r = ps_hash ps key"
    and "PgSetAPIKeyEnabled e i False d = (d', Inr k) \<or> PgDeleteAPIKey e i d = (d', Inr ()) \<or>
      PgAdminSetUserEnabled e (kr_UserExternalID r) False d = (d', Inr u)"
  shows "PgResolveKey ps e' key d' \<noteq> Inr x"
proof
  assume res: "PgResolveKey ps e' key d' = Inr x"
  have wf: "mwf (pd_keys d)" using assms(1) by (simp add: pg_keys_inv_def)
  have same: "j = i" if "map_of (pd_keys d) j = Some r'" "kr_KeyHash r' = ps_hash ps key" for j r'
    using assms(2-4) that by (auto simp: hashes_unique_def)
  from assms(5) show False
  proof (elim disjE)
    assume "PgSetAPIKeyEnabled e i False d = (d', Inr k)"
    then show False using disabled_key [of e i False d d' k] resolved_row [OF res] wf assms(3) same
      by (auto split: if_splits)
  next
    assume "PgDeleteAPIKey e i d = (d', Inr ())"
    then show False using deleted_key [of e i d d' "()"] resolved_row [OF res] wf same by (auto split: if_splits)
  next
    assume "PgAdminSetUserEnabled e (kr_UserExternalID r) False d = (d', Inr u)"
    from disabled_user [OF this] show False using resolved_row [OF res] wf assms(3) same by auto
  qed
qed

lemma others_resolved:
  assumes "pg_keys_inv d" "map_of (pd_keys d) i = Some r" "ps_hash ps key \<noteq> kr_KeyHash r"
    and "PgSetAPIKeyEnabled e i False d = (d', Inr k) \<or> PgDeleteAPIKey e i d = (d', Inr ())"
  shows "PgResolveKey ps e' key d' = PgResolveKey ps e' key d"
proof -
  have only: "r' = r" if "(i, r') \<in> set (pd_keys d)" for r'
    using that assms(1,2) by (metis map_of_is_SomeI mwf_def option.inject pg_keys_inv_def)
  let ?P = "\<lambda>(i, r). kr_KeyHash r = ps_hash ps key \<and> kr_Enabled r \<and>
    (case map_of (db_users (pd_billing d)) (kr_UserExternalID r) of None \<Rightarrow> False | Some u \<Rightarrow> pu_Enabled u)"
  have "find ?P (pd_keys d') = find ?P (pd_keys d) \<and> pd_billing d' = pd_billing d"
    using assms(4)
  proof (elim disjE)
    assume "PgSetAPIKeyEnabled e i False d = (d', Inr k)"
    from disabled_key [OF this] show ?thesis using assms(2,3) by (auto intro!: find_mput)
  next
    assume "PgDeleteAPIKey e i d = (d', Inr ())"
    from deleted_key [OF this] show ?thesis using only assms(3) by (auto intro!: find_mdel)
  qed
  then show ?thesis by (simp add: PgResolveKey_def ResolveAPIKey_def admRead_def admStmt_def split: option.split)
qed

section \<open>A concrete database\<close>

text \<open>An AEAD that only has to satisfy its laws: the tag is the end of the associated data.\<close>

definition exampleTag :: "string \<Rightarrow> string" where
  "exampleTag a = take 16 (rev a @ replicate 16 (CHR 0x00))"

definition exampleAead :: aead where
  "exampleAead = \<lparr>ad_NonceSize = 12, ad_Overhead = 16, ad_Seal = (\<lambda>n p a. exampleTag a @ p),
     ad_Open = (\<lambda>n c a. if take 16 c = exampleTag a then Some (drop 16 c) else None)\<rparr>"

definition exampleCipher :: channel_key_cipher where
  "exampleCipher = \<lparr>kc_keyID = ''k1'', kc_aead = exampleAead\<rparr>"

definition examplePgStore :: pg_store where
  "examplePgStore = \<lparr>ps_channelKeys = Some exampleCipher, ps_hash = (\<lambda>k. k), ps_jsonb = Some\<rparr>"

definition exampleKeyRow :: db_api_key where
  "exampleKeyRow = \<lparr>kr_ID = 1, kr_KeyHash = ''sk-1'', kr_KeyID = ''key-1'', kr_UserExternalID = ''u'',
     kr_RateLimitPerMin = 60, kr_AllowedModels = [], kr_Enabled = True, kr_CreatedAt = 0\<rparr>"

definition exampleAdminDB :: pg_admin where
  "exampleAdminDB = \<lparr>pd_billing = \<lparr>db_users = [(''u'', \<lparr>pu_Balance = 0, pu_BalanceVersion = 0, pu_Enabled = True,
       pu_UpdatedAt = 0\<rparr>)], db_reservations = [], db_ledger = [], db_usage = []\<rparr>,
     pd_userID = (\<lambda>u. 1), pd_userCreated = (\<lambda>u. 0), pd_keys = [(''key-1'', exampleKeyRow)], pd_channels = []\<rparr>"

definition exampleAdminEnv :: admin_env where
  "exampleAdminEnv = \<lparr>an_fail = (\<lambda>st. False), an_commit = CommitOk, an_dbnow = 5, an_id = 2,
     an_rand = replicate 12 (CHR 0x01), an_overlap = 0\<rparr>"

definition exampleChannelInput :: channel_input where
  "exampleChannelInput = \<lparr>ci_ChannelID = ''c'', ci_Name = ''c'', ci_Format = ''openai'', ci_BaseURL = ''https://a'',
     ci_APIKey = ''secret'', ci_APIKeySet = True, ci_Models = Some [(''m'', ''m'')], ci_Priority = 0, ci_Weight = 1,
     ci_Enabled = True\<rparr>"

lemma exampleTag_length: "length (exampleTag a) = 16"
  by (simp add: exampleTag_def)

lemma example_cipher_ok: "cipher_ok exampleCipher"
  by (simp add: cipher_ok_def exampleCipher_def aead_ok_def exampleAead_def exampleTag_length validChannelKeyID_def
      keyIDChar_def)

lemma stringMap_wf: "unmarshalModels t = Some (Some m) \<Longrightarrow> mwf m"
proof -
  assume u: "unmarshalModels t = Some (Some m)"
  have "mwf (foldl (\<lambda>m (k, v). mput k v m) acc xs)" if "mwf acc" for acc :: "(string, string) gomap" and xs
    using that by (induction xs arbitrary: acc) auto
  moreover have "mwf ([] :: (string, string) gomap)" by (simp add: mwf_def)
  ultimately show "mwf m"
    using u by (auto simp: unmarshalModels_def Unmarshal_def decStringMap_def split: if_splits option.splits)
qed

lemma example_store_ok: "pg_store_ok examplePgStore"
  using example_cipher_ok stringMap_wf by (auto simp: pg_store_ok_def examplePgStore_def jsonb_ok_def)

lemma example_admin_inv: "pg_admin_inv examplePgStore exampleAdminDB"
  using example_store_ok by (simp add: pg_admin_inv_def exampleAdminDB_def mwf_def)

lemma example_keys_inv: "pg_keys_inv exampleAdminDB"
  by (simp add: pg_keys_inv_def exampleAdminDB_def exampleKeyRow_def mwf_def)

lemma example_input_ok: "op_ok (OpCreate exampleChannelInput)"
proof -
  have "validUTF8 ''m''" by code_simp
  then show ?thesis by (simp add: input_ok_def exampleChannelInput_def models_ok_def mwf_def)
qed

section \<open>The properties\<close>

text \<open>C15. The encrypted rows of \<open>channels\<close> implement the table of channels with plain credentials: whichever
  statements fail and whatever becomes of the commit, a create, an update, a switch or a deletion is the
  step of the table, with its reply, or an outage that left the table as it was or made exactly that
  step. In particular the credential that is read back is the one that was written, an update without one
  keeps the old one, and every stored credential stays an envelope that opens.\<close>

theorem pg_channels_refine:
  assumes "pg_admin_inv ps d" "op_ok op" "chanExec (pgAdminStore ps) e op d = (d', r)"
  shows "pg_admin_inv ps d' \<and> agrees (pg_chans ps d) (achStep op (pg_chans ps d)) (pg_chans ps d', r)"
  using assms by (rule pg_channels.exec)

lemma pg_channels_refine_witness:
  "pg_admin_inv examplePgStore (fst (chanExec (pgAdminStore examplePgStore) exampleAdminEnv (OpCreate exampleChannelInput) exampleAdminDB))"
  using pg_channels_refine [OF example_admin_inv example_input_ok surjective_pairing] by blast

text \<open>C16. What the management service answers is what the gateway serves: after a write of a channel that
  succeeded, the table of channels has made exactly that step, and the router serves exactly the new table,
  unless the reload failed, which leaves the router as it was; after an error the router is untouched.\<close>

theorem channel_write_live:
  assumes "pg_admin_inv ps (svd_store st)" "op_ok op" "sv_ops sv = pgAdminStore ps" "svcExec sv e op st = (st', r)"
  shows "pg_admin_inv ps (svd_store st') \<and> channelWrite sv (pg_chans ps) e op st st' r"
  using assms by (rule pg_channels.served)

definition exampleService :: "(admin_env, pg_admin) service" where
  "exampleService = \<lparr>sv_ops = pgAdminStore examplePgStore, sv_validateChannel = None\<rparr>"

definition exampleServed :: "pg_admin served" where
  "exampleServed = \<lparr>svd_store = exampleAdminDB, svd_router = Some (NewRouter [] DefaultBreakerConfig)\<rparr>"

definition exampleServiceEnv :: "admin_env service_env" where
  "exampleServiceEnv = \<lparr>se_get = exampleAdminEnv, se_write = exampleAdminEnv, se_list = exampleAdminEnv\<rparr>"

lemma channel_write_live_witness:
  "pg_admin_inv examplePgStore (svd_store (fst (svcExec exampleService exampleServiceEnv (OpCreate exampleChannelInput) exampleServed)))"
  using channel_write_live [OF _ example_input_ok _ surjective_pairing, of examplePgStore exampleServed exampleService]
    example_admin_inv by (simp add: exampleServed_def exampleService_def del: svcExec.simps)

text \<open>C19. The envelope of a credential opens, for its channel, to the credential. A cipher that opens it for
  any other channel has the same key id and accepts the sealed text under associated data that it was not
  sealed with, which is a forgery of the AEAD.\<close>

theorem channel_key_envelope:
  assumes "cipher_ok c" "Encrypt (Some c) rand channelID plaintext = Inr env"
  shows "isChannelKeyEnvelope env \<and> Decrypt (Some c) channelID env = Inr plaintext \<and>
    (\<exists>nonce. length nonce = 12 \<and> (\<forall>c' other q. cipher_ok c' \<longrightarrow> Decrypt (Some c') other env = Inr q \<longrightarrow>
       kc_keyID c' = kc_keyID c \<and>
       ad_Open (kc_aead c') nonce (ad_Seal (kc_aead c) nonce plaintext (channelKeyAAD channelID)) (channelKeyAAD other) = Some q \<and>
       (other \<noteq> channelID \<longrightarrow> channelKeyAAD other \<noteq> channelKeyAAD channelID)))"
proof -
  from assms(2) obtain n where n: "length n = 12" "env = envelopeOf c (n @ ad_Seal (kc_aead c) n plaintext (channelKeyAAD channelID))"
    using assms(1) by (elim Encrypt_cases) (auto simp: cipher_ok_def aead_ok_def)
  have "kc_keyID c' = kc_keyID c \<and>
      ad_Open (kc_aead c') n (ad_Seal (kc_aead c) n plaintext (channelKeyAAD channelID)) (channelKeyAAD other) = Some q"
    if "cipher_ok c'" "Decrypt (Some c') other env = Inr q" for c' other q
    using Decrypt_envelope [OF that(2) [unfolded n(2)]] that(1) n(1) by (auto simp: cipher_ok_def aead_ok_def)
  then show ?thesis
    using n(1) assms Decrypt_Encrypt Encrypt_envelope channelKeyAAD_inj by blast
qed

lemma example_encrypt: "Encrypt (Some exampleCipher) (replicate 12 (CHR 0x01)) ''c'' ''secret'' =
    Inr (envelopeOf exampleCipher (replicate 12 (CHR 0x01) @ exampleTag (channelKeyAAD ''c'') @ ''secret''))"
  by (simp add: Encrypt_def exampleCipher_def exampleAead_def maxChannelAPIKeyBytes_def envelopeOf_def)

lemma channel_key_envelope_witness:
  "Decrypt (Some exampleCipher) ''c''
     (envelopeOf exampleCipher (replicate 12 (CHR 0x01) @ exampleTag (channelKeyAAD ''c'') @ ''secret'')) = Inr ''secret''"
  using channel_key_envelope [OF example_cipher_ok example_encrypt] by blast

text \<open>C20. The migration of plaintext credentials is all or nothing. A run that succeeds leaves every row an
  envelope: a plaintext was replaced by an envelope that opens, for that channel, to the plaintext, a row
  that was an envelope opens and is unchanged, no other column but the time changed, and the count is the
  number of plaintexts. A run that fails changed nothing, unless the fate of its commit is unknown. Without
  the permission to migrate nothing is ever changed.\<close>

theorem migration_all_or_nothing:
  assumes "cipher_ok c" "rows_keyed d" "MigrateChannelAPIKeys e (Some c) permitted d = (d', r)"
  shows "(d' = d \<or> permitted \<and> migratedTable c (an_dbnow e) d d') \<and>
    (case r of
       Inl err \<Rightarrow> d' = d \<or> err = ErrPg ''commit''
     | Inr n \<Rightarrow> migratedTable c (an_dbnow e) d d' \<and>
         n = int (length (filter (\<lambda>(i, r). \<not> isChannelKeyEnvelope (dc_ApiKey r)) (pd_channels d))))"
  using assms by (rule migration_outcome)

definition examplePlainRow :: db_channel where
  "examplePlainRow = \<lparr>dc_ID = 1, dc_ChannelID = ''c'', dc_Name = ''c'', dc_Format = ''openai'', dc_BaseURL = ''https://a'',
     dc_ApiKey = ''secret'', dc_Models = ''{}'', dc_Priority = 0, dc_Weight = 1, dc_Enabled = True,
     dc_CreatedAt = 0, dc_UpdatedAt = 0\<rparr>"

definition examplePlainDB :: pg_admin where
  "examplePlainDB = exampleAdminDB\<lparr>pd_channels := [(''c'', examplePlainRow)]\<rparr>"

lemma example_rows: "rows_keyed examplePlainDB"
  by (simp add: rows_keyed_def examplePlainDB_def examplePlainRow_def mwf_def)

lemma migration_all_or_nothing_witness:
  "let d' = fst (MigrateChannelAPIKeys exampleAdminEnv (Some exampleCipher) True examplePlainDB)
   in d' = examplePlainDB \<or> migratedTable exampleCipher 5 examplePlainDB d'"
  using migration_all_or_nothing [OF example_cipher_ok example_rows surjective_pairing, of exampleAdminEnv True]
  by (auto simp: Let_def exampleAdminEnv_def)

text \<open>C17. A request of \<open>/me\<close> reaches only keys of the user of its session, whatever the other requests do
  between the check of the owner and the write, as long as no key changes hands: no key of another user
  appears, changes or goes; a key that appears is enabled and allowed between 1 and 5000 requests a
  minute; the user has at most 50 keys afterwards, unless another creation of the same user overlapped in
  the statement; and the list shows keys of that user as they are stored.\<close>

theorem me_requests_confined:
  assumes "pg_keys_inv (svd_store seen)" "pg_keys_inv (svd_store st)"
    and "sameOwners (pg_keys (svd_store seen)) (pg_keys (svd_store st))"
    and "sv_ops (mh_svc h) = pgAdminStore ps" "meHandle h e sess req seen st = (st', rep)"
  shows "pg_keys_inv (svd_store st') \<and>
    meConfined (mh_timeText h) (alone (mv_call e)) (sessionExternalID sess) req
      (pg_keys (svd_store st)) (pg_keys (svd_store st')) rep"
  using assms by (rule pg_key_table.me_confined)

definition exampleMe :: "(admin_env, pg_admin) me_handlers" where
  "exampleMe = \<lparr>mh_svc = exampleService, mh_balance = PgBalance, mh_timeText = (\<lambda>t. [])\<rparr>"

definition exampleMeEnv :: "admin_env me_env" where
  "exampleMeEnv = \<lparr>mv_check = exampleAdminEnv, mv_call = exampleAdminEnv,
     mv_gen = Inr \<lparr>gk_APIKey = ''sk-2'', gk_KeyID = ''key-2''\<rparr>\<rparr>"

definition exampleVisitor :: "session_data option" where
  "exampleVisitor = Some \<lparr>sd_AccountID = 1, sd_Username = ''name'', sd_Role = ''user'', sd_ExternalID = ''u'',
     sd_CSRFToken = [], sd_SessionVersion = 0\<rparr>"

lemma me_requests_confined_witness:
  "let st' = fst (meHandle exampleMe exampleMeEnv exampleVisitor (MeDeleteKey ''key-1'') exampleServed exampleServed)
   in svd_store st' \<noteq> exampleAdminDB \<and> ownChange ''u'' (pg_keys exampleAdminDB) (pg_keys (svd_store st'))"
proof -
  have own: "sessionExternalID exampleVisitor = ''u''" by (simp add: sessionExternalID_def exampleVisitor_def)
  have run: "meHandle exampleMe exampleMeEnv exampleVisitor (MeDeleteKey ''key-1'') exampleServed exampleServed =
      (exampleServed\<lparr>svd_store := exampleAdminDB\<lparr>pd_keys := []\<rparr>\<rparr>, noContent)"
    by (simp add: meDeleteKey_def ownedKey_def own exampleMe_def exampleMeEnv_def exampleService_def exampleServed_def
        pgAdminStore_def PgListAPIKeysByUser_def ListKeyRows_def admRead_def admStmt_def exampleAdminEnv_def
        exampleAdminDB_def exampleKeyRow_def PgDeleteAPIKey_def DeleteKeyRow_def admCommit_def mhas_def someRow_def)
  have "meConfined (mh_timeText exampleMe) (alone (mv_call exampleMeEnv)) ''u'' (MeDeleteKey ''key-1'')
      (pg_keys exampleAdminDB) (pg_keys (exampleAdminDB\<lparr>pd_keys := []\<rparr>)) noContent"
    using me_requests_confined [OF _ _ _ _ run, of examplePgStore] example_keys_inv
    by (simp add: own exampleServed_def exampleMe_def exampleService_def sameOwners_def)
  moreover have "exampleAdminDB\<lparr>pd_keys := []\<rparr> \<noteq> exampleAdminDB" by (simp add: exampleAdminDB_def)
  ultimately show ?thesis unfolding run Let_def by (simp add: meConfined_def)
qed


definition exampleMemChannel :: "string \<Rightarrow> admin_channel" where
  "exampleMemChannel key = \<lparr>cn_ChannelID = ''c'', cn_Name = ''c'', cn_Format = ''openai'', cn_BaseURL = ''https://a'',
     cn_APIKey = key, cn_Models = Some [], cn_Priority = 0, cn_Weight = 1, cn_Enabled = True, cn_CreatedAt = 0,
     cn_UpdatedAt = 0\<rparr>"

definition exampleMemServed :: "string \<Rightarrow> mem_admin served" where
  "exampleMemServed key = \<lparr>svd_store = \<lparr>mm_base = \<lparr>ms_heap = [], ms_next = 0, ms_keys = [], ms_keyByID = [],
       ms_balances = [], ms_users = []\<rparr>,
     mm_channels = [(''c'', exampleMemChannel key)]\<rparr>, svd_router = None\<rparr>"

definition exampleMemService :: "(gotime, mem_admin) service" where
  "exampleMemService = \<lparr>sv_ops = memAdminStore, sv_validateChannel = None\<rparr>"


text \<open>C14. A key that is disabled, deleted, or whose user is disabled is refused from the moment the write is
  answered: no request that presents it is authenticated, whatever the surroundings of the lookup. A key
  with another digest authenticates as before when a key is disabled or deleted. The gate in front of the
  store gets its permit back in either case.\<close>

theorem revoked_key_refused:
  assumes "pg_keys_inv d" "hashes_unique d" "map_of (pd_keys d) i = Some r" "\<forall>g. gate = Some g \<longrightarrow> sem_ok g"
    and "PgSetAPIKeyEnabled e i False d = (d', Inr k) \<or> PgDeleteAPIKey e i d = (d', Inr ()) \<or>
      PgAdminSetUserEnabled e (kr_UserExternalID r) False d = (d', Inr u)"
  shows "(ps_hash ps (extractAPIKey hs) = kr_KeyHash r \<longrightarrow>
       (\<exists>w. authWithGate adapters protocol (\<lambda>key. PgResolveKey ps e' key d') gate hs = (gate, Inl w))) \<and>
     (ps_hash ps (extractAPIKey hs) \<noteq> kr_KeyHash r \<and>
        (PgSetAPIKeyEnabled e i False d = (d', Inr k) \<or> PgDeleteAPIKey e i d = (d', Inr ())) \<longrightarrow>
       (\<forall>x. authWithGate adapters protocol (\<lambda>key. PgResolveKey ps e' key d') gate hs = (gate, Inr x) \<longleftrightarrow>
            authWithGate adapters protocol (\<lambda>key. PgResolveKey ps e' key d) gate hs = (gate, Inr x)))"
proof -
  define auth where "auth d = authWithGate adapters protocol (\<lambda>key. PgResolveKey ps e' key d) gate hs" for d
  have gate: "fst (auth d) = gate" for d using authWithGate_gate [OF assms(4)] by (simp add: auth_def)
  have "\<exists>w. auth d' = (gate, Inl w)" if "ps_hash ps (extractAPIKey hs) = kr_KeyHash r"
  proof (cases "snd (auth d')")
    case (Inl w)
    then show ?thesis using gate [of d'] by (cases "auth d'") auto
  next
    case (Inr x)
    then have "PgResolveKey ps e' (extractAPIKey hs) d' = Inr x" by (simp add: auth_def authWithGate_Inr)
    then show ?thesis using revoked_unresolved [OF assms(1-3) that [symmetric] assms(5)] by blast
  qed
  moreover have "auth d' = (gate, Inr x) \<longleftrightarrow> auth d = (gate, Inr x)"
    if "ps_hash ps (extractAPIKey hs) \<noteq> kr_KeyHash r"
      "PgSetAPIKeyEnabled e i False d = (d', Inr k) \<or> PgDeleteAPIKey e i d = (d', Inr ())" for x
  proof -
    have "snd (auth d') = Inr x \<longleftrightarrow> snd (auth d) = Inr x"
      unfolding auth_def authWithGate_Inr others_resolved [OF assms(1,3) that] by (rule HOL.refl)
    moreover have "auth x = (gate, y) \<longleftrightarrow> snd (auth x) = y" for x y using gate [of x] by (cases "auth x") auto
    ultimately show ?thesis by simp
  qed
  ultimately show ?thesis by (simp add: auth_def)
qed

definition exampleAuth :: auth_headers where
  "exampleAuth = \<lparr>ha_Authorization = ''Bearer sk-1'', ha_XAPIKey = []\<rparr>"

lemma revoked_key_refused_witness:
  "\<exists>w. authWithGate noAdapters [] (\<lambda>key. PgResolveKey examplePgStore exampleAdminEnv key (exampleAdminDB\<lparr>pd_keys := []\<rparr>))
     None exampleAuth = (None, Inl w)"
proof -
  have del: "PgDeleteAPIKey exampleAdminEnv ''key-1'' exampleAdminDB = (exampleAdminDB\<lparr>pd_keys := []\<rparr>, Inr ())"
    by (simp add: PgDeleteAPIKey_def DeleteKeyRow_def admStmt_def admCommit_def exampleAdminEnv_def exampleAdminDB_def
        mhas_def someRow_def)
  have key: "extractAPIKey exampleAuth = ''sk-1''" by code_simp
  have "hashes_unique exampleAdminDB" "map_of (pd_keys exampleAdminDB) ''key-1'' = Some exampleKeyRow"
    by (simp_all add: hashes_unique_def exampleAdminDB_def)
  from revoked_key_refused [OF example_keys_inv this _ disjI2 [OF disjI1 [OF del]], of None examplePgStore exampleAuth]
  show ?thesis by (simp add: key examplePgStore_def exampleKeyRow_def)
qed

end
