(* ===== verification/Spec2Isabelle.thy ===== *)
theory Spec2Isabelle
  imports Pricing Store LedgerSpec MemLedger PgLedger Canonical Billing Breaker Routing GoStrings GoJson Sse
    StreamUsage RequestBody TargetPolicy ErrorRelay Forward ForwardProps Gateway
    RateLimit Account PgAccount Session Console ConsoleProps
    JsonCodec OpenAI OpenAIStream Anthropic AnthropicStream Adapters
    JsonProps StreamProps CodecProps
    ChannelKeys Admin AdminSpec PgAdmin PgAdminProps AdminApi HttpEdge Startup Migrations AdminApiProps
begin

text \<open>
  LinAPI is a gateway in front of language model providers. A client sends a chat completion in the
  OpenAI or the Anthropic format with an API key; the gateway authenticates the key, bounds the
  output, freezes the worst-case cost of the request on the user's balance, picks an upstream
  channel, forwards the request (translated when the formats differ), relays the answer or the stream,
  and settles what was really used. Users and administrators manage keys and channels over a console.
  This development models both in Go's terms, from the bytes of the request to the rows of the tables,
  and proves what makes them correct about money, about failover, about who may do what and about what
  leaves the gateway.

  \<^bold>\<open>Parts and theories.\<close> Source paths are under \<open>src/internal/\<close>.

  \<^item> \<open>Prelude\<close>: association lists as Go maps (\<open>gomap\<close>, \<open>mput\<close>, \<open>mget0\<close>, \<open>msum\<close>), \<open>i64\<close> for the wrap-around of
    \<open>int64\<close>, the error values of the program (\<open>goerr\<close>) with \<open>errors_is\<close>, results as sums.
  \<^item> \<open>Pricing\<close> (\<open>billing/pricing.go\<close>): integer prices per million tokens, policies, strict pricing, and
    costs with every multiplication and addition checked for overflow.
  \<^item> \<open>LedgerSpec\<close> (\<open>billing/ledger.go\<close>): the data of the \<open>Ledger\<close> interface, an abstract ledger \<open>astep\<close>, and the
    locale \<open>ledger_contract\<close>; whatever implements it conserves each user's worth (balance, plus what
    is held, plus what was charged), and a consumed reservation is final.
  \<^item> \<open>Store\<close> (\<open>store/store.go\<close>, \<open>store/memory.go\<close>): keys, identities and balances in memory, with the
    shared identity pointers as a heap.
  \<^item> \<open>MemLedger\<close> (\<open>billing/memory_ledger.go\<close>) and \<open>PgLedger\<close> (\<open>billing/postgres_ledger.go\<close> with the queries of
    \<open>db/billing.sql.go\<close>): the two ledgers, both interpretations of \<open>ledger_contract\<close>. In \<open>PgLedger\<close> a
    transaction is a function on tables; its environment \<open>pg_env\<close> chooses which statements fail and
    whether the commit succeeds, fails or is lost.
  \<^item> \<open>Billing\<close> (\<open>billing/billing.go\<close>): the facade, its settlement cost for complete, partial and missing
    usage, and the locale \<open>settling_ledger\<close> that extends the contract.
  \<^item> \<open>Breaker\<close>, \<open>Routing\<close> (\<open>routing/\<close>): the circuit breaker with its generations and half-open probes, as
    operations and as a step relation; channels, the weighted shuffle and the router with its snapshot
    and breaker heap. The random generator is a parameter.
  \<^item> \<open>Canonical\<close> (\<open>canonical/\<close>): the provider-neutral requests, responses, usage and stream events.
  \<^item> \<open>GoStrings\<close>, \<open>GoJson\<close>: what is used of Go's \<open>strings\<close>, \<open>bytes\<close>, \<open>strconv\<close> and of \<open>encoding/json\<close> on raw
    messages (scanner, object members, quoting, compaction), on strings of bytes.
  \<^item> \<open>Sse\<close> (\<open>forwarder/upstream.go\<close>, \<open>adapter/sse.go\<close>): the reader of server-sent events.
  \<^item> \<open>StreamUsage\<close> (\<open>forwarder/stream.go\<close>): the usage accounting of a stream.
  \<^item> \<open>RequestBody\<close> (\<open>forwarder/request_normalize.go\<close>, \<open>forwarder/output_limit.go\<close>): the rewriting of request
    bodies with the output bound.
  \<^item> \<open>TargetPolicy\<close> (\<open>forwarder/target_policy.go\<close>): which base URLs and which addresses may be dialled.
  \<^item> \<open>ErrorRelay\<close> (\<open>forwarder/response_error.go\<close>, \<open>middleware/protocol.go\<close>, \<open>adapter/adapter.go\<close>): the adapter
    interface as records, error documents and the headers passed on.
  \<^item> \<open>Forward\<close> (\<open>forwarder/forwarder.go\<close>, \<open>nonstream.go\<close>, \<open>stream.go\<close>, \<open>upstream.go\<close>, \<open>models.go\<close>): the request
    path. A gateway is a router, a ledger, the header of the response and the list of external effects
    (upstream calls, writes to the client, breaker permits). What the code does not decide (clock,
    cancellation at each check, replies, client writes, ledger outcomes) is in the environments, so a
    theorem about all environments covers every failure and every interleaving point.
  \<^item> \<open>ForwardProps\<close>, \<open>Gateway\<close>: the lemmas of the request path, for any \<open>settling_ledger\<close>, and its properties
    on the PostgreSQL ledger.
  \<^item> \<open>RateLimit\<close> (\<open>middleware/ratelimit.go\<close>, \<open>middleware/authlimit.go\<close>): the token bucket that runs in Redis, in
    exact rational arithmetic, the limiters over it and the bcrypt semaphore; the locale \<open>token_client\<close>
    bounds what one key is granted.
  \<^item> \<open>Account\<close> (\<open>account/account.go\<close>, \<open>memory.go\<close>, \<open>password.go\<close>, \<open>settings.go\<close>) and \<open>PgAccount\<close> (\<open>account/postgres.go\<close>
    with \<open>db/accounts.sql.go\<close> and \<open>db/settings.sql.go\<close>): the console accounts; both stores are
    interpretations of the locale \<open>account_store\<close>.
  \<^item> \<open>Session\<close> (\<open>session/session.go\<close>, \<open>middleware/session_auth.go\<close>, \<open>middleware/csrf.go\<close>): sessions in Redis with
    the index that bounds their number, the session guards and the CSRF check.
  \<^item> \<open>Console\<close> (\<open>server/auth_handlers.go\<close>, \<open>server/account_handlers.go\<close>): registration, login, logout, the
    account and settings endpoints, and the guard of the admin group. \<open>ConsoleProps\<close>: the runs of a
    console as an inductive relation, the locale \<open>console_server\<close> over any account store, its
    interpretations for both stores, and what they guarantee. Error texts are in English here.
  \<^item> \<open>JsonCodec\<close>: what is used of \<open>encoding/json\<close> with typed targets: decoding into Go structs (case folding
    of member names, the last of several members, null, numbers that do not fit) and encoding with the
    order of the fields and \<open>omitempty\<close>. A \<open>float64\<close> is the rational that it holds, rounded as \<open>strconv\<close> does.
  \<^item> \<open>OpenAI\<close>, \<open>OpenAIStream\<close> (\<open>adapter/openai/\<close>), \<open>Anthropic\<close>, \<open>AnthropicStream\<close> (\<open>adapter/anthropic/\<close>): the two
    codecs for requests, responses, errors and streams; \<open>Adapters\<close> (\<open>adapter/registry.go\<close>, \<open>adapter/all/\<close>):
    the registry. The decoder of a stream closes the blocks that are open in the order of a Go map,
    which is the parameter \<open>ord\<close>. \<open>JsonProps\<close>, \<open>StreamProps\<close>, \<open>CodecProps\<close>: their lemmas.
  \<^item> \<open>ChannelKeys\<close> (\<open>admin/channel_key_crypto.go\<close>): the envelope of a channel credential over an AEAD, which
    is a parameter with the law \<open>aead_ok\<close>.
  \<^item> \<open>Admin\<close> (\<open>admin/store.go\<close>, \<open>memory.go\<close>, \<open>channels.go\<close>, \<open>keygen.go\<close>, \<open>service.go\<close>): the management service
    over the record \<open>admin_ops\<close> of a store, and the memory store. \<open>AdminSpec\<close>: the abstract table of
    channels and of keys, the locales \<open>channel_store\<close> and \<open>key_store\<close> with what a client may rely on, and
    the interpretations for the memory store.
  \<^item> \<open>PgAdmin\<close> (\<open>admin/postgres.go\<close>, \<open>admin/channel_key_migration.go\<close>, \<open>store/postgres.go\<close>, the queries of
    \<open>db/users.sql.go\<close>, \<open>db/api_keys.sql.go\<close>, \<open>db/channels.sql.go\<close>, \<open>db/channel_keys.sql.go\<close>, \<open>db/usage_logs.sql.go\<close>): the
    PostgreSQL store over tables; any statement may fail and any commit may be lost or unknown. A count
    under an advisory lock sees the snapshot of its statement, so \<open>an_overlap\<close> says how
    many keys of the same user it does not see. Order by text is by bytes. \<open>PgAdminProps\<close>: the
    interpretations \<open>pg_channels\<close> and \<open>pg_key_table\<close> of the two locales, and the migration.
  \<^item> \<open>AdminApi\<close> (\<open>server/admin_handlers.go\<close>, \<open>admin_channels.go\<close>, \<open>me_handlers.go\<close>): the endpoints for
    administrators and the self-service of a user, with their dispatch. \<open>HttpEdge\<close> (\<open>middleware/auth.go\<close>,
    \<open>bodylimit.go\<close>, \<open>metrics_auth.go\<close>, \<open>server/server.go\<close>): what a request passes before its handler, health and
    model endpoints.
  \<^item> \<open>Startup\<close> (\<open>config/config.go\<close>, \<open>forwarder/channels.go\<close>, \<open>redisx/redisx.go\<close>, \<open>cmd/linapi/main.go\<close>): the
    configuration with its defaults, the checks of a release, and how stores, billing and gateway are
    built from it. Which of several models without a price is reported first depends on the order of a Go
    map; the model reports the first of the channel list.
  \<^item> \<open>Migrations\<close> (\<open>db/pool.go\<close>): the versioned migrations of the schema. What a script does to a schema is the
    parameter \<open>sql_engine\<close>.
  \<^item> \<open>AdminApiProps\<close>: the properties of the management and the self-service interface, proved from the
    locales and stated on the PostgreSQL store.

  \<^bold>\<open>What the lemmas show.\<close> Pricing: exact costs or an error, and the reserved cost covers every usage
  within the bounds. Ledgers: refinement of the abstract ledger under any failures, settlement exactly
  once, books that reconcile, honest recovery. Billing: a settlement never undercharges what was used
  and never exceeds the reservation. Breaker: probe limit, late results without effect, no deadlock.
  Routing: selection is exactly the ready channels by priority, drawn in proportion to weight.
  Streams: framing round trip, termination, and exact accounting only on the word of a final usage.
  Forwarding: money is conserved, at most one upstream can charge for a request and its reservation is
  never refunded, nobody is served without a reservation, permits are returned, the client gets one
  response. Codecs: the block protocol of a decoded stream, no fragment lost, and round trips of
  responses and errors. Dialling and headers: nothing outside the allow lists. Limits: no key is
  granted more than its burst and refill. Console: only a current session of an enabled administrator
  passes the admin guard, disabling an account or resetting its password ends its sessions, failed
  logins are alike, a registration grants no money, and a logout that could not be made is reported.
  Management: the encrypted rows of channels refine a table with plain credentials, the router serves
  what the table holds after a write, credentials do not influence a reply, revoked keys are refused
  from then on, and self-service reaches only the own keys. Migrations of credentials and of the
  schema are all or nothing.

  \<^bold>\<open>Bounds and fuel.\<close> \<open>int\<close> and \<open>int64\<close> are integers with \<open>i64\<close> where the code may wrap; breaker generations are
  64-bit words, addresses 32- and 128-bit words. The only fuel is the length of the string in
  \<open>unquoteFuel\<close>, \<open>quoteFuel\<close>, \<open>compactLoop\<close> and \<open>anyFuel\<close>, each of which consumes a byte per step.
  The stream loop terminates because every record consumes input. An upstream that never ends
  its body is a body of any length followed by the error that ends it.

  \<^bold>\<open>Not modelled.\<close> Goroutines: a mutex-protected method or a database transaction is one atomic step, and
  one request runs against a ledger that others may have brought to any reachable state before it; the
  self-service handlers, which check and then write, get the two states separately.
  The text of error messages (in English where a reply shows it), logging, the Prometheus counters and
  panic recovery. URL and address syntax (\<open>net/url\<close>, \<open>net/netip\<close>), TLS and the HTTP transport, which are
  parameters of the forwarder. \<open>strings.ToLower\<close> and \<open>EqualFold\<close> are modelled on the letters that can matter
  to the names they are compared with. In JSON the sign of a zero (but in an \<open>any\<close>) and the reuse of the members of an
  array that is decoded twice into the same target are left out, and a nil slice is the empty list.
  Password hashing, AES-GCM, SHA-256, the random source, the normal form of a JSONB column, and the JSON
  of the request bodies of the console and of the management interface are parameters; their handlers
  start from the decoded body. Reading the configuration (viper), connections to PostgreSQL and Redis,
  signals, tickers, the listener and the static files of the console are I/O.
\<close>

end
